(* ===== verification/Prelude.thy ===== *)
theory Prelude
  imports
    Complex_Main
    "HOL-Library.AList"
    "HOL-Library.Char_ord"
    "HOL-Library.Multiset"
    "HOL-Library.List_Lexorder"
    "HOL-Library.Product_Lexorder"
    "HOL-Library.Word"
begin

text \<open>
  Shared material of the development: Python dictionaries as association lists that keep
  insertion order, the state-and-exception operations in which every stateful method of
  the program is written, the rules that carry an invariant through such an operation, and
  the string and identifier helpers several components use.

  An operation of type \<open>('s, 'e, 'a) op\<close> takes the state and returns either a raised
  exception or a result, \<^emph>\<open>together with\<close> the state reached: a Python exception does not
  undo the mutations made before it, and the atomicity theorems are about exactly that.
\<close>

named_theorems keeps_intros \<open>rules that carry an invariant through an operation\<close>
named_theorems dict_simps \<open>lookup and key laws of insertion-ordered dictionaries\<close>

section \<open>Insertion-ordered dictionaries\<close>

text \<open>
  A Python \<open>dict\<close> iterates in insertion order, overwriting a key keeps its position and a
  new key goes last. \<open>AList.update\<close> does exactly this, \<open>AList.delete\<close> is \<open>del\<close> / \<open>pop\<close>.
\<close>

type_synonym ('k, 'v) dict = "('k \<times> 'v) list"

abbreviation dict_get :: "('k, 'v) dict \<Rightarrow> 'k \<Rightarrow> 'v option" where
  "dict_get d k \<equiv> map_of d k"

abbreviation dict_set :: "'k \<Rightarrow> 'v \<Rightarrow> ('k, 'v) dict \<Rightarrow> ('k, 'v) dict" where
  "dict_set k v d \<equiv> AList.update k v d"

abbreviation dict_pop :: "'k \<Rightarrow> ('k, 'v) dict \<Rightarrow> ('k, 'v) dict" where
  "dict_pop k d \<equiv> AList.delete k d"

abbreviation dict_keys :: "('k, 'v) dict \<Rightarrow> 'k list" where
  "dict_keys d \<equiv> map fst d"

abbreviation dict_values :: "('k, 'v) dict \<Rightarrow> 'v list" where
  "dict_values d \<equiv> map snd d"

definition dict_has :: "('k, 'v) dict \<Rightarrow> 'k \<Rightarrow> bool" where
  "dict_has d k \<longleftrightarrow> dict_get d k \<noteq> None"

definition dict_ok :: "('k, 'v) dict \<Rightarrow> bool" where
  "dict_ok d \<longleftrightarrow> distinct (dict_keys d)"

lemma dict_ok_nil [simp]: "dict_ok []"
  by (simp add: dict_ok_def)

lemma dict_ok_set [simp, intro]: "dict_ok d \<Longrightarrow> dict_ok (dict_set k v d)"
  by (simp add: dict_ok_def distinct_update)

lemma dict_ok_pop [simp, intro]: "dict_ok d \<Longrightarrow> dict_ok (dict_pop k d)"
  by (simp add: dict_ok_def distinct_delete)

lemma dict_get_set [simp, dict_simps]:
  "dict_get (dict_set k v d) j = (if j = k then Some v else dict_get d j)"
  by (simp add: update_conv')

lemma dict_get_pop [simp, dict_simps]:
  "dict_get (dict_pop k d) j = (if j = k then None else dict_get d j)"
  by (simp add: delete_conv')

lemma dict_has_set [simp, dict_simps]: "dict_has (dict_set k v d) j \<longleftrightarrow> j = k \<or> dict_has d j"
  by (simp add: dict_has_def)

lemma dict_has_nil [simp]: "\<not> dict_has [] k"
  by (simp add: dict_has_def)

lemma dict_get_iff_mem: "dict_ok d \<Longrightarrow> dict_get d k = Some v \<longleftrightarrow> (k, v) \<in> set d"
  by (simp add: dict_ok_def)

lemma dict_values_get: "dict_ok d \<Longrightarrow> v \<in> set (dict_values d) \<longleftrightarrow> (\<exists>k. dict_get d k = Some v)"
  by (force simp: dict_get_iff_mem)

lemma dict_get_mem_values: "dict_get d k = Some v \<Longrightarrow> v \<in> set (dict_values d)"
  by (force dest: map_of_SomeD)

lemma dict_set_new: "dict_get d k = None \<Longrightarrow> dict_set k v d = d @ [(k, v)]"
  by (induction d) (auto split: if_splits)

lemma dict_pop_absent: "dict_get d k = None \<Longrightarrow> dict_pop k d = d"
  by (rule delete_id) (simp add: map_of_eq_None_iff)

text \<open>Inserting a new key and deleting it again restores the dictionary, order included.\<close>

lemma dict_pop_set_new: "dict_get d k = None \<Longrightarrow> dict_pop k (dict_set k v d) = d"
  by (simp add: AList.delete_update_same dict_pop_absent)

text \<open>\<open>for x in xs: d[key(x)] = x\<close>.\<close>

fun dict_set_all :: "('v \<Rightarrow> 'k) \<Rightarrow> 'v list \<Rightarrow> ('k, 'v) dict \<Rightarrow> ('k, 'v) dict" where
  "dict_set_all key [] d = d"
| "dict_set_all key (x # xs) d = dict_set_all key xs (dict_set (key x) x d)"

lemma dict_ok_set_all [simp, intro]: "dict_ok d \<Longrightarrow> dict_ok (dict_set_all key xs d)"
  by (induction xs arbitrary: d) auto

lemma dict_get_set_all_notin:
  "k \<notin> key ` set xs \<Longrightarrow> dict_get (dict_set_all key xs d) k = dict_get d k"
  by (induction xs arbitrary: d) auto

lemma dict_get_set_all_mem:
  "x \<in> set xs \<Longrightarrow> distinct (map key xs) \<Longrightarrow> dict_get (dict_set_all key xs d) (key x) = Some x"
proof (induction xs arbitrary: d)
  case Nil
  then show ?case by simp
next
  case (Cons y ys)
  then show ?case
    by (cases "x = y") (auto simp: dict_get_set_all_notin)
qed

lemma dict_get_set_all_cases:
  "dict_get (dict_set_all key xs d) k = Some v \<Longrightarrow>
     v \<in> set xs \<and> key v = k \<or> dict_get d k = Some v"
proof (induction xs arbitrary: d)
  case Nil
  then show ?case by simp
next
  case (Cons x xs)
  from Cons.prems Cons.IH [of "dict_set (key x) x d"] show ?case
    by (auto split: if_splits)
qed

text \<open>A dictionary in which every value is filed under the key it names.\<close>

named_theorems keyed_intros \<open>operations that keep a dictionary keyed\<close>

definition keyed :: "('v \<Rightarrow> 'k) \<Rightarrow> ('k, 'v) dict \<Rightarrow> bool" where
  "keyed key d \<longleftrightarrow> dict_ok d \<and> (\<forall>k v. dict_get d k = Some v \<longrightarrow> key v = k)"

lemma keyed_ok: "keyed key d \<Longrightarrow> dict_ok d"
  by (simp add: keyed_def)

lemma keyed_get: "keyed key d \<Longrightarrow> dict_get d k = Some v \<Longrightarrow> key v = k"
  by (simp add: keyed_def)

lemma keyed_nil [simp]: "keyed key []"
  by (simp add: keyed_def)

lemma keyed_set [keyed_intros]: "keyed key d \<Longrightarrow> key v = k \<Longrightarrow> keyed key (dict_set k v d)"
  by (simp add: keyed_def)

lemma keyed_pop [keyed_intros]: "keyed key d \<Longrightarrow> keyed key (dict_pop k d)"
  by (simp add: keyed_def)

lemma keyed_set_all [keyed_intros]: "keyed key d \<Longrightarrow> keyed key (dict_set_all key xs d)"
  by (induction xs arbitrary: d) (auto intro: keyed_set)

lemma keyed_fold_pop [keyed_intros]: "keyed key d \<Longrightarrow> keyed key (fold dict_pop ks d)"
  by (induction ks arbitrary: d) (auto intro: keyed_pop)

lemma keyed_filter [keyed_intros]: "keyed key d \<Longrightarrow> keyed key (filter P d)"
  by (auto simp: keyed_def dict_ok_def distinct_map_filter map_of_filter_in dest: map_of_SomeD)

lemma keyed_map_values [keyed_intros]:
  assumes "keyed key d" and "\<And>v. key (f v) = key v"
  shows "keyed key (map (\<lambda>(k, v). (k, f v)) d)"
proof -
  have keys: "map fst (map (\<lambda>(k, v). (k, f v)) d) = map fst d"
    by (induction d) auto
  have get: "dict_get (map (\<lambda>(k, v). (k, f v)) d) k = map_option f (dict_get d k)" for k
    by (induction d) auto
  from assms show ?thesis
    unfolding keyed_def dict_ok_def keys get by auto
qed

lemma keyed_values:
  assumes "keyed key d"
  shows "v \<in> set (dict_values d) \<longleftrightarrow> dict_get d (key v) = Some v"
  using assms by (metis dict_values_get keyed_def)

lemma keyed_distinct: "keyed key d \<Longrightarrow> distinct (map key (dict_values d))"
proof -
  assume k: "keyed key d"
  then have "map key (dict_values d) = map fst d"
    by (auto simp: keyed_def dict_get_iff_mem intro: map_cong)
  with k show ?thesis by (simp add: keyed_def dict_ok_def del: map_map)
qed

text \<open>The values of a dictionary read through a function.\<close>

definition map_values :: "('v \<Rightarrow> 'w) \<Rightarrow> ('k, 'v) dict \<Rightarrow> ('k, 'w) dict" where
  "map_values f d = map (\<lambda>(k, v). (k, f v)) d"

lemma map_values_nil [simp]: "map_values f [] = []"
  by (simp add: map_values_def)

lemma map_values_get [simp, dict_simps]: "dict_get (map_values f d) k = map_option f (dict_get d k)"
  by (induction d) (auto simp: map_values_def)

lemma map_values_has [simp, dict_simps]: "dict_has (map_values f d) k = dict_has d k"
  by (simp add: dict_has_def)

lemma map_values_set [dict_simps]: "map_values f (dict_set k v d) = dict_set k (f v) (map_values f d)"
  by (induction d) (auto simp: map_values_def)

lemma map_values_pop [dict_simps]: "map_values f (dict_pop k d) = dict_pop k (map_values f d)"
  by (induction d) (auto simp: map_values_def AList.delete_eq)

lemma dict_values_map_values [simp]: "dict_values (map_values f d) = map f (dict_values d)"
  by (simp add: map_values_def case_prod_unfold)

lemma dict_keys_map_values [simp]: "dict_keys (map_values f d) = dict_keys d"
  by (simp add: map_values_def case_prod_unfold)

lemma map_values_cong: "(\<And>v. v \<in> set (dict_values d) \<Longrightarrow> f v = g v) \<Longrightarrow> map_values f d = map_values g d"
  by (force simp: map_values_def)

text \<open>The contract of a dictionary, for the components that only need its laws.\<close>

locale dict_ops =
  fixes get :: "'d \<Rightarrow> 'k \<Rightarrow> 'v option"
    and put :: "'k \<Rightarrow> 'v \<Rightarrow> 'd \<Rightarrow> 'd"
    and del :: "'k \<Rightarrow> 'd \<Rightarrow> 'd"
    and ok :: "'d \<Rightarrow> bool"
  assumes get_put: "get (put k v d) j = (if j = k then Some v else get d j)"
    and get_del: "get (del k d) j = (if j = k then None else get d j)"
    and ok_put: "ok d \<Longrightarrow> ok (put k v d)"
    and ok_del: "ok d \<Longrightarrow> ok (del k d)"
begin

lemma put_put_same: "get (put k v (put k w d)) j = get (put k v d) j"
  by (simp add: get_put)

lemma put_commute: "k \<noteq> l \<Longrightarrow> get (put k v (put l w d)) j = get (put l w (put k v d)) j"
  by (simp add: get_put)

lemma del_put: "get (del k (put k v d)) j = get (del k d) j"
  by (simp add: get_put get_del)

lemma get_fold_put:
  "k \<notin> key ` set xs \<Longrightarrow> get (fold (\<lambda>x. put (key x) x) xs d) k = get d k"
  by (induction xs arbitrary: d) (auto simp: get_put)

lemma ok_fold_put: "ok d \<Longrightarrow> ok (fold (\<lambda>x. put (key x) x) xs d)"
  by (induction xs arbitrary: d) (auto simp: ok_put)

end

interpretation alist_dict: dict_ops "map_of :: ('k \<times> 'v) list \<Rightarrow> 'k \<Rightarrow> 'v option"
  "AList.update" "AList.delete" dict_ok
  by unfold_locales auto

section \<open>Operations with state and exceptions\<close>

type_synonym ('s, 'e, 'a) op = "'s \<Rightarrow> ('e + 'a) \<times> 's"

definition ret :: "'a \<Rightarrow> ('s, 'e, 'a) op" where
  "ret x s = (Inr x, s)"

definition throw :: "'e \<Rightarrow> ('s, 'e, 'a) op" where
  "throw e s = (Inl e, s)"

definition andThen :: "('s, 'e, 'a) op \<Rightarrow> ('a \<Rightarrow> ('s, 'e, 'b) op) \<Rightarrow> ('s, 'e, 'b) op" where
  "andThen m f s = (case m s of (Inl e, t) \<Rightarrow> (Inl e, t) | (Inr x, t) \<Rightarrow> f x t)"

definition gets :: "('s \<Rightarrow> 'a) \<Rightarrow> ('s, 'e, 'a) op" where
  "gets f s = (Inr (f s), s)"

definition modify :: "('s \<Rightarrow> 's) \<Rightarrow> ('s, 'e, unit) op" where
  "modify f s = (Inr (), f s)"

text \<open>\<open>check b e\<close> is \<open>if not b: raise e\<close>.\<close>

definition check :: "bool \<Rightarrow> 'e \<Rightarrow> ('s, 'e, unit) op" where
  "check b e = (if b then ret () else throw e)"

definition from_sum :: "'e + 'a \<Rightarrow> ('s, 'e, 'a) op" where
  "from_sum r s = (r, s)"

text \<open>\<open>try_catch m h\<close> is \<open>try: m  except e: h(e)\<close>, from the state the exception left.\<close>

definition try_catch :: "('s, 'e, 'a) op \<Rightarrow> ('e \<Rightarrow> ('s, 'e, 'a) op) \<Rightarrow> ('s, 'e, 'a) op" where
  "try_catch m h s = (case m s of (Inl e, t) \<Rightarrow> h e t | (Inr x, t) \<Rightarrow> (Inr x, t))"

fun for_each :: "('x \<Rightarrow> ('s, 'e, unit) op) \<Rightarrow> 'x list \<Rightarrow> ('s, 'e, unit) op" where
  "for_each f [] = ret ()"
| "for_each f (x # xs) = andThen (f x) (\<lambda>_. for_each f xs)"

fun map_each :: "('x \<Rightarrow> ('s, 'e, 'y) op) \<Rightarrow> 'x list \<Rightarrow> ('s, 'e, 'y list) op" where
  "map_each f [] = ret []"
| "map_each f (x # xs) = andThen (f x) (\<lambda>y. andThen (map_each f xs) (\<lambda>ys. ret (y # ys)))"

text \<open>A transaction: an exception undoes everything done since its begin.\<close>

definition transaction :: "('s, 'e, 'a) op \<Rightarrow> ('s, 'e, 'a) op" where
  "transaction m s = (case m s of (Inl e, _) \<Rightarrow> (Inl e, s) | (Inr x, t) \<Rightarrow> (Inr x, t))"

text \<open>\<open>except E as exc: raise F from exc\<close>.\<close>

definition reraise :: "('e \<Rightarrow> 'e) \<Rightarrow> ('s, 'e, 'a) op \<Rightarrow> ('s, 'e, 'a) op" where
  "reraise f m s = (case m s of (Inl e, t) \<Rightarrow> (Inl (f e), t) | (Inr x, t) \<Rightarrow> (Inr x, t))"

lemmas op_defs = ret_def throw_def andThen_def gets_def modify_def check_def from_sum_def
  try_catch_def

lemma andThen_Inr:
  "andThen m f s = (Inr y, t) \<longleftrightarrow> (\<exists>x u. m s = (Inr x, u) \<and> f x u = (Inr y, t))"
  by (auto simp: andThen_def split: prod.splits sum.splits)

lemma andThen_Inl:
  "andThen m f s = (Inl e, t) \<longleftrightarrow>
     m s = (Inl e, t) \<or> (\<exists>x u. m s = (Inr x, u) \<and> f x u = (Inl e, t))"
  by (auto simp: andThen_def split: prod.splits sum.splits)

lemma check_Inr [simp]: "check b e s = (Inr u, t) \<longleftrightarrow> b \<and> t = s"
  by (auto simp: check_def ret_def throw_def)

lemma check_Inl [simp]: "check b e s = (Inl e', t) \<longleftrightarrow> \<not> b \<and> e' = e \<and> t = s"
  by (auto simp: check_def ret_def throw_def)

lemma gets_eq [simp]: "gets f s = (r, t) \<longleftrightarrow> r = Inr (f s) \<and> t = s"
  by (auto simp: gets_def)

lemma ret_eq [simp]: "ret x s = (r, t) \<longleftrightarrow> r = Inr x \<and> t = s"
  by (auto simp: ret_def)

lemma throw_eq [simp]: "throw e s = (r, t) \<longleftrightarrow> r = Inl e \<and> t = s"
  by (auto simp: throw_def)

lemma modify_eq [simp]: "modify f s = (r, t) \<longleftrightarrow> r = Inr () \<and> t = f s"
  by (auto simp: modify_def)

lemma from_sum_eq [simp]: "from_sum x s = (r, t) \<longleftrightarrow> r = x \<and> t = s"
  by (auto simp: from_sum_def)

lemma transaction_Inr [simp]: "transaction m s = (Inr x, t) \<longleftrightarrow> m s = (Inr x, t)"
  by (auto simp: transaction_def split: prod.splits sum.splits)

lemma transaction_Inl: "transaction m s = (Inl e, t) \<Longrightarrow> t = s"
  by (auto simp: transaction_def split: prod.splits sum.splits)

lemma reraise_Inr [simp]: "reraise f m s = (Inr x, t) \<longleftrightarrow> m s = (Inr x, t)"
  by (auto simp: reraise_def split: prod.splits sum.splits)

lemma reraise_Inl: "reraise f m s = (Inl e, t) \<longleftrightarrow> (\<exists>e'. m s = (Inl e', t) \<and> e = f e')"
  by (auto simp: reraise_def split: prod.splits sum.splits)

subsection \<open>Invariants of operations\<close>

text \<open>
  \<open>keeps P m\<close>: whatever \<open>m\<close> returns or raises, it leaves a state satisfying \<open>P\<close> when
  it starts in one. \<open>reads_only m\<close>: \<open>m\<close> never changes the state.
\<close>

definition keeps :: "('s \<Rightarrow> bool) \<Rightarrow> ('s, 'e, 'a) op \<Rightarrow> bool" where
  "keeps P m \<longleftrightarrow> (\<forall>s. P s \<longrightarrow> P (snd (m s)))"

definition reads_only :: "('s, 'e, 'a) op \<Rightarrow> bool" where
  "reads_only m \<longleftrightarrow> (\<forall>s. snd (m s) = s)"

lemma keepsI: "(\<And>s. P s \<Longrightarrow> P (snd (m s))) \<Longrightarrow> keeps P m"
  by (simp add: keeps_def)

lemma keepsD: "keeps P m \<Longrightarrow> m s = (r, t) \<Longrightarrow> P s \<Longrightarrow> P t"
  by (metis keeps_def snd_conv)

lemma reads_only_keeps: "reads_only m \<Longrightarrow> keeps P m"
  by (simp add: keeps_def reads_only_def)

lemma reads_onlyD: "reads_only m \<Longrightarrow> m s = (r, t) \<Longrightarrow> t = s"
  by (metis reads_only_def snd_conv)

lemma keeps_ret [keeps_intros, simp]: "keeps P (ret x)"
  by (simp add: keeps_def ret_def)

lemma keeps_throw [keeps_intros, simp]: "keeps P (throw e)"
  by (simp add: keeps_def throw_def)

lemma keeps_gets [keeps_intros, simp]: "keeps P (gets f)"
  by (simp add: keeps_def gets_def)

lemma keeps_check [keeps_intros, simp]: "keeps P (check b e)"
  by (simp add: keeps_def check_def ret_def throw_def)

lemma keeps_from_sum [keeps_intros, simp]: "keeps P (from_sum r)"
  by (simp add: keeps_def from_sum_def)

lemma keeps_modify [keeps_intros]: "(\<And>s. P s \<Longrightarrow> P (f s)) \<Longrightarrow> keeps P (modify f)"
  by (simp add: keeps_def modify_def)

lemma keeps_andThen [keeps_intros]:
  assumes "keeps P m" and "\<And>x. keeps P (f x)"
  shows "keeps P (andThen m f)"
proof (rule keepsI)
  fix s
  assume "P s"
  obtain r t where m: "m s = (r, t)" by fastforce
  with assms(1) \<open>P s\<close> have "P t" by (metis keepsD)
  with assms(2) m show "P (snd (andThen m f s))"
    by (cases r) (auto simp: andThen_def keeps_def)
qed

lemma keeps_try_catch [keeps_intros]:
  assumes "keeps P m" and "\<And>e. keeps P (h e)"
  shows "keeps P (try_catch m h)"
proof (rule keepsI)
  fix s
  assume "P s"
  obtain r t where m: "m s = (r, t)" by fastforce
  with assms(1) \<open>P s\<close> have "P t" by (metis keepsD)
  with assms(2) m show "P (snd (try_catch m h s))"
    by (cases r) (auto simp: try_catch_def keeps_def)
qed

lemma keeps_if [keeps_intros]: "(b \<Longrightarrow> keeps P m) \<Longrightarrow> (\<not> b \<Longrightarrow> keeps P n) \<Longrightarrow> keeps P (if b then m else n)"
  by simp

lemma keeps_option [keeps_intros]:
  "(x = None \<Longrightarrow> keeps P m) \<Longrightarrow> (\<And>y. x = Some y \<Longrightarrow> keeps P (f y)) \<Longrightarrow>
     keeps P (case x of None \<Rightarrow> m | Some y \<Rightarrow> f y)"
  by (cases x) auto

lemma keeps_for_each [keeps_intros]: "(\<And>x. x \<in> set xs \<Longrightarrow> keeps P (f x)) \<Longrightarrow> keeps P (for_each f xs)"
  by (induction xs) (auto intro!: keeps_intros)

lemma keeps_map_each [keeps_intros]: "(\<And>x. x \<in> set xs \<Longrightarrow> keeps P (f x)) \<Longrightarrow> keeps P (map_each f xs)"
  by (induction xs) (auto intro!: keeps_intros)

lemma reads_only_ret [simp]: "reads_only (ret x)"
  by (simp add: reads_only_def ret_def)

lemma reads_only_throw [simp]: "reads_only (throw e)"
  by (simp add: reads_only_def throw_def)

lemma reads_only_gets [simp]: "reads_only (gets f)"
  by (simp add: reads_only_def gets_def)

lemma reads_only_check [simp]: "reads_only (check b e)"
  by (simp add: reads_only_def check_def ret_def throw_def)

lemma reads_only_from_sum [simp]: "reads_only (from_sum r)"
  by (simp add: reads_only_def from_sum_def)

lemma reads_only_andThen [intro]: "reads_only m \<Longrightarrow> (\<And>x. reads_only (f x)) \<Longrightarrow> reads_only (andThen m f)"
  unfolding reads_only_def andThen_def by (metis (no_types, lifting) case_prod_beta snd_conv sum.case_eq_if)

lemma reads_only_map_each [intro]: "(\<And>x. x \<in> set xs \<Longrightarrow> reads_only (f x)) \<Longrightarrow> reads_only (map_each f xs)"
  by (induction xs) (auto intro!: reads_only_andThen)

lemma reads_only_for_each [intro]: "(\<And>x. x \<in> set xs \<Longrightarrow> reads_only (f x)) \<Longrightarrow> reads_only (for_each f xs)"
  by (induction xs) (auto intro!: reads_only_andThen)

lemma for_each_append: "for_each f (xs @ ys) = andThen (for_each f xs) (\<lambda>_. for_each f ys)"
  by (induction xs) (auto simp: fun_eq_iff andThen_def ret_def split: prod.splits sum.splits)

text \<open>A machine with an invariant every step keeps: the invariant holds after any run.\<close>

fun run_steps :: "('s \<Rightarrow> 'x \<Rightarrow> 's) \<Rightarrow> 's \<Rightarrow> 'x list \<Rightarrow> 's" where
  "run_steps step s [] = s"
| "run_steps step s (x # xs) = run_steps step (step s x) xs"

lemma run_steps_append: "run_steps step s (xs @ ys) = run_steps step (run_steps step s xs) ys"
  by (induction xs arbitrary: s) auto

text \<open>Every input of the run is allowed in the state it arrives in.\<close>

fun run_allowed :: "('s \<Rightarrow> 'x \<Rightarrow> 's) \<Rightarrow> ('s \<Rightarrow> 'x \<Rightarrow> bool) \<Rightarrow> 's \<Rightarrow> 'x list \<Rightarrow> bool" where
  "run_allowed step enabled s [] = True"
| "run_allowed step enabled s (x # xs) \<longleftrightarrow> enabled s x \<and> run_allowed step enabled (step s x) xs"

lemma run_allowed_append:
  "run_allowed step enabled s (xs @ ys) \<longleftrightarrow>
     run_allowed step enabled s xs \<and> run_allowed step enabled (run_steps step s xs) ys"
  by (induction xs arbitrary: s) auto

locale guarded_machine =
  fixes step :: "'s \<Rightarrow> 'x \<Rightarrow> 's"
    and inv :: "'s \<Rightarrow> bool"
    and enabled :: "'s \<Rightarrow> 'x \<Rightarrow> bool"
  assumes step_inv: "inv s \<Longrightarrow> enabled s x \<Longrightarrow> inv (step s x)"
begin

lemma run_inv: "inv s \<Longrightarrow> run_allowed step enabled s xs \<Longrightarrow> inv (run_steps step s xs)"
  by (induction xs arbitrary: s) (auto simp: step_inv)

lemma run_prefix_inv:
  assumes "inv s" and "run_allowed step enabled s (xs @ ys)"
  shows "inv (run_steps step s xs)"
  using assms by (simp add: run_inv run_allowed_append)

end

section \<open>Identifiers, instants and text\<close>

text \<open>
  A \<open>UUID\<close> is a 128-bit value; \<open>str(uuid)\<close> is its 32 hexadecimal digits grouped 8-4-4-4-12,
  and \<open>UUID(text)\<close> reads it back. An instant is a UTC time in microseconds. A digest is the
  hexadecimal text of a SHA-256 hash.
\<close>

type_synonym uuid = "128 word"
type_synonym instant = int
type_synonym digest = string

definition hex_digit :: "nat \<Rightarrow> char" where
  "hex_digit n = (if n < 10 then char_of (48 + n) else char_of (87 + n))"

definition hex_value :: "char \<Rightarrow> nat option" where
  "hex_value c =
     (let n = of_char c :: nat in
      if 48 \<le> n \<and> n \<le> 57 then Some (n - 48)
      else if 97 \<le> n \<and> n \<le> 102 then Some (n - 87)
      else if 65 \<le> n \<and> n \<le> 70 then Some (n - 55)
      else None)"

fun hex_digits :: "nat \<Rightarrow> nat \<Rightarrow> string" where
  "hex_digits 0 n = []"
| "hex_digits (Suc k) n = hex_digits k (n div 16) @ [hex_digit (n mod 16)]"

fun read_hex :: "nat \<Rightarrow> string \<Rightarrow> nat option" where
  "read_hex acc [] = Some acc"
| "read_hex acc (c # cs) = (case hex_value c of None \<Rightarrow> None | Some v \<Rightarrow> read_hex (acc * 16 + v) cs)"

definition uuid_str :: "uuid \<Rightarrow> string" where
  "uuid_str u =
     (let h = hex_digits 32 (unat u) in
      take 8 h @ ''-'' @ take 4 (drop 8 h) @ ''-'' @ take 4 (drop 12 h) @ ''-''
        @ take 4 (drop 16 h) @ ''-'' @ drop 20 h)"

definition uuid_parse :: "string \<Rightarrow> uuid option" where
  "uuid_parse s =
     (let h = filter (\<lambda>c. c \<noteq> CHR ''-'') s in
      if length h = 32 then map_option of_nat (read_hex 0 h) else None)"

lemma hex_value_digit: "n < 16 \<Longrightarrow> hex_value (hex_digit n) = Some n"
  by (auto simp: hex_value_def hex_digit_def Let_def)

lemma hex_digit_not_dash: "n < 16 \<Longrightarrow> hex_digit n \<noteq> CHR ''-''"
  using hex_value_digit [of n] by (auto simp: hex_value_def)

lemma length_hex_digits [simp]: "length (hex_digits k n) = k"
  by (induction k arbitrary: n) auto

lemma hex_digits_not_dash: "CHR ''-'' \<notin> set (hex_digits k n)"
  using hex_digit_not_dash by (induction k arbitrary: n) (auto dest: sym)

lemma read_hex_append:
  "read_hex acc (xs @ ys) = (case read_hex acc xs of None \<Rightarrow> None | Some a \<Rightarrow> read_hex a ys)"
  by (induction xs arbitrary: acc) (auto split: option.splits)

lemma read_hex_digits: "read_hex acc (hex_digits k n) = Some (acc * 16 ^ k + n mod 16 ^ k)"
proof (induction k arbitrary: n)
  case 0
  then show ?case by simp
next
  case (Suc k)
  have "n mod (16 * 16 ^ k) = 16 * (n div 16 mod 16 ^ k) + n mod 16"
    by (rule mod_mult2_eq)
  with Suc show ?case
    by (simp add: read_hex_append hex_value_digit algebra_simps)
qed

lemma filter_not_dash: "CHR ''-'' \<notin> set h \<Longrightarrow> filter (\<lambda>c. c \<noteq> CHR ''-'') h = h"
  by (induction h) auto

lemma filter_dash_groups:
  assumes "CHR ''-'' \<notin> set h"
  shows "filter (\<lambda>c. c \<noteq> CHR ''-'')
       (take 8 h @ ''-'' @ take 4 (drop 8 h) @ ''-'' @ take 4 (drop 12 h) @ ''-''
         @ take 4 (drop 16 h) @ ''-'' @ drop 20 h) = h"
proof -
  have t: "filter (\<lambda>c. c \<noteq> CHR ''-'') (take n (drop m h)) = take n (drop m h)" for n m
    using assms by (intro filter_not_dash) (auto dest: in_set_takeD in_set_dropD)
  have d: "drop m h = take n (drop m h) @ drop (m + n) h" for m n
    by (metis add.commute append_take_drop_id drop_drop)
  have "h = take 8 h @ take 4 (drop 8 h) @ take 4 (drop 12 h) @ take 4 (drop 16 h) @ drop 20 h"
    using d [of 0 8] d [of 8 4] d [of 12 4] d [of 16 4] by simp
  moreover have "filter (\<lambda>c. c \<noteq> CHR ''-'') (take 8 h) = take 8 h"
    using t [of 8 0] by simp
  moreover have "filter (\<lambda>c. c \<noteq> CHR ''-'') (drop 20 h) = drop 20 h"
    using assms by (intro filter_not_dash) (auto dest: in_set_dropD)
  ultimately show ?thesis by (simp add: t)
qed

lemma uuid_parse_str [simp]: "uuid_parse (uuid_str u) = Some u"
proof -
  have h: "filter (\<lambda>c. c \<noteq> CHR ''-'') (uuid_str u) = hex_digits 32 (unat u)"
    unfolding uuid_str_def Let_def by (rule filter_dash_groups) (rule hex_digits_not_dash)
  have "unat u < 2 ^ 128"
    by (rule order_less_le_trans [OF unsigned_less]) simp
  then have "read_hex 0 (hex_digits 32 (unat u)) = Some (unat u)"
    by (simp add: read_hex_digits)
  with h show ?thesis by (simp add: uuid_parse_def Let_def)
qed

lemma uuid_str_inj: "uuid_str u = uuid_str v \<Longrightarrow> u = v"
  by (metis option.inject uuid_parse_str)

text \<open>\<open>', '.join(xs)\<close>, \<open>str(n)\<close> of a natural number, and \<open>dict.fromkeys\<close> deduplication.\<close>

fun join_str :: "string \<Rightarrow> string list \<Rightarrow> string" where
  "join_str sep [] = []"
| "join_str sep [x] = x"
| "join_str sep (x # y # ys) = x @ sep @ join_str sep (y # ys)"

fun nat_str :: "nat \<Rightarrow> string" where
  "nat_str n = (if n < 10 then [char_of (48 + n)] else nat_str (n div 10) @ [char_of (48 + n mod 10)])"

declare nat_str.simps [simp del]

fun dedup_from :: "'a list \<Rightarrow> 'a list \<Rightarrow> 'a list" where
  "dedup_from seen [] = []"
| "dedup_from seen (x # xs) =
     (if x \<in> set seen then dedup_from seen xs else x # dedup_from (x # seen) xs)"

definition dedup :: "'a list \<Rightarrow> 'a list" where
  "dedup xs = dedup_from [] xs"

lemma set_dedup_from: "set (dedup_from seen xs) = set xs - set seen"
  by (induction xs arbitrary: seen) auto

lemma set_dedup [simp]: "set (dedup xs) = set xs"
  by (simp add: dedup_def set_dedup_from)

lemma distinct_dedup_from: "distinct (dedup_from seen xs)"
  by (induction xs arbitrary: seen) (auto simp: set_dedup_from)

lemma distinct_dedup [simp]: "distinct (dedup xs)"
  by (simp add: dedup_def distinct_dedup_from)

lemma dedup_from_id: "distinct xs \<Longrightarrow> set xs \<inter> set seen = {} \<Longrightarrow> dedup_from seen xs = xs"
  by (induction xs arbitrary: seen) auto

lemma dedup_id: "distinct xs \<Longrightarrow> dedup xs = xs"
  by (simp add: dedup_def dedup_from_id)

lemma dedup_nil [simp]: "dedup [] = []"
  by (simp add: dedup_def)

lemma dedup_Cons_nonempty [simp]: "dedup (x # xs) \<noteq> []"
  by (simp add: dedup_def)

text \<open>\<open>text.strip()\<close> on ASCII white space, \<open>text.lower()\<close>, \<open>text.startswith(p)\<close>.\<close>

definition is_space :: "char \<Rightarrow> bool" where
  "is_space c \<longleftrightarrow> (let n = of_char c :: nat in n = 32 \<or> (9 \<le> n \<and> n \<le> 13) \<or> (28 \<le> n \<and> n \<le> 31))"

definition strip :: "string \<Rightarrow> string" where
  "strip s = rev (dropWhile is_space (rev (dropWhile is_space s)))"

definition lower_char :: "char \<Rightarrow> char" where
  "lower_char c = (let n = of_char c :: nat in if 65 \<le> n \<and> n \<le> 90 then char_of (n + 32) else c)"

definition lower :: "string \<Rightarrow> string" where
  "lower s = map lower_char s"

definition starts_with :: "string \<Rightarrow> string \<Rightarrow> bool" where
  "starts_with p s \<longleftrightarrow> take (length p) s = p"

text \<open>\<open>p in s\<close> on strings.\<close>

fun is_infix :: "string \<Rightarrow> string \<Rightarrow> bool" where
  "is_infix p [] = (p = [])"
| "is_infix p (c # s) = (starts_with p (c # s) \<or> is_infix p s)"

text \<open>\<open>sorted(xs, key=f, reverse=True)\<close> for an integer key: stable, descending.\<close>

definition sort_desc :: "('a \<Rightarrow> int) \<Rightarrow> 'a list \<Rightarrow> 'a list" where
  "sort_desc f xs = sort_key (\<lambda>x. - f x) xs"

lemma set_sort_desc [simp]: "set (sort_desc f xs) = set xs"
  by (simp add: sort_desc_def)

lemma sorted_sort_desc: "sorted_wrt (\<lambda>x y. f y \<le> f x) (sort_desc f xs)"
proof -
  have "sorted (map (\<lambda>x. - f x) (sort_key (\<lambda>x. - f x) xs))" by simp
  then show ?thesis by (simp add: sort_desc_def sorted_wrt_map)
qed

end
