(* ===== verification/Values.thy ===== *)
theory Values
  imports Prelude
begin

text \<open>
  The vocabulary every component shares: the exception classes of \<open>errors.py\<close>, the enums
  of \<open>contracts/enums.py\<close>, the version constants of \<open>version.py\<close>, JSON-like values for
  \<open>dict[str, Any]\<close> fields, and the explicit outcomes of \<open>uuid4()\<close> and of the clocks.
\<close>

section \<open>Exceptions\<close>

text \<open>
  One constructor per exception class; the text is the message with its interpolated
  identifiers left out. \<open>PermissionError\<close>, \<open>RuntimeError\<close>, \<open>ValueError\<close> (of which a
  failed model validation is an instance), \<open>KeyError\<close>, \<open>TypeError\<close>,
  \<open>OverflowError\<close> and \<open>AssertionError\<close> are Python's own, \<open>IntegrityError\<close> is that of
  \<open>sqlite3\<close>.
\<close>

datatype error =
    ConfigurationError string
  | AuthenticationError string
  | AuthorizationError string
  | AdmissionError string
  | StoreError string
  | ProjectionLinkConflict string
  | IdempotencyConflict string
  | PhaseLockSnapshotConflict string
  | CutoverNotReady string
  | ProjectionError string
  | GraphIntelligenceError string
  | GraphCapabilityUnavailable string
  | GraphRuntimeBudgetExceeded string
  | GraphQueryPolicyViolation string
  | UnsupportedSchemaVersion string
  | ConflictDetected string
  | BoundaryAlignmentError string
  | UnsupportedTransportPacketVersion string
  | GateDispatchError string
  | GateDeniedError string
  | GateRejectedError string
  | GateUnavailableError string
  | GateTimeoutError string
  | GateMalformedReceiptError string
  | PermissionError string
  | RuntimeError string
  | ValueError string
  | KeyError string
  | TypeError string
  | OverflowError string
  | AssertionError string
  | IntegrityError string

text \<open>\<open>except StoreError\<close> also catches the three subclasses of \<open>StoreError\<close>.\<close>

fun is_store_error :: "error \<Rightarrow> bool" where
  "is_store_error (StoreError _) = True"
| "is_store_error (ProjectionLinkConflict _) = True"
| "is_store_error (IdempotencyConflict _) = True"
| "is_store_error (PhaseLockSnapshotConflict _) = True"
| "is_store_error _ = False"

fun error_text :: "error \<Rightarrow> string" where
  "error_text (ConfigurationError m) = m"
| "error_text (AuthenticationError m) = m"
| "error_text (AuthorizationError m) = m"
| "error_text (AdmissionError m) = m"
| "error_text (StoreError m) = m"
| "error_text (ProjectionLinkConflict m) = m"
| "error_text (IdempotencyConflict m) = m"
| "error_text (PhaseLockSnapshotConflict m) = m"
| "error_text (CutoverNotReady m) = m"
| "error_text (ProjectionError m) = m"
| "error_text (UnsupportedSchemaVersion m) = m"
| "error_text (ConflictDetected m) = m"
| "error_text (GraphIntelligenceError m) = m"
| "error_text (GraphCapabilityUnavailable m) = m"
| "error_text (GraphRuntimeBudgetExceeded m) = m"
| "error_text (GraphQueryPolicyViolation m) = m"
| "error_text (BoundaryAlignmentError m) = m"
| "error_text (UnsupportedTransportPacketVersion m) = m"
| "error_text (GateDispatchError m) = m"
| "error_text (GateDeniedError m) = m"
| "error_text (GateRejectedError m) = m"
| "error_text (GateUnavailableError m) = m"
| "error_text (GateTimeoutError m) = m"
| "error_text (GateMalformedReceiptError m) = m"
| "error_text (PermissionError m) = m"
| "error_text (RuntimeError m) = m"
| "error_text (ValueError m) = m"
| "error_text (KeyError m) = m"
| "error_text (TypeError m) = m"
| "error_text (OverflowError m) = m"
| "error_text (AssertionError m) = m"
| "error_text (IntegrityError m) = m"

section \<open>Enums\<close>

datatype memory_class =
    IDENTITY | PREFERENCE | CONSTRAINT | DECISION | EPISODIC
  | SEMANTIC | PROCEDURAL | OBSERVATION | INSIGHT | META

fun class_value :: "memory_class \<Rightarrow> string" where
  "class_value IDENTITY = ''identity''"
| "class_value PREFERENCE = ''preference''"
| "class_value CONSTRAINT = ''constraint''"
| "class_value DECISION = ''decision''"
| "class_value EPISODIC = ''episodic''"
| "class_value SEMANTIC = ''semantic''"
| "class_value PROCEDURAL = ''procedural''"
| "class_value OBSERVATION = ''observation''"
| "class_value INSIGHT = ''insight''"
| "class_value META = ''meta''"

text \<open>\<open>tuple(MemoryClass)\<close>: every member, in definition order.\<close>

definition all_memory_classes :: "memory_class list" where
  "all_memory_classes =
     [IDENTITY, PREFERENCE, CONSTRAINT, DECISION, EPISODIC,
      SEMANTIC, PROCEDURAL, OBSERVATION, INSIGHT, META]"

datatype query_pattern =
    Q_ENTITY_LOOKUP | Q_REASONING_LINEAGE | Q_TEMPORAL | Q_IDENTITY
  | Q_EXPLORATORY | Q_FACTUAL | Q_DEFAULT

datatype memory_state =
    CANDIDATE | ACTIVE | SUPERSEDED | ARCHIVED | QUARANTINED
  | REJECTED | DELETION_PENDING | DELETED

fun state_value :: "memory_state \<Rightarrow> string" where
  "state_value CANDIDATE = ''candidate''"
| "state_value ACTIVE = ''active''"
| "state_value SUPERSEDED = ''superseded''"
| "state_value ARCHIVED = ''archived''"
| "state_value QUARANTINED = ''quarantined''"
| "state_value REJECTED = ''rejected''"
| "state_value DELETION_PENDING = ''deletion_pending''"
| "state_value DELETED = ''deleted''"

definition all_memory_states :: "memory_state list" where
  "all_memory_states =
     [CANDIDATE, ACTIVE, SUPERSEDED, ARCHIVED, QUARANTINED, REJECTED, DELETION_PENDING, DELETED]"

datatype evidence_kind =
    E_EXPLICIT | E_SOURCE_EXCERPT | E_TEST | E_OBSERVATION
  | E_INFERENCE | E_AGGREGATION | E_GOVERNANCE_APPROVAL

datatype confidence_method = C_EXPLICIT | C_EXTRACTED | C_INFERRED | C_AGGREGATED | C_CALIBRATED

datatype write_status = W_ADMITTED | W_DUPLICATE | W_QUARANTINED | W_REJECTED | W_SUPERSEDED

datatype operation_status = O_COMPLETE | O_PARTIAL | O_FAILED

datatype authorization_action = A_READ | A_WRITE | A_PROMOTE | A_ARCHIVE | A_MAINTAIN | A_ADMIN

fun action_value :: "authorization_action \<Rightarrow> string" where
  "action_value A_READ = ''read''"
| "action_value A_WRITE = ''write''"
| "action_value A_PROMOTE = ''promote''"
| "action_value A_ARCHIVE = ''archive''"
| "action_value A_MAINTAIN = ''maintain''"
| "action_value A_ADMIN = ''admin''"

lemma action_value_inj [simp]: "action_value a = action_value b \<longleftrightarrow> a = b"
  by (cases a; cases b) simp_all

text \<open>
  \<open>sorted(required, key=lambda item: item.value)\<close> orders actions by their value; the order
  is the type's linear order here.
\<close>

instantiation authorization_action :: linorder
begin

definition less_eq_authorization_action :: "authorization_action \<Rightarrow> authorization_action \<Rightarrow> bool" where
  "less_eq_authorization_action a b \<longleftrightarrow> action_value a \<le> action_value b"

definition less_authorization_action :: "authorization_action \<Rightarrow> authorization_action \<Rightarrow> bool" where
  "less_authorization_action a b \<longleftrightarrow> action_value a < action_value b"

instance
  by intro_classes
    (auto simp: less_eq_authorization_action_def less_authorization_action_def less_le)

end

datatype maintenance_operation = M_DEDUPE | M_REFINE | M_SUPERSEDE | M_ARCHIVE | M_RECONCILE | M_REVIEW_QUARANTINE

fun operation_value :: "maintenance_operation \<Rightarrow> string" where
  "operation_value M_DEDUPE = ''dedupe''"
| "operation_value M_REFINE = ''refine''"
| "operation_value M_SUPERSEDE = ''supersede''"
| "operation_value M_ARCHIVE = ''archive''"
| "operation_value M_RECONCILE = ''reconcile''"
| "operation_value M_REVIEW_QUARANTINE = ''review_quarantine''"

datatype quarantine_verdict = V_RELEASE | V_HOLD | V_ESCALATE

datatype maintenance_status = MS_PLANNED | MS_APPLIED | MS_FAILED

datatype outbox_status = X_PENDING | X_PROCESSING | X_DELIVERED | X_RETRY | X_DEAD

datatype deletion_status = D_DRY_RUN | D_PENDING_PROJECTION | D_COMPLETE

section \<open>Versions\<close>

definition MEMORY_SCHEMA_VERSION :: string where
  "MEMORY_SCHEMA_VERSION = ''2.2.0''"

definition ADMISSION_POLICY_VERSION :: string where
  "ADMISSION_POLICY_VERSION = ''memory-admission/v2''"

definition AUTHORIZATION_POLICY_VERSION :: string where
  "AUTHORIZATION_POLICY_VERSION = ''memory-authz/v1''"

definition RETENTION_POLICY_VERSION :: string where
  "RETENTION_POLICY_VERSION = ''memory-retention/v2''"

definition PHASE_LOCK_POLICY_VERSION :: string where
  "PHASE_LOCK_POLICY_VERSION = ''memory-phase-lock/v2''"

section \<open>JSON values\<close>

text \<open>
  The values a \<open>dict[str, Any]\<close> field holds, and the arguments of \<open>canonical_json\<close>.
  A datetime reaches \<open>canonical_json\<close> as such and is rendered there by \<open>default=str\<close>.
\<close>

datatype json =
    JNull
  | JBool bool
  | JInt int
  | JReal real
  | JStr string
  | JTime instant
  | JList "json list"
  | JObj "(string \<times> json) list"

text \<open>Python truth of a value.\<close>

fun truthy :: "json \<Rightarrow> bool" where
  "truthy JNull = False"
| "truthy (JBool b) = b"
| "truthy (JInt i) = (i \<noteq> 0)"
| "truthy (JReal r) = (r \<noteq> 0)"
| "truthy (JStr s) = (s \<noteq> [])"
| "truthy (JTime _) = True"
| "truthy (JList xs) = (xs \<noteq> [])"
| "truthy (JObj m) = (m \<noteq> [])"

text \<open>
  \<open>float(i)\<close> of an integer: it fails from the first integer that rounds past the largest
  double on.
\<close>

definition float_of_int :: "int \<Rightarrow> error + real" where
  "float_of_int i =
     (if 2 ^ 1024 - 2 ^ 970 \<le> \<bar>i\<bar> then Inl (OverflowError ''int too large to convert to float'') else Inr (of_int i))"

fun opt_str :: "string option \<Rightarrow> json" where
  "opt_str None = JNull"
| "opt_str (Some s) = JStr s"

fun opt_time :: "instant option \<Rightarrow> json" where
  "opt_time None = JNull"
| "opt_time (Some t) = JTime t"

text \<open>\<open>isinstance(metadata.get(key), str)\<close> and the string it then is.\<close>

definition get_str :: "(string, json) dict \<Rightarrow> string \<Rightarrow> string option" where
  "get_str m k = (case dict_get m k of Some (JStr s) \<Rightarrow> Some s | _ \<Rightarrow> None)"

text \<open>\<open>metadata.get(key, [])\<close> read as a sequence of strings.\<close>

definition get_strings :: "(string, json) dict \<Rightarrow> string \<Rightarrow> string list" where
  "get_strings m k =
     (case dict_get m k of
        Some (JList xs) \<Rightarrow> concat (map (\<lambda>v. case v of JStr s \<Rightarrow> [s] | _ \<Rightarrow> []) xs)
      | _ \<Rightarrow> [])"

definition merge_obj :: "(string, json) dict \<Rightarrow> (string, json) dict \<Rightarrow> (string, json) dict" where
  "merge_obj base new = fold (\<lambda>(k, v). dict_set k v) new base"

section \<open>Draws of \<open>uuid4()\<close> and clock readings\<close>

text \<open>
  An operation that mints identifiers or reads a clock takes an \<open>env\<close>: the outcome of each
  \<open>uuid4()\<close> call, named by what the identifier is for, the reading of the injected
  \<open>clock.now()\<close>, and the reading of \<open>datetime.now(utc)\<close> behind the default factories.
  Nothing is assumed of them except where a theorem says so (identifiers not yet in use).
\<close>

datatype draw =
    U_record
  | U_receipt
  | U_operation
  | U_authorization
  | U_decision
  | U_tombstone
  | U_status nat
  | U_event nat
  | U_requirement nat
  | U_batch nat

record env =
  env_uuid :: "draw \<Rightarrow> uuid"
  env_now :: instant
  env_wall :: instant

text \<open>\<open>max_length\<close> / \<open>min_length\<close> constraints of string fields.\<close>

definition len_ok :: "nat \<Rightarrow> nat \<Rightarrow> string \<Rightarrow> bool" where
  "len_ok lo hi s \<longleftrightarrow> lo \<le> length s \<and> length s \<le> hi"

text \<open>The field pattern \<open>^[a-f0-9]{64}$\<close>.\<close>

definition is_sha256_hex :: "string \<Rightarrow> bool" where
  "is_sha256_hex s \<longleftrightarrow>
     length s = 64 \<and>
     list_all (\<lambda>c. let n = of_char c :: nat in (48 \<le> n \<and> n \<le> 57) \<or> (97 \<le> n \<and> n \<le> 102)) s"

end
