(* ===== verification/Contracts.thy ===== *)
theory Contracts
  imports Values
begin

text \<open>
  The data model of \<open>contracts/\<close>: temporal coordinates, source locators, provenance,
  evidence, confidence, consent, the canonical memory record and its lifecycle event, the
  server-derived principal, and the request models, each with the validation its model
  class performs on construction.
\<close>

section \<open>Temporal coordinates (\<open>contracts/temporal.py\<close>)\<close>

text \<open>A Python \<open>datetime\<close> at the boundary: naive, or aware with its UTC offset.\<close>

datatype py_datetime = Naive int | Aware int int

definition is_naive :: "py_datetime \<Rightarrow> bool" where
  "is_naive d = (case d of Naive _ \<Rightarrow> True | Aware _ _ \<Rightarrow> False)"

definition require_utc :: "py_datetime option \<Rightarrow> error + instant option" where
  "require_utc v =
     (case v of
        None \<Rightarrow> Inr None
      | Some (Naive _) \<Rightarrow> Inl (ValueError ''datetime must be timezone-aware'')
      | Some (Aware t off) \<Rightarrow> Inr (Some (t - off)))"

definition coerce_utc :: "py_datetime option \<Rightarrow> instant option" where
  "coerce_utc v =
     (case v of
        None \<Rightarrow> None
      | Some (Naive t) \<Rightarrow> Some t
      | Some (Aware t off) \<Rightarrow> Some (t - off))"

lemma require_utc_coerce: "require_utc v = Inr t \<Longrightarrow> coerce_utc v = t"
  by (auto simp: require_utc_def coerce_utc_def split: option.splits py_datetime.splits)

record temporal_coordinates =
  valid_from :: instant
  valid_to :: "instant option"
  recorded_at :: instant
  source_observed_at :: "instant option"
  superseded_at :: "instant option"

definition validate_coordinates :: "temporal_coordinates \<Rightarrow> error + temporal_coordinates" where
  "validate_coordinates t =
     (if (case valid_to t of None \<Rightarrow> False | Some e \<Rightarrow> e \<le> valid_from t)
      then Inl (ValueError ''valid_to must be later than valid_from'')
      else if (case superseded_at t of None \<Rightarrow> False | Some s \<Rightarrow> s < recorded_at t)
      then Inl (ValueError ''superseded_at cannot precede recorded_at'')
      else Inr t)"

definition is_valid_at :: "temporal_coordinates \<Rightarrow> instant \<Rightarrow> bool" where
  "is_valid_at t now \<longleftrightarrow>
     valid_from t \<le> now \<and> (case valid_to t of None \<Rightarrow> True | Some e \<Rightarrow> now < e)"

section \<open>Evidence (\<open>contracts/evidence.py\<close>)\<close>

record source_range =
  start_line :: "nat option"
  end_line :: "nat option"
  start_offset :: "nat option"
  end_offset :: "nat option"

text \<open>The discriminated union \<open>SourceLocator\<close>; the arguments are the fields in order.\<close>

datatype source_locator =
    LineSourceLocator "nat option" "nat option" "nat option" "nat option"
  | PdfSourceLocator nat nat
  | DocxSourceLocator nat string string
  | PptxSourceLocator nat nat string
  | SpreadsheetSourceLocator string string
  | NotebookSourceLocator nat string "nat option" "nat option"
  | CsvSourceLocator nat "string option"
  | HtmlSourceLocator nat string

fun matches_range :: "source_locator \<Rightarrow> source_range \<Rightarrow> bool" where
  "matches_range (LineSourceLocator a b c d) r \<longleftrightarrow>
     a = start_line r \<and> b = end_line r \<and> c = start_offset r \<and> d = end_offset r"
| "matches_range _ _ = False"

definition check_locator_range_pairing ::
  "source_range option \<Rightarrow> source_locator option \<Rightarrow> error + unit" where
  "check_locator_range_pairing sr sl =
     (case (sr, sl) of
        (Some r, Some (LineSourceLocator a b c d)) \<Rightarrow>
          if matches_range (LineSourceLocator a b c d) r then Inr ()
          else Inl (ValueError ''source_range and line source_locator must carry identical coordinates'')
      | (Some r, Some l) \<Rightarrow>
          Inl (ValueError ''source_range cannot accompany a non-line source_locator'')
      | _ \<Rightarrow> Inr ())"

record provenance =
  pv_source :: string
  pv_source_id :: "string option"
  pv_source_digest :: "string option"
  pv_source_range :: "source_range option"
  pv_source_locator :: "source_locator option"
  pv_source_agent_id :: "string option"
  pv_session_id :: "string option"
  pv_repository :: "string option"
  pv_tool :: "string option"
  pv_model :: "string option"
  pv_extraction_method :: string
  pv_source_trust :: real
  pv_transformed_at :: instant

text \<open>The fields of a \<open>Provenance(source=...)\<close> a caller leaves out.\<close>

definition provenance_default :: "string \<Rightarrow> instant \<Rightarrow> provenance" where
  "provenance_default src t =
     \<lparr>pv_source = src, pv_source_id = None, pv_source_digest = None, pv_source_range = None,
      pv_source_locator = None, pv_source_agent_id = None, pv_session_id = None,
      pv_repository = None, pv_tool = None, pv_model = None, pv_extraction_method = ''direct'',
      pv_source_trust = 1, pv_transformed_at = t\<rparr>"

record evidence_ref =
  er_kind :: evidence_kind
  er_description :: string
  er_source_id :: "string option"
  er_source_digest :: "string option"
  er_source_range :: "source_range option"
  er_source_locator :: "source_locator option"
  er_observed_at :: instant

definition evidence_of :: "evidence_kind \<Rightarrow> string \<Rightarrow> string option \<Rightarrow> instant \<Rightarrow> evidence_ref" where
  "evidence_of k d sid t =
     \<lparr>er_kind = k, er_description = d, er_source_id = sid, er_source_digest = None,
      er_source_range = None, er_source_locator = None, er_observed_at = t\<rparr>"

record confidence =
  cf_score :: real
  cf_method :: confidence_method
  cf_evidence_count :: nat
  cf_policy_version :: string
  cf_calibrated_at :: instant

section \<open>Consent (\<open>contracts/privacy.py\<close>)\<close>

record consent_grant =
  cg_consent_id :: uuid
  cg_subject_id :: string
  cg_namespace :: string
  cg_allowed_classes :: "memory_class list"
  cg_purpose :: string
  cg_evidence :: evidence_ref
  cg_granted_at :: instant
  cg_expires_at :: "instant option"
  cg_revoked_at :: "instant option"

definition permits ::
  "consent_grant \<Rightarrow> string \<Rightarrow> memory_class \<Rightarrow> instant \<Rightarrow> string option \<Rightarrow> string option \<Rightarrow> bool" where
  "permits g ns c now subject_id expected_purpose =
     (if (case expected_purpose of None \<Rightarrow> False | Some p \<Rightarrow> cg_purpose g \<noteq> p) then False
      else if cg_namespace g \<noteq> ns \<or> c \<notin> set (cg_allowed_classes g) then False
      else if (case subject_id of None \<Rightarrow> False | Some u \<Rightarrow> cg_subject_id g \<noteq> u) then False
      else if now < cg_granted_at g
              \<or> (case cg_revoked_at g of None \<Rightarrow> False | Some t \<Rightarrow> t \<le> now) then False
      else (case cg_expires_at g of None \<Rightarrow> True | Some t \<Rightarrow> now < t))"

section \<open>The canonical record (\<open>contracts/memory.py\<close>)\<close>

record memory_assertion =
  as_subject :: "string option"
  as_predicate :: "string option"
  as_object :: "string option"

definition nonempty_opt :: "string option \<Rightarrow> bool" where
  "nonempty_opt v = (case v of None \<Rightarrow> False | Some s \<Rightarrow> s \<noteq> [])"

definition is_structured :: "memory_assertion \<Rightarrow> bool" where
  "is_structured a \<longleftrightarrow>
     nonempty_opt (as_subject a) \<and> nonempty_opt (as_predicate a) \<and> nonempty_opt (as_object a)"

record memory_record =
  mr_record_id :: uuid
  mr_schema_version :: string
  mr_tenant_id :: string
  mr_namespace :: string
  mr_memory_class :: memory_class
  mr_content :: string
  mr_assertion :: "memory_assertion option"
  mr_temporal :: temporal_coordinates
  mr_provenance :: provenance
  mr_evidence :: "evidence_ref list"
  mr_confidence :: confidence
  mr_state :: memory_state
  mr_tags :: "string list"
  mr_metadata :: "(string, json) dict"
  mr_normalized_digest :: digest
  mr_original_digest :: digest
  mr_idempotency_key :: string
  mr_supersedes :: "uuid list"
  mr_references :: "uuid list"
  mr_consent :: "consent_grant option"
  mr_conflicts_with :: "uuid list"
  mr_created_by :: string
  mr_created_at :: instant

text \<open>\<open>tuple(sorted({tag.strip().lower() for tag in value if tag.strip()}))\<close>.\<close>

definition normalize_tags :: "string list \<Rightarrow> string list" where
  "normalize_tags ts =
     sort (remdups (map (\<lambda>t. lower (strip t)) (filter (\<lambda>t. strip t \<noteq> []) ts)))"

text \<open>The constructor's field constraints; a violated one raises a \<open>ValidationError\<close>.\<close>

definition memory_record_fields_ok :: "memory_record \<Rightarrow> bool" where
  "memory_record_fields_ok r \<longleftrightarrow>
     len_ok 1 200 (mr_tenant_id r) \<and>
     len_ok 1 300 (mr_namespace r) \<and>
     len_ok 1 64000 (mr_content r) \<and>
     is_sha256_hex (mr_normalized_digest r) \<and>
     is_sha256_hex (mr_original_digest r) \<and>
     len_ok 1 300 (mr_idempotency_key r) \<and>
     len_ok 1 300 (mr_created_by r)"

definition make_memory_record :: "memory_record \<Rightarrow> error + memory_record" where
  "make_memory_record r =
     (if memory_record_fields_ok r then Inr (r\<lparr>mr_tags := normalize_tags (mr_tags r)\<rparr>)
      else Inl (ValueError ''validation error for MemoryRecord''))"

record memory_status_event =
  se_event_id :: uuid
  se_record_id :: uuid
  se_previous_state :: "memory_state option"
  se_new_state :: memory_state
  se_reason :: string
  se_actor :: string
  se_occurred_at :: instant
  se_receipt_id :: "uuid option"

definition make_status_event :: "memory_status_event \<Rightarrow> error + memory_status_event" where
  "make_status_event e =
     (if len_ok 1 2000 (se_reason e) \<and> len_ok 1 300 (se_actor e) then Inr e
      else Inl (ValueError ''validation error for MemoryStatusEvent''))"

section \<open>The principal (\<open>contracts/identity.py\<close>)\<close>

record memory_principal =
  mp_principal_id :: string
  mp_tenant_id :: string
  mp_organization_id :: string
  mp_workspace_id :: string
  mp_user_id :: "string option"
  mp_agent_id :: "string option"
  mp_roles :: "string list"
  mp_read_namespaces :: "string list"
  mp_write_namespaces :: "string list"
  mp_promote_namespaces :: "string list"
  mp_maintain_namespaces :: "string list"
  mp_is_admin :: bool
  mp_is_global_admin :: bool
  mp_auth_method :: string

definition can_cross_tenant :: "memory_principal \<Rightarrow> bool" where
  "can_cross_tenant p = mp_is_global_admin p"

definition audit_subject :: "memory_principal \<Rightarrow> string" where
  "audit_subject p = mp_tenant_id p @ '':'' @ mp_principal_id p"

definition memory_principal_ok :: "memory_principal \<Rightarrow> bool" where
  "memory_principal_ok p \<longleftrightarrow>
     len_ok 1 200 (mp_principal_id p) \<and> len_ok 1 200 (mp_tenant_id p) \<and>
     len_ok 1 200 (mp_organization_id p) \<and> len_ok 1 200 (mp_workspace_id p) \<and>
     (case mp_user_id p of None \<Rightarrow> True | Some u \<Rightarrow> length u \<le> 200) \<and>
     (case mp_agent_id p of None \<Rightarrow> True | Some a \<Rightarrow> length a \<le> 200)"

section \<open>Requests (\<open>contracts/requests.py\<close>)\<close>

record memory_write_request =
  wr_namespace :: string
  wr_memory_class :: memory_class
  wr_content :: string
  wr_assertion :: "memory_assertion option"
  wr_provenance :: provenance
  wr_evidence :: "evidence_ref list"
  wr_confidence :: confidence
  wr_valid_from :: instant
  wr_valid_to :: "instant option"
  wr_source_observed_at :: "instant option"
  wr_tags :: "string list"
  wr_metadata :: "(string, json) dict"
  wr_idempotency_key :: "string option"
  wr_supersedes :: "uuid list"
  wr_references :: "uuid list"
  wr_consent :: "consent_grant option"
  wr_dry_run :: bool

definition validate_evidence :: "memory_write_request \<Rightarrow> error + memory_write_request" where
  "validate_evidence r =
     (if cf_method (wr_confidence r) \<in> {C_INFERRED, C_AGGREGATED} then
        (if wr_evidence r = [] then Inl (ValueError ''inferred or aggregated memory requires evidence'')
         else if \<not> list_ex (\<lambda>i. er_kind i \<in> {E_INFERENCE, E_AGGREGATION, E_SOURCE_EXCERPT}) (wr_evidence r)
         then Inl (ValueError ''inferred or aggregated memory requires matching evidence kind'')
         else Inr r)
      else Inr r)"

definition write_request_fields_ok :: "memory_write_request \<Rightarrow> bool" where
  "write_request_fields_ok r \<longleftrightarrow>
     len_ok 1 300 (wr_namespace r) \<and> len_ok 1 64000 (wr_content r) \<and>
     (case wr_idempotency_key r of None \<Rightarrow> True | Some k \<Rightarrow> length k \<le> 300)"

definition make_write_request :: "memory_write_request \<Rightarrow> error + memory_write_request" where
  "make_write_request r =
     (if write_request_fields_ok r then validate_evidence r
      else Inl (ValueError ''validation error for MemoryWriteRequest''))"

record memory_search_request =
  sr_query :: string
  sr_namespaces :: "string list"
  sr_memory_classes :: "memory_class list"
  sr_valid_at :: instant
  sr_recorded_before :: "instant option"
  sr_include_superseded :: bool
  sr_include_archived :: bool
  sr_min_confidence :: real
  sr_limit :: nat
  sr_token_budget :: "nat option"
  sr_tags :: "string list"

text \<open>\<open>normalize_tag_selector\<close>: the same normal form as the tags of a record.\<close>

definition normalize_tag_selector :: "string list \<Rightarrow> string list" where
  "normalize_tag_selector ts =
     sort (remdups (map (\<lambda>t. lower (strip t)) (filter (\<lambda>t. t \<noteq> [] \<and> strip t \<noteq> []) ts)))"

record promotion_request =
  pr_record_id :: uuid
  pr_target_class :: memory_class
  pr_explicit_confirmation :: bool
  pr_governance_approval :: bool
  pr_test_success_count :: nat
  pr_supporting_record_ids :: "uuid list"
  pr_consent :: "consent_grant option"
  pr_reason :: string

record phase_lock_request =
  plr_namespace :: string
  plr_task_signature :: string
  plr_ttl_seconds :: nat

record deletion_request =
  dlr_record_id :: uuid
  dlr_reason :: string
  dlr_verification_reference :: string
  dlr_dry_run :: bool

record close_request =
  clr_namespace :: string
  clr_summary :: string
  clr_session_id :: "string option"
  clr_capsule_digest :: "string option"
  clr_idempotency_key :: "string option"
  clr_dry_run :: bool

section \<open>Facts about the data model\<close>

lemma set_normalize_tags:
  "set (normalize_tags ts) = {lower (strip t) |t. t \<in> set ts \<and> strip t \<noteq> []}"
  by (auto simp: normalize_tags_def)

lemma normalize_tags_sorted: "sorted (normalize_tags ts) \<and> distinct (normalize_tags ts)"
  by (simp add: normalize_tags_def)

lemma strip_nil [simp]: "strip [] = []"
  by (simp add: strip_def)

lemma normalize_tag_selector_eq: "normalize_tag_selector ts = normalize_tags ts"
  by (simp add: normalize_tag_selector_def normalize_tags_def)
     (metis (mono_tags, lifting) filter_cong strip_nil)

lemma validate_coordinates_Inr:
  "validate_coordinates t = Inr u \<longleftrightarrow>
     u = t \<and> (\<forall>e. valid_to t = Some e \<longrightarrow> valid_from t < e) \<and>
     (\<forall>s. superseded_at t = Some s \<longrightarrow> recorded_at t \<le> s)"
  by (auto simp: validate_coordinates_def split: option.splits if_splits)

lemma make_memory_record_Inr:
  "make_memory_record r = Inr r' \<longleftrightarrow>
     memory_record_fields_ok r \<and> r' = r\<lparr>mr_tags := normalize_tags (mr_tags r)\<rparr>"
  by (auto simp: make_memory_record_def split: if_splits)

lemma permits_window:
  "permits g ns c now sid pu \<Longrightarrow>
     cg_granted_at g \<le> now \<and> (\<forall>t. cg_expires_at g = Some t \<longrightarrow> now < t) \<and>
     (\<forall>t. cg_revoked_at g = Some t \<longrightarrow> now < t)"
  by (auto simp: permits_def split: if_splits option.splits)

lemma permits_scope:
  "permits g ns c now sid pu \<Longrightarrow>
     cg_namespace g = ns \<and> c \<in> set (cg_allowed_classes g) \<and>
     (\<forall>u. sid = Some u \<longrightarrow> cg_subject_id g = u) \<and> (\<forall>p. pu = Some p \<longrightarrow> cg_purpose g = p)"
  by (auto simp: permits_def split: if_splits option.splits)

end
