(* ===== verification/Receipts.thy ===== *)
theory Receipts
  imports Contracts
begin

text \<open>
  The receipts of \<open>contracts/receipts.py\<close>, the projection links and their receipts of
  \<open>contracts/projection.py\<close>, the ledger entries of \<open>contracts/maintenance.py\<close>, the review
  verdicts of \<open>contracts/review.py\<close>, the source selectors of \<open>contracts/generated_data.py\<close>,
  and the two ports every store shares: the phase-lock snapshot and the write capability.
\<close>

section \<open>Receipts (\<open>contracts/receipts.py\<close>)\<close>

record authorization_receipt =
  ar_receipt_id :: uuid
  ar_principal_id :: string
  ar_action :: authorization_action
  ar_namespace :: string
  ar_allowed :: bool
  ar_reasons :: "string list"
  ar_policy_version :: string
  ar_evaluated_at :: instant

record admission_decision =
  ad_decision_id :: uuid
  ad_status :: write_status
  ad_reasons :: "string list"
  ad_warnings :: "string list"
  ad_policy_version :: string
  ad_candidate_digest :: digest
  ad_evaluated_at :: instant

record write_receipt =
  wrc_receipt_id :: uuid
  wrc_status :: write_status
  wrc_record_id :: "uuid option"
  wrc_namespace :: string
  wrc_schema_version :: string
  wrc_normalized_digest :: digest
  wrc_original_digest :: digest
  wrc_idempotency_key :: string
  wrc_idempotency_key_supplied :: bool
  wrc_admission :: admission_decision
  wrc_authorization :: authorization_receipt
  wrc_outbox_event_ids :: "uuid list"
  wrc_superseded_record_ids :: "uuid list"
  wrc_warnings :: "string list"
  wrc_created_at :: instant

record archive_receipt =
  arc_receipt_id :: uuid
  arc_status :: operation_status
  arc_namespace :: string
  arc_applied :: bool
  arc_archived_record_ids :: "uuid list"
  arc_authorization :: authorization_receipt
  arc_reason :: string
  arc_actor :: string
  arc_created_at :: instant

record lifecycle_transition =
  lt_record_id :: uuid
  lt_previous_state :: memory_state
  lt_new_state :: memory_state

record lifecycle_receipt =
  lr_receipt_id :: uuid
  lr_status :: operation_status
  lr_namespace :: string
  lr_transitions :: "lifecycle_transition list"
  lr_authorization :: authorization_receipt
  lr_outbox_event_ids :: "uuid list"
  lr_reason :: string
  lr_actor :: string
  lr_evidence :: "evidence_ref list"
  lr_created_at :: instant

definition make_lifecycle_receipt :: "lifecycle_receipt \<Rightarrow> error + lifecycle_receipt" where
  "make_lifecycle_receipt r =
     (if len_ok 1 2000 (lr_reason r) \<and> len_ok 1 400 (lr_actor r) then Inr r
      else Inl (ValueError ''validation error for LifecycleTransitionReceipt''))"

record deletion_receipt =
  dr_receipt_id :: uuid
  dr_tombstone_id :: uuid
  dr_record_id :: uuid
  dr_namespace :: string
  dr_status :: deletion_status
  dr_tombstone_digest :: digest
  dr_authorization :: authorization_receipt
  dr_reason :: string
  dr_verification_reference :: string
  dr_projection_event_id :: "uuid option"
  dr_projection_event_ids :: "uuid list"
  dr_projection_targets :: "string list"
  dr_requested_by :: string
  dr_created_at :: instant
  dr_completed_at :: "instant option"

record conflict_item =
  ci_left_record_id :: uuid
  ci_right_record_id :: uuid
  ci_subject :: "string option"
  ci_predicate :: "string option"
  ci_reason :: string

record conflict_link_receipt =
  clk_receipt_id :: uuid
  clk_status :: operation_status
  clk_namespace :: string
  clk_links :: "conflict_item list"
  clk_authorization :: authorization_receipt
  clk_reason :: string
  clk_actor :: string
  clk_created_at :: instant

definition make_conflict_link_receipt :: "conflict_link_receipt \<Rightarrow> error + conflict_link_receipt" where
  "make_conflict_link_receipt r =
     (if len_ok 1 2000 (clk_reason r) \<and> len_ok 1 400 (clk_actor r) then Inr r
      else Inl (ValueError ''validation error for ConflictLinkReceipt''))"

record conflict_report =
  cr_namespace :: string
  cr_status :: operation_status
  cr_conflicts :: "conflict_item list"
  cr_checked_record_count :: nat
  cr_snapshot_digest :: digest
  cr_policy_version :: string
  cr_checked_at :: instant

definition has_conflicts :: "conflict_report \<Rightarrow> bool" where
  "has_conflicts r \<longleftrightarrow> cr_conflicts r \<noteq> []"

record phase_lock_receipt =
  pl_lock_id :: uuid
  pl_tenant_id :: string
  pl_namespace :: string
  pl_task_signature :: string
  pl_granted :: bool
  pl_conflict_report :: conflict_report
  pl_snapshot_digest :: digest
  pl_expires_at :: instant
  pl_principal_id :: string
  pl_policy_version :: string
  pl_created_at :: instant

record phase_lock_verification =
  pv_lock_id :: "uuid option"
  pv_namespace :: string
  pv_task_signature :: string
  pv_valid :: bool
  pv_reasons :: "string list"
  pv_current_snapshot_digest :: digest
  pv_verified_at :: instant

record retention_decision =
  rd_record_id :: uuid
  rd_action :: string
  rd_reason :: string
  rd_reference_count :: nat
  rd_decay_score :: real

record retention_receipt =
  rr_receipt_id :: uuid
  rr_namespace :: string
  rr_applied :: bool
  rr_decisions :: "retention_decision list"
  rr_archive_receipt :: archive_receipt
  rr_policy_version :: string
  rr_created_at :: instant

record outbox_event =
  ob_event_id :: uuid
  ob_event_type :: string
  ob_aggregate_id :: uuid
  ob_namespace :: string
  ob_payload :: "(string, json) dict"
  ob_status :: outbox_status
  ob_attempts :: nat
  ob_next_attempt_at :: instant
  ob_last_error :: "string option"
  ob_created_at :: instant
  ob_delivered_at :: "instant option"
  ob_lease_id :: "uuid option"
  ob_lease_owner :: "string option"
  ob_lease_expires_at :: "instant option"

record close_receipt =
  clo_receipt_id :: uuid
  clo_status :: operation_status
  clo_namespace :: string
  clo_write_receipt_id :: uuid
  clo_record_id :: "uuid option"
  clo_graphiti_accepted :: bool
  clo_replayed :: bool
  clo_replay_payload_matched :: "bool option"
  clo_stored_digest :: "digest option"
  clo_replay_digest :: "digest option"
  clo_warnings :: "string list"
  clo_authorization :: authorization_receipt
  clo_created_at :: instant

section \<open>Projection links (\<open>contracts/projection.py\<close>)\<close>

definition LEGACY_PROVIDER_TYPE :: string where "LEGACY_PROVIDER_TYPE = ''legacy''"
definition LEGACY_COPIES_KEY :: string where "LEGACY_COPIES_KEY = ''legacy_copies''"
definition LINK_WITHDRAWN_KEY :: string where "LINK_WITHDRAWN_KEY = ''withdrawn''"
definition PENDING_DELETION_RECEIPT_KEY :: string where
  "PENDING_DELETION_RECEIPT_KEY = ''pending_deletion_receipt_id''"

datatype retirement_mode = RM_NATIVE | RM_WITHDRAW

record projection_link =
  pk_record_id :: uuid
  pk_namespace :: string
  pk_projection_name :: string
  pk_target_identity :: string
  pk_projection_version :: "nat option"
  pk_provider_type :: string
  pk_locator :: string
  pk_manifest_digest :: "digest option"
  pk_render_contract_digest :: "digest option"
  pk_metadata :: "(string, json) dict"
  pk_created_at :: instant

text \<open>
  Construction fills an absent target identity with the projection name, then checks the
  length constraints and strips the four required texts.
\<close>

definition default_legacy_target_identity :: "projection_link \<Rightarrow> projection_link" where
  "default_legacy_target_identity l =
     (if pk_target_identity l = [] then l\<lparr>pk_target_identity := pk_projection_name l\<rparr> else l)"

definition make_projection_link :: "projection_link \<Rightarrow> error + projection_link" where
  "make_projection_link l0 =
     (let l = default_legacy_target_identity l0 in
      if \<not> (len_ok 1 255 (pk_namespace l) \<and> len_ok 1 128 (pk_projection_name l) \<and>
            len_ok 1 512 (pk_target_identity l) \<and> len_ok 1 64 (pk_provider_type l) \<and>
            len_ok 1 1024 (pk_locator l))
      then Inl (ValueError ''validation error for ProjectionLink'')
      else if strip (pk_namespace l) = [] \<or> strip (pk_projection_name l) = []
              \<or> strip (pk_target_identity l) = [] \<or> strip (pk_locator l) = []
      then Inl (ValueError ''value cannot be blank'')
      else Inr (l\<lparr>pk_namespace := strip (pk_namespace l),
                  pk_projection_name := strip (pk_projection_name l),
                  pk_target_identity := strip (pk_target_identity l),
                  pk_locator := strip (pk_locator l)\<rparr>))"

record retirement_receipt =
  prr_receipt_id :: uuid
  prr_record_id :: uuid
  prr_namespace :: string
  prr_projection_name :: string
  prr_target_identity :: "string option"
  prr_provider_type :: "string option"
  prr_retirement_mode :: retirement_mode
  prr_locator :: "string option"
  prr_reason :: string
  prr_erasure :: bool
  prr_rebuildable :: bool
  prr_outbox_event_id :: "uuid option"
  prr_provider_result :: "(string, json) dict"
  prr_retired_at :: instant

definition make_retirement_receipt :: "retirement_receipt \<Rightarrow> error + retirement_receipt" where
  "make_retirement_receipt r =
     (if \<not> (len_ok 1 255 (prr_namespace r) \<and> len_ok 1 128 (prr_projection_name r) \<and>
            (case prr_target_identity r of None \<Rightarrow> True | Some t \<Rightarrow> length t \<le> 512) \<and>
            (case prr_provider_type r of None \<Rightarrow> True | Some t \<Rightarrow> length t \<le> 64) \<and>
            (case prr_locator r of None \<Rightarrow> True | Some t \<Rightarrow> length t \<le> 1024) \<and>
            len_ok 1 2000 (prr_reason r))
      then Inl (ValueError ''validation error for ProjectionRetirementReceipt'')
      else if prr_erasure r then Inl (ValueError ''a retirement receipt cannot assert erasure'')
      else Inr r)"

fun json_obj :: "json \<Rightarrow> (string, json) dict" where
  "json_obj (JObj m) = m"
| "json_obj _ = []"

definition legacy_copies :: "projection_link option \<Rightarrow> (string, json) dict list" where
  "legacy_copies l =
     (case l of
        None \<Rightarrow> []
      | Some k \<Rightarrow>
          (case dict_get (pk_metadata k) LEGACY_COPIES_KEY of
             Some (JList copies) \<Rightarrow> map json_obj copies
           | _ \<Rightarrow> []))"

definition link_withdrawn :: "projection_link option \<Rightarrow> bool" where
  "link_withdrawn l =
     (case l of
        None \<Rightarrow> False
      | Some k \<Rightarrow>
          (case dict_get (pk_metadata k) LINK_WITHDRAWN_KEY of
             Some v \<Rightarrow> truthy v
           | None \<Rightarrow> False))"

record legacy_release_receipt =
  lpr_receipt_id :: uuid
  lpr_namespace :: string
  lpr_projection_name :: string
  lpr_applied :: bool
  lpr_released_record_ids :: "uuid list"
  lpr_released_copy_count :: nat
  lpr_completed_deletion_record_ids :: "uuid list"
  lpr_authorization :: authorization_receipt
  lpr_store_destruction_reference :: string
  lpr_reason :: string
  lpr_actor :: string
  lpr_created_at :: instant
  lpr_cutover_receipt_id :: "uuid option"

definition make_legacy_release_receipt :: "legacy_release_receipt \<Rightarrow> error + legacy_release_receipt" where
  "make_legacy_release_receipt r =
     (if len_ok 1 255 (lpr_namespace r) \<and> len_ok 1 128 (lpr_projection_name r) \<and>
         len_ok 1 400 (lpr_store_destruction_reference r) \<and>
         len_ok 1 2000 (lpr_reason r) \<and> len_ok 1 400 (lpr_actor r)
      then Inr r
      else Inl (ValueError ''validation error for LegacyProjectionReleaseReceipt''))"

record cutover_receipt =
  gc_receipt_id :: uuid
  gc_tenant_id :: string
  gc_namespace :: string
  gc_projection_name :: string
  gc_applied :: bool
  gc_previous_binding :: string
  gc_new_binding :: string
  gc_change_reference :: string
  gc_cut_over_at :: instant
  gc_rollback_window_ends_at :: instant
  gc_scope_scheme :: "string option"
  gc_active_record_count :: nat
  gc_projected_record_count :: nat
  gc_unprojected_record_ids :: "uuid list"
  gc_outbox_backlog :: nat
  gc_schema_fingerprint :: "string option"
  gc_graph_capabilities :: "string list"
  gc_ready :: bool
  gc_authorization :: authorization_receipt
  gc_reason :: string
  gc_actor :: string
  gc_created_at :: instant

definition make_cutover_receipt :: "cutover_receipt \<Rightarrow> error + cutover_receipt" where
  "make_cutover_receipt r =
     (if len_ok 1 255 (gc_tenant_id r) \<and> len_ok 1 255 (gc_namespace r) \<and>
         len_ok 1 128 (gc_projection_name r) \<and> len_ok 1 400 (gc_previous_binding r) \<and>
         len_ok 1 400 (gc_new_binding r) \<and> len_ok 1 400 (gc_change_reference r) \<and>
         (case gc_schema_fingerprint r of None \<Rightarrow> True | Some s \<Rightarrow> length s \<le> 128) \<and>
         len_ok 1 2000 (gc_reason r) \<and> len_ok 1 400 (gc_actor r)
      then Inr r
      else Inl (ValueError ''validation error for GraphCutoverReceipt''))"

record rebuild_receipt =
  pb_receipt_id :: uuid
  pb_namespace :: string
  pb_projection_name :: string
  pb_applied :: bool
  pb_considered_record_count :: nat
  pb_already_projected_count :: nat
  pb_queued_record_ids :: "uuid list"
  pb_stale_scope_record_ids :: "uuid list"
  pb_outbox_event_ids :: "uuid list"
  pb_target_identities :: "string list"
  pb_queued_by_target :: "(string, uuid list) dict"
  pb_authorization :: authorization_receipt
  pb_reason :: string
  pb_actor :: string
  pb_created_at :: instant

definition make_rebuild_receipt :: "rebuild_receipt \<Rightarrow> error + rebuild_receipt" where
  "make_rebuild_receipt r =
     (if len_ok 1 255 (pb_namespace r) \<and> len_ok 1 128 (pb_projection_name r) \<and>
         len_ok 1 2000 (pb_reason r) \<and> len_ok 1 400 (pb_actor r)
      then Inr r
      else Inl (ValueError ''validation error for ProjectionRebuildReceipt''))"

section \<open>Maintenance ledger (\<open>contracts/maintenance.py\<close>)\<close>

definition ALL_MAINTENANCE_OPERATIONS :: "maintenance_operation list" where
  "ALL_MAINTENANCE_OPERATIONS =
     [M_DEDUPE, M_REFINE, M_SUPERSEDE, M_ARCHIVE, M_RECONCILE, M_REVIEW_QUARANTINE]"

record maintenance_request =
  mq_namespace :: string
  mq_operations :: "maintenance_operation list"
  mq_watermark :: "instant option"
  mq_max_records :: nat
  mq_max_actions :: nat
  mq_dry_run :: bool
  mq_reason :: string

definition validate_operations :: "maintenance_request \<Rightarrow> error + maintenance_request" where
  "validate_operations r =
     (if mq_operations r = [] then Inl (ValueError ''maintenance requires at least one operation'')
      else if \<not> distinct (mq_operations r)
      then Inl (ValueError ''maintenance operations must be unique'')
      else Inr r)"

record maintenance_action =
  ma_action_id :: uuid
  ma_operation :: maintenance_operation
  ma_source_record_ids :: "uuid list"
  ma_result_record_id :: "uuid option"
  ma_superseded_record_ids :: "uuid list"
  ma_archived_record_ids :: "uuid list"
  ma_reason :: string
  ma_action_digest :: digest
  ma_applied :: bool
  ma_details :: "(string, json) dict"

record maintenance_run =
  mrun_run_id :: uuid
  mrun_tenant_id :: string
  mrun_namespace :: string
  mrun_status :: operation_status
  mrun_maintenance_status :: maintenance_status
  mrun_applied :: bool
  mrun_operations :: "maintenance_operation list"
  mrun_watermark :: instant
  mrun_previous_watermark :: "instant option"
  mrun_considered_record_count :: nat
  mrun_actions :: "maintenance_action list"
  mrun_skipped_action_digests :: "digest list"
  mrun_escalated_record_ids :: "uuid list"
  mrun_authorization :: authorization_receipt
  mrun_actor :: string
  mrun_reason :: string
  mrun_failures :: "string list"
  mrun_started_at :: instant
  mrun_completed_at :: "instant option"

definition applied_actions :: "maintenance_run \<Rightarrow> maintenance_action list" where
  "applied_actions r = filter ma_applied (mrun_actions r)"

section \<open>Quarantine review (\<open>contracts/review.py\<close>)\<close>

record review_policy =
  qp_policy_version :: string
  qp_release_min_confidence :: real
  qp_blocker_pii_types :: "string list"
  qp_blocker_safety_signals :: "string list"
  qp_max_reviews_per_run :: nat

definition default_review_policy :: review_policy where
  "default_review_policy =
     \<lparr>qp_policy_version = ''quarantine-review/v1'', qp_release_min_confidence = 8 / 10,
      qp_blocker_pii_types = [''openai_key'', ''bearer''],
      qp_blocker_safety_signals = [''credential_exfiltration''],
      qp_max_reviews_per_run = 200\<rparr>"

record review_verdict =
  rv_record_id :: uuid
  rv_verdict :: quarantine_verdict
  rv_confidence :: real
  rv_reasons :: "string list"
  rv_blockers :: "string list"
  rv_reviewer :: string
  rv_model :: "string option"
  rv_policy_version :: string
  rv_reviewed_at :: instant

definition requires_human :: "review_verdict \<Rightarrow> bool" where
  "requires_human v \<longleftrightarrow> rv_verdict v = V_ESCALATE \<or> rv_blockers v \<noteq> []"

section \<open>Structured source selectors (\<open>contracts/generated_data.py\<close>)\<close>

record source_selector =
  ss_selector_id :: string
  ss_record_id :: uuid
  ss_repository :: string
  ss_selector_type :: string
  ss_selector_value :: string
  ss_active :: bool
  ss_created_at :: instant
  ss_deactivated_at :: "instant option"

record revalidation_requirement =
  rq_requirement_id :: uuid
  rq_tenant_id :: string
  rq_namespace :: string
  rq_record_id :: uuid
  rq_invalidation_event_id :: string
  rq_reason :: string
  rq_created_at :: instant

record invalidation_selector =
  is_selector_id :: string
  is_selector_type :: string
  is_selector_value :: string
  is_change_kind :: "string option"
  is_previous_path :: "string option"

record invalidation_request =
  iq_event_id :: "string option"
  iq_event_type :: string
  iq_repository :: "string option"
  iq_from_sha :: "string option"
  iq_to_sha :: "string option"
  iq_selectors :: "invalidation_selector list option"
  iq_selector :: "invalidation_selector option"

text \<open>\<open>validate_selector_form\<close>, the schema-major check on the envelope aside.\<close>

definition validate_selector_form :: "invalidation_request \<Rightarrow> error + invalidation_request" where
  "validate_selector_form r =
     (if iq_selector r \<noteq> None \<and> iq_selectors r \<noteq> None
      then Inl (ValueError ''selector and selectors are mutually exclusive; send selectors'')
      else if iq_selector r = None \<and> (iq_selectors r = None \<or> iq_selectors r = Some [])
      then Inl (ValueError ''source invalidation requires structured selectors'')
      else if iq_selectors r \<noteq> None \<and> iq_event_id r = None
      then Inl (ValueError ''canonical invalidation requests require event_id'')
      else if iq_selectors r \<noteq> None \<and> iq_repository r = None
      then Inl (ValueError ''canonical invalidation requests require repository'')
      else Inr r)"

definition compatibility_form :: "invalidation_request \<Rightarrow> string" where
  "compatibility_form r = (if iq_selectors r \<noteq> None then ''canonical'' else ''legacy_selector'')"

definition normalized_selectors :: "invalidation_request \<Rightarrow> invalidation_selector list" where
  "normalized_selectors r =
     (case iq_selectors r of
        Some ss \<Rightarrow> ss
      | None \<Rightarrow> (case iq_selector r of Some s \<Rightarrow> [s] | None \<Rightarrow> []))"

definition selector_json :: "invalidation_selector \<Rightarrow> json" where
  "selector_json s =
     JObj [(''selector_id'', JStr (is_selector_id s)), (''selector_type'', JStr (is_selector_type s)),
           (''selector_value'', JStr (is_selector_value s)), (''change_kind'', opt_str (is_change_kind s)),
           (''previous_path'', opt_str (is_previous_path s))]"

text \<open>
  \<open>dumps\<close> is \<open>json.dumps(value, sort_keys=True)\<close>, used only as the sort key; \<open>hash\<close> is
  the SHA-256 text of the canonical JSON of a value.
\<close>

definition request_digest ::
  "(json \<Rightarrow> string) \<Rightarrow> (json \<Rightarrow> digest) \<Rightarrow> invalidation_request \<Rightarrow> digest" where
  "request_digest dumps hash r =
     hash (JObj [(''event_type'', JStr (iq_event_type r)), (''repository'', opt_str (iq_repository r)),
                 (''from_sha'', opt_str (iq_from_sha r)), (''to_sha'', opt_str (iq_to_sha r)),
                 (''selectors'', JList (sort_key dumps (map selector_json (normalized_selectors r)))),
                 (''delete_memory'', JBool False)])"

definition operation_id ::
  "(json \<Rightarrow> string) \<Rightarrow> (json \<Rightarrow> digest) \<Rightarrow> invalidation_request \<Rightarrow> string" where
  "operation_id dumps hash r =
     (case iq_event_id r of
        Some e \<Rightarrow> e
      | None \<Rightarrow> ''legacy-invalidation-'' @ take 32 (request_digest dumps hash r))"

datatype invalidation_status = I_APPLIED | I_REJECTED

record invalidation_receipt =
  ir_status :: invalidation_status
  ir_event_type :: string
  ir_matched :: nat
  ir_reason :: "string option"
  ir_event_id :: "string option"
  ir_transitioned :: nat
  ir_record_ids :: "uuid list"
  ir_lifecycle_receipt_ids :: "uuid list"
  ir_revalidation_requirement_ids :: "uuid list"
  ir_deleted :: bool

record invalidation_event =
  ie_event_id :: string
  ie_tenant_id :: string
  ie_request_digest :: digest
  ie_compatibility_form :: string
  ie_event_type :: string
  ie_repository :: "string option"
  ie_from_sha :: "string option"
  ie_to_sha :: "string option"
  ie_selectors :: "invalidation_selector list"
  ie_namespaces :: "string list"
  ie_matched :: nat
  ie_transitioned :: nat
  ie_record_ids :: "uuid list"
  ie_lifecycle_receipt_ids :: "uuid list"
  ie_revalidation_requirement_ids :: "uuid list"
  ie_actor :: string
  ie_created_at :: instant

definition GENERATED_DATA_SOURCE :: string where
  "GENERATED_DATA_SOURCE = ''cursor-governance-generated-data''"

text \<open>
  One condition of the metadata: an object of exactly \<open>condition_type\<close> and \<open>selector\<close>,
  both non-empty strings; anything else makes the whole mapping empty.
\<close>

fun condition_fields :: "json \<Rightarrow> (string \<times> string) option" where
  "condition_fields (JObj m) =
     (if set (dict_keys m) = {''condition_type'', ''selector''} then
        (case (get_str m ''condition_type'', get_str m ''selector'') of
           (Some t, Some v) \<Rightarrow> if t = [] \<or> v = [] then None else Some (t, v)
         | _ \<Rightarrow> None)
      else None)"
| "condition_fields _ = None"

fun conditions_fields :: "json list \<Rightarrow> (string \<times> string) list option" where
  "conditions_fields [] = Some []"
| "conditions_fields (c # cs) =
     (case condition_fields c of
        None \<Rightarrow> None
      | Some f \<Rightarrow> (case conditions_fields cs of None \<Rightarrow> None | Some fs \<Rightarrow> Some (f # fs)))"

definition selector_of ::
  "(json \<Rightarrow> digest) \<Rightarrow> memory_record \<Rightarrow> string \<Rightarrow> string \<times> string \<Rightarrow> source_selector" where
  "selector_of hash r repo f =
     \<lparr>ss_selector_id =
        ''srcsel-'' @ take 40 (hash (JList [JStr (uuid_str (mr_record_id r)), JStr (fst f), JStr (snd f)])),
      ss_record_id = mr_record_id r, ss_repository = repo, ss_selector_type = fst f,
      ss_selector_value = snd f, ss_active = True, ss_created_at = mr_created_at r,
      ss_deactivated_at = None\<rparr>"

definition source_selectors_for_record :: "(json \<Rightarrow> digest) \<Rightarrow> memory_record \<Rightarrow> source_selector list" where
  "source_selectors_for_record hash r =
     (let m = mr_metadata r in
      if pv_source (mr_provenance r) \<noteq> GENERATED_DATA_SOURCE then []
      else if get_str m ''generated_data_kind'' \<noteq> Some ''MemoryCandidate'' then []
      else (case (get_str m ''repository'', dict_get m ''invalidation_conditions'') of
        (Some repo, Some (JList conds)) \<Rightarrow>
          if repo = [] \<or> conds = [] then []
          else (case conditions_fields conds of
            None \<Rightarrow> []
          | Some fs \<Rightarrow>
              dict_values (dict_set_all ss_selector_id (map (selector_of hash r repo) fs) []))
      | _ \<Rightarrow> []))"

lemma selectors_own_record:
  assumes "s \<in> set (source_selectors_for_record hash r)"
  shows "ss_record_id s = mr_record_id r \<and> ss_active s"
proof -
  have "s \<in> set (dict_values (dict_set_all ss_selector_id (map (selector_of hash r repo) fs) [])) \<Longrightarrow>
          ss_record_id s = mr_record_id r \<and> ss_active s" for repo fs
  proof -
    assume "s \<in> set (dict_values (dict_set_all ss_selector_id (map (selector_of hash r repo) fs) []))"
    then obtain k where
      "dict_get (dict_set_all ss_selector_id (map (selector_of hash r repo) fs) []) k = Some s"
      by (metis dict_ok_nil dict_ok_set_all dict_values_get)
    then show ?thesis
      by (auto dest!: dict_get_set_all_cases simp: selector_of_def)
  qed
  with assms show ?thesis
    unfolding source_selectors_for_record_def Let_def
    by (auto split: if_splits option.splits json.splits)
qed

section \<open>Store ports (\<open>ports/phase_lock.py\<close>, \<open>ports/service_capability.py\<close>)\<close>

definition snapshot_entry :: "memory_record \<Rightarrow> json" where
  "snapshot_entry r =
     JObj [(''record_id'', JStr (uuid_str (mr_record_id r))),
           (''digest'', JStr (mr_normalized_digest r)),
           (''state'', JStr (state_value (mr_state r))),
           (''valid_from'', JTime (valid_from (mr_temporal r))),
           (''valid_to'', opt_time (valid_to (mr_temporal r))),
           (''recorded_at'', JTime (recorded_at (mr_temporal r)))]"

definition snapshot_digest :: "(json \<Rightarrow> digest) \<Rightarrow> memory_record list \<Rightarrow> digest" where
  "snapshot_digest hash rs =
     hash (JList (map snapshot_entry (sort_key (\<lambda>r. uuid_str (mr_record_id r)) rs)))"

record phase_lock_precondition =
  pp_tenant_id :: string
  pp_namespace :: string
  pp_expected_snapshot_digest :: digest

datatype capability = SERVICE_WRITE_CAPABILITY | OtherObject

definition require_service_write_capability :: "capability \<Rightarrow> ('s, error, unit) op" where
  "require_service_write_capability c =
     check (c = SERVICE_WRITE_CAPABILITY)
       (PermissionError ''canonical store mutation requires the MemoryService write capability'')"

text \<open>
  The snapshot digest does not depend on the order the records are listed in, so the
  service and every store compute the same value.
\<close>

lemma snapshot_digest_order:
  assumes "mset xs = mset ys" and "distinct (map mr_record_id xs)"
  shows "snapshot_digest h xs = snapshot_digest h ys"
proof -
  let ?f = "\<lambda>r. uuid_str (mr_record_id r)"
  have "inj_on ?f (set xs)"
    using assms(2) by (auto simp: distinct_map inj_on_def dest: uuid_str_inj)
  moreover have "mset xs = mset (sort_key ?f ys)"
    using assms(1) by simp
  ultimately have "sort_key ?f xs = sort_key ?f ys"
    by (intro sort_key_inj_key_eq) auto
  then show ?thesis by (simp add: snapshot_digest_def)
qed

end
