(* ===== verification/Store.thy ===== *)
theory Store
  imports Receipts
begin

text \<open>
  The in-memory record store, \<open>adapters/in_memory_store.py\<close>: its state is the set of
  dictionaries and ledgers of \<open>InMemoryRecordStore\<close>, and every method is an operation that
  returns or raises together with the state it leaves. \<open>hash\<close> is the SHA-256 text of a
  value's canonical JSON, \<open>cap\<close> the capability argument; the write lock makes each commit
  one critical section, which an operation of the model is.
\<close>

section \<open>State\<close>

record store =
  st_records :: "(uuid, memory_record) dict"
  st_receipts :: "(uuid, write_receipt) dict"
  st_archive_receipts :: "(uuid, archive_receipt) dict"
  st_deletion_receipts :: "(uuid, deletion_receipt) dict"
  st_idempotency :: "(string \<times> string \<times> string, uuid) dict"
  st_status_events :: "memory_status_event list"
  st_outbox :: "(uuid, outbox_event) dict"
  st_phase_locks :: "(string \<times> string \<times> string, phase_lock_receipt) dict"
  st_projection_links :: "(uuid \<times> string, projection_link) dict"
  st_maintenance_runs :: "maintenance_run list"
  st_projection_retirements :: "retirement_receipt list"
  st_projection_rebuilds :: "rebuild_receipt list"
  st_legacy_projection_releases :: "legacy_release_receipt list"
  st_graph_cutovers :: "cutover_receipt list"
  st_lifecycle_receipts :: "(uuid, lifecycle_receipt) dict"
  st_conflict_receipts :: "(uuid, conflict_link_receipt) dict"
  st_source_selectors :: "(string, source_selector) dict"
  st_source_invalidations :: "(string \<times> string, invalidation_event) dict"
  st_revalidation_requirements :: "(uuid, revalidation_requirement) dict"
  st_initialized :: bool

definition empty_store :: store where
  "empty_store =
     \<lparr>st_records = [], st_receipts = [], st_archive_receipts = [], st_deletion_receipts = [],
      st_idempotency = [], st_status_events = [], st_outbox = [], st_phase_locks = [],
      st_projection_links = [], st_maintenance_runs = [], st_projection_retirements = [],
      st_projection_rebuilds = [], st_legacy_projection_releases = [], st_graph_cutovers = [],
      st_lifecycle_receipts = [], st_conflict_receipts = [], st_source_selectors = [],
      st_source_invalidations = [], st_revalidation_requirements = [], st_initialized = False\<rparr>"

type_synonym 'a store_op = "(store, error, 'a) op"

definition initialize_store :: "unit store_op" where
  "initialize_store = modify (\<lambda>s. s\<lparr>st_initialized := True\<rparr>)"

definition close_store :: "unit store_op" where
  "close_store = modify (\<lambda>s. s\<lparr>st_initialized := False\<rparr>)"

definition health :: "store \<Rightarrow> (string, json) dict" where
  "health s =
     [(''name'', JStr ''memory''), (''healthy'', JBool (st_initialized s)),
      (''records'', JInt (int (length (st_records s))))]"

section \<open>Lifecycle transitions\<close>

definition get_record :: "uuid \<Rightarrow> store \<Rightarrow> memory_record option" where
  "get_record rid s = dict_get (st_records s) rid"

definition check_transition :: "memory_status_event \<Rightarrow> memory_record store_op" where
  "check_transition e =
     andThen (gets (get_record (se_record_id e))) (\<lambda>found.
       case found of
         None \<Rightarrow> throw (StoreError ''status transition target not found'')
       | Some r \<Rightarrow>
           if se_previous_state e \<noteq> None \<and> se_previous_state e \<noteq> Some (mr_state r)
           then throw (StoreError ''status transition expected another state'')
           else ret r)"

text \<open>The record a status event turns its target into.\<close>

definition transitioned :: "memory_status_event \<Rightarrow> memory_record \<Rightarrow> memory_record" where
  "transitioned e r =
     (let t = (if se_new_state e = SUPERSEDED
               then (mr_temporal r)\<lparr>superseded_at := Some (se_occurred_at e)\<rparr>
               else mr_temporal r)
      in r\<lparr>mr_state := se_new_state e, mr_temporal := t\<rparr>)"

definition apply_transition :: "memory_status_event \<Rightarrow> unit store_op" where
  "apply_transition e =
     andThen (check_transition e) (\<lambda>r.
       modify (\<lambda>s. s\<lparr>st_records := dict_set (se_record_id e) (transitioned e r) (st_records s),
                    st_status_events := st_status_events s @ [e]\<rparr>))"

definition transition_state :: "capability \<Rightarrow> memory_status_event \<Rightarrow> unit store_op" where
  "transition_state cap e =
     andThen (require_service_write_capability cap) (\<lambda>_. apply_transition e)"

text \<open>\<open>for status_event in status_events: self._check_transition(status_event)\<close>.\<close>

definition check_transitions :: "memory_status_event list \<Rightarrow> unit store_op" where
  "check_transitions es = for_each (\<lambda>e. andThen (check_transition e) (\<lambda>_. ret ())) es"

definition put_outbox_events :: "outbox_event list \<Rightarrow> unit store_op" where
  "put_outbox_events es = modify (\<lambda>s. s\<lparr>st_outbox := dict_set_all ob_event_id es (st_outbox s)\<rparr>)"

section \<open>Committing a write\<close>

definition operation_key :: "memory_record \<Rightarrow> string \<times> string \<times> string" where
  "operation_key r = (mr_tenant_id r, mr_namespace r, mr_idempotency_key r)"

definition namespace_active :: "string \<Rightarrow> string \<Rightarrow> store \<Rightarrow> memory_record list" where
  "namespace_active tenant ns s =
     filter (\<lambda>r. mr_tenant_id r = tenant \<and> mr_namespace r = ns \<and> mr_state r = ACTIVE)
       (dict_values (st_records s))"

definition require_phase_lock_snapshot ::
  "(json \<Rightarrow> digest) \<Rightarrow> phase_lock_precondition \<Rightarrow> unit store_op" where
  "require_phase_lock_snapshot hash p =
     andThen (gets (\<lambda>s. snapshot_digest hash (namespace_active (pp_tenant_id p) (pp_namespace p) s)))
       (\<lambda>current. check (current = pp_expected_snapshot_digest p)
          (PhaseLockSnapshotConflict ''namespace changed after phase-lock verification''))"

definition check_operation_identity :: "memory_record \<Rightarrow> unit store_op" where
  "check_operation_identity r =
     andThen (gets (\<lambda>s. dict_get (st_idempotency s) (operation_key r))) (\<lambda>existing.
       case existing of
         None \<Rightarrow> ret ()
       | Some other \<Rightarrow>
           check (other = mr_record_id r)
             (IdempotencyConflict ''operation identity already committed by a concurrent write''))"

definition insert_record :: "memory_record option \<Rightarrow> unit store_op" where
  "insert_record record =
     (case record of
        None \<Rightarrow> ret ()
      | Some r \<Rightarrow>
          modify (\<lambda>s. s\<lparr>st_records := dict_set (mr_record_id r) r (st_records s),
                       st_idempotency := dict_set (operation_key r) (mr_record_id r) (st_idempotency s)\<rparr>))"

definition remove_record :: "memory_record option \<Rightarrow> unit store_op" where
  "remove_record record =
     (case record of
        None \<Rightarrow> ret ()
      | Some r \<Rightarrow>
          modify (\<lambda>s. s\<lparr>st_records := dict_pop (mr_record_id r) (st_records s),
                       st_idempotency := dict_pop (operation_key r) (st_idempotency s)\<rparr>))"

fun dict_setdefault_all :: "('v \<Rightarrow> 'k) \<Rightarrow> 'v list \<Rightarrow> ('k, 'v) dict \<Rightarrow> ('k, 'v) dict" where
  "dict_setdefault_all key [] d = d"
| "dict_setdefault_all key (x # xs) d =
     dict_setdefault_all key xs (if dict_has d (key x) then d else dict_set (key x) x d)"

definition index_selectors :: "(json \<Rightarrow> digest) \<Rightarrow> memory_record option \<Rightarrow> unit store_op" where
  "index_selectors hash record =
     (case record of
        None \<Rightarrow> ret ()
      | Some r \<Rightarrow>
          modify (\<lambda>s. s\<lparr>st_source_selectors :=
            dict_setdefault_all ss_selector_id (source_selectors_for_record hash r) (st_source_selectors s)\<rparr>))"

definition commit_write ::
  "(json \<Rightarrow> digest) \<Rightarrow> capability \<Rightarrow> memory_record option \<Rightarrow> write_receipt \<Rightarrow> outbox_event list
     \<Rightarrow> memory_status_event list \<Rightarrow> phase_lock_precondition option \<Rightarrow> unit store_op" where
  "commit_write hash cap record receipt outbox_events status_events expected =
     andThen (require_service_write_capability cap) (\<lambda>_.
     andThen (case expected of None \<Rightarrow> ret () | Some p \<Rightarrow> require_phase_lock_snapshot hash p) (\<lambda>_.
     andThen (case record of None \<Rightarrow> ret () | Some r \<Rightarrow> check_operation_identity r) (\<lambda>_.
     andThen (insert_record record) (\<lambda>_.
     andThen (try_catch (check_transitions status_events)
                (\<lambda>e. if is_store_error e then andThen (remove_record record) (\<lambda>_. throw e)
                     else throw e)) (\<lambda>_.
     andThen (modify (\<lambda>s. s\<lparr>st_receipts := dict_set (wrc_receipt_id receipt) receipt (st_receipts s)\<rparr>)) (\<lambda>_.
     andThen (index_selectors hash record) (\<lambda>_.
     andThen (for_each apply_transition status_events) (\<lambda>_.
       put_outbox_events outbox_events))))))))"

definition find_by_idempotency :: "string \<Rightarrow> string \<Rightarrow> string \<Rightarrow> store \<Rightarrow> memory_record option" where
  "find_by_idempotency tenant ns key s =
     (case dict_get (st_idempotency s) (tenant, ns, key) of
        None \<Rightarrow> None
      | Some rid \<Rightarrow> dict_get (st_records s) rid)"

section \<open>Source selectors and invalidation\<close>

definition find_source_selector_matches ::
  "string \<Rightarrow> string option \<Rightarrow> string \<Rightarrow> string \<Rightarrow> store \<Rightarrow> uuid list" where
  "find_source_selector_matches tenant repository stype svalue s =
     (let wanted = filter (\<lambda>x. ss_active x
              \<and> (case repository of None \<Rightarrow> True | Some repo \<Rightarrow> ss_repository x = repo)
              \<and> ss_selector_type x = stype \<and> ss_selector_value x = svalue
              \<and> (case dict_get (st_records s) (ss_record_id x) of
                   None \<Rightarrow> False
                 | Some r \<Rightarrow> mr_tenant_id r = tenant \<and> mr_state r = ACTIVE))
            (sort_key ss_selector_id (dict_values (st_source_selectors s)))
      in sort_key uuid_str (dedup (map ss_record_id wanted)))"

definition list_source_selectors :: "uuid \<Rightarrow> store \<Rightarrow> source_selector list" where
  "list_source_selectors rid s =
     sort_key ss_selector_id (filter (\<lambda>x. ss_record_id x = rid) (dict_values (st_source_selectors s)))"

definition get_source_invalidation :: "string \<Rightarrow> string \<Rightarrow> store \<Rightarrow> invalidation_event option" where
  "get_source_invalidation tenant eid s = dict_get (st_source_invalidations s) (tenant, eid)"

definition list_revalidation_requirements :: "uuid \<Rightarrow> store \<Rightarrow> revalidation_requirement list" where
  "list_revalidation_requirements rid s =
     sort_key (\<lambda>q. (rq_created_at q, uuid_str (rq_requirement_id q)))
       (filter (\<lambda>q. rq_record_id q = rid) (dict_values (st_revalidation_requirements s)))"

definition deactivate_selectors :: "uuid set \<Rightarrow> instant \<Rightarrow> store \<Rightarrow> store" where
  "deactivate_selectors ids t s =
     s\<lparr>st_source_selectors :=
        map (\<lambda>(k, x). (k, if ss_record_id x \<in> ids \<and> ss_active x
                           then x\<lparr>ss_active := False, ss_deactivated_at := Some t\<rparr> else x))
          (st_source_selectors s)\<rparr>"

definition receipts_targets :: "lifecycle_receipt list \<Rightarrow> uuid set" where
  "receipts_targets rs = set (concat (map (\<lambda>r. map lt_record_id (lr_transitions r)) rs))"

definition commit_source_invalidation ::
  "capability \<Rightarrow> invalidation_event \<Rightarrow> lifecycle_receipt list \<Rightarrow> memory_status_event list
     \<Rightarrow> outbox_event list \<Rightarrow> revalidation_requirement list \<Rightarrow> unit store_op" where
  "commit_source_invalidation cap event receipts status_events outbox_events requirements =
     andThen (require_service_write_capability cap) (\<lambda>_.
     andThen (check (set (map se_record_id status_events) = receipts_targets receipts)
       (StoreError ''invalidation receipts and status events target different records'')) (\<lambda>_.
     andThen (gets (\<lambda>s. dict_has (st_source_invalidations s) (ie_tenant_id event, ie_event_id event))) (\<lambda>known.
     andThen (check (\<not> known) (IdempotencyConflict ''source invalidation already committed'')) (\<lambda>_.
     andThen (check_transitions status_events) (\<lambda>_.
     andThen (modify (\<lambda>s. s\<lparr>st_source_invalidations :=
         dict_set (ie_tenant_id event, ie_event_id event) event (st_source_invalidations s),
       st_lifecycle_receipts := dict_set_all lr_receipt_id receipts (st_lifecycle_receipts s)\<rparr>)) (\<lambda>_.
     andThen (for_each apply_transition status_events) (\<lambda>_.
     andThen (put_outbox_events outbox_events) (\<lambda>_.
       modify (\<lambda>s. deactivate_selectors (receipts_targets receipts) (ie_created_at event)
         (s\<lparr>st_revalidation_requirements :=
            dict_set_all rq_requirement_id requirements (st_revalidation_requirements s)\<rparr>))))))))))"

section \<open>Listing and searching\<close>

definition search_states :: "memory_search_request \<Rightarrow> memory_state list" where
  "search_states q =
     [ACTIVE] @ (if sr_include_superseded q then [SUPERSEDED] else [])
       @ (if sr_include_archived q then [ARCHIVED] else [])"

definition search_matches :: "string \<Rightarrow> memory_search_request \<Rightarrow> string list \<Rightarrow> memory_record \<Rightarrow> bool" where
  "search_matches tenant q namespaces r \<longleftrightarrow>
     mr_tenant_id r = tenant \<and> mr_namespace r \<in> set namespaces \<and>
     mr_state r \<in> set (search_states q) \<and> sr_min_confidence q \<le> cf_score (mr_confidence r) \<and>
     (sr_memory_classes q = [] \<or> mr_memory_class r \<in> set (sr_memory_classes q)) \<and>
     is_valid_at (mr_temporal r) (sr_valid_at q) \<and>
     recorded_at (mr_temporal r) \<le> (case sr_recorded_before q of None \<Rightarrow> sr_valid_at q | Some t \<Rightarrow> t)"

definition by_recency :: "memory_record list \<Rightarrow> memory_record list" where
  "by_recency rs = sort_desc (\<lambda>r. recorded_at (mr_temporal r)) rs"

definition search_records ::
  "string \<Rightarrow> memory_search_request \<Rightarrow> string list \<Rightarrow> store \<Rightarrow> memory_record list" where
  "search_records tenant q namespaces s =
     take (sr_limit q * 10)
       (by_recency (filter (search_matches tenant q namespaces) (dict_values (st_records s))))"

definition list_records ::
  "string \<Rightarrow> string \<Rightarrow> memory_state list \<Rightarrow> nat option \<Rightarrow> store \<Rightarrow> memory_record list" where
  "list_records tenant ns states limit s =
     (let ordered = by_recency (filter (\<lambda>r. mr_tenant_id r = tenant \<and> mr_namespace r = ns
                       \<and> (states = [] \<or> mr_state r \<in> set states)) (dict_values (st_records s)))
      in case limit of None \<Rightarrow> ordered | Some n \<Rightarrow> take n ordered)"

definition list_expired :: "string \<Rightarrow> string \<Rightarrow> instant \<Rightarrow> store \<Rightarrow> memory_record list" where
  "list_expired tenant ns before s =
     sort_key (\<lambda>r. case valid_to (mr_temporal r) of Some t \<Rightarrow> t | None \<Rightarrow> recorded_at (mr_temporal r))
       (filter (\<lambda>r. mr_tenant_id r = tenant \<and> mr_namespace r = ns \<and> mr_state r = ACTIVE
          \<and> (case valid_to (mr_temporal r) of None \<Rightarrow> False | Some t \<Rightarrow> t \<le> before))
         (dict_values (st_records s)))"

section \<open>Receipted lifecycle commits\<close>

definition commit_lifecycle ::
  "capability \<Rightarrow> lifecycle_receipt \<Rightarrow> memory_status_event list \<Rightarrow> outbox_event list \<Rightarrow> unit store_op" where
  "commit_lifecycle cap receipt status_events outbox_events =
     andThen (require_service_write_capability cap) (\<lambda>_.
     andThen (check (set (map se_record_id status_events) = set (map lt_record_id (lr_transitions receipt)))
       (StoreError ''lifecycle receipt and status events target different records'')) (\<lambda>_.
     andThen (check_transitions status_events) (\<lambda>_.
     andThen (modify (\<lambda>s. s\<lparr>st_lifecycle_receipts :=
       dict_set (lr_receipt_id receipt) receipt (st_lifecycle_receipts s)\<rparr>)) (\<lambda>_.
     andThen (for_each apply_transition status_events) (\<lambda>_.
       put_outbox_events outbox_events)))))"

definition commit_archive ::
  "capability \<Rightarrow> archive_receipt \<Rightarrow> memory_status_event list \<Rightarrow> outbox_event list \<Rightarrow> unit store_op" where
  "commit_archive cap receipt status_events outbox_events =
     andThen (require_service_write_capability cap) (\<lambda>_.
     andThen (check (arc_applied receipt) (StoreError ''cannot persist a non-applied archive receipt'')) (\<lambda>_.
     andThen (check (set (map se_record_id status_events) = set (arc_archived_record_ids receipt))
       (StoreError ''archive receipt and status events target different records'')) (\<lambda>_.
     andThen (check_transitions status_events) (\<lambda>_.
     andThen (modify (\<lambda>s. s\<lparr>st_archive_receipts :=
       dict_set (arc_receipt_id receipt) receipt (st_archive_receipts s)\<rparr>)) (\<lambda>_.
     andThen (for_each apply_transition status_events) (\<lambda>_.
       put_outbox_events outbox_events))))))"

definition add_conflict_link :: "uuid \<Rightarrow> uuid \<Rightarrow> unit store_op" where
  "add_conflict_link rid other =
     andThen (gets (get_record rid)) (\<lambda>found.
       case found of
         None \<Rightarrow> throw (KeyError ''record'')
       | Some r \<Rightarrow>
           if other \<in> set (mr_conflicts_with r) then ret ()
           else modify (\<lambda>s. s\<lparr>st_records :=
             dict_set rid (r\<lparr>mr_conflicts_with := mr_conflicts_with r @ [other]\<rparr>) (st_records s)\<rparr>))"

definition require_record :: "uuid \<Rightarrow> unit store_op" where
  "require_record rid =
     andThen (gets (get_record rid))
       (\<lambda>found. check (found \<noteq> None) (StoreError ''conflict link target not found''))"

definition commit_conflict_links :: "capability \<Rightarrow> conflict_link_receipt \<Rightarrow> unit store_op" where
  "commit_conflict_links cap receipt =
     andThen (require_service_write_capability cap) (\<lambda>_.
     andThen (for_each (\<lambda>l. andThen (require_record (ci_left_record_id l))
                               (\<lambda>_. require_record (ci_right_record_id l))) (clk_links receipt)) (\<lambda>_.
     andThen (for_each (\<lambda>l. andThen (add_conflict_link (ci_left_record_id l) (ci_right_record_id l))
                               (\<lambda>_. add_conflict_link (ci_right_record_id l) (ci_left_record_id l)))
                (clk_links receipt)) (\<lambda>_.
       modify (\<lambda>s. s\<lparr>st_conflict_receipts :=
         dict_set (clk_receipt_id receipt) receipt (st_conflict_receipts s)\<rparr>))))"

section \<open>Phase locks\<close>

definition save_phase_lock :: "capability \<Rightarrow> phase_lock_receipt \<Rightarrow> unit store_op" where
  "save_phase_lock cap l =
     andThen (require_service_write_capability cap) (\<lambda>_.
       modify (\<lambda>s. s\<lparr>st_phase_locks :=
         dict_set (pl_tenant_id l, pl_namespace l, pl_task_signature l) l (st_phase_locks s)\<rparr>))"

definition get_phase_lock :: "string \<Rightarrow> string \<Rightarrow> string \<Rightarrow> store \<Rightarrow> phase_lock_receipt option" where
  "get_phase_lock tenant ns task s = dict_get (st_phase_locks s) (tenant, ns, task)"

section \<open>The outbox\<close>

definition is_claimable :: "instant \<Rightarrow> outbox_event \<Rightarrow> bool" where
  "is_claimable now e \<longleftrightarrow>
     (if ob_status e \<in> {X_PENDING, X_RETRY} then ob_next_attempt_at e \<le> now
      else if ob_status e = X_PROCESSING
      then (case ob_lease_expires_at e of None \<Rightarrow> True | Some t \<Rightarrow> t \<le> now)
      else False)"

text \<open>\<open>timedelta(seconds=n)\<close> in microseconds.\<close>

definition seconds :: "nat \<Rightarrow> int" where
  "seconds n = int n * 1000000"

definition lease_event :: "instant \<Rightarrow> nat \<Rightarrow> string \<Rightarrow> uuid \<Rightarrow> outbox_event \<Rightarrow> outbox_event" where
  "lease_event now lease_seconds owner lease e =
     e\<lparr>ob_status := X_PROCESSING, ob_lease_id := Some lease, ob_lease_owner := Some owner,
       ob_lease_expires_at := Some (now + seconds lease_seconds)\<rparr>"

definition claim_batch :: "nat \<Rightarrow> instant \<Rightarrow> store \<Rightarrow> outbox_event list" where
  "claim_batch limit now s =
     take limit (sort_key ob_created_at (filter (is_claimable now) (dict_values (st_outbox s))))"

text \<open>\<open>leases i\<close> is the \<open>uuid4()\<close> drawn for the \<open>i\<close>-th event of the batch.\<close>

definition claim_outbox ::
  "(nat \<Rightarrow> uuid) \<Rightarrow> nat \<Rightarrow> instant \<Rightarrow> nat \<Rightarrow> string \<Rightarrow> outbox_event list store_op" where
  "claim_outbox leases limit now lease_seconds owner s =
     (let claimed = map (\<lambda>(i, e). lease_event now lease_seconds owner (leases i) e)
                      (enumerate 0 (claim_batch limit now s))
      in (Inr claimed, s\<lparr>st_outbox := dict_set_all ob_event_id claimed (st_outbox s)\<rparr>))"

definition settled_event ::
  "outbox_status \<Rightarrow> nat \<Rightarrow> instant \<Rightarrow> string option \<Rightarrow> instant option \<Rightarrow> outbox_event \<Rightarrow> outbox_event" where
  "settled_event status attempts next_attempt_at last_error delivered_at e =
     e\<lparr>ob_status := status, ob_attempts := attempts, ob_next_attempt_at := next_attempt_at,
       ob_last_error := last_error, ob_delivered_at := delivered_at, ob_lease_id := None,
       ob_lease_owner := None, ob_lease_expires_at := None\<rparr>"

definition update_outbox ::
  "uuid \<Rightarrow> outbox_status \<Rightarrow> nat \<Rightarrow> instant \<Rightarrow> string option \<Rightarrow> instant option \<Rightarrow> uuid option \<Rightarrow> unit store_op" where
  "update_outbox eid status attempts next_attempt_at last_error delivered_at lease =
     andThen (gets (\<lambda>s. dict_get (st_outbox s) eid)) (\<lambda>found.
       case found of
         None \<Rightarrow> throw (StoreError ''outbox event not found'')
       | Some e \<Rightarrow>
           andThen (check (lease = None \<or> ob_lease_id e = lease)
             (StoreError ''outbox lease is no longer held; another worker owns this event'')) (\<lambda>_.
           modify (\<lambda>s. s\<lparr>st_outbox :=
             dict_set eid (settled_event status attempts next_attempt_at last_error delivered_at e)
               (st_outbox s)\<rparr>)))"

definition outbox_backlog :: "store \<Rightarrow> nat" where
  "outbox_backlog s =
     length (filter (\<lambda>e. ob_status e \<notin> {X_DELIVERED, X_DEAD}) (dict_values (st_outbox s)))"

section \<open>Projection links\<close>

definition link_key :: "projection_link \<Rightarrow> uuid \<times> string" where
  "link_key l = (pk_record_id l, pk_target_identity l)"

definition save_projection_link :: "projection_link \<Rightarrow> unit store_op" where
  "save_projection_link l =
     modify (\<lambda>s. s\<lparr>st_projection_links := dict_set (link_key l) l (st_projection_links s)\<rparr>)"

definition get_projection_link :: "uuid \<Rightarrow> string \<Rightarrow> store \<Rightarrow> projection_link option" where
  "get_projection_link rid target s = dict_get (st_projection_links s) (rid, target)"

definition save_projection_link_if_active ::
  "projection_link \<Rightarrow> projection_link option \<Rightarrow> bool store_op" where
  "save_projection_link_if_active l expected_previous =
     andThen (gets (get_record (pk_record_id l))) (\<lambda>found.
       if (case found of None \<Rightarrow> True | Some r \<Rightarrow> mr_state r \<noteq> ACTIVE) then ret False
       else
         andThen (gets (\<lambda>s. dict_get (st_projection_links s) (link_key l))) (\<lambda>current.
         andThen (check (current = expected_previous)
           (ProjectionLinkConflict ''projection link changed since it was read'')) (\<lambda>_.
         andThen (save_projection_link l) (\<lambda>_. ret True))))"

definition list_projection_links :: "uuid \<Rightarrow> store \<Rightarrow> projection_link list" where
  "list_projection_links rid s =
     sort_key pk_target_identity (map snd (filter (\<lambda>(k, _). fst k = rid) (st_projection_links s)))"

definition list_projection_target_identities :: "store \<Rightarrow> string list" where
  "list_projection_target_identities s =
     (let linked = map (\<lambda>(k, _). snd k) (st_projection_links s);
          queued = concat (map (\<lambda>e.
             if ob_status e \<in> {X_DELIVERED, X_DEAD} then []
             else (case get_str (ob_payload e) ''target_identity'' of
                     Some t \<Rightarrow> if strip t \<noteq> [] then [strip t] else []
                   | None \<Rightarrow> [])) (dict_values (st_outbox s)))
      in sort (remdups (linked @ queued)))"

definition delete_projection_link :: "uuid \<Rightarrow> string \<Rightarrow> unit store_op" where
  "delete_projection_link rid target =
     modify (\<lambda>s. s\<lparr>st_projection_links := dict_pop (rid, target) (st_projection_links s)\<rparr>)"

definition count_key :: "string \<Rightarrow> (string, nat) dict \<Rightarrow> (string, nat) dict" where
  "count_key k d = dict_set k ((case dict_get d k of None \<Rightarrow> 0 | Some n \<Rightarrow> n) + 1) d"

record store_stats =
  stt_records :: nat
  stt_receipts :: nat
  stt_outbox_backlog :: nat
  stt_by_state :: "(string, nat) dict"
  stt_by_class :: "(string, nat) dict"

definition stats :: "store \<Rightarrow> store_stats" where
  "stats s =
     \<lparr>stt_records = length (st_records s),
      stt_receipts = length (st_receipts s) + length (st_archive_receipts s)
        + length (st_lifecycle_receipts s) + length (st_conflict_receipts s),
      stt_outbox_backlog = outbox_backlog s,
      stt_by_state = fold (\<lambda>r. count_key (state_value (mr_state r))) (dict_values (st_records s)) [],
      stt_by_class = fold (\<lambda>r. count_key (class_value (mr_memory_class r))) (dict_values (st_records s)) []\<rparr>"

definition save_projection_retirement :: "retirement_receipt \<Rightarrow> unit store_op" where
  "save_projection_retirement r =
     modify (\<lambda>s. s\<lparr>st_projection_retirements := st_projection_retirements s @ [r]\<rparr>)"

definition list_unprojected_records :: "string \<Rightarrow> string \<Rightarrow> string \<Rightarrow> nat \<Rightarrow> store \<Rightarrow> memory_record list" where
  "list_unprojected_records tenant ns target limit s =
     take limit (sort_key (\<lambda>r. recorded_at (mr_temporal r))
       (filter (\<lambda>r. mr_tenant_id r = tenant \<and> mr_namespace r = ns \<and> mr_state r = ACTIVE
          \<and> \<not> dict_has (st_projection_links s) (mr_record_id r, target)) (dict_values (st_records s))))"

definition commit_projection_rebuild ::
  "capability \<Rightarrow> rebuild_receipt \<Rightarrow> outbox_event list \<Rightarrow> unit store_op" where
  "commit_projection_rebuild cap receipt outbox_events =
     andThen (require_service_write_capability cap) (\<lambda>_.
     andThen (check (pb_applied receipt) (StoreError ''cannot persist a non-applied rebuild receipt'')) (\<lambda>_.
     andThen (modify (\<lambda>s. s\<lparr>st_projection_rebuilds := st_projection_rebuilds s @ [receipt]\<rparr>)) (\<lambda>_.
       put_outbox_events outbox_events)))"

section \<open>Verified deletion\<close>

definition drop_selectors :: "uuid \<Rightarrow> store \<Rightarrow> store" where
  "drop_selectors rid s =
     s\<lparr>st_source_selectors := filter (\<lambda>(_, x). ss_record_id x \<noteq> rid) (st_source_selectors s)\<rparr>"

definition commit_deletion ::
  "capability \<Rightarrow> deletion_receipt \<Rightarrow> memory_record \<Rightarrow> outbox_event option \<Rightarrow> outbox_event list
     \<Rightarrow> memory_status_event \<Rightarrow> unit store_op" where
  "commit_deletion cap receipt redacted outbox_event outbox_events status_event =
     andThen (require_service_write_capability cap) (\<lambda>_.
     andThen (check (mr_record_id redacted = dr_record_id receipt)
       (StoreError ''deletion receipt and record target differ'')) (\<lambda>_.
     andThen (check (se_record_id status_event = dr_record_id receipt
                \<and> se_new_state status_event = mr_state redacted)
       (StoreError ''deletion status event does not describe the tombstone transition'')) (\<lambda>_.
     andThen (gets (get_record (mr_record_id redacted))) (\<lambda>found.
     andThen (check (found \<noteq> None) (StoreError ''deletion target not found'')) (\<lambda>_.
     andThen (check_transition status_event) (\<lambda>_.
     andThen (modify (\<lambda>s. drop_selectors (mr_record_id redacted)
       (s\<lparr>st_status_events := st_status_events s @ [status_event],
          st_records := dict_set (mr_record_id redacted) redacted (st_records s)\<rparr>))) (\<lambda>_.
     andThen (modify (\<lambda>s. s\<lparr>st_deletion_receipts :=
       dict_set (dr_receipt_id receipt) receipt (st_deletion_receipts s)\<rparr>)) (\<lambda>_.
       put_outbox_events ((case outbox_event of None \<Rightarrow> [] | Some e \<Rightarrow> [e]) @ outbox_events)))))))))"

definition completion_event ::
  "uuid \<Rightarrow> memory_record \<Rightarrow> uuid \<Rightarrow> instant \<Rightarrow> string \<Rightarrow> memory_status_event" where
  "completion_event eid r receipt_id completed_at actor =
     \<lparr>se_event_id = eid, se_record_id = mr_record_id r, se_previous_state = Some (mr_state r),
      se_new_state = DELETED,
      se_reason = ''projection erasure confirmed; verified deletion complete'', se_actor = actor,
      se_occurred_at = completed_at, se_receipt_id = Some receipt_id\<rparr>"

definition complete_deletion ::
  "uuid \<Rightarrow> uuid \<Rightarrow> uuid \<Rightarrow> instant \<Rightarrow> string \<Rightarrow> unit store_op" where
  "complete_deletion eid rid receipt_id completed_at actor =
     andThen (gets (\<lambda>s. (dict_get (st_records s) rid, dict_get (st_deletion_receipts s) receipt_id))) (\<lambda>found.
       case found of
         (Some record, Some receipt) \<Rightarrow>
           andThen (gets (list_projection_links rid)) (\<lambda>remaining.
           andThen (check (remaining = [])
             (StoreError ''deletion cannot complete while projection links remain unerased'')) (\<lambda>_.
           andThen (if mr_state record \<noteq> DELETED
                    then andThen (from_sum (make_status_event
                           ((completion_event eid record receipt_id completed_at actor)\<lparr>se_record_id := rid\<rparr>)))
                           apply_transition
                    else ret ()) (\<lambda>_.
             modify (\<lambda>s. s\<lparr>st_deletion_receipts :=
               dict_set receipt_id (receipt\<lparr>dr_status := D_COMPLETE, dr_completed_at := Some completed_at\<rparr>)
                 (st_deletion_receipts s)\<rparr>))))
       | _ \<Rightarrow> throw (StoreError ''deletion record or receipt not found''))"

section \<open>Legacy releases, cutovers, maintenance runs\<close>

definition check_expected_link :: "projection_link \<Rightarrow> unit store_op" where
  "check_expected_link l =
     andThen (gets (\<lambda>s. dict_get (st_projection_links s) (link_key l)))
       (\<lambda>current. check (current = Some l)
          (StoreError ''projection link changed since the release was planned''))"

definition check_completion :: "uuid \<times> uuid \<Rightarrow> unit store_op" where
  "check_completion c =
     andThen (gets (\<lambda>s. dict_has (st_records s) (fst c) \<and> dict_has (st_deletion_receipts s) (snd c)))
       (\<lambda>known. check known (StoreError ''deletion record or receipt not found''))"

text \<open>
  \<open>release_effects\<close> is the body of the \<open>try\<close> block and \<open>restore_release\<close> the assignment of
  the snapshot in its handler; \<open>eids i\<close> is the identifier of the \<open>i\<close>-th completion's event.
\<close>

definition release_effects ::
  "(nat \<Rightarrow> uuid) \<Rightarrow> legacy_release_receipt \<Rightarrow> projection_link list \<Rightarrow> (uuid \<times> string) list
     \<Rightarrow> (uuid \<times> uuid) list \<Rightarrow> unit store_op" where
  "release_effects eids receipt link_updates link_removals completions =
     andThen (modify (\<lambda>s. s\<lparr>st_legacy_projection_releases := st_legacy_projection_releases s @ [receipt]\<rparr>)) (\<lambda>_.
     andThen (modify (\<lambda>s. s\<lparr>st_projection_links := dict_set_all link_key link_updates (st_projection_links s)\<rparr>)) (\<lambda>_.
     andThen (modify (\<lambda>s. s\<lparr>st_projection_links := fold dict_pop link_removals (st_projection_links s)\<rparr>)) (\<lambda>_.
       for_each (\<lambda>(i, c). complete_deletion (eids i) (fst c) (snd c) (lpr_created_at receipt)
                  (''memory.legacy-release:'' @ lpr_actor receipt)) (enumerate 0 completions))))"

definition restore_release :: "store \<Rightarrow> unit store_op" where
  "restore_release s0 =
     modify (\<lambda>s. s\<lparr>st_records := st_records s0, st_deletion_receipts := st_deletion_receipts s0,
       st_status_events := st_status_events s0, st_projection_links := st_projection_links s0,
       st_legacy_projection_releases := st_legacy_projection_releases s0\<rparr>)"

definition commit_legacy_projection_release ::
  "(nat \<Rightarrow> uuid) \<Rightarrow> capability \<Rightarrow> legacy_release_receipt \<Rightarrow> projection_link list
     \<Rightarrow> (uuid \<times> string) list \<Rightarrow> (uuid \<times> uuid) list \<Rightarrow> projection_link list \<Rightarrow> unit store_op" where
  "commit_legacy_projection_release eids cap receipt link_updates link_removals completions expected_links =
     andThen (require_service_write_capability cap) (\<lambda>_.
     andThen (check (lpr_applied receipt)
       (StoreError ''cannot persist a non-applied legacy projection release'')) (\<lambda>_.
     andThen (for_each check_expected_link expected_links) (\<lambda>_.
     andThen (for_each check_completion completions) (\<lambda>_.
     andThen (gets (\<lambda>s. s)) (\<lambda>snapshot.
       try_catch (release_effects eids receipt link_updates link_removals completions)
         (\<lambda>e. andThen (restore_release snapshot) (\<lambda>_. throw e)))))))"

definition commit_graph_cutover :: "capability \<Rightarrow> cutover_receipt \<Rightarrow> unit store_op" where
  "commit_graph_cutover cap receipt =
     andThen (require_service_write_capability cap) (\<lambda>_.
     andThen (check (gc_applied receipt) (StoreError ''cannot persist a non-applied graph cutover'')) (\<lambda>_.
       modify (\<lambda>s. s\<lparr>st_graph_cutovers := st_graph_cutovers s @ [receipt]\<rparr>)))"

definition list_graph_cutovers :: "string \<Rightarrow> string \<Rightarrow> store \<Rightarrow> cutover_receipt list" where
  "list_graph_cutovers tenant ns s =
     filter (\<lambda>r. gc_tenant_id r = tenant \<and> gc_namespace r = ns) (st_graph_cutovers s)"

definition list_legacy_projection_releases :: "string \<Rightarrow> store \<Rightarrow> legacy_release_receipt list" where
  "list_legacy_projection_releases ns s =
     filter (\<lambda>r. lpr_namespace r = ns) (st_legacy_projection_releases s)"

definition save_maintenance_run :: "maintenance_run \<Rightarrow> unit store_op" where
  "save_maintenance_run r = modify (\<lambda>s. s\<lparr>st_maintenance_runs := st_maintenance_runs s @ [r]\<rparr>)"

definition get_maintenance_watermark :: "string \<Rightarrow> string \<Rightarrow> store \<Rightarrow> instant option" where
  "get_maintenance_watermark tenant ns s =
     (let applied = map mrun_watermark (filter (\<lambda>r. mrun_tenant_id r = tenant
                      \<and> mrun_namespace r = ns \<and> mrun_applied r) (st_maintenance_runs s))
      in case applied of [] \<Rightarrow> None | w # ws \<Rightarrow> Some (fold max ws w))"

definition find_maintenance_action_digests :: "string \<Rightarrow> string \<Rightarrow> store \<Rightarrow> digest list" where
  "find_maintenance_action_digests tenant ns s =
     remdups (map ma_action_digest (concat (map applied_actions
       (filter (\<lambda>r. mrun_tenant_id r = tenant \<and> mrun_namespace r = ns) (st_maintenance_runs s)))))"

end
