(* ===== verification/Samples.thy ===== *)
theory Samples
  imports Receipts
begin

text \<open>
  Concrete values of the data model, on which the properties are exercised: one record, its
  receipts and events, a principal and the stamps of an operation. They model no code.
\<close>

definition smp_hash :: "json \<Rightarrow> digest" where
  "smp_hash j = replicate 64 (CHR ''a'')"

definition smp_temporal :: temporal_coordinates where
  "smp_temporal = \<lparr>valid_from = 0, valid_to = None, recorded_at = 5, source_observed_at = None,
                   superseded_at = None\<rparr>"

definition smp_confidence :: confidence where
  "smp_confidence = \<lparr>cf_score = 1, cf_method = C_EXPLICIT, cf_evidence_count = 1,
                     cf_policy_version = ''v1'', cf_calibrated_at = 0\<rparr>"

definition smp_record :: "uuid \<Rightarrow> memory_state \<Rightarrow> memory_record" where
  "smp_record rid st =
     \<lparr>mr_record_id = rid, mr_schema_version = MEMORY_SCHEMA_VERSION, mr_tenant_id = ''t'',
      mr_namespace = ''ns'', mr_memory_class = SEMANTIC, mr_content = ''fact'', mr_assertion = None,
      mr_temporal = smp_temporal, mr_provenance = provenance_default ''test'' 0, mr_evidence = [],
      mr_confidence = smp_confidence, mr_state = st, mr_tags = [], mr_metadata = [],
      mr_normalized_digest = replicate 64 (CHR ''a''), mr_original_digest = replicate 64 (CHR ''b''),
      mr_idempotency_key = uuid_str rid, mr_supersedes = [], mr_references = [], mr_consent = None,
      mr_conflicts_with = [], mr_created_by = ''t:p'', mr_created_at = 5\<rparr>"

definition smp_event :: "uuid \<Rightarrow> memory_state option \<Rightarrow> memory_state \<Rightarrow> memory_status_event" where
  "smp_event rid prev new =
     \<lparr>se_event_id = 900, se_record_id = rid, se_previous_state = prev, se_new_state = new,
      se_reason = ''r'', se_actor = ''t:p'', se_occurred_at = 7, se_receipt_id = None\<rparr>"

definition smp_authorization :: authorization_receipt where
  "smp_authorization =
     \<lparr>ar_receipt_id = 800, ar_principal_id = ''p'', ar_action = A_WRITE, ar_namespace = ''ns'',
      ar_allowed = True, ar_reasons = [''ok''], ar_policy_version = AUTHORIZATION_POLICY_VERSION,
      ar_evaluated_at = 5\<rparr>"

definition smp_admission :: admission_decision where
  "smp_admission =
     \<lparr>ad_decision_id = 801, ad_status = W_ADMITTED, ad_reasons = [], ad_warnings = [],
      ad_policy_version = ADMISSION_POLICY_VERSION, ad_candidate_digest = replicate 64 (CHR ''a''),
      ad_evaluated_at = 5\<rparr>"

definition smp_write_receipt :: "uuid \<Rightarrow> write_receipt" where
  "smp_write_receipt rid =
     \<lparr>wrc_receipt_id = 700, wrc_status = W_ADMITTED, wrc_record_id = Some rid, wrc_namespace = ''ns'',
      wrc_schema_version = MEMORY_SCHEMA_VERSION, wrc_normalized_digest = replicate 64 (CHR ''a''),
      wrc_original_digest = replicate 64 (CHR ''b''), wrc_idempotency_key = uuid_str rid,
      wrc_idempotency_key_supplied = False, wrc_admission = smp_admission,
      wrc_authorization = smp_authorization, wrc_outbox_event_ids = [], wrc_superseded_record_ids = [],
      wrc_warnings = [], wrc_created_at = 5\<rparr>"

definition smp_outbox :: "uuid \<Rightarrow> outbox_status \<Rightarrow> outbox_event" where
  "smp_outbox eid st =
     \<lparr>ob_event_id = eid, ob_event_type = ''memory.record.project'', ob_aggregate_id = 1,
      ob_namespace = ''ns'', ob_payload = [(''target_identity'', JStr ''tg'')], ob_status = st,
      ob_attempts = 0, ob_next_attempt_at = 5, ob_last_error = None, ob_created_at = 5,
      ob_delivered_at = None, ob_lease_id = None, ob_lease_owner = None, ob_lease_expires_at = None\<rparr>"

definition smp_principal :: memory_principal where
  "smp_principal =
     \<lparr>mp_principal_id = ''p'', mp_tenant_id = ''t'', mp_organization_id = ''o'',
      mp_workspace_id = ''w'', mp_user_id = None, mp_agent_id = None, mp_roles = [],
      mp_read_namespaces = [''ns''], mp_write_namespaces = [''ns''], mp_promote_namespaces = [],
      mp_maintain_namespaces = [], mp_is_admin = False, mp_is_global_admin = False,
      mp_auth_method = ''local''\<rparr>"

definition smp_link :: "uuid \<Rightarrow> string \<Rightarrow> projection_link" where
  "smp_link rid target =
     \<lparr>pk_record_id = rid, pk_namespace = ''ns'', pk_projection_name = ''p'',
      pk_target_identity = target, pk_projection_version = None,
      pk_provider_type = LEGACY_PROVIDER_TYPE, pk_locator = ''loc'', pk_manifest_digest = None,
      pk_render_contract_digest = None, pk_metadata = [], pk_created_at = 5\<rparr>"

definition smp_deletion_receipt :: "uuid \<Rightarrow> uuid \<Rightarrow> deletion_receipt" where
  "smp_deletion_receipt drid rid =
     \<lparr>dr_receipt_id = drid, dr_tombstone_id = 63, dr_record_id = rid, dr_namespace = ''ns'',
      dr_status = D_PENDING_PROJECTION, dr_tombstone_digest = replicate 64 (CHR ''c''),
      dr_authorization = smp_authorization, dr_reason = ''r'', dr_verification_reference = ''v'',
      dr_projection_event_id = None, dr_projection_event_ids = [], dr_projection_targets = [''tg''],
      dr_requested_by = ''t:p'', dr_created_at = 8, dr_completed_at = None\<rparr>"

definition smp_env :: env where
  "smp_env =
     \<lparr>env_uuid = (\<lambda>d. case d of U_record \<Rightarrow> 10 | U_receipt \<Rightarrow> 11 | U_operation \<Rightarrow> 12
        | U_authorization \<Rightarrow> 13 | U_decision \<Rightarrow> 14 | U_tombstone \<Rightarrow> 15
        | U_status n \<Rightarrow> 100 + of_nat n | U_event n \<Rightarrow> 200 + of_nat n
        | U_requirement n \<Rightarrow> 300 + of_nat n | U_batch n \<Rightarrow> 400 + of_nat n),
      env_now = 100, env_wall = 100\<rparr>"

lemmas smp_defs = smp_hash_def smp_temporal_def smp_confidence_def smp_record_def smp_event_def
  smp_authorization_def smp_admission_def smp_write_receipt_def smp_outbox_def smp_principal_def
  smp_link_def smp_env_def

lemma smp_record_sel [simp]:
  "mr_record_id (smp_record rid st) = rid" "mr_state (smp_record rid st) = st"
  "mr_tenant_id (smp_record rid st) = ''t''" "mr_namespace (smp_record rid st) = ''ns''"
  "mr_idempotency_key (smp_record rid st) = uuid_str rid" "mr_content (smp_record rid st) = ''fact''"
  "mr_temporal (smp_record rid st) = smp_temporal" "mr_conflicts_with (smp_record rid st) = []"
  "mr_supersedes (smp_record rid st) = []" "mr_references (smp_record rid st) = []"
  "mr_memory_class (smp_record rid st) = SEMANTIC" "mr_confidence (smp_record rid st) = smp_confidence"
  by (simp_all add: smp_record_def)

lemma smp_event_sel [simp]:
  "se_record_id (smp_event rid prev new) = rid" "se_previous_state (smp_event rid prev new) = prev"
  "se_new_state (smp_event rid prev new) = new" "se_occurred_at (smp_event rid prev new) = 7"
  by (simp_all add: smp_event_def)

lemma smp_outbox_sel [simp]:
  "ob_event_id (smp_outbox eid st) = eid" "ob_status (smp_outbox eid st) = st"
  "ob_next_attempt_at (smp_outbox eid st) = 5" "ob_created_at (smp_outbox eid st) = 5"
  "ob_lease_id (smp_outbox eid st) = None" "ob_lease_expires_at (smp_outbox eid st) = None"
  by (simp_all add: smp_outbox_def)

lemma smp_write_receipt_id [simp]: "wrc_receipt_id (smp_write_receipt rid) = 700"
  by (simp add: smp_write_receipt_def)

lemma smp_deletion_receipt_sel [simp]:
  "dr_receipt_id (smp_deletion_receipt drid rid) = drid"
  "dr_record_id (smp_deletion_receipt drid rid) = rid"
  "dr_status (smp_deletion_receipt drid rid) = D_PENDING_PROJECTION"
  by (simp_all add: smp_deletion_receipt_def)

lemma smp_link_sel [simp]:
  "pk_record_id (smp_link rid tg) = rid" "pk_target_identity (smp_link rid tg) = tg"
  "pk_metadata (smp_link rid tg) = []"
  by (simp_all add: smp_link_def)

lemma smp_temporal_sel [simp]:
  "valid_from smp_temporal = 0" "valid_to smp_temporal = None" "recorded_at smp_temporal = 5"
  by (simp_all add: smp_temporal_def)

text \<open>Small identifiers have distinct texts.\<close>

lemma uuid_str_neq: "u \<noteq> v \<Longrightarrow> uuid_str u \<noteq> uuid_str v"
  using uuid_str_inj by blast

end
