(* ===== verification/StoreLaws.thy ===== *)
theory StoreLaws
  imports Store Samples
begin

text \<open>
  Laws of the record store: what a batch of lifecycle transitions does, that a write commit
  is all or nothing when its transitions name distinct records, the well-formedness of the
  dictionaries and of the operation-identity index through every method, the lease
  discipline of the outbox, and the guards of verified deletion.
\<close>

section \<open>Transitions\<close>

definition transition_ok :: "store \<Rightarrow> memory_status_event \<Rightarrow> bool" where
  "transition_ok s e \<longleftrightarrow>
     (case get_record (se_record_id e) s of
        None \<Rightarrow> False
      | Some r \<Rightarrow> se_previous_state e = None \<or> se_previous_state e = Some (mr_state r))"

lemma check_transition_eq:
  "check_transition e s =
     (if transition_ok s e then Inr (the (get_record (se_record_id e) s))
      else Inl (if get_record (se_record_id e) s = None
                then StoreError ''status transition target not found''
                else StoreError ''status transition expected another state''), s)"
  by (auto simp: check_transition_def transition_ok_def andThen_def gets_def ret_def throw_def
      split: option.splits)

lemma check_transition_Inr [simp]:
  "check_transition e s = (Inr r, t) \<longleftrightarrow> t = s \<and> transition_ok s e \<and> get_record (se_record_id e) s = Some r"
  by (auto simp: check_transition_eq transition_ok_def split: option.splits)

lemma check_transition_Inl:
  "check_transition e s = (Inl x, t) \<Longrightarrow> t = s \<and> \<not> transition_ok s e \<and> is_store_error x"
  by (auto simp: check_transition_eq split: if_splits)

lemma reads_only_check_transition [simp]: "reads_only (check_transition e)"
  by (simp add: reads_only_def check_transition_eq)

lemma reads_only_check_transitions [simp]: "reads_only (check_transitions es)"
  unfolding check_transitions_def by (intro reads_only_for_each reads_only_andThen) simp_all

lemma check_transitions_Inr [simp]:
  "check_transitions es s = (Inr u, t) \<longleftrightarrow> t = s \<and> (\<forall>e \<in> set es. transition_ok s e)"
  unfolding check_transitions_def
  by (induction es) (auto simp: andThen_Inr transition_ok_def split: option.splits)

lemma check_transitions_Inl:
  "check_transitions es s = (Inl x, t) \<Longrightarrow>
     t = s \<and> (\<exists>e \<in> set es. \<not> transition_ok s e) \<and> is_store_error x"
  unfolding check_transitions_def
  by (induction es) (auto simp: andThen_Inl andThen_Inr dest: check_transition_Inl)

lemma check_transitions_fails:
  assumes "e \<in> set es" and "\<not> transition_ok s e"
  shows "\<exists>x. check_transitions es s = (Inl x, s) \<and> is_store_error x"
proof -
  obtain r t where c: "check_transitions es s = (r, t)" by fastforce
  then show ?thesis
    using assms by (cases r) (auto dest: check_transitions_Inl)
qed

text \<open>The state one applied transition leaves.\<close>

definition after_transition :: "memory_status_event \<Rightarrow> memory_record \<Rightarrow> store \<Rightarrow> store" where
  "after_transition e r s =
     s\<lparr>st_records := dict_set (se_record_id e) (transitioned e r) (st_records s),
       st_status_events := st_status_events s @ [e]\<rparr>"

lemma apply_transition_Inr:
  "apply_transition e s = (Inr u, t) \<longleftrightarrow>
     transition_ok s e \<and> (\<exists>r. get_record (se_record_id e) s = Some r \<and> t = after_transition e r s)"
  by (auto simp: apply_transition_def andThen_Inr after_transition_def)

lemma apply_transition_Inl:
  "apply_transition e s = (Inl x, t) \<Longrightarrow> t = s \<and> \<not> transition_ok s e \<and> is_store_error x"
  by (auto simp: apply_transition_def andThen_Inl dest: check_transition_Inl)

lemma apply_transition_ok:
  assumes "transition_ok s e"
  obtains r where "get_record (se_record_id e) s = Some r"
    and "apply_transition e s = (Inr (), after_transition e r s)"
  using assms
  by (auto simp: apply_transition_def andThen_def check_transition_eq modify_def after_transition_def
      transition_ok_def split: option.splits)

lemma get_record_after [simp]:
  "get_record rid (after_transition e r s) =
     (if rid = se_record_id e then Some (transitioned e r) else get_record rid s)"
  by (simp add: get_record_def after_transition_def)

lemma transition_ok_after [simp]:
  "se_record_id e' \<noteq> se_record_id e \<Longrightarrow> transition_ok (after_transition e r s) e' = transition_ok s e'"
  by (simp add: transition_ok_def)

lemma transitioned_sel [simp]:
  "mr_record_id (transitioned e r) = mr_record_id r"
  "mr_state (transitioned e r) = se_new_state e"
  "mr_content (transitioned e r) = mr_content r"
  "mr_tenant_id (transitioned e r) = mr_tenant_id r"
  "mr_namespace (transitioned e r) = mr_namespace r"
  "mr_idempotency_key (transitioned e r) = mr_idempotency_key r"
  by (simp_all add: transitioned_def Let_def)

lemma operation_key_transitioned [simp]: "operation_key (transitioned e r) = operation_key r"
  by (simp add: operation_key_def)

text \<open>
  A batch whose transitions name distinct records and are each permitted applies as a
  whole: exactly the named records move, and the events are appended in order.
\<close>

fun after_transitions :: "memory_status_event list \<Rightarrow> store \<Rightarrow> store" where
  "after_transitions [] s = s"
| "after_transitions (e # es) s =
     (case get_record (se_record_id e) s of
        None \<Rightarrow> s
      | Some r \<Rightarrow> after_transitions es (after_transition e r s))"

lemma apply_transitions_ok:
  "\<forall>e \<in> set es. transition_ok s e \<Longrightarrow> distinct (map se_record_id es) \<Longrightarrow>
     for_each apply_transition es s = (Inr (), after_transitions es s)"
proof (induction es arbitrary: s)
  case Nil
  then show ?case by (simp add: ret_def)
next
  case (Cons e es)
  then obtain r where r: "get_record (se_record_id e) s = Some r"
    and a: "apply_transition e s = (Inr (), after_transition e r s)"
    by (meson apply_transition_ok list.set_intros(1))
  have "\<forall>x \<in> set es. transition_ok (after_transition e r s) x"
    using Cons.prems by (auto simp: image_iff)
  with Cons r a show ?case by (simp add: andThen_def)
qed

lemma after_transitions_frame:
  "after_transitions es s =
     s\<lparr>st_records := st_records (after_transitions es s),
       st_status_events := st_status_events (after_transitions es s)\<rparr>"
proof (induction es arbitrary: s)
  case Nil
  then show ?case by simp
next
  case (Cons e es)
  show ?case
  proof (cases "get_record (se_record_id e) s")
    case None
    then show ?thesis by simp
  next
    case (Some r)
    have "after_transitions es (after_transition e r s) =
        s\<lparr>st_records := st_records (after_transitions es (after_transition e r s)),
          st_status_events := st_status_events (after_transitions es (after_transition e r s))\<rparr>"
      by (subst Cons.IH) (simp add: after_transition_def)
    with Some show ?thesis by simp
  qed
qed

lemma after_transitions_events:
  "\<forall>e \<in> set es. transition_ok s e \<Longrightarrow> distinct (map se_record_id es) \<Longrightarrow>
     st_status_events (after_transitions es s) = st_status_events s @ es"
proof (induction es arbitrary: s)
  case Nil
  then show ?case by simp
next
  case (Cons e es)
  then obtain r where r: "get_record (se_record_id e) s = Some r"
    by (auto simp: transition_ok_def split: option.splits)
  have "\<forall>x \<in> set es. transition_ok (after_transition e r s) x"
    using Cons.prems by (auto simp: image_iff)
  with Cons r show ?case by (simp add: after_transition_def)
qed

lemma get_record_after_transitions:
  "\<forall>e \<in> set es. transition_ok s e \<Longrightarrow> distinct (map se_record_id es) \<Longrightarrow>
     get_record rid (after_transitions es s) =
       (case find (\<lambda>e. se_record_id e = rid) es of
          None \<Rightarrow> get_record rid s
        | Some e \<Rightarrow> map_option (transitioned e) (get_record rid s))"
proof (induction es arbitrary: s)
  case Nil
  then show ?case by simp
next
  case (Cons e es)
  then obtain r where r: "get_record (se_record_id e) s = Some r"
    by (auto simp: transition_ok_def split: option.splits)
  have ok: "\<forall>x \<in> set es. transition_ok (after_transition e r s) x"
    using Cons.prems by (auto simp: image_iff)
  have none: "find (\<lambda>x. se_record_id x = se_record_id e) es = None"
    using Cons.prems by (auto simp: find_None_iff image_iff)
  show ?case
    using Cons.IH [OF ok] Cons.prems r none by (auto split: option.splits)
qed

section \<open>Write commits\<close>

text \<open>A record is new to the store: neither its identifier nor its operation identity is known.\<close>

definition fresh_record :: "memory_record \<Rightarrow> store \<Rightarrow> bool" where
  "fresh_record r s \<longleftrightarrow>
     get_record (mr_record_id r) s = None \<and> dict_get (st_idempotency s) (operation_key r) = None"

definition inserted :: "memory_record option \<Rightarrow> store \<Rightarrow> store" where
  "inserted record s =
     (case record of
        None \<Rightarrow> s
      | Some r \<Rightarrow> s\<lparr>st_records := dict_set (mr_record_id r) r (st_records s),
                    st_idempotency := dict_set (operation_key r) (mr_record_id r) (st_idempotency s)\<rparr>)"

definition removed :: "memory_record option \<Rightarrow> store \<Rightarrow> store" where
  "removed record s =
     (case record of
        None \<Rightarrow> s
      | Some r \<Rightarrow> s\<lparr>st_records := dict_pop (mr_record_id r) (st_records s),
                    st_idempotency := dict_pop (operation_key r) (st_idempotency s)\<rparr>)"

lemma insert_record_eq: "insert_record record s = (Inr (), inserted record s)"
  by (simp add: insert_record_def inserted_def ret_def modify_def split: option.splits)

lemma remove_record_eq: "remove_record record s = (Inr (), removed record s)"
  by (simp add: remove_record_def removed_def ret_def modify_def split: option.splits)

lemma removed_inserted:
  "(\<And>r. record = Some r \<Longrightarrow> fresh_record r s) \<Longrightarrow> removed record (inserted record s) = s"
  by (cases "record") (simp_all add: removed_def inserted_def fresh_record_def get_record_def dict_pop_set_new)

text \<open>The guards a commit passes before it touches anything.\<close>

definition commit_guard ::
  "(json \<Rightarrow> digest) \<Rightarrow> capability \<Rightarrow> memory_record option \<Rightarrow> phase_lock_precondition option \<Rightarrow> unit store_op" where
  "commit_guard hash cap record expected =
     andThen (require_service_write_capability cap) (\<lambda>_.
     andThen (case expected of None \<Rightarrow> ret () | Some p \<Rightarrow> require_phase_lock_snapshot hash p) (\<lambda>_.
       case record of None \<Rightarrow> ret () | Some r \<Rightarrow> check_operation_identity r))"

lemma reads_only_commit_guard: "reads_only (commit_guard hash cap record expected)"
  unfolding commit_guard_def require_service_write_capability_def require_phase_lock_snapshot_def
    check_operation_identity_def
  by (intro reads_only_andThen) (auto split: option.splits intro!: reads_only_andThen)

lemma commit_guard_Inr:
  "commit_guard hash cap record expected s = (Inr u, t) \<longleftrightarrow>
     t = s \<and> cap = SERVICE_WRITE_CAPABILITY \<and>
     (\<forall>p. expected = Some p \<longrightarrow>
        snapshot_digest hash (namespace_active (pp_tenant_id p) (pp_namespace p) s)
          = pp_expected_snapshot_digest p) \<and>
     (\<forall>r rid. record = Some r \<longrightarrow> dict_get (st_idempotency s) (operation_key r) = Some rid \<longrightarrow>
        rid = mr_record_id r)"
  unfolding commit_guard_def require_service_write_capability_def require_phase_lock_snapshot_def
    check_operation_identity_def
  by (auto simp: andThen_Inr split: option.splits)

definition commit_body ::
  "(json \<Rightarrow> digest) \<Rightarrow> memory_record option \<Rightarrow> write_receipt \<Rightarrow> outbox_event list
     \<Rightarrow> memory_status_event list \<Rightarrow> unit store_op" where
  "commit_body hash record receipt outbox_events status_events =
     andThen (modify (\<lambda>s. s\<lparr>st_receipts := dict_set (wrc_receipt_id receipt) receipt (st_receipts s)\<rparr>)) (\<lambda>_.
     andThen (index_selectors hash record) (\<lambda>_.
     andThen (for_each apply_transition status_events) (\<lambda>_.
       put_outbox_events outbox_events)))"

text \<open>A commit either fails its guard, or rolls its insert back, or runs its body.\<close>

lemma commit_write_eq:
  "commit_write hash cap record receipt outbox_events status_events expected s =
     (case commit_guard hash cap record expected s of
        (Inl e, t) \<Rightarrow> (Inl e, t)
      | (Inr _, t) \<Rightarrow>
          (case check_transitions status_events (inserted record t) of
             (Inl e, u) \<Rightarrow> (Inl e, if is_store_error e then removed record u else u)
           | (Inr _, u) \<Rightarrow> commit_body hash record receipt outbox_events status_events u))"
  unfolding commit_write_def commit_guard_def commit_body_def
  by (simp add: andThen_def insert_record_eq remove_record_eq try_catch_def throw_def
      split: prod.splits sum.splits)

lemma commit_write_cases:
  assumes "commit_write hash cap record receipt outbox_events status_events expected s = (r, t)"
  obtains
    (guard) e where "r = Inl e" "t = s" "commit_guard hash cap record expected s = (Inl e, s)"
  | (rollback) e where "r = Inl e" "t = removed record (inserted record s)" "is_store_error e"
      "commit_guard hash cap record expected s = (Inr (), s)"
      "\<exists>x \<in> set status_events. \<not> transition_ok (inserted record s) x"
  | (body) "commit_guard hash cap record expected s = (Inr (), s)"
      "\<forall>x \<in> set status_events. transition_ok (inserted record s) x"
      "commit_body hash record receipt outbox_events status_events (inserted record s) = (r, t)"
proof -
  obtain g s1 where g: "commit_guard hash cap record expected s = (g, s1)" by fastforce
  then have s1: "s1 = s" using reads_only_commit_guard reads_onlyD by metis
  obtain c s2 where c: "check_transitions status_events (inserted record s) = (c, s2)" by fastforce
  show thesis
  proof (cases g)
    case (Inl e)
    with assms g s1 show thesis by (auto simp: commit_write_eq intro: guard)
  next
    case g': (Inr u)
    show thesis
    proof (cases c)
      case (Inl e)
      with c have f: "s2 = inserted record s" "is_store_error e"
          "\<exists>x \<in> set status_events. \<not> transition_ok (inserted record s) x"
        by (auto dest: check_transitions_Inl)
      with assms g g' s1 c Inl show thesis
        by (intro rollback [of e]) (auto simp: commit_write_eq)
    next
      case (Inr v)
      with c have "s2 = inserted record s" "\<forall>x \<in> set status_events. transition_ok (inserted record s) x"
        by auto
      with assms g g' s1 c Inr show thesis
        by (intro body) (auto simp: commit_write_eq)
    qed
  qed
qed

text \<open>What a commit leaves when its body runs over distinct transition targets.\<close>

definition indexed :: "(json \<Rightarrow> digest) \<Rightarrow> memory_record option \<Rightarrow> store \<Rightarrow> store" where
  "indexed hash record s =
     (case record of
        None \<Rightarrow> s
      | Some r \<Rightarrow> s\<lparr>st_source_selectors :=
          dict_setdefault_all ss_selector_id (source_selectors_for_record hash r) (st_source_selectors s)\<rparr>)"

definition committed ::
  "(json \<Rightarrow> digest) \<Rightarrow> memory_record option \<Rightarrow> write_receipt \<Rightarrow> outbox_event list
     \<Rightarrow> memory_status_event list \<Rightarrow> store \<Rightarrow> store" where
  "committed hash record receipt outbox_events status_events s =
     (let u = indexed hash record
                ((inserted record s)\<lparr>st_receipts := dict_set (wrc_receipt_id receipt) receipt (st_receipts s)\<rparr>);
          v = after_transitions status_events u
      in v\<lparr>st_outbox := dict_set_all ob_event_id outbox_events (st_outbox v)\<rparr>)"

lemma index_selectors_eq: "index_selectors hash record s = (Inr (), indexed hash record s)"
  by (simp add: index_selectors_def indexed_def ret_def modify_def split: option.splits)

lemma get_record_indexed: "get_record rid (indexed hash record s) = get_record rid s"
  by (simp add: get_record_def indexed_def split: option.splits)

lemma transition_ok_cong:
  "get_record (se_record_id e) s = get_record (se_record_id e) t \<Longrightarrow> transition_ok s e = transition_ok t e"
  by (simp add: transition_ok_def)

lemma inserted_st_receipts [simp]: "st_receipts (inserted record s) = st_receipts s"
  by (simp add: inserted_def split: option.splits)

lemma commit_body_ok:
  assumes "\<forall>x \<in> set status_events. transition_ok (inserted record s) x"
    and "distinct (map se_record_id status_events)"
  shows "commit_body hash record receipt outbox_events status_events (inserted record s)
           = (Inr (), committed hash record receipt outbox_events status_events s)"
proof -
  let ?u = "indexed hash record
      ((inserted record s)\<lparr>st_receipts := dict_set (wrc_receipt_id receipt) receipt (st_receipts s)\<rparr>)"
  have "get_record rid ?u = get_record rid (inserted record s)" for rid
    by (simp add: get_record_def indexed_def split: option.splits)
  with assms have "\<forall>x \<in> set status_events. transition_ok ?u x"
    using transition_ok_cong by blast
  with assms(2) have "for_each apply_transition status_events ?u = (Inr (), after_transitions status_events ?u)"
    by (simp add: apply_transitions_ok)
  then show ?thesis
    by (simp add: commit_body_def committed_def andThen_def modify_def index_selectors_eq
        put_outbox_events_def Let_def)
qed

section \<open>Properties of a write commit\<close>

text \<open>
  Property C3: a failing \<open>commit_write\<close> changes nothing, whatever guard or transition
  refuses it, when the record is new and its status events name distinct records: no record,
  operation identity, receipt, status event or outbox intent of a failed commit is left.
\<close>

theorem commit_write_atomic:
  assumes "commit_write hash cap record receipt outbox_events status_events expected s = (Inl e, t)"
    and "\<forall>r. record = Some r \<longrightarrow> fresh_record r s"
    and "distinct (map se_record_id status_events)"
  shows "t = s"
  using assms(1)
proof (cases rule: commit_write_cases)
  case (rollback e)
  with assms(2) show ?thesis by (simp add: removed_inserted)
next
  case body
  with assms(3) show ?thesis by (simp add: commit_body_ok)
qed

theorem commit_write_atomic_witness:
  "commit_write smp_hash SERVICE_WRITE_CAPABILITY (Some (smp_record 1 ACTIVE)) (smp_write_receipt 1) []
     [smp_event 1 None ACTIVE, smp_event 2 (Some ACTIVE) SUPERSEDED] None empty_store
     = (Inl (StoreError ''status transition target not found''), empty_store)"
proof -
  let ?s = "commit_write smp_hash SERVICE_WRITE_CAPABILITY (Some (smp_record 1 ACTIVE)) (smp_write_receipt 1) []
     [smp_event 1 None ACTIVE, smp_event 2 (Some ACTIVE) SUPERSEDED] None empty_store"
  have e: "fst ?s = Inl (StoreError ''status transition target not found'')"
    by (simp add: commit_write_eq commit_guard_def require_service_write_capability_def
        check_operation_identity_def andThen_def check_def ret_def throw_def gets_def
        check_transitions_def check_transition_eq transition_ok_def get_record_def inserted_def
        empty_store_def smp_record_def smp_event_def)
  then obtain t where t: "?s = (Inl (StoreError ''status transition target not found''), t)"
    by (metis prod.collapse)
  have "t = empty_store"
    by (rule commit_write_atomic [OF t])
      (simp_all add: fresh_record_def get_record_def empty_store_def smp_event_def)
  with t show ?thesis by simp
qed

text \<open>
  What the body of a commit has made of the store once it has applied a list of transitions
  of distinct records that leave the new record as it is.
\<close>

definition staged ::
  "(json \<Rightarrow> digest) \<Rightarrow> memory_record option \<Rightarrow> write_receipt \<Rightarrow> store \<Rightarrow> store" where
  "staged hash record receipt s =
     indexed hash record
       ((inserted record s)\<lparr>st_receipts := dict_set (wrc_receipt_id receipt) receipt (st_receipts s)\<rparr>)"

lemma get_record_staged:
  "get_record rid (staged hash (Some r) receipt s) = (if rid = mr_record_id r then Some r else get_record rid s)"
  by (simp add: get_record_def staged_def indexed_def inserted_def)

lemma transition_ok_staged:
  "transition_ok (staged hash (Some r) receipt s) e = transition_ok (inserted (Some r) s) e"
  by (rule transition_ok_cong) (simp add: get_record_staged, simp add: get_record_def inserted_def)

lemma staged_applied:
  assumes ok: "\<forall>x \<in> set es. transition_ok (inserted (Some r) s) x"
    and dist: "distinct (map se_record_id es)"
    and kept: "\<forall>e \<in> set es. se_record_id e = mr_record_id r \<longrightarrow>
           se_new_state e = mr_state r \<and> mr_state r \<noteq> SUPERSEDED"
    and t: "t = after_transitions es (staged hash (Some r) receipt s)"
  shows "get_record (mr_record_id r) t = Some r"
    and "find_by_idempotency (mr_tenant_id r) (mr_namespace r) (mr_idempotency_key r) t = Some r"
    and "\<forall>e \<in> set es. se_record_id e \<noteq> mr_record_id r \<longrightarrow>
         get_record (se_record_id e) t = map_option (transitioned e) (get_record (se_record_id e) s)
         \<and> get_record (se_record_id e) s \<noteq> None"
    and "\<forall>rid. rid \<noteq> mr_record_id r \<longrightarrow> rid \<notin> set (map se_record_id es) \<longrightarrow>
         get_record rid t = get_record rid s"
    and "st_status_events t = st_status_events s @ es"
    and "dict_get (st_receipts t) (wrc_receipt_id receipt) = Some receipt"
    and "st_outbox t = st_outbox s"
proof -
  let ?u = "staged hash (Some r) receipt s"
  have ok': "\<forall>x \<in> set es. transition_ok ?u x"
    using ok by (simp add: transition_ok_staged)
  have same: "transitioned e r = r" if "e \<in> set es" "se_record_id e = mr_record_id r" for e
    using that kept by (cases r) (auto simp: transitioned_def Let_def)
  have gt: "get_record rid t =
      (case find (\<lambda>e. se_record_id e = rid) es of
         None \<Rightarrow> get_record rid ?u
       | Some e \<Rightarrow> map_option (transitioned e) (get_record rid ?u))" for rid
    using get_record_after_transitions [OF ok' dist] by (simp add: t)
  have found: "find (\<lambda>x. se_record_id x = se_record_id e) es = Some e" if "e \<in> set es" for e
    using that dist by (induction es) (auto simp: image_iff)
  show self: "get_record (mr_record_id r) t = Some r"
    using same by (auto simp: gt get_record_staged find_Some_iff split: option.splits)
  have "dict_get (st_idempotency t) (operation_key r) = Some (mr_record_id r)"
    unfolding t by (subst after_transitions_frame) (simp add: staged_def indexed_def inserted_def)
  with self show "find_by_idempotency (mr_tenant_id r) (mr_namespace r) (mr_idempotency_key r) t = Some r"
    by (simp add: find_by_idempotency_def operation_key_def get_record_def)
  show "\<forall>e \<in> set es. se_record_id e \<noteq> mr_record_id r \<longrightarrow>
         get_record (se_record_id e) t = map_option (transitioned e) (get_record (se_record_id e) s)
         \<and> get_record (se_record_id e) s \<noteq> None"
    using ok' by (auto simp: gt found get_record_staged transition_ok_def split: option.splits)
  show "\<forall>rid. rid \<noteq> mr_record_id r \<longrightarrow> rid \<notin> set (map se_record_id es) \<longrightarrow>
         get_record rid t = get_record rid s"
    by (auto simp: gt get_record_staged find_Some_iff split: option.splits)
  show "st_status_events t = st_status_events s @ es"
    by (simp add: t after_transitions_events [OF ok' dist]) (simp add: staged_def indexed_def inserted_def)
  show "dict_get (st_receipts t) (wrc_receipt_id receipt) = Some receipt"
    unfolding t by (subst after_transitions_frame) (simp add: staged_def indexed_def inserted_def)
  show "st_outbox t = st_outbox s"
    unfolding t by (subst after_transitions_frame) (simp add: staged_def indexed_def inserted_def)
qed

text \<open>What a successful commit of a new record does.\<close>

lemma commit_write_done:
  assumes "commit_write hash cap (Some r) receipt outbox_events status_events expected s = (Inr u, t)"
    and "fresh_record r s"
    and "distinct (map se_record_id status_events)"
    and "\<forall>e \<in> set status_events. se_record_id e = mr_record_id r \<longrightarrow>
           se_new_state e = mr_state r \<and> mr_state r \<noteq> SUPERSEDED"
  shows "get_record (mr_record_id r) t = Some r
    \<and> find_by_idempotency (mr_tenant_id r) (mr_namespace r) (mr_idempotency_key r) t = Some r
    \<and> (\<forall>e \<in> set status_events. se_record_id e \<noteq> mr_record_id r \<longrightarrow>
         get_record (se_record_id e) t = map_option (transitioned e) (get_record (se_record_id e) s)
         \<and> get_record (se_record_id e) s \<noteq> None)
    \<and> (\<forall>rid. rid \<noteq> mr_record_id r \<longrightarrow> rid \<notin> set (map se_record_id status_events) \<longrightarrow>
         get_record rid t = get_record rid s)
    \<and> st_status_events t = st_status_events s @ status_events
    \<and> dict_get (st_receipts t) (wrc_receipt_id receipt) = Some receipt
    \<and> st_outbox t = dict_set_all ob_event_id outbox_events (st_outbox s)
    \<and> cap = SERVICE_WRITE_CAPABILITY
    \<and> (\<forall>p. expected = Some p \<longrightarrow>
         snapshot_digest hash (namespace_active (pp_tenant_id p) (pp_namespace p) s)
           = pp_expected_snapshot_digest p)"
  using assms(1)
proof (cases rule: commit_write_cases)
  case body
  let ?v = "after_transitions status_events (staged hash (Some r) receipt s)"
  note v = staged_applied [OF body(2) assms(3,4) refl]
  have t: "t = ?v\<lparr>st_outbox := dict_set_all ob_event_id outbox_events (st_outbox ?v)\<rparr>"
    using body(3) commit_body_ok [OF body(2) assms(3)]
    by (simp add: committed_def staged_def Let_def)
  have g: "get_record rid t = get_record rid ?v" for rid
    by (simp add: t get_record_def)
  have f: "find_by_idempotency a b c t = find_by_idempotency a b c ?v" for a b c
    by (simp add: t find_by_idempotency_def split: option.split)
  from body(1) have "cap = SERVICE_WRITE_CAPABILITY \<and> (\<forall>p. expected = Some p \<longrightarrow>
       snapshot_digest hash (namespace_active (pp_tenant_id p) (pp_namespace p) s)
         = pp_expected_snapshot_digest p)"
    by (simp add: commit_guard_Inr)
  moreover have "st_outbox t = dict_set_all ob_event_id outbox_events (st_outbox s)"
      "st_status_events t = st_status_events ?v" "st_receipts t = st_receipts ?v"
    by (simp_all add: t v(7))
  ultimately show ?thesis
    unfolding g f using v(1-6) by simp
qed auto

abbreviation smp_written :: store where
  "smp_written \<equiv>
     committed smp_hash (Some (smp_record 1 ACTIVE)) (smp_write_receipt 1) [smp_outbox 3 X_PENDING]
       [smp_event 1 None ACTIVE] empty_store"

lemma smp_write_ok:
  "commit_write smp_hash SERVICE_WRITE_CAPABILITY (Some (smp_record 1 ACTIVE)) (smp_write_receipt 1)
     [smp_outbox 3 X_PENDING] [smp_event 1 None ACTIVE] None empty_store = (Inr (), smp_written)"
proof -
  let ?r = "smp_record 1 ACTIVE"
  have g: "commit_guard smp_hash SERVICE_WRITE_CAPABILITY (Some ?r) None empty_store = (Inr (), empty_store)"
    by (simp add: commit_guard_Inr empty_store_def)
  have ok: "transition_ok (inserted (Some ?r) empty_store) (smp_event 1 None ACTIVE)"
    by (simp add: transition_ok_def inserted_def get_record_def empty_store_def)
  then have c: "check_transitions [smp_event 1 None ACTIVE] (inserted (Some ?r) empty_store)
      = (Inr (), inserted (Some ?r) empty_store)"
    by simp
  show ?thesis
    using ok by (simp add: commit_write_eq g c commit_body_ok)
qed

text \<open>
  A successful \<open>commit_write\<close> of a new record over distinct transitions
  stores the record under its identifier and its operation identity, moves exactly the named
  records to the named states, appends the status events in order, persists the receipt and
  queues every outbox intent, and it held the capability and the expected snapshot.
\<close>

theorem commit_write_effect:
  assumes "commit_write hash cap (Some r) receipt outbox_events status_events expected s = (Inr u, t)"
    and "fresh_record r s"
    and "distinct (map se_record_id status_events)"
    and "\<forall>e \<in> set status_events. se_record_id e = mr_record_id r \<longrightarrow>
           se_new_state e = mr_state r \<and> mr_state r \<noteq> SUPERSEDED"
  shows "get_record (mr_record_id r) t = Some r
    \<and> find_by_idempotency (mr_tenant_id r) (mr_namespace r) (mr_idempotency_key r) t = Some r
    \<and> (\<forall>e \<in> set status_events. se_record_id e \<noteq> mr_record_id r \<longrightarrow>
         get_record (se_record_id e) t = map_option (transitioned e) (get_record (se_record_id e) s)
         \<and> get_record (se_record_id e) s \<noteq> None)
    \<and> (\<forall>rid. rid \<noteq> mr_record_id r \<longrightarrow> rid \<notin> set (map se_record_id status_events) \<longrightarrow>
         get_record rid t = get_record rid s)
    \<and> st_status_events t = st_status_events s @ status_events
    \<and> dict_get (st_receipts t) (wrc_receipt_id receipt) = Some receipt
    \<and> st_outbox t = dict_set_all ob_event_id outbox_events (st_outbox s)
    \<and> cap = SERVICE_WRITE_CAPABILITY
    \<and> (\<forall>p. expected = Some p \<longrightarrow>
         snapshot_digest hash (namespace_active (pp_tenant_id p) (pp_namespace p) s)
           = pp_expected_snapshot_digest p)"
  using assms by (rule commit_write_done)

theorem commit_write_effect_witness:
  "get_record 1 smp_written = Some (smp_record 1 ACTIVE)
     \<and> st_outbox smp_written = [(3, smp_outbox 3 X_PENDING)]"
proof -
  let ?r = "smp_record 1 ACTIVE"
  have "fresh_record ?r empty_store" by (simp add: fresh_record_def get_record_def empty_store_def)
  from commit_write_effect [OF smp_write_ok this] have
    "get_record (mr_record_id ?r) smp_written = Some ?r \<and>
     st_outbox smp_written = dict_set_all ob_event_id [smp_outbox 3 X_PENDING] (st_outbox empty_store)"
    by simp
  then show ?thesis by (simp add: empty_store_def)
qed

text \<open>The body of a commit stops at the first transition that no longer finds what it expects.\<close>

lemma commit_body_torn:
  assumes "\<forall>x \<in> set (pre @ f # post). transition_ok (inserted (Some r) s) x"
    and "distinct (map se_record_id pre)"
    and "e \<in> set pre" and "se_record_id e = se_record_id f"
    and "se_previous_state f \<noteq> None" and "se_previous_state f \<noteq> Some (se_new_state e)"
  shows "commit_body hash (Some r) receipt outbox_events (pre @ f # post) (inserted (Some r) s)
           = (Inl (StoreError ''status transition expected another state''),
              after_transitions pre (staged hash (Some r) receipt s))"
proof -
  let ?u = "staged hash (Some r) receipt s"
  let ?v = "after_transitions pre ?u"
  have ok: "\<forall>x \<in> set pre. transition_ok ?u x"
    using assms(1) by (simp add: transition_ok_staged)
  have pre: "for_each apply_transition pre ?u = (Inr (), ?v)"
    by (rule apply_transitions_ok [OF ok assms(2)])
  have "find (\<lambda>x. se_record_id x = se_record_id f) pre = Some e"
    using assms(2-4) by (induction pre) (auto simp: image_iff)
  with get_record_after_transitions [OF ok assms(2)]
  have "get_record (se_record_id f) ?v = map_option (transitioned e) (get_record (se_record_id f) ?u)"
    by simp
  moreover have "get_record (se_record_id f) ?u \<noteq> None"
    using ok assms(3,4) by (auto simp: transition_ok_def split: option.splits)
  ultimately obtain x where x: "get_record (se_record_id f) ?v = Some (transitioned e x)"
    by auto
  have "apply_transition f ?v = (Inl (StoreError ''status transition expected another state''), ?v)"
    using assms(5,6)
    by (simp add: apply_transition_def check_transition_def andThen_def gets_def throw_def x)
  with pre show ?thesis
    by (simp add: commit_body_def andThen_def modify_def index_selectors_eq staged_def [symmetric]
        for_each_append)
qed

text \<open>
  Property C36: without distinct transition targets a commit of a new record tears. Let the
  guards pass and every status event pass the check that is made before anything is applied,
  and let one event name a record that an earlier one of the list moved to a state other than
  the one the later event expects, as two supersessions of one record do. Then the commit
  raises a \<open>StoreError\<close> and yet leaves the record, its operation identity and the receipt
  behind, has applied and logged exactly the events before the repeated one, and has queued no
  outbox intent.
\<close>

theorem commit_write_torn:
  assumes "fresh_record r s"
    and "\<forall>p. expected = Some p \<longrightarrow>
           snapshot_digest hash (namespace_active (pp_tenant_id p) (pp_namespace p) s)
             = pp_expected_snapshot_digest p"
    and "\<forall>x \<in> set (pre @ f # post). transition_ok (inserted (Some r) s) x"
    and "distinct (map se_record_id pre)"
    and "\<forall>x \<in> set pre. se_record_id x = mr_record_id r \<longrightarrow>
           se_new_state x = mr_state r \<and> mr_state r \<noteq> SUPERSEDED"
    and "e \<in> set pre" and "se_record_id e = se_record_id f"
    and "se_previous_state f \<noteq> None" and "se_previous_state f \<noteq> Some (se_new_state e)"
  shows "\<exists>t. commit_write hash SERVICE_WRITE_CAPABILITY (Some r) receipt outbox_events
           (pre @ f # post) expected s
         = (Inl (StoreError ''status transition expected another state''), t)
     \<and> get_record (mr_record_id r) t = Some r
     \<and> find_by_idempotency (mr_tenant_id r) (mr_namespace r) (mr_idempotency_key r) t = Some r
     \<and> dict_get (st_receipts t) (wrc_receipt_id receipt) = Some receipt
     \<and> (\<forall>x \<in> set pre. se_record_id x \<noteq> mr_record_id r \<longrightarrow>
          get_record (se_record_id x) t = map_option (transitioned x) (get_record (se_record_id x) s)
          \<and> get_record (se_record_id x) s \<noteq> None)
     \<and> st_status_events t = st_status_events s @ pre
     \<and> st_outbox t = st_outbox s"
proof -
  let ?t = "after_transitions pre (staged hash (Some r) receipt s)"
  have pre: "\<forall>x \<in> set pre. transition_ok (inserted (Some r) s) x"
    using assms(3) by simp
  note v = staged_applied [OF pre assms(4,5) refl]
  have guard: "commit_guard hash SERVICE_WRITE_CAPABILITY (Some r) expected s = (Inr (), s)"
    using assms(1,2) by (simp add: commit_guard_Inr fresh_record_def)
  have check: "check_transitions (pre @ f # post) (inserted (Some r) s) = (Inr (), inserted (Some r) s)"
    using assms(3) by simp
  have "commit_write hash SERVICE_WRITE_CAPABILITY (Some r) receipt outbox_events
      (pre @ f # post) expected s = (Inl (StoreError ''status transition expected another state''), ?t)"
    by (simp add: commit_write_eq guard check commit_body_torn [OF assms(3,4,6-9)])
  with v show ?thesis by blast
qed

theorem commit_write_torn_witness:
  "\<exists>t. commit_write smp_hash SERVICE_WRITE_CAPABILITY (Some (smp_record 1 ACTIVE)) (smp_write_receipt 1)
         [smp_outbox 3 X_PENDING]
         [smp_event 1 None ACTIVE, smp_event 2 (Some ACTIVE) SUPERSEDED, smp_event 2 (Some ACTIVE) SUPERSEDED]
         None (empty_store\<lparr>st_records := [(2, smp_record 2 ACTIVE)],
                           st_idempotency := [(operation_key (smp_record 2 ACTIVE), 2)]\<rparr>)
       = (Inl (StoreError ''status transition expected another state''), t)
     \<and> get_record 1 t = Some (smp_record 1 ACTIVE)
     \<and> map_option mr_state (get_record 2 t) = Some SUPERSEDED
     \<and> st_outbox t = []"
proof -
  let ?s = "empty_store\<lparr>st_records := [(2, smp_record 2 ACTIVE)],
                        st_idempotency := [(operation_key (smp_record 2 ACTIVE), 2)]\<rparr>"
  let ?pre = "[smp_event 1 None ACTIVE, smp_event 2 (Some ACTIVE) SUPERSEDED]"
  let ?f = "smp_event 2 (Some ACTIVE) SUPERSEDED"
  have key: "uuid_str 1 \<noteq> uuid_str 2"
    by (rule uuid_str_neq) simp
  have fresh: "fresh_record (smp_record 1 ACTIVE) ?s"
    using key by (simp add: fresh_record_def get_record_def empty_store_def smp_record_def operation_key_def)
  have ok: "\<forall>x \<in> set (?pre @ ?f # []). transition_ok (inserted (Some (smp_record 1 ACTIVE)) ?s) x"
    by (simp add: transition_ok_def get_record_def inserted_def smp_record_def smp_event_def)
  have two: "get_record 2 ?s = Some (smp_record 2 ACTIVE)"
    by (simp add: get_record_def)
  have sel: "mr_record_id (smp_record 1 ACTIVE) = 1" "se_record_id ?f = 2" "se_record_id (smp_event 1 None ACTIVE) = 1"
      "mr_state (smp_record 1 ACTIVE) = ACTIVE" "se_new_state ?f = SUPERSEDED" "se_new_state (smp_event 1 None ACTIVE) = ACTIVE"
      "se_previous_state ?f = Some ACTIVE" "st_outbox ?s = []"
    by (simp_all add: smp_record_def smp_event_def empty_store_def)
  show ?thesis
    using commit_write_torn [OF fresh _ ok, where expected = None and e = ?f and hash = smp_hash
        and receipt = "smp_write_receipt 1" and outbox_events = "[smp_outbox 3 X_PENDING]", unfolded sel two]
    by (auto simp: sel)
qed

end
