(* ===== verification/StoreInvariant.thy ===== *)
theory StoreInvariant
  imports StoreLaws
begin

text \<open>
  The well-formedness of the record store and its preservation by every method: each
  dictionary files its values under the identifier they carry, the operation-identity index
  names exactly the stored records, and every status event, source selector and deletion
  receipt belongs to a stored record. The methods are then one guarded machine, whose runs
  keep the invariant.
\<close>

section \<open>The invariant\<close>

definition lock_key :: "phase_lock_receipt \<Rightarrow> string \<times> string \<times> string" where
  "lock_key l = (pl_tenant_id l, pl_namespace l, pl_task_signature l)"

definition invalidation_key :: "invalidation_event \<Rightarrow> string \<times> string" where
  "invalidation_key e = (ie_tenant_id e, ie_event_id e)"

definition store_keyed :: "store \<Rightarrow> bool" where
  "store_keyed s \<longleftrightarrow>
     keyed mr_record_id (st_records s) \<and> keyed wrc_receipt_id (st_receipts s) \<and>
     keyed arc_receipt_id (st_archive_receipts s) \<and> keyed dr_receipt_id (st_deletion_receipts s) \<and>
     dict_ok (st_idempotency s) \<and> keyed ob_event_id (st_outbox s) \<and>
     keyed lock_key (st_phase_locks s) \<and> keyed link_key (st_projection_links s) \<and>
     keyed lr_receipt_id (st_lifecycle_receipts s) \<and> keyed clk_receipt_id (st_conflict_receipts s) \<and>
     keyed ss_selector_id (st_source_selectors s) \<and>
     keyed invalidation_key (st_source_invalidations s) \<and>
     keyed rq_requirement_id (st_revalidation_requirements s)"

definition identity_index :: "store \<Rightarrow> bool" where
  "identity_index s \<longleftrightarrow>
     (\<forall>k rid. dict_get (st_idempotency s) k = Some rid \<longleftrightarrow>
        (\<exists>r. get_record rid s = Some r \<and> operation_key r = k))"

definition evidence_ok :: "store \<Rightarrow> bool" where
  "evidence_ok s \<longleftrightarrow>
     (\<forall>e \<in> set (st_status_events s). get_record (se_record_id e) s \<noteq> None) \<and>
     (\<forall>x \<in> set (dict_values (st_source_selectors s)). get_record (ss_record_id x) s \<noteq> None) \<and>
     (\<forall>d \<in> set (dict_values (st_deletion_receipts s)). get_record (dr_record_id d) s \<noteq> None)"

definition store_wf :: "store \<Rightarrow> bool" where
  "store_wf s \<longleftrightarrow> store_keyed s \<and> identity_index s \<and> evidence_ok s"

lemma store_wf_empty [simp]: "store_wf empty_store"
  by (simp add: store_wf_def store_keyed_def identity_index_def evidence_ok_def empty_store_def
      get_record_def)

lemma wf_keyed: "store_wf s \<Longrightarrow> store_keyed s"
  by (simp add: store_wf_def)

lemma get_record_id: "store_wf s \<Longrightarrow> get_record rid s = Some r \<Longrightarrow> mr_record_id r = rid"
  by (auto simp: store_wf_def store_keyed_def get_record_def dest: keyed_get)

text \<open>The index names exactly the stored records, so no two share an operation identity.\<close>

lemma index_unique:
  assumes "store_wf s" "get_record a s = Some r" "get_record b s = Some q"
    and "operation_key r = operation_key q"
  shows "a = b"
  using assms unfolding store_wf_def identity_index_def by (metis option.inject)

lemma find_by_idempotency_iff:
  assumes "store_wf s"
  shows "find_by_idempotency tn ns k s = Some r \<longleftrightarrow>
           get_record (mr_record_id r) s = Some r \<and> operation_key r = (tn, ns, k)"
proof -
  have idx: "dict_get (st_idempotency s) (tn, ns, k) = Some rid \<longleftrightarrow>
      (\<exists>q. get_record rid s = Some q \<and> operation_key q = (tn, ns, k))" for rid
    using assms by (auto simp: store_wf_def identity_index_def)
  show ?thesis
  proof
    assume "find_by_idempotency tn ns k s = Some r"
    then obtain rid where i: "dict_get (st_idempotency s) (tn, ns, k) = Some rid"
      and r: "get_record rid s = Some r"
      by (auto simp: find_by_idempotency_def get_record_def split: option.splits)
    from i idx [of rid] r have "operation_key r = (tn, ns, k)" by auto
    with r get_record_id [OF assms r] show "get_record (mr_record_id r) s = Some r \<and> operation_key r = (tn, ns, k)"
      by auto
  next
    assume "get_record (mr_record_id r) s = Some r \<and> operation_key r = (tn, ns, k)"
    with idx [of "mr_record_id r"] show "find_by_idempotency tn ns k s = Some r"
      by (simp add: find_by_idempotency_def get_record_def)
  qed
qed

section \<open>Preservation\<close>

text \<open>A replaced record of the same identifier and operation identity keeps the invariant.\<close>

definition replaced :: "memory_record \<Rightarrow> store \<Rightarrow> store" where
  "replaced r s = s\<lparr>st_records := dict_set (mr_record_id r) r (st_records s)\<rparr>"

lemma get_record_replaced [simp]:
  "get_record rid (replaced r s) = (if rid = mr_record_id r then Some r else get_record rid s)"
  by (simp add: get_record_def replaced_def)

lemma replaced_sel [simp]:
  "st_idempotency (replaced r s) = st_idempotency s"
  "st_status_events (replaced r s) = st_status_events s"
  "st_source_selectors (replaced r s) = st_source_selectors s"
  "st_deletion_receipts (replaced r s) = st_deletion_receipts s"
  by (simp_all add: replaced_def)

lemma replaced_wf:
  assumes "store_wf s" "get_record (mr_record_id r) s = Some q" "operation_key r = operation_key q"
  shows "store_wf (replaced r s)"
proof -
  have "store_keyed (replaced r s)"
    using assms(1) by (auto simp: store_wf_def store_keyed_def replaced_def intro: keyed_intros)
  moreover have "identity_index (replaced r s)"
    unfolding identity_index_def
  proof (intro allI)
    fix k rid
    have "dict_get (st_idempotency s) k = Some rid \<longleftrightarrow> (\<exists>x. get_record rid s = Some x \<and> operation_key x = k)"
      using assms(1) unfolding store_wf_def identity_index_def by blast
    with assms(2,3) show "dict_get (st_idempotency (replaced r s)) k = Some rid \<longleftrightarrow>
        (\<exists>x. get_record rid (replaced r s) = Some x \<and> operation_key x = k)"
      by auto
  qed
  moreover have "evidence_ok (replaced r s)"
    using assms(1) by (auto simp: store_wf_def evidence_ok_def simp del: set_map)
  ultimately show ?thesis by (simp add: store_wf_def)
qed

text \<open>Fields the three parts of the invariant do not relate to records update freely.\<close>

lemma wf_receipts: "store_wf s \<Longrightarrow> keyed wrc_receipt_id d \<Longrightarrow> store_wf (s\<lparr>st_receipts := d\<rparr>)"
  by (simp add: store_wf_def store_keyed_def identity_index_def evidence_ok_def get_record_def)

lemma wf_archive_receipts: "store_wf s \<Longrightarrow> keyed arc_receipt_id d \<Longrightarrow> store_wf (s\<lparr>st_archive_receipts := d\<rparr>)"
  by (simp add: store_wf_def store_keyed_def identity_index_def evidence_ok_def get_record_def)

lemma wf_outbox: "store_wf s \<Longrightarrow> keyed ob_event_id d \<Longrightarrow> store_wf (s\<lparr>st_outbox := d\<rparr>)"
  by (simp add: store_wf_def store_keyed_def identity_index_def evidence_ok_def get_record_def)

lemma wf_locks: "store_wf s \<Longrightarrow> keyed lock_key d \<Longrightarrow> store_wf (s\<lparr>st_phase_locks := d\<rparr>)"
  by (simp add: store_wf_def store_keyed_def identity_index_def evidence_ok_def get_record_def)

lemma wf_links: "store_wf s \<Longrightarrow> keyed link_key d \<Longrightarrow> store_wf (s\<lparr>st_projection_links := d\<rparr>)"
  by (simp add: store_wf_def store_keyed_def identity_index_def evidence_ok_def get_record_def)

lemma wf_lifecycle: "store_wf s \<Longrightarrow> keyed lr_receipt_id d \<Longrightarrow> store_wf (s\<lparr>st_lifecycle_receipts := d\<rparr>)"
  by (simp add: store_wf_def store_keyed_def identity_index_def evidence_ok_def get_record_def)

lemma wf_conflict: "store_wf s \<Longrightarrow> keyed clk_receipt_id d \<Longrightarrow> store_wf (s\<lparr>st_conflict_receipts := d\<rparr>)"
  by (simp add: store_wf_def store_keyed_def identity_index_def evidence_ok_def get_record_def)

lemma wf_invalidations:
  "store_wf s \<Longrightarrow> keyed invalidation_key d \<Longrightarrow> store_wf (s\<lparr>st_source_invalidations := d\<rparr>)"
  by (simp add: store_wf_def store_keyed_def identity_index_def evidence_ok_def get_record_def)

lemma wf_requirements:
  "store_wf s \<Longrightarrow> keyed rq_requirement_id d \<Longrightarrow> store_wf (s\<lparr>st_revalidation_requirements := d\<rparr>)"
  by (simp add: store_wf_def store_keyed_def identity_index_def evidence_ok_def get_record_def)

lemma wf_ledgers:
  "store_wf s \<Longrightarrow> store_wf (s\<lparr>st_maintenance_runs := a\<rparr>)"
  "store_wf s \<Longrightarrow> store_wf (s\<lparr>st_projection_retirements := b\<rparr>)"
  "store_wf s \<Longrightarrow> store_wf (s\<lparr>st_projection_rebuilds := c\<rparr>)"
  "store_wf s \<Longrightarrow> store_wf (s\<lparr>st_legacy_projection_releases := d\<rparr>)"
  "store_wf s \<Longrightarrow> store_wf (s\<lparr>st_graph_cutovers := e\<rparr>)"
  "store_wf s \<Longrightarrow> store_wf (s\<lparr>st_initialized := f\<rparr>)"
  by (simp_all add: store_wf_def store_keyed_def identity_index_def evidence_ok_def get_record_def)

lemma wf_selectors:
  assumes "store_wf s" "keyed ss_selector_id d"
    and "\<And>x. x \<in> set (dict_values d) \<Longrightarrow> get_record (ss_record_id x) s \<noteq> None"
  shows "store_wf (s\<lparr>st_source_selectors := d\<rparr>)"
  using assms by (simp add: store_wf_def store_keyed_def identity_index_def evidence_ok_def get_record_def)

lemma wf_deletion_receipts:
  assumes "store_wf s" "get_record (dr_record_id d) s \<noteq> None"
  shows "store_wf (s\<lparr>st_deletion_receipts := dict_set (dr_receipt_id d) d (st_deletion_receipts s)\<rparr>)"
proof -
  let ?ds = "dict_set (dr_receipt_id d) d (st_deletion_receipts s)"
  have k: "keyed dr_receipt_id (st_deletion_receipts s)" "keyed dr_receipt_id ?ds"
    using assms(1) by (auto simp: store_wf_def store_keyed_def intro: keyed_intros)
  have mem: "v = d \<or> v \<in> set (dict_values (st_deletion_receipts s))" if v: "v \<in> set (dict_values ?ds)" for v
  proof -
    from v have "dict_get ?ds (dr_receipt_id v) = Some v"
      unfolding keyed_values [OF k(2)] .
    then have "v = d \<or> dict_get (st_deletion_receipts s) (dr_receipt_id v) = Some v"
      by (simp split: if_splits)
    then show ?thesis
      using dict_get_mem_values by metis
  qed
  have "get_record (dr_record_id v) s \<noteq> None" if "v \<in> set (dict_values ?ds)" for v
    using mem [OF that] assms unfolding store_wf_def evidence_ok_def by blast
  with assms(1) k show ?thesis
    by (simp add: store_wf_def store_keyed_def identity_index_def evidence_ok_def get_record_def del: set_map)
qed

lemma wf_status_event:
  assumes "store_wf s" "get_record (se_record_id e) s \<noteq> None"
  shows "store_wf (s\<lparr>st_status_events := st_status_events s @ [e]\<rparr>)"
  using assms by (auto simp: store_wf_def store_keyed_def identity_index_def evidence_ok_def get_record_def)

lemmas wf_updates = wf_receipts wf_archive_receipts wf_outbox wf_locks wf_links wf_lifecycle
  wf_conflict wf_invalidations wf_requirements wf_ledgers

lemma wf_keys:
  assumes "store_wf s"
  shows "keyed wrc_receipt_id (st_receipts s)" "keyed arc_receipt_id (st_archive_receipts s)"
    "keyed dr_receipt_id (st_deletion_receipts s)" "keyed ob_event_id (st_outbox s)"
    "keyed lock_key (st_phase_locks s)" "keyed link_key (st_projection_links s)"
    "keyed lr_receipt_id (st_lifecycle_receipts s)" "keyed clk_receipt_id (st_conflict_receipts s)"
    "keyed ss_selector_id (st_source_selectors s)"
    "keyed invalidation_key (st_source_invalidations s)"
    "keyed rq_requirement_id (st_revalidation_requirements s)" "keyed mr_record_id (st_records s)"
  using assms by (simp_all add: store_wf_def store_keyed_def)

section \<open>Every method\<close>

lemma after_transition_replaced:
  "mr_record_id r = se_record_id e \<Longrightarrow>
     after_transition e r s =
       (replaced (transitioned e r) s)\<lparr>st_status_events := st_status_events (replaced (transitioned e r) s) @ [e]\<rparr>"
  by (simp add: after_transition_def replaced_def)

lemma keeps_apply_transition [keeps_intros]: "keeps store_wf (apply_transition e)"
proof (rule keepsI)
  fix s
  assume wf: "store_wf s"
  show "store_wf (snd (apply_transition e s))"
  proof (cases "transition_ok s e")
    case True
    then obtain r where r: "get_record (se_record_id e) s = Some r"
      and a: "apply_transition e s = (Inr (), after_transition e r s)"
      by (rule apply_transition_ok)
    have id: "mr_record_id r = se_record_id e"
      using get_record_id [OF wf r] .
    have "store_wf (replaced (transitioned e r) s)"
      by (rule replaced_wf [OF wf, where q = r]) (simp_all add: id r)
    then have "store_wf ((replaced (transitioned e r) s)\<lparr>st_status_events :=
        st_status_events (replaced (transitioned e r) s) @ [e]\<rparr>)"
      by (rule wf_status_event) (simp add: id)
    then show ?thesis
      by (simp only: a snd_conv after_transition_replaced [OF id])
  next
    case False
    then show ?thesis
      using wf by (simp add: apply_transition_def andThen_def check_transition_eq)
  qed
qed

lemma keeps_check_transitions [keeps_intros]: "keeps P (check_transitions es)"
  by (simp add: reads_only_keeps)

lemma keeps_require_capability [keeps_intros]: "keeps P (require_service_write_capability cap)"
  by (simp add: require_service_write_capability_def)

lemma keeps_put_outbox_events [keeps_intros]: "keeps store_wf (put_outbox_events es)"
  unfolding put_outbox_events_def
  by (auto intro!: keeps_modify wf_updates intro: keyed_intros wf_keys)

lemma keeps_initialize: "keeps store_wf initialize_store"
  unfolding initialize_store_def by (auto intro!: keeps_modify wf_updates)

lemma keeps_close: "keeps store_wf close_store"
  unfolding close_store_def by (auto intro!: keeps_modify wf_updates)

lemma keeps_transition_state: "keeps store_wf (transition_state cap e)"
  unfolding transition_state_def by (intro keeps_intros)

lemma keeps_commit_lifecycle: "keeps store_wf (commit_lifecycle cap rc es os)"
  unfolding commit_lifecycle_def
  by (intro keeps_intros wf_lifecycle keyed_intros) (auto intro: wf_keys)

lemma keeps_commit_archive: "keeps store_wf (commit_archive cap rc es os)"
  unfolding commit_archive_def
  by (intro keeps_intros wf_archive_receipts keyed_intros) (auto intro: wf_keys)

lemma keeps_add_conflict_link [keeps_intros]: "keeps store_wf (add_conflict_link a b)"
proof (rule keepsI)
  fix s
  assume wf: "store_wf s"
  show "store_wf (snd (add_conflict_link a b s))"
  proof (cases "get_record a s")
    case None
    with wf show ?thesis by (simp add: add_conflict_link_def andThen_def gets_def throw_def)
  next
    case (Some r)
    let ?r = "r\<lparr>mr_conflicts_with := mr_conflicts_with r @ [b]\<rparr>"
    have id: "mr_record_id r = a" using get_record_id [OF wf Some] .
    have "store_wf (replaced ?r s)"
      by (rule replaced_wf [OF wf, where q = r]) (simp_all add: id Some operation_key_def)
    with wf Some id show ?thesis
      by (simp add: add_conflict_link_def andThen_def gets_def ret_def modify_def replaced_def)
  qed
qed

lemma keeps_require_record [keeps_intros]: "keeps P (require_record rid)"
  unfolding require_record_def by (intro keeps_intros)

lemma keeps_commit_conflict_links: "keeps store_wf (commit_conflict_links cap rc)"
  unfolding commit_conflict_links_def
  by (intro keeps_intros wf_conflict keyed_intros) (auto intro: wf_keys)

lemma keeps_save_phase_lock: "keeps store_wf (save_phase_lock cap l)"
  unfolding save_phase_lock_def
  by (intro keeps_intros wf_locks keyed_intros) (auto intro: wf_keys simp: lock_key_def)

lemma keeps_claim_outbox: "keeps store_wf (claim_outbox leases limit now secs owner)"
  by (rule keepsI) (auto simp: claim_outbox_def Let_def intro!: wf_outbox intro: keyed_intros wf_keys)

lemma keeps_update_outbox [keeps_intros]: "keeps store_wf (update_outbox eid st att nxt err del lease)"
proof (rule keepsI)
  fix s
  assume wf: "store_wf s"
  have "ob_event_id e = eid" if "dict_get (st_outbox s) eid = Some e" for e
    using wf_keys(4) [OF wf] that by (rule keyed_get)
  then have "keyed ob_event_id (dict_set eid (settled_event st att nxt err del e) (st_outbox s))"
    if "dict_get (st_outbox s) eid = Some e" for e
    using that wf_keys(4) [OF wf] by (intro keyed_set) (auto simp: settled_event_def)
  with wf show "store_wf (snd (update_outbox eid st att nxt err del lease s))"
    by (auto simp: update_outbox_def andThen_def gets_def check_def ret_def throw_def modify_def
        split: option.splits intro: wf_outbox)
qed

lemma keeps_save_projection_link [keeps_intros]: "keeps store_wf (save_projection_link l)"
  unfolding save_projection_link_def
  by (intro keeps_intros wf_links keyed_intros) (auto intro: wf_keys)

lemma keeps_save_projection_link_if_active [keeps_intros]:
  "keeps store_wf (save_projection_link_if_active l prev)"
  unfolding save_projection_link_if_active_def by (intro keeps_intros)

lemma keeps_delete_projection_link [keeps_intros]: "keeps store_wf (delete_projection_link rid tg)"
  unfolding delete_projection_link_def
  by (intro keeps_intros wf_links keyed_intros) (auto intro: wf_keys)

lemma keeps_save_projection_retirement [keeps_intros]: "keeps store_wf (save_projection_retirement r)"
  unfolding save_projection_retirement_def by (intro keeps_intros wf_updates)

lemma keeps_commit_projection_rebuild: "keeps store_wf (commit_projection_rebuild cap rc os)"
  unfolding commit_projection_rebuild_def by (intro keeps_intros wf_ledgers(3))

lemma keeps_commit_graph_cutover: "keeps store_wf (commit_graph_cutover cap rc)"
  unfolding commit_graph_cutover_def by (intro keeps_intros wf_ledgers(5))

lemma keeps_save_maintenance_run: "keeps store_wf (save_maintenance_run r)"
  unfolding save_maintenance_run_def by (intro keeps_intros wf_ledgers(1))

lemma keyed_deactivated:
  assumes "store_wf s"
  shows "store_wf (deactivate_selectors ids t s)"
proof -
  let ?f = "\<lambda>x. if ss_record_id x \<in> ids \<and> ss_active x
                 then x\<lparr>ss_active := False, ss_deactivated_at := Some t\<rparr> else x"
  have "keyed ss_selector_id (map (\<lambda>(k, x). (k, ?f x)) (st_source_selectors s))"
    using wf_keys(9) [OF assms] by (rule keyed_map_values) simp
  moreover have "get_record (ss_record_id x) s \<noteq> None"
    if "x \<in> set (dict_values (map (\<lambda>(k, x). (k, ?f x)) (st_source_selectors s)))" for x
    using that assms by (fastforce simp: store_wf_def evidence_ok_def split: if_splits)
  ultimately show ?thesis
    unfolding deactivate_selectors_def by (intro wf_selectors [OF assms])
qed

lemma wf_invalidation_ledgers:
  assumes "store_wf s"
  shows "store_wf (s\<lparr>st_source_invalidations := dict_set (ie_tenant_id ev, ie_event_id ev) ev (st_source_invalidations s),
           st_lifecycle_receipts := dict_set_all lr_receipt_id rcs (st_lifecycle_receipts s)\<rparr>)"
proof -
  have "keyed invalidation_key (dict_set (ie_tenant_id ev, ie_event_id ev) ev (st_source_invalidations s))"
    using wf_keys(10) [OF assms] by (rule keyed_set) (simp add: invalidation_key_def)
  then have "store_wf (s\<lparr>st_source_invalidations := dict_set (ie_tenant_id ev, ie_event_id ev) ev (st_source_invalidations s)\<rparr>)"
    using assms by (intro wf_invalidations)
  then show ?thesis
    by (intro wf_lifecycle keyed_set_all wf_keys assms)
qed

lemma keeps_commit_source_invalidation: "keeps store_wf (commit_source_invalidation cap ev rcs es os rqs)"
  unfolding commit_source_invalidation_def
  by (intro keeps_intros keyed_deactivated wf_requirements keyed_intros wf_invalidation_ledgers)
    (simp_all add: wf_keys)

text \<open>Deletion keeps the operation identity of the record it redacts.\<close>

definition redaction_ok :: "memory_record \<Rightarrow> store \<Rightarrow> bool" where
  "redaction_ok redacted s \<longleftrightarrow>
     (\<forall>r. get_record (mr_record_id redacted) s = Some r \<longrightarrow> operation_key redacted = operation_key r)"

lemma drop_selectors_wf:
  assumes "store_wf s"
  shows "store_wf (drop_selectors rid s)"
  unfolding drop_selectors_def
  using assms by (intro wf_selectors keyed_filter wf_keys) (auto simp: store_wf_def evidence_ok_def)

lemma commit_deletion_wf:
  assumes wf: "store_wf s" and red: "redaction_ok redacted s"
  shows "store_wf (snd (commit_deletion cap receipt redacted oe oes ev s))"
proof -
  have one: "store_wf (snd (put_outbox_events es u))" if "store_wf u" for es u
    using keeps_put_outbox_events that by (auto simp: keeps_def)
  let ?put = "put_outbox_events ((case oe of None \<Rightarrow> [] | Some e \<Rightarrow> [e]) @ oes)"
  let ?u = "drop_selectors (mr_record_id redacted)
       (s\<lparr>st_status_events := st_status_events s @ [ev],
          st_records := dict_set (mr_record_id redacted) redacted (st_records s)\<rparr>)"
  let ?v = "?u\<lparr>st_deletion_receipts := dict_set (dr_receipt_id receipt) receipt (st_deletion_receipts ?u)\<rparr>"
  show ?thesis
  proof (cases "cap = SERVICE_WRITE_CAPABILITY \<and> mr_record_id redacted = dr_record_id receipt
      \<and> se_record_id ev = dr_record_id receipt \<and> se_new_state ev = mr_state redacted
      \<and> transition_ok s ev")
    case False
    with wf show ?thesis
      by (auto simp: commit_deletion_def andThen_def require_service_write_capability_def check_def
          ret_def throw_def gets_def check_transition_eq split: if_splits)
  next
    case True
    then obtain r where r: "get_record (mr_record_id redacted) s = Some r"
      by (auto simp: transition_ok_def split: option.splits)
    have w1: "store_wf (replaced redacted s)"
      using red r by (intro replaced_wf [OF wf r]) (simp add: redaction_ok_def)
    then have "store_wf ((replaced redacted s)\<lparr>st_status_events := st_status_events (replaced redacted s) @ [ev]\<rparr>)"
      using True by (intro wf_status_event) simp_all
    then have w2: "store_wf ?u"
      by (intro drop_selectors_wf) (cases s, simp add: replaced_def)
    then have "store_wf ?v"
      using True by (intro wf_deletion_receipts) (simp_all add: drop_selectors_def get_record_def)
    then have "store_wf (snd (?put ?v))" by (rule one)
    with True r show ?thesis
      by (simp add: commit_deletion_def andThen_def require_service_write_capability_def check_def
          ret_def gets_def check_transition_eq modify_def)
  qed
qed

text \<open>A completed deletion: the record is tombstoned as deleted, the receipt is complete.\<close>

definition completing :: "uuid \<Rightarrow> uuid \<Rightarrow> memory_record \<Rightarrow> uuid \<Rightarrow> instant \<Rightarrow> string \<Rightarrow> memory_status_event" where
  "completing eid rid record rcid t actor = (completion_event eid record rcid t actor)\<lparr>se_record_id := rid\<rparr>"

definition completed ::
  "uuid \<Rightarrow> uuid \<Rightarrow> memory_record \<Rightarrow> deletion_receipt \<Rightarrow> uuid \<Rightarrow> instant \<Rightarrow> string \<Rightarrow> store \<Rightarrow> store" where
  "completed eid rid record d rcid t actor s =
     (let u = (if mr_state record \<noteq> DELETED
               then after_transition (completing eid rid record rcid t actor) record s else s)
      in u\<lparr>st_deletion_receipts :=
            dict_set rcid (d\<lparr>dr_status := D_COMPLETE, dr_completed_at := Some t\<rparr>) (st_deletion_receipts u)\<rparr>)"

lemma completing_sel [simp]:
  "se_record_id (completing eid rid record rcid t actor) = rid"
  "se_previous_state (completing eid rid record rcid t actor) = Some (mr_state record)"
  "se_new_state (completing eid rid record rcid t actor) = DELETED"
  "se_actor (completing eid rid record rcid t actor) = actor"
  "se_reason (completing eid rid record rcid t actor) = ''projection erasure confirmed; verified deletion complete''"
  by (simp_all add: completing_def completion_event_def)

lemma complete_deletion_eq:
  "complete_deletion eid rid rcid t actor s =
     (case (get_record rid s, dict_get (st_deletion_receipts s) rcid) of
        (Some record, Some d) \<Rightarrow>
          if list_projection_links rid s \<noteq> [] then
            (Inl (StoreError ''deletion cannot complete while projection links remain unerased''), s)
          else if mr_state record \<noteq> DELETED \<and> \<not> len_ok 1 300 actor then
            (Inl (ValueError ''validation error for MemoryStatusEvent''), s)
          else (Inr (), completed eid rid record d rcid t actor s)
      | _ \<Rightarrow> (Inl (StoreError ''deletion record or receipt not found''), s))"
proof (cases "get_record rid s")
  case None
  then show ?thesis
    by (simp add: complete_deletion_def andThen_def gets_def throw_def get_record_def)
next
  case rr: (Some r)
  show ?thesis
  proof (cases "dict_get (st_deletion_receipts s) rcid")
    case None
    with rr show ?thesis
      by (simp add: complete_deletion_def andThen_def gets_def throw_def get_record_def)
  next
    case (Some d)
    let ?e = "completing eid rid r rcid t actor"
    have a: "apply_transition ?e s = (Inr (), after_transition ?e r s)"
      using rr by (simp add: apply_transition_def andThen_def check_transition_eq transition_ok_def
          modify_def after_transition_def)
    have m: "make_status_event ?e = (if len_ok 1 300 actor then Inr ?e
        else Inl (ValueError ''validation error for MemoryStatusEvent''))"
      by (simp add: make_status_event_def len_ok_def)
    from rr Some show ?thesis
      unfolding complete_deletion_def completing_def [symmetric]
      by (simp add: andThen_def gets_def check_def ret_def throw_def from_sum_def modify_def m a
          get_record_def completed_def Let_def)
  qed
qed

lemma completed_wf:
  assumes wf: "store_wf s" and r: "get_record rid s = Some record"
    and d: "dict_get (st_deletion_receipts s) rcid = Some d"
  shows "store_wf (completed eid rid record d rcid t actor s)"
proof -
  have id: "mr_record_id record = rid" using get_record_id [OF wf r] .
  have dd: "dr_receipt_id d = rcid" using wf_keys(3) [OF wf] d by (rule keyed_get)
  have owner: "get_record (dr_record_id d) s \<noteq> None"
    using wf dict_get_mem_values [OF d] unfolding store_wf_def evidence_ok_def by blast
  let ?e = "completing eid rid record rcid t actor"
  let ?d = "d\<lparr>dr_status := D_COMPLETE, dr_completed_at := Some t\<rparr>"
  have fin: "store_wf (u\<lparr>st_deletion_receipts := dict_set rcid ?d (st_deletion_receipts u)\<rparr>)"
    if "store_wf u" "get_record (dr_record_id d) u \<noteq> None" for u
    using wf_deletion_receipts [OF that(1), of ?d] that(2) dd by simp
  have "apply_transition ?e s = (Inr (), after_transition ?e record s)"
    using r by (simp add: apply_transition_def andThen_def check_transition_eq transition_ok_def
        modify_def after_transition_def)
  then have "store_wf (after_transition ?e record s)"
    using keepsD [OF keeps_apply_transition] wf by blast
  with fin [OF wf owner] fin [of "after_transition ?e record s"] owner show ?thesis
    by (simp add: completed_def Let_def)
qed

lemma keeps_complete_deletion [keeps_intros]: "keeps store_wf (complete_deletion eid rid rcid t actor)"
  by (rule keepsI) (auto simp: complete_deletion_eq completed_wf split: option.splits)

subsection \<open>Writes\<close>

lemma inserted_wf:
  assumes wf: "store_wf s" and fresh: "fresh_record r s"
  shows "store_wf (inserted (Some r) s)"
proof -
  let ?t = "inserted (Some r) s"
  have g: "get_record rid ?t = (if rid = mr_record_id r then Some r else get_record rid s)" for rid
    by (simp add: inserted_def get_record_def)
  have "store_keyed ?t"
    using wf by (auto simp: store_wf_def store_keyed_def inserted_def intro: keyed_intros)
  moreover have "identity_index ?t"
    unfolding identity_index_def
  proof (intro allI)
    fix k rid
    have "dict_get (st_idempotency s) k = Some rid \<longleftrightarrow> (\<exists>x. get_record rid s = Some x \<and> operation_key x = k)"
      using wf unfolding store_wf_def identity_index_def by blast
    moreover have "dict_get (st_idempotency s) (operation_key r) = None" "get_record (mr_record_id r) s = None"
      using fresh by (simp_all add: fresh_record_def)
    ultimately show "dict_get (st_idempotency ?t) k = Some rid \<longleftrightarrow>
        (\<exists>x. get_record rid ?t = Some x \<and> operation_key x = k)"
      by (auto simp: g) (auto simp: inserted_def split: if_splits)
  qed
  moreover have "evidence_ok ?t"
    using wf unfolding store_wf_def evidence_ok_def g by (auto simp: inserted_def)
  ultimately show ?thesis by (simp add: store_wf_def)
qed

lemma keyed_setdefault [keyed_intros]: "keyed key d \<Longrightarrow> keyed key (dict_setdefault_all key xs d)"
  by (induction xs arbitrary: d) (auto intro: keyed_set)

lemma values_setdefault:
  "keyed key d \<Longrightarrow> v \<in> set (dict_values (dict_setdefault_all key xs d)) \<Longrightarrow>
     v \<in> set xs \<or> v \<in> set (dict_values d)"
proof (induction xs arbitrary: d)
  case Nil
  then show ?case by simp
next
  case (Cons x xs)
  let ?d = "if dict_has d (key x) then d else dict_set (key x) x d"
  have k: "keyed key ?d" using Cons.prems(1) by (auto intro: keyed_set)
  have "v \<in> set xs \<or> v \<in> set (dict_values ?d)"
    using Cons.IH [OF k] Cons.prems(2) by simp
  moreover have "v = x \<or> v \<in> set (dict_values d)" if "v \<in> set (dict_values ?d)"
    using that Cons.prems(1)
    by (auto simp: dict_has_def dict_set_new split: if_splits)
  ultimately show ?case by auto
qed

lemma indexed_wf:
  assumes wf: "store_wf s" and r: "\<And>r. record = Some r \<Longrightarrow> get_record (mr_record_id r) s \<noteq> None"
  shows "store_wf (indexed hash record s)"
proof (cases "record")
  case None
  with wf show ?thesis by (simp add: indexed_def)
next
  case (Some q)
  let ?d = "dict_setdefault_all ss_selector_id (source_selectors_for_record hash q) (st_source_selectors s)"
  have "get_record (ss_record_id x) s \<noteq> None" if x: "x \<in> set (dict_values ?d)" for x
    using values_setdefault [OF wf_keys(9) [OF wf] x]
  proof
    assume "x \<in> set (source_selectors_for_record hash q)"
    then show ?thesis using r [OF Some] selectors_own_record by metis
  next
    assume "x \<in> set (dict_values (st_source_selectors s))"
    then show ?thesis using wf unfolding store_wf_def evidence_ok_def by blast
  qed
  then have "store_wf (s\<lparr>st_source_selectors := ?d\<rparr>)"
    by (intro wf_selectors wf keyed_setdefault wf_keys)
  with Some show ?thesis by (simp add: indexed_def)
qed

lemma commit_guard_fresh:
  assumes "store_wf s" "commit_guard hash cap (Some r) expected s = (Inr u, t)"
    and "get_record (mr_record_id r) s = None"
  shows "fresh_record r s"
proof -
  have "rid = mr_record_id r" if "dict_get (st_idempotency s) (operation_key r) = Some rid" for rid
    using assms(2) that by (simp add: commit_guard_Inr)
  moreover have "get_record rid s \<noteq> None" if "dict_get (st_idempotency s) (operation_key r) = Some rid" for rid
    using assms(1) that unfolding store_wf_def identity_index_def by blast
  ultimately show ?thesis
    using assms(3) by (cases "dict_get (st_idempotency s) (operation_key r)") (auto simp: fresh_record_def)
qed

text \<open>A commit of no record, or of one whose identifier is new, keeps the store well formed.\<close>

definition record_id_new :: "memory_record option \<Rightarrow> store \<Rightarrow> bool" where
  "record_id_new record s \<longleftrightarrow> (\<forall>r. record = Some r \<longrightarrow> get_record (mr_record_id r) s = None)"

lemma commit_write_wf:
  assumes wf: "store_wf s" and new: "record_id_new record s"
  shows "store_wf (snd (commit_write hash cap record rc os es expected s))"
proof -
  obtain r t where c: "commit_write hash cap record rc os es expected s = (r, t)" by fastforce
  have fresh: "fresh_record q s"
    if "record = Some q" "commit_guard hash cap record expected s = (Inr (), s)" for q
    using commit_guard_fresh [OF wf] new that by (simp add: record_id_new_def)
  have w: "store_wf (inserted record s)" if "commit_guard hash cap record expected s = (Inr (), s)"
    using inserted_wf [OF wf] fresh that wf by (cases "record") (auto simp: inserted_def)
  from c have "store_wf t"
  proof (cases rule: commit_write_cases)
    case guard
    with wf show ?thesis by simp
  next
    case rollback
    then have "removed record (inserted record s) = s"
      using fresh by (intro removed_inserted) blast
    with rollback wf show ?thesis by simp
  next
    case body
    let ?u = "(inserted record s)\<lparr>st_receipts := dict_set (wrc_receipt_id rc) rc (st_receipts (inserted record s))\<rparr>"
    have wu: "store_wf ?u"
      by (intro wf_receipts keyed_set wf_keys w body) simp
    have "store_wf (indexed hash record ?u)"
      using wu by (rule indexed_wf) (simp add: inserted_def get_record_def)
    moreover have "keeps store_wf (andThen (for_each apply_transition es) (\<lambda>_. put_outbox_events os))"
      by (intro keeps_intros)
    moreover have "commit_body hash record rc os es (inserted record s)
        = andThen (for_each apply_transition es) (\<lambda>_. put_outbox_events os) (indexed hash record ?u)"
      by (simp add: commit_body_def andThen_def modify_def index_selectors_eq)
    ultimately show ?thesis
      using body(3) keepsD by metis
  qed
  with c show ?thesis by simp
qed

subsection \<open>Legacy releases\<close>

text \<open>A release touches the five fields its snapshot saves and nothing else.\<close>

definition release_frame :: "store \<Rightarrow> store \<Rightarrow> bool" where
  "release_frame s0 s \<longleftrightarrow> snd (restore_release s0 s) = s0"

lemma release_frame_refl: "release_frame s s"
  by (simp add: release_frame_def restore_release_def modify_def)

lemma release_frame_links: "release_frame s0 s \<Longrightarrow> release_frame s0 (s\<lparr>st_projection_links := d\<rparr>)"
  by (cases s, cases s0) (simp add: release_frame_def restore_release_def modify_def)

lemma release_frame_releases: "release_frame s0 s \<Longrightarrow> release_frame s0 (s\<lparr>st_legacy_projection_releases := d\<rparr>)"
  by (cases s, cases s0) (simp add: release_frame_def restore_release_def modify_def)

lemma keeps_release_frame_completion: "keeps (release_frame s0) (complete_deletion eid rid rcid t actor)"
proof (rule keepsI)
  fix s
  assume f: "release_frame s0 s"
  have "release_frame s0 (completed eid rid rc d rcid t actor s)" for rc d
    using f by (cases s, cases s0)
      (simp add: release_frame_def restore_release_def modify_def completed_def Let_def after_transition_def)
  with f show "release_frame s0 (snd (complete_deletion eid rid rcid t actor s))"
    by (auto simp: complete_deletion_eq split: option.splits)
qed

lemma keeps_release_frame: "keeps (release_frame s0) (release_effects eids rc ups rms cps)"
  unfolding release_effects_def
  by (intro keeps_intros release_frame_links release_frame_releases)
    (auto intro: keeps_release_frame_completion)

lemma keeps_release_effects: "keeps store_wf (release_effects eids rc ups rms cps)"
  unfolding release_effects_def
  by (intro keeps_intros wf_ledgers(4) wf_links keyed_intros)
    (auto intro: keeps_complete_deletion wf_keys)

lemma reads_only_release_checks:
  "reads_only (for_each check_expected_link ls)" "reads_only (for_each check_completion cs)"
  by (auto intro!: reads_only_for_each reads_only_andThen simp: check_expected_link_def check_completion_def)

lemma legacy_release_cases:
  assumes "commit_legacy_projection_release eids cap rc ups rms cps exps s = (r, t)"
  shows "(\<exists>e. r = Inl e) \<and> t = s \<or> release_effects eids rc ups rms cps s = (r, t) \<and> (\<exists>u. r = Inr u)"
proof (cases r)
  case (Inr u)
  have "try_catch (release_effects eids rc ups rms cps)
      (\<lambda>e. andThen (restore_release s) (\<lambda>_. throw e)) s = (Inr u, t) \<Longrightarrow>
      release_effects eids rc ups rms cps s = (Inr u, t)"
    by (auto simp: try_catch_def andThen_def restore_release_def modify_def throw_def
        split: sum.splits prod.splits)
  with assms Inr show ?thesis
    unfolding commit_legacy_projection_release_def require_service_write_capability_def
    by (auto simp: andThen_Inr
        dest!: reads_onlyD [OF reads_only_release_checks(1)] reads_onlyD [OF reads_only_release_checks(2)])
next
  case (Inl e)
  have "t = s" if "try_catch (release_effects eids rc ups rms cps)
      (\<lambda>e. andThen (restore_release s) (\<lambda>_. throw e)) s = (Inl e, t)"
  proof -
    obtain r' u where e: "release_effects eids rc ups rms cps s = (r', u)" by fastforce
    then have "release_frame s u"
      using keepsD [OF keeps_release_frame] release_frame_refl by blast
    with e that show ?thesis
      by (cases r') (auto simp: try_catch_def andThen_def release_frame_def restore_release_def modify_def throw_def)
  qed
  with assms Inl show ?thesis
    unfolding commit_legacy_projection_release_def require_service_write_capability_def
    by (auto simp: andThen_Inl
        dest!: reads_onlyD [OF reads_only_release_checks(1)] reads_onlyD [OF reads_only_release_checks(2)])
qed

lemma keeps_legacy_release: "keeps store_wf (commit_legacy_projection_release eids cap rc ups rms cps exps)"
proof (rule keepsI)
  fix s
  assume wf: "store_wf s"
  obtain r t where c: "commit_legacy_projection_release eids cap rc ups rms cps exps s = (r, t)" by fastforce
  from legacy_release_cases [OF c] have "store_wf t"
    using wf keepsD [OF keeps_release_effects] by blast
  with c show "store_wf (snd (commit_legacy_projection_release eids cap rc ups rms cps exps s))" by simp
qed

section \<open>The store as a machine\<close>

datatype store_call =
    InitializeStore
  | CloseStore
  | CommitWrite capability "memory_record option" write_receipt "outbox_event list"
      "memory_status_event list" "phase_lock_precondition option"
  | CommitSourceInvalidation capability invalidation_event "lifecycle_receipt list"
      "memory_status_event list" "outbox_event list" "revalidation_requirement list"
  | TransitionState capability memory_status_event
  | CommitLifecycle capability lifecycle_receipt "memory_status_event list" "outbox_event list"
  | CommitArchive capability archive_receipt "memory_status_event list" "outbox_event list"
  | CommitConflictLinks capability conflict_link_receipt
  | SavePhaseLock capability phase_lock_receipt
  | ClaimOutbox "nat \<Rightarrow> uuid" nat instant nat string
  | UpdateOutbox uuid outbox_status nat instant "string option" "instant option" "uuid option"
  | SaveProjectionLink projection_link
  | SaveProjectionLinkIfActive projection_link "projection_link option"
  | DeleteProjectionLink uuid string
  | SaveProjectionRetirement retirement_receipt
  | CommitProjectionRebuild capability rebuild_receipt "outbox_event list"
  | CommitLegacyRelease "nat \<Rightarrow> uuid" capability legacy_release_receipt "projection_link list"
      "(uuid \<times> string) list" "(uuid \<times> uuid) list" "projection_link list"
  | CommitGraphCutover capability cutover_receipt
  | SaveMaintenanceRun maintenance_run
  | CommitDeletion capability deletion_receipt memory_record "outbox_event option"
      "outbox_event list" memory_status_event
  | CompleteDeletion uuid uuid uuid instant string

fun store_step :: "(json \<Rightarrow> digest) \<Rightarrow> store \<Rightarrow> store_call \<Rightarrow> store" where
  "store_step hash s InitializeStore = snd (initialize_store s)"
| "store_step hash s CloseStore = snd (close_store s)"
| "store_step hash s (CommitWrite cap r rc os es ex) = snd (commit_write hash cap r rc os es ex s)"
| "store_step hash s (CommitSourceInvalidation cap ev rcs es os rqs) =
     snd (commit_source_invalidation cap ev rcs es os rqs s)"
| "store_step hash s (TransitionState cap e) = snd (transition_state cap e s)"
| "store_step hash s (CommitLifecycle cap rc es os) = snd (commit_lifecycle cap rc es os s)"
| "store_step hash s (CommitArchive cap rc es os) = snd (commit_archive cap rc es os s)"
| "store_step hash s (CommitConflictLinks cap rc) = snd (commit_conflict_links cap rc s)"
| "store_step hash s (SavePhaseLock cap l) = snd (save_phase_lock cap l s)"
| "store_step hash s (ClaimOutbox leases limit now secs owner) = snd (claim_outbox leases limit now secs owner s)"
| "store_step hash s (UpdateOutbox eid st att nxt err del lease) = snd (update_outbox eid st att nxt err del lease s)"
| "store_step hash s (SaveProjectionLink l) = snd (save_projection_link l s)"
| "store_step hash s (SaveProjectionLinkIfActive l prev) = snd (save_projection_link_if_active l prev s)"
| "store_step hash s (DeleteProjectionLink rid tg) = snd (delete_projection_link rid tg s)"
| "store_step hash s (SaveProjectionRetirement r) = snd (save_projection_retirement r s)"
| "store_step hash s (CommitProjectionRebuild cap rc os) = snd (commit_projection_rebuild cap rc os s)"
| "store_step hash s (CommitLegacyRelease eids cap rc ups rms cps exps) =
     snd (commit_legacy_projection_release eids cap rc ups rms cps exps s)"
| "store_step hash s (CommitGraphCutover cap rc) = snd (commit_graph_cutover cap rc s)"
| "store_step hash s (SaveMaintenanceRun r) = snd (save_maintenance_run r s)"
| "store_step hash s (CommitDeletion cap rc red oe oes ev) = snd (commit_deletion cap rc red oe oes ev s)"
| "store_step hash s (CompleteDeletion eid rid rcid t actor) = snd (complete_deletion eid rid rcid t actor s)"

text \<open>
  The service's side of the contract: a write brings a record whose identifier is new (a
  fresh \<open>uuid4()\<close>), and a deletion's redacted record keeps the operation identity.
\<close>

fun call_allowed :: "store \<Rightarrow> store_call \<Rightarrow> bool" where
  "call_allowed s (CommitWrite cap r rc os es ex) = record_id_new r s"
| "call_allowed s (CommitDeletion cap rc red oe oes ev) = redaction_ok red s"
| "call_allowed s _ = True"

lemmas keeps_methods = keeps_initialize keeps_close keeps_commit_source_invalidation
  keeps_transition_state keeps_commit_lifecycle keeps_commit_archive keeps_commit_conflict_links
  keeps_save_phase_lock keeps_claim_outbox keeps_update_outbox keeps_save_projection_link
  keeps_save_projection_link_if_active keeps_delete_projection_link keeps_save_projection_retirement
  keeps_commit_projection_rebuild keeps_legacy_release keeps_commit_graph_cutover
  keeps_save_maintenance_run keeps_complete_deletion

lemma store_step_wf:
  assumes wf: "store_wf s" and ok: "call_allowed s c"
  shows "store_wf (store_step hash s c)"
proof -
  have k: "keeps store_wf m \<Longrightarrow> store_wf (snd (m s))" for m :: "'a store_op"
    using wf by (simp add: keeps_def)
  have kb: "keeps store_wf m \<Longrightarrow> store_wf (snd (m s))" for m :: "unit store_op"
    using wf by (simp add: keeps_def)
  have kl: "keeps store_wf m \<Longrightarrow> store_wf (snd (m s))" for m :: "bool store_op"
    using wf by (simp add: keeps_def)
  have ke: "keeps store_wf m \<Longrightarrow> store_wf (snd (m s))" for m :: "outbox_event list store_op"
    using wf by (simp add: keeps_def)
  show ?thesis
    using ok by (cases c) (auto intro!: kb kl ke keeps_methods commit_write_wf [OF wf] commit_deletion_wf [OF wf])
qed

interpretation store_machine: guarded_machine "store_step hash" store_wf call_allowed
  for hash :: "json \<Rightarrow> digest"
  by unfold_locales (rule store_step_wf)

section \<open>Properties of the store\<close>

text \<open>
  Property C12: whatever methods of the store run, in whatever order and with whatever
  outcome, the store stays well formed: every dictionary files its values under their own
  identifiers, the operation-identity index names exactly the stored records, and every
  status event, source selector and deletion receipt belongs to a stored record.
\<close>

theorem store_run_invariant:
  assumes "run_allowed (store_step hash) call_allowed empty_store calls"
  shows "store_wf (run_steps (store_step hash) empty_store calls)"
  using store_machine.run_inv [OF store_wf_empty assms] .

theorem store_run_invariant_witness:
  "store_wf (run_steps (store_step smp_hash) empty_store
     [InitializeStore,
      CommitWrite SERVICE_WRITE_CAPABILITY (Some (smp_record 1 ACTIVE)) (smp_write_receipt 1)
        [smp_outbox 3 X_PENDING] [smp_event 1 None ACTIVE] None])"
  by (rule store_run_invariant)
    (simp add: record_id_new_def get_record_def initialize_store_def modify_def empty_store_def)

text \<open>
  Property C11: one operation identity, one record. After any run of the store two stored
  records with the same tenant, namespace and idempotency key are the same record, and
  looking the identity up finds it.
\<close>

theorem operation_identity_unique:
  assumes "run_allowed (store_step hash) call_allowed empty_store calls"
    and "get_record a (run_steps (store_step hash) empty_store calls) = Some r"
    and "get_record b (run_steps (store_step hash) empty_store calls) = Some q"
    and "operation_key r = operation_key q"
  shows "a = b \<and> find_by_idempotency (mr_tenant_id r) (mr_namespace r) (mr_idempotency_key r)
           (run_steps (store_step hash) empty_store calls) = Some r"
proof -
  let ?s = "run_steps (store_step hash) empty_store calls"
  have wf: "store_wf ?s"
    using store_machine.run_inv [OF store_wf_empty assms(1)] .
  have "get_record (mr_record_id r) ?s = Some r"
    using assms(2) get_record_id [OF wf assms(2)] by simp
  then have "find_by_idempotency (mr_tenant_id r) (mr_namespace r) (mr_idempotency_key r) ?s = Some r"
    by (simp add: find_by_idempotency_iff [OF wf] operation_key_def)
  with index_unique [OF wf assms(2-4)] show ?thesis by simp
qed

lemma smp_written_record: "get_record 1 smp_written = Some (smp_record 1 ACTIVE)"
  by (simp add: committed_def Let_def get_record_def indexed_def inserted_def after_transition_def
      transitioned_def empty_store_def smp_record_def)

theorem operation_identity_unique_witness:
  "(1::uuid) = 1 \<and> find_by_idempotency ''t'' ''ns'' (uuid_str 1)
     (run_steps (store_step smp_hash) empty_store
       [CommitWrite SERVICE_WRITE_CAPABILITY (Some (smp_record 1 ACTIVE)) (smp_write_receipt 1)
          [smp_outbox 3 X_PENDING] [smp_event 1 None ACTIVE] None]) = Some (smp_record 1 ACTIVE)"
proof -
  let ?calls = "[CommitWrite SERVICE_WRITE_CAPABILITY (Some (smp_record 1 ACTIVE)) (smp_write_receipt 1)
          [smp_outbox 3 X_PENDING] [smp_event 1 None ACTIVE] None]"
  have a: "run_allowed (store_step smp_hash) call_allowed empty_store ?calls"
    by (simp add: record_id_new_def get_record_def empty_store_def)
  have g: "get_record 1 (run_steps (store_step smp_hash) empty_store ?calls) = Some (smp_record 1 ACTIVE)"
    by (simp add: smp_write_ok smp_written_record)
  show ?thesis
    using operation_identity_unique [OF a g g refl] by simp
qed

text \<open>
  A legacy-projection release is all or nothing. Whatever guard, link check or
  deletion completion fails, the store is exactly what it was before the release.
\<close>

theorem legacy_release_atomic:
  assumes "commit_legacy_projection_release eids cap receipt link_updates link_removals completions
             expected_links s = (Inl e, t)"
  shows "t = s"
  using legacy_release_cases [OF assms] by auto

definition smp_release :: legacy_release_receipt where
  "smp_release =
     \<lparr>lpr_receipt_id = 50, lpr_namespace = ''ns'', lpr_projection_name = ''p'', lpr_applied = True,
      lpr_released_record_ids = [1], lpr_released_copy_count = 1,
      lpr_completed_deletion_record_ids = [], lpr_authorization = smp_authorization,
      lpr_store_destruction_reference = ''ref'', lpr_reason = ''r'', lpr_actor = ''a'',
      lpr_created_at = 9, lpr_cutover_receipt_id = None\<rparr>"

theorem legacy_release_atomic_witness:
  "commit_legacy_projection_release (\<lambda>i. 60) SERVICE_WRITE_CAPABILITY smp_release [smp_link 1 ''tg''] []
     [] [smp_link 1 ''tg''] empty_store
     = (Inl (StoreError ''projection link changed since the release was planned''), empty_store)"
proof -
  let ?op = "commit_legacy_projection_release (\<lambda>i. 60) SERVICE_WRITE_CAPABILITY smp_release
     [smp_link 1 ''tg''] [] [] [smp_link 1 ''tg''] empty_store"
  have "fst ?op = Inl (StoreError ''projection link changed since the release was planned'')"
    by (simp add: commit_legacy_projection_release_def require_service_write_capability_def andThen_def
        check_def ret_def throw_def gets_def check_expected_link_def smp_release_def empty_store_def)
  then obtain t where t: "?op = (Inl (StoreError ''projection link changed since the release was planned''), t)"
    by (metis prod.collapse)
  with legacy_release_atomic [OF t] show ?thesis by simp
qed

text \<open>
  A verified deletion completes only when the record holds no projection link
  any more; otherwise the completion is refused and nothing changes. Once completed the
  record is DELETED and its receipt COMPLETE.
\<close>

theorem complete_deletion_guarded:
  assumes "complete_deletion eid rid receipt_id completed_at actor s = (r, t)"
  shows "(case r of
       Inl e \<Rightarrow> t = s
     | Inr _ \<Rightarrow>
         list_projection_links rid s = []
         \<and> map_option mr_state (get_record rid t) = Some DELETED
         \<and> map_option dr_status (dict_get (st_deletion_receipts t) receipt_id) = Some D_COMPLETE
         \<and> (\<forall>other. other \<noteq> rid \<longrightarrow> get_record other t = get_record other s))"
  using assms
  by (auto simp: complete_deletion_eq completed_def Let_def get_record_def after_transition_def
      split: option.splits if_splits)

abbreviation smp_deleting :: store where
  "smp_deleting \<equiv>
     empty_store\<lparr>st_records := [(1, smp_record 1 DELETION_PENDING)],
       st_deletion_receipts := [(62, smp_deletion_receipt 62 1)],
       st_projection_links := [((1, ''tg''), smp_link 1 ''tg'')]\<rparr>"

theorem complete_deletion_guarded_witness:
  "complete_deletion 61 1 62 9 ''worker'' smp_deleting
   = (Inl (StoreError ''deletion cannot complete while projection links remain unerased''), smp_deleting)"
proof -
  have "fst (complete_deletion 61 1 62 9 ''worker'' smp_deleting)
      = Inl (StoreError ''deletion cannot complete while projection links remain unerased'')"
    by (simp add: complete_deletion_eq get_record_def list_projection_links_def split: option.splits)
  then obtain t where t: "complete_deletion 61 1 62 9 ''worker'' smp_deleting
      = (Inl (StoreError ''deletion cannot complete while projection links remain unerased''), t)"
    by (metis prod.collapse)
  with complete_deletion_guarded [OF t] show ?thesis by simp
qed

end
