(* ===== verification/OutboxLaws.thy ===== *)
theory OutboxLaws
  imports StoreInvariant
begin

text \<open>
  The lease discipline of the outbox, \<open>claim_outbox\<close> and \<open>update_outbox\<close> of
  \<open>adapters/in_memory_store.py\<close>: which events a claim takes and what it writes on them, that
  a live lease excludes every other claim, that an expired one is recovered, and that a
  worker whose lease was taken over can no longer settle the event. The search methods'
  isolation and ordering are here too.
\<close>

section \<open>Claims\<close>

lemma claim_batch_claimable: "e \<in> set (claim_batch limit now s) \<Longrightarrow>
    e \<in> set (dict_values (st_outbox s)) \<and> is_claimable now e"
  by (auto simp: claim_batch_def dest!: in_set_takeD)

lemma claim_batch_distinct:
  assumes "keyed ob_event_id (st_outbox s)"
  shows "distinct (map ob_event_id (claim_batch limit now s))"
proof -
  have "distinct (map ob_event_id (filter (is_claimable now) (dict_values (st_outbox s))))"
    using keyed_distinct [OF assms] by (rule distinct_map_filter)
  then have "distinct (map ob_event_id (sort_key ob_created_at (filter (is_claimable now) (dict_values (st_outbox s)))))"
    by (simp add: distinct_map)
  then show ?thesis by (simp add: claim_batch_def take_map [symmetric])
qed

definition leased ::
  "(nat \<Rightarrow> uuid) \<Rightarrow> instant \<Rightarrow> nat \<Rightarrow> string \<Rightarrow> outbox_event list \<Rightarrow> outbox_event list" where
  "leased leases now secs owner es =
     map (\<lambda>(i, e). lease_event now secs owner (leases i) e) (enumerate 0 es)"

lemma claim_outbox_eq:
  "claim_outbox leases limit now secs owner s =
     (Inr (leased leases now secs owner (claim_batch limit now s)),
      s\<lparr>st_outbox := dict_set_all ob_event_id (leased leases now secs owner (claim_batch limit now s))
           (st_outbox s)\<rparr>)"
  by (simp add: claim_outbox_def leased_def Let_def)

lemma map_leased:
  assumes "\<And>l x. f (lease_event now secs owner l x) = f x"
  shows "map f (leased leases now secs owner es) = map f es"
  by (rule nth_equalityI) (simp_all add: leased_def assms nth_enumerate_eq)

lemma leased_ids [simp]: "map ob_event_id (leased leases now secs owner es) = map ob_event_id es"
  by (rule map_leased) (simp add: lease_event_def)

lemma leased_mem:
  assumes "e \<in> set (leased leases now secs owner es)"
  obtains i x where "i < length es" "x = es ! i" "e = lease_event now secs owner (leases i) x"
  using assms by (auto simp: leased_def in_set_enumerate_eq)

lemma lease_event_sel [simp]:
  "ob_event_id (lease_event now secs owner l e) = ob_event_id e"
  "ob_status (lease_event now secs owner l e) = X_PROCESSING"
  "ob_lease_id (lease_event now secs owner l e) = Some l"
  "ob_lease_owner (lease_event now secs owner l e) = Some owner"
  "ob_lease_expires_at (lease_event now secs owner l e) = Some (now + seconds secs)"
  "ob_attempts (lease_event now secs owner l e) = ob_attempts e"
  "ob_event_type (lease_event now secs owner l e) = ob_event_type e"
  "ob_payload (lease_event now secs owner l e) = ob_payload e"
  by (simp_all add: lease_event_def)

lemma claimable_lease [simp]: "is_claimable t (lease_event now secs owner l e) \<longleftrightarrow> now + seconds secs \<le> t"
  by (simp add: is_claimable_def)

lemma get_claimed:
  assumes "keyed ob_event_id (st_outbox s)"
    and "claim_outbox leases limit now secs owner s = (Inr claimed, t)"
  shows "e \<in> set claimed \<Longrightarrow> dict_get (st_outbox t) (ob_event_id e) = Some e"
    and "eid \<notin> ob_event_id ` set claimed \<Longrightarrow> dict_get (st_outbox t) eid = dict_get (st_outbox s) eid"
  using assms claim_batch_distinct [OF assms(1)]
  by (auto simp: claim_outbox_eq dict_get_set_all_mem dict_get_set_all_notin)

lemma claim_effect:
  assumes "keyed ob_event_id (st_outbox s)"
    and "claim_outbox leases limit now lease_seconds owner s = (Inr claimed, t)"
  shows "length claimed \<le> limit
    \<and> (\<forall>e \<in> set claimed. \<exists>x i. dict_get (st_outbox s) (ob_event_id e) = Some x \<and> is_claimable now x
         \<and> e = lease_event now lease_seconds owner (leases i) x
         \<and> dict_get (st_outbox t) (ob_event_id e) = Some e)
    \<and> (length (filter (is_claimable now) (dict_values (st_outbox s))) \<le> limit \<longrightarrow>
         (\<forall>x. dict_get (st_outbox s) (ob_event_id x) = Some x \<and> is_claimable now x \<longrightarrow>
            ob_event_id x \<in> ob_event_id ` set claimed))
    \<and> sorted (map ob_created_at claimed)
    \<and> (\<forall>eid. eid \<notin> ob_event_id ` set claimed \<longrightarrow> dict_get (st_outbox t) eid = dict_get (st_outbox s) eid)
    \<and> st_records t = st_records s"
proof -
  let ?b = "claim_batch limit now s"
  have c: "claimed = leased leases now lease_seconds owner ?b"
    and t: "t = s\<lparr>st_outbox := dict_set_all ob_event_id claimed (st_outbox s)\<rparr>"
    using assms(2) by (auto simp: claim_outbox_eq)
  have len: "length claimed \<le> limit"
    by (simp add: c leased_def claim_batch_def)
  have each: "\<exists>x i. dict_get (st_outbox s) (ob_event_id e) = Some x \<and> is_claimable now x
      \<and> e = lease_event now lease_seconds owner (leases i) x" if "e \<in> set claimed" for e
  proof -
    from that c obtain i x where i: "i < length ?b" "x = ?b ! i"
      and e: "e = lease_event now lease_seconds owner (leases i) x"
      by (auto elim: leased_mem)
    then have "x \<in> set (dict_values (st_outbox s)) \<and> is_claimable now x"
      using claim_batch_claimable nth_mem by blast
    then have "dict_get (st_outbox s) (ob_event_id x) = Some x \<and> is_claimable now x"
      unfolding keyed_values [OF assms(1)] .
    with e show ?thesis by auto
  qed
  have ids: "ob_event_id ` set claimed = ob_event_id ` set ?b"
    using c by (metis leased_ids set_map)
  have all: "ob_event_id x \<in> ob_event_id ` set claimed"
    if "length (filter (is_claimable now) (dict_values (st_outbox s))) \<le> limit"
      "dict_get (st_outbox s) (ob_event_id x) = Some x" "is_claimable now x" for x
  proof -
    have "x \<in> set (dict_values (st_outbox s))"
      using that(2) by (rule dict_get_mem_values)
    with that(1,3) have "x \<in> set ?b" by (simp add: claim_batch_def)
    then show ?thesis by (simp add: ids)
  qed
  have "map ob_created_at claimed = map ob_created_at ?b"
    unfolding c by (rule map_leased) (simp add: lease_event_def)
  moreover have "sorted (map ob_created_at ?b)"
    by (simp add: claim_batch_def take_map [symmetric] sorted_wrt_take)
  ultimately have srt: "sorted (map ob_created_at claimed)" by simp
  have rec: "st_records t = st_records s" by (simp add: t)
  from len each all srt rec get_claimed [OF assms] show ?thesis by blast
qed

text \<open>
  A claim takes claimable events only, oldest first and at most \<open>limit\<close> of
  them, every claimable one when the limit allows, and leaves each claimed event processing
  under a lease of its own until \<open>now + lease_seconds\<close>, its attempts and payload unchanged,
  and every other event of the outbox untouched.
\<close>

theorem claim_outbox_effect:
  assumes "keyed ob_event_id (st_outbox s)"
    and "claim_outbox leases limit now lease_seconds owner s = (Inr claimed, t)"
  shows "length claimed \<le> limit
    \<and> (\<forall>e \<in> set claimed. \<exists>x i. dict_get (st_outbox s) (ob_event_id e) = Some x \<and> is_claimable now x
         \<and> e = lease_event now lease_seconds owner (leases i) x
         \<and> dict_get (st_outbox t) (ob_event_id e) = Some e)
    \<and> (length (filter (is_claimable now) (dict_values (st_outbox s))) \<le> limit \<longrightarrow>
         (\<forall>x. dict_get (st_outbox s) (ob_event_id x) = Some x \<and> is_claimable now x \<longrightarrow>
            ob_event_id x \<in> ob_event_id ` set claimed))
    \<and> sorted (map ob_created_at claimed)
    \<and> (\<forall>eid. eid \<notin> ob_event_id ` set claimed \<longrightarrow> dict_get (st_outbox t) eid = dict_get (st_outbox s) eid)
    \<and> st_records t = st_records s"
  using claim_effect [OF assms] .

text \<open>
  Property C33: a live lease is exclusive. Whatever happened to the rest of the store since,
  while the claimed events still carry the lease and its time has not come, no other claim
  takes any of them.
\<close>

theorem live_lease_exclusive:
  assumes "keyed ob_event_id (st_outbox s)" and "keyed ob_event_id (st_outbox s')"
    and "claim_outbox leases1 limit1 now1 secs1 owner1 s = (Inr claimed1, t)"
    and "\<forall>e \<in> set claimed1. dict_get (st_outbox s') (ob_event_id e) = Some e"
    and "claim_outbox leases2 limit2 now2 secs2 owner2 s' = (Inr claimed2, t')"
    and "now2 < now1 + seconds secs1"
  shows "ob_event_id ` set claimed1 \<inter> ob_event_id ` set claimed2 = {}"
proof -
  have "ob_event_id e \<noteq> ob_event_id e'" if e: "e \<in> set claimed1" and e': "e' \<in> set claimed2" for e e'
  proof
    assume same: "ob_event_id e = ob_event_id e'"
    from assms(3) e have "\<not> is_claimable now2 e"
      using assms(6) by (auto simp: claim_outbox_eq elim!: leased_mem)
    moreover from claim_effect [OF assms(2,5)] e'
    obtain x where "dict_get (st_outbox s') (ob_event_id e') = Some x" "is_claimable now2 x"
      by blast
    ultimately show False using assms(4) e same by auto
  qed
  then show ?thesis by blast
qed

text \<open>
  A worker that lost its lease cannot settle the event. Once another claim took
  the event over under a different lease, an update naming the old lease is refused and
  changes nothing, while the new holder's update settles it and releases the lease.
\<close>

theorem stale_lease_refused:
  assumes "keyed ob_event_id (st_outbox s)"
    and "claim_outbox leases limit now secs owner s = (Inr claimed, t)"
    and "e \<in> set claimed" and "ob_lease_id e \<noteq> Some stale"
  shows "update_outbox (ob_event_id e) status attempts next_at err delivered (Some stale) t
           = (Inl (StoreError ''outbox lease is no longer held; another worker owns this event''), t)
    \<and> (\<exists>u. update_outbox (ob_event_id e) status attempts next_at err delivered (ob_lease_id e) t = (Inr (), u)
         \<and> dict_get (st_outbox u) (ob_event_id e)
             = Some (settled_event status attempts next_at err delivered e)
         \<and> (\<forall>other. other \<noteq> ob_event_id e \<longrightarrow> dict_get (st_outbox u) other = dict_get (st_outbox t) other))"
  using get_claimed(1) [OF assms(1,2,3)] assms(4)
  by (simp add: update_outbox_def andThen_def gets_def check_def ret_def throw_def modify_def)

text \<open>
  Delivered and dead events are final for the queue: at no time and for no
  limit does a claim take them or change them again.
\<close>

theorem settled_event_final:
  assumes "keyed ob_event_id (st_outbox s)"
    and "update_outbox eid status attempts next_at err delivered lease s = (Inr (), t)"
    and "status \<in> {X_DELIVERED, X_DEAD}"
    and "claim_outbox leases limit now secs owner t = (Inr claimed, u)"
  shows "eid \<notin> ob_event_id ` set claimed \<and> dict_get (st_outbox u) eid = dict_get (st_outbox t) eid
    \<and> (\<exists>e. dict_get (st_outbox t) eid = Some e \<and> ob_status e = status \<and> ob_attempts e = attempts
         \<and> ob_lease_id e = None)"
proof -
  obtain x where x: "dict_get (st_outbox s) eid = Some x"
    and t: "t = s\<lparr>st_outbox := dict_set eid (settled_event status attempts next_at err delivered x) (st_outbox s)\<rparr>"
    using assms(2) by (auto simp: update_outbox_def andThen_Inr split: option.splits)
  let ?e = "settled_event status attempts next_at err delivered x"
  have g: "dict_get (st_outbox t) eid = Some ?e" by (simp add: t)
  have k: "keyed ob_event_id (st_outbox t)"
    using keyed_get [OF assms(1) x] assms(1) by (auto simp: t settled_event_def intro: keyed_set)
  have no: "\<not> is_claimable now ?e"
    using assms(3) by (auto simp: is_claimable_def settled_event_def)
  have "eid \<notin> ob_event_id ` set claimed"
  proof
    assume "eid \<in> ob_event_id ` set claimed"
    then obtain y where "dict_get (st_outbox t) eid = Some y" "is_claimable now y"
      using claim_effect [OF k assms(4)] by blast
    with g no show False by simp
  qed
  with get_claimed(2) [OF k assms(4)] g show ?thesis by (simp add: settled_event_def)
qed

section \<open>Search\<close>

lemma take_sorted_wrt: "sorted_wrt P xs \<Longrightarrow> sorted_wrt P (take n xs)"
  by (metis sorted_wrt_append append_take_drop_id)

lemma set_by_recency [simp]: "set (by_recency rs) = set rs"
  by (simp add: by_recency_def)

text \<open>
  A search never leaves its tenant or its authorized namespaces. Every result
  is a stored record of the tenant, in one of the namespaces, in a state the request allows,
  confident enough, of a requested class, valid at \<open>valid_at\<close> and recorded by then; results
  come newest first, and there are at most ten times the requested limit.
\<close>

theorem search_records_sound:
  "(\<forall>r \<in> set (search_records tenant q namespaces s).
       r \<in> set (dict_values (st_records s)) \<and> mr_tenant_id r = tenant \<and> mr_namespace r \<in> set namespaces
       \<and> mr_state r \<in> set (search_states q) \<and> mr_state r \<notin> {CANDIDATE, QUARANTINED, REJECTED, DELETION_PENDING, DELETED}
       \<and> sr_min_confidence q \<le> cf_score (mr_confidence r)
       \<and> is_valid_at (mr_temporal r) (sr_valid_at q))
   \<and> sorted_wrt (\<lambda>x y. recorded_at (mr_temporal y) \<le> recorded_at (mr_temporal x))
       (search_records tenant q namespaces s)
   \<and> length (search_records tenant q namespaces s) \<le> sr_limit q * 10
   \<and> (length (filter (search_matches tenant q namespaces) (dict_values (st_records s))) \<le> sr_limit q * 10 \<longrightarrow>
        set (search_records tenant q namespaces s)
          = {r \<in> set (dict_values (st_records s)). search_matches tenant q namespaces r})"
proof (intro conjI ballI impI)
  let ?found = "by_recency (filter (search_matches tenant q namespaces) (dict_values (st_records s)))"
  have srt: "sorted_wrt (\<lambda>x y. recorded_at (mr_temporal y) \<le> recorded_at (mr_temporal x)) ?found"
    unfolding by_recency_def by (rule sorted_sort_desc)
  show "sorted_wrt (\<lambda>x y. recorded_at (mr_temporal y) \<le> recorded_at (mr_temporal x))
       (search_records tenant q namespaces s)"
    unfolding search_records_def using srt by (rule take_sorted_wrt)
  show "length (search_records tenant q namespaces s) \<le> sr_limit q * 10"
    by (simp add: search_records_def)
  fix r
  assume "r \<in> set (search_records tenant q namespaces s)"
  then have r: "r \<in> set (dict_values (st_records s))" and m: "search_matches tenant q namespaces r"
    by (auto simp: search_records_def dest!: in_set_takeD)
  show "r \<in> set (dict_values (st_records s))" by (rule r)
  from m show "mr_tenant_id r = tenant" "mr_namespace r \<in> set namespaces" "mr_state r \<in> set (search_states q)"
    "mr_state r \<notin> {CANDIDATE, QUARANTINED, REJECTED, DELETION_PENDING, DELETED}"
    "sr_min_confidence q \<le> cf_score (mr_confidence r)" "is_valid_at (mr_temporal r) (sr_valid_at q)"
    by (auto simp: search_matches_def search_states_def split: if_splits)
next
  let ?found = "by_recency (filter (search_matches tenant q namespaces) (dict_values (st_records s)))"
  assume "length (filter (search_matches tenant q namespaces) (dict_values (st_records s))) \<le> sr_limit q * 10"
  then have "take (sr_limit q * 10) ?found = ?found"
    by (simp add: by_recency_def sort_desc_def)
  then show "set (search_records tenant q namespaces s)
      = {r \<in> set (dict_values (st_records s)). search_matches tenant q namespaces r}"
    by (simp add: search_records_def)
qed

section \<open>Witnesses\<close>

definition smp_queue :: store where
  "smp_queue = empty_store\<lparr>st_outbox := [(3, smp_outbox 3 X_PENDING), (4, smp_outbox 4 X_DELIVERED)]\<rparr>"

definition smp_claimed :: outbox_event where
  "smp_claimed = lease_event 10 300 ''w'' 70 (smp_outbox 3 X_PENDING)"

definition smp_queue_claimed :: store where
  "smp_queue_claimed = empty_store\<lparr>st_outbox := [(3, smp_claimed), (4, smp_outbox 4 X_DELIVERED)]\<rparr>"

lemma smp_claimed_sel [simp]:
  "ob_event_id smp_claimed = 3" "ob_lease_id smp_claimed = Some 70" "ob_status smp_claimed = X_PROCESSING"
  "ob_lease_expires_at smp_claimed = Some (10 + seconds 300)"
  by (simp_all add: smp_claimed_def)

lemma smp_queue_keyed:
  "keyed ob_event_id (st_outbox smp_queue)" "keyed ob_event_id (st_outbox smp_queue_claimed)"
  by (auto simp: keyed_def dict_ok_def smp_queue_def smp_queue_claimed_def split: if_splits)

lemma smp_claim: "claim_outbox (\<lambda>i. 70) 10 10 300 ''w'' smp_queue = (Inr [smp_claimed], smp_queue_claimed)"
  by (simp add: claim_outbox_eq claim_batch_def is_claimable_def leased_def smp_queue_def
      smp_queue_claimed_def smp_claimed_def)

theorem claim_outbox_effect_witness:
  "length [smp_claimed] \<le> 10 \<and> dict_get (st_outbox smp_queue_claimed) 3 = Some smp_claimed
     \<and> dict_get (st_outbox smp_queue_claimed) 4 = dict_get (st_outbox smp_queue) 4"
proof -
  from claim_outbox_effect [OF smp_queue_keyed(1) smp_claim]
  have "\<forall>e \<in> set [smp_claimed]. dict_get (st_outbox smp_queue_claimed) (ob_event_id e) = Some e"
    and "\<forall>eid. eid \<notin> ob_event_id ` set [smp_claimed] \<longrightarrow>
        dict_get (st_outbox smp_queue_claimed) eid = dict_get (st_outbox smp_queue) eid"
    by blast+
  then show ?thesis by simp
qed

theorem live_lease_exclusive_witness:
  "ob_event_id ` set [smp_claimed] \<inter> ob_event_id ` set ([] :: outbox_event list) = {}"
proof -
  have again: "claim_outbox (\<lambda>i. 71) 10 11 300 ''x'' smp_queue_claimed = (Inr [], smp_queue_claimed)"
    by (simp add: claim_outbox_eq claim_batch_def is_claimable_def leased_def smp_queue_claimed_def seconds_def)
  show ?thesis
    by (rule live_lease_exclusive [OF smp_queue_keyed smp_claim _ again])
      (simp_all add: smp_queue_claimed_def seconds_def)
qed

theorem stale_lease_refused_witness:
  "update_outbox 3 X_DELIVERED 1 20 None (Some 20) (Some 69) smp_queue_claimed
     = (Inl (StoreError ''outbox lease is no longer held; another worker owns this event''), smp_queue_claimed)"
  using stale_lease_refused [OF smp_queue_keyed(1) smp_claim, of smp_claimed 69] by simp

theorem settled_event_final_witness:
  "3 \<notin> ob_event_id ` set ([] :: outbox_event list)"
proof -
  let ?t = "empty_store\<lparr>st_outbox := [(3, settled_event X_DELIVERED 1 20 None (Some 20) smp_claimed),
                                   (4, smp_outbox 4 X_DELIVERED)]\<rparr>"
  have u: "update_outbox 3 X_DELIVERED 1 20 None (Some 20) (Some 70) smp_queue_claimed = (Inr (), ?t)"
    by (simp add: update_outbox_def andThen_def gets_def check_def ret_def modify_def smp_queue_claimed_def)
  have c: "claim_outbox (\<lambda>i. 72) 10 5000 300 ''x'' ?t = (Inr [], ?t)"
    by (simp add: claim_outbox_eq claim_batch_def is_claimable_def leased_def settled_event_def)
  show ?thesis
    using settled_event_final [OF smp_queue_keyed(2) u _ c] by simp
qed

definition smp_search :: memory_search_request where
  "smp_search =
     \<lparr>sr_query = ''q'', sr_namespaces = [''ns''], sr_memory_classes = [], sr_valid_at = 50,
      sr_recorded_before = None, sr_include_superseded = False, sr_include_archived = False,
      sr_min_confidence = 0, sr_limit = 5, sr_token_budget = None, sr_tags = []\<rparr>"

theorem search_records_sound_witness:
  "set (search_records ''t'' smp_search [''ns'']
      (empty_store\<lparr>st_records := [(1, smp_record 1 ACTIVE), (2, smp_record 2 QUARANTINED)]\<rparr>))
   = {smp_record 1 ACTIVE}"
proof -
  let ?s = "empty_store\<lparr>st_records := [(1, smp_record 1 ACTIVE), (2, smp_record 2 QUARANTINED)]\<rparr>"
  have m: "search_matches ''t'' smp_search [''ns''] (smp_record 1 ACTIVE)"
    "\<not> search_matches ''t'' smp_search [''ns''] (smp_record 2 QUARANTINED)"
    by (simp_all add: search_matches_def smp_search_def search_states_def is_valid_at_def smp_confidence_def)
  then have few: "length (filter (search_matches ''t'' smp_search [''ns'']) (dict_values (st_records ?s)))
      \<le> sr_limit smp_search * 10"
    by (simp add: smp_search_def)
  from search_records_sound [of "''t''" smp_search "[''ns'']" ?s] few
  have "set (search_records ''t'' smp_search [''ns''] ?s)
      = {r \<in> set (dict_values (st_records ?s)). search_matches ''t'' smp_search [''ns''] r}"
    by blast
  with m show ?thesis by auto
qed

end
