(* ===== verification/Authz.thy ===== *)
theory Authz
  imports Receipts
begin

text \<open>
  Namespace authorization: the shell-style patterns of the standard library's
  \<open>fnmatch.fnmatchcase\<close>, the \<open>NamespacePolicy\<close> of \<open>authz/policy.py\<close> that matches a
  principal's grants against a namespace, and the hosted-identity helpers of
  \<open>contracts/identity.py\<close>.
\<close>

section \<open>\<open>fnmatch.fnmatchcase\<close>\<close>

text \<open>
  \<open>split_class\<close> reads a bracket expression after its \<open>[\<close>: whether it is negated, its body
  and the pattern after its closing bracket; \<open>None\<close> when the bracket is never closed, in
  which case \<open>[\<close> stands for itself. A \<open>]\<close> right after \<open>[\<close> or \<open>[!\<close> is a member.
\<close>

definition split_class :: "string \<Rightarrow> (bool \<times> string \<times> string) option" where
  "split_class r =
     (let (neg, r1) = (case r of [] \<Rightarrow> (False, r) | c # t \<Rightarrow> if c = CHR ''!'' then (True, t) else (False, r));
          (first, r2) = (case r1 of [] \<Rightarrow> ([], r1) | c # t \<Rightarrow> if c = CHR '']'' then ([c], t) else ([], r1))
      in if CHR '']'' \<in> set r2
         then Some (neg, first @ takeWhile (\<lambda>c. c \<noteq> CHR '']'') r2, tl (dropWhile (\<lambda>c. c \<noteq> CHR '']'') r2))
         else None)"

fun class_has :: "string \<Rightarrow> char \<Rightarrow> bool" where
  "class_has [] c = False"
| "class_has [a] c = (c = a)"
| "class_has [a, b] c = (c = a \<or> c = b)"
| "class_has (a # b # d # rest) c =
     (if b = CHR ''-'' then (a \<le> c \<and> c \<le> d) \<or> class_has rest c
      else c = a \<or> class_has (b # d # rest) c)"

lemma split_class_length: "split_class r = Some (n, b, rest) \<Longrightarrow> length rest \<le> length r"
  by (auto simp: split_class_def Let_def split: if_splits list.splits)
     (metis le_SucI length_dropWhile_le length_tl diff_le_self order_trans)+

function fnmatch :: "string \<Rightarrow> string \<Rightarrow> bool" where
  "fnmatch [] s \<longleftrightarrow> s = []"
| "fnmatch (p # ps) s \<longleftrightarrow>
     (if p = CHR ''*'' then fnmatch ps s \<or> (case s of [] \<Rightarrow> False | _ # t \<Rightarrow> fnmatch (p # ps) t)
      else if p = CHR ''?'' then (case s of [] \<Rightarrow> False | _ # t \<Rightarrow> fnmatch ps t)
      else if p = CHR ''['' then
        (case split_class ps of
           None \<Rightarrow> (case s of [] \<Rightarrow> False | c # t \<Rightarrow> c = p \<and> fnmatch ps t)
         | Some (neg, body, rest) \<Rightarrow>
             (case s of [] \<Rightarrow> False | c # t \<Rightarrow> class_has body c \<noteq> neg \<and> fnmatch rest t))
      else (case s of [] \<Rightarrow> False | c # t \<Rightarrow> c = p \<and> fnmatch ps t))"
  by pat_completeness auto
termination
  by (relation "measure (\<lambda>(p, s). length p + length s)") (auto dest: split_class_length)

declare fnmatch.simps(2) [simp del]

lemma fnmatch_Cons_Nil [simp]: "fnmatch (p # ps) [] \<longleftrightarrow> p = CHR ''*'' \<and> fnmatch ps []"
  by (simp add: fnmatch.simps(2) split: option.splits)

lemma fnmatch_Cons_Cons [simp]:
  "fnmatch (p # ps) (c # t) \<longleftrightarrow>
     (if p = CHR ''*'' then fnmatch ps (c # t) \<or> fnmatch (p # ps) t
      else if p = CHR ''?'' then fnmatch ps t
      else if p = CHR ''['' then
        (case split_class ps of
           None \<Rightarrow> c = p \<and> fnmatch ps t
         | Some (neg, body, rest) \<Rightarrow> class_has body c \<noteq> neg \<and> fnmatch rest t)
      else c = p \<and> fnmatch ps t)"
  by (subst fnmatch.simps(2)) (simp split: option.splits)

text \<open>A pattern without special characters matches exactly itself.\<close>

definition is_literal :: "string \<Rightarrow> bool" where
  "is_literal p \<longleftrightarrow> list_all (\<lambda>c. c \<noteq> CHR ''*'' \<and> c \<noteq> CHR ''?'' \<and> c \<noteq> CHR ''['') p"

lemma is_literal_Nil [simp]: "is_literal []"
  by (simp add: is_literal_def)

lemma is_literal_Cons [simp]:
  "is_literal (c # p) \<longleftrightarrow>
     c \<noteq> CHR ''*'' \<and> c \<noteq> CHR ''?'' \<and> c \<noteq> CHR ''['' \<and> is_literal p"
  by (auto simp: is_literal_def)

lemma fnmatch_literal: "is_literal p \<Longrightarrow> fnmatch p s \<longleftrightarrow> s = p"
proof (induction p arbitrary: s)
  case (Cons c p)
  then show ?case by (cases s) auto
qed simp

lemma fnmatch_star: "fnmatch (CHR ''*'' # ps) s \<longleftrightarrow> (\<exists>u v. s = u @ v \<and> fnmatch ps v)"
proof (induction s)
  case Nil
  then show ?case by simp
next
  case (Cons c s)
  have "fnmatch (CHR ''*'' # ps) (c # s) \<longleftrightarrow> fnmatch ps (c # s) \<or> fnmatch (CHR ''*'' # ps) s"
    by simp
  also have "\<dots> \<longleftrightarrow> (\<exists>u v. c # s = u @ v \<and> fnmatch ps v)"
    unfolding Cons by (auto simp: Cons_eq_append_conv)
  finally show ?case .
qed

lemma fnmatch_star_all [simp]: "fnmatch ''*'' s"
  by (simp add: fnmatch_star)

text \<open>A literal prefix followed by \<open>*\<close> matches exactly the names with that prefix.\<close>

lemma fnmatch_prefix: "is_literal p \<Longrightarrow> fnmatch (p @ ''*'') s \<longleftrightarrow> (\<exists>t. s = p @ t)"
proof (induction p arbitrary: s)
  case (Cons c p)
  then show ?case by (cases s) auto
qed simp

section \<open>\<open>NamespacePolicy\<close>\<close>

definition patterns_for :: "memory_principal \<Rightarrow> authorization_action \<Rightarrow> string list" where
  "patterns_for p a =
     (case a of
        A_READ \<Rightarrow> mp_read_namespaces p
      | A_WRITE \<Rightarrow> mp_write_namespaces p
      | A_PROMOTE \<Rightarrow> mp_promote_namespaces p
      | A_MAINTAIN \<Rightarrow> mp_maintain_namespaces p
      | A_ARCHIVE \<Rightarrow> (if mp_is_admin p then [''*''] else [])
      | A_ADMIN \<Rightarrow> (if mp_is_admin p then [''*''] else []))"

definition matches :: "string \<Rightarrow> string list \<Rightarrow> bool" where
  "matches ns patterns \<longleftrightarrow> list_ex (\<lambda>pattern. fnmatch pattern ns) patterns"

text \<open>\<open>stamp\<close> is the receipt's identifier and evaluation time (the default factories).\<close>

definition mk_authorization ::
  "uuid \<times> instant \<Rightarrow> memory_principal \<Rightarrow> authorization_action \<Rightarrow> string \<Rightarrow> bool \<Rightarrow> string
     \<Rightarrow> authorization_receipt" where
  "mk_authorization stamp p a ns allowed reason =
     \<lparr>ar_receipt_id = fst stamp, ar_principal_id = mp_principal_id p, ar_action = a,
      ar_namespace = ns, ar_allowed = allowed, ar_reasons = [reason],
      ar_policy_version = AUTHORIZATION_POLICY_VERSION, ar_evaluated_at = snd stamp\<rparr>"

definition evaluate ::
  "uuid \<times> instant \<Rightarrow> memory_principal \<Rightarrow> authorization_action \<Rightarrow> string \<Rightarrow> authorization_receipt" where
  "evaluate stamp p a ns =
     (if mp_is_admin p then mk_authorization stamp p a ns True ''principal is administrator''
      else
        let patterns = patterns_for p a;
            allowed = matches ns patterns;
            reason =
              (if allowed then ''namespace matched '' @ action_value a @ '' grant''
               else
                 let granted = (if patterns \<noteq> [] then join_str '', '' patterns else ''none'')
                 in ''namespace did not match any '' @ action_value a @ '' grant (auth_method=''
                      @ mp_auth_method p @ '', granted='' @ granted @ '')'')
        in mk_authorization stamp p a ns allowed reason)"

definition require ::
  "uuid \<times> instant \<Rightarrow> memory_principal \<Rightarrow> authorization_action \<Rightarrow> string
     \<Rightarrow> error + authorization_receipt" where
  "require stamp p a ns =
     (let receipt = evaluate stamp p a ns in
      if ar_allowed receipt then Inr receipt
      else Inl (AuthorizationError ''principal is not authorized''))"

text \<open>What a grant decision comes to, the receipt aside.\<close>

definition may :: "memory_principal \<Rightarrow> authorization_action \<Rightarrow> string \<Rightarrow> bool" where
  "may p a ns \<longleftrightarrow> mp_is_admin p \<or> (\<exists>pattern \<in> set (patterns_for p a). fnmatch pattern ns)"

lemma matches_iff: "matches ns ps \<longleftrightarrow> (\<exists>pattern \<in> set ps. fnmatch pattern ns)"
  by (auto simp: matches_def list_ex_iff)

lemma evaluate_allowed [simp]: "ar_allowed (evaluate stamp p a ns) \<longleftrightarrow> may p a ns"
  by (simp add: evaluate_def may_def mk_authorization_def Let_def matches_iff)

lemma evaluate_binds:
  "ar_principal_id (evaluate stamp p a ns) = mp_principal_id p \<and>
   ar_action (evaluate stamp p a ns) = a \<and> ar_namespace (evaluate stamp p a ns) = ns"
  by (simp add: evaluate_def mk_authorization_def Let_def)

lemma require_Inr: "require stamp p a ns = Inr r \<longleftrightarrow> may p a ns \<and> r = evaluate stamp p a ns"
  by (auto simp: require_def Let_def)

lemma require_Inl:
  "require stamp p a ns = Inl e \<longleftrightarrow>
     \<not> may p a ns \<and> e = AuthorizationError ''principal is not authorized''"
  by (auto simp: require_def Let_def)

lemma may_admin: "mp_is_admin p \<Longrightarrow> may p a ns"
  by (simp add: may_def)

lemma may_governance: "a = A_ARCHIVE \<or> a = A_ADMIN \<Longrightarrow> may p a ns \<longleftrightarrow> mp_is_admin p"
  by (auto simp: may_def patterns_for_def)

lemma may_literal:
  assumes "\<forall>pattern \<in> set (patterns_for p a). is_literal pattern" and "\<not> mp_is_admin p"
  shows "may p a ns \<longleftrightarrow> ns \<in> set (patterns_for p a)"
  using assms by (auto simp: may_def fnmatch_literal)

text \<open>Each action consults its own grants only: an added grant for one adds nothing to another.\<close>

lemma may_write_only:
  "may (p\<lparr>mp_write_namespaces := g\<rparr>) a ns = may p a ns" if "a \<noteq> A_WRITE"
  using that by (cases a) (auto simp: may_def patterns_for_def)

section \<open>Hosted identity (\<open>contracts/identity.py\<close>)\<close>

definition CALLER_IDENTITY_ARGUMENT_KEYS :: "string list" where
  "CALLER_IDENTITY_ARGUMENT_KEYS =
     [''actor'', ''actor_identity'', ''surface'', ''surface_identity'', ''client_id'']"

definition caller_identity_argument :: "(string, json) dict \<Rightarrow> string option" where
  "caller_identity_argument args =
     find (\<lambda>k. case dict_get args k of None \<Rightarrow> False | Some JNull \<Rightarrow> False | Some v \<Rightarrow> v \<noteq> JStr [])
       CALLER_IDENTITY_ARGUMENT_KEYS"

definition oauth_actor_ref :: "string option \<Rightarrow> string list \<Rightarrow> string option \<Rightarrow> string option" where
  "oauth_actor_ref verified evidence client =
     (if \<not> nonempty_opt verified \<or> evidence = [] then None
      else if nonempty_opt client \<and> verified = client then None
      else if nonempty_opt client \<and> the client \<in> set evidence then None
      else verified)"

record hosted_coordinates =
  hc_product_ref :: string
  hc_release_digest :: "string option"
  hc_runtime_id :: "string option"
  hc_actor_ref :: "string option"
  hc_surface_ref :: "string option"

definition hosted_coordinates_from_oauth ::
  "string \<Rightarrow> string option \<Rightarrow> string option \<Rightarrow> string option \<Rightarrow> string list \<Rightarrow> string option
     \<Rightarrow> string option \<Rightarrow> hosted_coordinates" where
  "hosted_coordinates_from_oauth product release runtime verified evidence client surface_evidence =
     (let surface = (if \<not> nonempty_opt surface_evidence \<or> surface_evidence = client then None
                     else surface_evidence)
      in \<lparr>hc_product_ref = product, hc_release_digest = release, hc_runtime_id = runtime,
          hc_actor_ref = oauth_actor_ref verified evidence client, hc_surface_ref = surface\<rparr>)"

definition oauth_grant_claims_operator :: "string \<Rightarrow> bool \<Rightarrow> bool \<Rightarrow> bool" where
  "oauth_grant_claims_operator auth_method is_admin is_global_admin \<longleftrightarrow>
     auth_method = ''oauth'' \<and> (is_admin \<or> is_global_admin)"

text \<open>An OAuth client id never becomes an actor or a surface coordinate.\<close>

lemma client_never_identity:
  assumes "nonempty_opt client"
  shows "hc_actor_ref (hosted_coordinates_from_oauth pr rel rt ver ev client sf) \<noteq> client \<and>
         hc_surface_ref (hosted_coordinates_from_oauth pr rel rt ver ev client sf) \<noteq> client"
  using assms
  by (auto simp: hosted_coordinates_from_oauth_def oauth_actor_ref_def Let_def nonempty_opt_def
      split: option.splits)

end
