(* ===== verification/Admission.thy ===== *)
theory Admission
  imports Authz Samples
begin

text \<open>
  The admission decision of \<open>admission/engine.py\<close> under the policy of
  \<open>admission/policy.py\<close>. Text normalization is an argument here, the
  record \<open>normalization_result\<close>, and \<open>normalize\<close> a parameter of the operations that call it;
  \<open>Normalization\<close> models it.
\<close>

section \<open>Policy and normalization result\<close>

record normalization_result =
  nr_normalized_content :: string
  nr_redacted_content :: string
  nr_original_digest :: digest
  nr_normalized_digest :: digest
  nr_pii_types :: "string list"
  nr_safety_signals :: "string list"
  nr_unresolved_ambiguous :: "string list"

record admission_policy =
  ap_policy_version :: string
  ap_max_content_chars :: nat
  ap_min_confidence :: real
  ap_quarantine_on_safety_signal :: bool
  ap_quarantine_on_pii :: bool
  ap_quarantine_on_ambiguous_numeric :: bool
  ap_identity_requires_explicit_evidence :: bool
  ap_preference_requires_explicit_evidence :: bool
  ap_private_classes_require_consent :: bool
  ap_allowed_classes :: "memory_class list"

definition default_admission_policy :: admission_policy where
  "default_admission_policy =
     \<lparr>ap_policy_version = ADMISSION_POLICY_VERSION, ap_max_content_chars = 64000,
      ap_min_confidence = 0, ap_quarantine_on_safety_signal = True, ap_quarantine_on_pii = False,
      ap_quarantine_on_ambiguous_numeric = True, ap_identity_requires_explicit_evidence = True,
      ap_preference_requires_explicit_evidence = True, ap_private_classes_require_consent = True,
      ap_allowed_classes = all_memory_classes\<rparr>"

definition EXPLICIT_EVIDENCE_CLASSES :: "memory_class list" where
  "EXPLICIT_EVIDENCE_CLASSES = [IDENTITY, PREFERENCE]"

definition CALLER_ASSERTED_EXPLICIT_MARKER :: string where
  "CALLER_ASSERTED_EXPLICIT_MARKER =
     ''caller-asserted explicit evidence (unverified by the server): ''"

definition caller_asserted_explicit :: "instant \<Rightarrow> string \<Rightarrow> string option \<Rightarrow> evidence_ref" where
  "caller_asserted_explicit observed description source_id =
     evidence_of E_OBSERVATION (take 2000 (CALLER_ASSERTED_EXPLICIT_MARKER @ description)) source_id observed"

definition is_caller_asserted_explicit :: "evidence_ref \<Rightarrow> bool" where
  "is_caller_asserted_explicit ref \<longleftrightarrow>
     er_kind ref = E_OBSERVATION \<and> starts_with CALLER_ASSERTED_EXPLICIT_MARKER (er_description ref)"

section \<open>The engine\<close>

definition expected_purpose :: "memory_write_request \<Rightarrow> string option" where
  "expected_purpose r = get_str (wr_metadata r) ''purpose''"

definition has_explicit_evidence :: "memory_write_request \<Rightarrow> bool" where
  "has_explicit_evidence r \<longleftrightarrow> list_ex (\<lambda>i. er_kind i = E_EXPLICIT) (wr_evidence r)"

definition missing_explicit_evidence :: "memory_write_request \<Rightarrow> string \<Rightarrow> write_status \<times> string list" where
  "missing_explicit_evidence r reason =
     (if list_ex is_caller_asserted_explicit (wr_evidence r)
      then (W_QUARANTINED, [reason @ ''; caller-asserted explicit evidence is held for review''])
      else (W_REJECTED, [reason]))"

text \<open>The chain of conditions up to the first status, with its reasons.\<close>

definition primary_status ::
  "admission_policy \<Rightarrow> memory_write_request \<Rightarrow> normalization_result \<Rightarrow> bool \<Rightarrow> bool
     \<Rightarrow> write_status \<times> string list" where
  "primary_status p r n allowed duplicate =
     (let c = wr_memory_class r; cv = class_value c in
      if \<not> allowed then (W_REJECTED, [''namespace authorization denied''])
      else if duplicate then (W_DUPLICATE, [''idempotent duplicate already exists''])
      else if c \<notin> set (ap_allowed_classes p)
        then (W_REJECTED, [''memory class '' @ cv @ '' is not admitted''])
      else if length (nr_redacted_content n) > ap_max_content_chars p
        then (W_REJECTED, [''normalized content exceeds policy limit''])
      else if cf_score (wr_confidence r) < ap_min_confidence p
        then (W_REJECTED, [''confidence is below admission threshold''])
      else if ap_private_classes_require_consent p \<and> c \<in> {IDENTITY, PREFERENCE} then
        (let subject = (case wr_assertion r of None \<Rightarrow> None | Some a \<Rightarrow> as_subject a) in
         case wr_consent r of
           None \<Rightarrow> (W_REJECTED, [cv @ '' memory requires purpose-bound consent''])
         | Some g \<Rightarrow>
             if \<not> permits g (wr_namespace r) c (wr_valid_from r) subject (expected_purpose r)
             then (W_REJECTED,
               [''consent does not authorize this subject, namespace, class, or validity time''])
             else if \<not> has_explicit_evidence r
             then missing_explicit_evidence r (cv @ '' memory requires explicit evidence'')
             else (W_ADMITTED, []))
      else if ap_identity_requires_explicit_evidence p \<and> c = IDENTITY then
        (if \<not> has_explicit_evidence r
         then missing_explicit_evidence r ''identity memory requires explicit evidence''
         else (W_ADMITTED, []))
      else if ap_preference_requires_explicit_evidence p \<and> c = PREFERENCE then
        (if \<not> has_explicit_evidence r
         then missing_explicit_evidence r ''preference memory requires explicit evidence''
         else (W_ADMITTED, []))
      else (W_ADMITTED, []))"

type_synonym verdict_so_far = "write_status \<times> string list \<times> string list"

definition ambiguous_stage ::
  "admission_policy \<Rightarrow> normalization_result \<Rightarrow> verdict_so_far \<Rightarrow> verdict_so_far" where
  "ambiguous_stage p n v =
     (let (status, reasons, warnings) = v in
      if nr_unresolved_ambiguous n \<noteq> [] \<and> status = W_ADMITTED \<and> ap_quarantine_on_ambiguous_numeric p
      then
        (let count = nat_str (length (nr_unresolved_ambiguous n)) in
         (W_QUARANTINED,
          reasons @ [count @ '' ambiguous numeric token(s) require a numeric_declarations entry''],
          warnings @ [''ambiguous numeric token redacted: '' @ count]))
      else v)"

definition pii_stage ::
  "admission_policy \<Rightarrow> normalization_result \<Rightarrow> verdict_so_far \<Rightarrow> verdict_so_far" where
  "pii_stage p n v =
     (let (status, reasons, warnings) = v in
      if nr_pii_types n \<noteq> [] then
        (let warnings' = warnings @ [''PII redacted: '' @ join_str '', '' (nr_pii_types n)] in
         if ap_quarantine_on_pii p \<and> status = W_ADMITTED
         then (W_QUARANTINED, reasons @ [''PII requires review''], warnings')
         else (status, reasons, warnings'))
      else v)"

definition safety_stage ::
  "admission_policy \<Rightarrow> normalization_result \<Rightarrow> verdict_so_far \<Rightarrow> verdict_so_far" where
  "safety_stage p n v =
     (let (status, reasons, warnings) = v in
      if nr_safety_signals n \<noteq> [] then
        (let warnings' = warnings @ [''safety signals: '' @ join_str '', '' (nr_safety_signals n)] in
         if ap_quarantine_on_safety_signal p \<and> status = W_ADMITTED
         then (W_QUARANTINED, reasons @ [''safety signal requires review''], warnings')
         else (status, reasons, warnings'))
      else v)"

definition final_stage :: "memory_write_request \<Rightarrow> verdict_so_far \<Rightarrow> verdict_so_far" where
  "final_stage r v =
     (let (status, reasons, warnings) = v;
          (status', reasons') =
            (if status = W_ADMITTED \<and> wr_supersedes r \<noteq> []
             then (W_SUPERSEDED, reasons @ [''new record supersedes existing records''])
             else (status, reasons))
      in (status', if reasons' = [] then [''candidate satisfies admission policy''] else reasons', warnings))"

definition admission_verdict ::
  "admission_policy \<Rightarrow> memory_write_request \<Rightarrow> normalization_result \<Rightarrow> bool \<Rightarrow> bool \<Rightarrow> verdict_so_far" where
  "admission_verdict p r n allowed duplicate =
     (let (status, reasons) = primary_status p r n allowed duplicate
      in final_stage r (safety_stage p n (pii_stage p n (ambiguous_stage p n (status, reasons, [])))))"

text \<open>\<open>stamp\<close> is the decision's identifier and evaluation time (the default factories).\<close>

definition admission_evaluate ::
  "uuid \<times> instant \<Rightarrow> admission_policy \<Rightarrow> memory_write_request \<Rightarrow> normalization_result
     \<Rightarrow> authorization_receipt \<Rightarrow> bool \<Rightarrow> admission_decision" where
  "admission_evaluate stamp p r n authorization duplicate =
     (let (status, reasons, warnings) = admission_verdict p r n (ar_allowed authorization) duplicate in
      \<lparr>ad_decision_id = fst stamp, ad_status = status, ad_reasons = reasons, ad_warnings = warnings,
       ad_policy_version = ADMISSION_POLICY_VERSION, ad_candidate_digest = nr_normalized_digest n,
       ad_evaluated_at = snd stamp\<rparr>)"

section \<open>What admission guarantees\<close>

definition admits :: "write_status \<Rightarrow> bool" where
  "admits st \<longleftrightarrow> st = W_ADMITTED \<or> st = W_SUPERSEDED"

text \<open>The conditions under which a candidate becomes current truth.\<close>

definition consent_given :: "memory_write_request \<Rightarrow> bool" where
  "consent_given r \<longleftrightarrow>
     (case wr_consent r of
        None \<Rightarrow> False
      | Some g \<Rightarrow> permits g (wr_namespace r) (wr_memory_class r) (wr_valid_from r)
                   (case wr_assertion r of None \<Rightarrow> None | Some a \<Rightarrow> as_subject a) (expected_purpose r))"

definition explicit_required :: "admission_policy \<Rightarrow> memory_class \<Rightarrow> bool" where
  "explicit_required p c \<longleftrightarrow>
     c = IDENTITY \<and> (ap_private_classes_require_consent p \<or> ap_identity_requires_explicit_evidence p) \<or>
     c = PREFERENCE \<and> (ap_private_classes_require_consent p \<or> ap_preference_requires_explicit_evidence p)"

definition admissible ::
  "admission_policy \<Rightarrow> memory_write_request \<Rightarrow> normalization_result \<Rightarrow> bool \<Rightarrow> bool \<Rightarrow> bool" where
  "admissible p r n allowed duplicate \<longleftrightarrow>
     allowed \<and> \<not> duplicate \<and> wr_memory_class r \<in> set (ap_allowed_classes p) \<and>
     length (nr_redacted_content n) \<le> ap_max_content_chars p \<and>
     ap_min_confidence p \<le> cf_score (wr_confidence r) \<and>
     (ap_private_classes_require_consent p \<and> wr_memory_class r \<in> {IDENTITY, PREFERENCE} \<longrightarrow> consent_given r) \<and>
     (explicit_required p (wr_memory_class r) \<longrightarrow> has_explicit_evidence r) \<and>
     (ap_quarantine_on_ambiguous_numeric p \<longrightarrow> nr_unresolved_ambiguous n = []) \<and>
     (ap_quarantine_on_pii p \<longrightarrow> nr_pii_types n = []) \<and>
     (ap_quarantine_on_safety_signal p \<longrightarrow> nr_safety_signals n = [])"

lemma missing_not_admitted: "fst (missing_explicit_evidence r x) \<noteq> W_ADMITTED"
  by (simp add: missing_explicit_evidence_def)

lemma primary_admitted:
  "fst (primary_status p r n allowed duplicate) = W_ADMITTED \<longleftrightarrow>
     allowed \<and> \<not> duplicate \<and> wr_memory_class r \<in> set (ap_allowed_classes p) \<and>
     length (nr_redacted_content n) \<le> ap_max_content_chars p \<and>
     ap_min_confidence p \<le> cf_score (wr_confidence r) \<and>
     (ap_private_classes_require_consent p \<and> wr_memory_class r \<in> {IDENTITY, PREFERENCE} \<longrightarrow> consent_given r) \<and>
     (explicit_required p (wr_memory_class r) \<longrightarrow> has_explicit_evidence r)"
  by (auto simp: primary_status_def Let_def consent_given_def explicit_required_def missing_not_admitted
      split: option.splits)

lemma stage_admitted:
  "fst (ambiguous_stage p n v) = W_ADMITTED \<longleftrightarrow>
     fst v = W_ADMITTED \<and> (ap_quarantine_on_ambiguous_numeric p \<longrightarrow> nr_unresolved_ambiguous n = [])"
  "fst (pii_stage p n v) = W_ADMITTED \<longleftrightarrow>
     fst v = W_ADMITTED \<and> (ap_quarantine_on_pii p \<longrightarrow> nr_pii_types n = [])"
  "fst (safety_stage p n v) = W_ADMITTED \<longleftrightarrow>
     fst v = W_ADMITTED \<and> (ap_quarantine_on_safety_signal p \<longrightarrow> nr_safety_signals n = [])"
  by (auto simp: ambiguous_stage_def pii_stage_def safety_stage_def Let_def split: prod.splits)

text \<open>The stages after the first only hold an admitted candidate, they never lift a refusal.\<close>

lemma stage_not_superseded:
  "fst v \<noteq> W_SUPERSEDED \<Longrightarrow> fst (ambiguous_stage p n v) \<noteq> W_SUPERSEDED"
  "fst v \<noteq> W_SUPERSEDED \<Longrightarrow> fst (pii_stage p n v) \<noteq> W_SUPERSEDED"
  "fst v \<noteq> W_SUPERSEDED \<Longrightarrow> fst (safety_stage p n v) \<noteq> W_SUPERSEDED"
  by (auto simp: ambiguous_stage_def pii_stage_def safety_stage_def Let_def split: prod.splits)

lemma primary_not_superseded: "fst (primary_status p r n allowed duplicate) \<noteq> W_SUPERSEDED"
  by (auto simp: primary_status_def missing_explicit_evidence_def Let_def split: option.splits)

lemma verdict_admits:
  "admits (fst (admission_verdict p r n allowed duplicate)) \<longleftrightarrow> admissible p r n allowed duplicate"
proof -
  obtain st rs where ps: "primary_status p r n allowed duplicate = (st, rs)" by fastforce
  let ?v = "safety_stage p n (pii_stage p n (ambiguous_stage p n (st, rs, [])))"
  have "fst ?v \<noteq> W_SUPERSEDED"
    using primary_not_superseded [of p r n allowed duplicate] ps by (simp add: stage_not_superseded)
  moreover have "fst ?v = W_ADMITTED \<longleftrightarrow> admissible p r n allowed duplicate"
    using primary_admitted [of p r n allowed duplicate] ps
    by (auto simp: stage_admitted admissible_def)
  ultimately show ?thesis
    by (auto simp: admission_verdict_def ps final_stage_def admits_def Let_def split: prod.splits)
qed

lemma primary_duplicate: "fst (primary_status p r n allowed duplicate) = W_DUPLICATE \<longleftrightarrow> allowed \<and> duplicate"
  by (auto simp: primary_status_def missing_explicit_evidence_def Let_def split: option.splits)

lemma stage_keeps_refusal:
  "fst v \<noteq> W_ADMITTED \<Longrightarrow> fst (ambiguous_stage p n v) = fst v"
  "fst v \<noteq> W_ADMITTED \<Longrightarrow> fst (pii_stage p n v) = fst v"
  "fst v \<noteq> W_ADMITTED \<Longrightarrow> fst (safety_stage p n v) = fst v"
  "fst v \<noteq> W_ADMITTED \<Longrightarrow> fst (final_stage r v) = fst v"
  by (auto simp: ambiguous_stage_def pii_stage_def safety_stage_def final_stage_def Let_def split: prod.splits)

lemma verdict_refusal:
  "fst (primary_status p r n allowed duplicate) \<noteq> W_ADMITTED \<Longrightarrow>
     fst (admission_verdict p r n allowed duplicate) = fst (primary_status p r n allowed duplicate)"
  by (auto simp: admission_verdict_def stage_keeps_refusal split: prod.splits)

lemma verdict_held:
  assumes "fst (primary_status p r n allowed duplicate) = W_ADMITTED"
  shows "fst (admission_verdict p r n allowed duplicate) \<in> {W_ADMITTED, W_SUPERSEDED, W_QUARANTINED}"
  using assms
  by (auto simp: admission_verdict_def ambiguous_stage_def pii_stage_def safety_stage_def final_stage_def
      Let_def split: prod.splits if_splits)

lemma verdict_duplicate:
  "fst (admission_verdict p r n allowed duplicate) = W_DUPLICATE \<longleftrightarrow> allowed \<and> duplicate"
  using primary_duplicate [of p r n allowed duplicate] verdict_refusal [of p r n allowed duplicate]
    verdict_held [of p r n allowed duplicate]
  by (cases "fst (primary_status p r n allowed duplicate) = W_ADMITTED") auto

lemma verdict_unauthorized: "fst (admission_verdict p r n False duplicate) = W_REJECTED"
  by (subst verdict_refusal) (simp_all add: primary_status_def Let_def)

lemma evaluate_status:
  "ad_status (admission_evaluate stamp p r n authorization duplicate)
     = fst (admission_verdict p r n (ar_allowed authorization) duplicate)"
  by (simp add: admission_evaluate_def Let_def split: prod.splits)

text \<open>
  Property C10: a candidate is admitted exactly when the caller is authorized, the
  operation is new, its class, size and confidence pass the policy, a private class carries
  consent for this subject, namespace, class, time and purpose, a class that needs explicit
  evidence has some, and nothing the policy quarantines on was found. It supersedes only
  when admitted, and an unauthorized candidate is always rejected.
\<close>

theorem admission_exact:
  "admits (ad_status (admission_evaluate stamp p r n authorization duplicate))
     = admissible p r n (ar_allowed authorization) duplicate
   \<and> (ad_status (admission_evaluate stamp p r n authorization duplicate) = W_SUPERSEDED \<longrightarrow>
        wr_supersedes r \<noteq> [] \<and> admissible p r n (ar_allowed authorization) duplicate)
   \<and> (ad_status (admission_evaluate stamp p r n authorization duplicate) = W_DUPLICATE)
        = (ar_allowed authorization \<and> duplicate)
   \<and> (\<not> ar_allowed authorization \<longrightarrow>
        ad_status (admission_evaluate stamp p r n authorization duplicate) = W_REJECTED)"
proof -
  have "wr_supersedes r \<noteq> []"
    if "fst (admission_verdict p r n (ar_allowed authorization) duplicate) = W_SUPERSEDED"
  proof (rule ccontr)
    assume "\<not> wr_supersedes r \<noteq> []"
    with that show False
      using primary_not_superseded [of p r n "ar_allowed authorization" duplicate]
      by (auto simp: admission_verdict_def final_stage_def Let_def split: prod.splits)
        (metis fst_conv stage_not_superseded)
  qed
  moreover have "admissible p r n (ar_allowed authorization) duplicate"
    if "fst (admission_verdict p r n (ar_allowed authorization) duplicate) = W_SUPERSEDED"
    using verdict_admits [of p r n "ar_allowed authorization" duplicate] that by (simp add: admits_def)
  ultimately show ?thesis
    by (auto simp: evaluate_status verdict_admits verdict_duplicate verdict_unauthorized)
qed

text \<open>
  A caller's own word is not explicit evidence. Under the default policy an
  identity or preference candidate none of whose evidence the server itself marked explicit
  is never admitted, whatever the caller asserts in its descriptions; evidence the server
  records for such a claim is recognized as a claim and is of observation grade.
\<close>

theorem caller_assertion_never_admits:
  assumes "wr_memory_class r \<in> {IDENTITY, PREFERENCE}"
    and "\<forall>i \<in> set (wr_evidence r). er_kind i \<noteq> E_EXPLICIT"
  shows "\<not> admits (ad_status (admission_evaluate stamp default_admission_policy r n authorization duplicate))
    \<and> is_caller_asserted_explicit (caller_asserted_explicit t description src)
    \<and> er_kind (caller_asserted_explicit t description src) = E_OBSERVATION"
proof -
  have "\<not> has_explicit_evidence r"
    using assms(2) by (auto simp: has_explicit_evidence_def list_ex_iff)
  moreover have "explicit_required default_admission_policy (wr_memory_class r)"
    using assms(1) by (auto simp: explicit_required_def default_admission_policy_def)
  moreover have "is_caller_asserted_explicit (caller_asserted_explicit t description src)"
    by (simp add: is_caller_asserted_explicit_def caller_asserted_explicit_def evidence_of_def
        starts_with_def CALLER_ASSERTED_EXPLICIT_MARKER_def)
  ultimately show ?thesis
    by (auto simp: evaluate_status verdict_admits admissible_def caller_asserted_explicit_def evidence_of_def)
qed

section \<open>Witnesses\<close>

definition smp_request :: "memory_class \<Rightarrow> uuid list \<Rightarrow> memory_write_request" where
  "smp_request c olds =
     \<lparr>wr_namespace = ''ns'', wr_memory_class = c, wr_content = ''fact'', wr_assertion = None,
      wr_provenance = provenance_default ''test'' 0,
      wr_evidence = [evidence_of E_OBSERVATION ''seen'' None 0], wr_confidence = smp_confidence,
      wr_valid_from = 0, wr_valid_to = None, wr_source_observed_at = None, wr_tags = [],
      wr_metadata = [], wr_idempotency_key = Some ''k'', wr_supersedes = olds, wr_references = [],
      wr_consent = None, wr_dry_run = False\<rparr>"

definition smp_normalized :: normalization_result where
  "smp_normalized =
     \<lparr>nr_normalized_content = ''fact'', nr_redacted_content = ''fact'',
      nr_original_digest = replicate 64 (CHR ''b''), nr_normalized_digest = replicate 64 (CHR ''a''),
      nr_pii_types = [], nr_safety_signals = [], nr_unresolved_ambiguous = []\<rparr>"

lemma smp_request_sel [simp]:
  "wr_namespace (smp_request c olds) = ''ns''" "wr_memory_class (smp_request c olds) = c"
  "wr_supersedes (smp_request c olds) = olds" "wr_idempotency_key (smp_request c olds) = Some ''k''"
  "wr_dry_run (smp_request c olds) = False" "wr_metadata (smp_request c olds) = []"
  "wr_confidence (smp_request c olds) = smp_confidence" "wr_consent (smp_request c olds) = None"
  by (simp_all add: smp_request_def)

lemma smp_admissible: "admissible default_admission_policy (smp_request SEMANTIC olds) smp_normalized True False"
  by (simp add: admissible_def default_admission_policy_def explicit_required_def smp_normalized_def
      all_memory_classes_def smp_confidence_def)

theorem admission_exact_witness:
  "admits (ad_status (admission_evaluate (1, 2) default_admission_policy (smp_request SEMANTIC [7])
     smp_normalized smp_authorization False))"
  using admission_exact [of "(1, 2)" default_admission_policy "smp_request SEMANTIC [7]" smp_normalized
      smp_authorization False] smp_admissible
  by (simp add: smp_authorization_def)

theorem caller_assertion_never_admits_witness:
  "\<not> admits (ad_status (admission_evaluate (1, 2) default_admission_policy (smp_request IDENTITY [])
     smp_normalized smp_authorization False))"
  using caller_assertion_never_admits [of "smp_request IDENTITY []" "(1, 2)" smp_normalized
      smp_authorization False 0 "[]" None]
  by (simp add: smp_request_def evidence_of_def)

end
