(* ===== verification/PatternMatch.thy ===== *)
theory PatternMatch
  imports Prelude
begin

text \<open>
  The part of Python's \<open>re\<close> the package uses, on ASCII text: a pattern is a value of
  \<open>regex\<close>, and \<open>match_ends\<close> lists the ways it matches at a position in the order the
  backtracking engine tries them, so that the first one is the match the engine reports.
  \<open>search\<close>, \<open>sub\<close> and \<open>find_all\<close> are the scans over a text.
\<close>

section \<open>Patterns\<close>

text \<open>
  \<open>Many lo hi p\<close> is a greedy repetition \<open>[p]{lo,hi}\<close> of a character class; \<open>NotBehind\<close> and
  \<open>NotAhead\<close> are the negative look-arounds \<open>(?<![p])\<close> and \<open>(?![p])\<close>; \<open>Edge\<close> is \<open>\b\<close>.
\<close>

datatype regex =
    Empty
  | Chars "char \<Rightarrow> bool"
  | Many nat "nat option" "char \<Rightarrow> bool"
  | Then regex regex
  | Or regex regex
  | NotBehind "char \<Rightarrow> bool"
  | NotAhead "char \<Rightarrow> bool"
  | Edge

text \<open>A position: the character before it, if any, and the text after it.\<close>

type_synonym position = "char option \<times> string"

definition in_range :: "char \<Rightarrow> char \<Rightarrow> char \<Rightarrow> bool" where
  "in_range a b c \<longleftrightarrow> (of_char a :: nat) \<le> of_char c \<and> (of_char c :: nat) \<le> of_char b"

definition is_digit :: "char \<Rightarrow> bool" where
  "is_digit c \<longleftrightarrow> in_range (CHR ''0'') (CHR ''9'') c"

definition is_alpha :: "char \<Rightarrow> bool" where
  "is_alpha c \<longleftrightarrow> in_range (CHR ''a'') (CHR ''z'') c \<or> in_range (CHR ''A'') (CHR ''Z'') c"

definition is_alnum :: "char \<Rightarrow> bool" where
  "is_alnum c \<longleftrightarrow> is_digit c \<or> is_alpha c"

definition is_word :: "char \<Rightarrow> bool" where
  "is_word c \<longleftrightarrow> is_alnum c \<or> c = CHR ''_''"

definition opt_char :: "(char \<Rightarrow> bool) \<Rightarrow> char option \<Rightarrow> bool" where
  "opt_char p c = (case c of None \<Rightarrow> False | Some d \<Rightarrow> p d)"

definition next_char :: "string \<Rightarrow> char option" where
  "next_char s = (case s of [] \<Rightarrow> None | c # _ \<Rightarrow> Some c)"

text \<open>The position \<open>n\<close> characters further on.\<close>

definition advance :: "nat \<Rightarrow> position \<Rightarrow> position" where
  "advance n x = (if n = 0 then x else (Some (snd x ! (n - 1)), drop n (snd x)))"

fun match_ends :: "regex \<Rightarrow> position \<Rightarrow> position list" where
  "match_ends Empty x = [x]"
| "match_ends (Chars p) x = (case snd x of [] \<Rightarrow> [] | c # s \<Rightarrow> if p c then [(Some c, s)] else [])"
| "match_ends (Many lo hi p) x =
     (let run = length (takeWhile p (snd x));
          top = (case hi of None \<Rightarrow> run | Some h \<Rightarrow> min h run) in
      map (\<lambda>n. advance n x) (rev [lo..<Suc top]))"
| "match_ends (Then r1 r2) x = concat (map (match_ends r2) (match_ends r1 x))"
| "match_ends (Or r1 r2) x = match_ends r1 x @ match_ends r2 x"
| "match_ends (NotBehind p) x = (if opt_char p (fst x) then [] else [x])"
| "match_ends (NotAhead p) x = (if opt_char p (next_char (snd x)) then [] else [x])"
| "match_ends Edge x = (if opt_char is_word (fst x) \<noteq> opt_char is_word (next_char (snd x)) then [x] else [])"

definition first_match :: "regex \<Rightarrow> position \<Rightarrow> position option" where
  "first_match r x = (case match_ends r x of [] \<Rightarrow> None | y # _ \<Rightarrow> Some y)"

fun seq :: "regex list \<Rightarrow> regex" where
  "seq [] = Empty"
| "seq [r] = r"
| "seq (r # q # rs) = Then r (seq (q # rs))"

fun alt :: "regex list \<Rightarrow> regex" where
  "alt [] = Chars (\<lambda>_. False)"
| "alt [r] = r"
| "alt (r # q # rs) = Or r (alt (q # rs))"

definition opt :: "regex \<Rightarrow> regex" where
  "opt r = Or r Empty"

text \<open>A literal, and a literal under \<open>re.IGNORECASE\<close>.\<close>

definition lit :: "string \<Rightarrow> regex" where
  "lit s = seq (map (\<lambda>c. Chars (\<lambda>d. d = c)) s)"

definition lit_ci :: "string \<Rightarrow> regex" where
  "lit_ci s = seq (map (\<lambda>c. Chars (\<lambda>d. lower_char d = lower_char c)) s)"

definition one_of :: "string \<Rightarrow> char \<Rightarrow> bool" where
  "one_of s c \<longleftrightarrow> c \<in> set s"

section \<open>Scans\<close>

text \<open>\<open>pattern.search(text)\<close>: does the pattern match anywhere?\<close>

fun search_from :: "regex \<Rightarrow> char option \<Rightarrow> string \<Rightarrow> bool" where
  "search_from r b [] = (first_match r (b, []) \<noteq> None)"
| "search_from r b (c # s) = (first_match r (b, c # s) \<noteq> None \<or> search_from r (Some c) s)"

definition search :: "regex \<Rightarrow> string \<Rightarrow> bool" where
  "search r s = search_from r None s"

text \<open>
  \<open>pattern.sub(f, text)\<close>: left to right, without overlap. No pattern the package substitutes
  with matches the empty string, so an empty match needs no case of its own.
\<close>

function sub_from :: "regex \<Rightarrow> (string \<Rightarrow> string) \<Rightarrow> char option \<Rightarrow> string \<Rightarrow> string" where
  "sub_from r f b [] = []"
| "sub_from r f b (c # s) =
     (case first_match r (b, c # s) of
        None \<Rightarrow> c # sub_from r f (Some c) s
      | Some (b', s') \<Rightarrow>
          if length s' < length (c # s)
          then f (take (length (c # s) - length s') (c # s)) @ sub_from r f b' s'
          else c # sub_from r f (Some c) s)"
  by pat_completeness auto

termination
  by (relation "measure (\<lambda>(r, f, b, s). length s)") auto

definition sub :: "regex \<Rightarrow> (string \<Rightarrow> string) \<Rightarrow> string \<Rightarrow> string" where
  "sub r f s = sub_from r f None s"

text \<open>\<open>pattern.findall(text)\<close>, the matched texts; also the arguments \<open>sub\<close> hands its callback.\<close>

function find_from :: "regex \<Rightarrow> char option \<Rightarrow> string \<Rightarrow> string list" where
  "find_from r b [] = []"
| "find_from r b (c # s) =
     (case first_match r (b, c # s) of
        None \<Rightarrow> find_from r (Some c) s
      | Some (b', s') \<Rightarrow>
          if length s' < length (c # s)
          then take (length (c # s) - length s') (c # s) # find_from r b' s'
          else find_from r (Some c) s)"
  by pat_completeness auto

termination
  by (relation "measure (\<lambda>(r, b, s). length s)") auto

definition find_all :: "regex \<Rightarrow> string \<Rightarrow> string list" where
  "find_all r s = find_from r None s"

section \<open>Facts about scans\<close>

lemma advance_0 [simp]: "advance 0 x = x"
  by (simp add: advance_def)

lemma advance_add: "m + n \<le> length (snd x) \<Longrightarrow> advance n (advance m x) = advance (m + n) x"
  by (auto simp: advance_def add.commute)

lemma snd_advance [simp]: "snd (advance n x) = drop n (snd x)"
  by (simp add: advance_def)

text \<open>A match only moves forward in the text.\<close>

lemma matches_advance: "y \<in> set (match_ends r x) \<Longrightarrow> \<exists>k \<le> length (snd x). y = advance k x"
proof (induction r arbitrary: x y)
  case (Chars p)
  then show ?case by (cases "snd x") (auto simp: advance_def intro!: exI [of _ 1] split: if_splits)
next
  case (Many lo hi p)
  then obtain n where n: "y = advance n x"
      "n < Suc (case hi of None \<Rightarrow> length (takeWhile p (snd x)) | Some h \<Rightarrow> min h (length (takeWhile p (snd x))))"
    by (auto simp: Let_def)
  then have "n \<le> length (takeWhile p (snd x))" by (auto split: option.splits)
  also have "\<dots> \<le> length (snd x)" by (rule length_takeWhile_le)
  finally show ?case using n(1) by blast
next
  case (Then r1 r2)
  then obtain z where z: "z \<in> set (match_ends r1 x)" "y \<in> set (match_ends r2 z)" by auto
  from Then.IH(1) [OF z(1)] obtain k where k: "k \<le> length (snd x)" "z = advance k x" by blast
  from Then.IH(2) [OF z(2)] obtain j where j: "j \<le> length (snd z)" "y = advance j z" by blast
  have "k + j \<le> length (snd x)" using k j by simp
  then show ?case using k j advance_add by metis
qed (auto intro: exI [of _ 0] split: if_splits)

lemma first_match_advance:
  assumes "first_match r x = Some y"
  obtains k where "k \<le> length (snd x)" "y = advance k x"
  using assms matches_advance [of y r x] by (auto simp: first_match_def split: list.splits)

lemma matched_text:
  assumes "first_match r (b, s) = Some (b', s')"
  shows "take (length s - length s') s @ s' = s"
proof -
  from assms obtain k where "k \<le> length s" "(b', s') = advance k (b, s)"
    by (auto elim: first_match_advance)
  then have "s' = drop k s" by (metis snd_advance snd_conv)
  with \<open>k \<le> length s\<close> have "take (length s - length s') s = take k s" "s' = drop k s" by simp_all
  then show ?thesis by simp
qed

text \<open>Substitution replaces exactly what \<open>find_all\<close> lists: without a match it is the identity.\<close>

lemma sub_no_match: "find_from r b s = [] \<Longrightarrow> sub_from r f b s = s"
  by (induction r b s rule: find_from.induct) (auto split: option.splits if_splits)

lemma sub_from_cong: "(\<And>t. t \<in> set (find_from r b s) \<Longrightarrow> f t = g t) \<Longrightarrow> sub_from r f b s = sub_from r g b s"
  by (induction r f b s rule: sub_from.induct) (auto split: option.splits if_splits)

lemma sub_from_same: "(\<And>t. t \<in> set (find_from r b s) \<Longrightarrow> f t = t) \<Longrightarrow> sub_from r f b s = s"
proof (induction r f b s rule: sub_from.induct)
  case (1 r f b)
  then show ?case by simp
next
  case (2 r f b c s)
  then show ?case using matched_text [of r b "c # s"] by (auto split: option.splits if_splits)
qed

end
