(* ===== verification/Normalization.thy ===== *)
theory Normalization
  imports Admission PatternMatch
begin

text \<open>
  \<open>admission/normalization.py\<close> on ASCII text: line and white-space normalization, redaction
  of the recognized kinds of personal data and secrets, the treatment of bare 9- and 10-digit
  numbers, and the markers of prompt injection. NFKC and the removal of zero-width characters
  are the identity on ASCII text. SHA-256 and \<open>canonical_json\<close> are parameters.
\<close>

section \<open>\<open>normalize_text\<close>\<close>

text \<open>\<open>.replace("\r\n", "\n").replace("\r", "\n")\<close>.\<close>

fun replace_crlf :: "string \<Rightarrow> string" where
  "replace_crlf (c # d # s) =
     (if c = CHR 0x0D \<and> d = CHR 0x0A then CHR 0x0A # replace_crlf s else c # replace_crlf (d # s))"
| "replace_crlf s = s"

definition unify_newlines :: "string \<Rightarrow> string" where
  "unify_newlines s = map (\<lambda>c. if c = CHR 0x0D then CHR 0x0A else c) (replace_crlf s)"

text \<open>\<open>str.splitlines()\<close>; \<open>cur\<close> is the line read so far.\<close>

definition is_line_break :: "char \<Rightarrow> bool" where
  "is_line_break c \<longleftrightarrow> (let n = of_char c :: nat in (10 \<le> n \<and> n \<le> 13) \<or> (28 \<le> n \<and> n \<le> 30))"

fun split_lines :: "string \<Rightarrow> string \<Rightarrow> string list" where
  "split_lines cur [] = (if cur = [] then [] else [cur])"
| "split_lines cur (c # s) = (if is_line_break c then cur # split_lines [] s else split_lines (cur @ [c]) s)"

definition rstrip :: "string \<Rightarrow> string" where
  "rstrip s = rev (dropWhile is_space (rev s))"

definition WHITESPACE :: regex where
  "WHITESPACE = Many 1 None (one_of [CHR '' '', CHR 0x09])"

definition BLANK_LINES :: regex where
  "BLANK_LINES = Many 3 None (\<lambda>c. c = CHR 0x0A)"

definition normalize_text :: "string \<Rightarrow> string" where
  "normalize_text value =
     (let normalized = unify_newlines value;
          normalized = join_str [CHR 0x0A] (map (\<lambda>line. rstrip (sub WHITESPACE (\<lambda>_. '' '') line)) (split_lines [] normalized))
      in strip (sub BLANK_LINES (\<lambda>_. [CHR 0x0A, CHR 0x0A]) normalized))"

section \<open>Personal data, secrets and injection markers\<close>

definition digits :: "nat \<Rightarrow> regex" where
  "digits n = Many n (Some n) is_digit"

definition maybe :: "(char \<Rightarrow> bool) \<Rightarrow> regex" where
  "maybe p = Many 0 (Some 1) p"

definition separator :: "char \<Rightarrow> bool" where
  "separator c \<longleftrightarrow> is_space c \<or> one_of ''.-'' c"

definition ssn_separator :: "char \<Rightarrow> bool" where
  "ssn_separator c \<longleftrightarrow> is_space c \<or> c = CHR ''-''"

definition EMAIL :: regex where
  "EMAIL = seq [Edge, Many 1 None (\<lambda>c. is_alnum c \<or> one_of ''._%+-'' c), lit ''@'',
     Many 1 None (\<lambda>c. is_alnum c \<or> one_of ''.-'' c), lit ''.'', Many 2 None is_alpha, Edge]"

definition area_code :: regex where
  "area_code = seq [lit ''('', digits 3, lit '')'']"

definition PHONE :: regex where
  "PHONE = seq [NotBehind is_digit,
     alt [seq [maybe (\<lambda>c. c = CHR ''+''), lit ''1'', maybe separator, alt [area_code, digits 3],
               maybe separator, digits 3, maybe separator, digits 4],
          seq [area_code, maybe separator, digits 3, maybe separator, digits 4],
          seq [digits 3, Chars separator, digits 3, maybe separator, digits 4],
          seq [digits 3, maybe separator, digits 3, Chars separator, digits 4]],
     NotAhead is_digit]"

definition SSN :: regex where
  "SSN = seq [NotBehind is_digit, digits 3,
     alt [seq [Chars ssn_separator, digits 2, maybe ssn_separator], seq [digits 2, Chars ssn_separator]],
     digits 4, NotAhead is_digit]"

definition OPENAI_KEY :: regex where
  "OPENAI_KEY = seq [Edge, lit ''sk-'', Many 20 None (\<lambda>c. is_alnum c \<or> one_of ''_-'' c), Edge]"

definition BEARER :: regex where
  "BEARER = seq [Edge, lit_ci ''Bearer'', Many 1 None is_space, Many 20 None (\<lambda>c. is_alnum c \<or> one_of ''._~+-/='' c)]"

definition PII_PATTERNS :: "(string \<times> regex \<times> string) list" where
  "PII_PATTERNS =
     [(''email'', EMAIL, ''[EMAIL_REDACTED]''),
      (''phone'', PHONE, ''[PHONE_REDACTED]''),
      (''ssn'', SSN, ''[SSN_REDACTED]''),
      (''openai_key'', OPENAI_KEY, ''[SECRET_REDACTED]''),
      (''bearer'', BEARER, ''Bearer [SECRET_REDACTED]'')]"

definition INJECTION_MARKERS :: "(string \<times> regex) list" where
  "INJECTION_MARKERS =
     [(''ignore_instructions'',
       seq [lit_ci ''ignore'', Many 1 None is_space,
            opt (seq [lit_ci ''all'', Many 1 None is_space]),
            opt (seq [alt [lit_ci ''previous'', lit_ci ''prior''], Many 1 None is_space]),
            opt (seq [lit_ci ''system'', Many 1 None is_space]),
            lit_ci ''instructions'']),
      (''reveal_prompt'',
       seq [alt [lit_ci ''reveal'', lit_ci ''print'', lit_ci ''show''], Many 1 None is_space,
            opt (seq [lit_ci ''the'', Many 1 None is_space]),
            alt [lit_ci ''system'', lit_ci ''developer''], Many 1 None is_space, lit_ci ''prompt'']),
      (''credential_exfiltration'',
       seq [alt [lit_ci ''dump'', lit_ci ''exfiltrate'', lit_ci ''print''], Many 1 None is_space,
            Many 0 None (\<lambda>c. c \<noteq> CHR 0x0A),
            alt [lit_ci ''secret'', lit_ci ''token'', lit_ci ''credential'',
                 seq [lit_ci ''api'', maybe (one_of '' _-''), lit_ci ''key'']]])]"

section \<open>Bare numbers\<close>

definition AMBIGUOUS_NUMERIC :: regex where
  "AMBIGUOUS_NUMERIC = seq [NotBehind is_alnum, alt [digits 9, digits 10], NotAhead is_alnum]"

definition RESOLVED_NUMERIC :: "string list" where
  "RESOLVED_NUMERIC = [''epoch'', ''identifier'', ''phone'', ''ssn'']"

definition NUMERIC_DECLARATIONS_KEY :: string where
  "NUMERIC_DECLARATIONS_KEY = ''numeric_declarations''"

definition AMBIGUOUS_NUMERIC_PII_TYPE :: string where
  "AMBIGUOUS_NUMERIC_PII_TYPE = ''ambiguous_numeric''"

definition AMBIGUOUS_REPLACEMENT :: string where
  "AMBIGUOUS_REPLACEMENT = ''[AMBIGUOUS_NUMERIC_REDACTED]''"

definition KEPT_NUMERIC :: "string list" where
  "KEPT_NUMERIC = [''epoch'', ''identifier'']"

definition DECLARED_PII_REPLACEMENT :: "(string, string) dict" where
  "DECLARED_PII_REPLACEMENT = [(''phone'', ''[PHONE_REDACTED]''), (''ssn'', ''[SSN_REDACTED]'')]"

text \<open>Only a string can be one of the four kinds, so other values declare nothing.\<close>

definition numeric_declarations :: "(string, json) dict option \<Rightarrow> (string, string) dict" where
  "numeric_declarations context =
     (case dict_get (case context of None \<Rightarrow> [] | Some d \<Rightarrow> d) NUMERIC_DECLARATIONS_KEY of
        Some (JObj raw) \<Rightarrow>
          concat (map (\<lambda>(token, kind). case kind of JStr k \<Rightarrow> if k \<in> set RESOLVED_NUMERIC then [(token, k)] else [] | _ \<Rightarrow> []) raw)
      | _ \<Rightarrow> [])"

text \<open>The callback \<open>_resolve\<close>: the text a token becomes, the kind it reports, and whether it stays unresolved.\<close>

definition kept :: "(string, string) dict \<Rightarrow> string \<Rightarrow> bool" where
  "kept declarations token \<longleftrightarrow> (case dict_get declarations token of Some k \<Rightarrow> k \<in> set KEPT_NUMERIC | None \<Rightarrow> False)"

definition declared_pii :: "(string, string) dict \<Rightarrow> string \<Rightarrow> string option" where
  "declared_pii declarations token =
     (case dict_get declarations token of Some k \<Rightarrow> dict_get DECLARED_PII_REPLACEMENT k | None \<Rightarrow> None)"

definition resolve :: "(string, string) dict \<Rightarrow> string \<Rightarrow> string" where
  "resolve declarations token =
     (if kept declarations token then token
      else (case declared_pii declarations token of Some r \<Rightarrow> r | None \<Rightarrow> AMBIGUOUS_REPLACEMENT))"

definition resolved_type :: "(string, string) dict \<Rightarrow> string \<Rightarrow> string list" where
  "resolved_type declarations token =
     (if kept declarations token then []
      else if declared_pii declarations token \<noteq> None then [the (dict_get declarations token)]
      else [AMBIGUOUS_NUMERIC_PII_TYPE])"

definition unresolved :: "(string, string) dict \<Rightarrow> string \<Rightarrow> bool" where
  "unresolved declarations token \<longleftrightarrow> \<not> kept declarations token \<and> declared_pii declarations token = None"

section \<open>\<open>normalize_candidate\<close>\<close>

fun redact_pii :: "(string \<times> regex \<times> string) list \<Rightarrow> string list \<times> string \<Rightarrow> string list \<times> string" where
  "redact_pii [] st = st"
| "redact_pii ((pii_type, pattern, replacement) # ps) (found, text) =
     redact_pii ps (if search pattern text then (found @ [pii_type], sub pattern (\<lambda>_. replacement) text) else (found, text))"

definition digest_basis :: "(string, string) dict \<Rightarrow> string \<Rightarrow> string" where
  "digest_basis declarations redacted =
     sub AMBIGUOUS_NUMERIC (\<lambda>token. case declared_pii declarations token of Some r \<Rightarrow> r | None \<Rightarrow> token) redacted"

definition normalize_candidate ::
  "(string \<Rightarrow> digest) \<Rightarrow> (json \<Rightarrow> digest) \<Rightarrow> string \<Rightarrow> (string, json) dict option \<Rightarrow> normalization_result" where
  "normalize_candidate text_digest hash content context =
     (let normalized = normalize_text content;
          (pii_types, redacted) = redact_pii PII_PATTERNS ([], normalized);
          declarations = numeric_declarations context;
          tokens = find_all AMBIGUOUS_NUMERIC redacted;
          final = sub AMBIGUOUS_NUMERIC (resolve declarations) redacted in
      \<lparr>nr_normalized_content = normalized,
       nr_redacted_content = final,
       nr_original_digest = text_digest content,
       nr_normalized_digest = hash (JObj
         [(''content'', JStr (digest_basis declarations redacted)),
          (''context'', JObj (case context of None \<Rightarrow> [] | Some d \<Rightarrow> d))]),
       nr_pii_types = sort (remdups (pii_types @ concat (map (resolved_type declarations) tokens))),
       nr_safety_signals = map fst (filter (\<lambda>(name, pattern). search pattern normalized) INJECTION_MARKERS),
       nr_unresolved_ambiguous = filter (unresolved declarations) tokens\<rparr>)"

section \<open>The scan for bare numbers\<close>

text \<open>
  The reference: cut the text into maximal runs of letters and digits; a bare number is a run
  of nine or ten digits.
\<close>

definition bare_number :: "string \<Rightarrow> bool" where
  "bare_number t \<longleftrightarrow> list_all is_digit t \<and> length t \<in> {9, 10}"

function map_runs :: "(string \<Rightarrow> string) \<Rightarrow> string \<Rightarrow> string" where
  "map_runs f [] = []"
| "map_runs f (c # s) =
     (if is_alnum c
      then (let run = takeWhile is_alnum (c # s) in
            (if bare_number run then f run else run) @ map_runs f (dropWhile is_alnum (c # s)))
      else c # map_runs f s)"
  by pat_completeness auto

termination
  by (relation "measure (\<lambda>(f, s). length s)") (auto simp: le_imp_less_Suc length_dropWhile_le)

function bare_runs :: "string \<Rightarrow> string list" where
  "bare_runs [] = []"
| "bare_runs (c # s) =
     (if is_alnum c
      then (let run = takeWhile is_alnum (c # s) in
            (if bare_number run then [run] else []) @ bare_runs (dropWhile is_alnum (c # s)))
      else bare_runs s)"
  by pat_completeness auto

termination
  by (relation "measure length") (auto simp: le_imp_less_Suc length_dropWhile_le)

lemma digit_alnum: "is_digit c \<Longrightarrow> is_alnum c"
  by (simp add: is_alnum_def)

lemma takeWhile_digit_alnum: "takeWhile is_digit (takeWhile is_alnum s) = takeWhile is_digit s"
  by (induction s) (auto simp: is_alnum_def)

lemma next_after: "opt_char p (next_char (drop n s)) \<longleftrightarrow> n < length s \<and> p (s ! n)"
  by (cases "n < length s") (simp_all add: opt_char_def next_char_def flip: Cons_nth_drop_Suc)

lemma after_prefix:
  assumes "n \<le> length (takeWhile p s)"
  shows "n < length s \<and> p (s ! n) \<longleftrightarrow> n < length (takeWhile p s)"
proof (cases "n < length (takeWhile p s)")
  case True
  then have "p (takeWhile p s ! n)" by (metis nth_mem set_takeWhileD)
  with True show ?thesis by (simp add: takeWhile_nth less_le_trans [OF _ length_takeWhile_le])
next
  case False
  with assms have "n = length (takeWhile p s)" by simp
  then show ?thesis using nth_length_takeWhile by auto
qed

lemma bare_number_run:
  "bare_number (takeWhile is_alnum s) \<longleftrightarrow>
     length (takeWhile is_digit s) = length (takeWhile is_alnum s) \<and> length (takeWhile is_alnum s) \<in> {9, 10}"
proof -
  have "list_all is_digit t \<longleftrightarrow> length (takeWhile is_digit t) = length t" for t
    by (induction t) auto
  then show ?thesis by (metis bare_number_def takeWhile_digit_alnum)
qed

lemma length_digit_alnum: "length (takeWhile is_digit s) \<le> length (takeWhile is_alnum s)"
  by (metis takeWhile_digit_alnum length_takeWhile_le)

lemma matches_digits:
  "match_ends (digits n) x = (if n \<le> length (takeWhile is_digit (snd x)) then [advance n x] else [])"
  by (simp add: digits_def Let_def min_def)

text \<open>\<open>n\<close> digits not followed by a letter or digit are the whole run.\<close>

lemma matches_digits_end:
  "concat (map (match_ends (NotAhead is_alnum)) (match_ends (digits n) (b, s))) =
     (if length (takeWhile is_digit s) = n \<and> length (takeWhile is_alnum s) = n then [advance n (b, s)] else [])"
proof (cases "n \<le> length (takeWhile is_digit s)")
  case True
  then have "n \<le> length (takeWhile is_alnum s)" using length_digit_alnum [of s] by simp
  with True length_digit_alnum [of s] show ?thesis
    by (auto simp: matches_digits next_after after_prefix)
next
  case False
  then show ?thesis by (simp add: matches_digits)
qed

lemma advance_run:
  assumes "length (takeWhile p s) = n" and "0 < n"
  shows "advance n (b, s) = (Some (last (takeWhile p s)), dropWhile p s)"
proof -
  have "takeWhile p s \<noteq> []" using assms by auto
  then have "last (takeWhile p s) = s ! (n - 1)"
    using assms by (simp add: last_conv_nth takeWhile_nth)
  with assms show ?thesis by (simp add: advance_def dropWhile_eq_drop)
qed

lemma first_ambiguous:
  "first_match AMBIGUOUS_NUMERIC (b, s) =
     (if \<not> opt_char is_alnum b \<and> bare_number (takeWhile is_alnum s)
      then Some (Some (last (takeWhile is_alnum s)), dropWhile is_alnum s) else None)"
proof -
  have m: "match_ends AMBIGUOUS_NUMERIC (b, s) =
      (if opt_char is_alnum b then []
       else concat (map (match_ends (NotAhead is_alnum)) (match_ends (digits 9) (b, s)))
          @ concat (map (match_ends (NotAhead is_alnum)) (match_ends (digits 10) (b, s))))"
    by (simp add: AMBIGUOUS_NUMERIC_def del: match_ends.simps(7))
  show ?thesis
    unfolding first_match_def m matches_digits_end bare_number_run
    using advance_run [of is_alnum s 9 b] advance_run [of is_alnum s 10 b] by auto
qed

lemma bare_number_nonempty: "bare_number t \<Longrightarrow> t \<noteq> []"
  by (auto simp: bare_number_def)

lemma bare_number_last: "bare_number t \<Longrightarrow> is_alnum (last t)"
  using bare_number_nonempty [of t] by (auto simp: bare_number_def list_all_iff digit_alnum)

lemma take_run: "take (length s - length (dropWhile p s)) s = takeWhile p s"
proof -
  have "length s = length (takeWhile p s) + length (dropWhile p s)"
    by (metis length_append takeWhile_dropWhile_id)
  then have "length s - length (dropWhile p s) = length (takeWhile p s)" by simp
  then show ?thesis by (simp only: takeWhile_eq_take [symmetric])
qed

lemma takeWhile_dropWhile_nil [simp]: "takeWhile p (dropWhile p s) = []"
  by (induction s) auto

text \<open>
  Inside a run the scan copies to its end; outside one it does what the cutting does.
\<close>

lemma sub_ambiguous:
  "sub_from AMBIGUOUS_NUMERIC f b s =
     (if opt_char is_alnum b then takeWhile is_alnum s @ map_runs f (dropWhile is_alnum s) else map_runs f s)"
proof (induction s arbitrary: b rule: length_induct)
  case (1 s)
  show ?case
  proof (cases s)
    case Nil
    then show ?thesis by simp
  next
    case (Cons c s')
    have step: "sub_from AMBIGUOUS_NUMERIC f (Some c) s' =
        (if is_alnum c then takeWhile is_alnum s' @ map_runs f (dropWhile is_alnum s') else map_runs f s')"
      using 1 Cons by (simp add: opt_char_def)
    show ?thesis
    proof (cases "\<not> opt_char is_alnum b \<and> bare_number (takeWhile is_alnum s)")
      case False
      then have "first_match AMBIGUOUS_NUMERIC (b, c # s') = None"
        using Cons by (auto simp: first_ambiguous)
      with False step Cons show ?thesis by (auto simp: Let_def)
    next
      case True
      let ?run = "takeWhile is_alnum s" and ?rest = "dropWhile is_alnum s"
      have ne: "?run \<noteq> []" using True bare_number_nonempty by blast
      then have c: "is_alnum c" using Cons by (auto split: if_splits)
      have m: "first_match AMBIGUOUS_NUMERIC (b, c # s') = Some (Some (last ?run), ?rest)"
        unfolding Cons [symmetric] first_ambiguous using True by simp
      have less: "length ?rest < length s"
        using c Cons by (simp add: le_imp_less_Suc length_dropWhile_le)
      have rest: "sub_from AMBIGUOUS_NUMERIC f (Some (last ?run)) ?rest = map_runs f ?rest"
        using 1 less bare_number_last True by (simp add: opt_char_def dropWhile_idem [unfolded o_def])
      have "sub_from AMBIGUOUS_NUMERIC f b s = f ?run @ map_runs f ?rest"
        using m less rest Cons take_run [of s is_alnum] by simp
      moreover have "map_runs f s = f ?run @ map_runs f ?rest"
        using c True Cons by (simp add: Let_def)
      ultimately show ?thesis using True by simp
    qed
  qed
qed

lemma find_ambiguous:
  "find_from AMBIGUOUS_NUMERIC b s =
     (if opt_char is_alnum b then bare_runs (dropWhile is_alnum s) else bare_runs s)"
proof (induction s arbitrary: b rule: length_induct)
  case (1 s)
  show ?case
  proof (cases s)
    case Nil
    then show ?thesis by simp
  next
    case (Cons c s')
    have step: "find_from AMBIGUOUS_NUMERIC (Some c) s' =
        (if is_alnum c then bare_runs (dropWhile is_alnum s') else bare_runs s')"
      using 1 Cons by (simp add: opt_char_def)
    show ?thesis
    proof (cases "\<not> opt_char is_alnum b \<and> bare_number (takeWhile is_alnum s)")
      case False
      then have "first_match AMBIGUOUS_NUMERIC (b, c # s') = None"
        using Cons by (auto simp: first_ambiguous)
      with False step Cons show ?thesis by (auto simp: Let_def)
    next
      case True
      let ?run = "takeWhile is_alnum s" and ?rest = "dropWhile is_alnum s"
      have ne: "?run \<noteq> []" using True bare_number_nonempty by blast
      then have c: "is_alnum c" using Cons by (auto split: if_splits)
      have m: "first_match AMBIGUOUS_NUMERIC (b, c # s') = Some (Some (last ?run), ?rest)"
        unfolding Cons [symmetric] first_ambiguous using True by simp
      have less: "length ?rest < length s"
        using c Cons by (simp add: le_imp_less_Suc length_dropWhile_le)
      have rest: "find_from AMBIGUOUS_NUMERIC (Some (last ?run)) ?rest = bare_runs ?rest"
        using 1 less bare_number_last True by (simp add: opt_char_def dropWhile_idem [unfolded o_def])
      have "find_from AMBIGUOUS_NUMERIC b s = ?run # bare_runs ?rest"
        using m less rest Cons take_run [of s is_alnum] by simp
      moreover have "bare_runs s = ?run # bare_runs ?rest"
        using c True Cons by (simp add: Let_def)
      ultimately show ?thesis using True by simp
    qed
  qed
qed

lemma ambiguous_scan: "sub AMBIGUOUS_NUMERIC f s = map_runs f s" "find_all AMBIGUOUS_NUMERIC s = bare_runs s"
  by (simp_all add: sub_def find_all_def sub_ambiguous find_ambiguous opt_char_def)

text \<open>
  The scan for bare numbers is the cutting into runs. On every text the
  pattern's substitution and its list of matches are those of the reference definitions: a
  match is exactly a maximal run of letters and digits that consists of nine or ten digits,
  each is replaced where it stands, and nothing else changes.
\<close>

theorem ambiguous_scan_equals_runs:
  "sub AMBIGUOUS_NUMERIC f s = map_runs f s \<and> find_all AMBIGUOUS_NUMERIC s = bare_runs s"
  by (simp add: ambiguous_scan)

section \<open>What a redacted text still shows\<close>

text \<open>Cutting a text where a letter or digit does not meet another one.\<close>

lemma bare_runs_append:
  "x = [] \<or> \<not> is_alnum (last x) \<or> \<not> opt_char is_alnum (next_char y) \<Longrightarrow> bare_runs (x @ y) = bare_runs x @ bare_runs y"
proof (induction x rule: bare_runs.induct)
  case 1
  then show ?case by simp
next
  case (2 c s)
  show ?case
  proof (cases "is_alnum c")
    case False
    with 2 show ?thesis by (cases "s = []") (auto split: if_splits)
  next
    case True
    let ?run = "takeWhile is_alnum (c # s)" and ?rest = "dropWhile is_alnum (c # s)"
    have cut: "takeWhile is_alnum (c # s @ y) = ?run \<and> dropWhile is_alnum (c # s @ y) = ?rest @ y"
    proof (cases "list_all is_alnum (c # s)")
      case all: True
      then have "is_alnum (last (c # s))" by (simp add: list_all_iff)
      with 2(3) have "\<not> opt_char is_alnum (next_char y)" by auto
      then have "takeWhile is_alnum y = []" "dropWhile is_alnum y = y"
        by (cases y; simp add: opt_char_def next_char_def)+
      moreover have "takeWhile is_alnum (c # s) = c # s" "dropWhile is_alnum (c # s) = []"
        using all by (simp_all only: takeWhile_eq_all_conv dropWhile_eq_Nil_conv) (auto simp: list_all_iff)
      moreover have "takeWhile is_alnum ((c # s) @ y) = (c # s) @ takeWhile is_alnum y"
          "dropWhile is_alnum ((c # s) @ y) = dropWhile is_alnum y"
        using all by (simp_all only: list_all_iff takeWhile_append2 dropWhile_append2)
      ultimately show ?thesis by simp
    next
      case False
      then obtain d where d: "d \<in> set (c # s)" "\<not> is_alnum d" by (auto simp: list_all_iff)
      show ?thesis
        using takeWhile_append1 [of d "c # s" is_alnum y] dropWhile_append1 [of d "c # s" is_alnum y] d by simp
    qed
    have "?rest = [] \<or> last ?rest = last (c # s)"
      by (metis last_appendR takeWhile_dropWhile_id)
    with 2(3) have "?rest = [] \<or> \<not> is_alnum (last ?rest) \<or> \<not> opt_char is_alnum (next_char y)" by auto
    with 2(1) True have "bare_runs (?rest @ y) = bare_runs ?rest @ bare_runs y" by simp
    with True cut show ?thesis by (simp add: Let_def)
  qed
qed

text \<open>A replacement in brackets shows no bare number and meets no letter or digit.\<close>

definition bracketed :: "string \<Rightarrow> bool" where
  "bracketed r \<longleftrightarrow> r \<noteq> [] \<and> \<not> is_alnum (last r) \<and> bare_runs r = []"

lemma bare_runs_run: "list_all is_alnum t \<Longrightarrow> bare_runs t = (if bare_number t then [t] else [])"
proof (cases t)
  case (Cons c s)
  assume a: "list_all is_alnum t"
  with Cons have "takeWhile is_alnum s = s" "dropWhile is_alnum s = []"
    by (simp_all only: takeWhile_eq_all_conv dropWhile_eq_Nil_conv) (auto simp: list_all_iff)
  with a Cons show ?thesis by (simp add: Let_def del: takeWhile_eq_all_conv dropWhile_eq_Nil_conv)
qed (simp add: bare_number_def)

lemma next_dropWhile: "\<not> opt_char p (next_char (dropWhile p s))"
  by (induction s) (auto simp: opt_char_def next_char_def)

lemma next_map_runs: "\<not> opt_char is_alnum (next_char s) \<Longrightarrow> \<not> opt_char is_alnum (next_char (map_runs f s))"
  by (cases s) (auto simp: opt_char_def next_char_def)

lemma runs_after_redaction:
  "\<forall>t \<in> set (bare_runs s). f t = t \<or> bracketed (f t) \<Longrightarrow>
     bare_runs (map_runs f s) = filter (\<lambda>t. f t = t) (bare_runs s)"
proof (induction f s rule: map_runs.induct)
  case (1 f)
  then show ?case by simp
next
  case (2 f c s)
  show ?case
  proof (cases "is_alnum c")
    case False
    with 2 show ?thesis by simp
  next
    case True
    let ?run = "takeWhile is_alnum (c # s)" and ?rest = "dropWhile is_alnum (c # s)"
    have run: "list_all is_alnum ?run" by (auto simp: list_all_iff dest: set_takeWhileD)
    have b: "bare_runs (c # s) = (if bare_number ?run then [?run] else []) @ bare_runs ?rest"
      and m: "map_runs f (c # s) = (if bare_number ?run then f ?run else ?run) @ map_runs f ?rest"
      using True by (simp_all add: Let_def)
    have "\<forall>t \<in> set (bare_runs ?rest). f t = t \<or> bracketed (f t)" using 2(3) unfolding b by auto
    with 2(1) True have IH: "bare_runs (map_runs f ?rest) = filter (\<lambda>t. f t = t) (bare_runs ?rest)" by simp
    have cut: "bare_runs (x @ map_runs f ?rest) = bare_runs x @ bare_runs (map_runs f ?rest)" for x
      by (rule bare_runs_append) (simp only: next_map_runs next_dropWhile not_False_eq_True simp_thms)
    show ?thesis
    proof (cases "bare_number ?run")
      case False
      then show ?thesis unfolding b m by (simp only: if_False cut IH bare_runs_run [OF run]) simp
    next
      case bare: True
      with 2(3) have "f ?run = ?run \<or> bracketed (f ?run)" unfolding b by auto
      moreover have "f ?run \<noteq> ?run" if "bracketed (f ?run)"
      proof
        assume "f ?run = ?run"
        with that bare_runs_run [OF run] bare show False by (simp add: bracketed_def)
      qed
      ultimately show ?thesis unfolding b m using bare bare_runs_run [OF run]
        by (simp only: if_True cut IH) (auto simp: bracketed_def)
    qed
  qed
qed

lemma bracketed_replacements [simp]:
  "bracketed AMBIGUOUS_REPLACEMENT" "bracketed ''[PHONE_REDACTED]''" "bracketed ''[SSN_REDACTED]''"
  by (simp_all add: bracketed_def AMBIGUOUS_REPLACEMENT_def Let_def is_alnum_def is_alpha_def is_digit_def in_range_def
      bare_number_def)

lemma resolve_cases: "if kept d t then resolve d t = t else bracketed (resolve d t)"
  by (auto simp: resolve_def declared_pii_def DECLARED_PII_REPLACEMENT_def split: option.splits if_splits)

lemma resolve_or: "resolve d t = t \<or> bracketed (resolve d t)"
  using resolve_cases [of d t] by (cases "kept d t") auto

lemma resolve_kept: "bare_number t \<Longrightarrow> resolve d t = t \<longleftrightarrow> kept d t"
proof -
  assume t: "bare_number t"
  then have "list_all is_alnum t" by (auto simp: bare_number_def list_all_iff digit_alnum)
  with t have "\<not> bracketed t" by (simp add: bracketed_def bare_runs_run)
  then show ?thesis using resolve_cases [of d t] by (auto split: if_splits)
qed

lemma bare_runs_bare: "t \<in> set (bare_runs s) \<Longrightarrow> bare_number t"
  by (induction s rule: bare_runs.induct) (auto simp: Let_def split: if_splits)

lemma redact_pii_types:
  "t \<notin> set (map fst ps) \<Longrightarrow> t \<notin> set (fst st) \<Longrightarrow> t \<notin> set (fst (redact_pii ps st))"
  by (induction ps st rule: redact_pii.induct) auto

lemma builtin_pii_types: "AMBIGUOUS_NUMERIC_PII_TYPE \<notin> set (map fst PII_PATTERNS)"
  by (simp add: AMBIGUOUS_NUMERIC_PII_TYPE_def PII_PATTERNS_def)

lemma unresolved_type: "AMBIGUOUS_NUMERIC_PII_TYPE \<in> set (resolved_type d t) \<longleftrightarrow> unresolved d t"
  by (auto simp: resolved_type_def unresolved_def declared_pii_def DECLARED_PII_REPLACEMENT_def
      AMBIGUOUS_NUMERIC_PII_TYPE_def split: option.splits if_splits)

text \<open>
  Property C29: no undeclared bare number is stored. Whatever the content and whatever the
  context declares, the bare numbers the redacted content still shows are exactly those found
  after the other redactions that the context declares to be an epoch or an identifier; the
  undeclared ones are all reported as unresolved, and there are some exactly when the result
  names the blocking kind of personal data.
\<close>

theorem redaction_leaves_declared_numbers:
  "\<exists>tokens. find_all AMBIGUOUS_NUMERIC (snd (redact_pii PII_PATTERNS ([], normalize_text content))) = tokens
     \<and> find_all AMBIGUOUS_NUMERIC (nr_redacted_content (normalize_candidate td h content context))
         = filter (kept (numeric_declarations context)) tokens
     \<and> nr_unresolved_ambiguous (normalize_candidate td h content context)
         = filter (unresolved (numeric_declarations context)) tokens
     \<and> (nr_unresolved_ambiguous (normalize_candidate td h content context) = [] \<longleftrightarrow>
          AMBIGUOUS_NUMERIC_PII_TYPE \<notin> set (nr_pii_types (normalize_candidate td h content context)))"
proof -
  let ?d = "numeric_declarations context" and ?st = "redact_pii PII_PATTERNS ([], normalize_text content)"
  let ?tokens = "bare_runs (snd ?st)"
  have n: "nr_redacted_content (normalize_candidate td h content context) = map_runs (resolve ?d) (snd ?st)"
    "nr_unresolved_ambiguous (normalize_candidate td h content context) = filter (unresolved ?d) ?tokens"
    "set (nr_pii_types (normalize_candidate td h content context))
       = set (fst ?st) \<union> (\<Union>t \<in> set ?tokens. set (resolved_type ?d t))"
    by (simp_all add: normalize_candidate_def Let_def ambiguous_scan split: prod.split)
  have "bare_runs (map_runs (resolve ?d) (snd ?st)) = filter (\<lambda>t. resolve ?d t = t) ?tokens"
    by (rule runs_after_redaction) (simp add: resolve_or)
  also have "\<dots> = filter (kept ?d) ?tokens"
    by (rule filter_cong) (auto simp: resolve_kept dest: bare_runs_bare)
  finally have k: "bare_runs (map_runs (resolve ?d) (snd ?st)) = filter (kept ?d) ?tokens" .
  have "AMBIGUOUS_NUMERIC_PII_TYPE \<notin> set (fst ?st)"
    by (rule redact_pii_types [OF builtin_pii_types]) simp
  then show ?thesis
    by (auto simp: n k ambiguous_scan unresolved_type filter_empty_conv)
qed

end
