(* ===== verification/Curation.thy ===== *)
theory Curation
  imports Normalization
begin

text \<open>
  The curation policies: promotion (\<open>curation/promotion.py\<close>), reference-aware retention
  (\<open>curation/retention.py\<close>), and what the review policy makes of a reviewer's verdict on a
  quarantined record (\<open>curation/quarantine.py\<close>). Decay scores are reals; \<open>math.exp\<close> and
  \<open>math.log\<close> are the real functions.
\<close>

section \<open>Promotion\<close>

record promotion_decision =
  pd_approved :: bool
  pd_reasons :: "string list"
  pd_policy_version :: string

definition promotion_evaluate :: "memory_record \<Rightarrow> promotion_request \<Rightarrow> promotion_decision" where
  "promotion_evaluate r q =
     (let c = pr_target_class q;
          (approved, reason) =
            (if c = mr_memory_class r then (False, ''target class is unchanged'')
             else if pr_governance_approval q then (True, ''governance approval supplied'')
             else if pr_explicit_confirmation q \<and> c \<in> {IDENTITY, PREFERENCE, CONSTRAINT, DECISION}
             then (True, ''explicit confirmation supplied for governed memory class'')
             else if 3 \<le> pr_test_success_count q \<and> c = PROCEDURAL
             then (True, ''procedure has at least three test-backed successes'')
             else if 3 \<le> length (pr_supporting_record_ids q) \<and> c \<in> {SEMANTIC, INSIGHT, META}
             then (True, ''promotion is supported by at least three source records'')
             else (False, ''default deny: promotion evidence is insufficient''))
      in \<lparr>pd_approved = approved, pd_reasons = [reason], pd_policy_version = ''memory-promotion/v1''\<rparr>)"

text \<open>
  Promotion is denied by default. It is approved exactly when the class
  changes and governance approved it, or the target is a governed class the caller
  explicitly confirmed, or it is procedural with three test-backed successes, or a derived
  class with three supporting records.
\<close>

theorem promotion_default_deny:
  "pd_approved (promotion_evaluate r q) \<longleftrightarrow>
     pr_target_class q \<noteq> mr_memory_class r \<and>
     (pr_governance_approval q
      \<or> pr_explicit_confirmation q \<and> pr_target_class q \<in> {IDENTITY, PREFERENCE, CONSTRAINT, DECISION}
      \<or> 3 \<le> pr_test_success_count q \<and> pr_target_class q = PROCEDURAL
      \<or> 3 \<le> length (pr_supporting_record_ids q) \<and> pr_target_class q \<in> {SEMANTIC, INSIGHT, META})"
  by (simp add: promotion_evaluate_def Let_def)

section \<open>Retention\<close>

record retention_policy =
  rp_archive_expired_records :: bool
  rp_refresh_on_use :: bool
  rp_default_half_life_days :: real
  rp_class_half_life_days :: "(memory_class \<times> real) list"
  rp_never_archive_classes :: "memory_class list"
  rp_policy_version :: string

definition default_retention_policy :: retention_policy where
  "default_retention_policy =
     \<lparr>rp_archive_expired_records = True, rp_refresh_on_use = False, rp_default_half_life_days = 120,
      rp_class_half_life_days =
        [(EPISODIC, 30), (OBSERVATION, 60), (INSIGHT, 180), (SEMANTIC, 365), (META, 365)],
      rp_never_archive_classes = [IDENTITY, CONSTRAINT, DECISION, PROCEDURAL],
      rp_policy_version = RETENTION_POLICY_VERSION\<rparr>"

text \<open>\<open>dict(pairs).get(c, default)\<close>: the last pair of a class counts.\<close>

definition half_life_days :: "retention_policy \<Rightarrow> memory_class \<Rightarrow> real" where
  "half_life_days p c =
     (case dict_get (fold (\<lambda>(k, v). dict_set k v) (rp_class_half_life_days p) []) c of
        None \<Rightarrow> rp_default_half_life_days p
      | Some d \<Rightarrow> d)"

definition decay_score :: "retention_policy \<Rightarrow> memory_record \<Rightarrow> instant \<Rightarrow> real" where
  "decay_score p r now =
     (let age_days = max 0 (real_of_int (now - recorded_at (mr_temporal r)) / 1000000 / 86400)
      in exp (- ln 2 * age_days / half_life_days p (mr_memory_class r)))"

definition references_of :: "memory_record \<Rightarrow> uuid list" where
  "references_of r = remdups (mr_references r @ mr_supersedes r @ mr_conflicts_with r)"

definition bump :: "uuid \<Rightarrow> (uuid, nat) dict \<Rightarrow> (uuid, nat) dict" where
  "bump rid d = dict_set rid ((case dict_get d rid of None \<Rightarrow> 0 | Some n \<Rightarrow> n) + 1) d"

definition reference_counts :: "memory_record list \<Rightarrow> (uuid, nat) dict" where
  "reference_counts rs =
     (let known = map mr_record_id rs
      in fold (\<lambda>r d. fold bump (filter (\<lambda>t. t \<in> set known) (references_of r)) d) rs [])"

definition reference_count :: "(uuid, nat) dict \<Rightarrow> uuid \<Rightarrow> nat" where
  "reference_count counts rid = (case dict_get counts rid of None \<Rightarrow> 0 | Some n \<Rightarrow> n)"

definition retention_decide ::
  "retention_policy \<Rightarrow> (uuid, nat) dict \<Rightarrow> instant \<Rightarrow> memory_record \<Rightarrow> retention_decision" where
  "retention_decide p counts now r =
     (let decay = decay_score p r now;
          count = reference_count counts (mr_record_id r);
          expired = (case valid_to (mr_temporal r) of None \<Rightarrow> False | Some t \<Rightarrow> t \<le> now);
          (action, reason) =
            (if mr_memory_class r \<in> set (rp_never_archive_classes p)
             then (''retain'', ''class is protected from automatic archive'')
             else if \<not> rp_archive_expired_records p \<or> \<not> expired
             then (''retain'', ''record has not reached archive eligibility'')
             else if count \<noteq> 0
             then (''soft-expire'',
               ''record remains referenced; exclude from active retrieval but preserve linkage'')
             else (''archive'', ''record expired and has no incoming references''))
      in \<lparr>rd_record_id = mr_record_id r, rd_action = action, rd_reason = reason,
          rd_reference_count = count, rd_decay_score = decay\<rparr>)"

definition retention_evaluate ::
  "retention_policy \<Rightarrow> memory_record list \<Rightarrow> instant \<Rightarrow> retention_decision list" where
  "retention_evaluate p rs now = map (retention_decide p (reference_counts rs) now) rs"

lemma bump_count: "reference_count (bump rid d) t = reference_count d t + (if t = rid then 1 else 0)"
  by (simp add: reference_count_def bump_def)

lemma fold_bump_count: "reference_count (fold bump ts d) t = reference_count d t + count_list ts t"
  by (induction ts arbitrary: d) (auto simp: bump_count)

lemma count_list_distinct: "distinct xs \<Longrightarrow> count_list xs x = (if x \<in> set xs then 1 else 0)"
  by (induction xs) auto

lemma references_fold_count:
  "reference_count (fold (\<lambda>r d. fold bump (filter (\<lambda>t. t \<in> set known) (references_of r)) d) rs d) t
     = reference_count d t + (if t \<in> set known then length (filter (\<lambda>r. t \<in> set (references_of r)) rs) else 0)"
proof (induction rs arbitrary: d)
  case Nil
  then show ?case by simp
next
  case (Cons r rs)
  have "count_list (filter (\<lambda>t. t \<in> set known) (references_of r)) t
      = (if t \<in> set known \<and> t \<in> set (references_of r) then 1 else 0)"
    by (subst count_list_distinct) (auto simp: references_of_def)
  then show ?case by (simp add: Cons fold_bump_count)
qed

text \<open>The count of a record is the number of listed records that refer to it.\<close>

lemma reference_count_eq:
  "reference_count (reference_counts rs) t =
     (if t \<in> mr_record_id ` set rs then length (filter (\<lambda>r. t \<in> set (references_of r)) rs) else 0)"
proof -
  have "reference_count ([] :: (uuid, nat) dict) t = 0" by (simp add: reference_count_def)
  then show ?thesis
    unfolding reference_counts_def Let_def by (subst references_fold_count) auto
qed

text \<open>
  Retention archives a record exactly when it has expired, its class is not
  protected, archiving is enabled and no record of the evaluated set refers to it by
  reference, supersession or conflict; a record with a referrer or of a protected class is
  never archived, and every evaluated record gets one decision.
\<close>

theorem retention_archives_exactly:
  assumes "r \<in> set rs"
  shows "(rd_action (retention_decide p (reference_counts rs) now r) = ''archive'' \<longleftrightarrow>
       rp_archive_expired_records p \<and> mr_memory_class r \<notin> set (rp_never_archive_classes p)
       \<and> (\<exists>e. valid_to (mr_temporal r) = Some e \<and> e \<le> now)
       \<and> (\<forall>q \<in> set rs. mr_record_id r \<notin> set (mr_references q) \<union> set (mr_supersedes q) \<union> set (mr_conflicts_with q)))
    \<and> map rd_record_id (retention_evaluate p rs now) = map mr_record_id rs"
proof -
  have c: "reference_count (reference_counts rs) (mr_record_id r) = 0 \<longleftrightarrow>
      (\<forall>q \<in> set rs. mr_record_id r \<notin> set (mr_references q) \<union> set (mr_supersedes q) \<union> set (mr_conflicts_with q))"
    using assms by (auto simp: reference_count_eq filter_empty_conv references_of_def)
  have ids: "map rd_record_id (retention_evaluate p rs now) = map mr_record_id rs"
    by (simp add: retention_evaluate_def retention_decide_def Let_def)
  show ?thesis
    unfolding c [symmetric]
    using ids by (auto simp: retention_decide_def Let_def split: option.splits)
qed

text \<open>
  Decay scores are probabilities that start at one, never grow as a record
  ages, and halve with every half-life.
\<close>

theorem decay_score_bounds:
  assumes "0 < half_life_days p (mr_memory_class r)"
  shows "0 < decay_score p r now \<and> decay_score p r now \<le> 1
    \<and> (now \<le> recorded_at (mr_temporal r) \<longrightarrow> decay_score p r now = 1)
    \<and> (now \<le> later \<longrightarrow> decay_score p r later \<le> decay_score p r now)
    \<and> (real_of_int (now - recorded_at (mr_temporal r)) = half_life_days p (mr_memory_class r) * 86400 * 1000000
         \<longrightarrow> decay_score p r now = 1 / 2)"
proof -
  let ?h = "half_life_days p (mr_memory_class r)"
  let ?age = "\<lambda>t. max 0 (real_of_int (t - recorded_at (mr_temporal r)) / 1000000 / 86400)"
  have d: "decay_score p r t = exp (- (ln 2 * ?age t / ?h))" for t
    by (simp add: decay_score_def Let_def)
  have nn: "0 \<le> ln 2 * ?age t / ?h" for t
    using assms by simp
  have mono: "decay_score p r later \<le> decay_score p r now" if "now \<le> later"
  proof -
    have "?age now \<le> ?age later"
      using that by (intro max.mono order_refl divide_right_mono) simp_all
    then have "ln 2 * ?age now / ?h \<le> ln 2 * ?age later / ?h"
      using assms by (intro divide_right_mono mult_left_mono) simp_all
    then show ?thesis by (simp add: d)
  qed
  have half: "decay_score p r now = 1 / 2"
    if "real_of_int (now - recorded_at (mr_temporal r)) = ?h * 86400 * 1000000"
  proof -
    from that assms have "?age now = ?h" by simp
    with assms have "decay_score p r now = exp (- ln 2)" by (simp add: d)
    then show ?thesis by (simp add: exp_minus inverse_eq_divide)
  qed
  have one: "decay_score p r now = 1" if "now \<le> recorded_at (mr_temporal r)"
  proof -
    from that have "?age now = 0" by (simp add: max_def divide_le_0_iff)
    then show ?thesis by (simp add: d)
  qed
  from nn mono half one show ?thesis by (simp add: d)
qed

section \<open>Quarantine review\<close>

definition pii_blocker :: "review_policy \<Rightarrow> string \<Rightarrow> string list" where
  "pii_blocker p t =
     (if t \<in> set (qp_blocker_pii_types p)
      then [''record carried a credential-shaped value ('' @ t @ '')'']
      else if t = AMBIGUOUS_NUMERIC_PII_TYPE
      then [''record carried an undeclared ambiguous numeric value ('' @ t @ '')'']
      else [])"

definition review_blockers :: "review_verdict \<Rightarrow> memory_record \<Rightarrow> review_policy \<Rightarrow> string list" where
  "review_blockers v r p =
     rv_blockers v
     @ concat (map (pii_blocker p) (get_strings (mr_metadata r) ''pii_types''))
     @ (if mr_memory_class r \<in> set EXPLICIT_EVIDENCE_CLASSES \<and> list_ex is_caller_asserted_explicit (mr_evidence r)
        then [class_value (mr_memory_class r) @ '' memory rests on caller-asserted explicit evidence'']
        else [])
     @ concat (map (\<lambda>signal. if signal \<in> set (qp_blocker_safety_signals p)
                             then [''admission flagged '' @ signal] else [])
         (get_strings (mr_metadata r) ''safety_signals''))"

lemma pii_blocker_Nil: "pii_blocker p t = [] \<longleftrightarrow> t \<notin> set (qp_blocker_pii_types p) \<and> t \<noteq> AMBIGUOUS_NUMERIC_PII_TYPE"
  by (simp add: pii_blocker_def)

lemma review_blockers_Nil:
  "review_blockers v r p = [] \<longleftrightarrow>
      rv_blockers v = []
      \<and> (\<forall>t \<in> set (get_strings (mr_metadata r) ''pii_types'').
           t \<notin> set (qp_blocker_pii_types p) \<and> t \<noteq> AMBIGUOUS_NUMERIC_PII_TYPE)
      \<and> (\<forall>s \<in> set (get_strings (mr_metadata r) ''safety_signals''). s \<notin> set (qp_blocker_safety_signals p))
      \<and> \<not> (mr_memory_class r \<in> {IDENTITY, PREFERENCE} \<and> list_ex is_caller_asserted_explicit (mr_evidence r))"
proof -
  have pii: "concat (map (pii_blocker p) ts) = [] \<longleftrightarrow>
      (\<forall>t \<in> set ts. t \<notin> set (qp_blocker_pii_types p) \<and> t \<noteq> AMBIGUOUS_NUMERIC_PII_TYPE)" for ts
    by (induction ts) (simp_all add: pii_blocker_Nil)
  have sig: "concat (map (\<lambda>signal. if signal \<in> set (qp_blocker_safety_signals p)
      then [''admission flagged '' @ signal] else []) ts) = [] \<longleftrightarrow>
      (\<forall>s \<in> set ts. s \<notin> set (qp_blocker_safety_signals p))" for ts
    by (induction ts) simp_all
  have cls: "c \<in> set EXPLICIT_EVIDENCE_CLASSES \<longleftrightarrow> c \<in> {IDENTITY, PREFERENCE}" for c
    by (simp add: EXPLICIT_EVIDENCE_CLASSES_def)
  show ?thesis
    unfolding review_blockers_def append_is_Nil_conv pii sig cls by simp
qed

text \<open>The numbers the appended reason interpolates are left out of it.\<close>

definition apply_policy :: "review_verdict \<Rightarrow> memory_record \<Rightarrow> review_policy \<Rightarrow> review_verdict" where
  "apply_policy v r p =
     (let blockers = review_blockers v r p in
      if blockers \<noteq> [] then v\<lparr>rv_verdict := V_ESCALATE, rv_blockers := dedup blockers\<rparr>
      else if rv_verdict v = V_RELEASE \<and> rv_confidence v < qp_release_min_confidence p
      then v\<lparr>rv_verdict := V_HOLD,
             rv_reasons := rv_reasons v @ [''release confidence is below the policy floor'']\<rparr>
      else v)"

text \<open>
  A release that clears the review policy came from a confident reviewer who
  named no blocker, about a record that carries no blocking credential type, no undeclared
  ambiguous number and no blocking safety signal, and that does not rest on a caller's own
  assertion for an identity or preference; anything else that blocks escalates to a person.
\<close>

theorem review_release_is_clean:
  "(rv_verdict (apply_policy v r p) = V_RELEASE \<longleftrightarrow>
      rv_verdict v = V_RELEASE \<and> rv_blockers v = [] \<and> qp_release_min_confidence p \<le> rv_confidence v
      \<and> (\<forall>t \<in> set (get_strings (mr_metadata r) ''pii_types'').
           t \<notin> set (qp_blocker_pii_types p) \<and> t \<noteq> AMBIGUOUS_NUMERIC_PII_TYPE)
      \<and> (\<forall>s \<in> set (get_strings (mr_metadata r) ''safety_signals''). s \<notin> set (qp_blocker_safety_signals p))
      \<and> \<not> (mr_memory_class r \<in> {IDENTITY, PREFERENCE} \<and> list_ex is_caller_asserted_explicit (mr_evidence r)))
   \<and> (review_blockers v r p \<noteq> [] \<longrightarrow> requires_human (apply_policy v r p))
   \<and> rv_record_id (apply_policy v r p) = rv_record_id v"
proof -
  have m: "rv_verdict (apply_policy v r p) = V_RELEASE \<longleftrightarrow>
      rv_verdict v = V_RELEASE \<and> review_blockers v r p = [] \<and> qp_release_min_confidence p \<le> rv_confidence v"
    by (auto simp: apply_policy_def Let_def)
  have h: "requires_human (apply_policy v r p)" if "review_blockers v r p \<noteq> []"
    using that by (simp add: apply_policy_def requires_human_def)
  have i: "rv_record_id (apply_policy v r p) = rv_record_id v"
    by (simp add: apply_policy_def Let_def)
  show ?thesis
    using h i unfolding m review_blockers_Nil by blast
qed

section \<open>Witnesses\<close>

definition smp_expired :: memory_record where
  "smp_expired = (smp_record 1 ACTIVE)\<lparr>mr_temporal := smp_temporal\<lparr>valid_to := Some 50\<rparr>\<rparr>"

theorem retention_archives_exactly_witness:
  "rd_action (retention_decide default_retention_policy (reference_counts [smp_expired]) 60 smp_expired)
     = ''archive''"
  using retention_archives_exactly [of smp_expired "[smp_expired]" default_retention_policy 60]
  by (simp add: smp_expired_def default_retention_policy_def)

theorem decay_score_bounds_witness:
  "decay_score default_retention_policy smp_expired (5 + 365 * 86400000000) = 1 / 2"
proof -
  have h: "half_life_days default_retention_policy (mr_memory_class smp_expired) = 365"
    by (simp add: half_life_days_def default_retention_policy_def smp_expired_def)
  then have "0 < half_life_days default_retention_policy (mr_memory_class smp_expired)" by simp
  from decay_score_bounds [OF this, of "5 + 365 * 86400000000" 0] h show ?thesis
    by (simp add: smp_expired_def)
qed

definition smp_verdict :: review_verdict where
  "smp_verdict =
     \<lparr>rv_record_id = 1, rv_verdict = V_RELEASE, rv_confidence = 1, rv_reasons = [''benign''],
      rv_blockers = [], rv_reviewer = ''rev'', rv_model = None, rv_policy_version = ''v1'',
      rv_reviewed_at = 6\<rparr>"

theorem review_release_is_clean_witness:
  "rv_verdict (apply_policy smp_verdict
      ((smp_record 1 QUARANTINED)\<lparr>mr_metadata := [(''pii_types'', JList [JStr ''email''])]\<rparr>)
      default_review_policy) = V_RELEASE
   \<and> requires_human (apply_policy smp_verdict
      ((smp_record 1 QUARANTINED)\<lparr>mr_metadata := [(''pii_types'', JList [JStr ''bearer''])]\<rparr>)
      default_review_policy)"
proof -
  let ?a = "(smp_record 1 QUARANTINED)\<lparr>mr_metadata := [(''pii_types'', JList [JStr ''email''])]\<rparr>"
  let ?b = "(smp_record 1 QUARANTINED)\<lparr>mr_metadata := [(''pii_types'', JList [JStr ''bearer''])]\<rparr>"
  have "review_blockers smp_verdict ?b default_review_policy \<noteq> []"
    by (simp add: review_blockers_def get_strings_def pii_blocker_def default_review_policy_def)
  with review_release_is_clean [of smp_verdict ?b default_review_policy]
    review_release_is_clean [of smp_verdict ?a default_review_policy]
  show ?thesis
    by (simp add: smp_verdict_def default_review_policy_def get_strings_def AMBIGUOUS_NUMERIC_PII_TYPE_def)
qed

end
