(* ===== verification/Lineage.thy ===== *)
theory Lineage
  imports StoreInvariant
begin

text \<open>
  Lineage replay, \<open>lineage/replay.py\<close>: a depth-first walk from a record to its parents
  (superseded, referenced, conflicting and derived-from records) inside one tenant and
  namespace, which lists the records in post-order and reports orphans and cycles. The walk
  is total: every nested visit puts another stored record on the path. Python's recursion
  limit is not modelled.
\<close>

section \<open>The walk\<close>

datatype lineage_issue =
    LineageCycle uuid
  | LineageOrphan uuid uuid

record lineage_state =
  lg_issues :: "lineage_issue list"
  lg_edges :: "(uuid \<times> uuid \<times> string) list"
  lg_visited :: "uuid list"
  lg_ordered :: "uuid list"

definition source_uuid :: "string option \<Rightarrow> uuid option" where
  "source_uuid v = (case v of None \<Rightarrow> None | Some s \<Rightarrow> if s = [] then None else uuid_parse s)"

definition lineage_parents :: "memory_record \<Rightarrow> (uuid \<times> string) list" where
  "lineage_parents r =
     dedup (map (\<lambda>i. (i, ''supersedes'')) (mr_supersedes r)
       @ map (\<lambda>i. (i, ''references'')) (mr_references r)
       @ map (\<lambda>i. (i, ''conflicts_with'')) (mr_conflicts_with r)
       @ (case source_uuid (pv_source_id (mr_provenance r)) of
            None \<Rightarrow> []
          | Some i \<Rightarrow> [(i, ''derived_from'')]))"

text \<open>
  \<open>active\<close> is the path of the walk, the set of that name in the source: an identifier is
  added before its parents are visited and removed after.
\<close>

function (sequential)
  lineage_visit :: "(uuid, memory_record) dict \<Rightarrow> uuid \<Rightarrow> uuid list \<Rightarrow> uuid \<Rightarrow> lineage_state \<Rightarrow> lineage_state" and
  lineage_visit_parents ::
    "(uuid, memory_record) dict \<Rightarrow> uuid \<Rightarrow> uuid list \<Rightarrow> uuid \<Rightarrow> (uuid \<times> string) list \<Rightarrow> lineage_state \<Rightarrow> lineage_state"
where
  "lineage_visit by_id start active rid st =
     (if rid \<in> set active then st\<lparr>lg_issues := lg_issues st @ [LineageCycle rid]\<rparr>
      else if rid \<in> set (lg_visited st) then st
      else (case dict_get by_id rid of
        None \<Rightarrow> st\<lparr>lg_issues := lg_issues st @ [LineageOrphan start rid]\<rparr>
      | Some r \<Rightarrow>
          (let st' = lineage_visit_parents by_id start (rid # active) rid (lineage_parents r) st
           in st'\<lparr>lg_visited := rid # lg_visited st', lg_ordered := lg_ordered st' @ [rid]\<rparr>)))"
| "lineage_visit_parents by_id start active rid [] st = st"
| "lineage_visit_parents by_id start active rid ((p, rel) # ps) st =
     lineage_visit_parents by_id start active rid ps
       (lineage_visit by_id start active p (st\<lparr>lg_edges := lg_edges st @ [(rid, p, rel)]\<rparr>))"
  by pat_completeness auto
termination
proof (relation "inv_image (less_than <*lex*> less_than)
    (\<lambda>x. case x of
       Inl (by_id, start, active, rid, st) \<Rightarrow> (card (set (dict_keys by_id) - set active), 0)
     | Inr (by_id, start, active, rid, ps, st) \<Rightarrow> (card (set (dict_keys by_id) - set active), Suc (length ps)))",
    goal_cases)
  case 1
  show ?case by (intro wf_inv_image wf_lex_prod wf_less_than)
next
  case (2 by_id start active rid st r)
  then have "rid \<in> set (dict_keys by_id) - set active"
    by (auto simp: map_of_eq_None_iff dest: map_of_SomeD intro: rev_image_eqI)
  then have "card (set (dict_keys by_id) - set (rid # active)) < card (set (dict_keys by_id) - set active)"
    by (intro psubset_card_mono) auto
  then show ?case by simp
next
  case 3
  then show ?case by simp
next
  case 4
  then show ?case by simp
qed

record lineage_replay =
  lrp_root_record_id :: uuid
  lrp_ordered_record_ids :: "uuid list"
  lrp_edges :: "(uuid \<times> uuid \<times> string) list"
  lrp_issues :: "lineage_issue list"
  lrp_complete :: bool

definition lineage_index :: "string \<Rightarrow> string \<Rightarrow> store \<Rightarrow> (uuid, memory_record) dict" where
  "lineage_index tenant ns s =
     dict_set_all mr_record_id (list_records tenant ns all_memory_states (Some 100000) s) []"

definition lineage_run :: "(uuid, memory_record) dict \<Rightarrow> uuid \<Rightarrow> lineage_state" where
  "lineage_run by_id start =
     lineage_visit by_id start [] start \<lparr>lg_issues = [], lg_edges = [], lg_visited = [], lg_ordered = []\<rparr>"

definition replay :: "string \<Rightarrow> string \<Rightarrow> uuid \<Rightarrow> store \<Rightarrow> lineage_replay" where
  "replay tenant ns start s =
     (let st = lineage_run (lineage_index tenant ns s) start
      in \<lparr>lrp_root_record_id = start, lrp_ordered_record_ids = lg_ordered st, lrp_edges = lg_edges st,
          lrp_issues = lg_issues st, lrp_complete = (lg_issues st = [])\<rparr>)"

section \<open>What the walk computes\<close>

definition parent_rel :: "(uuid, memory_record) dict \<Rightarrow> (uuid \<times> uuid) set" where
  "parent_rel by_id = {(a, b). \<exists>r rel. dict_get by_id a = Some r \<and> (b, rel) \<in> set (lineage_parents r)}"

fun topo_from :: "(uuid \<times> uuid) set \<Rightarrow> uuid set \<Rightarrow> uuid list \<Rightarrow> bool" where
  "topo_from R seen [] = True"
| "topo_from R seen (x # xs) \<longleftrightarrow> (\<forall>b. (x, b) \<in> R \<longrightarrow> b \<in> seen) \<and> topo_from R (insert x seen) xs"

lemma topo_append: "topo_from R seen (xs @ ys) \<longleftrightarrow> topo_from R seen xs \<and> topo_from R (seen \<union> set xs) ys"
  by (induction xs arbitrary: seen) (simp_all add: insert_commute)

fun issue_sound :: "(uuid, memory_record) dict \<Rightarrow> uuid \<Rightarrow> lineage_issue \<Rightarrow> bool" where
  "issue_sound by_id start (LineageCycle x) \<longleftrightarrow> (start, x) \<in> (parent_rel by_id)\<^sup>* \<and> (x, x) \<in> (parent_rel by_id)\<^sup>+"
| "issue_sound by_id start (LineageOrphan y x) \<longleftrightarrow> y = start \<and> (start, x) \<in> (parent_rel by_id)\<^sup>* \<and> dict_get by_id x = None"

text \<open>The invariant of the walk on the path \<open>active\<close>.\<close>

definition walk_ok :: "(uuid, memory_record) dict \<Rightarrow> uuid \<Rightarrow> uuid list \<Rightarrow> lineage_state \<Rightarrow> bool" where
  "walk_ok by_id start active st \<longleftrightarrow>
     set (lg_visited st) = set (lg_ordered st) \<and> distinct (lg_ordered st) \<and>
     set active \<inter> set (lg_ordered st) = {} \<and>
     (lg_issues st = [] \<longrightarrow> topo_from (parent_rel by_id) {} (lg_ordered st)) \<and>
     (\<forall>i \<in> set (lg_issues st). issue_sound by_id start i) \<and>
     (\<forall>x \<in> set (lg_ordered st). (start, x) \<in> (parent_rel by_id)\<^sup>* \<and> dict_get by_id x \<noteq> None)"

lemma walk_ok_edges [simp]: "walk_ok by_id start active (st\<lparr>lg_edges := e\<rparr>) = walk_ok by_id start active st"
  by (simp add: walk_ok_def)

lemma walk_ok_issue:
  "walk_ok by_id start active st \<Longrightarrow> issue_sound by_id start i \<Longrightarrow>
     walk_ok by_id start active (st\<lparr>lg_issues := lg_issues st @ [i]\<rparr>)"
  by (auto simp: walk_ok_def)

definition walk_step :: "lineage_state \<Rightarrow> lineage_state \<Rightarrow> bool" where
  "walk_step st st' \<longleftrightarrow> set (lg_ordered st) \<subseteq> set (lg_ordered st') \<and> (lg_issues st' = [] \<longrightarrow> lg_issues st = [])"

lemma walk_step_trans: "walk_step a b \<Longrightarrow> walk_step b c \<Longrightarrow> walk_step a c"
  by (auto simp: walk_step_def)

lemma walk:
  shows "walk_ok by_id start active st \<Longrightarrow> (start, rid) \<in> (parent_rel by_id)\<^sup>* \<Longrightarrow>
           (\<forall>a \<in> set active. (a, rid) \<in> (parent_rel by_id)\<^sup>+) \<Longrightarrow>
           walk_ok by_id start active (lineage_visit by_id start active rid st)
           \<and> walk_step st (lineage_visit by_id start active rid st)
           \<and> (lg_issues (lineage_visit by_id start active rid st) = [] \<longrightarrow>
                rid \<in> set (lg_ordered (lineage_visit by_id start active rid st)))"
    and "walk_ok by_id start active st \<Longrightarrow> (start, rid) \<in> (parent_rel by_id)\<^sup>* \<Longrightarrow>
           (\<forall>a \<in> set active. (a, rid) \<in> (parent_rel by_id)\<^sup>*) \<Longrightarrow>
           (\<forall>(p, rel) \<in> set ps. (rid, p) \<in> parent_rel by_id) \<Longrightarrow>
           walk_ok by_id start active (lineage_visit_parents by_id start active rid ps st)
           \<and> walk_step st (lineage_visit_parents by_id start active rid ps st)
           \<and> (lg_issues (lineage_visit_parents by_id start active rid ps st) = [] \<longrightarrow>
                fst ` set ps \<subseteq> set (lg_ordered (lineage_visit_parents by_id start active rid ps st)))"
proof (induction by_id start active rid st and by_id start active rid ps st
    rule: lineage_visit_lineage_visit_parents.induct)
  case (1 by_id start active rid st)
  note visit = lineage_visit.simps [of by_id start active rid st]
  show ?case
  proof (cases "rid \<in> set active \<or> rid \<in> set (lg_visited st)")
    case True
    with 1 show ?thesis
      by (auto simp: visit walk_step_def intro!: walk_ok_issue) (auto simp: walk_ok_def)
  next
    case False
    show ?thesis
    proof (cases "dict_get by_id rid")
      case None
      with False 1 show ?thesis
        by (auto simp: visit walk_step_def intro!: walk_ok_issue)
    next
      case (Some r)
      let ?st = "lineage_visit_parents by_id start (rid # active) rid (lineage_parents r) st"
      have ps: "\<forall>(p, rel) \<in> set (lineage_parents r). (rid, p) \<in> parent_rel by_id"
        using Some by (auto simp: parent_rel_def)
      have "walk_ok by_id start (rid # active) st"
        using 1(2) False by (auto simp: walk_ok_def)
      moreover have "\<forall>a \<in> set (rid # active). (a, rid) \<in> (parent_rel by_id)\<^sup>*"
        using 1(4) by (auto intro: trancl_into_rtrancl)
      ultimately have IH: "walk_ok by_id start (rid # active) ?st" "walk_step st ?st"
          "lg_issues ?st = [] \<longrightarrow> fst ` set (lineage_parents r) \<subseteq> set (lg_ordered ?st)"
        using 1(1) [OF _ _ Some] False 1(3) ps by blast+
      have par: "(rid, b) \<in> parent_rel by_id \<Longrightarrow> b \<in> fst ` set (lineage_parents r)" for b
        using Some by (force simp: parent_rel_def)
      have eq: "lineage_visit by_id start active rid st
          = ?st\<lparr>lg_visited := rid # lg_visited ?st, lg_ordered := lg_ordered ?st @ [rid]\<rparr>"
        using False Some by (simp add: visit Let_def)
      show ?thesis
        unfolding eq using IH par 1(3) Some False
        by (auto simp: walk_ok_def walk_step_def topo_append)
    qed
  qed
next
  case (2 by_id start active rid st)
  then show ?case by (simp add: walk_step_def)
next
  case (3 by_id start active rid p rel ps st)
  let ?e = "st\<lparr>lg_edges := lg_edges st @ [(rid, p, rel)]\<rparr>"
  let ?v = "lineage_visit by_id start active p ?e"
  have edge: "(rid, p) \<in> parent_rel by_id" using 3(6) by simp
  have "walk_ok by_id start active ?v \<and> walk_step ?e ?v \<and> (lg_issues ?v = [] \<longrightarrow> p \<in> set (lg_ordered ?v))"
    using 3(3-5) edge
    by (intro 3(1)) (auto intro: rtrancl_into_rtrancl rtrancl_into_trancl1)
  moreover from this have "walk_ok by_id start active (lineage_visit_parents by_id start active rid ps ?v)
      \<and> walk_step ?v (lineage_visit_parents by_id start active rid ps ?v)
      \<and> (lg_issues (lineage_visit_parents by_id start active rid ps ?v) = [] \<longrightarrow>
           fst ` set ps \<subseteq> set (lg_ordered (lineage_visit_parents by_id start active rid ps ?v)))"
    using 3(4-6) by (intro 3(2)) auto
  moreover have "walk_step st ?e" by (simp add: walk_step_def)
  ultimately show ?case
    by (auto simp: walk_step_def)
qed

lemma lineage_run_ok:
  "walk_ok by_id start [] (lineage_run by_id start)"
  "lg_issues (lineage_run by_id start) = [] \<Longrightarrow> start \<in> set (lg_ordered (lineage_run by_id start))"
  using walk(1) [of by_id start "[]" "\<lparr>lg_issues = [], lg_edges = [], lg_visited = [], lg_ordered = []\<rparr>" start]
  by (simp_all add: lineage_run_def walk_ok_def)

text \<open>In a topological order every proper ancestor of a record comes strictly before it.\<close>

lemma topo_before:
  assumes "topo_from R {} xs" and "(x, y) \<in> R\<^sup>+"
  shows "xs = us @ x # vs \<Longrightarrow> y \<in> set us"
  using assms(2)
proof (induction rule: trancl_induct)
  case (base y)
  with assms(1) show ?case by (simp add: topo_append)
next
  case (step y z)
  from step.IH [OF step.prems] obtain as bs where us: "us = as @ y # bs"
    by (meson split_list)
  with step.prems assms(1) have "topo_from R {} (as @ y # bs @ x # vs)" by simp
  then have "(y, z) \<in> R \<longrightarrow> z \<in> set as" by (simp add: topo_append)
  with step.hyps(2) us show ?case by simp
qed

lemma topo_acyclic:
  assumes "topo_from R {} xs" "distinct xs" "x \<in> set xs"
  shows "(x, x) \<notin> R\<^sup>+"
proof
  assume "(x, x) \<in> R\<^sup>+"
  moreover from assms(3) obtain us vs where xs: "xs = us @ x # vs" by (meson split_list)
  ultimately have "x \<in> set us" using topo_before [OF assms(1)] by blast
  with assms(2) xs show False by simp
qed

lemma topo_closed:
  assumes "topo_from R {} xs" "x \<in> set xs" "(x, y) \<in> R\<^sup>*"
  shows "y \<in> set xs"
proof (cases "x = y")
  case True
  with assms(2) show ?thesis by simp
next
  case False
  with assms(3) have "(x, y) \<in> R\<^sup>+" by (metis rtranclD)
  moreover from assms(2) obtain us vs where "xs = us @ x # vs" by (meson split_list)
  ultimately show ?thesis using topo_before [OF assms(1)] by fastforce
qed

lemma replay_complete_iff:
  "lrp_complete (replay tenant ns start s) \<longleftrightarrow>
     (\<forall>x. (start, x) \<in> (parent_rel (lineage_index tenant ns s))\<^sup>* \<longrightarrow>
        dict_get (lineage_index tenant ns s) x \<noteq> None
        \<and> (x, x) \<notin> (parent_rel (lineage_index tenant ns s))\<^sup>+)"
proof -
  let ?d = "lineage_index tenant ns s"
  let ?R = "parent_rel ?d"
  let ?st = "lineage_run ?d start"
  note ok = lineage_run_ok [of ?d start]
  have iff: "lrp_complete (replay tenant ns start s) \<longleftrightarrow> lg_issues ?st = []"
    by (simp add: replay_def Let_def)
  show ?thesis
  proof
    assume "lrp_complete (replay tenant ns start s)"
    with iff ok have t: "topo_from ?R {} (lg_ordered ?st)" and d: "distinct (lg_ordered ?st)"
      and m: "start \<in> set (lg_ordered ?st)"
      and known: "\<forall>x \<in> set (lg_ordered ?st). dict_get ?d x \<noteq> None"
      by (auto simp: walk_ok_def)
    show "\<forall>x. (start, x) \<in> ?R\<^sup>* \<longrightarrow> dict_get ?d x \<noteq> None \<and> (x, x) \<notin> ?R\<^sup>+"
      using topo_closed [OF t m] topo_acyclic [OF t d] known by blast
  next
    assume all: "\<forall>x. (start, x) \<in> ?R\<^sup>* \<longrightarrow> dict_get ?d x \<noteq> None \<and> (x, x) \<notin> ?R\<^sup>+"
    have "\<not> issue_sound ?d start i" for i
      using all by (cases i) auto
    moreover have "\<forall>i \<in> set (lg_issues ?st). issue_sound ?d start i"
      using ok(1) by (simp add: walk_ok_def)
    ultimately have "lg_issues ?st = []"
      by (metis list.set_intros(1) neq_Nil_conv)
    with iff show "lrp_complete (replay tenant ns start s)" by simp
  qed
qed

text \<open>
  Property C34: a replay is complete exactly when every ancestor reachable from the root is
  a stored record of the namespace and none of them is its own ancestor: orphans and cycles
  are all reported, and nothing else is.
\<close>

theorem lineage_complete_iff:
  "lrp_complete (replay tenant ns start s) \<longleftrightarrow>
     (\<forall>x. (start, x) \<in> (parent_rel (lineage_index tenant ns s))\<^sup>* \<longrightarrow>
        dict_get (lineage_index tenant ns s) x \<noteq> None
        \<and> (x, x) \<notin> (parent_rel (lineage_index tenant ns s))\<^sup>+)"
  by (rule replay_complete_iff)

text \<open>
  A complete replay lists the root and exactly its ancestors, each once, and
  every record after all the records it derives from; the walk ends for every store.
\<close>

theorem lineage_order:
  assumes "lrp_complete (replay tenant ns start s)"
  shows "distinct (lrp_ordered_record_ids (replay tenant ns start s))
    \<and> set (lrp_ordered_record_ids (replay tenant ns start s))
        = {x. (start, x) \<in> (parent_rel (lineage_index tenant ns s))\<^sup>*}
    \<and> (\<forall>us x vs y. lrp_ordered_record_ids (replay tenant ns start s) = us @ x # vs \<longrightarrow>
         (x, y) \<in> (parent_rel (lineage_index tenant ns s))\<^sup>+ \<longrightarrow> y \<in> set us)"
proof -
  let ?d = "lineage_index tenant ns s"
  let ?st = "lineage_run ?d start"
  have o: "lrp_ordered_record_ids (replay tenant ns start s) = lg_ordered ?st"
    by (simp add: replay_def Let_def)
  from assms have "lg_issues ?st = []" by (simp add: replay_def Let_def)
  with lineage_run_ok [of ?d start] have t: "topo_from (parent_rel ?d) {} (lg_ordered ?st)"
    and d: "distinct (lg_ordered ?st)" and m: "start \<in> set (lg_ordered ?st)"
    and r: "\<forall>x \<in> set (lg_ordered ?st). (start, x) \<in> (parent_rel ?d)\<^sup>*"
    by (auto simp: walk_ok_def)
  show ?thesis
    unfolding o using d r topo_closed [OF t m] topo_before [OF t] by blast
qed

text \<open>
  Property C35: two records that governed reconciliation linked as conflicting are each
  other's parents, so the lineage of either is never complete while the link stands: the
  replay reports the contradiction as a cycle.
\<close>

theorem conflict_link_is_cycle:
  assumes "dict_get (lineage_index tenant ns s) a = Some ra"
    and "dict_get (lineage_index tenant ns s) b = Some rb"
    and "b \<in> set (mr_conflicts_with ra)" and "a \<in> set (mr_conflicts_with rb)"
  shows "\<not> lrp_complete (replay tenant ns a s)"
proof -
  let ?R = "parent_rel (lineage_index tenant ns s)"
  have "(b, ''conflicts_with'') \<in> set (lineage_parents ra)"
    using assms(3) by (simp add: lineage_parents_def)
  moreover have "(a, ''conflicts_with'') \<in> set (lineage_parents rb)"
    using assms(4) by (simp add: lineage_parents_def)
  ultimately have "(a, b) \<in> ?R" "(b, a) \<in> ?R"
    using assms(1,2) by (auto simp: parent_rel_def)
  then have "(a, a) \<in> ?R\<^sup>+" by (meson r_into_trancl' trancl_into_trancl)
  then show ?thesis by (auto simp: replay_complete_iff)
qed

section \<open>Witnesses\<close>

definition smp_linked :: store where
  "smp_linked = empty_store\<lparr>st_records :=
     [(1, (smp_record 1 ACTIVE)\<lparr>mr_conflicts_with := [2]\<rparr>),
      (2, (smp_record 2 ACTIVE)\<lparr>mr_conflicts_with := [1]\<rparr>)]\<rparr>"

lemma smp_linked_index:
  "dict_get (lineage_index ''t'' ''ns'' smp_linked) 1 = Some ((smp_record 1 ACTIVE)\<lparr>mr_conflicts_with := [2]\<rparr>)"
  "dict_get (lineage_index ''t'' ''ns'' smp_linked) 2 = Some ((smp_record 2 ACTIVE)\<lparr>mr_conflicts_with := [1]\<rparr>)"
  by (simp_all add: lineage_index_def list_records_def smp_linked_def by_recency_def sort_desc_def
      all_memory_states_def)

theorem conflict_link_is_cycle_witness: "\<not> lrp_complete (replay ''t'' ''ns'' 1 smp_linked)"
  by (rule conflict_link_is_cycle [OF smp_linked_index]) simp_all

definition smp_chain :: store where
  "smp_chain = empty_store\<lparr>st_records :=
     [(1, (smp_record 1 ACTIVE)\<lparr>mr_supersedes := [2]\<rparr>), (2, smp_record 2 SUPERSEDED)]\<rparr>"

lemma smp_chain_index:
  "dict_get (lineage_index ''t'' ''ns'' smp_chain) x =
     (if x = 1 then Some ((smp_record 1 ACTIVE)\<lparr>mr_supersedes := [2]\<rparr>)
      else if x = 2 then Some (smp_record 2 SUPERSEDED) else None)"
  by (simp add: lineage_index_def list_records_def smp_chain_def by_recency_def sort_desc_def
      all_memory_states_def)

lemma smp_chain_parents: "parent_rel (lineage_index ''t'' ''ns'' smp_chain) = {(1, 2)}"
  by (auto simp: parent_rel_def smp_chain_index lineage_parents_def source_uuid_def smp_record_def
      provenance_default_def split: if_splits)

lemma smp_chain_reach:
  "(1, x) \<in> (parent_rel (lineage_index ''t'' ''ns'' smp_chain))\<^sup>* \<Longrightarrow> x = 1 \<or> x = 2"
  unfolding smp_chain_parents by (induction rule: rtrancl_induct) auto

lemma smp_chain_acyclic: "(x, x) \<notin> (parent_rel (lineage_index ''t'' ''ns'' smp_chain))\<^sup>+"
proof
  assume "(x, x) \<in> (parent_rel (lineage_index ''t'' ''ns'' smp_chain))\<^sup>+"
  then have "(x, x) \<in> {(1, 2)}\<^sup>+" unfolding smp_chain_parents .
  moreover have "(a, b) \<in> {(1, 2)}\<^sup>+ \<Longrightarrow> a = (1::uuid) \<and> b = (2::uuid)" for a b
    by (induction rule: trancl_induct) auto
  ultimately have "x = 1 \<and> x = 2" by blast
  then have "(1::uuid) = 2" by metis
  then show False by simp
qed

theorem lineage_complete_iff_witness: "lrp_complete (replay ''t'' ''ns'' 1 smp_chain)"
  unfolding lineage_complete_iff using smp_chain_acyclic
  by (auto dest!: smp_chain_reach simp: smp_chain_index)

theorem lineage_order_witness:
  "distinct (lrp_ordered_record_ids (replay ''t'' ''ns'' 1 smp_chain))"
proof -
  have "lrp_complete (replay ''t'' ''ns'' 1 smp_chain)"
    unfolding replay_complete_iff using smp_chain_acyclic
    by (auto dest!: smp_chain_reach simp: smp_chain_index)
  from lineage_order [OF this] show ?thesis by blast
qed

end
