(* ===== verification/Breaker.thy ===== *)
theory Breaker
  imports Prelude
begin

text \<open>
  The circuit breaker of \<open>circuit_breaker.py\<close>. Each method reads the injected clock at most
  once; the reading is the operation's argument, a real number of seconds. The lock makes
  each method one step.
\<close>

section \<open>State and methods\<close>

datatype circuit_state = CLOSED | OPEN | HALF_OPEN

record circuit_config =
  failure_threshold :: int
  recovery_timeout :: real

record breaker =
  cb_failure_count :: int
  cb_last_failure :: "real option"
  cb_probe_at :: "real option"
  cb_state :: circuit_state

record circuit_snapshot =
  csn_state :: circuit_state
  csn_failure_count :: int
  csn_last_failure_monotonic :: "real option"

definition make_config :: "int \<Rightarrow> real \<Rightarrow> string + circuit_config" where
  "make_config threshold timeout =
     (if threshold < 1 then Inl ''failure_threshold must be positive''
      else if timeout \<le> 0 then Inl ''recovery_timeout must be positive''
      else Inr \<lparr>failure_threshold = threshold, recovery_timeout = timeout\<rparr>)"

definition new_breaker :: breaker where
  "new_breaker = \<lparr>cb_failure_count = 0, cb_last_failure = None, cb_probe_at = None, cb_state = CLOSED\<rparr>"

definition record_success :: "breaker \<Rightarrow> breaker" where
  "record_success b =
     b\<lparr>cb_failure_count := 0, cb_last_failure := None, cb_probe_at := None, cb_state := CLOSED\<rparr>"

definition record_failure :: "circuit_config \<Rightarrow> real \<Rightarrow> breaker \<Rightarrow> breaker" where
  "record_failure c now b =
     (let b' = b\<lparr>cb_failure_count := cb_failure_count b + 1, cb_last_failure := Some now,
                 cb_probe_at := None\<rparr>
      in if failure_threshold c \<le> cb_failure_count b' then b'\<lparr>cb_state := OPEN\<rparr> else b')"

definition can_execute :: "circuit_config \<Rightarrow> real \<Rightarrow> breaker \<Rightarrow> bool \<times> breaker" where
  "can_execute c now b =
     (case cb_state b of
        CLOSED \<Rightarrow> (True, b)
      | OPEN \<Rightarrow>
          if (case cb_last_failure b of None \<Rightarrow> False | Some t \<Rightarrow> recovery_timeout c \<le> now - t)
          then (True, b\<lparr>cb_state := HALF_OPEN, cb_probe_at := Some now\<rparr>)
          else (False, b)
      | HALF_OPEN \<Rightarrow>
          if (case cb_probe_at b of None \<Rightarrow> True | Some t \<Rightarrow> recovery_timeout c \<le> now - t)
          then (True, b\<lparr>cb_probe_at := Some now\<rparr>)
          else (False, b))"

definition breaker_snapshot :: "breaker \<Rightarrow> circuit_snapshot" where
  "breaker_snapshot b =
     \<lparr>csn_state = cb_state b, csn_failure_count = cb_failure_count b,
      csn_last_failure_monotonic = cb_last_failure b\<rparr>"

section \<open>Runs\<close>

datatype breaker_call = Success | Failure real | CanExecute real

fun breaker_step :: "circuit_config \<Rightarrow> breaker \<Rightarrow> breaker_call \<Rightarrow> breaker" where
  "breaker_step c b Success = record_success b"
| "breaker_step c b (Failure now) = record_failure c now b"
| "breaker_step c b (CanExecute now) = snd (can_execute c now b)"

text \<open>
  The invariant: closed means fewer failures than the threshold since the last success;
  otherwise there were at least as many and the last one's time is known, and a half-open
  breaker knows when its probe went out.
\<close>

definition breaker_ok :: "circuit_config \<Rightarrow> breaker \<Rightarrow> bool" where
  "breaker_ok c b \<longleftrightarrow>
     (cb_state b = CLOSED \<longleftrightarrow> cb_failure_count b < failure_threshold c) \<and>
     (cb_state b \<noteq> CLOSED \<longrightarrow> cb_last_failure b \<noteq> None) \<and>
     (cb_state b = HALF_OPEN \<longleftrightarrow> cb_probe_at b \<noteq> None)"

lemma breaker_ok_new: "0 < failure_threshold c \<Longrightarrow> breaker_ok c new_breaker"
  by (simp add: breaker_ok_def new_breaker_def)

lemma breaker_ok_step:
  "0 < failure_threshold c \<Longrightarrow> breaker_ok c b \<Longrightarrow> breaker_ok c (breaker_step c b x)"
  by (cases x; cases "cb_state b")
    (auto simp: breaker_ok_def record_success_def record_failure_def can_execute_def Let_def
      split: option.splits)

text \<open>The threshold of a constructed breaker is positive; the machine carries that along.\<close>

interpretation breaker_machine: guarded_machine "breaker_step c"
  "\<lambda>b. 0 < failure_threshold c \<and> breaker_ok c b" "\<lambda>_ _. True" for c
  by unfold_locales (simp add: breaker_ok_step)

lemma run_allowed_all: "run_allowed step (\<lambda>_ _. True) s xs"
  by (induction xs arbitrary: s) auto

lemma breaker_run_ok:
  assumes "make_config threshold timeout = Inr c"
  shows "breaker_ok c (run_steps (breaker_step c) new_breaker calls)"
proof -
  have "0 < failure_threshold c"
    using assms by (auto simp: make_config_def split: if_splits)
  then show ?thesis
    using breaker_machine.run_inv [of c new_breaker calls] by (simp add: breaker_ok_new run_allowed_all)
qed

text \<open>The times at which a sequence of \<open>can_execute\<close> calls, no report between, is let through.\<close>

fun admitted :: "circuit_config \<Rightarrow> breaker \<Rightarrow> real list \<Rightarrow> real list" where
  "admitted c b [] = []"
| "admitted c b (t # ts) =
     (let (ok, b') = can_execute c t b in (if ok then t # admitted c b' ts else admitted c b' ts))"

lemma admitted_half_open:
  "cb_state b = HALF_OPEN \<Longrightarrow> cb_probe_at b = Some p \<Longrightarrow> 0 < recovery_timeout c \<Longrightarrow>
     sorted_wrt (\<lambda>x y. x + recovery_timeout c \<le> y) (admitted c b ts)
     \<and> (\<forall>x \<in> set (admitted c b ts). p + recovery_timeout c \<le> x)"
proof (induction ts arbitrary: b p)
  case Nil
  then show ?case by simp
next
  case (Cons t ts)
  show ?case
  proof (cases "recovery_timeout c \<le> t - p")
    case True
    let ?b = "b\<lparr>cb_probe_at := Some t\<rparr>"
    from Cons.IH [of ?b t] Cons.prems have
      "sorted_wrt (\<lambda>x y. x + recovery_timeout c \<le> y) (admitted c ?b ts)
       \<and> (\<forall>x \<in> set (admitted c ?b ts). t + recovery_timeout c \<le> x)" by simp
    with True Cons.prems show ?thesis
      by (force simp: can_execute_def)
  next
    case False
    with Cons show ?thesis by (simp add: can_execute_def)
  qed
qed

lemma admitted_open:
  assumes "cb_state b = OPEN" "cb_last_failure b = Some f" "0 < recovery_timeout c"
  shows "sorted_wrt (\<lambda>x y. x + recovery_timeout c \<le> y) (admitted c b ts)
     \<and> (\<forall>x \<in> set (admitted c b ts). f + recovery_timeout c \<le> x)"
  using assms
proof (induction ts)
  case Nil
  then show ?case by simp
next
  case (Cons t ts)
  show ?case
  proof (cases "recovery_timeout c \<le> t - f")
    case True
    let ?b = "b\<lparr>cb_state := HALF_OPEN, cb_probe_at := Some t\<rparr>"
    from admitted_half_open [of ?b t c ts] Cons.prems have
      "sorted_wrt (\<lambda>x y. x + recovery_timeout c \<le> y) (admitted c ?b ts)
       \<and> (\<forall>x \<in> set (admitted c ?b ts). t + recovery_timeout c \<le> x)" by simp
    with True Cons.prems show ?thesis
      by (force simp: can_execute_def)
  next
    case False
    with Cons show ?thesis by (simp add: can_execute_def)
  qed
qed

text \<open>
  After any history of a breaker, an open circuit lets nothing through before
  the recovery timeout has passed since the last failure, and until an outcome is reported
  at most one probe per recovery timeout; a probe that is never reported does not close the
  circuit for good: a call a timeout after it is let through. A closed circuit lets
  everything through.
\<close>

theorem breaker_single_probe:
  assumes "make_config threshold timeout = Inr c"
    and "b = run_steps (breaker_step c) new_breaker calls"
  shows "(cb_state b = CLOSED \<longrightarrow> fst (can_execute c t b))
    \<and> (cb_state b \<noteq> CLOSED \<longrightarrow>
         sorted_wrt (\<lambda>x y. x + timeout \<le> y) (admitted c b ts)
         \<and> (\<exists>f. (cb_state b = OPEN \<longrightarrow> cb_last_failure b = Some f) \<and> (cb_state b = HALF_OPEN \<longrightarrow> cb_probe_at b = Some f)
              \<and> (\<forall>x \<in> set (admitted c b ts). f + timeout \<le> x)
              \<and> (f + timeout \<le> t \<longrightarrow> fst (can_execute c t b) \<and> cb_state (snd (can_execute c t b)) = HALF_OPEN)))"
proof -
  have c: "recovery_timeout c = timeout" "0 < timeout"
    using assms(1) by (auto simp: make_config_def split: if_splits)
  have ok: "breaker_ok c b" unfolding assms(2) by (rule breaker_run_ok [OF assms(1)])
  show ?thesis
  proof (cases "cb_state b")
    case CLOSED
    then show ?thesis by (simp add: can_execute_def)
  next
    case OPEN
    with ok obtain f where f: "cb_last_failure b = Some f" by (auto simp: breaker_ok_def)
    with OPEN admitted_open [OF OPEN f, where ts = ts] c show ?thesis
      by (auto simp: can_execute_def)
  next
    case HALF_OPEN
    with ok obtain f where f: "cb_probe_at b = Some f" by (auto simp: breaker_ok_def)
    with HALF_OPEN admitted_half_open [OF HALF_OPEN f, where ts = ts] c show ?thesis
      by (auto simp: can_execute_def)
  qed
qed

theorem breaker_single_probe_witness:
  "let c = \<lparr>failure_threshold = 1, recovery_timeout = 60\<rparr>;
       b = run_steps (breaker_step c) new_breaker [Failure 5]
   in sorted_wrt (\<lambda>x y. x + 60 \<le> y) (admitted c b [65, 70, 125])"
proof -
  have "make_config 1 60 = Inr \<lparr>failure_threshold = 1, recovery_timeout = 60\<rparr>"
    by (simp add: make_config_def)
  from breaker_single_probe [OF this refl, of "[Failure 5]" 0 "[65, 70, 125]"]
  show ?thesis by (simp add: record_failure_def new_breaker_def Let_def)
qed

end
