(* ===== verification/Limiter.thy ===== *)
theory Limiter
  imports Prelude
begin

text \<open>
  The sliding-window rate limiter of \<open>rate_limiter.py\<close>. The two deques are lists, oldest
  first; a method's clock reading is its argument.
\<close>

section \<open>State and methods\<close>

record limits =
  per_minute :: int
  per_hour :: int

record limiter =
  rl_minute_window :: "real list"
  rl_hour_window :: "real list"

definition make_limits :: "int \<Rightarrow> int \<Rightarrow> string + limits" where
  "make_limits minute hour =
     (if minute < 1 \<or> hour < 1 then Inl ''rate limits must be positive''
      else if hour < minute then Inl ''hourly limit cannot be lower than minute limit''
      else Inr \<lparr>per_minute = minute, per_hour = hour\<rparr>)"

definition new_limiter :: limiter where
  "new_limiter = \<lparr>rl_minute_window = [], rl_hour_window = []\<rparr>"

definition prune_limiter :: "real \<Rightarrow> limiter \<Rightarrow> limiter" where
  "prune_limiter now s =
     s\<lparr>rl_minute_window := dropWhile (\<lambda>x. 60 \<le> now - x) (rl_minute_window s),
       rl_hour_window := dropWhile (\<lambda>x. 3600 \<le> now - x) (rl_hour_window s)\<rparr>"

definition has_room :: "limits \<Rightarrow> limiter \<Rightarrow> bool" where
  "has_room l s \<longleftrightarrow>
     int (length (rl_minute_window s)) < per_minute l \<and> int (length (rl_hour_window s)) < per_hour l"

definition allow :: "limits \<Rightarrow> real \<Rightarrow> limiter \<Rightarrow> bool \<times> limiter" where
  "allow l now s = (let s' = prune_limiter now s in (has_room l s', s'))"

definition record_call :: "limits \<Rightarrow> real \<Rightarrow> (limiter, string, unit) op" where
  "record_call l now =
     andThen (modify (prune_limiter now)) (\<lambda>_.
     andThen (gets (has_room l)) (\<lambda>room.
     andThen (check room ''rate limit exceeded'') (\<lambda>_.
       modify (\<lambda>s. s\<lparr>rl_minute_window := rl_minute_window s @ [now],
                    rl_hour_window := rl_hour_window s @ [now]\<rparr>))))"

definition check_and_record :: "limits \<Rightarrow> real \<Rightarrow> (limiter, string, unit) op" where
  "check_and_record l now = record_call l now"

record limiter_status =
  minute_count :: int
  minute_limit :: int
  hour_count :: int
  hour_limit :: int

definition limiter_report :: "limits \<Rightarrow> real \<Rightarrow> limiter \<Rightarrow> limiter_status \<times> limiter" where
  "limiter_report l now s =
     (let s' = prune_limiter now s in
      (\<lparr>minute_count = int (length (rl_minute_window s')), minute_limit = per_minute l,
        hour_count = int (length (rl_hour_window s')), hour_limit = per_hour l\<rparr>, s'))"

lemma record_call_eq:
  "record_call l now s =
     (let p = prune_limiter now s in
      if has_room l p
      then (Inr (), p\<lparr>rl_minute_window := rl_minute_window p @ [now], rl_hour_window := rl_hour_window p @ [now]\<rparr>)
      else (Inl ''rate limit exceeded'', p))"
  by (simp add: record_call_def andThen_def modify_def gets_def check_def ret_def throw_def Let_def)

section \<open>Runs\<close>

text \<open>The calls of a sequence that are recorded, the rest raise.\<close>

fun recorded :: "limits \<Rightarrow> limiter \<Rightarrow> real list \<Rightarrow> real list" where
  "recorded l s [] = []"
| "recorded l s (t # ts) =
     (case record_call l t s of
        (Inl _, s') \<Rightarrow> recorded l s' ts
      | (Inr _, s') \<Rightarrow> t # recorded l s' ts)"

definition in_window :: "real \<Rightarrow> real \<Rightarrow> real list \<Rightarrow> int" where
  "in_window w t xs = int (length (filter (\<lambda>x. t - w < x \<and> x \<le> t) xs))"

text \<open>A window holds the recorded calls younger than \<open>w\<close> at the last reading \<open>now\<close>.\<close>

definition tracks :: "real \<Rightarrow> real \<Rightarrow> real list \<Rightarrow> real list \<Rightarrow> bool" where
  "tracks w now acc win \<longleftrightarrow> sorted acc \<and> (\<forall>x \<in> set acc. x \<le> now) \<and> win = filter (\<lambda>x. now - x < w) acc"

lemma dropWhile_sorted:
  "sorted xs \<Longrightarrow> dropWhile (\<lambda>x. w \<le> now - x) xs = filter (\<lambda>x. now - x < w) (xs :: real list)"
proof (induction xs)
  case Nil
  then show ?case by simp
next
  case (Cons x xs)
  show ?case
  proof (cases "w \<le> now - x")
    case True
    with Cons show ?thesis by simp
  next
    case False
    with Cons.prems have "filter (\<lambda>y. now - y < w) xs = xs"
      by (intro filter_True) (auto intro: less_le_trans)
    with False show ?thesis by simp
  qed
qed

lemma tracks_prune:
  assumes "tracks w now acc win" and "now \<le> t"
  shows "tracks w t acc (dropWhile (\<lambda>x. w \<le> t - x) win)"
proof -
  have "sorted win" using assms(1) by (simp add: tracks_def sorted_filter [of id, simplified])
  then have "dropWhile (\<lambda>x. w \<le> t - x) win = filter (\<lambda>x. t - x < w) win"
    by (rule dropWhile_sorted)
  also have "\<dots> = filter (\<lambda>x. t - x < w) acc"
    using assms by (auto simp: tracks_def intro!: filter_cong)
  finally show ?thesis using assms by (auto simp: tracks_def)
qed

lemma tracks_append:
  assumes "tracks w now acc win" and "0 < w"
  shows "tracks w now (acc @ [now]) (win @ [now])"
  using assms by (auto simp: tracks_def sorted_append)

lemma window_step:
  assumes tr: "tracks w now acc win" and room: "int (length win) < n"
    and all: "\<forall>t. in_window w t acc \<le> n"
  shows "\<forall>t. in_window w t (acc @ [now]) \<le> n"
proof
  fix t
  show "in_window w t (acc @ [now]) \<le> n"
  proof (cases "t - w < now \<and> now \<le> t")
    case False
    with all [THEN spec, of t] show ?thesis by (auto simp: in_window_def)
  next
    case True
    have "filter (\<lambda>x. t - w < x \<and> x \<le> t) acc = filter (\<lambda>x. t - w < x \<and> x \<le> t) win"
      using tr True by (auto simp: tracks_def intro!: filter_cong)
    then have "in_window w t acc \<le> int (length win)"
      by (simp add: in_window_def)
    with True room show ?thesis by (simp add: in_window_def)
  qed
qed

lemma recorded_bound:
  assumes "tracks 60 now acc (rl_minute_window s)" and "tracks 3600 now acc (rl_hour_window s)"
    and "\<forall>t. in_window 60 t acc \<le> per_minute l" and "\<forall>t. in_window 3600 t acc \<le> per_hour l"
    and "sorted (now # ts)"
  shows "(\<forall>t. in_window 60 t (acc @ recorded l s ts) \<le> per_minute l)
     \<and> (\<forall>t. in_window 3600 t (acc @ recorded l s ts) \<le> per_hour l)"
  using assms
proof (induction ts arbitrary: s acc now)
  case Nil
  then show ?case by simp
next
  case (Cons t ts)
  let ?p = "prune_limiter t s"
  have t: "now \<le> t" and srt: "sorted (t # ts)" using Cons.prems(5) by auto
  have m: "tracks 60 t acc (rl_minute_window ?p)" and h: "tracks 3600 t acc (rl_hour_window ?p)"
    using tracks_prune [OF Cons.prems(1) t] tracks_prune [OF Cons.prems(2) t]
    by (simp_all add: prune_limiter_def)
  show ?case
  proof (cases "has_room l ?p")
    case False
    with Cons.IH [OF m h Cons.prems(3,4) srt] show ?thesis
      by (simp add: record_call_eq Let_def)
  next
    case True
    let ?s = "?p\<lparr>rl_minute_window := rl_minute_window ?p @ [t], rl_hour_window := rl_hour_window ?p @ [t]\<rparr>"
    have m': "tracks 60 t (acc @ [t]) (rl_minute_window ?s)" and h': "tracks 3600 t (acc @ [t]) (rl_hour_window ?s)"
      using tracks_append [OF m] tracks_append [OF h] by simp_all
    have bm: "\<forall>u. in_window 60 u (acc @ [t]) \<le> per_minute l"
      using window_step [OF m _ Cons.prems(3)] True by (simp add: has_room_def)
    have bh: "\<forall>u. in_window 3600 u (acc @ [t]) \<le> per_hour l"
      using window_step [OF h _ Cons.prems(4)] True by (simp add: has_room_def)
    from Cons.IH [OF m' h' bm bh srt] True show ?thesis
      by (simp add: record_call_eq Let_def)
  qed
qed

text \<open>
  However the calls arrive, on a clock that does not go back the limiter
  never records more than \<open>per_minute\<close> calls in any sixty seconds nor more than \<open>per_hour\<close>
  in any hour, and it refuses a call only when one of the two windows is full.
\<close>

theorem limiter_window_bound:
  assumes "make_limits minute hour = Inr l" and "sorted ts"
  shows "in_window 60 t (recorded l new_limiter ts) \<le> minute
    \<and> in_window 3600 t (recorded l new_limiter ts) \<le> hour
    \<and> (fst (record_call l now s) = Inr () \<longleftrightarrow> fst (allow l now s))"
proof -
  have l: "per_minute l = minute" "per_hour l = hour"
    and pos: "0 \<le> minute" "0 \<le> hour"
    using assms(1) by (auto simp: make_limits_def split: if_splits)
  have "\<exists>now. sorted (now # ts)"
  proof (cases ts)
    case Nil
    then show ?thesis by simp
  next
    case (Cons a as)
    with assms(2) show ?thesis by (intro exI [of _ a]) simp
  qed
  then obtain n where "sorted (n # ts)" by blast
  from recorded_bound [of n "[]" new_limiter l ts] this
  have "in_window 60 t (recorded l new_limiter ts) \<le> minute \<and> in_window 3600 t (recorded l new_limiter ts) \<le> hour"
    by (simp add: new_limiter_def tracks_def in_window_def l pos)
  then show ?thesis by (simp add: record_call_eq allow_def Let_def)
qed

theorem limiter_window_bound_witness:
  "in_window 60 30 (recorded \<lparr>per_minute = 2, per_hour = 10\<rparr> new_limiter [0, 10, 20, 30]) \<le> 2"
proof -
  have "make_limits 2 10 = Inr \<lparr>per_minute = 2, per_hour = 10\<rparr>" by (simp add: make_limits_def)
  from limiter_window_bound [OF this, of "[0, 10, 20, 30]"] show ?thesis by simp
qed

end
