(* ===== verification/Runtime.thy ===== *)
theory Runtime
  imports Samples
begin

text \<open>
  The projection runtime of \<open>projections/runtime.py\<close>: which provider targets exist, which
  receive deliveries, and how an outbox event is attributed to one of them. An adapter is a
  provider client behind \<open>ports/projection.py\<close>; of it the runtime reads the attributes of the
  record \<open>adapter_port\<close>. What its calls do is a parameter of the components that make them.
\<close>

section \<open>Targets\<close>

datatype target_mode = T_ACTIVE | T_SHADOW | T_DISABLED

datatype runtime_mode = Legacy | Manifest

text \<open>
  \<open>ad_rendered\<close> is \<open>isinstance(adapter, RenderedProjectionAdapter)\<close>, \<open>ad_scope_scheme\<close> is
  \<open>getattr(adapter, "scope_scheme", None)\<close>.
\<close>

record adapter_port =
  ad_name :: string
  ad_capabilities :: "string list"
  ad_retirement_mode :: retirement_mode
  ad_rendered :: bool
  ad_scope_scheme :: "string option"

record target_binding =
  tb_identity :: string
  tb_projection_name :: string
  tb_projection_version :: "nat option"
  tb_provider_type :: string
  tb_target :: string
  tb_mode :: target_mode
  tb_required :: bool
  tb_adapter :: "adapter_port option"
  tb_manifest_digest :: "digest option"
  tb_render_contract_digest :: "digest option"
  tb_retained :: bool

definition delivers :: "target_binding \<Rightarrow> bool" where
  "delivers b \<longleftrightarrow> tb_mode b \<in> {T_ACTIVE, T_SHADOW}"

definition retrievable :: "target_binding \<Rightarrow> bool" where
  "retrievable b \<longleftrightarrow> tb_mode b = T_ACTIVE"

record compiled_target =
  ct_identity :: string
  ct_provider_type :: string
  ct_target :: string
  ct_mode :: target_mode
  ct_required :: bool

record compiled_projection =
  cp_name :: string
  cp_version :: nat
  cp_targets :: "compiled_target list"
  cp_manifest_digest :: digest
  cp_render_contract_digest :: digest

section \<open>The runtime\<close>

record projection_runtime =
  rt_mode :: runtime_mode
  rt_compiled :: "compiled_projection option"
  rt_targets :: "target_binding list"
  rt_legacy_adapter :: "adapter_port option"

definition adapter_rendered :: "target_binding \<Rightarrow> bool" where
  "adapter_rendered b = (case tb_adapter b of None \<Rightarrow> False | Some a \<Rightarrow> ad_rendered a)"

text \<open>The constructor's checks of one binding, in order.\<close>

definition check_binding :: "runtime_mode \<Rightarrow> target_binding \<Rightarrow> error + unit" where
  "check_binding mode b =
     (if tb_retained b \<and> delivers b
      then Inl (ConfigurationError ''retained projection target cannot deliver'')
      else if delivers b \<and> tb_adapter b = None
      then Inl (ConfigurationError ''projection target delivers but has no adapter'')
      else if mode = Manifest \<and> delivers b \<and> \<not> adapter_rendered b
      then Inl (ConfigurationError ''projection target adapter cannot deliver a compiled render contract'')
      else Inr ())"

fun check_bindings :: "runtime_mode \<Rightarrow> target_binding list \<Rightarrow> error + unit" where
  "check_bindings mode [] = Inr ()"
| "check_bindings mode (b # bs) =
     (case check_binding mode b of Inl e \<Rightarrow> Inl e | Inr _ \<Rightarrow> check_bindings mode bs)"

definition make_runtime ::
  "target_binding list \<Rightarrow> runtime_mode \<Rightarrow> compiled_projection option \<Rightarrow> adapter_port option
     \<Rightarrow> error + projection_runtime" where
  "make_runtime targets mode compiled legacy =
     (if \<not> distinct (map tb_identity targets)
      then Inl (ConfigurationError ''projection target identities must be unique'')
      else if mode = Manifest \<and> compiled = None
      then Inl (ConfigurationError ''manifest projection runtime requires a compiled projection'')
      else (case check_bindings mode targets of
              Inl e \<Rightarrow> Inl e
            | Inr _ \<Rightarrow> Inr \<lparr>rt_mode = mode, rt_compiled = compiled, rt_targets = targets,
                             rt_legacy_adapter = legacy\<rparr>))"

definition legacy_binding :: "adapter_port \<Rightarrow> bool \<Rightarrow> target_binding" where
  "legacy_binding a required =
     \<lparr>tb_identity = ad_name a, tb_projection_name = ad_name a, tb_projection_version = None,
      tb_provider_type = LEGACY_PROVIDER_TYPE, tb_target = ad_name a, tb_mode = T_ACTIVE,
      tb_required = required, tb_adapter = Some a, tb_manifest_digest = None,
      tb_render_contract_digest = None, tb_retained = False\<rparr>"

definition legacy_runtime :: "adapter_port \<Rightarrow> bool \<Rightarrow> error + projection_runtime" where
  "legacy_runtime a required =
     (if ad_name a = ''none'' then make_runtime [] Legacy None (Some a)
      else make_runtime [legacy_binding a required] Legacy None (Some a))"

definition compiled_binding ::
  "compiled_projection \<Rightarrow> compiled_target \<Rightarrow> adapter_port option \<Rightarrow> target_binding" where
  "compiled_binding c t a =
     \<lparr>tb_identity = ct_identity t, tb_projection_name = cp_name c,
      tb_projection_version = Some (cp_version c), tb_provider_type = ct_provider_type t,
      tb_target = ct_target t, tb_mode = ct_mode t, tb_required = ct_required t, tb_adapter = a,
      tb_manifest_digest = Some (cp_manifest_digest c),
      tb_render_contract_digest = Some (cp_render_contract_digest c), tb_retained = False\<rparr>"

definition retained_binding ::
  "compiled_projection \<Rightarrow> compiled_target \<Rightarrow> adapter_port option \<Rightarrow> target_binding" where
  "retained_binding c t a =
     (compiled_binding c t a)\<lparr>tb_mode := T_DISABLED, tb_required := False, tb_retained := True\<rparr>"

type_synonym adapters = "(string, adapter_port option) dict"

definition declared :: "compiled_projection \<Rightarrow> string list" where
  "declared c = map ct_identity (cp_targets c)"

definition unknown_adapters :: "compiled_projection \<Rightarrow> adapters \<Rightarrow> string list" where
  "unknown_adapters c as = filter (\<lambda>k. k \<notin> set (declared c)) (dict_keys as)"

fun bind_targets ::
  "compiled_projection \<Rightarrow> adapters \<Rightarrow> compiled_target list \<Rightarrow> error + target_binding list" where
  "bind_targets c as [] = Inr []"
| "bind_targets c as (t # ts) =
     (case dict_get as (ct_identity t) of
        None \<Rightarrow> Inl (ConfigurationError ''no adapter binding for target'')
      | Some a \<Rightarrow>
          (case bind_targets c as ts of
             Inl e \<Rightarrow> Inl e
           | Inr bs \<Rightarrow> Inr (compiled_binding c t a # bs)))"

text \<open>The retained targets of one earlier revision; \<open>bound\<close> are the identities taken so far.\<close>

fun bind_retained ::
  "compiled_projection \<Rightarrow> adapters \<Rightarrow> string list \<Rightarrow> compiled_target list \<Rightarrow> target_binding list" where
  "bind_retained c as bound [] = []"
| "bind_retained c as bound (t # ts) =
     (if ct_identity t \<in> set bound then bind_retained c as bound ts
      else retained_binding c t (case dict_get as (ct_identity t) of None \<Rightarrow> None | Some a \<Rightarrow> a)
             # bind_retained c as (ct_identity t # bound) ts)"

fun bind_revisions ::
  "(compiled_projection \<times> adapters) list \<Rightarrow> target_binding list \<Rightarrow> error + target_binding list" where
  "bind_revisions [] bs = Inr bs"
| "bind_revisions ((c, as) # rest) bs =
     (if unknown_adapters c as \<noteq> []
      then Inl (ConfigurationError ''adapters supplied for targets the revision does not declare'')
      else bind_revisions rest (bs @ bind_retained c as (map tb_identity bs) (cp_targets c)))"

definition from_compiled ::
  "compiled_projection \<Rightarrow> adapters \<Rightarrow> (compiled_projection \<times> adapters) list \<Rightarrow> error + projection_runtime" where
  "from_compiled c as retained =
     (if unknown_adapters c as \<noteq> []
      then Inl (ConfigurationError ''adapters supplied for targets the projection does not declare'')
      else (case bind_targets c as (cp_targets c) of
              Inl e \<Rightarrow> Inl e
            | Inr bs \<Rightarrow>
                (case bind_revisions retained bs of
                   Inl e \<Rightarrow> Inl e
                 | Inr all \<Rightarrow> make_runtime all Manifest (Some c) None)))"

definition enabled :: "projection_runtime \<Rightarrow> bool" where
  "enabled rt \<longleftrightarrow> list_ex delivers (rt_targets rt)"

definition delivery_targets :: "projection_runtime \<Rightarrow> target_binding list" where
  "delivery_targets rt = filter delivers (rt_targets rt)"

definition active_targets :: "projection_runtime \<Rightarrow> target_binding list" where
  "active_targets rt = filter (\<lambda>b. tb_mode b = T_ACTIVE) (rt_targets rt)"

definition shadow_targets :: "projection_runtime \<Rightarrow> target_binding list" where
  "shadow_targets rt = filter (\<lambda>b. tb_mode b = T_SHADOW) (rt_targets rt)"

definition by_identity :: "projection_runtime \<Rightarrow> (string, target_binding) dict" where
  "by_identity rt = dict_set_all tb_identity (rt_targets rt) []"

definition find_target :: "projection_runtime \<Rightarrow> string \<Rightarrow> error + target_binding" where
  "find_target rt identity =
     (case dict_get (by_identity rt) identity of
        None \<Rightarrow> Inl (ProjectionError ''unknown projection target'')
      | Some b \<Rightarrow> Inr b)"

definition resolve_event_target :: "projection_runtime \<Rightarrow> json option \<Rightarrow> error + target_binding" where
  "resolve_event_target rt identity =
     (let single = (case rt_targets rt of
                      [b] \<Rightarrow> Inr b
                    | _ \<Rightarrow> Inl (ProjectionError ''outbox event carries no target_identity and cannot be attributed to one target''))
      in case identity of
           Some (JStr t) \<Rightarrow> if strip t \<noteq> [] then find_target rt (strip t) else single
         | _ \<Rightarrow> single)"

definition adapter_for :: "projection_runtime \<Rightarrow> string \<Rightarrow> error + adapter_port" where
  "adapter_for rt identity =
     (case find_target rt identity of
        Inl e \<Rightarrow> Inl e
      | Inr b \<Rightarrow>
          (case tb_adapter b of
             None \<Rightarrow> Inl (ProjectionError ''projection target provider is not configured'')
           | Some a \<Rightarrow> Inr a))"

definition unresolved_identities :: "projection_runtime \<Rightarrow> string list \<Rightarrow> string list" where
  "unresolved_identities rt ids = sort (remdups (filter (\<lambda>i. \<not> dict_has (by_identity rt) i) ids))"

text \<open>\<open>[b for b in runtime.active_targets() if b.adapter is not None]\<close> and those that serve graph search.\<close>

definition graph_candidates :: "projection_runtime \<Rightarrow> target_binding list" where
  "graph_candidates rt = filter (\<lambda>b. tb_adapter b \<noteq> None) (active_targets rt)"

definition serves_graph_search :: "target_binding \<Rightarrow> bool" where
  "serves_graph_search b =
     (case tb_adapter b of None \<Rightarrow> False | Some a \<Rightarrow> ''graph-search'' \<in> set (ad_capabilities a))"

definition graph_projection_target :: "projection_runtime \<Rightarrow> error + target_binding option" where
  "graph_projection_target rt =
     (let active = graph_candidates rt;
          graph = filter serves_graph_search active;
          chosen = (if graph \<noteq> [] then graph else active)
      in case chosen of
           [] \<Rightarrow> Inr None
         | [b] \<Rightarrow> Inr (Some b)
         | _ \<Rightarrow> Inl (ConfigurationError ''graph intelligence needs exactly one active graph projection target''))"

definition graph_projection_adapter :: "projection_runtime \<Rightarrow> error + adapter_port option" where
  "graph_projection_adapter rt =
     (case graph_projection_target rt of
        Inl e \<Rightarrow> Inl e
      | Inr None \<Rightarrow> Inr None
      | Inr (Some b) \<Rightarrow> Inr (tb_adapter b))"

section \<open>What a constructed runtime guarantees\<close>

definition runtime_ok :: "projection_runtime \<Rightarrow> bool" where
  "runtime_ok rt \<longleftrightarrow>
     distinct (map tb_identity (rt_targets rt)) \<and>
     (\<forall>b \<in> set (rt_targets rt). delivers b \<longrightarrow>
        \<not> tb_retained b \<and> tb_adapter b \<noteq> None \<and> (rt_mode rt = Manifest \<longrightarrow> adapter_rendered b))"

lemma check_bindings_Inr:
  "check_bindings mode bs = Inr u \<longleftrightarrow>
     (\<forall>b \<in> set bs. delivers b \<longrightarrow>
        \<not> tb_retained b \<and> tb_adapter b \<noteq> None \<and> (mode = Manifest \<longrightarrow> adapter_rendered b))"
  by (induction bs) (auto simp: check_binding_def split: sum.splits if_splits)

lemma make_runtime_ok: "make_runtime ts mode c l = Inr rt \<Longrightarrow> runtime_ok rt \<and> rt_targets rt = ts \<and> rt_mode rt = mode"
  by (auto simp: make_runtime_def runtime_ok_def check_bindings_Inr split: if_splits sum.splits)

lemma by_identity_get:
  assumes "runtime_ok rt"
  shows "dict_get (by_identity rt) i = Some b \<longleftrightarrow> b \<in> set (rt_targets rt) \<and> tb_identity b = i"
proof
  assume "dict_get (by_identity rt) i = Some b"
  then show "b \<in> set (rt_targets rt) \<and> tb_identity b = i"
    unfolding by_identity_def by (auto dest: dict_get_set_all_cases)
next
  assume b: "b \<in> set (rt_targets rt) \<and> tb_identity b = i"
  then show "dict_get (by_identity rt) i = Some b"
    using assms dict_get_set_all_mem [of b "rt_targets rt" tb_identity "[]"]
    by (auto simp: by_identity_def runtime_ok_def)
qed

lemma find_target_Inr:
  "runtime_ok rt \<Longrightarrow> find_target rt i = Inr b \<longleftrightarrow> b \<in> set (rt_targets rt) \<and> tb_identity b = i"
  using by_identity_get [of rt i b]
  by (cases "dict_get (by_identity rt) i") (auto simp: find_target_def)

lemma bind_targets_identities:
  "bind_targets c as ts = Inr bs \<Longrightarrow> bs = map (\<lambda>t. compiled_binding c t (the (dict_get as (ct_identity t)))) ts"
  by (induction ts arbitrary: bs) (auto split: option.splits sum.splits)

lemma bind_retained_props:
  "b \<in> set (bind_retained c as bound ts) \<Longrightarrow>
     tb_retained b \<and> tb_mode b = T_DISABLED \<and> tb_identity b \<notin> set bound"
proof (induction ts arbitrary: bound)
  case Nil
  then show ?case by simp
next
  case (Cons t ts)
  from Cons.prems Cons.IH [of bound] Cons.IH [of "ct_identity t # bound"] show ?case
    by (auto simp: retained_binding_def compiled_binding_def split: if_splits)
qed

lemma bind_revisions_props:
  "bind_revisions revs bs = Inr all \<Longrightarrow>
     \<exists>extra. all = bs @ extra \<and> (\<forall>b \<in> set extra. tb_retained b \<and> tb_mode b = T_DISABLED
       \<and> tb_identity b \<notin> set (map tb_identity bs))"
proof (induction revs bs rule: bind_revisions.induct)
  case (1 bs)
  then show ?case by simp
next
  case (2 c as rest bs)
  let ?new = "bind_retained c as (map tb_identity bs) (cp_targets c)"
  from 2 obtain extra where "all = (bs @ ?new) @ extra"
      "\<forall>b \<in> set extra. tb_retained b \<and> tb_mode b = T_DISABLED \<and> tb_identity b \<notin> set (map tb_identity (bs @ ?new))"
    by (force split: if_splits)
  then show ?case
    by (intro exI [of _ "?new @ extra"]) (auto dest: bind_retained_props)
qed

text \<open>
  A runtime compiled from a manifest keeps the manifest's targets first and in
  order, every target it keeps from an earlier revision is disabled, and so never receives
  a delivery and never feeds retrieval; every target that receives deliveries is declared
  by the current revision and has an adapter that can write the compiled rendering.
\<close>

theorem retained_targets_never_deliver:
  assumes "from_compiled c as retained = Inr rt"
  shows "map tb_identity (take (length (cp_targets c)) (rt_targets rt)) = declared c
    \<and> distinct (map tb_identity (rt_targets rt))
    \<and> (\<forall>b \<in> set (rt_targets rt). tb_retained b \<longleftrightarrow> tb_identity b \<notin> set (declared c))
    \<and> (\<forall>b \<in> set (delivery_targets rt). \<not> tb_retained b \<and> tb_identity b \<in> set (declared c) \<and> adapter_rendered b)
    \<and> (\<forall>b \<in> set (rt_targets rt). tb_retained b \<longrightarrow> \<not> delivers b \<and> \<not> retrievable b)"
proof -
  obtain bs all where bs: "bind_targets c as (cp_targets c) = Inr bs"
    and all: "bind_revisions retained bs = Inr all" and rt: "make_runtime all Manifest (Some c) None = Inr rt"
    using assms by (auto simp: from_compiled_def split: if_splits sum.splits)
  have bs': "map tb_identity bs = declared c" "\<forall>b \<in> set bs. \<not> tb_retained b" "length bs = length (cp_targets c)"
    using bind_targets_identities [OF bs] by (auto simp: declared_def compiled_binding_def)
  obtain extra where ex: "all = bs @ extra" "\<forall>b \<in> set extra. tb_retained b \<and> tb_mode b = T_DISABLED
       \<and> tb_identity b \<notin> set (map tb_identity bs)"
    using bind_revisions_props [OF all] by blast
  have ok: "runtime_ok rt" "rt_targets rt = bs @ extra" "rt_mode rt = Manifest"
    using make_runtime_ok [OF rt] ex(1) by auto
  have mem: "tb_identity b \<in> set (declared c)" if "b \<in> set bs" for b
    using that bs'(1) by (metis image_eqI list.set_map)
  have iff: "\<forall>b \<in> set (rt_targets rt). tb_retained b \<longleftrightarrow> tb_identity b \<notin> set (declared c)"
    using ok(2) ex(2) bs' mem by auto
  have dis: "\<forall>b \<in> set (rt_targets rt). tb_retained b \<longrightarrow> tb_mode b = T_DISABLED"
    using ok(2) ex(2) bs'(2) by auto
  have del: "\<not> tb_retained b \<and> adapter_rendered b" if "b \<in> set (delivery_targets rt)" for b
    using that ok(1,3) by (auto simp: runtime_ok_def delivery_targets_def)
  have "map tb_identity (take (length (cp_targets c)) (rt_targets rt)) = declared c"
    using ok(2) bs'(1,3) by simp
  moreover have "distinct (map tb_identity (rt_targets rt))"
    using ok(1) by (simp add: runtime_ok_def)
  moreover have "\<forall>b \<in> set (delivery_targets rt). \<not> tb_retained b \<and> tb_identity b \<in> set (declared c) \<and> adapter_rendered b"
    using del iff by (auto simp: delivery_targets_def)
  moreover have "\<forall>b \<in> set (rt_targets rt). tb_retained b \<longrightarrow> \<not> delivers b \<and> \<not> retrievable b"
    using dis by (auto simp: delivers_def retrievable_def)
  ultimately show ?thesis using iff by blast
qed

text \<open>
  An outbox event is never attributed by guessing. If it names a target, it
  goes to the binding of exactly that identity or is refused; an event of the time before
  target identities is accepted only when the runtime has a single target.
\<close>

theorem event_target_never_guessed:
  assumes "make_runtime targets mode compiled legacy = Inr rt"
  shows "(resolve_event_target rt identity = Inr b) \<longleftrightarrow>
     b \<in> set targets \<and>
     (if \<exists>t. identity = Some (JStr t) \<and> strip t \<noteq> []
      then \<exists>t. identity = Some (JStr t) \<and> tb_identity b = strip t
      else targets = [b])"
  using make_runtime_ok [OF assms]
  by (auto simp: resolve_event_target_def find_target_Inr Let_def split: option.splits json.splits list.splits)

section \<open>A concrete runtime\<close>

definition smp_adapter :: "string \<Rightarrow> adapter_port" where
  "smp_adapter n = \<lparr>ad_name = n, ad_capabilities = [''graph-search''], ad_retirement_mode = RM_WITHDRAW,
     ad_rendered = True, ad_scope_scheme = None\<rparr>"

definition smp_runtime :: projection_runtime where
  "smp_runtime = \<lparr>rt_mode = Legacy, rt_compiled = None, rt_targets = [legacy_binding (smp_adapter ''zep'') False],
     rt_legacy_adapter = Some (smp_adapter ''zep'')\<rparr>"

lemma smp_runtime_made: "legacy_runtime (smp_adapter ''zep'') False = Inr smp_runtime"
  by (simp add: legacy_runtime_def make_runtime_def smp_adapter_def legacy_binding_def check_binding_def
      delivers_def smp_runtime_def)

lemma smp_runtime_targets [simp]:
  "delivery_targets smp_runtime = rt_targets smp_runtime" "map tb_identity (rt_targets smp_runtime) = [''zep'']"
  by (simp_all add: smp_runtime_def delivery_targets_def legacy_binding_def delivers_def smp_adapter_def)

definition smp_compiled :: "string list \<Rightarrow> compiled_projection" where
  "smp_compiled ids = \<lparr>cp_name = ''graph'', cp_version = 1,
     cp_targets = map (\<lambda>i. \<lparr>ct_identity = i, ct_provider_type = ''zep'', ct_target = i, ct_mode = T_ACTIVE, ct_required = True\<rparr>) ids,
     cp_manifest_digest = ''m'', cp_render_contract_digest = ''r''\<rparr>"

lemma smp_manifest_runtime:
  "from_compiled (smp_compiled [''a'']) [(''a'', Some (smp_adapter ''zep''))] [(smp_compiled [''b''], [])]
     = make_runtime
         [compiled_binding (smp_compiled [''a'']) (hd (cp_targets (smp_compiled [''a'']))) (Some (smp_adapter ''zep'')),
          retained_binding (smp_compiled [''b'']) (hd (cp_targets (smp_compiled [''b'']))) None]
         Manifest (Some (smp_compiled [''a''])) None"
  by (simp add: from_compiled_def unknown_adapters_def declared_def smp_compiled_def compiled_binding_def)

definition smp_manifest :: projection_runtime where
  "smp_manifest = \<lparr>rt_mode = Manifest, rt_compiled = Some (smp_compiled [''a'']),
     rt_targets = [compiled_binding (smp_compiled [''a'']) (hd (cp_targets (smp_compiled [''a'']))) (Some (smp_adapter ''zep'')),
          retained_binding (smp_compiled [''b'']) (hd (cp_targets (smp_compiled [''b'']))) None],
     rt_legacy_adapter = None\<rparr>"

lemma smp_manifest_made:
  "from_compiled (smp_compiled [''a'']) [(''a'', Some (smp_adapter ''zep''))] [(smp_compiled [''b''], [])]
     = Inr smp_manifest"
  unfolding smp_manifest_runtime
  by (simp add: make_runtime_def smp_manifest_def check_binding_def compiled_binding_def retained_binding_def
      delivers_def adapter_rendered_def smp_compiled_def smp_adapter_def)

theorem retained_targets_never_deliver_witness:
  "\<exists>b \<in> set (rt_targets smp_manifest). tb_retained b \<and> \<not> delivers b \<and> \<not> retrievable b"
proof -
  have "map tb_retained (rt_targets smp_manifest) = [False, True]"
    by (simp add: smp_manifest_def compiled_binding_def retained_binding_def)
  then have "True \<in> tb_retained ` set (rt_targets smp_manifest)"
    by (metis list.set_intros(1,2) set_map)
  with retained_targets_never_deliver [OF smp_manifest_made] show ?thesis by blast
qed

theorem event_target_never_guessed_witness:
  "resolve_event_target smp_runtime (Some (JStr ''zep '')) = Inr (legacy_binding (smp_adapter ''zep'') False)"
proof -
  have "make_runtime [legacy_binding (smp_adapter ''zep'') False] Legacy None (Some (smp_adapter ''zep'')) = Inr smp_runtime"
    using smp_runtime_made by (simp add: legacy_runtime_def smp_adapter_def)
  from event_target_never_guessed [OF this] show ?thesis
    by (simp add: legacy_binding_def smp_adapter_def strip_def is_space_def)
qed

end
