(* ===== verification/Service.thy ===== *)
theory Service
  imports Admission Runtime StoreInvariant OutboxLaws
begin

text \<open>
  What every operation of \<open>services/memory_service.py\<close> shares: the service's collaborators,
  the targets that may hold a copy of a record, the outbox intents an operation enqueues,
  and the two reads that gate disclosure, \<open>get\<close> and the namespaces of a search.
\<close>

section \<open>The service\<close>

text \<open>
  \<open>sv_hash\<close> is \<open>sha256_text(canonical_json(value))\<close>, \<open>sv_text_digest\<close> is \<open>sha256_text\<close> and
  \<open>sv_normalize\<close> is \<open>normalize_candidate\<close> of a content and its context; \<open>sv_dumps\<close> is
  \<open>json.dumps(value, sort_keys=True)\<close>, a sort key only.
\<close>

record service =
  sv_runtime :: projection_runtime
  sv_admission :: admission_policy
  sv_hash :: "json \<Rightarrow> digest"
  sv_text_digest :: "string \<Rightarrow> digest"
  sv_normalize :: "string \<Rightarrow> json \<Rightarrow> normalization_result"
  sv_dumps :: "json \<Rightarrow> string"

text \<open>The stamp of a receipt made by a default factory: its identifier and \<open>utc_now()\<close>.\<close>

definition stamp_of :: "env \<Rightarrow> draw \<Rightarrow> uuid \<times> instant" where
  "stamp_of en d = (env_uuid en d, env_wall en)"

definition authorize :: "env \<Rightarrow> memory_principal \<Rightarrow> authorization_action \<Rightarrow> string \<Rightarrow> authorization_receipt store_op" where
  "authorize en p a ns = from_sum (require (stamp_of en U_authorization) p a ns)"

definition delivery_identities :: "service \<Rightarrow> string list" where
  "delivery_identities svc = map tb_identity (delivery_targets (sv_runtime svc))"

definition copy_holders :: "service \<Rightarrow> uuid \<Rightarrow> store \<Rightarrow> string list" where
  "copy_holders svc rid s =
     dedup (delivery_identities svc @ map pk_target_identity (list_projection_links rid s))"

text \<open>
  One outbox intent per target; \<open>k\<close> is the number of events the operation already made, so
  that every event draws an identifier of its own.
\<close>

definition new_event ::
  "env \<Rightarrow> nat \<Rightarrow> string \<Rightarrow> uuid \<Rightarrow> string \<Rightarrow> (string, json) dict \<Rightarrow> outbox_event" where
  "new_event en i event_type rid ns payload =
     \<lparr>ob_event_id = env_uuid en (U_event i), ob_event_type = event_type, ob_aggregate_id = rid,
      ob_namespace = ns, ob_payload = payload, ob_status = X_PENDING, ob_attempts = 0,
      ob_next_attempt_at = env_now en, ob_last_error = None, ob_created_at = env_now en,
      ob_delivered_at = None, ob_lease_id = None, ob_lease_owner = None, ob_lease_expires_at = None\<rparr>"

definition target_events ::
  "env \<Rightarrow> nat \<Rightarrow> string \<Rightarrow> uuid \<Rightarrow> string \<Rightarrow> (string, json) dict \<Rightarrow> string list \<Rightarrow> outbox_event list" where
  "target_events en k event_type rid ns payload targets =
     map (\<lambda>(i, t). new_event en i event_type rid ns (dict_set ''target_identity'' (JStr t) payload))
       (enumerate k targets)"

text \<open>\<open>for x in xs: events.extend(f(x))\<close>.\<close>

fun extend_events :: "(nat \<Rightarrow> 'x \<Rightarrow> outbox_event list) \<Rightarrow> nat \<Rightarrow> 'x list \<Rightarrow> outbox_event list" where
  "extend_events f k [] = []"
| "extend_events f k (x # xs) = (let es = f k x in es @ extend_events f (k + length es) xs)"

section \<open>Reads\<close>

definition get_memory :: "env \<Rightarrow> memory_principal \<Rightarrow> uuid \<Rightarrow> memory_record option store_op" where
  "get_memory en p rid =
     andThen (gets (get_record rid)) (\<lambda>found.
       case found of
         None \<Rightarrow> ret None
       | Some r \<Rightarrow>
           andThen (check (mr_tenant_id r = mp_tenant_id p \<or> can_cross_tenant p)
             (AuthorizationError ''record belongs to a different tenant'')) (\<lambda>_.
           andThen (authorize en p A_READ (mr_namespace r)) (\<lambda>_.
           andThen (check (mr_state r \<noteq> QUARANTINED \<or> mp_is_admin p)
             (AuthorizationError ''quarantined records require administrator authority'')) (\<lambda>_.
           andThen (check (mr_state r \<notin> {DELETION_PENDING, DELETED} \<or> mp_is_admin p)
             (AuthorizationError ''deleted records require administrator authority'')) (\<lambda>_.
             ret (Some r))))))"

definition concrete_namespaces :: "string list \<Rightarrow> string list" where
  "concrete_namespaces patterns = filter (\<lambda>p. \<not> list_ex (\<lambda>c. c \<in> set p) ''*?[]'') patterns"

definition authorized_search_namespaces ::
  "env \<Rightarrow> memory_principal \<Rightarrow> string list \<Rightarrow> string list store_op" where
  "authorized_search_namespaces en p requested =
     (let namespaces = (if requested \<noteq> [] then requested else concrete_namespaces (mp_read_namespaces p)) in
      andThen (check (namespaces \<noteq> [])
        (AuthorizationError ''explicit namespace is required when read grants contain only wildcards'')) (\<lambda>_.
      andThen (for_each (\<lambda>ns. andThen (authorize en p A_READ ns) (\<lambda>_. ret ())) namespaces) (\<lambda>_.
        ret (dedup namespaces))))"

section \<open>Lemmas\<close>

lemma authorize_eq [simp]:
  "authorize en p a ns s = (r, t) \<longleftrightarrow>
     t = s \<and> (if may p a ns then r = Inr (evaluate (stamp_of en U_authorization) p a ns)
              else r = Inl (AuthorizationError ''principal is not authorized''))"
  by (auto simp: authorize_def require_def Let_def)

lemma authorize_run:
  "authorize en p a ns s = (if may p a ns then (Inr (evaluate (stamp_of en U_authorization) p a ns), s)
     else (Inl (AuthorizationError ''principal is not authorized''), s))"
  using authorize_eq [of en p a ns s] by (auto split: if_splits)

lemma reads_only_authorize [simp]: "reads_only (authorize en p a ns)"
  by (simp add: authorize_def)

text \<open>What an event asks for: its type, its record, and the target it addresses.\<close>

definition intent :: "outbox_event \<Rightarrow> string \<times> uuid \<times> string option" where
  "intent e = (ob_event_type e, ob_aggregate_id e, get_str (ob_payload e) ''target_identity'')"

lemma new_event_sel [simp]:
  "ob_event_id (new_event en i ty rid ns pl) = env_uuid en (U_event i)"
  "ob_status (new_event en i ty rid ns pl) = X_PENDING"
  "ob_namespace (new_event en i ty rid ns pl) = ns"
  "intent (new_event en i ty rid ns pl) = (ty, rid, get_str pl ''target_identity'')"
  by (simp_all add: new_event_def intent_def)

lemma target_events_intents [simp]:
  "map intent (target_events en k ty rid ns pl targets) = map (\<lambda>t. (ty, rid, Some t)) targets"
  by (induction targets arbitrary: k) (simp_all add: target_events_def get_str_def)

lemma target_events_ids [simp]:
  "map ob_event_id (target_events en k ty rid ns pl targets)
     = map (\<lambda>i. env_uuid en (U_event i)) [k..<k + length targets]"
  by (induction targets arbitrary: k) (simp_all add: target_events_def upt_conv_Cons del: upt_Suc)

lemma length_target_events [simp]: "length (target_events en k ty rid ns pl targets) = length targets"
  by (simp add: target_events_def)

lemma target_events_pending: "e \<in> set (target_events en k ty rid ns pl targets) \<Longrightarrow>
    ob_status e = X_PENDING \<and> ob_namespace e = ns"
  by (auto simp: target_events_def)

lemma extend_events_intents:
  "(\<And>k x. map intent (f k x) = g x) \<Longrightarrow> map intent (extend_events f k xs) = concat (map g xs)"
  by (induction xs arbitrary: k) (simp_all add: Let_def)

text \<open>The identifiers an operation draws for its events are the next ones in order.\<close>

lemma extend_events_ids:
  "(\<And>k x. map ob_event_id (f k x) = map u [k..<k + length (f k x)]) \<Longrightarrow>
     map ob_event_id (extend_events f k xs) = map u [k..<k + length (extend_events f k xs)]"
proof (induction xs arbitrary: k)
  case Nil
  then show ?case by simp
next
  case (Cons x xs)
  have "[k..<k + length (f k x) + length (extend_events f (k + length (f k x)) xs)]
      = [k..<k + length (f k x)] @ [k + length (f k x)..<k + length (f k x) + length (extend_events f (k + length (f k x)) xs)]"
    by (rule upt_add_eq_append) simp
  with Cons show ?case by (simp add: Let_def add.assoc)
qed

lemma set_copy_holders:
  "t \<in> set (copy_holders svc rid s) \<longleftrightarrow>
     t \<in> set (delivery_identities svc) \<or> (\<exists>l \<in> set (list_projection_links rid s). pk_target_identity l = t)"
  by (auto simp: copy_holders_def)

lemma list_projection_links_iff:
  assumes "store_wf s"
  shows "l \<in> set (list_projection_links rid s) \<longleftrightarrow>
     pk_record_id l = rid \<and> get_projection_link rid (pk_target_identity l) s = Some l"
proof -
  have k: "keyed link_key (st_projection_links s)"
    using assms by (simp add: store_wf_def store_keyed_def)
  show ?thesis
  proof
    assume "l \<in> set (list_projection_links rid s)"
    then obtain tg where m: "((rid, tg), l) \<in> set (st_projection_links s)"
      by (auto simp: list_projection_links_def)
    then have "dict_get (st_projection_links s) (rid, tg) = Some l"
      using dict_get_iff_mem [OF keyed_ok [OF k]] by simp
    moreover from keyed_get [OF k this] have "link_key l = (rid, tg)" .
    ultimately show "pk_record_id l = rid \<and> get_projection_link rid (pk_target_identity l) s = Some l"
      by (simp add: get_projection_link_def link_key_def)
  next
    assume "pk_record_id l = rid \<and> get_projection_link rid (pk_target_identity l) s = Some l"
    then have "((rid, pk_target_identity l), l) \<in> set (st_projection_links s)"
      by (simp add: get_projection_link_def map_of_SomeD)
    then show "l \<in> set (list_projection_links rid s)"
      by (force simp: list_projection_links_def)
  qed
qed

section \<open>What a read discloses\<close>

text \<open>
  \<open>get\<close> hands out a record only to a caller of the record's tenant (or a global
  administrator) whose read grants match its namespace, and a quarantined or deleted record
  only to an administrator; every other stored record raises an authorization error, an
  unknown one is \<open>None\<close>, and no read changes the store.
\<close>

theorem get_discloses_exactly:
  "(get_memory en p rid s = (Inr (Some r), t)) \<longleftrightarrow>
     t = s \<and> get_record rid s = Some r
     \<and> (mr_tenant_id r = mp_tenant_id p \<or> mp_is_global_admin p) \<and> may p A_READ (mr_namespace r)
     \<and> (mr_state r \<in> {QUARANTINED, DELETION_PENDING, DELETED} \<longrightarrow> mp_is_admin p)"
  by (cases "get_record rid s") (auto simp: get_memory_def andThen_Inr can_cross_tenant_def)

theorem get_discloses_exactly_witness:
  "get_memory smp_env smp_principal 1 (empty_store\<lparr>st_records := [(1, smp_record 1 ACTIVE)]\<rparr>)
     = (Inr (Some (smp_record 1 ACTIVE)), empty_store\<lparr>st_records := [(1, smp_record 1 ACTIVE)]\<rparr>)"
proof -
  have m: "may smp_principal A_READ ''ns''" "mp_tenant_id smp_principal = ''t''"
    by (simp_all add: may_def patterns_for_def smp_principal_def fnmatch_literal)
  show ?thesis unfolding get_discloses_exactly by (simp add: m get_record_def)
qed

lemma authorize_all_Inr:
  "for_each (\<lambda>ns. andThen (authorize en p a ns) (\<lambda>_. ret ())) xs s = (Inr u, t) \<longleftrightarrow>
     t = s \<and> (\<forall>ns \<in> set xs. may p a ns)"
  by (induction xs) (auto simp: andThen_Inr)

text \<open>
  A search is confined to what the caller may read: whatever namespaces the
  request names (or none, and only wildcard grants exist), if the search goes ahead then
  every record the store returns for it belongs to the caller's tenant, lies in a namespace
  the caller's read grants match, and is neither quarantined nor deleted nor pending
  deletion.
\<close>

theorem search_confined_to_grants:
  assumes "authorized_search_namespaces en p requested s = (Inr nss, t)"
    and "r \<in> set (search_records (mp_tenant_id p) q nss t)"
  shows "mr_tenant_id r = mp_tenant_id p \<and> may p A_READ (mr_namespace r)
    \<and> mr_state r \<in> {ACTIVE, SUPERSEDED, ARCHIVED} \<and> t = s
    \<and> (requested \<noteq> [] \<longrightarrow> mr_namespace r \<in> set requested)"
proof -
  have n: "set nss = set (if requested \<noteq> [] then requested else concrete_namespaces (mp_read_namespaces p))"
      "t = s" "\<forall>ns \<in> set nss. may p A_READ ns"
    using assms(1) by (auto simp: authorized_search_namespaces_def andThen_Inr authorize_all_Inr Let_def)
  have "search_matches (mp_tenant_id p) q nss r"
    using assms(2) by (auto simp: search_records_def dest!: in_set_takeD)
  then have "mr_tenant_id r = mp_tenant_id p" "mr_namespace r \<in> set nss" "mr_state r \<in> set (search_states q)"
    by (simp_all add: search_matches_def)
  then show ?thesis
    using n by (auto simp: search_states_def split: if_splits)
qed

theorem search_confined_to_grants_witness:
  "smp_record 1 ACTIVE \<in> set (search_records ''t'' smp_search [''ns''] (empty_store\<lparr>st_records := [(1, smp_record 1 ACTIVE)]\<rparr>))
     \<and> may smp_principal A_READ (mr_namespace (smp_record 1 ACTIVE))"
proof -
  let ?s = "empty_store\<lparr>st_records := [(1, smp_record 1 ACTIVE)]\<rparr>"
  have m: "may smp_principal A_READ ''ns''"
    by (simp add: may_def patterns_for_def smp_principal_def fnmatch_literal)
  have a: "authorized_search_namespaces smp_env smp_principal [''ns''] ?s = (Inr [''ns''], ?s)"
    by (simp add: authorized_search_namespaces_def andThen_Inr authorize_all_Inr m dedup_id)
  have "search_matches ''t'' smp_search [''ns''] (smp_record 1 ACTIVE)"
    by (simp add: search_matches_def smp_search_def search_states_def is_valid_at_def smp_confidence_def)
  then have r: "smp_record 1 ACTIVE \<in> set (search_records ''t'' smp_search [''ns''] ?s)"
    by (simp add: search_records_def by_recency_def sort_desc_def smp_search_def)
  have t: "mp_tenant_id smp_principal = ''t''" by (simp add: smp_principal_def)
  show ?thesis
    using search_confined_to_grants [OF a, of "smp_record 1 ACTIVE" smp_search] r t by simp
qed

end
