(* ===== verification/ServiceWrite.thy ===== *)
theory ServiceWrite
  imports Service Normalization
begin

text \<open>
  Writes: \<open>write\<close>, \<open>_admit\<close> and \<open>_duplicate_receipt\<close> of \<open>services/memory_service.py\<close>. One
  admission authorizes, normalizes, looks the operation identity up, decides, and then
  either answers with the record already there, records the refusal, or plans the record
  with its status events and outbox intents and commits them in one store call.
\<close>

section \<open>The operation\<close>

definition assertion_json :: "memory_assertion option \<Rightarrow> json" where
  "assertion_json a =
     (case a of
        None \<Rightarrow> JNull
      | Some x \<Rightarrow> JObj [(''subject'', opt_str (as_subject x)), (''predicate'', opt_str (as_predicate x)),
                       (''object'', opt_str (as_object x))])"

definition admission_context :: "memory_write_request \<Rightarrow> json" where
  "admission_context q =
     JObj ([(''namespace'', JStr (wr_namespace q)),
            (''memory_class'', JStr (class_value (wr_memory_class q))),
            (''assertion'', assertion_json (wr_assertion q)),
            (''consent_id'', (case wr_consent q of None \<Rightarrow> JNull | Some g \<Rightarrow> JStr (uuid_str (cg_consent_id g))))]
       @ (case dict_get (wr_metadata q) NUMERIC_DECLARATIONS_KEY of
            None \<Rightarrow> []
          | Some d \<Rightarrow> if truthy d then [(NUMERIC_DECLARATIONS_KEY, d)] else []))"

definition operation_identity :: "env \<Rightarrow> memory_write_request \<Rightarrow> string" where
  "operation_identity en q =
     (if nonempty_opt (wr_idempotency_key q) then the (wr_idempotency_key q)
      else ''operation:'' @ wr_namespace q @ '':'' @ uuid_str (env_uuid en U_operation))"

definition SUPERSEDABLE_STATES :: "memory_state list" where
  "SUPERSEDABLE_STATES = [ACTIVE, SUPERSEDED, ARCHIVED]"

text \<open>The fields every receipt of one admission shares.\<close>

definition write_receipt_for ::
  "env \<Rightarrow> memory_write_request \<Rightarrow> normalization_result \<Rightarrow> admission_decision \<Rightarrow> authorization_receipt
     \<Rightarrow> string \<Rightarrow> write_status \<Rightarrow> write_receipt" where
  "write_receipt_for en q n decision authorization key status =
     \<lparr>wrc_receipt_id = env_uuid en U_receipt, wrc_status = status, wrc_record_id = None,
      wrc_namespace = wr_namespace q, wrc_schema_version = MEMORY_SCHEMA_VERSION,
      wrc_normalized_digest = nr_normalized_digest n, wrc_original_digest = nr_original_digest n,
      wrc_idempotency_key = key, wrc_idempotency_key_supplied = (wr_idempotency_key q \<noteq> None),
      wrc_admission = decision, wrc_authorization = authorization, wrc_outbox_event_ids = [],
      wrc_superseded_record_ids = [], wrc_warnings = ad_warnings decision, wrc_created_at = env_wall en\<rparr>"

definition drift_warning :: "memory_record \<Rightarrow> normalization_result \<Rightarrow> string" where
  "drift_warning existing n =
     ''idempotent replay payload differs from the stored record (stored digest ''
       @ take 12 (mr_normalized_digest existing) @ '', replay digest '' @ take 12 (nr_normalized_digest n)
       @ ''); the original record remains authoritative''"

text \<open>\<open>self.store.commit_write(SERVICE_WRITE_CAPABILITY, None, receipt)\<close> unless it is a dry run.\<close>

definition commit_receipt :: "service \<Rightarrow> memory_write_request \<Rightarrow> write_receipt \<Rightarrow> write_receipt store_op" where
  "commit_receipt svc q receipt =
     andThen (if wr_dry_run q then ret ()
              else commit_write (sv_hash svc) SERVICE_WRITE_CAPABILITY None receipt [] [] None)
       (\<lambda>_. ret receipt)"

definition duplicate_receipt ::
  "service \<Rightarrow> env \<Rightarrow> memory_write_request \<Rightarrow> memory_record \<Rightarrow> normalization_result \<Rightarrow> admission_decision
     \<Rightarrow> authorization_receipt \<Rightarrow> string \<Rightarrow> write_receipt store_op" where
  "duplicate_receipt svc en q existing n decision authorization key =
     commit_receipt svc q
       ((write_receipt_for en q n decision authorization key W_DUPLICATE)
          \<lparr>wrc_record_id := Some (mr_record_id existing),
           wrc_schema_version := mr_schema_version existing,
           wrc_warnings := ad_warnings decision
             @ (if mr_normalized_digest existing \<noteq> nr_normalized_digest n then [drift_warning existing n] else [])\<rparr>)"

definition rejected_receipt ::
  "service \<Rightarrow> env \<Rightarrow> memory_write_request \<Rightarrow> normalization_result \<Rightarrow> admission_decision
     \<Rightarrow> authorization_receipt \<Rightarrow> string \<Rightarrow> write_receipt store_op" where
  "rejected_receipt svc en q n decision authorization key =
     commit_receipt svc q (write_receipt_for en q n decision authorization key W_REJECTED)"

definition candidate_record ::
  "env \<Rightarrow> memory_principal \<Rightarrow> memory_write_request \<Rightarrow> normalization_result \<Rightarrow> string \<Rightarrow> memory_state
     \<Rightarrow> memory_record" where
  "candidate_record en p q n key state =
     \<lparr>mr_record_id = env_uuid en U_record, mr_schema_version = MEMORY_SCHEMA_VERSION,
      mr_tenant_id = mp_tenant_id p, mr_namespace = wr_namespace q, mr_memory_class = wr_memory_class q,
      mr_content = nr_redacted_content n, mr_assertion = wr_assertion q,
      mr_temporal = \<lparr>valid_from = wr_valid_from q, valid_to = wr_valid_to q, recorded_at = env_now en,
                     source_observed_at = wr_source_observed_at q, superseded_at = None\<rparr>,
      mr_provenance = wr_provenance q, mr_evidence = wr_evidence q, mr_confidence = wr_confidence q,
      mr_state = state, mr_tags = wr_tags q,
      mr_metadata =
        merge_obj (filter (\<lambda>(k, v). k \<noteq> NUMERIC_DECLARATIONS_KEY) (wr_metadata q))
          [(''pii_redacted'', JBool (nr_pii_types n \<noteq> [])),
           (''pii_types'', JList (map JStr (nr_pii_types n))),
           (''safety_signals'', JList (map JStr (nr_safety_signals n)))],
      mr_normalized_digest = nr_normalized_digest n, mr_original_digest = nr_original_digest n,
      mr_idempotency_key = key, mr_supersedes = wr_supersedes q, mr_references = wr_references q,
      mr_consent = wr_consent q, mr_conflicts_with = [], mr_created_by = audit_subject p,
      mr_created_at = env_now en\<rparr>"

text \<open>The check of one superseded record and the status event it yields.\<close>

definition superseding_event ::
  "env \<Rightarrow> memory_principal \<Rightarrow> memory_write_request \<Rightarrow> memory_record \<Rightarrow> nat \<times> uuid \<Rightarrow> memory_status_event store_op" where
  "superseding_event en p q r x =
     andThen (gets (get_record (snd x))) (\<lambda>found.
       case found of
         None \<Rightarrow> throw (StoreError ''superseded record does not exist'')
       | Some prior \<Rightarrow>
           andThen (check (mr_tenant_id prior = mp_tenant_id p \<and> mr_namespace prior = wr_namespace q)
             (AuthorizationError ''cannot supersede a record outside the authorized tenant and namespace'')) (\<lambda>_.
           andThen (check (mr_state prior \<in> set SUPERSEDABLE_STATES)
             (AdmissionError ''only active, superseded, or archived records carry truth a successor can replace'')) (\<lambda>_.
             from_sum (make_status_event
               \<lparr>se_event_id = env_uuid en (U_status (fst x)), se_record_id = snd x,
                se_previous_state = Some (mr_state prior), se_new_state = SUPERSEDED,
                se_reason = ''superseded by '' @ uuid_str (mr_record_id r), se_actor = audit_subject p,
                se_occurred_at = env_now en, se_receipt_id = None\<rparr>))))"

definition project_events :: "service \<Rightarrow> env \<Rightarrow> memory_record \<Rightarrow> outbox_event list" where
  "project_events svc en r =
     target_events en 0 ''memory.record.project'' (mr_record_id r) (mr_namespace r)
       [(''record_id'', JStr (uuid_str (mr_record_id r))), (''schema_version'', JStr (mr_schema_version r))]
       (delivery_identities svc)"

definition retire_superseded :: "service \<Rightarrow> env \<Rightarrow> memory_record \<Rightarrow> store \<Rightarrow> nat \<Rightarrow> uuid \<Rightarrow> outbox_event list" where
  "retire_superseded svc en r s k rid =
     target_events en k ''memory.record.retire'' rid (mr_namespace r)
       [(''record_id'', JStr (uuid_str rid)),
        (''reason'', JStr (''superseded by '' @ uuid_str (mr_record_id r))),
        (''superseded_by'', JStr (uuid_str (mr_record_id r)))]
       (copy_holders svc rid s)"

definition write_events :: "service \<Rightarrow> env \<Rightarrow> memory_record \<Rightarrow> uuid list \<Rightarrow> store \<Rightarrow> outbox_event list" where
  "write_events svc en r superseded s =
     (if mr_state r = ACTIVE
      then project_events svc en r
             @ extend_events (retire_superseded svc en r s) (length (project_events svc en r)) superseded
      else [])"

definition initial_event ::
  "env \<Rightarrow> memory_principal \<Rightarrow> memory_record \<Rightarrow> uuid list \<Rightarrow> memory_status_event" where
  "initial_event en p r superseded =
     \<lparr>se_event_id = env_uuid en (U_status 0), se_record_id = mr_record_id r, se_previous_state = None,
      se_new_state = mr_state r,
      se_reason = (if mr_state r = QUARANTINED then ''record quarantined by admission policy''
                   else if superseded \<noteq> [] then ''record admitted and supersedes prior records''
                   else ''record admitted by admission policy''),
      se_actor = audit_subject p, se_occurred_at = env_now en, se_receipt_id = Some (env_uuid en U_receipt)\<rparr>"

definition effective_supersedes :: "memory_write_request \<Rightarrow> memory_record \<Rightarrow> uuid list" where
  "effective_supersedes q r = (if mr_state r = ACTIVE then wr_supersedes q else [])"

definition stored_receipt ::
  "env \<Rightarrow> memory_write_request \<Rightarrow> normalization_result \<Rightarrow> admission_decision \<Rightarrow> authorization_receipt
     \<Rightarrow> string \<Rightarrow> memory_record \<Rightarrow> outbox_event list \<Rightarrow> write_receipt" where
  "stored_receipt en q n decision authorization key r events =
     (write_receipt_for en q n decision authorization key (ad_status decision))
       \<lparr>wrc_record_id := Some (mr_record_id r), wrc_outbox_event_ids := map ob_event_id events,
        wrc_superseded_record_ids := effective_supersedes q r,
        wrc_warnings := ad_warnings decision
          @ (if wr_supersedes q \<noteq> [] \<and> mr_state r = QUARANTINED
             then [''supersession deferred until the quarantined candidate is approved''] else []),
        wrc_created_at := env_now en\<rparr>"

text \<open>The record, its receipt, its outbox intents and its status events, before the commit.\<close>

definition plan_write ::
  "service \<Rightarrow> env \<Rightarrow> memory_principal \<Rightarrow> memory_write_request \<Rightarrow> normalization_result \<Rightarrow> admission_decision
     \<Rightarrow> authorization_receipt \<Rightarrow> string
     \<Rightarrow> (memory_record \<times> write_receipt \<times> outbox_event list \<times> memory_status_event list) store_op" where
  "plan_write svc en p q n decision authorization key =
     (let state = (if ad_status decision = W_QUARANTINED then QUARANTINED else ACTIVE);
          candidate = candidate_record en p q n key state in
      andThen (from_sum (validate_coordinates (mr_temporal candidate))) (\<lambda>_.
      andThen (from_sum (make_memory_record candidate)) (\<lambda>r.
      let superseded = effective_supersedes q r in
      andThen (map_each (superseding_event en p q r) (enumerate 1 superseded)) (\<lambda>supersessions.
      andThen (gets (write_events svc en r superseded)) (\<lambda>events.
      let receipt = stored_receipt en q n decision authorization key r events in
      andThen (from_sum (make_status_event (initial_event en p r superseded))) (\<lambda>initial.
        ret (r, receipt, events,
             initial # map (\<lambda>e. e\<lparr>se_receipt_id := Some (wrc_receipt_id receipt)\<rparr>) supersessions)))))))"

text \<open>\<open>except IdempotencyConflict\<close>: the winner of the race is answered as a duplicate.\<close>

definition lost_race ::
  "service \<Rightarrow> env \<Rightarrow> memory_principal \<Rightarrow> memory_write_request \<Rightarrow> normalization_result
     \<Rightarrow> authorization_receipt \<Rightarrow> string \<Rightarrow> error \<Rightarrow> write_receipt store_op" where
  "lost_race svc en p q n authorization key e =
     (case e of
        IdempotencyConflict _ \<Rightarrow>
          if wr_idempotency_key q = None
          then throw (StoreError ''minted operation identity collided, which cannot happen'')
          else
            andThen (gets (find_by_idempotency (mp_tenant_id p) (wr_namespace q) key)) (\<lambda>found.
              case found of
                None \<Rightarrow> throw (StoreError ''idempotency conflict reported but the winning record is not readable'')
              | Some winner \<Rightarrow>
                  duplicate_receipt svc en q winner n
                    (admission_evaluate (stamp_of en U_decision) (sv_admission svc) q n authorization True)
                    authorization key)
      | _ \<Rightarrow> throw e)"

definition store_admitted ::
  "service \<Rightarrow> env \<Rightarrow> memory_principal \<Rightarrow> memory_write_request \<Rightarrow> normalization_result \<Rightarrow> admission_decision
     \<Rightarrow> authorization_receipt \<Rightarrow> string \<Rightarrow> phase_lock_precondition option \<Rightarrow> write_receipt store_op" where
  "store_admitted svc en p q n decision authorization key expected =
     andThen (plan_write svc en p q n decision authorization key) (\<lambda>(r, receipt, events, status_events).
       if wr_dry_run q then ret receipt
       else try_catch
         (andThen (commit_write (sv_hash svc) SERVICE_WRITE_CAPABILITY (Some r) receipt events status_events expected)
            (\<lambda>_. ret receipt))
         (lost_race svc en p q n authorization key))"

definition admit ::
  "service \<Rightarrow> env \<Rightarrow> memory_principal \<Rightarrow> memory_write_request \<Rightarrow> authorization_action
     \<Rightarrow> phase_lock_precondition option \<Rightarrow> write_receipt store_op" where
  "admit svc en p q action expected =
     (let authorization = evaluate (stamp_of en U_authorization) p action (wr_namespace q);
          n = sv_normalize svc (wr_content q) (admission_context q);
          key = operation_identity en q in
      andThen (if nonempty_opt (wr_idempotency_key q)
               then gets (find_by_idempotency (mp_tenant_id p) (wr_namespace q) key)
               else ret None) (\<lambda>existing.
      let decision = admission_evaluate (stamp_of en U_decision) (sv_admission svc) q n authorization
                       (existing \<noteq> None) in
      if ad_status decision = W_DUPLICATE then
        (case existing of
           None \<Rightarrow> throw (StoreError ''admission reported duplicate but store returned no record'')
         | Some r \<Rightarrow> duplicate_receipt svc en q r n decision authorization key)
      else if ad_status decision = W_REJECTED then rejected_receipt svc en q n decision authorization key
      else store_admitted svc en p q n decision authorization key expected))"

definition write_memory :: "service \<Rightarrow> env \<Rightarrow> memory_principal \<Rightarrow> memory_write_request \<Rightarrow> write_receipt store_op" where
  "write_memory svc en p q = admit svc en p q A_WRITE None"

section \<open>Receipts without a record\<close>

lemma commit_receipt_eq:
  "commit_receipt svc q rc s =
     (Inr rc, if wr_dry_run q then s else s\<lparr>st_receipts := dict_set (wrc_receipt_id rc) rc (st_receipts s)\<rparr>)"
  by (simp add: commit_receipt_def commit_write_eq commit_guard_def commit_body_def index_selectors_eq
      indexed_def inserted_def require_service_write_capability_def check_transitions_def
      put_outbox_events_def andThen_def check_def ret_def modify_def)

abbreviation receipts_only :: "store \<Rightarrow> store \<Rightarrow> bool" where
  "receipts_only s t \<equiv> t = s\<lparr>st_receipts := st_receipts t\<rparr>"

lemma duplicate_receipt_cases:
  "duplicate_receipt svc en q e n d a key s = (res, t) \<Longrightarrow>
     (\<exists>rc. res = Inr rc \<and> wrc_status rc = W_DUPLICATE \<and> wrc_record_id rc = Some (mr_record_id e)
        \<and> wrc_outbox_event_ids rc = [] \<and> wrc_superseded_record_ids rc = [] \<and>
        wrc_warnings rc = ad_warnings d
          @ (if mr_normalized_digest e \<noteq> nr_normalized_digest n then [drift_warning e n] else []))
     \<and> (if wr_dry_run q then t = s else receipts_only s t)"
  by (auto simp: duplicate_receipt_def commit_receipt_eq write_receipt_for_def)

lemma rejected_receipt_cases:
  "rejected_receipt svc en q n d a key s = (res, t) \<Longrightarrow>
     (\<exists>rc. res = Inr rc \<and> wrc_status rc = W_REJECTED \<and> wrc_record_id rc = None \<and> wrc_outbox_event_ids rc = [])
     \<and> (if wr_dry_run q then t = s else receipts_only s t)"
  by (auto simp: rejected_receipt_def commit_receipt_eq write_receipt_for_def)

section \<open>The plan of a write\<close>

lemma reads_only_superseding [simp]: "reads_only (superseding_event en p q r x)"
  unfolding superseding_event_def
  by (intro reads_only_andThen) (auto split: option.splits intro!: reads_only_andThen)

lemma make_status_event_Inr:
  "make_status_event e = Inr e' \<longleftrightarrow> e' = e \<and> len_ok 1 2000 (se_reason e) \<and> len_ok 1 300 (se_actor e)"
  "Inr e' = make_status_event e \<longleftrightarrow> e' = e \<and> len_ok 1 2000 (se_reason e) \<and> len_ok 1 300 (se_actor e)"
  by (auto simp: make_status_event_def)

text \<open>The record a supersession leaves behind.\<close>

definition superseded_version :: "instant \<Rightarrow> memory_record \<Rightarrow> memory_record" where
  "superseded_version now r =
     r\<lparr>mr_state := SUPERSEDED, mr_temporal := (mr_temporal r)\<lparr>superseded_at := Some now\<rparr>\<rparr>"

definition may_supersede :: "memory_principal \<Rightarrow> string \<Rightarrow> memory_record \<Rightarrow> bool" where
  "may_supersede p ns prior \<longleftrightarrow>
     mr_tenant_id prior = mp_tenant_id p \<and> mr_namespace prior = ns \<and> mr_state prior \<in> {ACTIVE, SUPERSEDED, ARCHIVED}"

definition supersedes_with :: "env \<Rightarrow> memory_principal \<Rightarrow> string \<Rightarrow> store \<Rightarrow> memory_status_event \<Rightarrow> bool" where
  "supersedes_with en p ns s e \<longleftrightarrow>
     se_new_state e = SUPERSEDED \<and> se_occurred_at e = env_now en \<and>
     (\<exists>prior. get_record (se_record_id e) s = Some prior \<and> may_supersede p ns prior)"

lemma superseding_event_Inr:
  "superseding_event en p q r x s = (Inr e, t) \<Longrightarrow>
     t = s \<and> se_record_id e = snd x \<and> supersedes_with en p (wr_namespace q) s e"
  by (auto simp: superseding_event_def andThen_Inr supersedes_with_def may_supersede_def
      SUPERSEDABLE_STATES_def make_status_event_Inr split: option.splits)

lemma superseding_events_Inr:
  "map_each (superseding_event en p q r) (enumerate k xs) s = (Inr es, t) \<Longrightarrow>
     t = s \<and> map se_record_id es = xs \<and> (\<forall>e \<in> set es. supersedes_with en p (wr_namespace q) s e)"
proof (induction xs arbitrary: k es t)
  case Nil
  then show ?case by simp
next
  case (Cons x xs)
  from Cons.prems obtain e u es' where e: "superseding_event en p q r (k, x) s = (Inr e, u)"
    and es: "map_each (superseding_event en p q r) (enumerate (Suc k) xs) u = (Inr es', t)" "es = e # es'"
    by (auto simp: andThen_Inr)
  have u: "u = s" using superseding_event_Inr [OF e] by simp
  from Cons.IH [OF es(1) [unfolded u]] superseding_event_Inr [OF e] es(2) show ?case by simp
qed

definition planned_record ::
  "env \<Rightarrow> memory_principal \<Rightarrow> memory_write_request \<Rightarrow> normalization_result \<Rightarrow> string \<Rightarrow> memory_state
     \<Rightarrow> memory_record" where
  "planned_record en p q n key state =
     (candidate_record en p q n key state)\<lparr>mr_tags := normalize_tags (wr_tags q)\<rparr>"

lemma planned_record_sel [simp]:
  "mr_record_id (planned_record en p q n key st) = env_uuid en U_record"
  "mr_tenant_id (planned_record en p q n key st) = mp_tenant_id p"
  "mr_namespace (planned_record en p q n key st) = wr_namespace q"
  "mr_idempotency_key (planned_record en p q n key st) = key"
  "mr_content (planned_record en p q n key st) = nr_redacted_content n"
  "mr_normalized_digest (planned_record en p q n key st) = nr_normalized_digest n"
  "mr_state (planned_record en p q n key st) = st"
  "mr_created_by (planned_record en p q n key st) = audit_subject p"
  by (simp_all add: planned_record_def candidate_record_def)

lemma effective_planned:
  "effective_supersedes q (planned_record en p q n key st) = (if st = ACTIVE then wr_supersedes q else [])"
  by (simp add: effective_supersedes_def)

lemma plan_write_Inr:
  assumes "plan_write svc en p q n d a key s = (Inr (r, rc, events, ses), t)"
  shows "t = s \<and> r = planned_record en p q n key (if ad_status d = W_QUARANTINED then QUARANTINED else ACTIVE)
    \<and> events = write_events svc en r (effective_supersedes q r) s
    \<and> rc = stored_receipt en q n d a key r events
    \<and> (\<exists>es. ses = initial_event en p r (effective_supersedes q r) # es
         \<and> map se_record_id es = effective_supersedes q r
         \<and> (\<forall>e \<in> set es. supersedes_with en p (wr_namespace q) s e))"
proof -
  let ?st = "if ad_status d = W_QUARANTINED then QUARANTINED else ACTIVE"
  have r: "make_memory_record (candidate_record en p q n key ?st) = Inr r'
      \<Longrightarrow> r' = planned_record en p q n key ?st" for r'
    by (auto simp: make_memory_record_Inr planned_record_def candidate_record_def)
  from assms show ?thesis
    unfolding plan_write_def Let_def
    by (auto simp: andThen_Inr make_status_event_Inr supersedes_with_def o_def
        dest!: superseding_events_Inr r r [OF sym])
qed

lemma reads_only_plan_write: "reads_only (plan_write svc en p q n d a key)"
  unfolding plan_write_def Let_def
  by (intro reads_only_andThen reads_only_map_each reads_only_superseding reads_only_from_sum
      reads_only_gets reads_only_ret)

section \<open>The admission, case by case\<close>

definition normalized :: "service \<Rightarrow> memory_write_request \<Rightarrow> normalization_result" where
  "normalized svc q = sv_normalize svc (wr_content q) (admission_context q)"

definition prior_operation :: "env \<Rightarrow> memory_principal \<Rightarrow> memory_write_request \<Rightarrow> store \<Rightarrow> memory_record option" where
  "prior_operation en p q s =
     (if nonempty_opt (wr_idempotency_key q)
      then find_by_idempotency (mp_tenant_id p) (wr_namespace q) (operation_identity en q) s else None)"

definition decision_of ::
  "service \<Rightarrow> env \<Rightarrow> memory_principal \<Rightarrow> memory_write_request \<Rightarrow> authorization_action \<Rightarrow> store \<Rightarrow> admission_decision" where
  "decision_of svc en p q action s =
     admission_evaluate (stamp_of en U_decision) (sv_admission svc) q (normalized svc q)
       (evaluate (stamp_of en U_authorization) p action (wr_namespace q)) (prior_operation en p q s \<noteq> None)"

lemma decision_facts:
  "admits (ad_status (decision_of svc en p q action s)) \<longleftrightarrow>
     admissible (sv_admission svc) q (normalized svc q) (may p action (wr_namespace q)) (prior_operation en p q s \<noteq> None)"
  "ad_status (decision_of svc en p q action s) = W_DUPLICATE \<longleftrightarrow>
     may p action (wr_namespace q) \<and> prior_operation en p q s \<noteq> None"
  "\<not> may p action (wr_namespace q) \<Longrightarrow> ad_status (decision_of svc en p q action s) = W_REJECTED"
  by (simp_all add: decision_of_def evaluate_status verdict_admits verdict_duplicate verdict_unauthorized)

lemma admit_eq:
  "admit svc en p q action expected s =
     (let a = evaluate (stamp_of en U_authorization) p action (wr_namespace q);
          d = decision_of svc en p q action s; key = operation_identity en q in
      if ad_status d = W_DUPLICATE
      then duplicate_receipt svc en q (the (prior_operation en p q s)) (normalized svc q) d a key s
      else if ad_status d = W_REJECTED then rejected_receipt svc en q (normalized svc q) d a key s
      else store_admitted svc en p q (normalized svc q) d a key expected s)"
proof -
  have "prior_operation en p q s \<noteq> None" if "ad_status (decision_of svc en p q action s) = W_DUPLICATE"
    using that decision_facts(2) by blast
  then show ?thesis
    by (cases "prior_operation en p q s")
      (auto simp: admit_def prior_operation_def decision_of_def normalized_def andThen_def Let_def gets_def ret_def
        split: if_splits)
qed

text \<open>How storing an admitted candidate can end.\<close>

lemma store_admitted_cases:
  assumes "store_admitted svc en p q n d a key expected s = (res, t)"
  obtains
    (refused) e where "res = Inl e" "t = s"
  | (dry) r rc events ses where "wr_dry_run q" "res = Inr rc" "t = s"
      "plan_write svc en p q n d a key s = (Inr (r, rc, events, ses), s)"
  | (stored) r rc events ses where "\<not> wr_dry_run q" "res = Inr rc"
      "plan_write svc en p q n d a key s = (Inr (r, rc, events, ses), s)"
      "commit_write (sv_hash svc) SERVICE_WRITE_CAPABILITY (Some r) rc events ses expected s = (Inr (), t)"
  | (failed) r rc events ses e u where "\<not> wr_dry_run q"
      "plan_write svc en p q n d a key s = (Inr (r, rc, events, ses), s)"
      "commit_write (sv_hash svc) SERVICE_WRITE_CAPABILITY (Some r) rc events ses expected s = (Inl e, u)"
      "lost_race svc en p q n a key e u = (res, t)"
proof -
  obtain x u where pl: "plan_write svc en p q n d a key s = (x, u)" by fastforce
  then have u: "u = s" using reads_only_plan_write reads_onlyD by metis
  show thesis
  proof (cases x)
    case (Inl e)
    with assms pl u have "res = Inl e" "t = s" by (simp_all add: store_admitted_def andThen_def)
    then show thesis by (rule refused)
  next
    case (Inr y)
    obtain r rc events ses where y: "y = (r, rc, events, ses)" by (cases y)
    obtain z v where c: "commit_write (sv_hash svc) SERVICE_WRITE_CAPABILITY (Some r) rc events ses expected s = (z, v)"
      by fastforce
    show thesis
    proof (cases "wr_dry_run q")
      case True
      with assms pl u Inr y have e: "res = Inr rc" "t = s"
        by (simp_all add: store_admitted_def andThen_def ret_def)
      from pl u Inr y have "plan_write svc en p q n d a key s = (Inr (r, rc, events, ses), s)" by simp
      with True e show thesis by (intro dry)
    next
      case False
      with assms pl u Inr y c stored failed show thesis
        by (cases z) (auto simp: store_admitted_def andThen_def ret_def try_catch_def)
    qed
  qed
qed

text \<open>The handler answers with a duplicate or raises; it stores no record.\<close>

lemma lost_race_cases:
  "lost_race svc en p q n a key e u = (res, t) \<Longrightarrow>
     (t = u \<and> (\<exists>x. res = Inl x)) \<or>
     (\<exists>rc. res = Inr rc \<and> wrc_status rc = W_DUPLICATE \<and> (if wr_dry_run q then t = u else receipts_only u t))"
  by (auto simp: lost_race_def andThen_def gets_def throw_def
      split: error.splits if_splits option.splits dest!: duplicate_receipt_cases)

section \<open>What a write does\<close>

lemma commit_write_failed:
  assumes "commit_write hash cap (Some r) rc os es expected s = (Inl e, t)"
    and "store_wf s" and "get_record (mr_record_id r) s = None" and "distinct (map se_record_id es)"
  shows "t = s"
  using assms(1)
proof (cases rule: commit_write_cases)
  case (rollback e)
  have "fresh_record r s" using commit_guard_fresh [OF assms(2) rollback(4) assms(3)] .
  then have "removed (Some r) (inserted (Some r) s) = s" by (intro removed_inserted) simp
  with rollback show ?thesis by simp
next
  case body
  with assms(4) show ?thesis by (simp add: commit_body_ok)
qed

text \<open>The draws of an operation do not hit what the store already holds.\<close>

definition write_fresh :: "env \<Rightarrow> memory_write_request \<Rightarrow> store \<Rightarrow> bool" where
  "write_fresh en q s \<longleftrightarrow>
     store_wf s \<and> get_record (env_uuid en U_record) s = None \<and> distinct (wr_supersedes q)"

lemma plan_targets:
  assumes "plan_write svc en p q n d a key s = (Inr (r, rc, events, ses), s)" and "write_fresh en q s"
  shows "distinct (map se_record_id ses)" "mr_record_id r = env_uuid en U_record"
    "mr_record_id r \<notin> set (wr_supersedes q) \<or> mr_state r \<noteq> ACTIVE"
    "\<forall>e \<in> set ses. se_record_id e = mr_record_id r \<longrightarrow> se_new_state e = mr_state r \<and> mr_state r \<noteq> SUPERSEDED"
proof -
  from plan_write_Inr [OF assms(1)] obtain es where es:
      "ses = initial_event en p r (effective_supersedes q r) # es"
      "map se_record_id es = effective_supersedes q r"
      "\<forall>e \<in> set es. supersedes_with en p (wr_namespace q) s e"
    and r: "mr_record_id r = env_uuid en U_record" "mr_state r \<noteq> SUPERSEDED"
    by auto
  have new: "env_uuid en U_record \<notin> set (map se_record_id es)"
    using es(3) assms(2) by (auto simp: supersedes_with_def write_fresh_def)
  moreover have "distinct (map se_record_id es)"
    using es(2) assms(2) by (simp add: effective_supersedes_def write_fresh_def)
  ultimately show "distinct (map se_record_id ses)" "mr_record_id r = env_uuid en U_record"
    using es(1) r by (simp_all add: initial_event_def)
  from new es(2) r(1) show "mr_record_id r \<notin> set (wr_supersedes q) \<or> mr_state r \<noteq> ACTIVE"
    by (auto simp: effective_supersedes_def)
  have "se_record_id e \<noteq> mr_record_id r" if "e \<in> set es" for e
    using that new r(1) by (metis image_eqI list.set_map)
  then show "\<forall>e \<in> set ses. se_record_id e = mr_record_id r \<longrightarrow> se_new_state e = mr_state r \<and> mr_state r \<noteq> SUPERSEDED"
    using es(1) r(2) by (simp add: initial_event_def)
qed

lemma admit_outcome:
  assumes "admit svc en p q action expected s = (res, t)" and "write_fresh en q s"
  shows "(wr_dry_run q \<longrightarrow> t = s)
    \<and> (\<not> may p action (wr_namespace q) \<longrightarrow>
         (\<exists>rc. res = Inr rc \<and> wrc_status rc = W_REJECTED \<and> wrc_record_id rc = None))
    \<and> ((\<exists>e. res = Inl e) \<longrightarrow> t = s)
    \<and> (t = s \<or> receipts_only s t
       \<or> may p action (wr_namespace q) \<and> (\<exists>rc r events ses. res = Inr rc \<and>
            plan_write svc en p q (normalized svc q) (decision_of svc en p q action s)
              (evaluate (stamp_of en U_authorization) p action (wr_namespace q)) (operation_identity en q) s
              = (Inr (r, rc, events, ses), s)
            \<and> commit_write (sv_hash svc) SERVICE_WRITE_CAPABILITY (Some r) rc events ses expected s = (Inr (), t)))"
proof -
  let ?d = "decision_of svc en p q action s"
  let ?a = "evaluate (stamp_of en U_authorization) p action (wr_namespace q)"
  let ?key = "operation_identity en q"
  consider (dup) "ad_status ?d = W_DUPLICATE" | (rej) "ad_status ?d = W_REJECTED"
    | (store) "ad_status ?d \<noteq> W_DUPLICATE" "ad_status ?d \<noteq> W_REJECTED" by blast
  then show ?thesis
  proof cases
    case dup
    with assms(1) have "duplicate_receipt svc en q (the (prior_operation en p q s)) (normalized svc q) ?d ?a ?key s = (res, t)"
      by (simp add: admit_eq Let_def)
    from duplicate_receipt_cases [OF this] dup decision_facts(2) [of svc en p q action s]
    show ?thesis by (auto split: if_splits)
  next
    case rej
    with assms(1) have "rejected_receipt svc en q (normalized svc q) ?d ?a ?key s = (res, t)"
      by (simp add: admit_eq Let_def)
    from rejected_receipt_cases [OF this] show ?thesis by (auto split: if_splits)
  next
    case store
    then have may: "may p action (wr_namespace q)" using decision_facts(3) by blast
    from store assms(1) have "store_admitted svc en p q (normalized svc q) ?d ?a ?key expected s = (res, t)"
      by (simp add: admit_eq Let_def)
    then show ?thesis
    proof (cases rule: store_admitted_cases)
      case refused
      with may show ?thesis by simp
    next
      case dry
      with may show ?thesis by simp
    next
      case (stored r rc events ses)
      with may show ?thesis by blast
    next
      case (failed r rc events ses e u)
      have "u = s"
        using commit_write_failed [OF failed(3)] plan_targets [OF failed(2) assms(2)] assms(2)
        by (simp add: write_fresh_def)
      with lost_race_cases [OF failed(4)] may failed(1) show ?thesis by auto
    qed
  qed
qed

lemma receipts_only_records: "receipts_only s t \<Longrightarrow> get_record rid t = get_record rid s"
  by (metis get_record_def store.select_convs(1) store.update_convs(2) store.surjective)

text \<open>
  Property C2: a write stores nothing it did not admit. Let the store be well formed, the
  identifier drawn for the record unused, and let the request supersede no record twice
  (\<open>write_fresh\<close>; a commit that moves one record twice may tear). A caller without the grant
  always gets a REJECTED receipt and changes at most the receipts ledger; an exception or a dry
  run leaves the store exactly as it was; and if anything else than the receipts ledger changed,
  the write was authorized and answered with the receipt of the stored record.
\<close>

theorem write_stores_only_admitted:
  assumes "admit svc en p q action expected s = (res, t)" and "write_fresh en q s"
  shows "(\<not> may p action (wr_namespace q) \<longrightarrow>
           (\<exists>rc. res = Inr rc \<and> wrc_status rc = W_REJECTED \<and> wrc_record_id rc = None))
    \<and> ((\<exists>e. res = Inl e) \<or> wr_dry_run q \<longrightarrow> t = s)
    \<and> (t = s\<lparr>st_receipts := st_receipts t\<rparr> \<or>
         may p action (wr_namespace q) \<and> (\<exists>rc. res = Inr rc \<and>
           wrc_status rc \<notin> {W_REJECTED, W_DUPLICATE} \<and> wrc_record_id rc = Some (env_uuid en U_record)))"
proof -
  note out = admit_outcome [OF assms]
  have st: "wrc_status rc \<notin> {W_REJECTED, W_DUPLICATE} \<and> wrc_record_id rc = Some (env_uuid en U_record)"
    if stored: "t \<noteq> s\<lparr>st_receipts := st_receipts t\<rparr>" and rc: "res = Inr rc" for rc
  proof -
    have d: "ad_status (decision_of svc en p q action s) \<notin> {W_REJECTED, W_DUPLICATE}"
    proof (rule ccontr)
      assume "\<not> ?thesis"
      with assms(1) have "receipts_only s t"
        by (auto simp: admit_eq Let_def split: if_splits dest!: duplicate_receipt_cases rejected_receipt_cases)
      with stored show False by simp
    qed
    from out stored obtain r events ses where "plan_write svc en p q (normalized svc q) (decision_of svc en p q action s)
        (evaluate (stamp_of en U_authorization) p action (wr_namespace q)) (operation_identity en q) s
        = (Inr (r, rc, events, ses), s)"
      using rc by (cases "t = s") auto
    from plan_write_Inr [OF this] d show ?thesis
      by (auto simp: stored_receipt_def write_receipt_for_def)
  qed
  show ?thesis
    using out st by (cases "t = s") auto
qed

text \<open>What a stored write comes from and leaves behind.\<close>

lemma stored_write:
  assumes "admit svc en p q action expected s = (Inr rc, t)" and "write_fresh en q s"
    and "wrc_status rc \<notin> {W_REJECTED, W_DUPLICATE}" and "\<not> wr_dry_run q"
  obtains r events ses where
    "plan_write svc en p q (normalized svc q) (decision_of svc en p q action s)
       (evaluate (stamp_of en U_authorization) p action (wr_namespace q)) (operation_identity en q) s
       = (Inr (r, rc, events, ses), s)"
    "commit_write (sv_hash svc) SERVICE_WRITE_CAPABILITY (Some r) rc events ses expected s = (Inr (), t)"
    "ad_status (decision_of svc en p q action s) = wrc_status rc" "may p action (wr_namespace q)"
    "fresh_record r s"
proof -
  let ?d = "decision_of svc en p q action s"
  let ?a = "evaluate (stamp_of en U_authorization) p action (wr_namespace q)"
  have d: "ad_status ?d \<notin> {W_REJECTED, W_DUPLICATE}"
  proof (rule ccontr)
    assume "\<not> ?thesis"
    with assms(1,3) show False
      by (auto simp: admit_eq Let_def split: if_splits dest!: duplicate_receipt_cases rejected_receipt_cases)
  qed
  then have "store_admitted svc en p q (normalized svc q) ?d ?a (operation_identity en q) expected s = (Inr rc, t)"
    using assms(1) by (simp add: admit_eq Let_def)
  then show thesis
  proof (cases rule: store_admitted_cases)
    case (stored r rc' events ses)
    then have rc: "rc' = rc" by simp
    have "ad_status ?d = wrc_status rc"
      using plan_write_Inr [OF stored(3)] rc by (auto simp: stored_receipt_def write_receipt_for_def)
    moreover have "may p action (wr_namespace q)" using d decision_facts(3) by blast
    moreover have "fresh_record r s"
    proof -
      from stored(4) have "commit_guard (sv_hash svc) SERVICE_WRITE_CAPABILITY (Some r) expected s = (Inr (), s)"
        by (cases rule: commit_write_cases) simp_all
      then show ?thesis
        using commit_guard_fresh plan_targets(2) [OF stored(3) assms(2)] assms(2)
        by (auto simp: write_fresh_def)
    qed
    ultimately show thesis using that stored rc by blast
  next
    case (failed r rc' events ses e u)
    with lost_race_cases [OF failed(4)] assms(3) show thesis by auto
  qed (use assms(4) in auto)
qed

text \<open>
  Property C1: when a write answers that a memory is admitted, it is: the caller may write
  there and the candidate met every condition of the policy; the record is current, carries
  the caller's tenant, the requested namespace and the redacted content, and its operation
  identity now finds it; every record it supersedes existed in the same tenant and
  namespace and was current, superseded or archived, and is now superseded; every other
  record is untouched; and a governed write found the namespace exactly as its lock saw it.
\<close>

theorem admitted_write_effect:
  assumes "admit svc en p q action expected s = (Inr rc, t)" and "write_fresh en q s"
    and "admits (wrc_status rc)" and "\<not> wr_dry_run q"
  shows "may p action (wr_namespace q)
    \<and> admissible (sv_admission svc) q (normalized svc q) True (prior_operation en p q s \<noteq> None)
    \<and> (\<exists>r. get_record (env_uuid en U_record) t = Some r \<and> wrc_record_id rc = Some (mr_record_id r)
         \<and> mr_state r = ACTIVE \<and> mr_tenant_id r = mp_tenant_id p \<and> mr_namespace r = wr_namespace q
         \<and> mr_content r = nr_redacted_content (normalized svc q) \<and> mr_created_by r = audit_subject p
         \<and> find_by_idempotency (mp_tenant_id p) (wr_namespace q) (operation_identity en q) t = Some r)
    \<and> (\<forall>old \<in> set (wr_supersedes q). \<exists>prior. get_record old s = Some prior
         \<and> may_supersede p (wr_namespace q) prior
         \<and> get_record old t = Some (superseded_version (env_now en) prior))
    \<and> (\<forall>rid. rid \<noteq> env_uuid en U_record \<longrightarrow> rid \<notin> set (wr_supersedes q) \<longrightarrow>
         get_record rid t = get_record rid s)
    \<and> (\<forall>pre. expected = Some pre \<longrightarrow>
         snapshot_digest (sv_hash svc) (namespace_active (pp_tenant_id pre) (pp_namespace pre) s)
           = pp_expected_snapshot_digest pre)"
proof -
  have nd: "wrc_status rc \<notin> {W_REJECTED, W_DUPLICATE}" using assms(3) by (auto simp: admits_def)
  obtain r events ses where pl: "plan_write svc en p q (normalized svc q) (decision_of svc en p q action s)
       (evaluate (stamp_of en U_authorization) p action (wr_namespace q)) (operation_identity en q) s
       = (Inr (r, rc, events, ses), s)"
    and c: "commit_write (sv_hash svc) SERVICE_WRITE_CAPABILITY (Some r) rc events ses expected s = (Inr (), t)"
    and st: "ad_status (decision_of svc en p q action s) = wrc_status rc" and may: "may p action (wr_namespace q)"
    and fresh: "fresh_record r s"
    using stored_write [OF assms(1,2) nd assms(4)] by blast
  have adm: "admissible (sv_admission svc) q (normalized svc q) True (prior_operation en p q s \<noteq> None)"
    using decision_facts(1) [of svc en p q action s] assms(3) st may by simp
  have nq: "ad_status (decision_of svc en p q action s) \<noteq> W_QUARANTINED"
    using st assms(3) by (auto simp: admits_def)
  note plan = plan_write_Inr [OF pl]
  from plan nq have r: "r = planned_record en p q (normalized svc q) (operation_identity en q) ACTIVE" by simp
  then have eff_s: "effective_supersedes q r = wr_supersedes q" by (simp add: effective_planned)
  from plan have rc: "wrc_record_id rc = Some (mr_record_id r)" by (simp add: stored_receipt_def)
  from plan eff_s obtain es where
    ses: "ses = initial_event en p r (wr_supersedes q) # es" "map se_record_id es = wr_supersedes q"
      "\<forall>e \<in> set es. supersedes_with en p (wr_namespace q) s e"
    by auto
  note tg = plan_targets [OF pl assms(2)]
  note eff = commit_write_done [OF c fresh tg(1,4)]
  have old: "\<exists>prior. get_record old s = Some prior \<and> may_supersede p (wr_namespace q) prior
         \<and> get_record old t = Some (superseded_version (env_now en) prior)" if "old \<in> set (wr_supersedes q)" for old
  proof -
    from that ses(2) obtain e where e: "e \<in> set es" "se_record_id e = old" by (metis image_iff list.set_map)
    with ses(3) obtain prior where p: "get_record old s = Some prior" "may_supersede p (wr_namespace q) prior"
        "se_new_state e = SUPERSEDED" "se_occurred_at e = env_now en"
      by (auto simp: supersedes_with_def)
    have "e \<in> set ses" "se_record_id e \<noteq> mr_record_id r" using e ses(1) tg(3) that r by auto
    with eff e(2) p(1) have "get_record old t = Some (transitioned e prior)" by auto
    with p show ?thesis by (simp add: transitioned_def superseded_version_def)
  qed
  have rest: "get_record rid t = get_record rid s" if "rid \<noteq> env_uuid en U_record" "rid \<notin> set (wr_supersedes q)" for rid
    using eff that ses r by (simp add: initial_event_def)
  show ?thesis
    using may adm eff old rest r rc by simp
qed

text \<open>
  Property C14: an admitted write enqueues exactly the projection work it implies, in the
  commit that stores it: one project intent for every target that receives deliveries, and
  for every superseded record one retire intent for each target that may hold a copy of it,
  whether or not that target still receives deliveries; its receipt names these events.
\<close>

theorem admitted_write_enqueues:
  assumes "admit svc en p q action expected s = (Inr rc, t)" and "write_fresh en q s"
    and "admits (wrc_status rc)" and "\<not> wr_dry_run q"
  shows "\<exists>events. st_outbox t = dict_set_all ob_event_id events (st_outbox s)
    \<and> wrc_outbox_event_ids rc = map ob_event_id events
    \<and> (\<forall>e \<in> set events. ob_status e = X_PENDING)
    \<and> map intent events =
        map (\<lambda>t. (''memory.record.project'', env_uuid en U_record, Some t)) (delivery_identities svc)
        @ concat (map (\<lambda>old. map (\<lambda>t. (''memory.record.retire'', old, Some t)) (copy_holders svc old s))
                    (wr_supersedes q))"
proof -
  have nd: "wrc_status rc \<notin> {W_REJECTED, W_DUPLICATE}" using assms(3) by (auto simp: admits_def)
  obtain r events ses where pl: "plan_write svc en p q (normalized svc q) (decision_of svc en p q action s)
       (evaluate (stamp_of en U_authorization) p action (wr_namespace q)) (operation_identity en q) s
       = (Inr (r, rc, events, ses), s)"
    and c: "commit_write (sv_hash svc) SERVICE_WRITE_CAPABILITY (Some r) rc events ses expected s = (Inr (), t)"
    and st: "ad_status (decision_of svc en p q action s) = wrc_status rc" and fresh: "fresh_record r s"
    using stored_write [OF assms(1,2) nd assms(4)] by blast
  note plan = plan_write_Inr [OF pl]
  have nq: "ad_status (decision_of svc en p q action s) \<noteq> W_QUARANTINED"
    using st assms(3) by (auto simp: admits_def)
  from plan nq have r: "r = planned_record en p q (normalized svc q) (operation_identity en q) ACTIVE" by simp
  then have eff: "effective_supersedes q r = wr_supersedes q" by (simp add: effective_planned)
  from plan eff have ev: "events = write_events svc en r (wr_supersedes q) s" by simp
  have intents: "map intent events =
        map (\<lambda>t. (''memory.record.project'', env_uuid en U_record, Some t)) (delivery_identities svc)
        @ concat (map (\<lambda>old. map (\<lambda>t. (''memory.record.retire'', old, Some t)) (copy_holders svc old s))
                    (wr_supersedes q))"
    unfolding ev write_events_def project_events_def retire_superseded_def
    by (simp add: r extend_events_intents)
  have pend: "\<forall>e \<in> set events. ob_status e = X_PENDING"
  proof -
    have "e \<in> set (extend_events (retire_superseded svc en r s) k xs) \<Longrightarrow> ob_status e = X_PENDING" for e k xs
      by (induction xs arbitrary: k) (auto simp: Let_def retire_superseded_def dest: target_events_pending)
    then show ?thesis
      unfolding ev write_events_def project_events_def by (auto dest: target_events_pending)
  qed
  note tg = plan_targets [OF pl assms(2)]
  from commit_write_done [OF c fresh tg(1,4)]
  have "st_outbox t = dict_set_all ob_event_id events (st_outbox s)" by simp
  moreover from plan have "wrc_outbox_event_ids rc = map ob_event_id events" by (simp add: stored_receipt_def)
  ultimately show ?thesis using intents pend by blast
qed

text \<open>
  A quarantined write is held for review and has no other effect: the record is
  stored as quarantined, nothing it names is superseded, no target is asked to project or
  retire anything, and every other record is untouched.
\<close>

theorem quarantined_write_is_inert:
  assumes "admit svc en p q action expected s = (Inr rc, t)" and "write_fresh en q s"
    and "wrc_status rc = W_QUARANTINED" and "\<not> wr_dry_run q"
  shows "(\<exists>r. get_record (env_uuid en U_record) t = Some r \<and> mr_state r = QUARANTINED
         \<and> mr_tenant_id r = mp_tenant_id p \<and> mr_namespace r = wr_namespace q)
    \<and> (\<forall>rid. rid \<noteq> env_uuid en U_record \<longrightarrow> get_record rid t = get_record rid s)
    \<and> st_outbox t = st_outbox s \<and> wrc_superseded_record_ids rc = [] \<and> may p action (wr_namespace q)"
proof -
  have nd: "wrc_status rc \<notin> {W_REJECTED, W_DUPLICATE}" using assms(3) by simp
  obtain r events ses where pl: "plan_write svc en p q (normalized svc q) (decision_of svc en p q action s)
       (evaluate (stamp_of en U_authorization) p action (wr_namespace q)) (operation_identity en q) s
       = (Inr (r, rc, events, ses), s)"
    and c: "commit_write (sv_hash svc) SERVICE_WRITE_CAPABILITY (Some r) rc events ses expected s = (Inr (), t)"
    and st: "ad_status (decision_of svc en p q action s) = wrc_status rc" and may: "may p action (wr_namespace q)"
    and fresh: "fresh_record r s"
    using stored_write [OF assms(1,2) nd assms(4)] by blast
  note plan = plan_write_Inr [OF pl]
  from plan st assms(3) have r: "r = planned_record en p q (normalized svc q) (operation_identity en q) QUARANTINED" by simp
  then have eff: "effective_supersedes q r = []" by (simp add: effective_planned)
  from plan eff have ev: "events = []" and ses: "ses = [initial_event en p r []]"
    and rc: "wrc_superseded_record_ids rc = []"
    by (auto simp: write_events_def r stored_receipt_def effective_planned)
  have "distinct (map se_record_id ses)"
    "\<forall>e \<in> set ses. se_record_id e = mr_record_id r \<longrightarrow> se_new_state e = mr_state r \<and> mr_state r \<noteq> SUPERSEDED"
    by (auto simp: ses initial_event_def r)
  from commit_write_done [OF c fresh this] show ?thesis
    using r ev ses rc may by (auto simp: initial_event_def)
qed

text \<open>
  Property C13: a retry under the same idempotency key collapses onto the first record. If the
  key already names a record in this tenant and namespace, an authorized write answers
  DUPLICATE with that record's identifier, stores and supersedes nothing and enqueues
  nothing, and warns of drift exactly when the retried payload's digest differs.
\<close>

theorem idempotent_replay:
  assumes "find_by_idempotency (mp_tenant_id p) (wr_namespace q) (the (wr_idempotency_key q)) s = Some r"
    and "nonempty_opt (wr_idempotency_key q)" and "may p action (wr_namespace q)"
  shows "\<exists>rc. fst (admit svc en p q action expected s) = Inr rc \<and> wrc_status rc = W_DUPLICATE
    \<and> wrc_record_id rc = Some (mr_record_id r) \<and> wrc_outbox_event_ids rc = [] \<and> wrc_superseded_record_ids rc = []
    \<and> snd (admit svc en p q action expected s)
        = s\<lparr>st_receipts := st_receipts (snd (admit svc en p q action expected s))\<rparr>
    \<and> (drift_warning r (normalized svc q) \<in> set (wrc_warnings rc)
         \<longleftrightarrow> mr_normalized_digest r \<noteq> nr_normalized_digest (normalized svc q)
           \<or> drift_warning r (normalized svc q) \<in> set (ad_warnings (decision_of svc en p q action s)))"
proof -
  have prior: "prior_operation en p q s = Some r"
    using assms by (simp add: prior_operation_def operation_identity_def)
  then have "ad_status (decision_of svc en p q action s) = W_DUPLICATE"
    using assms(3) decision_facts(2) by blast
  then have e: "admit svc en p q action expected s =
      duplicate_receipt svc en q r (normalized svc q) (decision_of svc en p q action s)
        (evaluate (stamp_of en U_authorization) p action (wr_namespace q)) (operation_identity en q) s"
    by (simp add: admit_eq prior Let_def)
  obtain res t where rt: "admit svc en p q action expected s = (res, t)" by fastforce
  from duplicate_receipt_cases [OF rt [unfolded e]] show ?thesis
    unfolding rt by (auto split: if_splits)
qed

section \<open>A concrete write\<close>

definition smp_service :: service where
  "smp_service = \<lparr>sv_runtime = smp_runtime, sv_admission = default_admission_policy, sv_hash = smp_hash,
     sv_text_digest = (\<lambda>x. replicate 64 (CHR ''c'')), sv_normalize = (\<lambda>c x. smp_normalized),
     sv_dumps = (\<lambda>x. [])\<rparr>"

definition smp_store7 :: store where
  "smp_store7 = empty_store\<lparr>st_records := [(7, smp_record 7 ACTIVE)],
     st_idempotency := [(operation_key (smp_record 7 ACTIVE), 7)]\<rparr>"

lemma smp_service_sel [simp]:
  "sv_runtime smp_service = smp_runtime" "sv_admission smp_service = default_admission_policy"
  "sv_hash smp_service = smp_hash" "normalized smp_service q = smp_normalized"
  by (simp_all add: smp_service_def normalized_def)

lemma smp_store7_get [simp]: "get_record rid smp_store7 = (if rid = 7 then Some (smp_record 7 ACTIVE) else None)"
  by (simp add: get_record_def smp_store7_def)

lemma smp_store7_wf: "store_wf smp_store7"
proof -
  have e: "smp_store7 = inserted (Some (smp_record 7 ACTIVE)) empty_store"
    by (simp add: smp_store7_def inserted_def empty_store_def)
  have f: "fresh_record (smp_record 7 ACTIVE) empty_store"
    by (simp add: fresh_record_def get_record_def empty_store_def)
  show ?thesis unfolding e by (rule inserted_wf [OF store_wf_empty f])
qed

lemma smp_may: "may smp_principal A_WRITE ''ns''" "may smp_principal A_READ ''ns''"
  by (simp_all add: may_def patterns_for_def smp_principal_def fnmatch_literal)

lemma length_uuid_str [simp]: "length (uuid_str u) = 36"
  by (simp add: uuid_str_def Let_def)

lemma short_not_uuid: "length x \<noteq> 36 \<Longrightarrow> x \<noteq> uuid_str u"
  by (metis length_uuid_str)

lemma smp_fresh: "write_fresh smp_env (smp_request SEMANTIC [7]) smp_store7"
  by (simp add: write_fresh_def smp_store7_wf smp_env_def)

text \<open>The concrete write runs in every store that holds record 7 as that one does.\<close>

definition smp_like :: "store \<Rightarrow> bool" where
  "smp_like s \<longleftrightarrow> get_record 7 s = Some (smp_record 7 ACTIVE) \<and> get_record 10 s = None
     \<and> st_idempotency s = [(operation_key (smp_record 7 ACTIVE), 7)]"

lemma smp_like_store7 [simp]: "smp_like smp_store7"
  by (simp add: smp_like_def) (simp add: smp_store7_def)

lemma smp_prior: "smp_like s \<Longrightarrow> prior_operation smp_env smp_principal (smp_request c olds) s = None"
  by (simp add: smp_like_def prior_operation_def operation_identity_def nonempty_opt_def find_by_idempotency_def
      operation_key_def smp_principal_def short_not_uuid)

lemma smp_decision:
  "smp_like s \<Longrightarrow> admits (ad_status (decision_of smp_service smp_env smp_principal (smp_request SEMANTIC [7]) A_WRITE s))"
  using smp_admissible by (simp add: decision_facts smp_prior smp_may)

abbreviation smp_action :: authorization_receipt where
  "smp_action \<equiv> evaluate (stamp_of smp_env U_authorization) smp_principal A_WRITE ''ns''"

lemma smp_env_sel [simp]:
  "env_uuid smp_env U_record = 10" "env_uuid smp_env U_receipt = 11" "env_now smp_env = 100"
  "env_uuid smp_env (U_status n) = 100 + of_nat n" "env_uuid smp_env (U_event n) = 200 + of_nat n"
  by (simp_all add: smp_env_def)

lemma smp_subject [simp]: "audit_subject smp_principal = ''t:p''" "mp_tenant_id smp_principal = ''t''"
  by (simp_all add: audit_subject_def smp_principal_def)

lemma smp_candidate_ok:
  "make_memory_record (candidate_record smp_env smp_principal (smp_request SEMANTIC [7]) smp_normalized ''k'' ACTIVE)
     = Inr (planned_record smp_env smp_principal (smp_request SEMANTIC [7]) smp_normalized ''k'' ACTIVE)"
  by (simp add: make_memory_record_Inr memory_record_fields_ok_def candidate_record_def planned_record_def
      len_ok_def is_sha256_hex_def smp_normalized_def list_all_iff)

abbreviation smp_superseding :: memory_status_event where
  "smp_superseding \<equiv>
     \<lparr>se_event_id = 101, se_record_id = 7, se_previous_state = Some ACTIVE, se_new_state = SUPERSEDED,
      se_reason = ''superseded by '' @ uuid_str 10, se_actor = ''t:p'', se_occurred_at = 100, se_receipt_id = None\<rparr>"

lemma smp_superseding_ok:
  "mr_record_id r = 10 \<Longrightarrow> smp_like s \<Longrightarrow>
   superseding_event smp_env smp_principal (smp_request SEMANTIC [7]) r (1, 7) s = (Inr smp_superseding, s)"
  by (simp add: smp_like_def superseding_event_def andThen_Inr SUPERSEDABLE_STATES_def make_status_event_Inr len_ok_def)

lemma smp_plan:
  assumes like: "smp_like s" and guard: "\<And>pre. expected = Some pre \<Longrightarrow>
      snapshot_digest smp_hash (namespace_active (pp_tenant_id pre) (pp_namespace pre) s) = pp_expected_snapshot_digest pre"
  shows "\<exists>r rc events ses. plan_write smp_service smp_env smp_principal (smp_request SEMANTIC [7]) smp_normalized
      (decision_of smp_service smp_env smp_principal (smp_request SEMANTIC [7]) A_WRITE s)
      smp_action ''k'' s = (Inr (r, rc, events, ses), s)
    \<and> commit_write smp_hash SERVICE_WRITE_CAPABILITY (Some r) rc events ses expected s
        = (Inr (), committed smp_hash (Some r) rc events ses s)"
proof -
  let ?q = "smp_request SEMANTIC [7]"
  let ?d = "decision_of smp_service smp_env smp_principal ?q A_WRITE s"
  let ?r = "planned_record smp_env smp_principal ?q smp_normalized ''k'' ACTIVE"
  let ?ev = "write_events smp_service smp_env ?r [7] s"
  let ?rc = "stored_receipt smp_env ?q smp_normalized ?d smp_action ''k'' ?r ?ev"
  let ?ses = "[initial_event smp_env smp_principal ?r [7], smp_superseding\<lparr>se_receipt_id := Some 11\<rparr>]"
  have nq: "ad_status ?d \<noteq> W_QUARANTINED" using smp_decision [OF like] by (auto simp: admits_def)
  have eff: "effective_supersedes ?q ?r = [7]" by (simp add: effective_planned)
  have t: "validate_coordinates (mr_temporal (candidate_record smp_env smp_principal ?q smp_normalized ''k'' ACTIVE))
      = Inr (mr_temporal (candidate_record smp_env smp_principal ?q smp_normalized ''k'' ACTIVE))"
    by (simp add: validate_coordinates_Inr candidate_record_def smp_request_def)
  have m: "map_each (superseding_event smp_env smp_principal ?q ?r) (enumerate 1 [7]) s
      = (Inr [smp_superseding], s)"
    using smp_superseding_ok [of ?r s] like by (simp add: andThen_def ret_def)
  have i: "make_status_event (initial_event smp_env smp_principal ?r [7]) = Inr (initial_event smp_env smp_principal ?r [7])"
    by (simp add: make_status_event_Inr initial_event_def len_ok_def)
  have rid: "wrc_receipt_id ?rc = 11" by (simp add: stored_receipt_def write_receipt_for_def)
  have "plan_write smp_service smp_env smp_principal ?q smp_normalized ?d smp_action ''k'' s
      = (Inr (?r, ?rc, ?ev, ?ses), s)"
    using nq m i rid
    by (simp add: plan_write_def Let_def andThen_def from_sum_def gets_def ret_def t smp_candidate_ok eff)
  moreover have "commit_write smp_hash SERVICE_WRITE_CAPABILITY (Some ?r) ?rc ?ev ?ses expected s
      = (Inr (), committed smp_hash (Some ?r) ?rc ?ev ?ses s)"
  proof -
    have g: "commit_guard smp_hash SERVICE_WRITE_CAPABILITY (Some ?r) expected s = (Inr (), s)"
      using like guard by (auto simp: commit_guard_Inr smp_like_def operation_key_def short_not_uuid)
    have ok: "\<forall>x \<in> set ?ses. transition_ok (inserted (Some ?r) s) x"
      using like by (simp add: transition_ok_def inserted_def get_record_def smp_like_def initial_event_def)
    then have c: "check_transitions ?ses (inserted (Some ?r) s) = (Inr (), inserted (Some ?r) s)"
      by simp
    have dist: "distinct (map se_record_id ?ses)" by (simp add: initial_event_def)
    show ?thesis by (simp only: commit_write_eq g c commit_body_ok [OF ok dist] prod.case sum.case)
  qed
  ultimately show ?thesis by blast
qed

lemma smp_admit:
  assumes like: "smp_like s" and guard: "\<And>pre. expected = Some pre \<Longrightarrow>
      snapshot_digest smp_hash (namespace_active (pp_tenant_id pre) (pp_namespace pre) s) = pp_expected_snapshot_digest pre"
  shows "\<exists>rc. admit smp_service smp_env smp_principal (smp_request SEMANTIC [7]) A_WRITE expected s
      = (Inr rc, snd (admit smp_service smp_env smp_principal (smp_request SEMANTIC [7]) A_WRITE expected s))
    \<and> admits (wrc_status rc)"
proof -
  let ?q = "smp_request SEMANTIC [7]"
  let ?d = "decision_of smp_service smp_env smp_principal ?q A_WRITE s"
  obtain r rc events ses where pl: "plan_write smp_service smp_env smp_principal ?q smp_normalized ?d smp_action ''k'' s
      = (Inr (r, rc, events, ses), s)"
    and c: "commit_write smp_hash SERVICE_WRITE_CAPABILITY (Some r) rc events ses expected s
        = (Inr (), committed smp_hash (Some r) rc events ses s)"
    using smp_plan [OF like guard] by blast
  have k: "operation_identity smp_env ?q = ''k''" by (simp add: operation_identity_def nonempty_opt_def)
  have d: "ad_status ?d \<noteq> W_DUPLICATE" "ad_status ?d \<noteq> W_REJECTED" using smp_decision [OF like] by (auto simp: admits_def)
  have "admit smp_service smp_env smp_principal ?q A_WRITE expected s
      = (Inr rc, committed smp_hash (Some r) rc events ses s)"
    using d pl c by (simp add: admit_eq Let_def k store_admitted_def andThen_def try_catch_def ret_def)
  moreover have "wrc_status rc = ad_status ?d"
    using plan_write_Inr [OF pl] by (auto simp: stored_receipt_def write_receipt_for_def)
  ultimately show ?thesis using smp_decision [OF like] by simp
qed

definition smp_after :: store where
  "smp_after = snd (admit smp_service smp_env smp_principal (smp_request SEMANTIC [7]) A_WRITE None smp_store7)"

theorem write_stores_only_admitted_witness:
  "let q = smp_request SEMANTIC [7]; p = smp_principal\<lparr>mp_write_namespaces := []\<rparr> in
   \<exists>rc. fst (admit smp_service smp_env p q A_WRITE None smp_store7) = Inr rc \<and> wrc_status rc = W_REJECTED"
proof -
  let ?p = "smp_principal\<lparr>mp_write_namespaces := []\<rparr>"
  obtain res t where rt: "admit smp_service smp_env ?p (smp_request SEMANTIC [7]) A_WRITE None smp_store7 = (res, t)"
    by fastforce
  have "\<not> may ?p A_WRITE ''ns''" by (simp add: may_def patterns_for_def smp_principal_def)
  with write_stores_only_admitted [OF rt smp_fresh] show ?thesis by (auto simp: rt)
qed

theorem admitted_write_effect_witness:
  "map_option mr_state (get_record 10 smp_after) = Some ACTIVE
   \<and> map_option mr_state (get_record 7 smp_after) = Some SUPERSEDED"
proof -
  obtain rc where a: "admit smp_service smp_env smp_principal (smp_request SEMANTIC [7]) A_WRITE None smp_store7 = (Inr rc, smp_after)"
    and st: "admits (wrc_status rc)"
    using smp_admit [OF smp_like_store7, of None] unfolding smp_after_def by auto
  from admitted_write_effect [OF a smp_fresh st] show ?thesis
    by (auto simp: superseded_version_def)
qed

theorem admitted_write_enqueues_witness:
  "\<exists>events. st_outbox smp_after = dict_set_all ob_event_id events []
     \<and> map intent events = [(''memory.record.project'', 10, Some ''zep''), (''memory.record.retire'', 7, Some ''zep'')]"
proof -
  obtain rc where a: "admit smp_service smp_env smp_principal (smp_request SEMANTIC [7]) A_WRITE None smp_store7 = (Inr rc, smp_after)"
    and st: "admits (wrc_status rc)"
    using smp_admit [OF smp_like_store7, of None] unfolding smp_after_def by auto
  have "delivery_identities smp_service = [''zep'']" by (simp add: delivery_identities_def)
  moreover from this have "copy_holders smp_service 7 smp_store7 = [''zep'']"
    by (simp add: copy_holders_def list_projection_links_def smp_store7_def empty_store_def dedup_id)
  moreover have "st_outbox smp_store7 = []" by (simp add: smp_store7_def empty_store_def)
  ultimately show ?thesis
    using admitted_write_enqueues [OF a smp_fresh st] by auto
qed

theorem idempotent_replay_witness:
  "let q = (smp_request SEMANTIC [])\<lparr>wr_idempotency_key := Some (uuid_str 7)\<rparr> in
   \<exists>rc. fst (admit smp_service smp_env smp_principal q A_WRITE None smp_store7) = Inr rc
     \<and> wrc_status rc = W_DUPLICATE \<and> wrc_record_id rc = Some 7"
proof -
  let ?q = "(smp_request SEMANTIC [])\<lparr>wr_idempotency_key := Some (uuid_str 7)\<rparr>"
  have "find_by_idempotency (mp_tenant_id smp_principal) (wr_namespace ?q) (the (wr_idempotency_key ?q)) smp_store7
      = Some (smp_record 7 ACTIVE)"
    by (simp add: find_by_idempotency_def smp_store7_def operation_key_def)
  moreover have "nonempty_opt (wr_idempotency_key ?q)"
    using short_not_uuid [of "[]" 7] by (auto simp: nonempty_opt_def)
  moreover have "may smp_principal A_WRITE (wr_namespace ?q)" by (simp add: smp_may)
  ultimately show ?thesis
    using idempotent_replay [of smp_principal ?q smp_store7 "smp_record 7 ACTIVE" A_WRITE smp_service smp_env None]
    by (auto simp: Let_def)
qed

definition smp_holding :: service where
  "smp_holding = smp_service\<lparr>sv_normalize := (\<lambda>c x. smp_normalized\<lparr>nr_safety_signals := [''signal'']\<rparr>)\<rparr>"

lemma smp_holding_sel [simp]:
  "sv_admission smp_holding = default_admission_policy" "sv_hash smp_holding = smp_hash"
  "normalized smp_holding q = smp_normalized\<lparr>nr_safety_signals := [''signal'']\<rparr>"
  by (simp_all add: smp_holding_def normalized_def smp_service_def)

lemma smp_held:
  "ad_status (decision_of smp_holding smp_env smp_principal (smp_request SEMANTIC [7]) A_WRITE empty_store) = W_QUARANTINED"
proof -
  have "prior_operation smp_env smp_principal (smp_request SEMANTIC [7]) empty_store = None"
    by (simp add: prior_operation_def find_by_idempotency_def empty_store_def)
  then show ?thesis
    by (simp add: decision_of_def evaluate_status smp_may admission_verdict_def primary_status_def
        ambiguous_stage_def pii_stage_def safety_stage_def final_stage_def default_admission_policy_def
        smp_normalized_def all_memory_classes_def smp_confidence_def Let_def)
qed

lemma smp_hold:
  "\<exists>rc t. admit smp_holding smp_env smp_principal (smp_request SEMANTIC [7]) A_WRITE None empty_store = (Inr rc, t)
    \<and> wrc_status rc = W_QUARANTINED"
proof -
  let ?q = "smp_request SEMANTIC [7]"
  let ?n = "smp_normalized\<lparr>nr_safety_signals := [''signal'']\<rparr>"
  let ?d = "decision_of smp_holding smp_env smp_principal ?q A_WRITE empty_store"
  let ?r = "planned_record smp_env smp_principal ?q ?n ''k'' QUARANTINED"
  let ?rc = "stored_receipt smp_env ?q ?n ?d smp_action ''k'' ?r []"
  have k: "operation_identity smp_env ?q = ''k''" by (simp add: operation_identity_def nonempty_opt_def)
  have c: "make_memory_record (candidate_record smp_env smp_principal ?q ?n ''k'' QUARANTINED) = Inr ?r"
    by (simp add: make_memory_record_Inr memory_record_fields_ok_def candidate_record_def planned_record_def
        len_ok_def is_sha256_hex_def smp_normalized_def list_all_iff)
  have t: "validate_coordinates (mr_temporal (candidate_record smp_env smp_principal ?q ?n ''k'' QUARANTINED))
      = Inr (mr_temporal (candidate_record smp_env smp_principal ?q ?n ''k'' QUARANTINED))"
    by (simp add: validate_coordinates_Inr candidate_record_def smp_request_def)
  have i: "make_status_event (initial_event smp_env smp_principal ?r []) = Inr (initial_event smp_env smp_principal ?r [])"
    by (simp add: make_status_event_Inr initial_event_def len_ok_def)
  have "plan_write smp_holding smp_env smp_principal ?q ?n ?d smp_action ''k'' empty_store
      = (Inr (?r, ?rc, [], [initial_event smp_env smp_principal ?r []]), empty_store)"
    using i by (simp add: plan_write_def Let_def andThen_def from_sum_def gets_def ret_def t c effective_planned
        smp_held write_events_def)
  moreover obtain u where "commit_write smp_hash SERVICE_WRITE_CAPABILITY (Some ?r) ?rc []
      [initial_event smp_env smp_principal ?r []] None empty_store = (Inr (), u)"
  proof -
    have g: "commit_guard smp_hash SERVICE_WRITE_CAPABILITY (Some ?r) None empty_store = (Inr (), empty_store)"
      by (simp add: commit_guard_Inr empty_store_def)
    have ok: "\<forall>x \<in> set [initial_event smp_env smp_principal ?r []]. transition_ok (inserted (Some ?r) empty_store) x"
      by (simp add: transition_ok_def inserted_def get_record_def initial_event_def)
    then have c: "check_transitions [initial_event smp_env smp_principal ?r []] (inserted (Some ?r) empty_store)
        = (Inr (), inserted (Some ?r) empty_store)"
      by simp
    have dist: "distinct (map se_record_id [initial_event smp_env smp_principal ?r []])" by simp
    show thesis
      by (rule that) (simp only: commit_write_eq g c commit_body_ok [OF ok dist] prod.case sum.case)
  qed
  ultimately show ?thesis
    by (simp add: admit_eq Let_def k store_admitted_def andThen_def try_catch_def ret_def smp_held
        stored_receipt_def write_receipt_for_def)
qed

theorem quarantined_write_is_inert_witness:
  "\<exists>rc t. admit smp_holding smp_env smp_principal (smp_request SEMANTIC [7]) A_WRITE None empty_store = (Inr rc, t)
     \<and> map_option mr_state (get_record 10 t) = Some QUARANTINED \<and> st_outbox t = []"
proof -
  obtain rc t where a: "admit smp_holding smp_env smp_principal (smp_request SEMANTIC [7]) A_WRITE None empty_store = (Inr rc, t)"
    and st: "wrc_status rc = W_QUARANTINED"
    using smp_hold by blast
  have "write_fresh smp_env (smp_request SEMANTIC [7]) empty_store"
    by (simp add: write_fresh_def) (simp add: get_record_def empty_store_def)
  from quarantined_write_is_inert [OF a this st] a show ?thesis
    by (auto simp: empty_store_def)
qed

end
