(* ===== verification/ServiceLocks.thy ===== *)
theory ServiceLocks
  imports ServiceWrite
begin

text \<open>
  Contradictions and phase locks of \<open>services/memory_service.py\<close>: the conflict report of a
  namespace, the links governed reconciliation writes, phase locks and their verification,
  and the write that requires a held lock.
\<close>

section \<open>Operations\<close>

text \<open>\<open>tuple(sorted((a, b), key=str))\<close>.\<close>

definition sorted_pair :: "uuid \<Rightarrow> uuid \<Rightarrow> uuid \<times> uuid" where
  "sorted_pair a b = (if uuid_str b < uuid_str a then (b, a) else (a, b))"

definition conflict_of :: "memory_record \<Rightarrow> memory_record \<Rightarrow> conflict_item" where
  "conflict_of left right =
     (let pair = sorted_pair (mr_record_id left) (mr_record_id right);
          assertion = (case mr_assertion left of Some a \<Rightarrow> Some a | None \<Rightarrow> mr_assertion right)
      in \<lparr>ci_left_record_id = fst pair, ci_right_record_id = snd pair,
          ci_subject = (case assertion of None \<Rightarrow> None | Some a \<Rightarrow> as_subject a),
          ci_predicate = (case assertion of None \<Rightarrow> None | Some a \<Rightarrow> as_predicate a),
          ci_reason = ''records are linked as contradicting by governed reconciliation''\<rparr>)"

text \<open>The inner loop of the report; the accumulator is \<open>(seen, conflicts)\<close>.\<close>

definition conflict_step ::
  "(uuid, memory_record) dict \<Rightarrow> memory_record \<Rightarrow> uuid \<Rightarrow> (uuid \<times> uuid) list \<times> conflict_item list
     \<Rightarrow> (uuid \<times> uuid) list \<times> conflict_item list" where
  "conflict_step by_id left right_id acc =
     (case dict_get by_id right_id of
        None \<Rightarrow> acc
      | Some right \<Rightarrow>
          let pair = sorted_pair (mr_record_id left) right_id in
          if pair \<in> set (fst acc) then acc
          else (pair # fst acc, snd acc @ [conflict_of left right]))"

definition live_conflicts :: "memory_record list \<Rightarrow> conflict_item list" where
  "live_conflicts records =
     (let by_id = dict_set_all mr_record_id records [] in
      snd (fold (\<lambda>left. fold (conflict_step by_id left) (mr_conflicts_with left))
             (sort_key (\<lambda>r. uuid_str (mr_record_id r)) records) ([], [])))"

definition conflicts :: "service \<Rightarrow> env \<Rightarrow> memory_principal \<Rightarrow> string \<Rightarrow> conflict_report store_op" where
  "conflicts svc en p ns =
     andThen (authorize en p A_READ ns) (\<lambda>_.
     andThen (gets (list_records (mp_tenant_id p) ns [ACTIVE] None)) (\<lambda>records.
       ret \<lparr>cr_namespace = ns, cr_status = O_COMPLETE, cr_conflicts = live_conflicts records,
            cr_checked_record_count = length records,
            cr_snapshot_digest = snapshot_digest (sv_hash svc) records,
            cr_policy_version = PHASE_LOCK_POLICY_VERSION, cr_checked_at = env_now en\<rparr>))"

definition link_side :: "memory_principal \<Rightarrow> string \<Rightarrow> uuid \<Rightarrow> memory_record store_op" where
  "link_side p ns rid =
     andThen (gets (get_record rid)) (\<lambda>found.
       case found of
         None \<Rightarrow> throw (StoreError ''conflict link target not found'')
       | Some r \<Rightarrow>
           andThen (check (mr_tenant_id r = mp_tenant_id p \<and> mr_namespace r = ns)
             (AuthorizationError ''conflict link target is outside the authorized tenant or namespace'')) (\<lambda>_.
           andThen (check (mr_state r = ACTIVE)
             (AdmissionError ''only active records can be linked as conflicting'')) (\<lambda>_. ret r)))"

fun fresh_links ::
  "memory_principal \<Rightarrow> string \<Rightarrow> (uuid \<times> uuid) list \<Rightarrow> conflict_item list \<Rightarrow> conflict_item list store_op" where
  "fresh_links p ns seen [] = ret []"
| "fresh_links p ns seen (l # ls) =
     andThen (check (ci_left_record_id l \<noteq> ci_right_record_id l)
       (AdmissionError ''a record cannot conflict with itself'')) (\<lambda>_.
     let pair = sorted_pair (ci_left_record_id l) (ci_right_record_id l) in
     if pair \<in> set seen then fresh_links p ns seen ls
     else
       andThen (link_side p ns (fst pair)) (\<lambda>a.
       andThen (link_side p ns (snd pair)) (\<lambda>b.
       andThen (fresh_links p ns (pair # seen) ls) (\<lambda>rest.
         ret (if snd pair \<in> set (mr_conflicts_with a) \<and> fst pair \<in> set (mr_conflicts_with b)
              then rest else l # rest)))))"

definition link_conflicts ::
  "env \<Rightarrow> memory_principal \<Rightarrow> string \<Rightarrow> conflict_item list \<Rightarrow> string \<Rightarrow> conflict_link_receipt store_op" where
  "link_conflicts en p ns links reason =
     andThen (authorize en p A_MAINTAIN ns) (\<lambda>authorization.
     andThen (fresh_links p ns [] links) (\<lambda>fresh.
     andThen (from_sum (make_conflict_link_receipt
       \<lparr>clk_receipt_id = env_uuid en U_receipt, clk_status = O_COMPLETE, clk_namespace = ns, clk_links = fresh,
        clk_authorization = authorization, clk_reason = reason, clk_actor = audit_subject p,
        clk_created_at = env_now en\<rparr>)) (\<lambda>receipt.
     andThen (if fresh \<noteq> [] then commit_conflict_links SERVICE_WRITE_CAPABILITY receipt else ret ())
       (\<lambda>_. ret receipt))))"

definition phase_lock :: "service \<Rightarrow> env \<Rightarrow> memory_principal \<Rightarrow> phase_lock_request \<Rightarrow> phase_lock_receipt store_op" where
  "phase_lock svc en p q =
     andThen (authorize en p A_WRITE (plr_namespace q)) (\<lambda>_.
     andThen (conflicts svc en p (plr_namespace q)) (\<lambda>report.
     let receipt =
       \<lparr>pl_lock_id = env_uuid en U_receipt, pl_tenant_id = mp_tenant_id p, pl_namespace = plr_namespace q,
        pl_task_signature = plr_task_signature q,
        pl_granted = (cr_status report = O_COMPLETE \<and> \<not> has_conflicts report),
        pl_conflict_report = report, pl_snapshot_digest = cr_snapshot_digest report,
        pl_expires_at = env_now en + seconds (plr_ttl_seconds q), pl_principal_id = mp_principal_id p,
        pl_policy_version = PHASE_LOCK_POLICY_VERSION, pl_created_at = env_now en\<rparr> in
     andThen (save_phase_lock SERVICE_WRITE_CAPABILITY receipt) (\<lambda>_. ret receipt)))"

definition lock_reasons ::
  "env \<Rightarrow> memory_principal \<Rightarrow> conflict_report \<Rightarrow> phase_lock_receipt option \<Rightarrow> string list" where
  "lock_reasons en p report lock =
     (case lock of
        None \<Rightarrow> [''phase lock does not exist'']
      | Some l \<Rightarrow>
          (if \<not> pl_granted l then [''phase lock was not granted''] else [])
          @ (if pl_principal_id l \<noteq> mp_principal_id p \<and> \<not> mp_is_admin p
             then [''phase lock belongs to a different principal''] else [])
          @ (if pl_expires_at l \<le> env_now en then [''phase lock expired''] else [])
          @ (if pl_snapshot_digest l \<noteq> cr_snapshot_digest report
             then [''namespace changed after phase lock issuance''] else [])
          @ (if has_conflicts report then [''current namespace contains conflicts''] else []))"

definition verify_phase_lock ::
  "service \<Rightarrow> env \<Rightarrow> memory_principal \<Rightarrow> string \<Rightarrow> string \<Rightarrow> phase_lock_verification store_op" where
  "verify_phase_lock svc en p ns task =
     andThen (authorize en p A_READ ns) (\<lambda>_.
     andThen (gets (get_phase_lock (mp_tenant_id p) ns task)) (\<lambda>lock.
     andThen (conflicts svc en p ns) (\<lambda>report.
     let reasons = lock_reasons en p report lock in
       ret \<lparr>pv_lock_id = map_option pl_lock_id lock, pv_namespace = ns, pv_task_signature = task,
            pv_valid = (reasons = []),
            pv_reasons = (if reasons \<noteq> [] then reasons else [''phase lock is current and conflict-free'']),
            pv_current_snapshot_digest = cr_snapshot_digest report, pv_verified_at = env_now en\<rparr>)))"

definition lock_precondition :: "memory_principal \<Rightarrow> string \<Rightarrow> phase_lock_verification \<Rightarrow> phase_lock_precondition" where
  "lock_precondition p ns v =
     \<lparr>pp_tenant_id = mp_tenant_id p, pp_namespace = ns, pp_expected_snapshot_digest = pv_current_snapshot_digest v\<rparr>"

definition write_governed ::
  "service \<Rightarrow> env \<Rightarrow> memory_principal \<Rightarrow> memory_write_request \<Rightarrow> string \<Rightarrow> write_receipt store_op" where
  "write_governed svc en p q task =
     andThen (verify_phase_lock svc en p (wr_namespace q) task) (\<lambda>v.
     andThen (check (pv_valid v) (AuthorizationError ''memory.write_governed requires a held phase-lock'')) (\<lambda>_.
       admit svc en p q A_WRITE (Some (lock_precondition p (wr_namespace q) v))))"

section \<open>What the report of a namespace contains\<close>

definition ends :: "conflict_item \<Rightarrow> uuid \<times> uuid" where
  "ends i = (ci_left_record_id i, ci_right_record_id i)"

text \<open>Two current records of a namespace one of which is linked to the other.\<close>

definition linked :: "string \<Rightarrow> string \<Rightarrow> store \<Rightarrow> uuid \<Rightarrow> uuid \<Rightarrow> bool" where
  "linked tenant ns s a b \<longleftrightarrow>
     (\<exists>ra rb. get_record a s = Some ra \<and> get_record b s = Some rb \<and> b \<in> set (mr_conflicts_with ra)
        \<and> ra \<in> set (namespace_active tenant ns s) \<and> rb \<in> set (namespace_active tenant ns s))"

definition contradicting :: "string \<Rightarrow> string \<Rightarrow> store \<Rightarrow> (uuid \<times> uuid) set" where
  "contradicting tenant ns s = {sorted_pair a b |a b. linked tenant ns s a b}"

lemma fold_flatten:
  "fold (\<lambda>l. fold (f l) (g l)) ls acc = fold (\<lambda>(l, r). f l r) (concat (map (\<lambda>l. map (Pair l) (g l)) ls)) acc"
  by (induction ls arbitrary: acc) (simp_all add: fold_map o_def)

definition scan_ok :: "(uuid \<times> uuid) list \<times> conflict_item list \<Rightarrow> bool" where
  "scan_ok acc \<longleftrightarrow> fst acc = rev (map ends (snd acc)) \<and> distinct (fst acc)"

lemma conflict_step_ok:
  assumes "\<And>k r. dict_get by_id k = Some r \<Longrightarrow> mr_record_id r = k" and "scan_ok acc"
  shows "scan_ok (conflict_step by_id l r acc) \<and>
     set (fst (conflict_step by_id l r acc)) =
       set (fst acc) \<union> (if dict_has by_id r then {sorted_pair (mr_record_id l) r} else {})"
  using assms
  by (auto simp: conflict_step_def scan_ok_def dict_has_def Let_def conflict_of_def ends_def split: option.splits)

lemma conflict_scan:
  assumes "\<And>k r. dict_get by_id k = Some r \<Longrightarrow> mr_record_id r = k" and "scan_ok acc"
  shows "scan_ok (fold (\<lambda>(l, r). conflict_step by_id l r) xs acc) \<and>
     set (fst (fold (\<lambda>(l, r). conflict_step by_id l r) xs acc)) =
       set (fst acc) \<union> {sorted_pair (mr_record_id l) r |l r. (l, r) \<in> set xs \<and> dict_has by_id r}"
  using assms(2)
proof (induction xs arbitrary: acc)
  case Nil
  then show ?case by simp
next
  case (Cons x xs)
  obtain l r where x: "x = (l, r)" by fastforce
  note step = conflict_step_ok [OF assms(1) Cons.prems, where l = l and r = r]
  with Cons.IH [of "conflict_step by_id l r acc"] show ?case
    by (auto simp: x)
qed

lemma live_conflicts_ends:
  assumes "distinct (map mr_record_id records)"
  shows "distinct (map ends (live_conflicts records))
    \<and> set (map ends (live_conflicts records)) =
        {sorted_pair (mr_record_id l) r |l r. l \<in> set records \<and> r \<in> set (mr_conflicts_with l)
           \<and> r \<in> mr_record_id ` set records}"
proof -
  let ?by_id = "dict_set_all mr_record_id records []"
  have key: "mr_record_id r = k" if "dict_get ?by_id k = Some r" for k r
    using dict_get_set_all_cases [OF that] by simp
  have has: "dict_has ?by_id r \<longleftrightarrow> r \<in> mr_record_id ` set records" for r
    using dict_get_set_all_mem [OF _ assms, of _ "[]"] dict_get_set_all_cases [of mr_record_id records "[]" r]
    by (auto simp: dict_has_def)
  let ?xs = "concat (map (\<lambda>l. map (Pair l) (mr_conflicts_with l)) (sort_key (\<lambda>r. uuid_str (mr_record_id r)) records))"
  define acc where "acc = fold (\<lambda>(l, r). conflict_step ?by_id l r) ?xs ([], [])"
  have live: "live_conflicts records = snd acc"
    by (simp add: live_conflicts_def Let_def fold_flatten acc_def)
  have start: "scan_ok ([], [])" by (simp add: scan_ok_def)
  have "scan_ok acc \<and> set (fst acc) = {sorted_pair (mr_record_id l) r |l r. (l, r) \<in> set ?xs \<and> dict_has ?by_id r}"
    using conflict_scan [where by_id = ?by_id and acc = "([], [])" and xs = ?xs, OF key start]
    unfolding acc_def by simp
  moreover have "(l, r) \<in> set ?xs \<longleftrightarrow> l \<in> set records \<and> r \<in> set (mr_conflicts_with l)" for l r
    by auto
  ultimately have acc: "scan_ok acc"
    "set (fst acc) = {sorted_pair (mr_record_id l) r |l r. (l \<in> set records \<and> r \<in> set (mr_conflicts_with l))
        \<and> r \<in> mr_record_id ` set records}"
    by (simp_all only: has)
  have "set (map ends (snd acc)) = set (fst acc)" "distinct (map ends (snd acc))"
    using acc(1) by (auto simp: scan_ok_def)
  then show ?thesis using acc(2) live by simp
qed

lemma active_listing:
  assumes "store_wf s"
  shows "set (list_records tenant ns [ACTIVE] None s) = set (namespace_active tenant ns s)"
    and "mset (list_records tenant ns [ACTIVE] None s) = mset (namespace_active tenant ns s)"
    and "distinct (map mr_record_id (list_records tenant ns [ACTIVE] None s))"
proof -
  let ?P = "\<lambda>r. mr_tenant_id r = tenant \<and> mr_namespace r = ns \<and> mr_state r = ACTIVE"
  have k: "keyed mr_record_id (st_records s)" using assms by (simp add: store_wf_def store_keyed_def)
  have e: "mset (list_records tenant ns [ACTIVE] None s) = mset (namespace_active tenant ns s)"
    by (simp add: list_records_def namespace_active_def by_recency_def sort_desc_def)
  then show m: "mset (list_records tenant ns [ACTIVE] None s) = mset (namespace_active tenant ns s)" .
  then show "set (list_records tenant ns [ACTIVE] None s) = set (namespace_active tenant ns s)"
    by (metis set_mset_mset)
  have "distinct (map mr_record_id (namespace_active tenant ns s))"
    using keyed_distinct [OF k] by (simp add: namespace_active_def distinct_map_filter)
  with m show "distinct (map mr_record_id (list_records tenant ns [ACTIVE] None s))"
    by (metis mset_eq_imp_distinct_iff mset_map)
qed

lemma active_iff:
  assumes "store_wf s"
  shows "r \<in> set (namespace_active tenant ns s) \<longleftrightarrow>
     get_record (mr_record_id r) s = Some r \<and> mr_tenant_id r = tenant \<and> mr_namespace r = ns \<and> mr_state r = ACTIVE"
proof -
  have k: "keyed mr_record_id (st_records s)" using assms by (simp add: store_wf_def store_keyed_def)
  have "r \<in> set (dict_values (st_records s)) \<longleftrightarrow> get_record (mr_record_id r) s = Some r"
    using dict_values_get [OF keyed_ok [OF k], of r] keyed_get [OF k] by (auto simp: get_record_def)
  then show ?thesis by (auto simp: namespace_active_def)
qed

lemma linked_iff:
  assumes "store_wf s"
  shows "linked tenant ns s a b \<longleftrightarrow>
     (\<exists>l \<in> set (namespace_active tenant ns s). mr_record_id l = a \<and> b \<in> set (mr_conflicts_with l)
        \<and> b \<in> mr_record_id ` set (namespace_active tenant ns s))"
proof
  assume "linked tenant ns s a b"
  then show "\<exists>l \<in> set (namespace_active tenant ns s). mr_record_id l = a \<and> b \<in> set (mr_conflicts_with l)
        \<and> b \<in> mr_record_id ` set (namespace_active tenant ns s)"
    unfolding linked_def using get_record_id [OF assms] by (metis image_eqI)
next
  assume "\<exists>l \<in> set (namespace_active tenant ns s). mr_record_id l = a \<and> b \<in> set (mr_conflicts_with l)
        \<and> b \<in> mr_record_id ` set (namespace_active tenant ns s)"
  then show "linked tenant ns s a b"
    unfolding linked_def using active_iff [OF assms] by (metis image_iff)
qed

lemma conflicts_Inr:
  assumes "store_wf s" and "conflicts svc en p ns s = (Inr rep, t)"
  shows "t = s \<and> may p A_READ ns \<and> cr_status rep = O_COMPLETE
    \<and> cr_snapshot_digest rep = snapshot_digest (sv_hash svc) (namespace_active (mp_tenant_id p) ns s)
    \<and> distinct (map ends (cr_conflicts rep))
    \<and> set (map ends (cr_conflicts rep)) = contradicting (mp_tenant_id p) ns s"
proof -
  let ?rs = "list_records (mp_tenant_id p) ns [ACTIVE] None s"
  note al = active_listing [OF assms(1), of "mp_tenant_id p" ns]
  have rep: "t = s" "may p A_READ ns" "cr_conflicts rep = live_conflicts ?rs" "cr_status rep = O_COMPLETE"
     "cr_snapshot_digest rep = snapshot_digest (sv_hash svc) ?rs"
    using assms(2) by (auto simp: conflicts_def andThen_Inr split: if_splits)
  have "set (map ends (live_conflicts ?rs)) = contradicting (mp_tenant_id p) ns s"
    unfolding live_conflicts_ends [OF al(3), THEN conjunct2] al(1) contradicting_def linked_iff [OF assms(1)]
    by blast
  with rep live_conflicts_ends [OF al(3)] snapshot_digest_order [OF al(2) al(3)] show ?thesis by simp
qed

section \<open>Phase locks\<close>

text \<open>
  The conflict report of a namespace is exact. It lists every unordered pair of
  current records one of which is linked to the other, each pair once and nothing else, and
  its digest is the one the store recomputes when a governed write commits; reading it
  needs a read grant and changes nothing.
\<close>

theorem conflict_report_exact:
  assumes "store_wf s" and "conflicts svc en p ns s = (Inr rep, t)"
  shows "t = s \<and> may p A_READ ns \<and> distinct (map ends (cr_conflicts rep))
    \<and> set (map ends (cr_conflicts rep)) =
        {sorted_pair a b |a b. linked (mp_tenant_id p) ns s a b}
    \<and> cr_snapshot_digest rep = snapshot_digest (sv_hash svc) (namespace_active (mp_tenant_id p) ns s)"
  using conflicts_Inr [OF assms] by (simp add: contradicting_def)

lemma has_conflicts_iff:
  assumes "store_wf s" and "conflicts svc en p ns s = (Inr rep, t)"
  shows "has_conflicts rep \<longleftrightarrow> (\<exists>a b. linked (mp_tenant_id p) ns s a b)"
proof -
  have "set (map ends (cr_conflicts rep)) = contradicting (mp_tenant_id p) ns s"
    using conflicts_Inr [OF assms] by blast
  moreover have "set (map ends (cr_conflicts rep)) = {} \<longleftrightarrow> cr_conflicts rep = []" by simp
  moreover have "contradicting (mp_tenant_id p) ns s = {} \<longleftrightarrow> (\<nexists>a b. linked (mp_tenant_id p) ns s a b)"
    unfolding contradicting_def by blast
  ultimately show ?thesis unfolding has_conflicts_def by metis
qed

lemma phase_lock_Inr:
  assumes "store_wf s" and "phase_lock svc en p q s = (Inr l, t)"
  shows "(pl_granted l \<longleftrightarrow> (\<nexists>a b. linked (mp_tenant_id p) (plr_namespace q) s a b))
    \<and> pl_snapshot_digest l = snapshot_digest (sv_hash svc) (namespace_active (mp_tenant_id p) (plr_namespace q) s)
    \<and> get_phase_lock (mp_tenant_id p) (plr_namespace q) (plr_task_signature q) t = Some l
    \<and> pl_principal_id l = mp_principal_id p \<and> pl_expires_at l = env_now en + seconds (plr_ttl_seconds q)
    \<and> may p A_WRITE (plr_namespace q) \<and> may p A_READ (plr_namespace q)
    \<and> t = s\<lparr>st_phase_locks := st_phase_locks t\<rparr>"
proof -
  obtain rep u where rep: "conflicts svc en p (plr_namespace q) s = (Inr rep, u)"
    using assms(2) by (auto simp: phase_lock_def andThen_Inr Let_def split: if_splits)
  note c = conflicts_Inr [OF assms(1) rep] has_conflicts_iff [OF assms(1) rep]
  from assms(2) rep c show ?thesis
    by (auto simp: phase_lock_def andThen_Inr Let_def save_phase_lock_def require_service_write_capability_def
        get_phase_lock_def split: if_splits)
qed

text \<open>
  A phase lock is granted exactly when the namespace holds no contradicting
  current records; it is stored under the caller's tenant, namespace and task with the
  digest of the namespace as it is and the expiry that was asked for; issuing it needs both
  the write and the read grant and changes nothing but the lock.
\<close>

theorem phase_lock_granted_iff_consistent:
  assumes "store_wf s" and "phase_lock svc en p q s = (Inr l, t)"
  shows "(pl_granted l \<longleftrightarrow> (\<nexists>a b. linked (mp_tenant_id p) (plr_namespace q) s a b))
    \<and> pl_snapshot_digest l = snapshot_digest (sv_hash svc) (namespace_active (mp_tenant_id p) (plr_namespace q) s)
    \<and> get_phase_lock (mp_tenant_id p) (plr_namespace q) (plr_task_signature q) t = Some l
    \<and> pl_principal_id l = mp_principal_id p \<and> pl_expires_at l = env_now en + seconds (plr_ttl_seconds q)
    \<and> may p A_WRITE (plr_namespace q) \<and> may p A_READ (plr_namespace q)
    \<and> t = s\<lparr>st_phase_locks := st_phase_locks t\<rparr>"
  using assms by (rule phase_lock_Inr)

text \<open>What a lock verified as held comes to.\<close>

definition lock_holds ::
  "service \<Rightarrow> env \<Rightarrow> memory_principal \<Rightarrow> string \<Rightarrow> string \<Rightarrow> store \<Rightarrow> phase_lock_receipt \<Rightarrow> bool" where
  "lock_holds svc en p ns task s l \<longleftrightarrow>
     get_phase_lock (mp_tenant_id p) ns task s = Some l \<and> pl_granted l
     \<and> (pl_principal_id l = mp_principal_id p \<or> mp_is_admin p) \<and> env_now en < pl_expires_at l
     \<and> pl_snapshot_digest l = snapshot_digest (sv_hash svc) (namespace_active (mp_tenant_id p) ns s)
     \<and> (\<nexists>a b. linked (mp_tenant_id p) ns s a b)"

lemma verify_Inr:
  assumes "store_wf s" and "verify_phase_lock svc en p ns task s = (Inr v, t)"
  shows "t = s \<and> may p A_READ ns \<and> (pv_valid v \<longleftrightarrow> (\<exists>l. lock_holds svc en p ns task s l))
    \<and> pv_current_snapshot_digest v = snapshot_digest (sv_hash svc) (namespace_active (mp_tenant_id p) ns s)"
proof -
  obtain rep u where rep: "conflicts svc en p ns s = (Inr rep, u)"
    using assms(2) by (auto simp: verify_phase_lock_def andThen_Inr Let_def split: if_splits)
  note c = conflicts_Inr [OF assms(1) rep] has_conflicts_iff [OF assms(1) rep]
  let ?lock = "get_phase_lock (mp_tenant_id p) ns task s"
  have v: "t = s" "may p A_READ ns" "pv_valid v = (lock_reasons en p rep ?lock = [])"
      "pv_current_snapshot_digest v = cr_snapshot_digest rep"
    using assms(2) rep c by (auto simp: verify_phase_lock_def andThen_Inr Let_def split: if_splits)
  have "lock_reasons en p rep ?lock = [] \<longleftrightarrow> (\<exists>l. lock_holds svc en p ns task s l)"
    using c by (cases ?lock) (auto simp: lock_reasons_def lock_holds_def)
  with v c show ?thesis by simp
qed

text \<open>
  Property C5: there is no window between a governed write's lock check and its commit. If
  the lock was verified as held in one store state and the write is admitted in a later
  one, whatever ran in between, then the lock was stored, granted, unexpired, the caller's
  (or the caller is an administrator), the namespace was free of contradictions when it was
  verified, and the namespace the record was committed into still has the very digest the
  lock was issued for.
\<close>

theorem governed_write_no_race:
  assumes "store_wf s0" and "verify_phase_lock svc en p (wr_namespace q) task s0 = (Inr v, u)" and "pv_valid v"
    and "admit svc en' p q A_WRITE (Some (lock_precondition p (wr_namespace q) v)) s = (Inr rc, t)"
    and "write_fresh en' q s" and "admits (wrc_status rc)" and "\<not> wr_dry_run q"
  shows "\<exists>l. get_phase_lock (mp_tenant_id p) (wr_namespace q) task s0 = Some l \<and> pl_granted l
    \<and> (pl_principal_id l = mp_principal_id p \<or> mp_is_admin p) \<and> env_now en < pl_expires_at l
    \<and> (\<nexists>a b. linked (mp_tenant_id p) (wr_namespace q) s0 a b)
    \<and> snapshot_digest (sv_hash svc) (namespace_active (mp_tenant_id p) (wr_namespace q) s) = pl_snapshot_digest l"
proof -
  have nd: "wrc_status rc \<notin> {W_REJECTED, W_DUPLICATE}" using assms(6) by (auto simp: admits_def)
  let ?pre = "lock_precondition p (wr_namespace q) v"
  obtain r events ses where pl: "plan_write svc en' p q (normalized svc q) (decision_of svc en' p q A_WRITE s)
       (evaluate (stamp_of en' U_authorization) p A_WRITE (wr_namespace q)) (operation_identity en' q) s
       = (Inr (r, rc, events, ses), s)"
    and c: "commit_write (sv_hash svc) SERVICE_WRITE_CAPABILITY (Some r) rc events ses (Some ?pre) s = (Inr (), t)"
    and fresh: "fresh_record r s"
    using stored_write [OF assms(4,5) nd assms(7)] by blast
  note tg = plan_targets [OF pl assms(5)]
  have "snapshot_digest (sv_hash svc) (namespace_active (pp_tenant_id ?pre) (pp_namespace ?pre) s)
           = pp_expected_snapshot_digest ?pre"
    using commit_write_done [OF c fresh tg(1,4)] by simp
  then have d: "snapshot_digest (sv_hash svc) (namespace_active (mp_tenant_id p) (wr_namespace q) s)
      = pv_current_snapshot_digest v"
    by (simp add: lock_precondition_def)
  from verify_Inr [OF assms(1,2)] assms(3) obtain l where "lock_holds svc en p (wr_namespace q) task s0 l"
    "pv_current_snapshot_digest v = snapshot_digest (sv_hash svc) (namespace_active (mp_tenant_id p) (wr_namespace q) s0)"
    by blast
  with d show ?thesis by (auto simp: lock_holds_def)
qed

section \<open>Conflict links\<close>

text \<open>A step that only ever adds conflict links.\<close>

definition same_but_links :: "memory_record option \<Rightarrow> memory_record option \<Rightarrow> bool" where
  "same_but_links a b \<longleftrightarrow>
     (case (a, b) of
        (None, None) \<Rightarrow> True
      | (Some r, Some r') \<Rightarrow> r'\<lparr>mr_conflicts_with := []\<rparr> = r\<lparr>mr_conflicts_with := []\<rparr>
                          \<and> set (mr_conflicts_with r) \<subseteq> set (mr_conflicts_with r')
      | _ \<Rightarrow> False)"

definition links_grow :: "store \<Rightarrow> store \<Rightarrow> bool" where
  "links_grow s t \<longleftrightarrow> (\<forall>rid. same_but_links (get_record rid s) (get_record rid t))"

lemma same_but_links_refl [simp]: "same_but_links a a"
  by (simp add: same_but_links_def split: option.splits)

lemma same_but_links_trans:
  "same_but_links a b \<Longrightarrow> same_but_links b c \<Longrightarrow> same_but_links a c"
  by (cases a; cases b; cases c) (auto simp: same_but_links_def)

lemma links_grow_refl [simp]: "links_grow s s"
  by (simp add: links_grow_def)

lemma links_grow_trans: "links_grow s t \<Longrightarrow> links_grow t u \<Longrightarrow> links_grow s u"
  unfolding links_grow_def using same_but_links_trans by blast

definition points_to :: "store \<Rightarrow> uuid \<Rightarrow> uuid \<Rightarrow> bool" where
  "points_to s a b \<longleftrightarrow> (\<exists>r. get_record a s = Some r \<and> b \<in> set (mr_conflicts_with r))"

lemma points_to_grow: "links_grow s t \<Longrightarrow> points_to s a b \<Longrightarrow> points_to t a b"
  by (fastforce simp: links_grow_def points_to_def same_but_links_def split: option.splits dest: spec [of _ a])

lemma add_conflict_link_Inr:
  "add_conflict_link a b s = (Inr u, t) \<Longrightarrow> links_grow s t \<and> points_to t a b"
  by (auto simp: add_conflict_link_def andThen_Inr links_grow_def points_to_def same_but_links_def get_record_def
      split: option.splits if_splits)

lemma for_each_grow:
  assumes "\<And>x s u t. x \<in> set xs \<Longrightarrow> f x s = (Inr u, t) \<Longrightarrow> links_grow s t \<and> P x t"
    and "\<And>x s t. P x s \<Longrightarrow> links_grow s t \<Longrightarrow> P x t"
    and "for_each f xs s = (Inr u, t)"
  shows "links_grow s t \<and> (\<forall>x \<in> set xs. P x t)"
  using assms(1,3)
proof (induction xs arbitrary: s)
  case Nil
  then show ?case by simp
next
  case (Cons x xs)
  from Cons.prems(2) obtain v w where f: "f x s = (Inr v, w)" and r: "for_each f xs w = (Inr u, t)"
    by (auto simp: andThen_Inr)
  have x: "links_grow s w \<and> P x w" using Cons.prems(1) [of x s v w] f by simp
  have rest: "links_grow s t \<and> P y t" if "y \<in> set xs" "f y s = (Inr u, t)" for y s u t
    using Cons.prems(1) [of y s u t] that by simp
  have xs: "links_grow w t \<and> (\<forall>y \<in> set xs. P y t)"
    by (rule Cons.IH [OF rest r])
  show ?case using x xs assms(2) links_grow_trans by auto
qed

lemma links_grow_receipts: "links_grow s (t\<lparr>st_conflict_receipts := d\<rparr>) \<longleftrightarrow> links_grow s t"
  by (simp add: links_grow_def get_record_def)

lemma commit_conflict_links_Inr:
  assumes "commit_conflict_links cap rc s = (Inr u, t)"
  shows "links_grow s t
    \<and> (\<forall>l \<in> set (clk_links rc). points_to t (ci_left_record_id l) (ci_right_record_id l)
                          \<and> points_to t (ci_right_record_id l) (ci_left_record_id l))"
proof -
  let ?add = "\<lambda>l. andThen (add_conflict_link (ci_left_record_id l) (ci_right_record_id l))
       (\<lambda>_. add_conflict_link (ci_right_record_id l) (ci_left_record_id l))"
  let ?P = "\<lambda>l t. points_to t (ci_left_record_id l) (ci_right_record_id l)
               \<and> points_to t (ci_right_record_id l) (ci_left_record_id l)"
  let ?chk = "for_each (\<lambda>l. andThen (require_record (ci_left_record_id l))
       (\<lambda>_. require_record (ci_right_record_id l))) (clk_links rc)"
  have ro: "reads_only ?chk"
    unfolding require_record_def by (intro reads_only_for_each reads_only_andThen reads_only_gets reads_only_check)
  from assms obtain v w where w: "?chk s = (Inr v, w)"
    and a: "for_each ?add (clk_links rc) w = (Inr (), t\<lparr>st_conflict_receipts := st_conflict_receipts w\<rparr>)
       \<or> (\<exists>x. for_each ?add (clk_links rc) w = (Inr (), x)
            \<and> t = x\<lparr>st_conflict_receipts := dict_set (clk_receipt_id rc) rc (st_conflict_receipts x)\<rparr>)"
    by (auto simp: commit_conflict_links_def andThen_Inr require_service_write_capability_def)
  have ws: "w = s" using reads_onlyD [OF ro w] .
  have step: "links_grow x z \<and> ?P l z" if "?add l x = (Inr y, z)" for l x y z
  proof -
    from that obtain o1 x1 where "add_conflict_link (ci_left_record_id l) (ci_right_record_id l) x = (Inr o1, x1)"
      "add_conflict_link (ci_right_record_id l) (ci_left_record_id l) x1 = (Inr y, z)"
      by (auto simp: andThen_Inr)
    then show ?thesis
      using add_conflict_link_Inr points_to_grow links_grow_trans by meson
  qed
  have "links_grow w x \<and> (\<forall>l \<in> set (clk_links rc). ?P l x)" if "for_each ?add (clk_links rc) w = (Inr (), x)" for x
  proof (rule for_each_grow [where f = ?add and P = ?P, OF _ _ that])
    show "links_grow s t \<and> ?P l t" if "?add l s = (Inr u, t)" for l s u t using step that .
    show "?P l t" if "?P l s" "links_grow s t" for l s t using that points_to_grow by blast
  qed
  with a ws show ?thesis
    by (auto simp: links_grow_receipts points_to_def get_record_def)
qed

definition current_in :: "string \<Rightarrow> string \<Rightarrow> store \<Rightarrow> uuid \<Rightarrow> bool" where
  "current_in tenant ns s rid \<longleftrightarrow>
     (\<exists>r. get_record rid s = Some r \<and> mr_tenant_id r = tenant \<and> mr_namespace r = ns \<and> mr_state r = ACTIVE)"

lemma link_side_Inr:
  "link_side p ns rid s = (Inr r, t) \<longleftrightarrow>
     t = s \<and> get_record rid s = Some r \<and> mr_tenant_id r = mp_tenant_id p \<and> mr_namespace r = ns \<and> mr_state r = ACTIVE"
  by (cases "get_record rid s") (auto simp: link_side_def andThen_Inr)

text \<open>A pair of the request is settled: both sides are current, and the pair is linked already or will be.\<close>

definition settled :: "memory_principal \<Rightarrow> string \<Rightarrow> store \<Rightarrow> conflict_item list \<Rightarrow> uuid \<times> uuid \<Rightarrow> bool" where
  "settled p ns s rest pair \<longleftrightarrow>
     current_in (mp_tenant_id p) ns s (fst pair) \<and> current_in (mp_tenant_id p) ns s (snd pair)
     \<and> (points_to s (fst pair) (snd pair) \<and> points_to s (snd pair) (fst pair)
        \<or> pair \<in> (\<lambda>l. sorted_pair (ci_left_record_id l) (ci_right_record_id l)) ` set rest)"

lemma settled_mono: "settled p ns s rest pair \<Longrightarrow> set rest \<subseteq> set rest' \<Longrightarrow> settled p ns s rest' pair"
  by (auto simp: settled_def)

lemma fresh_links_Inr:
  "fresh_links p ns seen links s = (Inr rest, t) \<Longrightarrow>
     t = s \<and> (\<forall>l \<in> set links. ci_left_record_id l \<noteq> ci_right_record_id l
       \<and> (sorted_pair (ci_left_record_id l) (ci_right_record_id l) \<in> set seen
          \<or> settled p ns s rest (sorted_pair (ci_left_record_id l) (ci_right_record_id l))))"
proof (induction links arbitrary: seen rest)
  case Nil
  then show ?case by simp
next
  case (Cons l ls)
  let ?pair = "sorted_pair (ci_left_record_id l) (ci_right_record_id l)"
  have ne: "ci_left_record_id l \<noteq> ci_right_record_id l"
    using Cons.prems by (auto simp: andThen_Inr)
  show ?case
  proof (cases "?pair \<in> set seen")
    case True
    with Cons ne show ?thesis by (simp add: andThen_Inr)
  next
    case False
    with Cons.prems obtain a b rest' where
      sides: "get_record (fst ?pair) s = Some a" "get_record (snd ?pair) s = Some b"
        "current_in (mp_tenant_id p) ns s (fst ?pair)" "current_in (mp_tenant_id p) ns s (snd ?pair)"
      and r: "fresh_links p ns (?pair # seen) ls s = (Inr rest', t)"
        "rest = (if snd ?pair \<in> set (mr_conflicts_with a) \<and> fst ?pair \<in> set (mr_conflicts_with b) then rest' else l # rest')"
      by (auto simp: andThen_Inr Let_def link_side_Inr current_in_def)
    have me: "settled p ns s rest ?pair"
      using sides r(2) by (auto simp: settled_def points_to_def)
    have "set rest' \<subseteq> set rest" using r(2) by auto
    then have mono: "settled p ns s rest' x \<Longrightarrow> settled p ns s rest x" for x by (rule settled_mono [rotated])
    note ih = Cons.IH [OF r(1)]
    show ?thesis
    proof (intro conjI ballI)
      show "t = s" using ih by blast
      fix k assume k: "k \<in> set (l # ls)"
      show "ci_left_record_id k \<noteq> ci_right_record_id k" using k ne ih by auto
      show "sorted_pair (ci_left_record_id k) (ci_right_record_id k) \<in> set seen
          \<or> settled p ns s rest (sorted_pair (ci_left_record_id k) (ci_right_record_id k))"
      proof (cases "sorted_pair (ci_left_record_id k) (ci_right_record_id k) = ?pair")
        case True
        with me show ?thesis by simp
      next
        case False
        with k have "k \<in> set ls" by auto
        with False ih mono show ?thesis by (metis set_ConsD)
      qed
    qed
  qed
qed

lemma sorted_pair_cases: "sorted_pair a b = (a, b) \<or> sorted_pair a b = (b, a)"
  by (simp add: sorted_pair_def)

lemma sorted_pair_ends: "sorted_pair a b = sorted_pair c d \<Longrightarrow> (a = c \<and> b = d) \<or> (a = d \<and> b = c)"
  by (auto simp: sorted_pair_def split: if_splits)

lemma same_but_links_sel:
  "r'\<lparr>mr_conflicts_with := []\<rparr> = r\<lparr>mr_conflicts_with := []\<rparr> \<Longrightarrow>
     mr_tenant_id r' = mr_tenant_id r \<and> mr_namespace r' = mr_namespace r \<and> mr_state r' = mr_state r"
  by (cases r; cases r') simp

lemma current_grow: "links_grow s t \<Longrightarrow> current_in tenant ns s a \<Longrightarrow> current_in tenant ns t a"
proof -
  assume g: "links_grow s t" and c: "current_in tenant ns s a"
  from g have "same_but_links (get_record a s) (get_record a t)" by (simp add: links_grow_def)
  with c show ?thesis
    by (auto simp: current_in_def same_but_links_def dest: same_but_links_sel split: option.splits)
qed

lemma linked_points_to:
  assumes "store_wf s" "current_in tenant ns s a" "current_in tenant ns s b" "points_to s a b"
  shows "linked tenant ns s a b"
proof -
  from assms(2-4) obtain ra rb where r: "get_record a s = Some ra" "get_record b s = Some rb"
      "b \<in> set (mr_conflicts_with ra)" "mr_tenant_id ra = tenant" "mr_namespace ra = ns" "mr_state ra = ACTIVE"
      "mr_tenant_id rb = tenant" "mr_namespace rb = ns" "mr_state rb = ACTIVE"
    by (auto simp: current_in_def points_to_def)
  then show ?thesis
    using active_iff [OF assms(1)] get_record_id [OF assms(1)] unfolding linked_def by metis
qed

text \<open>
  Linking contradictions is durable, symmetric and bounded. It needs the
  maintenance grant; afterwards both records of every requested pair are current records
  of the caller's tenant and the namespace, each names the other, and no record changed in
  anything but its links, none of which was dropped; and from then on the namespace's
  phase lock is refused.
\<close>

theorem linked_conflicts_block_locks:
  assumes "store_wf s" and "link_conflicts en p ns links reason s = (Inr rc, t)" and "l \<in> set links"
  shows "may p A_MAINTAIN ns \<and> links_grow s t
    \<and> current_in (mp_tenant_id p) ns t (ci_left_record_id l) \<and> current_in (mp_tenant_id p) ns t (ci_right_record_id l)
    \<and> points_to t (ci_left_record_id l) (ci_right_record_id l) \<and> points_to t (ci_right_record_id l) (ci_left_record_id l)
    \<and> (\<forall>lock u. phase_lock svc en' p q t = (Inr lock, u) \<longrightarrow> plr_namespace q = ns \<longrightarrow> \<not> pl_granted lock)"
proof -
  obtain fresh where may: "may p A_MAINTAIN ns" and f: "fresh_links p ns [] links s = (Inr fresh, s)"
    and c: "if fresh \<noteq> [] then clk_links rc = fresh \<and> commit_conflict_links SERVICE_WRITE_CAPABILITY rc s = (Inr (), t) else t = s"
    using assms(2) fresh_links_Inr [of p ns "[]" links s]
    by (fastforce simp: link_conflicts_def andThen_Inr make_conflict_link_receipt_def split: if_splits)
  have grow: "links_grow s t" and lk: "\<forall>l \<in> set fresh. points_to t (ci_left_record_id l) (ci_right_record_id l)
      \<and> points_to t (ci_right_record_id l) (ci_left_record_id l)"
    using c commit_conflict_links_Inr by (auto split: if_splits)
  have wf: "store_wf t"
    using c assms(1) keepsD [OF keeps_commit_conflict_links] by (auto split: if_splits)
  let ?a = "ci_left_record_id l" and ?b = "ci_right_record_id l"
  have st: "settled p ns s fresh (sorted_pair ?a ?b)"
    using fresh_links_Inr [OF f] assms(3) by auto
  then have cur: "current_in (mp_tenant_id p) ns t ?a" "current_in (mp_tenant_id p) ns t ?b"
    using sorted_pair_cases [of ?a ?b] current_grow [OF grow] by (auto simp: settled_def)
  have pts: "points_to t ?a ?b \<and> points_to t ?b ?a"
  proof (cases "sorted_pair ?a ?b \<in> (\<lambda>l. sorted_pair (ci_left_record_id l) (ci_right_record_id l)) ` set fresh")
    case True
    then obtain l' where "l' \<in> set fresh" "sorted_pair ?a ?b = sorted_pair (ci_left_record_id l') (ci_right_record_id l')"
      by auto
    with lk sorted_pair_ends [OF this(2)] show ?thesis by auto
  next
    case False
    with st sorted_pair_cases [of ?a ?b] points_to_grow [OF grow] show ?thesis by (auto simp: settled_def)
  qed
  have "\<not> pl_granted lock" if "phase_lock svc en' p q t = (Inr lock, u)" "plr_namespace q = ns" for lock u
    using phase_lock_Inr [OF wf that(1)] linked_points_to [OF wf cur] pts that(2) by blast
  with may grow cur pts show ?thesis by blast
qed

section \<open>Concrete locks and links\<close>

lemma authorize_granted: "may p a ns \<Longrightarrow> authorize en p a ns s = (Inr (evaluate (stamp_of en U_authorization) p a ns), s)"
  by simp

lemma conflicts_run: "may p A_READ ns \<Longrightarrow> \<exists>rep. conflicts svc en p ns s = (Inr rep, s)"
  by (simp add: conflicts_def andThen_def authorize_granted gets_def ret_def)

lemma phase_lock_run:
  assumes "may p A_READ (plr_namespace q)" "may p A_WRITE (plr_namespace q)"
  shows "\<exists>l t. phase_lock svc en p q s = (Inr l, t)"
proof -
  obtain rep where "conflicts svc en p (plr_namespace q) s = (Inr rep, s)" using conflicts_run [OF assms(1)] by blast
  then show ?thesis
    by (simp add: phase_lock_def andThen_def authorize_granted [OF assms(2)] Let_def save_phase_lock_def
        require_service_write_capability_def check_def ret_def modify_def)
qed

lemma verify_run:
  assumes "may p A_READ ns"
  shows "\<exists>v. verify_phase_lock svc en p ns task s = (Inr v, s)"
proof -
  obtain rep where "conflicts svc en p ns s = (Inr rep, s)" using conflicts_run [OF assms] by blast
  then show ?thesis
    by (simp add: verify_phase_lock_def andThen_def authorize_granted [OF assms] Let_def gets_def ret_def)
qed

definition smp_two :: store where
  "smp_two = inserted (Some (smp_record 2 ACTIVE)) (inserted (Some (smp_record 1 ACTIVE)) empty_store)"

lemma smp_two_get [simp]:
  "get_record rid smp_two =
     (if rid = 2 then Some (smp_record 2 ACTIVE) else if rid = 1 then Some (smp_record 1 ACTIVE) else None)"
  by (simp add: smp_two_def inserted_def get_record_def empty_store_def)

lemma smp_two_wf: "store_wf smp_two"
proof -
  have f1: "fresh_record (smp_record 1 ACTIVE) empty_store"
    by (simp add: fresh_record_def get_record_def empty_store_def)
  have f2: "fresh_record (smp_record 2 ACTIVE) (inserted (Some (smp_record 1 ACTIVE)) empty_store)"
    by (simp add: fresh_record_def get_record_def inserted_def operation_key_def empty_store_def uuid_str_neq)
  show ?thesis
    unfolding smp_two_def by (rule inserted_wf [OF inserted_wf [OF store_wf_empty f1] f2])
qed

theorem conflict_report_exact_witness:
  "\<exists>rep. conflicts smp_service smp_env smp_principal ''ns'' smp_two = (Inr rep, smp_two) \<and> cr_conflicts rep = []"
proof -
  obtain rep where c: "conflicts smp_service smp_env smp_principal ''ns'' smp_two = (Inr rep, smp_two)"
    using conflicts_run [OF smp_may(2)] by blast
  have "\<not> linked ''t'' ''ns'' smp_two a b" for a b
    by (auto simp: linked_def split: if_splits)
  with conflict_report_exact [OF smp_two_wf c] have "set (map ends (cr_conflicts rep)) = {}" by simp
  with c show ?thesis by simp
qed

definition smp_lock_request :: phase_lock_request where
  "smp_lock_request = \<lparr>plr_namespace = ''ns'', plr_task_signature = ''task'', plr_ttl_seconds = 60\<rparr>"

theorem phase_lock_granted_iff_consistent_witness:
  "\<exists>l t. phase_lock smp_service smp_env smp_principal smp_lock_request smp_two = (Inr l, t) \<and> pl_granted l"
proof -
  obtain l t where l: "phase_lock smp_service smp_env smp_principal smp_lock_request smp_two = (Inr l, t)"
    using phase_lock_run smp_may by (metis phase_lock_request.select_convs(1) smp_lock_request_def)
  have "\<not> linked ''t'' ''ns'' smp_two a b" for a b
    by (auto simp: linked_def split: if_splits)
  with phase_lock_granted_iff_consistent [OF smp_two_wf l] l show ?thesis
    by (auto simp: smp_lock_request_def)
qed

definition smp_conflict :: conflict_item where
  "smp_conflict = \<lparr>ci_left_record_id = 1, ci_right_record_id = 2, ci_subject = None, ci_predicate = None,
     ci_reason = ''contradiction''\<rparr>"

abbreviation smp_maintainer :: memory_principal where
  "smp_maintainer \<equiv> smp_principal\<lparr>mp_maintain_namespaces := [''ns'']\<rparr>"

lemma smp_conflict_sel [simp]: "ci_left_record_id smp_conflict = 1" "ci_right_record_id smp_conflict = 2"
  by (simp_all add: smp_conflict_def)

lemma smp_may_maintain: "may smp_maintainer A_MAINTAIN ''ns''"
  by (simp add: may_def patterns_for_def fnmatch_literal)

lemma smp_reason: "len_ok (Suc 0) 2000 ''found''"
  by (simp add: len_ok_def)

lemma smp_actor: "len_ok (Suc 0) 400 (audit_subject smp_maintainer)"
  by (simp add: len_ok_def audit_subject_def smp_principal_def)

lemma smp_link_run:
  "\<exists>rc t. link_conflicts smp_env smp_maintainer ''ns'' [smp_conflict] ''found'' smp_two = (Inr rc, t)"
proof -
  have side: "link_side smp_maintainer ''ns'' rid smp_two = (Inr (smp_record rid ACTIVE), smp_two)" if "rid = 1 \<or> rid = 2" for rid
    using that by (auto simp: link_side_Inr)
  have fr: "fresh_links smp_maintainer ''ns'' [] [smp_conflict] smp_two = (Inr [smp_conflict], smp_two)"
    using sorted_pair_cases [of 1 2] side
    by (auto simp: andThen_def check_def ret_def Let_def)
  have add: "\<exists>u. add_conflict_link a b s = (Inr (), u)" if "get_record a s \<noteq> None" for a b s
    using that by (auto simp: add_conflict_link_def andThen_def gets_def ret_def modify_def)
  obtain s1 where s1: "add_conflict_link 1 2 smp_two = (Inr (), s1)" using add [of 1 smp_two 2] by auto
  have "same_but_links (get_record 2 smp_two) (get_record 2 s1)"
    using add_conflict_link_Inr [OF s1] unfolding links_grow_def by blast
  then have "get_record 2 s1 \<noteq> None" by (auto simp: same_but_links_def split: option.splits)
  then obtain s2 where s2: "add_conflict_link 2 1 s1 = (Inr (), s2)" using add [of 2 s1 1] by auto
  show ?thesis
    by (simp add: link_conflicts_def andThen_def authorize_granted [OF smp_may_maintain] fr from_sum_def
        make_conflict_link_receipt_def smp_reason commit_conflict_links_def require_service_write_capability_def
        require_record_def gets_def check_def modify_def ret_def s1 s2 smp_actor del: fresh_links.simps)
qed

theorem linked_conflicts_block_locks_witness:
  "\<exists>rc t l u. link_conflicts smp_env smp_maintainer ''ns'' [smp_conflict] ''found'' smp_two = (Inr rc, t)
     \<and> points_to t 1 2 \<and> points_to t 2 1
     \<and> phase_lock smp_service smp_env smp_maintainer smp_lock_request t = (Inr l, u) \<and> \<not> pl_granted l"
proof -
  obtain rc t where r: "link_conflicts smp_env smp_maintainer ''ns'' [smp_conflict] ''found'' smp_two = (Inr rc, t)"
    using smp_link_run by blast
  have m: "may smp_maintainer A_READ (plr_namespace smp_lock_request)" "may smp_maintainer A_WRITE (plr_namespace smp_lock_request)"
    by (simp_all add: may_def patterns_for_def smp_principal_def fnmatch_literal smp_lock_request_def)
  obtain l u where l: "phase_lock smp_service smp_env smp_maintainer smp_lock_request t = (Inr l, u)"
    using phase_lock_run [OF m] by blast
  have "smp_conflict \<in> set [smp_conflict]" by simp
  from linked_conflicts_block_locks [OF smp_two_wf r this, of smp_service smp_env smp_lock_request] r l
  show ?thesis by (auto simp: smp_conflict_def smp_lock_request_def)
qed

theorem governed_write_no_race_witness:
  "\<exists>s l. get_phase_lock ''t'' ''ns'' ''task'' s = Some l \<and> pl_granted l
     \<and> snapshot_digest smp_hash (namespace_active ''t'' ''ns'' s) = pl_snapshot_digest l"
proof -
  let ?q = "smp_request SEMANTIC [7]"
  obtain l0 s where l0: "phase_lock smp_service smp_env smp_principal smp_lock_request smp_store7 = (Inr l0, s)"
    using phase_lock_run smp_may by (metis phase_lock_request.select_convs(1) smp_lock_request_def)
  note pl = phase_lock_Inr [OF smp_store7_wf l0]
  then obtain d where s: "s = smp_store7\<lparr>st_phase_locks := d\<rparr>" by blast
  have g: "get_record rid s = get_record rid smp_store7" for rid by (simp add: s get_record_def)
  have na: "namespace_active tn ns s = namespace_active tn ns smp_store7" for tn ns
    by (simp add: s namespace_active_def)
  have wf: "store_wf s"
    using l0 smp_store7_wf keepsD [OF keeps_save_phase_lock]
    by (auto simp: phase_lock_def andThen_Inr Let_def conflicts_def split: if_splits)
  have like: "smp_like s" by (simp add: smp_like_def g) (simp add: s smp_store7_def)
  have nl: "\<not> linked ''t'' ''ns'' smp_store7 a b" "\<not> linked ''t'' ''ns'' s a b" for a b
    by (auto simp: linked_def g split: if_splits)
  have holds: "lock_holds smp_service smp_env smp_principal ''ns'' ''task'' s l0"
    using pl nl by (simp add: lock_holds_def smp_lock_request_def na seconds_def)
  obtain v where v: "verify_phase_lock smp_service smp_env smp_principal ''ns'' ''task'' s = (Inr v, s)"
    using verify_run [OF smp_may(2)] by blast
  with verify_Inr [OF wf v] holds have valid: "pv_valid v"
    and dg: "pv_current_snapshot_digest v = snapshot_digest smp_hash (namespace_active ''t'' ''ns'' s)"
    by auto
  obtain rc t where a: "admit smp_service smp_env smp_principal ?q A_WRITE
      (Some (lock_precondition smp_principal ''ns'' v)) s = (Inr rc, t)" and st: "admits (wrc_status rc)"
    using smp_admit [OF like, of "Some (lock_precondition smp_principal ''ns'' v)"] dg
    by (auto simp: lock_precondition_def)
  have fresh: "write_fresh smp_env ?q s" by (simp add: write_fresh_def wf g)
  from governed_write_no_race [of s smp_service smp_env smp_principal ?q "''task''" v s smp_env s rc t]
  show ?thesis using wf v valid a fresh st by auto
qed

end
