(* ===== verification/ServiceLifecycle.thy ===== *)
theory ServiceLifecycle
  imports ServiceLocks
begin

text \<open>
  Governed lifecycle changes of \<open>services/memory_service.py\<close>: \<open>transition_lifecycle\<close> with the
  table of transitions and the authority each needs, and \<open>invalidate_by_source\<close>, which plans
  one such transition per namespace and commits all of them or none.
\<close>

section \<open>Planning a transition\<close>

text \<open>The table \<open>_LIFECYCLE_TRANSITIONS\<close>.\<close>

fun lifecycle_action :: "memory_state \<Rightarrow> memory_state \<Rightarrow> authorization_action option" where
  "lifecycle_action ACTIVE SUPERSEDED = Some A_MAINTAIN"
| "lifecycle_action ACTIVE ARCHIVED = Some A_MAINTAIN"
| "lifecycle_action SUPERSEDED ARCHIVED = Some A_MAINTAIN"
| "lifecycle_action SUPERSEDED ACTIVE = Some A_ADMIN"
| "lifecycle_action ARCHIVED ACTIVE = Some A_ADMIN"
| "lifecycle_action QUARANTINED ACTIVE = Some A_ADMIN"
| "lifecycle_action _ _ = None"

fun verdict_value :: "quarantine_verdict \<Rightarrow> string" where
  "verdict_value V_RELEASE = ''release''"
| "verdict_value V_HOLD = ''hold''"
| "verdict_value V_ESCALATE = ''escalate''"

text \<open>\<open>format(x, ".2f")\<close> of a score between 0 and 1, over the reals.\<close>

definition two_decimals :: "real \<Rightarrow> string" where
  "two_decimals x =
     (let n = nat (round (x * 100)) in
      nat_str (n div 100) @ ''.'' @ (if n mod 100 < 10 then ''0'' else []) @ nat_str (n mod 100))"

definition review_summary :: "review_verdict \<Rightarrow> string" where
  "review_summary v =
     ''quarantine review by '' @ rv_reviewer v
       @ (if nonempty_opt (rv_model v) then '' ('' @ the (rv_model v) @ '')'' else [])
       @ '': '' @ verdict_value (rv_verdict v) @ '' at confidence '' @ two_decimals (rv_confidence v)
       @ ''; '' @ join_str ''; '' (rv_reasons v)"

definition review_evidence :: "review_verdict \<Rightarrow> evidence_ref" where
  "review_evidence v =
     evidence_of E_INFERENCE (take 2000 (review_summary v)) (Some (rv_reviewer v)) (rv_reviewed_at v)"

text \<open>What the loop over the records collects for each of them.\<close>

record lifecycle_item =
  li_transition :: lifecycle_transition
  li_event :: memory_status_event
  li_action :: authorization_action
  li_evidence :: "evidence_ref list"

text \<open>The action a transition needs and the evidence a review adds.\<close>

definition required_action ::
  "memory_record \<Rightarrow> uuid \<Rightarrow> authorization_action \<Rightarrow> review_verdict option
     \<Rightarrow> error + authorization_action \<times> evidence_ref list" where
  "required_action r rid action review =
     (case review of
        None \<Rightarrow> Inr (action, [])
      | Some v \<Rightarrow>
          if mr_state r \<noteq> QUARANTINED then Inr (action, [])
          else if rv_record_id v \<noteq> rid
          then Inl (AdmissionError ''review verdict is for another record'')
          else if rv_verdict v \<noteq> V_RELEASE \<or> requires_human v
          then Inl (AdmissionError ''review verdict does not authorize releasing the record from quarantine'')
          else Inr (A_MAINTAIN, [review_evidence v]))"

definition plan_item ::
  "env \<Rightarrow> memory_principal \<Rightarrow> string \<Rightarrow> memory_state \<Rightarrow> string \<Rightarrow> review_verdict option \<Rightarrow> nat \<times> uuid
     \<Rightarrow> lifecycle_item store_op" where
  "plan_item en p ns new_state reason review x =
     andThen (gets (get_record (snd x))) (\<lambda>found.
       case found of
         None \<Rightarrow> throw (StoreError ''record not found'')
       | Some r \<Rightarrow>
           andThen (check (mr_tenant_id r = mp_tenant_id p \<and> mr_namespace r = ns)
             (AuthorizationError ''lifecycle transition target is outside the authorized tenant or namespace'')) (\<lambda>_.
           case lifecycle_action (mr_state r) new_state of
             None \<Rightarrow> throw (AdmissionError ''lifecycle transition is not governed by this path'')
           | Some action \<Rightarrow>
               andThen (from_sum (required_action r (snd x) action review)) (\<lambda>(needed, evidence).
               andThen (from_sum (make_status_event
                 \<lparr>se_event_id = env_uuid en (U_status (fst x)), se_record_id = snd x,
                  se_previous_state = Some (mr_state r), se_new_state = new_state, se_reason = reason,
                  se_actor = audit_subject p, se_occurred_at = env_now en, se_receipt_id = None\<rparr>)) (\<lambda>event.
                 ret \<lparr>li_transition = \<lparr>lt_record_id = snd x, lt_previous_state = mr_state r, lt_new_state = new_state\<rparr>,
                      li_event = event, li_action = needed, li_evidence = evidence\<rparr>))))"

text \<open>\<open>for action in sorted(required): authorization = require(...)\<close>; the last receipt stays.\<close>

fun authorize_each ::
  "env \<Rightarrow> memory_principal \<Rightarrow> string \<Rightarrow> authorization_receipt \<Rightarrow> authorization_action list
     \<Rightarrow> authorization_receipt store_op" where
  "authorize_each en p ns a [] = ret a"
| "authorize_each en p ns a (x # xs) =
     andThen (authorize en p x ns) (\<lambda>b. authorize_each en p ns b xs)"

definition lifecycle_events ::
  "service \<Rightarrow> env \<Rightarrow> string \<Rightarrow> memory_state \<Rightarrow> string \<Rightarrow> store \<Rightarrow> nat \<Rightarrow> uuid \<Rightarrow> outbox_event list" where
  "lifecycle_events svc en ns new_state reason s k rid =
     (if new_state = ACTIVE
      then target_events en k ''memory.record.project'' rid ns
             [(''record_id'', JStr (uuid_str rid)), (''reason'', JStr reason), (''reactivated'', JBool True)]
             (delivery_identities svc)
      else target_events en k ''memory.record.retire'' rid ns
             [(''record_id'', JStr (uuid_str rid)), (''reason'', JStr reason)]
             (copy_holders svc rid s))"

text \<open>
  \<open>rc\<close> is the identifier of the receipt; \<open>i\<close> and \<open>k\<close> are the numbers of status events and of
  outbox events the caller's operation has already made.
\<close>

definition plan_lifecycle_transition ::
  "service \<Rightarrow> env \<Rightarrow> memory_principal \<Rightarrow> string \<Rightarrow> uuid list \<Rightarrow> memory_state \<Rightarrow> string \<Rightarrow> review_verdict option
     \<Rightarrow> evidence_ref list \<Rightarrow> uuid \<Rightarrow> nat \<Rightarrow> nat
     \<Rightarrow> (lifecycle_receipt \<times> memory_status_event list \<times> outbox_event list) store_op" where
  "plan_lifecycle_transition svc en p ns rids new_state reason review evidence rc i k =
     andThen (check (rids \<noteq> []) (AdmissionError ''lifecycle transition requires at least one record'')) (\<lambda>_.
     andThen (map_each (plan_item en p ns new_state reason review) (enumerate i (dedup rids))) (\<lambda>items.
     andThen (authorize en p A_READ ns) (\<lambda>read.
     andThen (authorize_each en p ns read (sort (remdups (map li_action items)))) (\<lambda>authorization.
     andThen (gets (\<lambda>s. extend_events (lifecycle_events svc en ns new_state reason s) k
                          (map (\<lambda>x. lt_record_id (li_transition x)) items))) (\<lambda>events.
     andThen (from_sum (make_lifecycle_receipt
       \<lparr>lr_receipt_id = rc, lr_status = O_COMPLETE, lr_namespace = ns, lr_transitions = map li_transition items,
        lr_authorization = authorization, lr_outbox_event_ids = map ob_event_id events, lr_reason = reason,
        lr_actor = audit_subject p, lr_evidence = evidence @ concat (map li_evidence items),
        lr_created_at = env_now en\<rparr>)) (\<lambda>receipt.
       ret (receipt, map (\<lambda>x. (li_event x)\<lparr>se_receipt_id := Some rc\<rparr>) items, events)))))))"

definition transition_lifecycle ::
  "service \<Rightarrow> env \<Rightarrow> memory_principal \<Rightarrow> string \<Rightarrow> uuid list \<Rightarrow> memory_state \<Rightarrow> string \<Rightarrow> review_verdict option
     \<Rightarrow> evidence_ref list \<Rightarrow> lifecycle_receipt store_op" where
  "transition_lifecycle svc en p ns rids new_state reason review evidence =
     andThen (plan_lifecycle_transition svc en p ns rids new_state reason review evidence
                (env_uuid en U_receipt) 0 0) (\<lambda>(receipt, status_events, outbox_events).
     andThen (commit_lifecycle SERVICE_WRITE_CAPABILITY receipt status_events outbox_events) (\<lambda>_.
       ret receipt))"

section \<open>Source invalidation\<close>

definition invalidation_matches :: "memory_principal \<Rightarrow> invalidation_request \<Rightarrow> store \<Rightarrow> uuid list" where
  "invalidation_matches p q s =
     dedup (concat (map (\<lambda>x. find_source_selector_matches (mp_tenant_id p) (iq_repository q)
                              (is_selector_type x) (is_selector_value x) s) (normalized_selectors q)))"

text \<open>\<open>by_namespace.setdefault(record.namespace, []).append(record_id)\<close>.\<close>

definition group_record ::
  "memory_principal \<Rightarrow> store \<Rightarrow> uuid \<Rightarrow> (string, uuid list) dict \<Rightarrow> (string, uuid list) dict" where
  "group_record p s rid d =
     (case get_record rid s of
        None \<Rightarrow> d
      | Some r \<Rightarrow>
          if mr_tenant_id r \<noteq> mp_tenant_id p then d
          else dict_set (mr_namespace r)
                 ((case dict_get d (mr_namespace r) of None \<Rightarrow> [] | Some ids \<Rightarrow> ids) @ [rid]) d)"

definition group_by_namespace :: "memory_principal \<Rightarrow> uuid list \<Rightarrow> store \<Rightarrow> (string, uuid list) dict" where
  "group_by_namespace p rids s = fold (group_record p s) rids []"

text \<open>\<open>for namespace in sorted(by_namespace)\<close> with its records.\<close>

definition sorted_groups :: "(string, uuid list) dict \<Rightarrow> (string \<times> uuid list) list" where
  "sorted_groups d = sort_key fst d"

definition may_invalidate :: "memory_principal \<Rightarrow> string list \<Rightarrow> bool" where
  "may_invalidate p namespaces \<longleftrightarrow>
     list_all (\<lambda>ns. list_all (\<lambda>a. ar_allowed (evaluate (0, 0) p a ns)) [A_READ, A_MAINTAIN]) namespaces"

definition rejected_invalidation ::
  "invalidation_request \<Rightarrow> string \<Rightarrow> nat \<Rightarrow> string \<Rightarrow> invalidation_receipt" where
  "rejected_invalidation q eid matched reason =
     \<lparr>ir_status = I_REJECTED, ir_event_type = iq_event_type q, ir_matched = matched, ir_reason = Some reason,
      ir_event_id = Some eid, ir_transitioned = 0, ir_record_ids = [], ir_lifecycle_receipt_ids = [],
      ir_revalidation_requirement_ids = [], ir_deleted = False\<rparr>"

definition applied_invalidation :: "invalidation_event \<Rightarrow> invalidation_receipt" where
  "applied_invalidation e =
     \<lparr>ir_status = I_APPLIED, ir_event_type = ie_event_type e, ir_matched = ie_matched e, ir_reason = None,
      ir_event_id = Some (ie_event_id e), ir_transitioned = ie_transitioned e, ir_record_ids = ie_record_ids e,
      ir_lifecycle_receipt_ids = ie_lifecycle_receipt_ids e,
      ir_revalidation_requirement_ids = ie_revalidation_requirement_ids e, ir_deleted = False\<rparr>"

definition replayed_invalidation ::
  "memory_principal \<Rightarrow> invalidation_request \<Rightarrow> invalidation_event \<Rightarrow> digest \<Rightarrow> invalidation_receipt" where
  "replayed_invalidation p q existing dg =
     (if ie_request_digest existing \<noteq> dg
      then rejected_invalidation q (ie_event_id existing) 0
             ''invalidation operation identity was already applied with a different request body; send a new event_id''
      else if \<not> may_invalidate p (ie_namespaces existing)
      then rejected_invalidation q (ie_event_id existing) 0 ''not authorized to read invalidation results''
      else applied_invalidation existing)"

definition dash :: "string \<Rightarrow> string option \<Rightarrow> string" where
  "dash placeholder v = (if nonempty_opt v then the v else placeholder)"

definition invalidation_evidence :: "env \<Rightarrow> invalidation_request \<Rightarrow> string \<Rightarrow> evidence_ref" where
  "invalidation_evidence en q eid =
     evidence_of E_EXPLICIT
       (take 2000 (''structured source invalidation '' @ iq_event_type q @ '' repository='' @ dash ''*'' (iq_repository q)
          @ '' from='' @ dash ''-'' (iq_from_sha q) @ '' to='' @ dash ''-'' (iq_to_sha q)))
       (Some eid) (env_now en)"

definition invalidation_reason :: "invalidation_request \<Rightarrow> string \<Rightarrow> string" where
  "invalidation_reason q eid = ''source invalidation '' @ iq_event_type q @ '' ('' @ eid @ '')''"

text \<open>The plans of all namespaces: \<open>b\<close>, \<open>i\<close>, \<open>k\<close> count the receipts, status events and outbox events so far.\<close>

fun plan_invalidation ::
  "service \<Rightarrow> env \<Rightarrow> memory_principal \<Rightarrow> string \<Rightarrow> evidence_ref list \<Rightarrow> nat \<Rightarrow> nat \<Rightarrow> nat \<Rightarrow> (string \<times> uuid list) list
     \<Rightarrow> (lifecycle_receipt list \<times> memory_status_event list \<times> outbox_event list) store_op" where
  "plan_invalidation svc en p reason evidence b i k [] = ret ([], [], [])"
| "plan_invalidation svc en p reason evidence b i k ((ns, rids) # rest) =
     andThen (plan_lifecycle_transition svc en p ns rids ARCHIVED reason None evidence (env_uuid en (U_batch b)) i k)
       (\<lambda>(receipt, events, intents).
     andThen (plan_invalidation svc en p reason evidence (b + 1) (i + length events) (k + length intents) rest)
       (\<lambda>(receipts, more_events, more_intents).
       ret (receipt # receipts, events @ more_events, intents @ more_intents)))"

definition invalidation_requirements ::
  "env \<Rightarrow> memory_principal \<Rightarrow> string \<Rightarrow> string \<Rightarrow> (string \<times> uuid list) list \<Rightarrow> revalidation_requirement list" where
  "invalidation_requirements en p eid reason groups =
     map (\<lambda>(n, (ns, rid)).
       \<lparr>rq_requirement_id = env_uuid en (U_requirement n), rq_tenant_id = mp_tenant_id p, rq_namespace = ns,
        rq_record_id = rid, rq_invalidation_event_id = eid, rq_reason = reason, rq_created_at = env_now en\<rparr>)
       (enumerate 0 (concat (map (\<lambda>(ns, rids). map (Pair ns) rids) groups)))"

text \<open>\<open>except (AuthorizationError, AdmissionError, StoreError)\<close>.\<close>

fun is_refusal :: "error \<Rightarrow> bool" where
  "is_refusal (AuthorizationError _) = True"
| "is_refusal (AdmissionError _) = True"
| "is_refusal e = is_store_error e"

definition invalidation_event_of ::
  "service \<Rightarrow> env \<Rightarrow> memory_principal \<Rightarrow> invalidation_request \<Rightarrow> string \<Rightarrow> (string \<times> uuid list) list \<Rightarrow> nat
     \<Rightarrow> lifecycle_receipt list \<Rightarrow> memory_status_event list \<Rightarrow> revalidation_requirement list \<Rightarrow> invalidation_event" where
  "invalidation_event_of svc en p q eid groups matched receipts events requirements =
     \<lparr>ie_event_id = eid, ie_tenant_id = mp_tenant_id p,
      ie_request_digest = request_digest (sv_dumps svc) (sv_hash svc) q,
      ie_compatibility_form = compatibility_form q, ie_event_type = iq_event_type q, ie_repository = iq_repository q,
      ie_from_sha = iq_from_sha q, ie_to_sha = iq_to_sha q, ie_selectors = normalized_selectors q,
      ie_namespaces = map fst groups, ie_matched = matched, ie_transitioned = length events,
      ie_record_ids = map se_record_id events, ie_lifecycle_receipt_ids = map lr_receipt_id receipts,
      ie_revalidation_requirement_ids = map rq_requirement_id requirements, ie_actor = audit_subject p,
      ie_created_at = env_now en\<rparr>"

definition apply_invalidation ::
  "service \<Rightarrow> env \<Rightarrow> memory_principal \<Rightarrow> invalidation_request \<Rightarrow> string \<Rightarrow> (string \<times> uuid list) list
     \<Rightarrow> lifecycle_receipt list \<times> memory_status_event list \<times> outbox_event list \<Rightarrow> invalidation_receipt store_op" where
  "apply_invalidation svc en p q eid groups plan =
     (let (receipts, status_events, outbox_events) = plan;
          matched = sum_list (map (\<lambda>g. length (snd g)) groups);
          requirements = invalidation_requirements en p eid (invalidation_reason q eid) groups;
          event = invalidation_event_of svc en p q eid groups matched receipts status_events requirements in
      try_catch
        (andThen (commit_source_invalidation SERVICE_WRITE_CAPABILITY event receipts status_events outbox_events requirements)
           (\<lambda>_. ret (applied_invalidation event)))
        (\<lambda>e. case e of
           IdempotencyConflict m \<Rightarrow>
             andThen (gets (get_source_invalidation (mp_tenant_id p) eid)) (\<lambda>found.
               case found of
                 None \<Rightarrow> throw e
               | Some winner \<Rightarrow>
                   ret (replayed_invalidation p q winner (request_digest (sv_dumps svc) (sv_hash svc) q)))
         | _ \<Rightarrow>
             if is_store_error e
             then ret (rejected_invalidation q eid matched (''source invalidation not applied: '' @ error_text e))
             else throw e))"

definition invalidate_by_source ::
  "service \<Rightarrow> env \<Rightarrow> memory_principal \<Rightarrow> invalidation_request \<Rightarrow> invalidation_receipt store_op" where
  "invalidate_by_source svc en p q =
     (let eid = operation_id (sv_dumps svc) (sv_hash svc) q;
          dg = request_digest (sv_dumps svc) (sv_hash svc) q;
          reason = invalidation_reason q eid in
      andThen (gets (get_source_invalidation (mp_tenant_id p) eid)) (\<lambda>existing.
        case existing of
          Some e \<Rightarrow> ret (replayed_invalidation p q e dg)
        | None \<Rightarrow>
            andThen (gets (\<lambda>s. sorted_groups (group_by_namespace p (invalidation_matches p q s) s))) (\<lambda>groups.
            let matched = sum_list (map (\<lambda>g. length (snd g)) groups) in
            if \<not> may_invalidate p (map fst groups)
            then ret (rejected_invalidation q eid matched ''not authorized to invalidate records'')
            else
              andThen (try_catch
                (andThen (plan_invalidation svc en p reason [invalidation_evidence en q eid] 0 0 0 groups) (\<lambda>x. ret (Inr x)))
                (\<lambda>e. if is_refusal e then ret (Inl e) else throw e)) (\<lambda>plan.
              case plan of
                Inl e \<Rightarrow> ret (rejected_invalidation q eid matched (''source invalidation not applied: '' @ error_text e))
              | Inr x \<Rightarrow> apply_invalidation svc en p q eid groups x))))"

section \<open>What a planned transition contains\<close>

text \<open>The authority a single transition takes, the review taken into account.\<close>

definition clean_release :: "review_verdict option \<Rightarrow> uuid \<Rightarrow> bool" where
  "clean_release review rid \<longleftrightarrow>
     (\<exists>v. review = Some v \<and> rv_record_id v = rid \<and> rv_verdict v = V_RELEASE \<and> rv_blockers v = [])"

definition authorized_transition ::
  "memory_principal \<Rightarrow> string \<Rightarrow> memory_state \<Rightarrow> review_verdict option \<Rightarrow> uuid \<Rightarrow> store \<Rightarrow> bool" where
  "authorized_transition p ns new_state review rid s \<longleftrightarrow>
     (\<exists>r action. get_record rid s = Some r \<and> mr_tenant_id r = mp_tenant_id p \<and> mr_namespace r = ns
        \<and> lifecycle_action (mr_state r) new_state = Some action
        \<and> (may p action ns
           \<or> mr_state r = QUARANTINED \<and> clean_release review rid \<and> may p A_MAINTAIN ns))"

definition item_ok ::
  "env \<Rightarrow> memory_principal \<Rightarrow> string \<Rightarrow> memory_state \<Rightarrow> review_verdict option \<Rightarrow> store \<Rightarrow> uuid \<Rightarrow> lifecycle_item \<Rightarrow> bool" where
  "item_ok en p ns new_state review s rid x \<longleftrightarrow>
     (\<exists>r action. get_record rid s = Some r \<and> mr_tenant_id r = mp_tenant_id p \<and> mr_namespace r = ns
        \<and> lifecycle_action (mr_state r) new_state = Some action
        \<and> (li_action x = action \<or> li_action x = A_MAINTAIN \<and> mr_state r = QUARANTINED \<and> clean_release review rid)
        \<and> lt_record_id (li_transition x) = rid
        \<and> se_record_id (li_event x) = rid \<and> se_new_state (li_event x) = new_state
        \<and> se_previous_state (li_event x) = Some (mr_state r) \<and> se_occurred_at (li_event x) = env_now en)"

lemma required_action_Inr:
  "required_action r rid action review = Inr (needed, ev) \<Longrightarrow>
     needed = action \<or> needed = A_MAINTAIN \<and> mr_state r = QUARANTINED \<and> clean_release review rid"
  by (auto simp: required_action_def clean_release_def requires_human_def split: option.splits if_splits)

lemma plan_item_Inr:
  assumes "plan_item en p ns new_state reason review x s = (Inr i, t)"
  shows "t = s \<and> item_ok en p ns new_state review s (snd x) i"
proof (cases "get_record (snd x) s")
  case None
  with assms show ?thesis by (simp add: plan_item_def andThen_Inr)
next
  case r: (Some r)
  show ?thesis
  proof (cases "lifecycle_action (mr_state r) new_state")
    case None
    with assms r show ?thesis by (auto simp: plan_item_def andThen_Inr)
  next
    case (Some action)
    from assms r Some obtain needed ev where
      q: "Inr (needed, ev) = required_action r (snd x) action review" and "t = s" "li_action i = needed"
      "mr_tenant_id r = mp_tenant_id p" "mr_namespace r = ns" "lt_record_id (li_transition i) = snd x"
      "se_record_id (li_event i) = snd x" "se_new_state (li_event i) = new_state"
      "se_previous_state (li_event i) = Some (mr_state r)" "se_occurred_at (li_event i) = env_now en"
      by (auto simp: plan_item_def andThen_Inr make_status_event_Inr)
    with required_action_Inr [OF q [symmetric]] r Some show ?thesis
      by (auto simp: item_ok_def)
  qed
qed

lemma plan_items_Inr:
  "map_each (plan_item en p ns new_state reason review) (enumerate k rids) s = (Inr items, t) \<Longrightarrow>
     t = s \<and> list_all2 (item_ok en p ns new_state review s) rids items"
proof (induction rids arbitrary: k items t)
  case Nil
  then show ?case by simp
next
  case (Cons x xs)
  from Cons.prems obtain i u items' where i: "plan_item en p ns new_state reason review (k, x) s = (Inr i, u)"
    and r: "map_each (plan_item en p ns new_state reason review) (enumerate (Suc k) xs) u = (Inr items', t)"
      "items = i # items'"
    by (auto simp: andThen_Inr)
  have u: "u = s" using plan_item_Inr [OF i] by simp
  from Cons.IH [OF r(1) [unfolded u]] plan_item_Inr [OF i] r(2) show ?case by simp
qed

lemma authorize_each_Inr:
  "authorize_each en p ns a xs s = (Inr b, t) \<Longrightarrow> t = s \<and> (\<forall>x \<in> set xs. may p x ns)"
  by (induction xs arbitrary: a) (auto simp: andThen_Inr split: if_splits)

lemma items_targets:
  "list_all2 (item_ok en p ns new_state review s) rids items \<Longrightarrow>
     map (\<lambda>x. lt_record_id (li_transition x)) items = rids \<and> map (\<lambda>x. se_record_id (li_event x)) items = rids"
  by (induction rule: list_all2_induct) (auto simp: item_ok_def)

text \<open>The effect of one transition on the record it names.\<close>

definition moved :: "memory_state \<Rightarrow> instant \<Rightarrow> memory_record \<Rightarrow> memory_record" where
  "moved new_state now r =
     r\<lparr>mr_state := new_state,
       mr_temporal := (if new_state = SUPERSEDED then (mr_temporal r)\<lparr>superseded_at := Some now\<rparr> else mr_temporal r)\<rparr>"

definition event_moves :: "instant \<Rightarrow> memory_state \<Rightarrow> store \<Rightarrow> memory_status_event \<Rightarrow> bool" where
  "event_moves now new_state s e \<longleftrightarrow>
     se_new_state e = new_state \<and> se_occurred_at e = now
     \<and> (\<exists>r. get_record (se_record_id e) s = Some r \<and> se_previous_state e = Some (mr_state r))"

lemma event_moves_transitioned:
  "event_moves now new_state s e \<Longrightarrow> transitioned e = moved new_state now"
  by (rule ext) (simp add: event_moves_def transitioned_def moved_def)

lemma event_moves_ok: "event_moves now new_state s e \<Longrightarrow> transition_ok s e"
  by (auto simp: event_moves_def transition_ok_def)

lemma plan_lifecycle_Inr:
  assumes "plan_lifecycle_transition svc en p ns rids new_state reason review evidence rcid i k s = (Inr (rc, ses, evs), t)"
  shows "t = s \<and> rids \<noteq> [] \<and> may p A_READ ns
    \<and> (\<forall>rid \<in> set rids. authorized_transition p ns new_state review rid s)
    \<and> map se_record_id ses = dedup rids \<and> (\<forall>e \<in> set ses. event_moves (env_now en) new_state s e)
    \<and> map lt_record_id (lr_transitions rc) = dedup rids \<and> lr_receipt_id rc = rcid
    \<and> evs = extend_events (lifecycle_events svc en ns new_state reason s) k (dedup rids)"
proof -
  from assms obtain items u a b v where
    ne: "rids \<noteq> []" and items: "map_each (plan_item en p ns new_state reason review) (enumerate i (dedup rids)) s = (Inr items, u)"
    and read: "may p A_READ ns"
    and auth: "authorize_each en p ns a (sort (remdups (map li_action items))) u = (Inr b, v)"
    and res: "t = v" "evs = extend_events (lifecycle_events svc en ns new_state reason v) k
        (map (\<lambda>x. lt_record_id (li_transition x)) items)"
      "ses = map (\<lambda>x. (li_event x)\<lparr>se_receipt_id := Some rcid\<rparr>) items"
      "lr_transitions rc = map li_transition items" "lr_receipt_id rc = rcid"
    unfolding plan_lifecycle_transition_def
    by (auto simp: andThen_Inr make_lifecycle_receipt_def split: if_splits)
  have u: "u = s" using plan_items_Inr [OF items] by simp
  have v: "v = s" using authorize_each_Inr [OF auth] u by simp
  have ok: "list_all2 (item_ok en p ns new_state review s) (dedup rids) items"
    using plan_items_Inr [OF items] by simp
  have may: "may p (li_action x) ns" if "x \<in> set items" for x
    using authorize_each_Inr [OF auth] that by simp
  have "authorized_transition p ns new_state review rid s" if "rid \<in> set rids" for rid
  proof -
    from that ok obtain x where "x \<in> set items" "item_ok en p ns new_state review s rid x"
      by (metis list_all2_conv_all_nth in_set_conv_nth set_dedup)
    with may [of x] show ?thesis
      by (auto simp: item_ok_def authorized_transition_def)
  qed
  moreover have "event_moves (env_now en) new_state s e" if "e \<in> set ses" for e
  proof -
    from that res(3) obtain x where x: "x \<in> set items" "e = (li_event x)\<lparr>se_receipt_id := Some rcid\<rparr>" by auto
    with ok obtain rid where "item_ok en p ns new_state review s rid x"
      by (metis list_all2_conv_all_nth in_set_conv_nth)
    with x(2) show ?thesis by (auto simp: item_ok_def event_moves_def)
  qed
  ultimately show ?thesis
    using ne read res v items_targets [OF ok] by (simp add: o_def)
qed

section \<open>Committing transitions\<close>

lemma moved_records:
  assumes ev: "\<forall>e \<in> set es. event_moves now st s e" and d: "distinct (map se_record_id es)"
    and same: "\<And>rid. get_record rid u = get_record rid s"
  shows "get_record rid (after_transitions es u) =
    (if rid \<in> set (map se_record_id es) then map_option (moved st now) (get_record rid s) else get_record rid s)"
proof -
  have ok: "\<forall>e \<in> set es. transition_ok u e"
    using ev event_moves_ok transition_ok_cong [OF same] by blast
  show ?thesis
  proof (cases "find (\<lambda>e. se_record_id e = rid) es")
    case None
    then have "rid \<notin> set (map se_record_id es)" by (auto simp: find_None_iff)
    with None show ?thesis by (simp add: get_record_after_transitions [OF ok d] same)
  next
    case (Some e)
    then have e: "e \<in> set es" "se_record_id e = rid" by (auto simp: find_Some_iff)
    then have m: "rid \<in> set (map se_record_id es)" by force
    have "transitioned e = moved st now" using ev e event_moves_transitioned by blast
    then have "get_record rid (after_transitions es u) = map_option (moved st now) (get_record rid s)"
      using Some by (simp add: get_record_after_transitions [OF ok d] same)
    with m show ?thesis by (simp only: if_True)
  qed
qed

text \<open>A batch over distinct records commits as a whole or leaves the store as it was.\<close>

abbreviation lifecycle_committed ::
  "lifecycle_receipt \<Rightarrow> memory_status_event list \<Rightarrow> outbox_event list \<Rightarrow> store \<Rightarrow> store" where
  "lifecycle_committed rc es os s \<equiv>
     (after_transitions es (s\<lparr>st_lifecycle_receipts := dict_set (lr_receipt_id rc) rc (st_lifecycle_receipts s)\<rparr>))
       \<lparr>st_outbox := dict_set_all ob_event_id os (st_outbox s)\<rparr>"

lemma commit_lifecycle_ok:
  assumes ids: "set (map se_record_id es) = set (map lt_record_id (lr_transitions rc))"
    and ok: "\<forall>e \<in> set es. transition_ok s e" and d: "distinct (map se_record_id es)"
  shows "commit_lifecycle SERVICE_WRITE_CAPABILITY rc es os s = (Inr (), lifecycle_committed rc es os s)"
proof -
  let ?u = "s\<lparr>st_lifecycle_receipts := dict_set (lr_receipt_id rc) rc (st_lifecycle_receipts s)\<rparr>"
  have g: "get_record rid ?u = get_record rid s" for rid by (simp add: get_record_def)
  have c: "check_transitions es s = (Inr (), s)" using ok by simp
  have ok': "\<forall>e \<in> set es. transition_ok ?u e" using ok transition_ok_cong g by blast
  have "st_outbox (after_transitions es ?u) = st_outbox s" by (subst after_transitions_frame) simp
  then show ?thesis
    using ids apply_transitions_ok [OF ok' d]
    by (simp add: commit_lifecycle_def require_service_write_capability_def check_def andThen_def ret_def
        modify_def put_outbox_events_def c [unfolded ret_def])
qed

lemma commit_lifecycle_cases:
  assumes "commit_lifecycle cap rc es os s = (r, t)" and d: "distinct (map se_record_id es)"
  shows "(\<exists>e. r = Inl e \<and> is_store_error e \<or> r = Inl e \<and> cap \<noteq> SERVICE_WRITE_CAPABILITY) \<and> t = s
    \<or> r = Inr () \<and> t = lifecycle_committed rc es os s"
proof (cases "cap = SERVICE_WRITE_CAPABILITY \<and> set (map se_record_id es) = set (map lt_record_id (lr_transitions rc))
    \<and> (\<forall>e \<in> set es. transition_ok s e)")
  case True
  then show ?thesis using commit_lifecycle_ok [OF _ _ d, of rc s os] assms(1) by simp
next
  case False
  obtain x v where c: "check_transitions es s = (x, v)" by fastforce
  then have v: "v = s" using reads_onlyD [OF reads_only_check_transitions] by metis
  from assms(1) False c v show ?thesis
    by (cases x)
      (auto simp: commit_lifecycle_def require_service_write_capability_def check_def andThen_def ret_def throw_def
        split: if_splits dest: check_transitions_Inl)
qed

lemma reads_only_plan_item [simp]: "reads_only (plan_item en p ns new_state reason review x)"
  unfolding plan_item_def
  by (intro reads_only_andThen) (auto split: option.splits prod.splits intro!: reads_only_andThen)

lemma reads_only_authorize_each [simp]: "reads_only (authorize_each en p ns a xs)"
  by (induction xs arbitrary: a) (auto intro!: reads_only_andThen)

lemma reads_only_plan_lifecycle [simp]:
  "reads_only (plan_lifecycle_transition svc en p ns rids new_state reason review evidence rcid i k)"
  unfolding plan_lifecycle_transition_def
  by (intro reads_only_andThen reads_only_map_each reads_only_plan_item reads_only_authorize_each
      reads_only_authorize reads_only_check reads_only_gets reads_only_from_sum reads_only_ret)

lemma transition_lifecycle_cases:
  assumes "transition_lifecycle svc en p ns rids new_state reason review evidence s = (res, t)"
  obtains
    (refused) e where "res = Inl e" "t = s"
  | (moved) rc ses evs where "res = Inr rc"
      "plan_lifecycle_transition svc en p ns rids new_state reason review evidence (env_uuid en U_receipt) 0 0 s
         = (Inr (rc, ses, evs), s)"
      "t = (after_transitions ses (s\<lparr>st_lifecycle_receipts := dict_set (lr_receipt_id rc) rc (st_lifecycle_receipts s)\<rparr>))
         \<lparr>st_outbox := dict_set_all ob_event_id evs (st_outbox s)\<rparr>"
proof -
  obtain x u where pl: "plan_lifecycle_transition svc en p ns rids new_state reason review evidence (env_uuid en U_receipt) 0 0 s
      = (x, u)" by fastforce
  then have u: "u = s" using reads_only_plan_lifecycle reads_onlyD by metis
  show thesis
  proof (cases x)
    case (Inl e)
    with assms pl u have "res = Inl e" "t = s" by (simp_all add: transition_lifecycle_def andThen_def)
    then show thesis by (rule refused)
  next
    case (Inr y)
    obtain rc ses evs where y: "y = (rc, ses, evs)" by (cases y)
    have pl': "plan_lifecycle_transition svc en p ns rids new_state reason review evidence (env_uuid en U_receipt) 0 0 s
         = (Inr (rc, ses, evs), s)" using pl u Inr y by simp
    have d: "distinct (map se_record_id ses)" using plan_lifecycle_Inr [OF pl'] by simp
    obtain z v where c: "commit_lifecycle SERVICE_WRITE_CAPABILITY rc ses evs s = (z, v)" by fastforce
    from commit_lifecycle_cases [OF c d] show thesis
    proof
      assume "(\<exists>e. z = Inl e \<and> is_store_error e \<or> z = Inl e \<and> SERVICE_WRITE_CAPABILITY \<noteq> SERVICE_WRITE_CAPABILITY) \<and> v = s"
      then obtain e where "z = Inl e" "v = s" by blast
      with assms pl' c have "res = Inl e" "t = s" by (simp_all add: transition_lifecycle_def andThen_def)
      then show thesis by (rule refused)
    next
      assume a: "z = Inr () \<and> v = (after_transitions ses (s\<lparr>st_lifecycle_receipts := dict_set (lr_receipt_id rc) rc (st_lifecycle_receipts s)\<rparr>))
         \<lparr>st_outbox := dict_set_all ob_event_id evs (st_outbox s)\<rparr>"
      with assms pl' c have "res = Inr rc" "t = v" by (simp_all add: transition_lifecycle_def andThen_def ret_def)
      with a pl' show thesis by (intro moved) simp_all
    qed
  qed
qed

text \<open>
  Property C15: lifecycle changes are governed. If \<open>transition_lifecycle\<close> raises, the store is
  as it was. If it returns, then every named record existed in the caller's tenant and the
  namespace, its move is one the table lists, and the caller held the authority the table
  demands (ADMIN to make anything current again), except that a quarantined record may be
  released under MAINTAIN when a review of that very record says RELEASE without a blocker;
  exactly the named records moved to the new state, and for each of them the work of its
  projections was queued: projection by every delivering target when it became current,
  retirement by every holder of a copy otherwise.
\<close>

theorem lifecycle_governed:
  assumes "transition_lifecycle svc en p ns rids new_state reason review evidence s = (res, t)"
  shows "(\<forall>e. res = Inl e \<longrightarrow> t = s)
    \<and> (\<forall>rc. res = Inr rc \<longrightarrow>
         (\<forall>rid \<in> set rids. \<exists>r action. get_record rid s = Some r
            \<and> mr_tenant_id r = mp_tenant_id p \<and> mr_namespace r = ns
            \<and> lifecycle_action (mr_state r) new_state = Some action
            \<and> (may p action ns \<or> mr_state r = QUARANTINED \<and> clean_release review rid \<and> may p A_MAINTAIN ns)
            \<and> get_record rid t = Some (moved new_state (env_now en) r))
         \<and> (\<forall>rid. rid \<notin> set rids \<longrightarrow> get_record rid t = get_record rid s)
         \<and> (\<exists>evs. st_outbox t = dict_set_all ob_event_id evs (st_outbox s)
              \<and> map intent evs = concat (map (\<lambda>rid.
                   if new_state = ACTIVE
                   then map (\<lambda>t. (''memory.record.project'', rid, Some t)) (delivery_identities svc)
                   else map (\<lambda>t. (''memory.record.retire'', rid, Some t)) (copy_holders svc rid s)) (dedup rids))))"
  using assms
proof (cases rule: transition_lifecycle_cases)
  case (refused e)
  then show ?thesis by simp
next
  case (moved rc ses evs)
  note plan = plan_lifecycle_Inr [OF moved(2)]
  let ?u = "s\<lparr>st_lifecycle_receipts := dict_set (lr_receipt_id rc) rc (st_lifecycle_receipts s)\<rparr>"
  have g: "get_record rid ?u = get_record rid s" for rid by (simp add: get_record_def)
  have ids: "set (map se_record_id ses) = set rids" "distinct (map se_record_id ses)" using plan by simp_all
  have ev: "\<forall>e \<in> set ses. event_moves (env_now en) new_state s e" using plan by blast
  have rec: "get_record rid t =
      (if rid \<in> set rids then map_option (ServiceLifecycle.moved new_state (env_now en)) (get_record rid s) else get_record rid s)" for rid
  proof -
    have "get_record rid t = get_record rid (after_transitions ses ?u)"
      unfolding moved(3) by (simp add: get_record_def)
    also note moved_records [OF ev ids(2) g]
    finally show ?thesis using ids(1) by simp
  qed
  have out: "st_outbox t = dict_set_all ob_event_id evs (st_outbox s)" unfolding moved(3) by simp
  have intents: "map intent evs = concat (map (\<lambda>rid.
                   if new_state = ACTIVE
                   then map (\<lambda>t. (''memory.record.project'', rid, Some t)) (delivery_identities svc)
                   else map (\<lambda>t. (''memory.record.retire'', rid, Some t)) (copy_holders svc rid s)) (dedup rids))"
    using plan by (simp add: extend_events_intents lifecycle_events_def)
  have "\<exists>r action. get_record rid s = Some r
            \<and> mr_tenant_id r = mp_tenant_id p \<and> mr_namespace r = ns
            \<and> lifecycle_action (mr_state r) new_state = Some action
            \<and> (may p action ns \<or> mr_state r = QUARANTINED \<and> clean_release review rid \<and> may p A_MAINTAIN ns)
            \<and> get_record rid t = Some (ServiceLifecycle.moved new_state (env_now en) r)" if "rid \<in> set rids" for rid
    using plan that rec [of rid] by (auto simp: authorized_transition_def)
  with rec out intents moved(1) show ?thesis by auto
qed

section \<open>A concrete transition\<close>

abbreviation smp_archival :: memory_status_event where
  "smp_archival \<equiv>
     \<lparr>se_event_id = 100, se_record_id = 7, se_previous_state = Some ACTIVE, se_new_state = ARCHIVED,
      se_reason = ''old'', se_actor = ''t:p'', se_occurred_at = 100, se_receipt_id = None\<rparr>"

lemma smp_maintainer_sel [simp]: "audit_subject smp_maintainer = ''t:p''" "mp_tenant_id smp_maintainer = ''t''"
  by (simp_all add: audit_subject_def smp_principal_def)

lemma smp_may_maintainer: "may smp_maintainer A_READ ''ns''"
  by (simp add: may_def patterns_for_def smp_principal_def fnmatch_literal)

definition smp_item :: lifecycle_item where
  "smp_item = \<lparr>li_transition = \<lparr>lt_record_id = 7, lt_previous_state = ACTIVE, lt_new_state = ARCHIVED\<rparr>,
     li_event = smp_archival, li_action = A_MAINTAIN, li_evidence = []\<rparr>"

lemma smp_plan_item:
  "plan_item smp_env smp_maintainer ''ns'' ARCHIVED ''old'' None (0, 7) smp_store7 = (Inr smp_item, smp_store7)"
  by (simp add: plan_item_def andThen_def gets_def ret_def check_def required_action_def from_sum_def
      make_status_event_def len_ok_def smp_item_def)

lemma smp_transition:
  "\<exists>rc t. transition_lifecycle smp_service smp_env smp_maintainer ''ns'' [7] ARCHIVED ''old'' None [] smp_store7 = (Inr rc, t)"
proof -
  obtain rc evs where pl: "plan_lifecycle_transition smp_service smp_env smp_maintainer ''ns'' [7] ARCHIVED ''old'' None []
      (env_uuid smp_env U_receipt) 0 0 smp_store7 = (Inr (rc, [smp_archival\<lparr>se_receipt_id := Some 11\<rparr>], evs), smp_store7)"
    and tr: "map lt_record_id (lr_transitions rc) = [7]"
    by (simp add: plan_lifecycle_transition_def andThen_def check_def ret_def gets_def dedup_id smp_plan_item
        authorize_granted [OF smp_may_maintainer] authorize_granted [OF smp_may_maintain] smp_item_def from_sum_def
        make_lifecycle_receipt_def len_ok_def)
  have ok: "transition_ok smp_store7 (smp_archival\<lparr>se_receipt_id := Some 11\<rparr>)"
    by (simp add: transition_ok_def)
  have "commit_lifecycle SERVICE_WRITE_CAPABILITY rc [smp_archival\<lparr>se_receipt_id := Some 11\<rparr>] evs smp_store7
      = (Inr (), lifecycle_committed rc [smp_archival\<lparr>se_receipt_id := Some 11\<rparr>] evs smp_store7)"
    using tr ok by (intro commit_lifecycle_ok) (simp_all flip: set_map)
  with pl show ?thesis by (simp add: transition_lifecycle_def andThen_def ret_def)
qed

theorem lifecycle_governed_witness:
  "\<exists>rc t. transition_lifecycle smp_service smp_env smp_maintainer ''ns'' [7] ARCHIVED ''old'' None [] smp_store7 = (Inr rc, t)
     \<and> map_option mr_state (get_record 7 t) = Some ARCHIVED"
proof -
  obtain rc t where r: "transition_lifecycle smp_service smp_env smp_maintainer ''ns'' [7] ARCHIVED ''old'' None [] smp_store7
      = (Inr rc, t)" using smp_transition by blast
  from lifecycle_governed [OF r] r show ?thesis by (auto simp: moved_def)
qed

end
