(* ===== verification/InvalidationLaws.thy ===== *)
theory InvalidationLaws
  imports ServiceLifecycle
begin

text \<open>
  What \<open>invalidate_by_source\<close> guarantees: it archives exactly the current records whose
  persisted selectors the request names, all of them or none, and answers a replay from the
  ledger.
\<close>

section \<open>The records a request names\<close>

text \<open>
  The specification of the match: a current record of the caller's tenant with an active
  selector equal to one of the request's, in its repository when it names one.
\<close>

definition names_source :: "memory_principal \<Rightarrow> invalidation_request \<Rightarrow> store \<Rightarrow> uuid \<Rightarrow> bool" where
  "names_source p q s rid \<longleftrightarrow>
     (\<exists>r. get_record rid s = Some r \<and> mr_tenant_id r = mp_tenant_id p \<and> mr_state r = ACTIVE)
     \<and> (\<exists>x \<in> set (dict_values (st_source_selectors s)). ss_active x \<and> ss_record_id x = rid
          \<and> (iq_repository q = None \<or> iq_repository q = Some (ss_repository x))
          \<and> (\<exists>y \<in> set (normalized_selectors q). ss_selector_type x = is_selector_type y
               \<and> ss_selector_value x = is_selector_value y))"

lemma set_source_matches:
  "rid \<in> set (find_source_selector_matches tenant repo ty v s) \<longleftrightarrow>
     (\<exists>r. get_record rid s = Some r \<and> mr_tenant_id r = tenant \<and> mr_state r = ACTIVE)
     \<and> (\<exists>x \<in> set (dict_values (st_source_selectors s)). ss_active x \<and> ss_record_id x = rid
          \<and> (repo = None \<or> repo = Some (ss_repository x)) \<and> ss_selector_type x = ty \<and> ss_selector_value x = v)"
proof -
  let ?X = "set (dict_values (st_source_selectors s))"
  have "rid \<in> set (find_source_selector_matches tenant repo ty v s) \<longleftrightarrow> (\<exists>x \<in> ?X. ss_active x \<and> ss_record_id x = rid
      \<and> (case repo of None \<Rightarrow> True | Some w \<Rightarrow> ss_repository x = w) \<and> ss_selector_type x = ty \<and> ss_selector_value x = v
      \<and> (case get_record (ss_record_id x) s of None \<Rightarrow> False | Some r \<Rightarrow> mr_tenant_id r = tenant \<and> mr_state r = ACTIVE))"
    unfolding find_source_selector_matches_def get_record_def Let_def set_sort set_dedup set_map set_filter by blast
  also have "\<dots> \<longleftrightarrow> (\<exists>r. get_record rid s = Some r \<and> mr_tenant_id r = tenant \<and> mr_state r = ACTIVE)
     \<and> (\<exists>x \<in> ?X. ss_active x \<and> ss_record_id x = rid
          \<and> (repo = None \<or> repo = Some (ss_repository x)) \<and> ss_selector_type x = ty \<and> ss_selector_value x = v)"
    by (cases repo; cases "get_record rid s"; auto)
  finally show ?thesis .
qed

lemma set_invalidation_matches: "rid \<in> set (invalidation_matches p q s) \<longleftrightarrow> names_source p q s rid"
proof -
  have "rid \<in> set (invalidation_matches p q s) \<longleftrightarrow> (\<exists>y \<in> set (normalized_selectors q).
      rid \<in> set (find_source_selector_matches (mp_tenant_id p) (iq_repository q) (is_selector_type y) (is_selector_value y) s))"
    by (simp add: invalidation_matches_def)
  then show ?thesis unfolding set_source_matches names_source_def by blast
qed

lemma distinct_invalidation_matches: "distinct (invalidation_matches p q s)"
  by (simp add: invalidation_matches_def)

section \<open>The groups\<close>

definition in_group :: "memory_principal \<Rightarrow> store \<Rightarrow> string \<Rightarrow> uuid \<Rightarrow> bool" where
  "in_group p s ns rid \<longleftrightarrow> (\<exists>r. get_record rid s = Some r \<and> mr_tenant_id r = mp_tenant_id p \<and> mr_namespace r = ns)"

lemma in_group_unique: "in_group p s ns rid \<Longrightarrow> in_group p s ns' rid \<Longrightarrow> ns = ns'"
  by (auto simp: in_group_def)

lemma group_by_namespace_get:
  "dict_ok (group_by_namespace p rids s)
   \<and> dict_get (group_by_namespace p rids s) ns =
       (let ids = filter (in_group p s ns) rids in if ids = [] then None else Some ids)"
proof (induction rids arbitrary: ns rule: rev_induct)
  case Nil
  then show ?case by (simp add: group_by_namespace_def)
next
  case (snoc rid rids)
  have f: "group_by_namespace p (rids @ [rid]) s = group_record p s rid (group_by_namespace p rids s)"
    by (simp add: group_by_namespace_def)
  show ?case
    using snoc [of ns] snoc [of "mr_namespace (the (get_record rid s))"] unfolding f
    by (cases "get_record rid s") (auto simp: group_record_def in_group_def Let_def)
qed

lemma set_sorted_groups: "set (sorted_groups d) = set d"
  by (simp add: sorted_groups_def)

lemma sorted_groups_mem:
  "(ns, ids) \<in> set (sorted_groups (group_by_namespace p rids s)) \<longleftrightarrow>
     ids \<noteq> [] \<and> ids = filter (in_group p s ns) rids"
proof -
  have "(ns, ids) \<in> set (group_by_namespace p rids s) \<longleftrightarrow> dict_get (group_by_namespace p rids s) ns = Some ids"
    using group_by_namespace_get dict_get_iff_mem by metis
  then show ?thesis
    using group_by_namespace_get [of p rids s ns] by (auto simp: set_sorted_groups Let_def split: if_splits)
qed

lemma distinct_concat_groups:
  "distinct (map fst gs) \<Longrightarrow> (\<And>ns ids. (ns, ids) \<in> set gs \<Longrightarrow> distinct ids \<and> (\<forall>rid \<in> set ids. in_group p s ns rid)) \<Longrightarrow>
     distinct (concat (map snd gs))"
proof (induction gs)
  case Nil
  then show ?case by simp
next
  case (Cons g gs)
  obtain ns ids where g: "g = (ns, ids)" by (cases g)
  have "set ids \<inter> set (concat (map snd gs)) = {}"
  proof (rule ccontr)
    assume "set ids \<inter> set (concat (map snd gs)) \<noteq> {}"
    then obtain rid ns' ids' where a: "rid \<in> set ids" "(ns', ids') \<in> set gs" "rid \<in> set ids'" by auto
    then have "ns = ns'" using Cons.prems(2) [of ns ids] Cons.prems(2) [of ns' ids'] g in_group_unique by fastforce
    with a(2) Cons.prems(1) g show False by force
  qed
  moreover have "distinct (concat (map snd gs))" using Cons.prems by (intro Cons.IH) (auto simp: g)
  moreover have "distinct ids" using Cons.prems(2) [of ns ids] g by simp
  ultimately show ?case by (simp add: g)
qed

definition group_ids :: "(string \<times> uuid list) list \<Rightarrow> uuid list" where
  "group_ids gs = concat (map snd gs)"

lemma sorted_groups_facts:
  fixes p s rids
  defines "gs \<equiv> sorted_groups (group_by_namespace p rids s)"
  assumes "distinct rids" and all: "\<And>rid. rid \<in> set rids \<Longrightarrow> \<exists>ns. in_group p s ns rid"
  shows "distinct (map fst gs)" "distinct (group_ids gs)" "set (group_ids gs) = set rids"
    "(ns, ids) \<in> set gs \<Longrightarrow> ids \<noteq> [] \<and> distinct ids \<and> (\<forall>rid \<in> set ids. in_group p s ns rid)"
proof -
  have m: "(ns, ids) \<in> set gs \<longleftrightarrow> ids \<noteq> [] \<and> ids = filter (in_group p s ns) rids" for ns ids
    unfolding gs_def by (rule sorted_groups_mem)
  have "mset gs = mset (group_by_namespace p rids s)" by (simp add: gs_def sorted_groups_def)
  then have "mset (map fst gs) = mset (map fst (group_by_namespace p rids s))" by simp
  moreover have "distinct (map fst (group_by_namespace p rids s))"
    using group_by_namespace_get [of p rids s] by (simp add: dict_ok_def)
  ultimately show d: "distinct (map fst gs)" by (metis mset_eq_imp_distinct_iff)
  show g: "ids \<noteq> [] \<and> distinct ids \<and> (\<forall>rid \<in> set ids. in_group p s ns rid)" if "(ns, ids) \<in> set gs" for ns ids
    using that assms(2) by (auto simp: m)
  show "distinct (group_ids gs)"
    unfolding group_ids_def by (rule distinct_concat_groups [OF d]) (use g in blast)
  show "set (group_ids gs) = set rids"
  proof (intro equalityI subsetI)
    fix rid assume "rid \<in> set (group_ids gs)"
    then show "rid \<in> set rids" by (auto simp: group_ids_def m)
  next
    fix rid assume r: "rid \<in> set rids"
    then obtain ns where "in_group p s ns rid" using all by blast
    with r have "(ns, filter (in_group p s ns) rids) \<in> set gs" "rid \<in> set (filter (in_group p s ns) rids)"
      by (auto simp: m filter_empty_conv)
    then show "rid \<in> set (group_ids gs)" by (force simp: group_ids_def)
  qed
qed

lemma group_ids_simps [simp]: "group_ids [] = []" "group_ids ((ns, ids) # gs) = ids @ group_ids gs"
  by (simp_all add: group_ids_def)

lemma receipts_targets_simps [simp]:
  "receipts_targets [] = {}"
  "receipts_targets (rc # rcs) = set (map lt_record_id (lr_transitions rc)) \<union> receipts_targets rcs"
  by (simp_all add: receipts_targets_def)

section \<open>The plans of all groups\<close>

abbreviation retire_intents :: "service \<Rightarrow> store \<Rightarrow> uuid list \<Rightarrow> (string \<times> uuid \<times> string option) list" where
  "retire_intents svc s rids \<equiv>
     concat (map (\<lambda>rid. map (\<lambda>t. (''memory.record.retire'', rid, Some t)) (copy_holders svc rid s)) rids)"

lemma lifecycle_events_archived:
  "map intent (extend_events (lifecycle_events svc en ns ARCHIVED reason s) k rids) = retire_intents svc s rids"
  by (simp add: extend_events_intents lifecycle_events_def)

lemma plan_invalidation_Inr:
  assumes "plan_invalidation svc en p reason ev b i k gs s = (Inr (rcs, ses, evs), t)"
    and "\<forall>g \<in> set gs. distinct (snd g)"
  shows "t = s \<and> map se_record_id ses = group_ids gs
    \<and> (\<forall>e \<in> set ses. event_moves (env_now en) ARCHIVED s e)
    \<and> receipts_targets rcs = set (group_ids gs) \<and> map intent evs = retire_intents svc s (group_ids gs)"
  using assms
proof (induction gs arbitrary: b i k rcs ses evs t)
  case Nil
  then show ?case by simp
next
  case (Cons g gs)
  obtain ns ids where g: "g = (ns, ids)" by (cases g)
  from Cons.prems(1) obtain rc e1 o1 u rcs' e2 o2 where
    p1: "plan_lifecycle_transition svc en p ns ids ARCHIVED reason None ev (env_uuid en (U_batch b)) i k s
      = (Inr (rc, e1, o1), u)"
    and p2: "plan_invalidation svc en p reason ev (b + 1) (i + length e1) (k + length o1) gs u = (Inr (rcs', e2, o2), t)"
    and res: "rcs = rc # rcs'" "ses = e1 @ e2" "evs = o1 @ o2"
    unfolding g by (auto simp: andThen_Inr)
  note f = plan_lifecycle_Inr [OF p1]
  have u: "u = s" using f by simp
  have d: "dedup ids = ids" using Cons.prems(2) g by (intro dedup_id) auto
  have "map intent o1 = retire_intents svc s ids"
    using f d by (simp only: lifecycle_events_archived)
  moreover have "map se_record_id e1 = ids" "map lt_record_id (lr_transitions rc) = ids"
      "\<forall>e \<in> set e1. event_moves (env_now en) ARCHIVED s e"
    using f d by simp_all
  moreover note Cons.IH [OF p2 [unfolded u]]
  ultimately show ?case using Cons.prems(2) unfolding g res group_ids_simps receipts_targets_simps by auto
qed

section \<open>The commit\<close>

definition ledgers_updated :: "invalidation_event \<Rightarrow> lifecycle_receipt list \<Rightarrow> store \<Rightarrow> store" where
  "ledgers_updated event rcs s =
     s\<lparr>st_source_invalidations := dict_set (ie_tenant_id event, ie_event_id event) event (st_source_invalidations s),
       st_lifecycle_receipts := dict_set_all lr_receipt_id rcs (st_lifecycle_receipts s)\<rparr>"

definition invalidation_committed ::
  "invalidation_event \<Rightarrow> lifecycle_receipt list \<Rightarrow> memory_status_event list \<Rightarrow> outbox_event list
     \<Rightarrow> revalidation_requirement list \<Rightarrow> store \<Rightarrow> store" where
  "invalidation_committed event rcs ses os rqs s =
     deactivate_selectors (receipts_targets rcs) (ie_created_at event)
       ((after_transitions ses (ledgers_updated event rcs s))
          \<lparr>st_outbox := dict_set_all ob_event_id os (st_outbox s),
            st_revalidation_requirements := dict_set_all rq_requirement_id rqs (st_revalidation_requirements s)\<rparr>)"

lemma after_transitions_sel [simp]:
  "st_outbox (after_transitions es s) = st_outbox s"
  "st_source_invalidations (after_transitions es s) = st_source_invalidations s"
  "st_source_selectors (after_transitions es s) = st_source_selectors s"
  "st_revalidation_requirements (after_transitions es s) = st_revalidation_requirements s"
  by (subst after_transitions_frame, simp)+

lemma ledgers_updated_sel [simp]:
  "get_record rid (ledgers_updated event rcs s) = get_record rid s"
  "st_outbox (ledgers_updated event rcs s) = st_outbox s"
  "st_source_selectors (ledgers_updated event rcs s) = st_source_selectors s"
  "st_revalidation_requirements (ledgers_updated event rcs s) = st_revalidation_requirements s"
  by (simp_all add: ledgers_updated_def get_record_def)

lemma invalidation_committed_sel [simp]:
  "get_record rid (invalidation_committed event rcs ses os rqs s) = get_record rid (after_transitions ses (ledgers_updated event rcs s))"
  "st_outbox (invalidation_committed event rcs ses os rqs s) = dict_set_all ob_event_id os (st_outbox s)"
  "st_revalidation_requirements (invalidation_committed event rcs ses os rqs s)
     = dict_set_all rq_requirement_id rqs (st_revalidation_requirements s)"
  "st_source_invalidations (invalidation_committed event rcs ses os rqs s)
     = dict_set (ie_tenant_id event, ie_event_id event) event (st_source_invalidations s)"
  by (simp_all add: invalidation_committed_def deactivate_selectors_def get_record_def ledgers_updated_def)

lemma committed_selectors:
  "x \<in> set (dict_values (st_source_selectors (invalidation_committed event rcs ses os rqs s))) \<Longrightarrow>
     ss_record_id x \<in> receipts_targets rcs \<Longrightarrow> \<not> ss_active x"
  by (auto simp: invalidation_committed_def deactivate_selectors_def split: if_splits)

lemma commit_source_invalidation_ok:
  assumes ids: "set (map se_record_id ses) = receipts_targets rcs"
    and new: "dict_get (st_source_invalidations s) (ie_tenant_id event, ie_event_id event) = None"
    and ok: "\<forall>e \<in> set ses. transition_ok s e" and d: "distinct (map se_record_id ses)"
  shows "commit_source_invalidation SERVICE_WRITE_CAPABILITY event rcs ses os rqs s
    = (Inr (), invalidation_committed event rcs ses os rqs s)"
proof -
  have c: "check_transitions ses s = (Inr (), s)" using ok by simp
  have ok': "\<forall>e \<in> set ses. transition_ok (ledgers_updated event rcs s) e"
    using ok transition_ok_cong [OF ledgers_updated_sel(1)] by blast
  show ?thesis
    using ids new apply_transitions_ok [OF ok' d]
    by (simp add: commit_source_invalidation_def require_service_write_capability_def check_def andThen_def ret_def
        gets_def dict_has_def modify_def put_outbox_events_def c [unfolded ret_def] invalidation_committed_def
        ledgers_updated_def [symmetric])
qed

section \<open>The operation\<close>

abbreviation invalidation_id :: "service \<Rightarrow> invalidation_request \<Rightarrow> string" where
  "invalidation_id svc q \<equiv> operation_id (sv_dumps svc) (sv_hash svc) q"

abbreviation invalidation_groups :: "memory_principal \<Rightarrow> invalidation_request \<Rightarrow> store \<Rightarrow> (string \<times> uuid list) list" where
  "invalidation_groups p q s \<equiv> sorted_groups (group_by_namespace p (invalidation_matches p q s) s)"

lemma reads_only_plan_invalidation [simp]: "reads_only (plan_invalidation svc en p reason ev b i k gs)"
  by (induction svc en p reason ev b i k gs rule: plan_invalidation.induct)
    (auto intro!: reads_only_andThen split: prod.splits)

lemma invalidation_groups_facts:
  shows "distinct (group_ids (invalidation_groups p q s))"
    "set (group_ids (invalidation_groups p q s)) = {rid. names_source p q s rid}"
    "(ns, ids) \<in> set (invalidation_groups p q s) \<Longrightarrow> distinct ids \<and> (\<forall>rid \<in> set ids. in_group p s ns rid)"
proof -
  have a: "\<exists>ns. in_group p s ns rid" if "rid \<in> set (invalidation_matches p q s)" for rid
    using that unfolding set_invalidation_matches names_source_def in_group_def by blast
  note f = sorted_groups_facts [OF distinct_invalidation_matches a]
  show "distinct (group_ids (invalidation_groups p q s))" by (rule f(2))
  show "set (group_ids (invalidation_groups p q s)) = {rid. names_source p q s rid}"
    using f(3) set_invalidation_matches by blast
  show "(ns, ids) \<in> set (invalidation_groups p q s) \<Longrightarrow> distinct ids \<and> (\<forall>rid \<in> set ids. in_group p s ns rid)"
    using f(4) by blast
qed

lemma length_invalidation_groups: "length (group_ids (invalidation_groups p q s)) = length (invalidation_matches p q s)"
proof -
  have "set (group_ids (invalidation_groups p q s)) = set (invalidation_matches p q s)"
    unfolding invalidation_groups_facts(2) using set_invalidation_matches by blast
  then show ?thesis
    using invalidation_groups_facts(1) distinct_invalidation_matches by (metis distinct_card)
qed

lemma invalidate_commits:
  fixes svc p q s en
  defines "gs \<equiv> invalidation_groups p q s" and "eid \<equiv> invalidation_id svc q"
  assumes "get_source_invalidation (mp_tenant_id p) eid s = None" and may: "may_invalidate p (map fst gs)"
    and pl: "plan_invalidation svc en p (invalidation_reason q eid) [invalidation_evidence en q eid] 0 0 0 gs s
      = (Inr (rcs, ses, evs), u)"
  shows "let rqs = invalidation_requirements en p eid (invalidation_reason q eid) gs;
             event = invalidation_event_of svc en p q eid gs (length (group_ids gs)) rcs ses rqs
         in invalidate_by_source svc en p q s
           = (Inr (applied_invalidation event), invalidation_committed event rcs ses evs rqs s)"
proof -
  have u: "u = s" using reads_onlyD [OF reads_only_plan_invalidation] pl by metis
  have dd: "\<forall>g \<in> set gs. distinct (snd g)" unfolding gs_def using invalidation_groups_facts(3) by force
  note f = plan_invalidation_Inr [OF pl dd]
  have len: "sum_list (map (\<lambda>g. length (snd g)) gs) = length (group_ids gs)"
    by (simp add: group_ids_def length_concat o_def)
  define rqs where "rqs = invalidation_requirements en p eid (invalidation_reason q eid) gs"
  define event where "event = invalidation_event_of svc en p q eid gs (length (group_ids gs)) rcs ses rqs"
  have "commit_source_invalidation SERVICE_WRITE_CAPABILITY event rcs ses evs rqs s
      = (Inr (), invalidation_committed event rcs ses evs rqs s)"
  proof (rule commit_source_invalidation_ok)
    show "set (map se_record_id ses) = receipts_targets rcs" using f by metis
    show "dict_get (st_source_invalidations s) (ie_tenant_id event, ie_event_id event) = None"
      using assms(3) by (simp add: event_def invalidation_event_of_def get_source_invalidation_def)
    show "\<forall>e \<in> set ses. transition_ok s e" using f event_moves_ok by blast
    show "distinct (map se_record_id ses)" using f invalidation_groups_facts(1) unfolding gs_def by metis
  qed
  then have "invalidate_by_source svc en p q s
      = (Inr (applied_invalidation event), invalidation_committed event rcs ses evs rqs s)"
    using assms(3) may pl u unfolding gs_def eid_def
    by (simp add: invalidate_by_source_def apply_invalidation_def andThen_def gets_def ret_def Let_def
        try_catch_def len [unfolded gs_def] event_def [unfolded gs_def eid_def, symmetric]
        rqs_def [unfolded gs_def eid_def, symmetric])
  then show ?thesis by (simp add: event_def rqs_def Let_def)
qed

text \<open>A first run either changes nothing and reports no application, or commits the whole plan.\<close>

lemma invalidate_cases:
  assumes "invalidate_by_source svc en p q s = (res, t)"
    and "get_source_invalidation (mp_tenant_id p) (invalidation_id svc q) s = None"
  obtains
    (unchanged) "t = s" "\<And>rc. res = Inr rc \<Longrightarrow> ir_status rc \<noteq> I_APPLIED"
  | (applied) rcs ses evs event rqs where
      "may_invalidate p (map fst (invalidation_groups p q s))"
      "map se_record_id ses = group_ids (invalidation_groups p q s)"
      "\<forall>e \<in> set ses. event_moves (env_now en) ARCHIVED s e"
      "receipts_targets rcs = set (group_ids (invalidation_groups p q s))"
      "map intent evs = retire_intents svc s (group_ids (invalidation_groups p q s))"
      "rqs = invalidation_requirements en p (invalidation_id svc q)
         (invalidation_reason q (invalidation_id svc q)) (invalidation_groups p q s)"
      "event = invalidation_event_of svc en p q (invalidation_id svc q) (invalidation_groups p q s)
         (length (group_ids (invalidation_groups p q s))) rcs ses rqs"
      "res = Inr (applied_invalidation event)" "t = invalidation_committed event rcs ses evs rqs s"
proof (cases "may_invalidate p (map fst (invalidation_groups p q s))")
  case False
  with assms show thesis
    by (intro unchanged)
      (auto simp: invalidate_by_source_def andThen_def gets_def ret_def Let_def rejected_invalidation_def)
next
  case may: True
  let ?gs = "invalidation_groups p q s" and ?eid = "invalidation_id svc q"
  let ?plan = "plan_invalidation svc en p (invalidation_reason q ?eid) [invalidation_evidence en q ?eid] 0 0 0 ?gs"
  obtain x u where pl: "?plan s = (x, u)" by fastforce
  have u: "u = s" using reads_onlyD [OF reads_only_plan_invalidation] pl by metis
  show thesis
  proof (cases x)
    case (Inl e)
    with assms may pl u show thesis
      by (intro unchanged)
        (auto simp: invalidate_by_source_def andThen_def gets_def ret_def throw_def Let_def try_catch_def
          rejected_invalidation_def split: if_splits)
  next
    case (Inr y)
    obtain rcs ses evs where y: "y = (rcs, ses, evs)" by (cases y)
    have dd: "\<forall>g \<in> set ?gs. distinct (snd g)" using invalidation_groups_facts(3) by force
    note f = plan_invalidation_Inr [OF pl [unfolded Inr y] dd]
    from invalidate_commits [OF assms(2) may pl [unfolded Inr y]] assms(1) f may u
    show thesis by (intro applied) (auto simp: Let_def)
  qed
qed

lemma requirement_targets:
  "map rq_record_id (invalidation_requirements en p eid reason gs) = group_ids gs"
proof -
  have g: "group_ids gs = map snd (concat (map (\<lambda>(ns, rids). map (Pair ns) rids) gs))"
    by (induction gs) (auto simp: group_ids_def o_def)
  have "map (rq_record_id \<circ> (\<lambda>(n, (ns, rid)).
       \<lparr>rq_requirement_id = env_uuid en (U_requirement n), rq_tenant_id = mp_tenant_id p, rq_namespace = ns,
        rq_record_id = rid, rq_invalidation_event_id = eid, rq_reason = reason, rq_created_at = env_now en\<rparr>)) (enumerate k xs)
      = map snd xs" for k xs
    by (induction xs arbitrary: k) auto
  then show ?thesis by (simp add: invalidation_requirements_def g)
qed

lemma requirement_ids:
  "map rq_requirement_id (invalidation_requirements en p eid reason gs)
     = map (\<lambda>n. env_uuid en (U_requirement n)) [0..<length (group_ids gs)]"
proof -
  have g: "length (group_ids gs) = length (concat (map (\<lambda>(ns, rids). map (Pair ns) rids) gs))"
    by (induction gs) (auto simp: group_ids_def)
  have "map (rq_requirement_id \<circ> (\<lambda>(n, (ns, rid)).
       \<lparr>rq_requirement_id = env_uuid en (U_requirement n), rq_tenant_id = mp_tenant_id p, rq_namespace = ns,
        rq_record_id = rid, rq_invalidation_event_id = eid, rq_reason = reason, rq_created_at = env_now en\<rparr>)) (enumerate k xs)
      = map (\<lambda>n. env_uuid en (U_requirement n)) [k..<k + length xs]" for k xs
    by (induction xs arbitrary: k) (auto simp: upt_conv_Cons simp del: upt_Suc)
  then show ?thesis by (simp add: invalidation_requirements_def g)
qed

lemma requirement_event:
  "x \<in> set (invalidation_requirements en p eid reason gs) \<Longrightarrow> rq_invalidation_event_id x = eid"
  by (auto simp: invalidation_requirements_def)

text \<open>Every affected record gets a requirement to be validated again.\<close>

lemma requirement_stored:
  assumes "distinct (map (\<lambda>n. env_uuid en (U_requirement n)) [0..<length (group_ids gs)])" and "rid \<in> set (group_ids gs)"
    and "st_revalidation_requirements t = dict_set_all rq_requirement_id (invalidation_requirements en p eid reason gs) d"
  shows "\<exists>x \<in> set (list_revalidation_requirements rid t). rq_invalidation_event_id x = eid"
proof -
  from assms(2) obtain x where x: "x \<in> set (invalidation_requirements en p eid reason gs)" "rq_record_id x = rid"
    by (metis requirement_targets imageE set_map)
  have "distinct (map rq_requirement_id (invalidation_requirements en p eid reason gs))"
    unfolding requirement_ids by (rule assms(1))
  from dict_get_set_all_mem [OF x(1) this, of d] have "x \<in> set (dict_values (st_revalidation_requirements t))"
    unfolding assms(3) by (rule dict_get_mem_values)
  with x requirement_event [OF x(1)] show ?thesis
    by (auto simp: list_revalidation_requirements_def)
qed

lemma may_invalidate_group:
  assumes "may_invalidate p (map fst gs)" and "rid \<in> set (group_ids gs)"
    and "\<And>ns ids. (ns, ids) \<in> set gs \<Longrightarrow> \<forall>rid \<in> set ids. in_group p s ns rid"
    and "get_record rid s = Some r"
  shows "may p A_READ (mr_namespace r) \<and> may p A_MAINTAIN (mr_namespace r)"
proof -
  from assms(2) obtain ns ids where g: "(ns, ids) \<in> set gs" "rid \<in> set ids" by (auto simp: group_ids_def)
  with assms(3,4) have ns: "mr_namespace r = ns" by (fastforce simp: in_group_def)
  from g(1) have "ns \<in> set (map fst gs)" by force
  with assms(1) show ?thesis
    unfolding ns may_invalidate_def list_all_iff by auto
qed

text \<open>
  Property C16: source invalidation is exact and all-or-nothing. A first run of an operation
  either leaves the store as it was and does not report an application, or it archives
  exactly the current records of the caller's tenant that carry an active selector the
  request names, in namespaces where the caller may read and maintain; no other record
  changes, none of their selectors stays active, each gets a revalidation requirement of
  this operation, every holder of a copy is told to retire it, and the operation is stored
  under its identity with the digest of the request.
\<close>

theorem invalidation_all_or_nothing:
  assumes "invalidate_by_source svc en p q s = (res, t)"
    and "distinct (map (\<lambda>n. env_uuid en (U_requirement n)) [0..<length (invalidation_matches p q s)])"
    and "get_source_invalidation (mp_tenant_id p) (operation_id (sv_dumps svc) (sv_hash svc) q) s = None"
  shows "t = s \<and> (\<forall>rc. res = Inr rc \<longrightarrow> ir_status rc \<noteq> I_APPLIED)
    \<or> (\<exists>rc. res = Inr rc \<and> ir_status rc = I_APPLIED
        \<and> (\<forall>rid. rid \<in> set (ir_record_ids rc) \<longleftrightarrow> names_source p q s rid)
        \<and> (\<forall>rid. \<not> names_source p q s rid \<longrightarrow> get_record rid t = get_record rid s)
        \<and> (\<forall>rid r. names_source p q s rid \<and> get_record rid s = Some r \<longrightarrow>
             may p A_READ (mr_namespace r) \<and> may p A_MAINTAIN (mr_namespace r)
             \<and> get_record rid t = Some (r\<lparr>mr_state := ARCHIVED\<rparr>)
             \<and> (\<forall>x \<in> set (list_source_selectors rid t). \<not> ss_active x)
             \<and> (\<exists>x \<in> set (list_revalidation_requirements rid t).
                  rq_invalidation_event_id x = operation_id (sv_dumps svc) (sv_hash svc) q))
        \<and> (\<exists>evs. st_outbox t = dict_set_all ob_event_id evs (st_outbox s)
             \<and> map intent evs = retire_intents svc s (ir_record_ids rc))
        \<and> (\<exists>event. get_source_invalidation (mp_tenant_id p) (operation_id (sv_dumps svc) (sv_hash svc) q) t = Some event
             \<and> applied_invalidation event = rc
             \<and> ie_request_digest event = request_digest (sv_dumps svc) (sv_hash svc) q))"
  using assms(1,3)
proof (cases rule: invalidate_cases)
  case unchanged
  then show ?thesis by blast
next
  case (applied rcs ses evs event rqs)
  let ?gs = "invalidation_groups p q s"
  have d: "distinct (map se_record_id ses)" using applied(2) invalidation_groups_facts(1) by metis
  have ids: "rid \<in> set (map se_record_id ses) \<longleftrightarrow> names_source p q s rid" for rid
    unfolding applied(2) invalidation_groups_facts(2) by simp
  have rec: "get_record rid t = (if names_source p q s rid then map_option (moved ARCHIVED (env_now en)) (get_record rid s)
      else get_record rid s)" for rid
    unfolding applied(9) invalidation_committed_sel(1)
    using moved_records [OF applied(3) d ledgers_updated_sel(1), of rid] ids by simp
  have mv: "moved ARCHIVED now r = r\<lparr>mr_state := ARCHIVED\<rparr>" for now r by (simp add: moved_def)
  have inner: "may p A_READ (mr_namespace r) \<and> may p A_MAINTAIN (mr_namespace r)
       \<and> get_record rid t = Some (r\<lparr>mr_state := ARCHIVED\<rparr>)
       \<and> (\<forall>x \<in> set (list_source_selectors rid t). \<not> ss_active x)
       \<and> (\<exists>x \<in> set (list_revalidation_requirements rid t). rq_invalidation_event_id x = invalidation_id svc q)"
    if n: "names_source p q s rid" "get_record rid s = Some r" for rid r
  proof -
    have g: "rid \<in> set (group_ids ?gs)" using n(1) invalidation_groups_facts(2) by simp
    have "rid \<in> receipts_targets rcs" using applied(4) g by simp
    then have "\<forall>x \<in> set (list_source_selectors rid t). \<not> ss_active x"
      using committed_selectors applied(9) by (fastforce simp: list_source_selectors_def)
    moreover have "\<exists>x \<in> set (list_revalidation_requirements rid t). rq_invalidation_event_id x = invalidation_id svc q"
      by (rule requirement_stored [OF assms(2) [folded length_invalidation_groups] g]) (simp add: applied(6,9))
    moreover have "may p A_READ (mr_namespace r) \<and> may p A_MAINTAIN (mr_namespace r)"
      by (rule may_invalidate_group [OF applied(1) g _ n(2)]) (use invalidation_groups_facts(3) in blast)
    ultimately show ?thesis using rec [of rid] n by (simp add: mv)
  qed
  have ev: "get_source_invalidation (mp_tenant_id p) (invalidation_id svc q) t = Some event"
    "ie_request_digest event = request_digest (sv_dumps svc) (sv_hash svc) q"
    "ir_record_ids (applied_invalidation event) = map se_record_id ses"
    "ir_status (applied_invalidation event) = I_APPLIED"
    by (simp_all add: applied(9) applied(7) get_source_invalidation_def invalidation_event_of_def applied_invalidation_def)
  have "\<exists>evs. st_outbox t = dict_set_all ob_event_id evs (st_outbox s)
      \<and> map intent evs = retire_intents svc s (ir_record_ids (applied_invalidation event))"
    using applied(2,5,9) by (auto simp: ev(3))
  with applied(8) ids rec inner ev show ?thesis by auto
qed

text \<open>
  An applied invalidation is idempotent. Running it again, whenever, by the same
  caller with the same request returns the very receipt of the first application and leaves
  the store as it is.
\<close>

theorem invalidation_replay_stable:
  assumes "invalidate_by_source svc en p q s = (Inr rc, t)" and "ir_status rc = I_APPLIED"
  shows "invalidate_by_source svc en' p q t = (Inr rc, t)"
proof (cases "get_source_invalidation (mp_tenant_id p) (invalidation_id svc q) s")
  case (Some e)
  with assms(1) have "t = s" "rc = replayed_invalidation p q e (request_digest (sv_dumps svc) (sv_hash svc) q)"
    by (simp_all add: invalidate_by_source_def andThen_def gets_def ret_def Let_def)
  with Some show ?thesis
    by (simp add: invalidate_by_source_def andThen_def gets_def ret_def Let_def)
next
  case None
  from assms(1) None show ?thesis
  proof (cases rule: invalidate_cases)
    case unchanged
    with assms(2) show ?thesis by blast
  next
    case (applied rcs ses evs event rqs)
    have "get_source_invalidation (mp_tenant_id p) (invalidation_id svc q) t = Some event"
      by (simp add: applied(9) applied(7) get_source_invalidation_def invalidation_event_of_def)
    moreover have "replayed_invalidation p q event (request_digest (sv_dumps svc) (sv_hash svc) q) = rc"
      using applied(1,8) by (simp add: replayed_invalidation_def) (simp add: applied(7) invalidation_event_of_def)
    ultimately show ?thesis
      by (simp add: invalidate_by_source_def andThen_def gets_def ret_def Let_def)
  qed
qed

section \<open>A concrete invalidation\<close>

definition smp_selected :: source_selector where
  "smp_selected = \<lparr>ss_selector_id = ''s'', ss_record_id = 7, ss_repository = ''repo'', ss_selector_type = ''path'',
     ss_selector_value = ''a.py'', ss_active = True, ss_created_at = 5, ss_deactivated_at = None\<rparr>"

definition smp_sourced :: store where
  "smp_sourced = smp_store7\<lparr>st_source_selectors := [(''s'', smp_selected)]\<rparr>"

definition smp_change :: invalidation_request where
  "smp_change = \<lparr>iq_event_id = Some ''ev'', iq_event_type = ''file_changed'', iq_repository = Some ''repo'',
     iq_from_sha = None, iq_to_sha = None,
     iq_selectors = Some [\<lparr>is_selector_id = ''i'', is_selector_type = ''path'', is_selector_value = ''a.py'',
                          is_change_kind = None, is_previous_path = None\<rparr>],
     iq_selector = None\<rparr>"

lemma smp_sourced_get [simp]: "get_record rid smp_sourced = (if rid = 7 then Some (smp_record 7 ACTIVE) else None)"
  by (simp add: get_record_def smp_sourced_def smp_store7_def)

lemma smp_change_id: "operation_id d h smp_change = ''ev''"
  by (simp add: operation_id_def smp_change_def)

lemma smp_named: "names_source smp_maintainer smp_change smp_sourced rid \<longleftrightarrow> rid = 7"
  by (auto simp: names_source_def smp_sourced_def smp_change_def normalized_selectors_def smp_selected_def
      get_record_def smp_store7_def)

lemma smp_matches: "invalidation_matches smp_maintainer smp_change smp_sourced = [7]"
proof -
  have "set (invalidation_matches smp_maintainer smp_change smp_sourced) = {7}"
    using set_invalidation_matches smp_named by blast
  moreover from this have "length (invalidation_matches smp_maintainer smp_change smp_sourced) = 1"
    using distinct_card [OF distinct_invalidation_matches] by (metis card_1_singleton_iff One_nat_def)
  then obtain x where "invalidation_matches smp_maintainer smp_change smp_sourced = [x]"
    by (auto simp: length_Suc_conv)
  ultimately show ?thesis by simp
qed

lemma smp_groups: "invalidation_groups smp_maintainer smp_change smp_sourced = [(''ns'', [7])]"
  by (simp add: smp_matches group_by_namespace_def group_record_def sorted_groups_def)

lemma smp_may_all: "may_invalidate smp_maintainer [''ns'']"
  using smp_may_maintainer smp_may_maintain by (simp add: may_invalidate_def)

lemma smp_change_reason: "invalidation_reason smp_change ''ev'' = ''source invalidation file_changed (ev)''"
  by (simp add: invalidation_reason_def smp_change_def)

lemma smp_invalidation_item:
  "plan_item smp_env smp_maintainer ''ns'' ARCHIVED ''source invalidation file_changed (ev)'' None (0, 7) smp_sourced
     = (Inr (smp_item\<lparr>li_event := smp_archival\<lparr>se_reason := ''source invalidation file_changed (ev)''\<rparr>\<rparr>), smp_sourced)"
  by (simp add: plan_item_def andThen_def gets_def ret_def check_def required_action_def from_sum_def
      make_status_event_def len_ok_def smp_item_def)

lemma smp_invalidation_plan:
  "\<exists>plan. plan_invalidation smp_service smp_env smp_maintainer (invalidation_reason smp_change ''ev'')
      [invalidation_evidence smp_env smp_change ''ev''] 0 0 0 [(''ns'', [7])] smp_sourced = (Inr plan, smp_sourced)"
  unfolding smp_change_reason
  by (simp add: plan_lifecycle_transition_def andThen_def check_def ret_def gets_def dedup_id smp_invalidation_item
      authorize_granted [OF smp_may_maintainer] authorize_granted [OF smp_may_maintain] smp_item_def from_sum_def
      make_lifecycle_receipt_def len_ok_def)

lemma smp_invalidated:
  "\<exists>rc t. invalidate_by_source smp_service smp_env smp_maintainer smp_change smp_sourced = (Inr rc, t)
     \<and> ir_status rc = I_APPLIED"
proof -
  obtain rcs ses evs where pl: "plan_invalidation smp_service smp_env smp_maintainer (invalidation_reason smp_change ''ev'')
      [invalidation_evidence smp_env smp_change ''ev''] 0 0 0 [(''ns'', [7])] smp_sourced = (Inr (rcs, ses, evs), smp_sourced)"
    using smp_invalidation_plan by fastforce
  have new: "get_source_invalidation (mp_tenant_id smp_maintainer) ''ev'' smp_sourced = None"
    by (simp add: get_source_invalidation_def smp_sourced_def smp_store7_def empty_store_def)
  from invalidate_commits [of smp_maintainer smp_service smp_change smp_sourced, unfolded smp_groups smp_change_id, OF new]
    pl smp_may_all
  show ?thesis by (auto simp: Let_def applied_invalidation_def)
qed

theorem invalidation_all_or_nothing_witness:
  "\<exists>rc t. invalidate_by_source smp_service smp_env smp_maintainer smp_change smp_sourced = (Inr rc, t)
     \<and> map_option mr_state (get_record 7 t) = Some ARCHIVED"
proof -
  obtain rc t where r: "invalidate_by_source smp_service smp_env smp_maintainer smp_change smp_sourced = (Inr rc, t)"
    and a: "ir_status rc = I_APPLIED" using smp_invalidated by blast
  have d: "distinct (map (\<lambda>n. env_uuid smp_env (U_requirement n))
      [0..<length (invalidation_matches smp_maintainer smp_change smp_sourced)])"
    by (simp add: smp_matches)
  have new: "get_source_invalidation (mp_tenant_id smp_maintainer)
      (operation_id (sv_dumps smp_service) (sv_hash smp_service) smp_change) smp_sourced = None"
    unfolding smp_change_id
    by (simp add: get_source_invalidation_def smp_sourced_def smp_store7_def empty_store_def)
  have n: "names_source smp_maintainer smp_change smp_sourced 7 \<and> get_record 7 smp_sourced = Some (smp_record 7 ACTIVE)"
    by (simp add: smp_named)
  from invalidation_all_or_nothing [OF r d new] a n
  have "get_record 7 t = Some ((smp_record 7 ACTIVE)\<lparr>mr_state := ARCHIVED\<rparr>)" by blast
  with r show ?thesis by simp
qed

theorem invalidation_replay_stable_witness:
  "\<exists>rc t. invalidate_by_source smp_service smp_env smp_maintainer smp_change smp_sourced = (Inr rc, t)
     \<and> invalidate_by_source smp_service smp_env smp_maintainer smp_change t = (Inr rc, t)"
proof -
  obtain rc t where r: "invalidate_by_source smp_service smp_env smp_maintainer smp_change smp_sourced = (Inr rc, t)"
    and a: "ir_status rc = I_APPLIED" using smp_invalidated by blast
  from invalidation_replay_stable [OF r a] r show ?thesis by blast
qed

end
