(* ===== verification/OutboxWorker.thy ===== *)
theory OutboxWorker
  imports Store Runtime
begin

text \<open>
  The outbox worker, \<open>services/outbox_worker.py\<close>: it leases committed outbox events, performs
  the one provider operation each asks for, keeps the projection links in step and settles
  the event. A provider is an external service: a \<open>provider\<close> is what its calls do to a state
  \<open>'w\<close> of its own, and \<open>pv_meanwhile\<close> is what other processes commit to the store while a call
  is under way. Every other step of the worker is one store method.
\<close>

section \<open>Providers\<close>

text \<open>\<open>projections/render.py\<close>'s result, of which the worker reads the digests.\<close>

record rendered =
  rd_template_digest :: digest
  rd_content_digest :: digest
  rd_text :: string

text \<open>Targets are named by their identity; the locator is an argument of every withdrawal.\<close>

record 'w provider =
  pv_project :: "string \<Rightarrow> memory_record \<Rightarrow> rendered option \<Rightarrow> 'w \<Rightarrow> (error + json) \<times> 'w"
  pv_retire :: "string \<Rightarrow> uuid \<Rightarrow> string \<Rightarrow> string \<Rightarrow> string \<Rightarrow> 'w \<Rightarrow> (error + json) \<times> 'w"
  pv_erase :: "string \<Rightarrow> uuid \<Rightarrow> string \<Rightarrow> string \<Rightarrow> 'w \<Rightarrow> (error + json) \<times> 'w"
  pv_meanwhile :: "'w \<Rightarrow> store \<Rightarrow> store"

record 'w worker =
  wk_runtime :: projection_runtime
  wk_provider :: "'w provider"
  wk_render :: "compiled_projection \<Rightarrow> memory_record \<Rightarrow> error + rendered"
  wk_batch_size :: nat
  wk_max_attempts :: nat
  wk_base_delay :: nat
  wk_lease_seconds :: nat
  wk_id :: string

type_synonym ('w, 'a) world_op = "(store \<times> 'w, error, 'a) op"

definition on_store :: "'a store_op \<Rightarrow> ('w, 'a) world_op" where
  "on_store m x = (case m (fst x) of (r, t) \<Rightarrow> (r, (t, snd x)))"

definition provider_call :: "'w provider \<Rightarrow> ('w \<Rightarrow> (error + json) \<times> 'w) \<Rightarrow> ('w, json) world_op" where
  "provider_call pv f x = (case f (snd x) of (r, w) \<Rightarrow> (r, (pv_meanwhile pv w (fst x), w)))"

section \<open>Construction\<close>

definition verify_projection_runtime :: "projection_runtime \<Rightarrow> store \<Rightarrow> error + unit" where
  "verify_projection_runtime rt s =
     (if unresolved_identities rt (list_projection_target_identities s) \<noteq> []
      then Inl (ConfigurationError ''projection runtime cannot address target identities that still own projection links or pending outbox events'')
      else Inr ())"

definition make_worker :: "'w worker \<Rightarrow> store \<Rightarrow> error + 'w worker" where
  "make_worker wk s =
     (case verify_projection_runtime (wk_runtime wk) s of Inl e \<Rightarrow> Inl e | Inr _ \<Rightarrow> Inr wk)"

definition render :: "'w worker \<Rightarrow> memory_record \<Rightarrow> error + rendered option" where
  "render wk r =
     (case (rt_mode (wk_runtime wk), rt_compiled (wk_runtime wk)) of
        (Manifest, Some c) \<Rightarrow> (case wk_render wk c r of Inl e \<Rightarrow> Inl e | Inr x \<Rightarrow> Inr (Some x))
      | _ \<Rightarrow> Inr None)"

section \<open>Links\<close>

text \<open>\<open>metadata.get("scope_scheme")\<close>: an absent key reads as \<open>None\<close>.\<close>

definition link_scheme :: "projection_link \<Rightarrow> json" where
  "link_scheme l = (case dict_get (pk_metadata l) ''scope_scheme'' of None \<Rightarrow> JNull | Some v \<Rightarrow> v)"

definition binding_scheme :: "target_binding \<Rightarrow> json" where
  "binding_scheme b = (case tb_adapter b of None \<Rightarrow> JNull | Some a \<Rightarrow> opt_str (ad_scope_scheme a))"

definition legacy_obligation :: "projection_link \<Rightarrow> instant \<Rightarrow> (string, json) dict" where
  "legacy_obligation l now =
     [(''locator'', JStr (pk_locator l)), (''scope_scheme'', link_scheme l), (''superseded_at'', JTime now)]"

definition carried_legacy_copies ::
  "projection_link option \<Rightarrow> json \<Rightarrow> instant \<Rightarrow> (string, json) dict list" where
  "carried_legacy_copies previous scheme now =
     legacy_copies previous
     @ (case previous of
          None \<Rightarrow> []
        | Some l \<Rightarrow> if \<not> link_withdrawn previous \<and> link_scheme l \<noteq> scheme then [legacy_obligation l now] else [])"

definition with_copies :: "(string, json) dict list \<Rightarrow> (string, json) dict \<Rightarrow> (string, json) dict" where
  "with_copies copies m = dict_set LEGACY_COPIES_KEY (JList (map JObj copies)) m"

definition new_link ::
  "memory_record \<Rightarrow> target_binding \<Rightarrow> string \<Rightarrow> (string, json) dict \<Rightarrow> digest option \<Rightarrow> instant \<Rightarrow> projection_link" where
  "new_link r b locator metadata digest now =
     \<lparr>pk_record_id = mr_record_id r, pk_namespace = mr_namespace r, pk_projection_name = tb_projection_name b,
      pk_target_identity = tb_identity b, pk_projection_version = tb_projection_version b,
      pk_provider_type = tb_provider_type b, pk_locator = locator, pk_manifest_digest = tb_manifest_digest b,
      pk_render_contract_digest = digest, pk_metadata = metadata, pk_created_at = now\<rparr>"

text \<open>
  \<open>for _ in range(self._LINK_INSTALL_ATTEMPTS)\<close>: the number is the attempts left, and when none
  is left the fresh copy is withdrawn.
\<close>

definition LINK_INSTALL_ATTEMPTS :: nat where "LINK_INSTALL_ATTEMPTS = 3"

fun install_link ::
  "'w worker \<Rightarrow> memory_record \<Rightarrow> target_binding \<Rightarrow> string \<Rightarrow> (string, json) dict \<Rightarrow> digest option \<Rightarrow> instant
     \<Rightarrow> nat \<Rightarrow> ('w, bool) world_op" where
  "install_link wk r b locator metadata digest now 0 =
     andThen (provider_call (wk_provider wk)
       (pv_retire (wk_provider wk) (tb_identity b) (mr_record_id r) (mr_namespace r) locator ''post-project-link-contention''))
       (\<lambda>_. throw (ProjectionLinkConflict ''projection link kept changing during install''))"
| "install_link wk r b locator metadata digest now (Suc k) =
     andThen (on_store (gets (get_projection_link (mr_record_id r) (tb_identity b)))) (\<lambda>previous.
       let scheme = (case dict_get metadata ''scope_scheme'' of None \<Rightarrow> JNull | Some v \<Rightarrow> v);
           carried = carried_legacy_copies previous scheme now;
           m = (if carried \<noteq> [] then with_copies carried metadata else metadata) in
       try_catch
         (andThen (from_sum (make_projection_link (new_link r b locator m digest now))) (\<lambda>l.
            on_store (save_projection_link_if_active l previous)))
         (\<lambda>e. case e of
            ProjectionLinkConflict _ \<Rightarrow> install_link wk r b locator metadata digest now k
          | _ \<Rightarrow> throw e))"

definition retain_stale_link :: "projection_link \<Rightarrow> target_binding \<Rightarrow> instant \<Rightarrow> projection_link store_op" where
  "retain_stale_link l b now =
     (if link_withdrawn (Some l) \<or> link_scheme l = binding_scheme b then ret l
      else
        (let m = dict_set LINK_WITHDRAWN_KEY (JBool True)
                   (with_copies (legacy_copies (Some l) @ [legacy_obligation l now]) (pk_metadata l));
             retained = l\<lparr>pk_metadata := m, pk_created_at := now\<rparr>
         in andThen (save_projection_link retained) (\<lambda>_. ret retained)))"

definition drop_live_copy :: "projection_link \<Rightarrow> instant \<Rightarrow> string option \<Rightarrow> unit store_op" where
  "drop_live_copy l now pending =
     (if legacy_copies (Some l) = [] then delete_projection_link (pk_record_id l) (pk_target_identity l)
      else
        (let m = dict_set LINK_WITHDRAWN_KEY (JBool True) (pk_metadata l);
             m' = (case pending of None \<Rightarrow> m | Some x \<Rightarrow> dict_set PENDING_DELETION_RECEIPT_KEY (JStr x) m)
         in save_projection_link (l\<lparr>pk_metadata := m', pk_created_at := now\<rparr>)))"

section \<open>The three kinds of event\<close>

definition locator_of :: "json \<Rightarrow> string option" where
  "locator_of result =
     (case get_str (json_obj result) ''locator'' of
        None \<Rightarrow> None
      | Some l \<Rightarrow> if strip l = [] then None else Some l)"

definition withdraw_fresh :: "'w worker \<Rightarrow> memory_record \<Rightarrow> target_binding \<Rightarrow> string \<Rightarrow> ('w, unit) world_op" where
  "withdraw_fresh wk r b locator =
     andThen (provider_call (wk_provider wk)
       (pv_retire (wk_provider wk) (tb_identity b) (mr_record_id r) (mr_namespace r) locator ''post-project-race-stale''))
       (\<lambda>_. ret ())"

definition deliver_copy ::
  "'w worker \<Rightarrow> memory_record \<Rightarrow> target_binding \<Rightarrow> adapter_port \<Rightarrow> rendered option \<Rightarrow> ('w, json) world_op" where
  "deliver_copy wk r b a rendered =
     (if rendered = None \<or> ad_rendered a
      then provider_call (wk_provider wk) (pv_project (wk_provider wk) (tb_identity b) r rendered)
      else throw (ProjectionError ''projection target adapter cannot deliver a compiled render contract''))"

definition link_metadata_of :: "outbox_event \<Rightarrow> adapter_port \<Rightarrow> rendered option \<Rightarrow> json \<Rightarrow> (string, json) dict" where
  "link_metadata_of e a rendered result =
     [(''transport_result'', result), (''outbox_event_id'', JStr (uuid_str (ob_event_id e))),
      (''scope_scheme'', opt_str (ad_scope_scheme a))]
     @ (case rendered of None \<Rightarrow> [] | Some x \<Rightarrow> [(''render_content_digest'', JStr (rd_content_digest x))])"

definition is_active :: "memory_record option \<Rightarrow> bool" where
  "is_active x = (case x of None \<Rightarrow> False | Some r \<Rightarrow> mr_state r = ACTIVE)"

definition project_event :: "'w worker \<Rightarrow> instant \<Rightarrow> outbox_event \<Rightarrow> target_binding \<Rightarrow> ('w, unit) world_op" where
  "project_event wk now e b =
     andThen (on_store (gets (get_record (ob_aggregate_id e)))) (\<lambda>found.
       case found of
         None \<Rightarrow> throw (RuntimeError ''outbox aggregate not found'')
       | Some r \<Rightarrow>
           if mr_state r \<noteq> ACTIVE \<or> \<not> delivers b then ret ()
           else
             andThen (from_sum (adapter_for (wk_runtime wk) (tb_identity b))) (\<lambda>a.
             andThen (from_sum (render wk r)) (\<lambda>rendered.
             andThen (deliver_copy wk r b a rendered) (\<lambda>result.
             case locator_of result of
               None \<Rightarrow> throw (RuntimeError ''projection target did not return a stable locator'')
             | Some locator \<Rightarrow>
                 andThen (on_store (gets (get_record (mr_record_id r)))) (\<lambda>fresh.
                   if \<not> is_active fresh then withdraw_fresh wk r b locator
                   else
                     andThen (install_link wk r b locator (link_metadata_of e a rendered result)
                       (map_option rd_template_digest rendered) now LINK_INSTALL_ATTEMPTS) (\<lambda>installed.
                       if installed then ret () else withdraw_fresh wk r b locator))))))"

text \<open>\<open>rid\<close> is the identifier of the retirement receipt.\<close>

definition retirement_of ::
  "uuid \<Rightarrow> instant \<Rightarrow> outbox_event \<Rightarrow> target_binding \<Rightarrow> adapter_port \<Rightarrow> projection_link \<Rightarrow> string \<Rightarrow> json
     \<Rightarrow> retirement_receipt" where
  "retirement_of rid now e b a l reason result =
     \<lparr>prr_receipt_id = rid, prr_record_id = ob_aggregate_id e, prr_namespace = ob_namespace e,
      prr_projection_name = tb_projection_name b, prr_target_identity = Some (tb_identity b),
      prr_provider_type = Some (tb_provider_type b), prr_retirement_mode = ad_retirement_mode a,
      prr_locator = Some (pk_locator l), prr_reason = reason, prr_erasure = False, prr_rebuildable = True,
      prr_outbox_event_id = Some (ob_event_id e), prr_provider_result = json_obj result, prr_retired_at = now\<rparr>"

definition retire_event :: "'w worker \<Rightarrow> uuid \<Rightarrow> instant \<Rightarrow> outbox_event \<Rightarrow> target_binding \<Rightarrow> ('w, unit) world_op" where
  "retire_event wk rid now e b =
     andThen (on_store (gets (get_projection_link (ob_aggregate_id e) (tb_identity b)))) (\<lambda>link0.
     andThen (on_store (gets (get_record (ob_aggregate_id e)))) (\<lambda>current.
     andThen (case link0 of
                None \<Rightarrow> ret None
              | Some l \<Rightarrow>
                  if is_active current then ret (Some l)
                  else on_store (andThen (retain_stale_link l b now) (\<lambda>k. ret (Some k)))) (\<lambda>link.
       if is_active current then ret ()
       else
         (case link of
            None \<Rightarrow> ret ()
          | Some l \<Rightarrow>
              if link_withdrawn (Some l) then ret ()
              else
                (let reason = (case get_str (ob_payload e) ''reason'' of None \<Rightarrow> ''retired'' | Some x \<Rightarrow> x) in
                 andThen (from_sum (adapter_for (wk_runtime wk) (tb_identity b))) (\<lambda>a.
                 andThen (provider_call (wk_provider wk) (pv_retire (wk_provider wk) (tb_identity b)
                   (ob_aggregate_id e) (ob_namespace e) (pk_locator l) reason)) (\<lambda>result.
                 andThen (on_store (drop_live_copy l now None)) (\<lambda>_.
                 andThen (from_sum (make_retirement_receipt (retirement_of rid now e b a l reason result))) (\<lambda>receipt.
                   on_store (save_projection_retirement receipt))))))))))"

text \<open>Erasing one target's copy; the deletion completes when no link is left in any target.\<close>

definition erase_copy :: "'w worker \<Rightarrow> instant \<Rightarrow> outbox_event \<Rightarrow> target_binding \<Rightarrow> string \<Rightarrow> ('w, unit) world_op" where
  "erase_copy wk now e b receipt_id =
     andThen (on_store (gets (get_projection_link (ob_aggregate_id e) (tb_identity b)))) (\<lambda>link0.
       case link0 of
         None \<Rightarrow> ret ()
       | Some l0 \<Rightarrow>
           andThen (on_store (retain_stale_link l0 b now)) (\<lambda>l.
           andThen (if link_withdrawn (Some l) then ret ()
                    else andThen (from_sum (adapter_for (wk_runtime wk) (tb_identity b))) (\<lambda>_.
                         andThen (provider_call (wk_provider wk) (pv_erase (wk_provider wk) (tb_identity b)
                           (ob_aggregate_id e) (ob_namespace e) (pk_locator l))) (\<lambda>_. ret ()))) (\<lambda>_.
             on_store (if legacy_copies (Some l) \<noteq> [] then drop_live_copy l now (Some receipt_id)
                       else delete_projection_link (ob_aggregate_id e) (tb_identity b)))))"

text \<open>\<open>sid\<close> is the identifier of the completion's status event.\<close>

definition erase_event :: "'w worker \<Rightarrow> uuid \<Rightarrow> instant \<Rightarrow> outbox_event \<Rightarrow> target_binding \<Rightarrow> ('w, unit) world_op" where
  "erase_event wk sid now e b =
     (case get_str (ob_payload e) ''deletion_receipt_id'' of
        None \<Rightarrow> throw (RuntimeError ''deletion outbox event lacks deletion_receipt_id'')
      | Some receipt_id \<Rightarrow>
          andThen (erase_copy wk now e b receipt_id) (\<lambda>_.
          andThen (on_store (gets (list_projection_links (ob_aggregate_id e)))) (\<lambda>remaining.
            if remaining \<noteq> [] then ret ()
            else
              (case uuid_parse receipt_id of
                 None \<Rightarrow> throw (ValueError ''badly formed hexadecimal UUID string'')
               | Some rcid \<Rightarrow>
                   on_store (complete_deletion sid (ob_aggregate_id e) rcid now
                     (''memory.outbox-worker:'' @ wk_id wk))))))"

section \<open>One event, one batch\<close>

definition deliver_event :: "'w worker \<Rightarrow> env \<Rightarrow> nat \<Rightarrow> outbox_event \<Rightarrow> ('w, unit) world_op" where
  "deliver_event wk en n e =
     andThen (from_sum (resolve_event_target (wk_runtime wk) (dict_get (ob_payload e) ''target_identity''))) (\<lambda>b.
       if ob_event_type e = ''memory.record.project'' then project_event wk (env_now en) e b
       else if ob_event_type e = ''memory.record.retire'' then retire_event wk (env_uuid en (U_batch n)) (env_now en) e b
       else if ob_event_type e = ''memory.record.erase'' then erase_event wk (env_uuid en (U_status n)) (env_now en) e b
       else throw (RuntimeError ''unsupported outbox event type''))"

definition settle ::
  "outbox_event \<Rightarrow> outbox_status \<Rightarrow> nat \<Rightarrow> instant \<Rightarrow> string option \<Rightarrow> instant option \<Rightarrow> ('w, bool) world_op" where
  "settle e status attempts next_attempt_at last_error delivered_at =
     try_catch
       (andThen (on_store (update_outbox (ob_event_id e) status attempts next_attempt_at last_error delivered_at
          (ob_lease_id e))) (\<lambda>_. ret True))
       (\<lambda>x. if is_store_error x then ret False else throw x)"

datatype outcome = Delivered | Retried | Dead | Lease_Lost

definition retry_delay :: "nat \<Rightarrow> nat \<Rightarrow> nat" where
  "retry_delay base attempts = base * 2 ^ (min (attempts - 1) 10)"

text \<open>The body of \<open>except Exception as exc\<close>.\<close>

definition failed_event :: "'w worker \<Rightarrow> instant \<Rightarrow> outbox_event \<Rightarrow> error \<Rightarrow> ('w, outcome) world_op" where
  "failed_event wk now e x =
     (let attempts = ob_attempts e + 1;
          is_dead = (attempts \<ge> wk_max_attempts wk);
          next_at = (if is_dead then now else now + seconds (retry_delay (wk_base_delay wk) attempts)) in
      andThen (settle e (if is_dead then X_DEAD else X_RETRY) attempts next_at (Some (error_text x)) None) (\<lambda>settled.
        ret (if settled then (if is_dead then Dead else Retried) else Lease_Lost)))"

definition process_event :: "'w worker \<Rightarrow> env \<Rightarrow> nat \<times> outbox_event \<Rightarrow> ('w, outcome) world_op" where
  "process_event wk en x =
     try_catch
       (andThen (deliver_event wk en (fst x) (snd x)) (\<lambda>_.
        andThen (settle (snd x) X_DELIVERED (ob_attempts (snd x) + 1) (env_now en) None (Some (env_now en))) (\<lambda>settled.
          ret (if settled then Delivered else Lease_Lost))))
       (failed_event wk (env_now en) (snd x))"

record run_report =
  rr_claimed :: nat
  rr_delivered :: nat
  rr_retried :: nat
  rr_dead :: nat
  rr_lease_lost :: nat

definition tally :: "outcome list \<Rightarrow> run_report" where
  "tally os =
     \<lparr>rr_claimed = length os, rr_delivered = length (filter (\<lambda>x. x = Delivered) os),
      rr_retried = length (filter (\<lambda>x. x = Retried) os), rr_dead = length (filter (\<lambda>x. x = Dead) os),
      rr_lease_lost = length (filter (\<lambda>x. x = Lease_Lost) os)\<rparr>"

definition run_once :: "'w worker \<Rightarrow> env \<Rightarrow> ('w, run_report) world_op" where
  "run_once wk en =
     (if rt_targets (wk_runtime wk) = [] then ret (tally [])
      else
        andThen (on_store (claim_outbox (\<lambda>i. env_uuid en (U_event i)) (wk_batch_size wk) (env_now en)
          (wk_lease_seconds wk) (wk_id wk))) (\<lambda>events.
        andThen (map_each (process_event wk en) (enumerate 0 events)) (\<lambda>outcomes. ret (tally outcomes))))"

end
