(* ===== verification/ServiceProjection.thy ===== *)
theory ServiceProjection
  imports Service OutboxWorker
begin

text \<open>
  What \<open>services/memory_service.py\<close> does about provider copies as a whole: rebuilding missing
  ones (\<open>rebuild_projection\<close>), recording that a namespace serves from a new binding
  (\<open>record_graph_cutover\<close>), releasing the copies of a destroyed store
  (\<open>release_legacy_projection_copies\<close>), and reporting health.
\<close>

section \<open>Rebuild\<close>

text \<open>
  The loop over the active records, with \<open>room = limit - len(candidates) - len(extra)\<close>; it
  yields the records to project again and those of them whose link is stale.
\<close>

fun rescope_loop ::
  "string \<Rightarrow> (uuid \<Rightarrow> projection_link option) \<Rightarrow> uuid list \<Rightarrow> nat \<Rightarrow> memory_record list
     \<Rightarrow> memory_record list \<times> uuid list" where
  "rescope_loop scheme link_of queued room [] = ([], [])"
| "rescope_loop scheme link_of queued 0 (r # rs) = ([], [])"
| "rescope_loop scheme link_of queued (Suc room) (r # rs) =
     (if mr_record_id r \<in> set queued then rescope_loop scheme link_of queued (Suc room) rs
      else
        (case link_of (mr_record_id r) of
           None \<Rightarrow> rescope_loop scheme link_of queued (Suc room) rs
         | Some l \<Rightarrow>
             if link_withdrawn (Some l) then
               (case rescope_loop scheme link_of queued room rs of (extra, stale) \<Rightarrow> (r # extra, stale))
             else if link_scheme l \<noteq> JStr scheme then
               (case rescope_loop scheme link_of queued room rs of
                  (extra, stale) \<Rightarrow> (r # extra, mr_record_id r # stale))
             else rescope_loop scheme link_of queued (Suc room) rs))"

definition rescope_candidates ::
  "target_binding \<Rightarrow> memory_record list \<Rightarrow> string \<Rightarrow> string \<Rightarrow> nat \<Rightarrow> store \<Rightarrow> memory_record list \<times> uuid list" where
  "rescope_candidates b candidates tenant ns limit s =
     (case Option.bind (tb_adapter b) ad_scope_scheme of
        None \<Rightarrow> ([], [])
      | Some scheme \<Rightarrow>
          rescope_loop scheme (\<lambda>rid. get_projection_link rid (tb_identity b) s) (map mr_record_id candidates)
            (limit - length candidates) (list_records tenant ns [ACTIVE] None s))"

text \<open>What one target must project again, and the stale ones among them.\<close>

definition rebuild_batch ::
  "string \<Rightarrow> string \<Rightarrow> nat \<Rightarrow> store \<Rightarrow> target_binding \<Rightarrow> memory_record list \<times> uuid list" where
  "rebuild_batch tenant ns limit s b =
     (let candidates = list_unprojected_records tenant ns (tb_identity b) limit s in
      case rescope_candidates b candidates tenant ns limit s of
        (rescoped, stale) \<Rightarrow> (candidates @ rescoped, stale))"

definition rebuild_event :: "env \<Rightarrow> string \<Rightarrow> nat \<Rightarrow> target_binding \<times> memory_record \<Rightarrow> outbox_event list" where
  "rebuild_event en ns k x =
     target_events en k ''memory.record.project'' (mr_record_id (snd x)) ns
       [(''record_id'', JStr (uuid_str (mr_record_id (snd x)))), (''schema_version'', JStr (mr_schema_version (snd x))),
        (''rebuild'', JBool True)]
       [tb_identity (fst x)]"

definition rebuild_pairs ::
  "string \<Rightarrow> string \<Rightarrow> nat \<Rightarrow> store \<Rightarrow> target_binding list \<Rightarrow> (target_binding \<times> memory_record) list" where
  "rebuild_pairs tenant ns limit s bs = concat (map (\<lambda>b. map (Pair b) (fst (rebuild_batch tenant ns limit s b))) bs)"

definition select_targets :: "service \<Rightarrow> string option \<Rightarrow> error + target_binding list" where
  "select_targets svc target =
     (case target of
        Some i \<Rightarrow>
          (case find_target (sv_runtime svc) i of
             Inl e \<Rightarrow> Inl e
           | Inr b \<Rightarrow> if delivers b then Inr [b]
                       else Inl (StoreError ''projection target receives no deliveries''))
      | None \<Rightarrow> Inr (delivery_targets (sv_runtime svc)))"

definition rebuild_receipt_of ::
  "env \<Rightarrow> memory_principal \<Rightarrow> string \<Rightarrow> bool \<Rightarrow> nat \<Rightarrow> string \<Rightarrow> authorization_receipt \<Rightarrow> target_binding list
     \<Rightarrow> store \<Rightarrow> outbox_event list \<Rightarrow> rebuild_receipt" where
  "rebuild_receipt_of en p ns apply limit reason authorization selected s events =
     (let batch = rebuild_batch (mp_tenant_id p) ns limit s;
          active = length (list_records (mp_tenant_id p) ns [ACTIVE] (Some limit) s);
          queued = dedup (concat (map (\<lambda>b. map mr_record_id (fst (batch b))) selected)) in
      \<lparr>pb_receipt_id = env_uuid en U_receipt, pb_namespace = ns,
       pb_projection_name = tb_projection_name (hd selected), pb_applied = apply,
       pb_considered_record_count = active, pb_already_projected_count = active - length queued,
       pb_queued_record_ids = queued,
       pb_stale_scope_record_ids = dedup (concat (map (\<lambda>b. snd (batch b)) selected)),
       pb_outbox_event_ids = map ob_event_id events, pb_target_identities = map tb_identity selected,
       pb_queued_by_target =
         fold (\<lambda>b. dict_set (tb_identity b) (map mr_record_id (fst (batch b)))) selected [],
       pb_authorization = authorization, pb_reason = reason, pb_actor = audit_subject p,
       pb_created_at = env_now en\<rparr>)"

definition rebuild_projection ::
  "service \<Rightarrow> env \<Rightarrow> memory_principal \<Rightarrow> string \<Rightarrow> bool \<Rightarrow> nat \<Rightarrow> string \<Rightarrow> string option \<Rightarrow> rebuild_receipt store_op" where
  "rebuild_projection svc en p ns apply limit reason target =
     andThen (authorize en p (if apply then A_MAINTAIN else A_READ) ns) (\<lambda>authorization.
     andThen (from_sum (select_targets svc target)) (\<lambda>selected.
     andThen (check (selected \<noteq> []) (StoreError ''projection backend is none; there is nothing to rebuild'')) (\<lambda>_.
     andThen (gets (\<lambda>s. extend_events (rebuild_event en ns) 0 (rebuild_pairs (mp_tenant_id p) ns limit s selected))) (\<lambda>events.
     andThen (gets (\<lambda>s. rebuild_receipt_of en p ns apply limit reason authorization selected s events)) (\<lambda>planned.
     andThen (from_sum (make_rebuild_receipt planned)) (\<lambda>receipt.
       if apply \<and> events \<noteq> []
       then andThen (commit_projection_rebuild SERVICE_WRITE_CAPABILITY receipt events) (\<lambda>_. ret receipt)
       else ret receipt))))))"

section \<open>Cutovers\<close>

definition graph_cutovers :: "env \<Rightarrow> memory_principal \<Rightarrow> string \<Rightarrow> cutover_receipt list store_op" where
  "graph_cutovers en p ns =
     andThen (authorize en p A_ADMIN ns) (\<lambda>_. gets (list_graph_cutovers (mp_tenant_id p) ns))"

text \<open>
  \<open>confirmed\<close> is what the adapter's optional \<open>confirmed_records\<close> lists: the records whose copy
  the provider itself reports.
\<close>

definition projected_under ::
  "target_binding \<Rightarrow> uuid list option \<Rightarrow> store \<Rightarrow> memory_record \<Rightarrow> bool" where
  "projected_under b confirmed s r \<longleftrightarrow>
     (case get_projection_link (mr_record_id r) (tb_identity b) s of
        None \<Rightarrow> False
      | Some l \<Rightarrow> \<not> link_withdrawn (Some l) \<and> link_scheme l = binding_scheme b
          \<and> (case confirmed of None \<Rightarrow> True | Some ids \<Rightarrow> mr_record_id r \<in> set ids))"

record cutover_request =
  cq_previous_binding :: string
  cq_new_binding :: string
  cq_change_reference :: string
  cq_rollback_window :: int
  cq_apply :: bool
  cq_schema_fingerprint :: "string option"
  cq_graph_capabilities :: "string list"
  cq_reason :: string

definition cutover_receipt_of ::
  "env \<Rightarrow> memory_principal \<Rightarrow> string \<Rightarrow> cutover_request \<Rightarrow> authorization_receipt \<Rightarrow> target_binding
     \<Rightarrow> uuid list option \<Rightarrow> store \<Rightarrow> cutover_receipt" where
  "cutover_receipt_of en p ns q authorization b confirmed s =
     (let active = list_records (mp_tenant_id p) ns [ACTIVE] None s;
          unprojected = map mr_record_id (filter (\<lambda>r. \<not> projected_under b confirmed s r) active);
          ready = (unprojected = [] \<and> outbox_backlog s = 0) in
      \<lparr>gc_receipt_id = env_uuid en U_receipt, gc_tenant_id = mp_tenant_id p, gc_namespace = ns,
       gc_projection_name = tb_projection_name b, gc_applied = (cq_apply q \<and> ready),
       gc_previous_binding = strip (cq_previous_binding q), gc_new_binding = strip (cq_new_binding q),
       gc_change_reference = cq_change_reference q, gc_cut_over_at = env_now en,
       gc_rollback_window_ends_at = env_now en + cq_rollback_window q,
       gc_scope_scheme = Option.bind (tb_adapter b) ad_scope_scheme,
       gc_active_record_count = length active, gc_projected_record_count = length active - length unprojected,
       gc_unprojected_record_ids = unprojected, gc_outbox_backlog = outbox_backlog s,
       gc_schema_fingerprint = cq_schema_fingerprint q, gc_graph_capabilities = cq_graph_capabilities q,
       gc_ready = ready, gc_authorization = authorization, gc_reason = cq_reason q,
       gc_actor = audit_subject p, gc_created_at = env_now en\<rparr>)"

definition record_graph_cutover ::
  "service \<Rightarrow> (string \<Rightarrow> string \<Rightarrow> uuid list option) \<Rightarrow> env \<Rightarrow> memory_principal \<Rightarrow> string \<Rightarrow> cutover_request
     \<Rightarrow> cutover_receipt store_op" where
  "record_graph_cutover svc confirm en p ns q =
     andThen (authorize en p A_ADMIN ns) (\<lambda>authorization.
     andThen (from_sum (graph_projection_target (sv_runtime svc))) (\<lambda>target.
       case target of
         None \<Rightarrow> throw (StoreError ''projection backend is none; there is no projection to cut over'')
       | Some b \<Rightarrow>
           andThen (check (0 \<le> cq_rollback_window q) (CutoverNotReady ''the rollback window cannot be negative'')) (\<lambda>_.
           andThen (check (strip (cq_previous_binding q) \<noteq> strip (cq_new_binding q))
             (CutoverNotReady ''the new binding must differ from the previous binding'')) (\<lambda>_.
           andThen (gets (cutover_receipt_of en p ns q authorization b (confirm (mp_tenant_id p) ns))) (\<lambda>planned.
           andThen (from_sum (make_cutover_receipt planned)) (\<lambda>receipt.
             if cq_apply q then
               andThen (check (gc_ready receipt) (CutoverNotReady ''active records are not projected or outbox events are undelivered'')) (\<lambda>_.
               andThen (commit_graph_cutover SERVICE_WRITE_CAPABILITY receipt) (\<lambda>_. ret receipt))
             else ret receipt))))))"

section \<open>Releasing legacy copies\<close>

definition release_cutover :: "string \<Rightarrow> string \<Rightarrow> instant \<Rightarrow> bool \<Rightarrow> cutover_receipt option store_op" where
  "release_cutover tenant ns now apply =
     andThen (gets (list_graph_cutovers tenant ns)) (\<lambda>cutovers.
       let cutover = (if cutovers = [] then None else Some (last cutovers)) in
       if \<not> apply then ret cutover
       else
         (case cutover of
            None \<Rightarrow> throw (CutoverNotReady ''no graph cutover is recorded for this namespace'')
          | Some c \<Rightarrow>
              if now < gc_rollback_window_ends_at c
              then throw (CutoverNotReady ''the rollback window of the cutover has not ended'')
              else ret cutover))"

text \<open>A timestamp is \<open>JTime\<close>; any other text does not parse as one.\<close>

definition copy_predates :: "instant \<Rightarrow> (string, json) dict \<Rightarrow> error + unit" where
  "copy_predates cut_over_at copy =
     (case dict_get copy ''superseded_at'' of
        Some (JTime t) \<Rightarrow>
          if t > cut_over_at then Inl (CutoverNotReady ''legacy copies were superseded after the latest recorded cutover'')
          else Inr ()
      | Some (JStr _) \<Rightarrow> Inl (ValueError ''Invalid isoformat string'')
      | _ \<Rightarrow> Inr ())"

definition require_predates_cutover :: "(string, json) dict list \<Rightarrow> cutover_receipt \<Rightarrow> unit store_op" where
  "require_predates_cutover copies c = for_each (\<lambda>x. from_sum (copy_predates (gc_cut_over_at c) x)) copies"

record release_plan =
  rpl_released :: "uuid list"
  rpl_completed :: "uuid list"
  rpl_link_updates :: "projection_link list"
  rpl_link_removals :: "(uuid \<times> string) list"
  rpl_deletion_completions :: "(uuid \<times> uuid) list"
  rpl_expected_links :: "projection_link list"
  rpl_copy_count :: nat

definition empty_plan :: release_plan where
  "empty_plan =
     \<lparr>rpl_released = [], rpl_completed = [], rpl_link_updates = [], rpl_link_removals = [],
      rpl_deletion_completions = [], rpl_expected_links = [], rpl_copy_count = 0\<rparr>"

definition released_link :: "projection_link \<Rightarrow> projection_link" where
  "released_link l = l\<lparr>pk_metadata := filter (\<lambda>(k, v). k \<noteq> LEGACY_COPIES_KEY) (pk_metadata l)\<rparr>"

text \<open>\<open>pending = pending or link.metadata.get(PENDING_DELETION_RECEIPT_KEY)\<close> over the withdrawn links.\<close>

definition pending_of :: "projection_link list \<Rightarrow> json" where
  "pending_of ls =
     foldl (\<lambda>pending l. if truthy pending then pending
        else (case dict_get (pk_metadata l) PENDING_DELETION_RECEIPT_KEY of None \<Rightarrow> JNull | Some v \<Rightarrow> v))
       JNull ls"

definition plan_add :: "memory_record \<Rightarrow> projection_link list \<Rightarrow> release_plan \<Rightarrow> error + release_plan" where
  "plan_add r links plan =
     (let releasing = filter (\<lambda>l. legacy_copies (Some l) \<noteq> []) links;
          withdrawn = filter (\<lambda>l. link_withdrawn (Some l)) releasing;
          live = filter (\<lambda>l. \<not> link_withdrawn (Some l)) releasing;
          grown = plan\<lparr>rpl_released := rpl_released plan @ [mr_record_id r],
            rpl_expected_links := rpl_expected_links plan @ releasing,
            rpl_copy_count := rpl_copy_count plan + sum_list (map (\<lambda>l. length (legacy_copies (Some l))) releasing),
            rpl_link_removals := rpl_link_removals plan @ map (\<lambda>l. (mr_record_id r, pk_target_identity l)) withdrawn,
            rpl_link_updates := rpl_link_updates plan @ map released_link live\<rparr> in
      if releasing = [] then Inr plan
      else
        (case pending_of withdrawn of
           JStr receipt_id \<Rightarrow>
             if mr_state r = DELETION_PENDING \<and> length withdrawn = length links then
               (case uuid_parse receipt_id of
                  None \<Rightarrow> Inl (ValueError ''badly formed hexadecimal UUID string'')
                | Some rcid \<Rightarrow>
                    Inr (grown\<lparr>rpl_completed := rpl_completed grown @ [mr_record_id r],
                      rpl_deletion_completions := rpl_deletion_completions grown @ [(mr_record_id r, rcid)]\<rparr>))
             else Inr grown
         | _ \<Rightarrow> Inr grown))"

text \<open>The loop over the records of the namespace.\<close>

fun plan_release ::
  "cutover_receipt option \<Rightarrow> memory_record list \<Rightarrow> release_plan \<Rightarrow> release_plan store_op" where
  "plan_release cutover [] plan = ret plan"
| "plan_release cutover (r # rs) plan =
     andThen (gets (list_projection_links (mr_record_id r))) (\<lambda>links.
     andThen (case cutover of
                None \<Rightarrow> ret ()
              | Some c \<Rightarrow> for_each (\<lambda>l. require_predates_cutover (legacy_copies (Some l)) c) links) (\<lambda>_.
     andThen (from_sum (plan_add r links plan)) (\<lambda>grown.
       plan_release cutover rs grown)))"

definition projection_label :: "service \<Rightarrow> string" where
  "projection_label svc =
     (let bs = (if delivery_targets (sv_runtime svc) \<noteq> [] then delivery_targets (sv_runtime svc)
                else rt_targets (sv_runtime svc)) in tb_projection_name (hd bs))"

definition release_legacy_projection_copies ::
  "service \<Rightarrow> env \<Rightarrow> memory_principal \<Rightarrow> string \<Rightarrow> string \<Rightarrow> bool \<Rightarrow> nat option \<Rightarrow> string
     \<Rightarrow> legacy_release_receipt store_op" where
  "release_legacy_projection_copies svc en p ns reference apply limit reason =
     andThen (authorize en p A_ADMIN ns) (\<lambda>authorization.
     andThen (check (rt_targets (sv_runtime svc) \<noteq> [])
       (StoreError ''projection backend is none; there are no legacy copies'')) (\<lambda>_.
     andThen (release_cutover (mp_tenant_id p) ns (env_now en) apply) (\<lambda>cutover.
     andThen (gets (list_records (mp_tenant_id p) ns [] limit)) (\<lambda>records.
     andThen (plan_release (if apply then cutover else None) records empty_plan) (\<lambda>plan.
     andThen (from_sum (make_legacy_release_receipt
       \<lparr>lpr_receipt_id = env_uuid en U_receipt, lpr_namespace = ns, lpr_projection_name = projection_label svc,
        lpr_applied = apply, lpr_released_record_ids = rpl_released plan,
        lpr_released_copy_count = rpl_copy_count plan, lpr_completed_deletion_record_ids = rpl_completed plan,
        lpr_authorization = authorization, lpr_store_destruction_reference = reference, lpr_reason = reason,
        lpr_actor = audit_subject p, lpr_created_at = env_now en,
        lpr_cutover_receipt_id = map_option gc_receipt_id cutover\<rparr>)) (\<lambda>receipt.
       if apply \<and> rpl_released plan \<noteq> []
       then andThen (commit_legacy_projection_release (\<lambda>i. env_uuid en (U_status i)) SERVICE_WRITE_CAPABILITY receipt
              (rpl_link_updates plan) (rpl_link_removals plan) (rpl_deletion_completions plan) (rpl_expected_links plan))
              (\<lambda>_. ret receipt)
       else ret receipt))))))"

section \<open>Health\<close>

record health_report =
  hr_status :: operation_status
  hr_store :: "(string, json) dict"
  hr_projection :: "(string, json) dict"
  hr_outbox_backlog :: nat
  hr_degraded_reasons :: "string list"
  hr_checked_at :: instant

definition healthy :: "(string, json) dict \<Rightarrow> bool" where
  "healthy m = (case dict_get m ''healthy'' of None \<Rightarrow> False | Some v \<Rightarrow> truthy v)"

text \<open>\<open>projection_health\<close> is what the runtime's adapters report.\<close>

definition service_health :: "service \<Rightarrow> (string, json) dict \<Rightarrow> env \<Rightarrow> store \<Rightarrow> health_report" where
  "service_health svc projection_health en s =
     (let store_health = health s;
          (status, degraded) =
            (if \<not> healthy store_health then (O_FAILED, [''canonical store is unhealthy''])
             else if enabled (sv_runtime svc) \<and> \<not> healthy projection_health
             then (O_PARTIAL, [''projection is unhealthy''])
             else (O_COMPLETE, [])) in
      \<lparr>hr_status = status, hr_store = store_health, hr_projection = projection_health,
       hr_outbox_backlog = outbox_backlog s, hr_degraded_reasons = degraded, hr_checked_at = env_now en\<rparr>)"

end
