(* ===== verification/ServiceDelete.thy ===== *)
theory ServiceDelete
  imports Service Curation
begin

text \<open>
  The two operations of \<open>services/memory_service.py\<close> that take content out of use: verified
  deletion (\<open>delete\<close>), which tombstones a record at once and owes one erasure per provider
  copy, and reference-aware retention (\<open>apply_retention\<close>, \<open>prune\<close>), which archives.
\<close>

section \<open>Verified deletion\<close>

text \<open>
  \<open>sha256_text(canonical_json({...}))\<close>: the reason and the verification reference enter the
  digest as digests of their own.
\<close>

definition tombstone_digest_of ::
  "service \<Rightarrow> env \<Rightarrow> memory_principal \<Rightarrow> deletion_request \<Rightarrow> memory_record \<Rightarrow> digest" where
  "tombstone_digest_of svc en p q r =
     sv_hash svc (JObj
       [(''record_id'', JStr (uuid_str (mr_record_id r))), (''tenant_id'', JStr (mr_tenant_id r)),
        (''namespace'', JStr (mr_namespace r)),
        (''reason_digest'', JStr (sv_text_digest svc (dlr_reason q))),
        (''verification_reference_digest'', JStr (sv_text_digest svc (dlr_verification_reference q))),
        (''requested_by'', JStr (audit_subject p)), (''requested_at'', JTime (env_now en))])"

definition erase_events :: "env \<Rightarrow> memory_record \<Rightarrow> string list \<Rightarrow> outbox_event list" where
  "erase_events en r targets =
     target_events en 0 ''memory.record.erase'' (mr_record_id r) (mr_namespace r)
       [(''record_id'', JStr (uuid_str (mr_record_id r))),
        (''deletion_receipt_id'', JStr (uuid_str (env_uuid en U_receipt)))]
       targets"

definition deletion_receipt_of ::
  "service \<Rightarrow> env \<Rightarrow> memory_principal \<Rightarrow> deletion_request \<Rightarrow> memory_record \<Rightarrow> authorization_receipt
     \<Rightarrow> string list \<Rightarrow> deletion_status \<Rightarrow> outbox_event list \<Rightarrow> instant option \<Rightarrow> deletion_receipt" where
  "deletion_receipt_of svc en p q r authorization targets status events completed_at =
     \<lparr>dr_receipt_id = env_uuid en U_receipt, dr_tombstone_id = env_uuid en U_tombstone,
      dr_record_id = mr_record_id r, dr_namespace = mr_namespace r, dr_status = status,
      dr_tombstone_digest = tombstone_digest_of svc en p q r, dr_authorization = authorization,
      dr_reason = dlr_reason q, dr_verification_reference = dlr_verification_reference q,
      dr_projection_event_id = (case events of [] \<Rightarrow> None | e # _ \<Rightarrow> Some (ob_event_id e)),
      dr_projection_event_ids = map ob_event_id events, dr_projection_targets = targets,
      dr_requested_by = audit_subject p, dr_created_at = env_now en, dr_completed_at = completed_at\<rparr>"

text \<open>\<open>record.model_copy(update={...})\<close>: the tombstone keeps identity, temporal coordinates and links.\<close>

definition redacted :: "env \<Rightarrow> deletion_receipt \<Rightarrow> memory_state \<Rightarrow> memory_record \<Rightarrow> memory_record" where
  "redacted en receipt state r =
     r\<lparr>mr_content := ''[deleted:'' @ uuid_str (dr_tombstone_id receipt) @ '']'',
       mr_assertion := None,
       mr_provenance := (provenance_default ''verified-deletion'' (env_now en))
          \<lparr>pv_extraction_method := ''privacy-deletion/v1''\<rparr>,
       mr_evidence := [],
       mr_confidence := \<lparr>cf_score = 0, cf_method = C_EXPLICIT, cf_evidence_count = 0,
          cf_policy_version = ''confidence/v1'', cf_calibrated_at = env_wall en\<rparr>,
       mr_state := state,
       mr_tags := [''deleted'', ''privacy-tombstone''],
       mr_metadata := [(''tombstone_id'', JStr (uuid_str (dr_tombstone_id receipt))),
          (''tombstone_digest'', JStr (dr_tombstone_digest receipt)),
          (''deletion_receipt_id'', JStr (uuid_str (dr_receipt_id receipt)))],
       mr_normalized_digest := dr_tombstone_digest receipt,
       mr_original_digest := dr_tombstone_digest receipt,
       mr_consent := None\<rparr>"

definition tombstone_event ::
  "env \<Rightarrow> memory_principal \<Rightarrow> memory_record \<Rightarrow> memory_state \<Rightarrow> deletion_receipt \<Rightarrow> memory_status_event" where
  "tombstone_event en p r state receipt =
     \<lparr>se_event_id = env_uuid en (U_status 0), se_record_id = mr_record_id r,
      se_previous_state = Some (mr_state r), se_new_state = state,
      se_reason = ''verified deletion tombstoned the record'', se_actor = audit_subject p,
      se_occurred_at = env_now en, se_receipt_id = Some (dr_receipt_id receipt)\<rparr>"

definition delete_record ::
  "service \<Rightarrow> env \<Rightarrow> memory_principal \<Rightarrow> deletion_request \<Rightarrow> deletion_receipt store_op" where
  "delete_record svc en p q =
     andThen (gets (get_record (dlr_record_id q))) (\<lambda>found.
       case found of
         None \<Rightarrow> throw (StoreError ''record not found'')
       | Some r \<Rightarrow>
           andThen (check (mr_tenant_id r = mp_tenant_id p \<or> can_cross_tenant p)
             (AuthorizationError ''deletion target belongs to a different tenant'')) (\<lambda>_.
           andThen (authorize en p A_ADMIN (mr_namespace r)) (\<lambda>authorization.
           andThen (check (mr_state r \<notin> {DELETION_PENDING, DELETED})
             (AdmissionError ''verified deletion was recorded once and is not repeated'')) (\<lambda>_.
           andThen (gets (copy_holders svc (mr_record_id r))) (\<lambda>targets.
             if dlr_dry_run q
             then ret (deletion_receipt_of svc en p q r authorization targets D_DRY_RUN [] None)
             else
               (let events = erase_events en r targets;
                    status = (if targets \<noteq> [] then D_PENDING_PROJECTION else D_COMPLETE);
                    receipt = deletion_receipt_of svc en p q r authorization targets status events
                      (if targets \<noteq> [] then None else Some (env_now en));
                    state = (if targets \<noteq> [] then DELETION_PENDING else DELETED) in
                andThen (from_sum (make_status_event (tombstone_event en p r state receipt))) (\<lambda>ev.
                andThen (commit_deletion SERVICE_WRITE_CAPABILITY receipt (redacted en receipt state r) None events ev) (\<lambda>_.
                  ret receipt))))))))"

section \<open>Retention\<close>

definition archived_event ::
  "env \<Rightarrow> memory_principal \<Rightarrow> (uuid, memory_record) dict \<Rightarrow> string \<Rightarrow> nat \<times> uuid \<Rightarrow> error + memory_status_event" where
  "archived_event en p by_id reason x =
     (case dict_get by_id (snd x) of
        None \<Rightarrow> Inl (KeyError ''record_id'')
      | Some r \<Rightarrow>
          make_status_event
            \<lparr>se_event_id = env_uuid en (U_status (fst x)), se_record_id = snd x,
             se_previous_state = Some (mr_state r), se_new_state = ARCHIVED, se_reason = reason,
             se_actor = audit_subject p, se_occurred_at = env_now en,
             se_receipt_id = Some (env_uuid en U_receipt)\<rparr>)"

definition archive_retirements ::
  "service \<Rightarrow> env \<Rightarrow> string \<Rightarrow> string \<Rightarrow> store \<Rightarrow> nat \<Rightarrow> uuid \<Rightarrow> outbox_event list" where
  "archive_retirements svc en ns reason s k rid =
     target_events en k ''memory.record.retire'' rid ns
       [(''record_id'', JStr (uuid_str rid)), (''reason'', JStr reason),
        (''archive_receipt_id'', JStr (uuid_str (env_uuid en U_receipt)))]
       (copy_holders svc rid s)"

definition RETENTION_STATES :: "memory_state list" where
  "RETENTION_STATES = [ACTIVE, SUPERSEDED]"

definition apply_retention ::
  "service \<Rightarrow> retention_policy \<Rightarrow> env \<Rightarrow> memory_principal \<Rightarrow> string \<Rightarrow> bool \<Rightarrow> retention_receipt store_op" where
  "apply_retention svc rp en p ns apply =
     andThen (authorize en p (if apply then A_ARCHIVE else A_READ) ns) (\<lambda>authorization.
     andThen (gets (list_records (mp_tenant_id p) ns RETENTION_STATES (Some 100000))) (\<lambda>records.
       let decisions = retention_evaluate rp records (env_now en);
           archived = map rd_record_id (filter (\<lambda>d. rd_action d = ''archive'') decisions);
           reason = ''reference-aware retention under '' @ rp_policy_version rp;
           archive =
             \<lparr>arc_receipt_id = env_uuid en U_receipt, arc_status = O_COMPLETE, arc_namespace = ns,
              arc_applied = apply, arc_archived_record_ids = archived, arc_authorization = authorization,
              arc_reason = reason, arc_actor = audit_subject p, arc_created_at = env_now en\<rparr>;
           receipt =
             \<lparr>rr_receipt_id = env_uuid en (U_batch 0), rr_namespace = ns, rr_applied = apply,
              rr_decisions = decisions, rr_archive_receipt = archive,
              rr_policy_version = RETENTION_POLICY_VERSION, rr_created_at = env_now en\<rparr> in
       if apply \<and> archived \<noteq> [] then
         (let by_id = dict_set_all mr_record_id records [] in
          andThen (map_each (\<lambda>x. from_sum (archived_event en p by_id reason x)) (enumerate 0 archived)) (\<lambda>status_events.
          andThen (gets (\<lambda>s. extend_events (archive_retirements svc en ns reason s) 0 archived)) (\<lambda>events.
          andThen (commit_archive SERVICE_WRITE_CAPABILITY archive status_events events) (\<lambda>_.
            ret receipt))))
       else ret receipt))"

definition prune ::
  "service \<Rightarrow> retention_policy \<Rightarrow> env \<Rightarrow> memory_principal \<Rightarrow> string \<Rightarrow> bool \<Rightarrow> archive_receipt store_op" where
  "prune svc rp en p ns apply =
     andThen (apply_retention svc rp en p ns apply) (\<lambda>r. ret (rr_archive_receipt r))"

section \<open>What a deletion does\<close>

text \<open>The state a verified deletion leaves.\<close>

definition tombstoned ::
  "deletion_receipt \<Rightarrow> memory_record \<Rightarrow> outbox_event list \<Rightarrow> memory_status_event \<Rightarrow> store \<Rightarrow> store" where
  "tombstoned receipt red events ev s =
     s\<lparr>st_records := dict_set (mr_record_id red) red (st_records s),
       st_status_events := st_status_events s @ [ev],
       st_source_selectors := filter (\<lambda>(_, x). ss_record_id x \<noteq> mr_record_id red) (st_source_selectors s),
       st_deletion_receipts := dict_set (dr_receipt_id receipt) receipt (st_deletion_receipts s),
       st_outbox := dict_set_all ob_event_id events (st_outbox s)\<rparr>"

lemma commit_deletion_eq:
  assumes "mr_record_id red = dr_record_id receipt" and "se_record_id ev = dr_record_id receipt"
    and "se_new_state ev = mr_state red" and "transition_ok s ev"
  shows "commit_deletion SERVICE_WRITE_CAPABILITY receipt red None events ev s = (Inr (), tombstoned receipt red events ev s)"
proof -
  obtain r where "get_record (dr_record_id receipt) s = Some r"
    using assms(2,4) by (auto simp: transition_ok_def split: option.splits)
  with assms show ?thesis
    by (simp add: commit_deletion_def andThen_def require_service_write_capability_def check_def ret_def
        gets_def check_transition_eq modify_def put_outbox_events_def tombstoned_def drop_selectors_def)
qed

text \<open>Everything a non-dry run writes, as functions of the record and its copy holders.\<close>

definition goes_to :: "string list \<Rightarrow> memory_state" where
  "goes_to targets = (if targets \<noteq> [] then DELETION_PENDING else DELETED)"

definition live_receipt ::
  "service \<Rightarrow> env \<Rightarrow> memory_principal \<Rightarrow> deletion_request \<Rightarrow> memory_record \<Rightarrow> string list \<Rightarrow> deletion_receipt" where
  "live_receipt svc en p q r targets =
     deletion_receipt_of svc en p q r (evaluate (stamp_of en U_authorization) p A_ADMIN (mr_namespace r)) targets
       (if targets \<noteq> [] then D_PENDING_PROJECTION else D_COMPLETE) (erase_events en r targets)
       (if targets \<noteq> [] then None else Some (env_now en))"

definition deletable :: "memory_principal \<Rightarrow> memory_record \<Rightarrow> bool" where
  "deletable p r \<longleftrightarrow> (mr_tenant_id r = mp_tenant_id p \<or> mp_is_global_admin p) \<and> may p A_ADMIN (mr_namespace r)
     \<and> mr_state r \<notin> {DELETION_PENDING, DELETED}"

lemma deletion_receipt_sel [simp]:
  "dr_record_id (deletion_receipt_of svc en p q r a targets st es c) = mr_record_id r"
  "dr_receipt_id (deletion_receipt_of svc en p q r a targets st es c) = env_uuid en U_receipt"
  "dr_status (deletion_receipt_of svc en p q r a targets st es c) = st"
  "dr_projection_targets (deletion_receipt_of svc en p q r a targets st es c) = targets"
  "dr_projection_event_ids (deletion_receipt_of svc en p q r a targets st es c) = map ob_event_id es"
  "dr_tombstone_digest (deletion_receipt_of svc en p q r a targets st es c) = tombstone_digest_of svc en p q r"
  "dr_tombstone_id (deletion_receipt_of svc en p q r a targets st es c) = env_uuid en U_tombstone"
  by (simp_all add: deletion_receipt_of_def)

lemma live_receipt_sel [simp]:
  "dr_record_id (live_receipt svc en p q r targets) = mr_record_id r"
  "dr_receipt_id (live_receipt svc en p q r targets) = env_uuid en U_receipt"
  "dr_projection_targets (live_receipt svc en p q r targets) = targets"
  "dr_status (live_receipt svc en p q r targets) = (if targets \<noteq> [] then D_PENDING_PROJECTION else D_COMPLETE)"
  "dr_projection_event_ids (live_receipt svc en p q r targets) = map ob_event_id (erase_events en r targets)"
  by (simp_all add: live_receipt_def)

lemma redacted_sel [simp]:
  "mr_record_id (redacted en receipt st r) = mr_record_id r"
  "mr_state (redacted en receipt st r) = st"
  "mr_tenant_id (redacted en receipt st r) = mr_tenant_id r"
  "mr_namespace (redacted en receipt st r) = mr_namespace r"
  "mr_idempotency_key (redacted en receipt st r) = mr_idempotency_key r"
  by (simp_all add: redacted_def)

lemma tombstone_event_sel [simp]:
  "se_record_id (tombstone_event en p r st receipt) = mr_record_id r"
  "se_new_state (tombstone_event en p r st receipt) = st"
  "se_previous_state (tombstone_event en p r st receipt) = Some (mr_state r)"
  "se_actor (tombstone_event en p r st receipt) = audit_subject p"
  "se_reason (tombstone_event en p r st receipt) = ''verified deletion tombstoned the record''"
  by (simp_all add: tombstone_event_def)

definition tombstone ::
  "service \<Rightarrow> env \<Rightarrow> memory_principal \<Rightarrow> deletion_request \<Rightarrow> memory_record \<Rightarrow> string list \<Rightarrow> store \<Rightarrow> store" where
  "tombstone svc en p q r targets =
     (let receipt = live_receipt svc en p q r targets in
      tombstoned receipt (redacted en receipt (goes_to targets) r) (erase_events en r targets)
        (tombstone_event en p r (goes_to targets) receipt))"

text \<open>\<open>delete\<close> as a case distinction: it refuses, describes, or tombstones.\<close>

lemma delete_record_cases:
  assumes "mr_record_id r = dlr_record_id q" and "get_record (dlr_record_id q) s = Some r"
  shows "\<not> deletable p r \<Longrightarrow> \<exists>e. delete_record svc en p q s = (Inl e, s)"
    and "deletable p r \<Longrightarrow> dlr_dry_run q \<Longrightarrow>
      \<exists>d. delete_record svc en p q s = (Inr d, s) \<and> dr_status d = D_DRY_RUN \<and> dr_projection_targets d = copy_holders svc (dlr_record_id q) s"
    and "deletable p r \<Longrightarrow> \<not> dlr_dry_run q \<Longrightarrow> delete_record svc en p q s =
      (if len_ok 1 300 (audit_subject p)
       then (Inr (live_receipt svc en p q r (copy_holders svc (dlr_record_id q) s)),
             tombstone svc en p q r (copy_holders svc (dlr_record_id q) s) s)
       else (Inl (ValueError ''validation error for MemoryStatusEvent''), s))"
proof -
  let ?targets = "copy_holders svc (dlr_record_id q) s"
  note a = authorize_run [of en p A_ADMIN "mr_namespace r" s]
  show "\<exists>e. delete_record svc en p q s = (Inl e, s)" if "\<not> deletable p r"
    using that assms
    by (auto simp: delete_record_def andThen_def gets_def check_def ret_def throw_def a deletable_def can_cross_tenant_def)
  have tr: "transition_ok s (tombstone_event en p r (goes_to ?targets) receipt)" for receipt
    using assms by (simp add: transition_ok_def)
  show "\<exists>d. delete_record svc en p q s = (Inr d, s) \<and> dr_status d = D_DRY_RUN \<and> dr_projection_targets d = ?targets"
    if "deletable p r" "dlr_dry_run q"
    using that assms
    by (auto simp: delete_record_def andThen_def gets_def check_def ret_def a deletable_def can_cross_tenant_def)
  show "delete_record svc en p q s =
      (if len_ok 1 300 (audit_subject p) then (Inr (live_receipt svc en p q r ?targets), tombstone svc en p q r ?targets s)
       else (Inl (ValueError ''validation error for MemoryStatusEvent''), s))"
    if "deletable p r" "\<not> dlr_dry_run q"
  proof -
    have "commit_deletion SERVICE_WRITE_CAPABILITY (live_receipt svc en p q r ?targets)
        (redacted en (live_receipt svc en p q r ?targets) (goes_to ?targets) r) None (erase_events en r ?targets)
        (tombstone_event en p r (goes_to ?targets) (live_receipt svc en p q r ?targets)) s
        = (Inr (), tombstone svc en p q r ?targets s)"
      unfolding tombstone_def Let_def by (rule commit_deletion_eq) (simp_all add: tr)
    with that assms show ?thesis
      by (simp add: delete_record_def andThen_def gets_def check_def ret_def a deletable_def can_cross_tenant_def
          from_sum_def make_status_event_def len_ok_def [of "Suc 0" 2000 "''verified deletion tombstoned the record''"] Let_def live_receipt_def [symmetric]
          goes_to_def [symmetric])
  qed
qed


lemma tombstone_records [simp]:
  "get_record x (tombstone svc en p q r targets s) =
     (if x = mr_record_id r then Some (redacted en (live_receipt svc en p q r targets) (goes_to targets) r)
      else get_record x s)"
  by (simp add: tombstone_def tombstoned_def Let_def get_record_def)

lemma tombstone_sel [simp]:
  "st_projection_links (tombstone svc en p q r targets s) = st_projection_links s"
  "st_idempotency (tombstone svc en p q r targets s) = st_idempotency s"
  "st_outbox (tombstone svc en p q r targets s) = dict_set_all ob_event_id (erase_events en r targets) (st_outbox s)"
  "st_deletion_receipts (tombstone svc en p q r targets s)
     = dict_set (env_uuid en U_receipt) (live_receipt svc en p q r targets) (st_deletion_receipts s)"
  "st_source_selectors (tombstone svc en p q r targets s)
     = filter (\<lambda>(_, x). ss_record_id x \<noteq> mr_record_id r) (st_source_selectors s)"
  by (simp_all add: tombstone_def tombstoned_def Let_def)

lemma erase_events_Nil [simp]: "erase_events en r [] = []"
  by (simp add: erase_events_def target_events_def)

lemma erase_intents [simp]:
  "map intent (erase_events en r targets) = map (\<lambda>tg. (''memory.record.erase'', mr_record_id r, Some tg)) targets"
  by (simp add: erase_events_def)

text \<open>
  Property C19: a deletion is one governed tombstone. It refuses without touching the store;
  a dry run describes and touches nothing; otherwise an administrator of the record's
  namespace and tenant deleted a record not deleted before, the record is replaced by its
  tombstone, which is DELETED at once exactly when no provider holds a copy, no other record
  and no projection link changed, its source selectors are gone, the receipt is stored, and
  exactly one erasure per copy holder is owed and named by the receipt.
\<close>

theorem deletion_effect:
  assumes "store_wf s"
  shows "case delete_record svc en p q s of
      (Inl e, t) \<Rightarrow> t = s
    | (Inr d, t) \<Rightarrow>
        if dlr_dry_run q then t = s
        else (\<exists>r es. get_record (dlr_record_id q) s = Some r \<and> deletable p r
          \<and> (\<forall>x. get_record x t = (if x = dlr_record_id q then Some (redacted en d (goes_to (copy_holders svc x s)) r)
                                  else get_record x s))
          \<and> st_projection_links t = st_projection_links s
          \<and> (\<forall>x \<in> set (dict_values (st_source_selectors t)). ss_record_id x \<noteq> dlr_record_id q)
          \<and> dict_get (st_deletion_receipts t) (dr_receipt_id d) = Some d
          \<and> dr_projection_targets d = copy_holders svc (dlr_record_id q) s
          \<and> (dr_status d = D_COMPLETE \<longleftrightarrow> dr_projection_targets d = [])
          \<and> st_outbox t = dict_set_all ob_event_id es (st_outbox s)
          \<and> map intent es = map (\<lambda>tg. (''memory.record.erase'', dlr_record_id q, Some tg)) (dr_projection_targets d)
          \<and> map ob_event_id es = dr_projection_event_ids d)"
proof (cases "get_record (dlr_record_id q) s")
  case None
  then show ?thesis by (simp add: delete_record_def andThen_def gets_def throw_def)
next
  case (Some r)
  have rid: "mr_record_id r = dlr_record_id q" using get_record_id [OF assms Some] .
  note c = delete_record_cases [OF rid Some]
  show ?thesis
  proof (cases "deletable p r \<and> \<not> dlr_dry_run q \<and> len_ok 1 300 (audit_subject p)")
    case True
    let ?h = "copy_holders svc (dlr_record_id q) s"
    have "delete_record svc en p q s = (Inr (live_receipt svc en p q r ?h), tombstone svc en p q r ?h s)"
      using c(3) True by (simp split: if_splits)
    moreover have "\<forall>x \<in> set (dict_values (st_source_selectors (tombstone svc en p q r ?h s))). ss_record_id x \<noteq> dlr_record_id q"
      using rid by auto
    ultimately show ?thesis
      using True Some rid by (auto intro!: exI [where x = "erase_events en r ?h"])
  next
    case False
    then consider (no) "\<not> deletable p r" | (dry) "deletable p r" "dlr_dry_run q"
      | (long) "deletable p r" "\<not> dlr_dry_run q" "\<not> len_ok 1 300 (audit_subject p)" by blast
    then show ?thesis
    proof cases
      case no
      from c(1) [OF this, of svc en] show ?thesis by auto
    next
      case dry
      from c(2) [OF this, of svc en] dry show ?thesis by auto
    next
      case long
      from c(3) [OF long(1,2), of svc en] long(3) show ?thesis by simp
    qed
  qed
qed

text \<open>
  Two versions of a record that differ only in what a deletion must forget: content,
  assertion, provenance, evidence, confidence, tags, metadata, digests and consent.
\<close>

definition same_identity :: "memory_record \<Rightarrow> memory_record \<Rightarrow> bool" where
  "same_identity r r' \<longleftrightarrow>
     r' = r\<lparr>mr_content := mr_content r', mr_assertion := mr_assertion r', mr_provenance := mr_provenance r',
        mr_evidence := mr_evidence r', mr_confidence := mr_confidence r', mr_tags := mr_tags r',
        mr_metadata := mr_metadata r', mr_normalized_digest := mr_normalized_digest r',
        mr_original_digest := mr_original_digest r', mr_consent := mr_consent r'\<rparr>"

lemma same_identity_sel:
  assumes "same_identity r r'"
  shows "mr_record_id r' = mr_record_id r" "mr_tenant_id r' = mr_tenant_id r" "mr_namespace r' = mr_namespace r"
    "mr_state r' = mr_state r" "redacted en d st r' = redacted en d st r"
  using arg_cong [OF assms [unfolded same_identity_def], of mr_record_id]
    arg_cong [OF assms [unfolded same_identity_def], of mr_tenant_id]
    arg_cong [OF assms [unfolded same_identity_def], of mr_namespace]
    arg_cong [OF assms [unfolded same_identity_def], of mr_state]
    arg_cong [OF assms [unfolded same_identity_def], of "redacted en d st"]
  by (simp_all add: redacted_def)

lemma same_identity_tombstone:
  assumes "same_identity r r'"
  shows "tombstone svc en p q r' targets = tombstone svc en p q r targets"
    "live_receipt svc en p q r' targets = live_receipt svc en p q r targets"
    "deletable p r' = deletable p r"
  using same_identity_sel [OF assms]
  by (simp_all add: tombstone_def live_receipt_def erase_events_def tombstone_event_def deletion_receipt_of_def
      tombstone_digest_of_def deletable_def)

lemma dict_set_twice: "dict_set k a (dict_set k b d) = dict_set k a d"
  by (induction d) auto

lemma tombstone_overwrites:
  assumes "mr_record_id r = k"
    and "filter (\<lambda>(_, x). ss_record_id x \<noteq> k) sels = filter (\<lambda>(_, x). ss_record_id x \<noteq> k) (st_source_selectors s)"
  shows "tombstone svc en p q r targets (s\<lparr>st_records := dict_set k v (st_records s), st_source_selectors := sels\<rparr>)
    = tombstone svc en p q r targets s"
  using assms by (simp add: tombstone_def tombstoned_def Let_def dict_set_twice)

text \<open>
  Property C18: a deletion forgets. What a deletion returns and every part of the store it
  leaves depend only on the identity of the record: whatever content, assertion, evidence,
  provenance, metadata or consent the record had, and whatever source selectors had been
  derived from it, the receipt and the store afterwards are the same.
\<close>

theorem deletion_forgets:
  assumes "get_record (dlr_record_id q) s = Some r" and "mr_record_id r = dlr_record_id q" and "same_identity r r'"
    and "filter (\<lambda>(_, x). ss_record_id x \<noteq> dlr_record_id q) sels
       = filter (\<lambda>(_, x). ss_record_id x \<noteq> dlr_record_id q) (st_source_selectors s)"
    and "delete_record svc en p q s = (Inr d, t)" and "\<not> dlr_dry_run q"
  shows "delete_record svc en p q
    (s\<lparr>st_records := dict_set (dlr_record_id q) r' (st_records s), st_source_selectors := sels\<rparr>) = (Inr d, t)"
proof -
  let ?s = "s\<lparr>st_records := dict_set (dlr_record_id q) r' (st_records s), st_source_selectors := sels\<rparr>"
  note c = delete_record_cases [OF assms(2,1)]
  have del: "deletable p r" using c(1) [of p svc en] assms(5) by fastforce
  have len: "len_ok 1 300 (audit_subject p)" using c(3) [OF del assms(6)] assms(5) by (auto split: if_splits)
  let ?h = "copy_holders svc (dlr_record_id q) s"
  from c(3) [OF del assms(6)] len assms(5) have d: "d = live_receipt svc en p q r ?h" "t = tombstone svc en p q r ?h s"
    by simp_all
  have h: "copy_holders svc (dlr_record_id q) ?s = ?h"
    by (simp add: copy_holders_def list_projection_links_def)
  have rid: "mr_record_id r' = dlr_record_id q" using same_identity_sel(1) [OF assms(3)] assms(2) by simp
  have found: "get_record (dlr_record_id q) ?s = Some r'" by (simp add: get_record_def)
  have "delete_record svc en p q ?s = (Inr (live_receipt svc en p q r' ?h), tombstone svc en p q r' ?h ?s)"
    using delete_record_cases(3) [OF rid found] del assms(6) len by (simp add: h same_identity_tombstone [OF assms(3)])
  also have "\<dots> = (Inr d, t)"
    using tombstone_overwrites [OF assms(2,4)] by (simp add: d same_identity_tombstone [OF assms(3)])
  finally show ?thesis .
qed

section \<open>What retention does\<close>

lemma listed_records:
  assumes "store_wf s"
  shows "r \<in> set (list_records tenant ns states bound s) \<Longrightarrow>
      get_record (mr_record_id r) s = Some r \<and> mr_tenant_id r = tenant \<and> mr_namespace r = ns
      \<and> (states = [] \<or> mr_state r \<in> set states)"
    and "distinct (map mr_record_id (list_records tenant ns states bound s))"
proof -
  let ?P = "\<lambda>r. mr_tenant_id r = tenant \<and> mr_namespace r = ns \<and> (states = [] \<or> mr_state r \<in> set states)"
  let ?all = "filter ?P (dict_values (st_records s))"
  have k: "keyed mr_record_id (st_records s)" using assms by (simp add: store_wf_def store_keyed_def)
  have "distinct (map mr_record_id ?all)"
    using keyed_distinct [OF k] by (simp add: distinct_map_filter)
  moreover have "mset (map mr_record_id (by_recency xs)) = mset (map mr_record_id xs)" for xs
    by (simp add: by_recency_def sort_desc_def)
  ultimately have "distinct (map mr_record_id (by_recency ?all))"
    using mset_eq_imp_distinct_iff by blast
  then show "distinct (map mr_record_id (list_records tenant ns states bound s))"
  proof (cases bound)
    case None
    with \<open>distinct (map mr_record_id (by_recency ?all))\<close> show ?thesis by (simp add: list_records_def)
  next
    case (Some n)
    then have "map mr_record_id (list_records tenant ns states bound s) = take n (map mr_record_id (by_recency ?all))"
      by (simp add: list_records_def take_map)
    with \<open>distinct (map mr_record_id (by_recency ?all))\<close> show ?thesis by simp
  qed
  show "get_record (mr_record_id r) s = Some r \<and> mr_tenant_id r = tenant \<and> mr_namespace r = ns
      \<and> (states = [] \<or> mr_state r \<in> set states)" if "r \<in> set (list_records tenant ns states bound s)"
  proof -
    have "r \<in> set ?all"
      using that by (cases bound) (auto simp: list_records_def Let_def simp del: set_filter dest: in_set_takeD)
    then have "r \<in> set (dict_values (st_records s))" "?P r" by auto
    then show ?thesis using keyed_values [OF k] by (simp add: get_record_def)
  qed
qed

lemma archived_events:
  "map_each (\<lambda>x. from_sum (archived_event en p by_id reason x)) (enumerate k ids) s = (Inr es, t) \<Longrightarrow>
     t = s \<and> map se_record_id es = ids \<and> (\<forall>e \<in> set es. se_new_state e = ARCHIVED)"
proof (induction ids arbitrary: k es)
  case Nil
  then show ?case by simp
next
  case (Cons rid ids)
  then obtain e es' where e: "archived_event en p by_id reason (k, rid) = Inr e" and es: "es = e # es'"
    and rest: "map_each (\<lambda>x. from_sum (archived_event en p by_id reason x)) (enumerate (Suc k) ids) s = (Inr es', t)"
    by (auto simp: andThen_Inr dest: sym)
  from e have "se_record_id e = rid" "se_new_state e = ARCHIVED"
    by (auto simp: archived_event_def make_status_event_def split: option.splits if_splits)
  with Cons.IH [OF rest] es show ?case by simp
qed

definition archived_by :: "retention_policy \<Rightarrow> instant \<Rightarrow> memory_record list \<Rightarrow> uuid list" where
  "archived_by rp now rs = map rd_record_id (filter (\<lambda>d. rd_action d = ''archive'') (retention_evaluate rp rs now))"

lemma archived_by_eq:
  "archived_by rp now rs
     = map mr_record_id (filter (\<lambda>r. rd_action (retention_decide rp (reference_counts rs) now r) = ''archive'') rs)"
  by (simp add: archived_by_def retention_evaluate_def filter_map comp_def)
     (simp add: retention_decide_def Let_def)

lemma distinct_archived_by: "distinct (map mr_record_id rs) \<Longrightarrow> distinct (archived_by rp now rs)"
  by (simp add: archived_by_eq distinct_map_filter)

text \<open>What the policy archives, in terms of the records it looked at.\<close>

definition may_archive :: "retention_policy \<Rightarrow> instant \<Rightarrow> memory_record list \<Rightarrow> memory_record \<Rightarrow> bool" where
  "may_archive rp now rs r \<longleftrightarrow>
     rp_archive_expired_records rp \<and> mr_memory_class r \<notin> set (rp_never_archive_classes rp)
     \<and> (\<exists>e. valid_to (mr_temporal r) = Some e \<and> e \<le> now)
     \<and> (\<forall>q \<in> set rs. mr_record_id r \<notin> set (mr_references q) \<union> set (mr_supersedes q) \<union> set (mr_conflicts_with q))"

lemma archived_by_iff:
  "rid \<in> set (archived_by rp now rs) \<longleftrightarrow> (\<exists>r \<in> set rs. mr_record_id r = rid \<and> may_archive rp now rs r)"
  using retention_archives_exactly [of _ rs rp now] by (auto simp: archived_by_eq may_archive_def)

lemma archive_intents:
  "map intent (extend_events (archive_retirements svc en ns reason s) k rids)
     = concat (map (\<lambda>rid. map (\<lambda>tg. (''memory.record.retire'', rid, Some tg)) (copy_holders svc rid s)) rids)"
  by (rule extend_events_intents) (simp add: archive_retirements_def)

lemma commit_archive_atomic:
  assumes "distinct (map se_record_id es)" and "commit_archive cap receipt es os s = (x, t)"
  shows "case x of
      Inl e \<Rightarrow> t = s
    | Inr u \<Rightarrow> (\<forall>e \<in> set es. transition_ok s e) \<and> set (map se_record_id es) = set (arc_archived_record_ids receipt)
        \<and> st_outbox t = dict_set_all ob_event_id os (st_outbox s) \<and> st_projection_links t = st_projection_links s
        \<and> (\<forall>rid. get_record rid t = get_record rid (after_transitions es s))"
proof -
  let ?s1 = "s\<lparr>st_archive_receipts := dict_set (arc_receipt_id receipt) receipt (st_archive_receipts s)\<rparr>"
  show ?thesis
  proof (cases "cap = SERVICE_WRITE_CAPABILITY \<and> arc_applied receipt \<and> set (map se_record_id es) = set (arc_archived_record_ids receipt)
      \<and> (\<forall>e \<in> set es. transition_ok s e)")
    case False
    then have "\<exists>e. commit_archive cap receipt es os s = (Inl e, s)"
    proof (cases "cap = SERVICE_WRITE_CAPABILITY \<and> arc_applied receipt \<and> set (map se_record_id es) = set (arc_archived_record_ids receipt)")
      case ok: True
      with False obtain e where "check_transitions es s = (Inl e, s)"
        using check_transitions_fails by blast
      with ok show ?thesis
        by (simp add: commit_archive_def require_service_write_capability_def andThen_def check_def ret_def)
    next
      case False
      then show ?thesis
        by (auto simp: commit_archive_def require_service_write_capability_def andThen_def check_def ret_def throw_def)
    qed
    with assms(2) show ?thesis by auto
  next
    case True
    have ok: "\<forall>e \<in> set es. transition_ok ?s1 e" using True by (simp add: transition_ok_def get_record_def)
    have c: "check_transitions es s = (Inr (), s)" using True by simp
    have get: "get_record rid (after_transitions es ?s1) = get_record rid (after_transitions es s)" for rid
    proof -
      have "get_record rid ?s1 = get_record rid s" by (simp add: get_record_def)
      then show ?thesis using True ok assms(1) by (simp add: get_record_after_transitions split: option.split)
    qed
    have fr: "st_outbox (after_transitions es ?s1) = st_outbox s" "st_projection_links (after_transitions es ?s1) = st_projection_links s"
      by (subst after_transitions_frame, simp)+
    have "commit_archive cap receipt es os s
        = (Inr (), (after_transitions es ?s1)\<lparr>st_outbox := dict_set_all ob_event_id os (st_outbox s)\<rparr>)"
      using True apply_transitions_ok [OF ok assms(1)]
      by (simp add: commit_archive_def require_service_write_capability_def andThen_def check_def ret_def c
          modify_def put_outbox_events_def fr)
    with assms(2) True get fr show ?thesis by (auto simp: get_record_def)
  qed
qed

lemma archived_transitions:
  assumes "\<forall>e \<in> set es. transition_ok s e \<and> se_new_state e = ARCHIVED" and "distinct (map se_record_id es)"
  shows "get_record rid (after_transitions es s)
     = (if rid \<in> se_record_id ` set es then map_option (\<lambda>r. r\<lparr>mr_state := ARCHIVED\<rparr>) (get_record rid s) else get_record rid s)"
proof -
  have "transitioned e r = r\<lparr>mr_state := ARCHIVED\<rparr>" if "e \<in> set es" for e r
    using assms(1) that by (simp add: transitioned_def)
  then show ?thesis
    using assms by (auto simp: get_record_after_transitions find_Some_iff find_None_iff split: option.splits
        intro!: option.map_cong dest!: nth_mem)
qed

text \<open>\<open>apply_retention\<close> as a case distinction: it refuses, describes, or commits the archive.\<close>

definition expired_ids :: "retention_policy \<Rightarrow> env \<Rightarrow> memory_principal \<Rightarrow> string \<Rightarrow> store \<Rightarrow> uuid list" where
  "expired_ids rp en p ns s =
     archived_by rp (env_now en) (list_records (mp_tenant_id p) ns RETENTION_STATES (Some 100000) s)"

definition expiry_event ::
  "env \<Rightarrow> memory_principal \<Rightarrow> string \<Rightarrow> store \<Rightarrow> string \<Rightarrow> nat \<times> uuid \<Rightarrow> memory_status_event store_op" where
  "expiry_event en p ns s reason = (\<lambda>x. from_sum (archived_event en p
     (dict_set_all mr_record_id (list_records (mp_tenant_id p) ns RETENTION_STATES (Some 100000) s) []) reason x))"

lemma apply_retention_cases:
  assumes run: "apply_retention svc rp en p ns apply s = (x, t)"
  obtains (fails) e where "x = Inl e" "t = s"
    | (reads) receipt where "x = Inr receipt" "t = s" "arc_archived_record_ids (rr_archive_receipt receipt) = expired_ids rp en p ns s"
        "\<not> apply \<or> expired_ids rp en p ns s = []" "apply \<longrightarrow> may p A_ARCHIVE ns"
    | (commits) reason es archive y where "apply" "may p A_ARCHIVE ns" "arc_archived_record_ids archive = expired_ids rp en p ns s"
        "map_each (expiry_event en p ns s reason) (enumerate 0 (expired_ids rp en p ns s)) s = (Inr es, s)"
        "commit_archive SERVICE_WRITE_CAPABILITY archive es
           (extend_events (archive_retirements svc en ns reason s) 0 (expired_ids rp en p ns s)) s = (y, t)"
        "case y of Inl e \<Rightarrow> x = Inl e | Inr _ \<Rightarrow> (\<exists>receipt. x = Inr receipt \<and> rr_archive_receipt receipt = archive)"
proof (cases "may p (if apply then A_ARCHIVE else A_READ) ns")
  case False
  with run show thesis by (intro fails) (auto simp: apply_retention_def andThen_def authorize_run)
next
  case may: True
  show thesis
  proof (cases "apply \<and> expired_ids rp en p ns s \<noteq> []")
    case False
    with may run have "\<exists>receipt. x = Inr receipt \<and> t = s \<and> arc_archived_record_ids (rr_archive_receipt receipt) = expired_ids rp en p ns s"
      by (auto simp: apply_retention_def andThen_def authorize_run gets_def ret_def Let_def
          archived_by_def expired_ids_def expiry_event_def split: if_splits)
    with False may show thesis by (auto intro: reads)
  next
    case True
    define reason where "reason = ''reference-aware retention under '' @ rp_policy_version rp"
    obtain z u where m: "map_each (expiry_event en p ns s reason) (enumerate 0 (expired_ids rp en p ns s)) s = (z, u)" by fastforce
    have "reads_only (map_each (expiry_event en p ns s reason) (enumerate 0 (expired_ids rp en p ns s)))"
      by (rule reads_only_map_each) (simp add: expiry_event_def)
    with m have u: "u = s" by (blast dest: reads_onlyD)
    show thesis
    proof (cases z)
      case (Inl e)
      with m u True may run show thesis
        by (intro fails) (auto simp: apply_retention_def andThen_def authorize_run gets_def Let_def
            archived_by_def expired_ids_def expiry_event_def reason_def)
    next
      case (Inr es)
      define archive where "archive =
           \<lparr>arc_receipt_id = env_uuid en U_receipt, arc_status = O_COMPLETE, arc_namespace = ns,
            arc_applied = apply, arc_archived_record_ids = expired_ids rp en p ns s,
            arc_authorization = evaluate (stamp_of en U_authorization) p A_ARCHIVE ns,
            arc_reason = reason, arc_actor = audit_subject p, arc_created_at = env_now en\<rparr>"
      obtain y v where k: "commit_archive SERVICE_WRITE_CAPABILITY archive es
         (extend_events (archive_retirements svc en ns reason s) 0 (expired_ids rp en p ns s)) s = (y, v)" by fastforce
      from m Inr u True may run k have "v = t \<and> (case y of Inl e \<Rightarrow> x = Inl e
          | Inr _ \<Rightarrow> (\<exists>receipt. x = Inr receipt \<and> rr_archive_receipt receipt = archive))"
        by (cases y) (auto simp: apply_retention_def andThen_def authorize_run gets_def ret_def Let_def
            archived_by_def expired_ids_def expiry_event_def reason_def archive_def)
      with m Inr u True may k show thesis
        by (intro commits [of archive reason es y]) (auto simp: archive_def)
    qed
  qed
qed

text \<open>
  Retention archives exactly what it may. Applied retention by a caller with
  archive authority moves to ARCHIVED exactly the listed records that expired, are of no
  protected class and that no listed record refers to; their content is untouched, no other
  record and no link changes, and every copy holder of every archived record is owed one
  retirement. Without \<open>apply\<close>, or on an error, nothing changes.
\<close>

theorem retention_effect:
  assumes "store_wf s"
  shows "case apply_retention svc rp en p ns apply s of
      (Inl e, t) \<Rightarrow> t = s
    | (Inr receipt, t) \<Rightarrow>
        let rs = list_records (mp_tenant_id p) ns RETENTION_STATES (Some 100000) s;
            ids = arc_archived_record_ids (rr_archive_receipt receipt) in
        (\<forall>rid. rid \<in> set ids \<longleftrightarrow> (\<exists>r \<in> set rs. mr_record_id r = rid \<and> may_archive rp (env_now en) rs r))
        \<and> distinct ids
        \<and> (if \<not> apply then t = s
           else may p A_ARCHIVE ns
             \<and> (\<forall>rid. get_record rid t = (if rid \<in> set ids then map_option (\<lambda>r. r\<lparr>mr_state := ARCHIVED\<rparr>) (get_record rid s)
                                          else get_record rid s))
             \<and> st_projection_links t = st_projection_links s
             \<and> (\<exists>es. st_outbox t = dict_set_all ob_event_id es (st_outbox s)
                  \<and> map intent es = concat (map (\<lambda>rid. map (\<lambda>tg. (''memory.record.retire'', rid, Some tg))
                      (copy_holders svc rid s)) ids)))"
proof -
  let ?rs = "list_records (mp_tenant_id p) ns RETENTION_STATES (Some 100000) s"
  let ?ids = "expired_ids rp en p ns s"
  have d: "distinct ?ids" unfolding expired_ids_def by (rule distinct_archived_by) (rule listed_records(2) [OF assms])
  have iff: "\<forall>rid. rid \<in> set ?ids \<longleftrightarrow> (\<exists>r \<in> set ?rs. mr_record_id r = rid \<and> may_archive rp (env_now en) ?rs r)"
    by (simp add: expired_ids_def archived_by_iff)
  obtain x t where run: "apply_retention svc rp en p ns apply s = (x, t)" by fastforce
  from run show ?thesis
  proof (cases rule: apply_retention_cases)
    case fails
    with run show ?thesis by simp
  next
    case (reads receipt)
    then show ?thesis
      unfolding run reads(1,2) prod.case sum.case Let_def reads(3)
      using iff d by (cases "apply") (simp_all add: archived_by_def expired_ids_def)
  next
    case (commits reason es archive y)
    note ev = archived_events [OF commits(4) [unfolded expiry_event_def]]
    with d have d': "distinct (map se_record_id es)" by simp
    note c = commit_archive_atomic [OF d' commits(5)]
    show ?thesis
    proof (cases y)
      case (Inl e)
      with c commits(6) run show ?thesis by simp
    next
      case (Inr u)
      from Inr commits(6) obtain receipt where r: "x = Inr receipt" "rr_archive_receipt receipt = archive" by auto
      have ids: "se_record_id ` set es = set ?ids" using ev by (metis set_map)
      have t: "\<forall>e \<in> set es. transition_ok s e \<and> se_new_state e = ARCHIVED" using Inr c ev by simp
      have "get_record rid t = (if rid \<in> set ?ids then map_option (\<lambda>r. r\<lparr>mr_state := ARCHIVED\<rparr>) (get_record rid s)
          else get_record rid s)" for rid
        using Inr c archived_transitions [OF t d'] ids by simp
      moreover have "\<exists>es'. st_outbox t = dict_set_all ob_event_id es' (st_outbox s)
          \<and> map intent es' = concat (map (\<lambda>rid. map (\<lambda>tg. (''memory.record.retire'', rid, Some tg)) (copy_holders svc rid s)) ?ids)"
        using Inr c by (intro exI [of _ "extend_events (archive_retirements svc en ns reason s) 0 ?ids"])
          (simp add: archive_intents)
      moreover have "st_projection_links t = st_projection_links s" using Inr c by simp
      ultimately show ?thesis
        unfolding run r prod.case sum.case Let_def commits(3) using iff d commits(1,2) by simp
    qed
  qed
qed

end
