(* ===== verification/WorkerLaws.thy ===== *)
theory WorkerLaws
  imports OutboxWorker OutboxLaws
begin

text \<open>
  What the outbox worker guarantees: a batch accounts for every event it claimed, an event is
  settled after a bounded number of attempts, and the projection links describe the copies
  the providers hold.
\<close>

section \<open>Operations of the worker\<close>

lemma on_store_Inr [simp]: "on_store m x = (Inr y, z) \<longleftrightarrow> (\<exists>t. m (fst x) = (Inr y, t) \<and> z = (t, snd x))"
  by (cases "m (fst x)") (auto simp: on_store_def)

lemma on_store_Inl [simp]: "on_store m x = (Inl e, z) \<longleftrightarrow> (\<exists>t. m (fst x) = (Inl e, t) \<and> z = (t, snd x))"
  by (cases "m (fst x)") (auto simp: on_store_def)

lemma provider_call_eq:
  "provider_call pv f x = (r, z) \<longleftrightarrow> r = fst (f (snd x)) \<and> z = (pv_meanwhile pv (snd (f (snd x))) (fst x), snd (f (snd x)))"
  by (cases "f (snd x)") (auto simp: provider_call_def)

lemma keeps_on_store [keeps_intros]: "keeps P m \<Longrightarrow> keeps (\<lambda>x. P (fst x)) (on_store m)"
  by (auto simp: keeps_def on_store_def split: prod.splits)

lemma keeps_provider_call [keeps_intros]:
  "(\<And>w s. P s \<Longrightarrow> P (pv_meanwhile pv w s)) \<Longrightarrow> keeps (\<lambda>x. P (fst x)) (provider_call pv f)"
  by (auto simp: keeps_def provider_call_def split: prod.splits)

lemma keeps_andThen_world [keeps_intros]:
  "keeps P m \<Longrightarrow> (\<And>x. keeps P (f x)) \<Longrightarrow> keeps P (andThen m f)"
  by (rule keeps_andThen)

section \<open>Accounting\<close>

lemma update_outbox_Inl: "update_outbox eid st att nxt err del lease s = (Inl e, t) \<Longrightarrow> is_store_error e \<and> t = s"
  by (auto simp: update_outbox_def andThen_Inl split: option.splits)

lemma settle_total: "\<exists>b t. settle e st att nxt err del x = (Inr b, t)"
proof -
  obtain r t where u: "update_outbox (ob_event_id e) st att nxt err del (ob_lease_id e) (fst x) = (r, t)" by fastforce
  then show ?thesis
    by (cases r) (auto simp: settle_def try_catch_def andThen_def on_store_def ret_def dest!: update_outbox_Inl)
qed

lemma failed_total: "\<exists>out t. failed_event wk now e x z = (Inr out, t)"
  using settle_total unfolding failed_event_def Let_def andThen_def ret_def by (metis (no_types, lifting) case_prod_conv sum.case(2))

lemma process_total: "\<exists>out t. process_event wk en x z = (Inr out, t)"
proof -
  obtain r u where d: "deliver_event wk en (fst x) (snd x) z = (r, u)" by (meson surj_pair)
  show ?thesis
  proof (cases r)
    case (Inl e)
    with d have "process_event wk en x z = failed_event wk (env_now en) (snd x) e u"
      by (simp add: process_event_def try_catch_def andThen_def)
    with failed_total show ?thesis by metis
  next
    case (Inr v)
    obtain b t where "settle (snd x) X_DELIVERED (ob_attempts (snd x) + 1) (env_now en) None (Some (env_now en)) u = (Inr b, t)"
      using settle_total by blast
    with d Inr have "process_event wk en x z = (Inr (if b then Delivered else Lease_Lost), t)"
      by (simp add: process_event_def try_catch_def andThen_def ret_def)
    then show ?thesis by blast
  qed
qed

lemma process_all_total:
  "\<exists>outs t. map_each (process_event wk en) xs z = (Inr outs, t) \<and> length outs = length xs"
proof (induction xs arbitrary: z)
  case Nil
  then show ?case by (simp add: ret_def)
next
  case (Cons x xs)
  from process_total [of wk en x z] obtain out u where p: "process_event wk en x z = (Inr out, u)" by blast
  from Cons.IH [of u] obtain outs t where "map_each (process_event wk en) xs u = (Inr outs, t)" "length outs = length xs"
    by blast
  with p show ?case by (simp add: andThen_def ret_def)
qed

lemma tally_sum: "rr_claimed (tally os) = rr_delivered (tally os) + rr_retried (tally os) + rr_dead (tally os) + rr_lease_lost (tally os)"
proof (induction os)
  case Nil
  then show ?case by (simp add: tally_def)
next
  case (Cons x os)
  then show ?case by (cases x) (simp_all add: tally_def)
qed

text \<open>
  A batch never fails and accounts for what it claimed: whatever the providers
  do, \<open>run_once\<close> returns, it claimed exactly the due events the store hands out (none without
  targets), and each is counted once as delivered, retried, dead or lost to another worker.
\<close>

theorem worker_batch_accounts:
  "\<exists>rep z'. run_once wk en z = (Inr rep, z')
     \<and> rr_claimed rep = rr_delivered rep + rr_retried rep + rr_dead rep + rr_lease_lost rep
     \<and> rr_claimed rep = (if rt_targets (wk_runtime wk) = [] then 0
         else length (claim_batch (wk_batch_size wk) (env_now en) (fst z)))"
proof (cases "rt_targets (wk_runtime wk) = []")
  case True
  then show ?thesis by (simp add: run_once_def ret_def tally_def)
next
  case False
  let ?claim = "claim_outbox (\<lambda>i. env_uuid en (U_event i)) (wk_batch_size wk) (env_now en) (wk_lease_seconds wk) (wk_id wk) :: outbox_event list store_op"
  obtain evs t where c: "?claim (fst z) = (Inr evs, t)" and l: "length evs = length (claim_batch (wk_batch_size wk) (env_now en) (fst z))"
    by (simp add: claim_outbox_def Let_def)
  from process_all_total [of wk en "enumerate 0 evs" "(t, snd z)"] obtain outs u where
    p: "map_each (process_event wk en) (enumerate 0 evs) (t, snd z) = (Inr outs, u)" "length outs = length evs" by (metis length_enumerate)
  have "run_once wk en z = (Inr (tally outs), u)"
    using False c p(1) by (simp add: run_once_def andThen_def on_store_def ret_def)
  with tally_sum [of outs] p(2) l False show ?thesis by (auto simp: tally_def)
qed

section \<open>Only settling touches the outbox\<close>

definition settled_status :: "outbox_event \<Rightarrow> bool" where
  "settled_status e \<longleftrightarrow> ob_status e \<in> {X_DELIVERED, X_DEAD}"

definition held_by :: "string \<Rightarrow> outbox_event \<Rightarrow> bool" where
  "held_by me e \<longleftrightarrow> ob_status e = X_PROCESSING \<and> ob_lease_owner e = Some me"

text \<open>
  What other processes may do to an event while this worker runs: they leave it alone when it is
  settled or under this worker's lease; otherwise they may lease it, settle it, or attempt it
  and give it back while attempts are left, and never take attempts back.
\<close>

definition event_progress :: "'w worker \<Rightarrow> outbox_event \<Rightarrow> outbox_event \<Rightarrow> bool" where
  "event_progress wk e e' \<longleftrightarrow>
     (settled_status e \<or> held_by (wk_id wk) e \<longrightarrow> e' = e) \<and> ob_attempts e \<le> ob_attempts e'
   \<and> (settled_status e' \<or> ob_attempts e' = ob_attempts e \<or> ob_attempts e' < wk_max_attempts wk)"

text \<open>Events may be added, and none is taken away.\<close>

definition outbox_progress :: "'w worker \<Rightarrow> (uuid, outbox_event) dict \<Rightarrow> (uuid, outbox_event) dict \<Rightarrow> bool" where
  "outbox_progress wk o1 o2 \<longleftrightarrow>
     (keyed ob_event_id o1 \<longrightarrow> keyed ob_event_id o2)
   \<and> (\<forall>eid e. dict_get o1 eid = Some e \<longrightarrow> (\<exists>e'. dict_get o2 eid = Some e' \<and> event_progress wk e e'))"

definition others_progress :: "'w worker \<Rightarrow> bool" where
  "others_progress wk \<longleftrightarrow>
     (\<forall>w s. outbox_progress wk (st_outbox s) (st_outbox (pv_meanwhile (wk_provider wk) w s)))"

lemma event_progress_refl [simp]: "event_progress wk e e"
  by (simp add: event_progress_def)

lemma event_progress_trans: "event_progress wk a b \<Longrightarrow> event_progress wk b c \<Longrightarrow> event_progress wk a c"
  by (auto simp: event_progress_def)

lemma outbox_progress_refl [simp]: "outbox_progress wk ob ob"
  by (simp add: outbox_progress_def)

lemma outbox_progress_trans: "outbox_progress wk a b \<Longrightarrow> outbox_progress wk b c \<Longrightarrow> outbox_progress wk a c"
  unfolding outbox_progress_def by (meson event_progress_trans)

abbreviation outbox_is :: "(uuid, outbox_event) dict \<Rightarrow> store \<Rightarrow> bool" where
  "outbox_is ob \<equiv> \<lambda>s. st_outbox s = ob"

lemma outbox_frame:
  "keeps (outbox_is ob) (save_projection_link l)"
  "keeps (outbox_is ob) (delete_projection_link rid tg)"
  "keeps (outbox_is ob) (save_projection_retirement rr)"
  "keeps (outbox_is ob) (apply_transition ev)"
  by (auto simp: keeps_def save_projection_link_def delete_projection_link_def save_projection_retirement_def
      apply_transition_def check_transition_def op_defs split: option.splits sum.splits prod.splits)

lemma outbox_frame_composite:
  "keeps (outbox_is ob) (save_projection_link_if_active l prev)"
  "keeps (outbox_is ob) (retain_stale_link l b now)"
  "keeps (outbox_is ob) (drop_live_copy l now pending)"
  "keeps (outbox_is ob) (complete_deletion eid rid rcid now actor)"
  unfolding save_projection_link_if_active_def retain_stale_link_def drop_live_copy_def complete_deletion_def Let_def
  by (auto intro!: keeps_intros outbox_frame split: option.splits prod.splits)

text \<open>A step that keeps the outbox keeps whatever is said of it.\<close>

abbreviation progressed :: "'w worker \<Rightarrow> (uuid, outbox_event) dict \<Rightarrow> store \<Rightarrow> bool" where
  "progressed wk ob \<equiv> \<lambda>s. outbox_progress wk ob (st_outbox s)"

lemma keeps_progressed:
  assumes "\<And>ob. keeps (outbox_is ob) m" shows "keeps (progressed wk ob) m"
  using assms unfolding keeps_def by simp

lemmas progress_frame [keeps_intros] =
  outbox_frame [THEN keeps_progressed] outbox_frame_composite [THEN keeps_progressed]

lemma progress_call [keeps_intros]:
  assumes "others_progress wk"
  shows "keeps (\<lambda>x. outbox_progress wk ob (st_outbox (fst x))) (provider_call (wk_provider wk) f)"
proof (rule keeps_provider_call)
  fix w s assume "progressed wk ob s"
  with assms show "progressed wk ob (pv_meanwhile (wk_provider wk) w s)"
    unfolding others_progress_def using outbox_progress_trans by blast
qed

lemma progress_store [keeps_intros]:
  "keeps (progressed wk ob) m \<Longrightarrow> keeps (\<lambda>x. outbox_progress wk ob (st_outbox (fst x))) (on_store m)"
  by (rule keeps_on_store)

lemma progress_install [keeps_intros]:
  "others_progress wk \<Longrightarrow> keeps (\<lambda>x. outbox_progress wk ob (st_outbox (fst x))) (install_link wk r b loc m d now k)"
  by (induction k) (auto simp: Let_def intro!: keeps_intros split: error.splits)

lemma progress_handlers [keeps_intros]:
  assumes "others_progress wk"
  shows "keeps (\<lambda>x. outbox_progress wk ob (st_outbox (fst x))) (project_event wk now e b)"
    "keeps (\<lambda>x. outbox_progress wk ob (st_outbox (fst x))) (retire_event wk rid now e b)"
    "keeps (\<lambda>x. outbox_progress wk ob (st_outbox (fst x))) (erase_event wk sid now e b)"
  unfolding project_event_def retire_event_def erase_event_def erase_copy_def withdraw_fresh_def deliver_copy_def Let_def
  by (auto intro!: keeps_intros assms split: option.splits)

lemma deliver_progress:
  assumes "others_progress wk" and "deliver_event wk en n e z = (r, u)"
  shows "outbox_progress wk (st_outbox (fst z)) (st_outbox (fst u))"
proof -
  have "keeps (\<lambda>x. outbox_progress wk (st_outbox (fst z)) (st_outbox (fst x))) (deliver_event wk en n e)"
    unfolding deliver_event_def by (auto intro!: keeps_intros assms(1))
  from keepsD [OF this assms(2)] show ?thesis by simp
qed

section \<open>What processing does to the event\<close>

lemma settle_held:
  assumes "dict_get (st_outbox (fst z)) (ob_event_id e) = Some e'" and "ob_lease_id e' = ob_lease_id e"
  shows "settle e st att nxt err del z = (Inr True,
    ((fst z)\<lparr>st_outbox := dict_set (ob_event_id e) (settled_event st att nxt err del e') (st_outbox (fst z))\<rparr>, snd z))"
  using assms by (simp add: settle_def try_catch_def andThen_def on_store_def update_outbox_def gets_def check_def ret_def modify_def)

text \<open>The event as an attempt leaves it: delivered, or waiting for the next attempt, or dead.\<close>

definition attempted :: "'w worker \<Rightarrow> instant \<Rightarrow> outbox_event \<Rightarrow> outcome \<Rightarrow> outbox_event \<Rightarrow> bool" where
  "attempted wk now e out e' \<longleftrightarrow>
     ob_event_id e' = ob_event_id e \<and> ob_attempts e' = ob_attempts e + 1 \<and> ob_lease_id e' = None
     \<and> (out = Delivered \<and> ob_status e' = X_DELIVERED
        \<or> out = Dead \<and> ob_status e' = X_DEAD \<and> wk_max_attempts wk \<le> ob_attempts e + 1
        \<or> out = Retried \<and> ob_status e' = X_RETRY \<and> ob_attempts e + 1 < wk_max_attempts wk
          \<and> ob_next_attempt_at e' = now + seconds (retry_delay (wk_base_delay wk) (ob_attempts e + 1)))"

lemma settled_event_sel [simp]:
  "ob_event_id (settled_event st att nxt err del e) = ob_event_id e"
  "ob_status (settled_event st att nxt err del e) = st"
  "ob_attempts (settled_event st att nxt err del e) = att"
  "ob_next_attempt_at (settled_event st att nxt err del e) = nxt"
  "ob_lease_id (settled_event st att nxt err del e) = None"
  by (simp_all add: settled_event_def)


lemma process_effect:
  assumes others: "others_progress wk" and e: "dict_get (st_outbox (fst z)) (ob_event_id e) = Some e"
    and held: "held_by (wk_id wk) e" and p: "process_event wk en (n, e) z = (Inr out, u)"
  shows "\<exists>ob e'. outbox_progress wk (st_outbox (fst z)) ob \<and> st_outbox (fst u) = dict_set (ob_event_id e) e' ob
    \<and> attempted wk (env_now en) e out e'"
proof -
  obtain r v where d: "deliver_event wk en n e z = (r, v)" by (meson surj_pair)
  have o: "outbox_progress wk (st_outbox (fst z)) (st_outbox (fst v))" by (rule deliver_progress [OF others d])
  with e held have e': "dict_get (st_outbox (fst v)) (ob_event_id e) = Some e"
    unfolding outbox_progress_def event_progress_def by blast
  note s = settle_held [OF e' refl]
  show ?thesis
  proof (intro exI [of _ "st_outbox (fst v)"], cases r)
    case (Inr y)
    with p d s [of X_DELIVERED "ob_attempts e + 1" "env_now en" None "Some (env_now en)"] o
    show "\<exists>e'. outbox_progress wk (st_outbox (fst z)) (st_outbox (fst v)) \<and> st_outbox (fst u) = dict_set (ob_event_id e) e' (st_outbox (fst v))
        \<and> attempted wk (env_now en) e out e'"
      by (auto simp: process_event_def try_catch_def andThen_def ret_def attempted_def)
  next
    case (Inl x)
    with p d have f: "failed_event wk (env_now en) e x v = (Inr out, u)"
      by (simp add: process_event_def try_catch_def andThen_def)
    show "\<exists>e'. outbox_progress wk (st_outbox (fst z)) (st_outbox (fst v)) \<and> st_outbox (fst u) = dict_set (ob_event_id e) e' (st_outbox (fst v))
        \<and> attempted wk (env_now en) e out e'"
    proof (cases "wk_max_attempts wk \<le> ob_attempts e + 1")
      case True
      with f s [of X_DEAD "ob_attempts e + 1" "env_now en" "Some (error_text x)" None] o show ?thesis
        by (auto simp: failed_event_def Let_def andThen_def attempted_def)
    next
      case False
      with f s [of X_RETRY "ob_attempts e + 1" "env_now en + seconds (retry_delay (wk_base_delay wk) (ob_attempts e + 1))"
          "Some (error_text x)" None] o show ?thesis
        by (auto simp: failed_event_def Let_def andThen_def attempted_def)
    qed
  qed
qed

text \<open>Every event of a batch is attempted once; what others then do to it is progress too.\<close>

lemma process_all_effect:
  assumes others: "others_progress wk"
  shows "map_each (process_event wk en) (enumerate k es) z = (Inr outs, u) \<Longrightarrow> distinct (map ob_event_id es) \<Longrightarrow>
    \<forall>e \<in> set es. dict_get (st_outbox (fst z)) (ob_event_id e) = Some e \<and> held_by (wk_id wk) e \<Longrightarrow>
    keyed ob_event_id (st_outbox (fst z)) \<Longrightarrow>
    keyed ob_event_id (st_outbox (fst u))
    \<and> (\<forall>eid e. eid \<notin> ob_event_id ` set es \<longrightarrow> dict_get (st_outbox (fst z)) eid = Some e \<longrightarrow>
         (\<exists>e'. dict_get (st_outbox (fst u)) eid = Some e' \<and> event_progress wk e e'))
    \<and> (\<forall>e \<in> set es. \<exists>out e' e''. dict_get (st_outbox (fst u)) (ob_event_id e) = Some e''
         \<and> attempted wk (env_now en) e out e' \<and> event_progress wk e' e'')"
proof (induction es arbitrary: k z outs)
  case Nil
  then show ?case by simp
next
  case (Cons e es)
  from Cons.prems(1) obtain out v outs' where p: "process_event wk en (k, e) z = (Inr out, v)"
    and r: "map_each (process_event wk en) (enumerate (Suc k) es) v = (Inr outs', u)"
    by (auto simp: andThen_Inr)
  have get: "dict_get (st_outbox (fst z)) (ob_event_id e) = Some e" "held_by (wk_id wk) e" using Cons.prems(3) by simp_all
  from process_effect [OF others get p] obtain ob e' where pr: "outbox_progress wk (st_outbox (fst z)) ob"
    and o: "st_outbox (fst v) = dict_set (ob_event_id e) e' ob" and a: "attempted wk (env_now en) e out e'" by blast
  have id: "ob_event_id e' = ob_event_id e" using a by (simp add: attempted_def)
  have nin: "ob_event_id e \<notin> ob_event_id ` set es" using Cons.prems(2) by simp
  have keyed: "keyed ob_event_id (st_outbox (fst v))"
    unfolding o by (rule keyed_set [where k = "ob_event_id e"]) (use pr Cons.prems(4) id in \<open>simp_all add: outbox_progress_def\<close>)
  have held: "dict_get (st_outbox (fst v)) (ob_event_id x) = Some x \<and> held_by (wk_id wk) x" if "x \<in> set es" for x
  proof -
    from that Cons.prems(3) have "dict_get (st_outbox (fst z)) (ob_event_id x) = Some x" "held_by (wk_id wk) x" by simp_all
    moreover from this pr have "dict_get ob (ob_event_id x) = Some x"
      unfolding outbox_progress_def event_progress_def by blast
    moreover have "ob_event_id x \<noteq> ob_event_id e" using nin that by (metis image_eqI)
    ultimately show ?thesis by (simp add: o)
  qed
  have "distinct (map ob_event_id es)" using Cons.prems(2) by simp
  note IH = Cons.IH [OF r this ballI [OF held] keyed]
  have other: "\<exists>y. dict_get (st_outbox (fst u)) eid = Some y \<and> event_progress wk x y"
    if "eid \<notin> ob_event_id ` set (e # es)" "dict_get (st_outbox (fst z)) eid = Some x" for eid x
  proof -
    from pr that(2) obtain y where y: "dict_get ob eid = Some y" "event_progress wk x y" unfolding outbox_progress_def by blast
    with that(1) have "dict_get (st_outbox (fst v)) eid = Some y" by (simp add: o)
    moreover from that(1) have "eid \<notin> ob_event_id ` set es" by simp
    ultimately obtain y' where "dict_get (st_outbox (fst u)) eid = Some y'" "event_progress wk y y'" using IH by blast
    with y(2) event_progress_trans show ?thesis by blast
  qed
  have "dict_get (st_outbox (fst v)) (ob_event_id e) = Some e'" by (simp add: o)
  with IH nin obtain e'' where "dict_get (st_outbox (fst u)) (ob_event_id e) = Some e''" "event_progress wk e' e''" by blast
  with a have this_one: "\<exists>out e' e''. dict_get (st_outbox (fst u)) (ob_event_id e) = Some e''
      \<and> attempted wk (env_now en) e out e' \<and> event_progress wk e' e''" by blast
  from IH other this_one show ?case by simp
qed

section \<open>Every event is settled in the end\<close>

text \<open>One run of the worker as a step of the world.\<close>

definition worker_step :: "'w worker \<Rightarrow> store \<times> 'w \<Rightarrow> env \<Rightarrow> store \<times> 'w" where
  "worker_step wk z en = snd (run_once wk en z)"

lemma keyed_claimed:
  assumes "keyed ob_event_id (st_outbox s)" and "claim_outbox leases limit now secs owner s = (Inr claimed, t)"
  shows "keyed ob_event_id (st_outbox t)"
  using assms by (auto simp: claim_outbox_eq intro: keyed_set_all)

lemma leased_held: "e \<in> set (leased leases now secs me es) \<Longrightarrow> held_by me e"
  by (auto simp: leased_def held_by_def lease_event_def)

lemma worker_step_event:
  assumes others: "others_progress wk" and k: "keyed ob_event_id (st_outbox (fst z))"
    and t: "rt_targets (wk_runtime wk) \<noteq> []" and e: "dict_get (st_outbox (fst z)) eid = Some e"
  shows "keyed ob_event_id (st_outbox (fst (worker_step wk z en)))
    \<and> (settled_status e \<longrightarrow> dict_get (st_outbox (fst (worker_step wk z en))) eid = Some e)
    \<and> (e \<in> set (claim_batch (wk_batch_size wk) (env_now en) (fst z)) \<longrightarrow>
         (\<exists>e'. dict_get (st_outbox (fst (worker_step wk z en))) eid = Some e'
            \<and> (settled_status e' \<or> ob_attempts e + 1 \<le> ob_attempts e' \<and> ob_attempts e' < wk_max_attempts wk)))"
proof -
  let ?b = "claim_batch (wk_batch_size wk) (env_now en) (fst z)"
  let ?c = "claim_outbox (\<lambda>i. env_uuid en (U_event i)) (wk_batch_size wk) (env_now en) (wk_lease_seconds wk) (wk_id wk)"
  obtain evs s1 where c: "?c (fst z) = (Inr evs, s1)" by (simp add: claim_outbox_eq)
  then have evs: "evs = leased (\<lambda>i. env_uuid en (U_event i)) (env_now en) (wk_lease_seconds wk) (wk_id wk) ?b"
    by (simp add: claim_outbox_eq)
  obtain outs u where p: "map_each (process_event wk en) (enumerate 0 evs) (s1, snd z) = (Inr outs, u)"
    using process_all_total [of wk en "enumerate 0 evs" "(s1, snd z)"] by blast
  have u: "worker_step wk z en = u"
    using t c p by (simp add: worker_step_def run_once_def andThen_def on_store_def ret_def)
  have ids: "map ob_event_id evs = map ob_event_id ?b" by (simp add: evs)
  then have d: "distinct (map ob_event_id evs)" using claim_batch_distinct [OF k] by simp
  note g = get_claimed [OF k c]
  have "\<forall>x \<in> set evs. dict_get (st_outbox (fst (s1, snd z))) (ob_event_id x) = Some x \<and> held_by (wk_id wk) x"
    using g(1) leased_held unfolding evs by simp
  note eff = process_all_effect [OF others p d this]
  have keyed: "keyed ob_event_id (st_outbox (fst (s1, snd z)))" using keyed_claimed [OF k c] by simp
  have eid: "ob_event_id e = eid" using keyed_get [OF k e] .
  have "dict_get (st_outbox (fst u)) eid = Some e" if f: "settled_status e"
  proof -
    have "eid \<notin> ob_event_id ` set ?b"
    proof
      assume "eid \<in> ob_event_id ` set ?b"
      then obtain x where x: "x \<in> set ?b" "ob_event_id x = eid" by blast
      then have "dict_get (st_outbox (fst z)) eid = Some x" "is_claimable (env_now en) x"
        using claim_batch_claimable [OF x(1)] keyed_values [OF k] by auto
      with e f show False by (auto simp: settled_status_def is_claimable_def)
    qed
    then have n: "eid \<notin> ob_event_id ` set evs" using ids by (metis set_map)
    then have "dict_get (st_outbox (fst (s1, snd z))) eid = Some e" using g(2) e by simp
    with n eff [OF keyed] obtain e' where "dict_get (st_outbox (fst u)) eid = Some e'" "event_progress wk e e'" by blast
    with f show ?thesis by (simp add: event_progress_def)
  qed
  moreover have "\<exists>e'. dict_get (st_outbox (fst u)) eid = Some e'
      \<and> (settled_status e' \<or> ob_attempts e + 1 \<le> ob_attempts e' \<and> ob_attempts e' < wk_max_attempts wk)"
    if m: "e \<in> set ?b"
  proof -
    from m obtain i where i: "i < length ?b" "?b ! i = e" by (auto simp: in_set_conv_nth)
    let ?x = "lease_event (env_now en) (wk_lease_seconds wk) (wk_id wk) (env_uuid en (U_event i)) e"
    have "evs ! i = ?x" using i by (simp add: evs leased_def nth_enumerate_eq)
    moreover have "i < length evs" using i by (simp add: evs leased_def)
    ultimately have "?x \<in> set evs" by (metis nth_mem)
    with eff [OF keyed] obtain out e' e'' where got: "dict_get (st_outbox (fst u)) (ob_event_id ?x) = Some e''"
      and a: "attempted wk (env_now en) ?x out e'" and pr: "event_progress wk e' e''" by blast
    have att: "ob_attempts e' = ob_attempts e + 1" using a by (simp add: attempted_def)
    have "settled_status e'' \<or> ob_attempts e + 1 \<le> ob_attempts e'' \<and> ob_attempts e'' < wk_max_attempts wk"
    proof (cases "settled_status e'")
      case True
      with pr show ?thesis by (simp add: event_progress_def)
    next
      case False
      with a have "ob_attempts e' < wk_max_attempts wk" by (auto simp: attempted_def settled_status_def)
      with pr att show ?thesis by (auto simp: event_progress_def)
    qed
    with got eid show ?thesis by auto
  qed
  ultimately show ?thesis using eff [OF keyed] u by blast
qed

text \<open>A turn: other processes commit what they like to the store, then the worker runs once.\<close>

type_synonym turn = "(store \<Rightarrow> store) \<times> env"

definition turn_step :: "'w worker \<Rightarrow> store \<times> 'w \<Rightarrow> turn \<Rightarrow> store \<times> 'w" where
  "turn_step wk z x = worker_step wk (fst x (fst z), snd z) (snd x)"

text \<open>
  What others commit is progress, and the run reaches the event: it is settled by then, or it is
  among those the run claims.
\<close>

definition in_turn :: "'w worker \<Rightarrow> uuid \<Rightarrow> store \<times> 'w \<Rightarrow> turn \<Rightarrow> bool" where
  "in_turn wk eid z x \<longleftrightarrow>
     outbox_progress wk (st_outbox (fst z)) (st_outbox (fst x (fst z)))
   \<and> (\<exists>e. dict_get (st_outbox (fst x (fst z))) eid = Some e \<and>
        (settled_status e \<or> e \<in> set (claim_batch (wk_batch_size wk) (env_now (snd x)) (fst x (fst z)))))"

lemma turn_event:
  assumes others: "others_progress wk" and t: "rt_targets (wk_runtime wk) \<noteq> []"
    and k: "keyed ob_event_id (st_outbox (fst z))" and e: "dict_get (st_outbox (fst z)) eid = Some e"
    and turn: "in_turn wk eid z x"
  shows "keyed ob_event_id (st_outbox (fst (turn_step wk z x)))
    \<and> (\<exists>e'. dict_get (st_outbox (fst (turn_step wk z x))) eid = Some e' \<and> (settled_status e \<longrightarrow> e' = e)
         \<and> (settled_status e' \<or> ob_attempts e + 1 \<le> ob_attempts e' \<and> ob_attempts e' < wk_max_attempts wk))"
proof -
  let ?z = "(fst x (fst z), snd z)"
  have pr: "outbox_progress wk (st_outbox (fst z)) (st_outbox (fst ?z))" using turn by (simp add: in_turn_def)
  then have k': "keyed ob_event_id (st_outbox (fst ?z))" using k by (simp add: outbox_progress_def)
  from pr e obtain e0 where e0: "dict_get (st_outbox (fst ?z)) eid = Some e0" "event_progress wk e e0"
    unfolding outbox_progress_def by blast
  note step = worker_step_event [OF others k' t e0(1), of "snd x"]
  have "settled_status e0 \<or> e0 \<in> set (claim_batch (wk_batch_size wk) (env_now (snd x)) (fst ?z))"
    using turn e0(1) by (auto simp: in_turn_def)
  then show ?thesis
  proof
    assume s: "settled_status e0"
    with step have "dict_get (st_outbox (fst (worker_step wk ?z (snd x)))) eid = Some e0" by blast
    with s step e0(2) show ?thesis by (auto simp: turn_step_def event_progress_def)
  next
    assume m: "e0 \<in> set (claim_batch (wk_batch_size wk) (env_now (snd x)) (fst ?z))"
    with step obtain e' where e': "dict_get (st_outbox (fst (worker_step wk ?z (snd x)))) eid = Some e'"
        "settled_status e' \<or> ob_attempts e0 + 1 \<le> ob_attempts e' \<and> ob_attempts e' < wk_max_attempts wk" by blast
    have att: "ob_attempts e \<le> ob_attempts e0" using e0(2) by (simp add: event_progress_def)
    have "e' = e" if "settled_status e"
    proof -
      from that e0(2) have "e0 = e" by (simp add: event_progress_def)
      with that step e'(1) show ?thesis by simp
    qed
    with step e' att show ?thesis by (auto simp: turn_step_def)
  qed
qed

lemma turns_settle:
  assumes others: "others_progress wk" and t: "rt_targets (wk_runtime wk) \<noteq> []"
  shows "keyed ob_event_id (st_outbox (fst z)) \<Longrightarrow> dict_get (st_outbox (fst z)) eid = Some e \<Longrightarrow>
     run_allowed (turn_step wk) (in_turn wk eid) z xs \<Longrightarrow>
     \<exists>e'. dict_get (st_outbox (fst (run_steps (turn_step wk) z xs))) eid = Some e'
       \<and> (settled_status e' \<or> ob_attempts e + length xs \<le> ob_attempts e' \<and> (ob_attempts e' < wk_max_attempts wk \<or> xs = []))
       \<and> (settled_status e \<longrightarrow> e' = e)"
proof (induction xs arbitrary: z e)
  case Nil
  then show ?case by simp
next
  case (Cons x xs)
  from Cons.prems(3) have turn: "in_turn wk eid z x" and rest: "run_allowed (turn_step wk) (in_turn wk eid) (turn_step wk z x) xs"
    by simp_all
  from turn_event [OF others t Cons.prems(1,2) turn] obtain e1 where
    k: "keyed ob_event_id (st_outbox (fst (turn_step wk z x)))" and e1: "dict_get (st_outbox (fst (turn_step wk z x))) eid = Some e1"
    and s: "settled_status e \<longrightarrow> e1 = e"
    and c: "settled_status e1 \<or> ob_attempts e + 1 \<le> ob_attempts e1 \<and> ob_attempts e1 < wk_max_attempts wk" by blast
  from Cons.IH [OF k e1 rest] obtain e' where
    e': "dict_get (st_outbox (fst (run_steps (turn_step wk) (turn_step wk z x) xs))) eid = Some e'"
      "settled_status e' \<or> ob_attempts e1 + length xs \<le> ob_attempts e' \<and> (ob_attempts e' < wk_max_attempts wk \<or> xs = [])"
      "settled_status e1 \<longrightarrow> e' = e1" by blast
  have "settled_status e' \<or> ob_attempts e + length (x # xs) \<le> ob_attempts e' \<and> ob_attempts e' < wk_max_attempts wk"
  proof (cases "settled_status e1")
    case True
    with e'(3) show ?thesis by simp
  next
    case False
    with c e'(2) e'(1) e1 show ?thesis by (cases "xs = []") auto
  qed
  with e' s show ?case by auto
qed

text \<open>
  Property C28: no event is retried for ever. Take as many turns as the worker allows attempts,
  in each of which the run reaches the event (it is settled by then, or among the events the
  run claims). Between the runs and during the calls of the providers other processes may
  add events, lease, attempt and settle them, as long as they take no event away, take no
  attempt back, respect the same limit of attempts, and leave settled events and the events
  under this worker's lease alone (\<open>outbox_progress\<close>: provider calls end within the lease). Then
  the event is delivered or dead in the end, whatever the providers answer.
\<close>

theorem worker_settles_every_event:
  assumes "others_progress wk" and "rt_targets (wk_runtime wk) \<noteq> []"
    and "keyed ob_event_id (st_outbox (fst z))" and "dict_get (st_outbox (fst z)) eid = Some e"
    and "run_allowed (turn_step wk) (in_turn wk eid) z turns"
    and "0 < wk_max_attempts wk" and "wk_max_attempts wk \<le> length turns"
  shows "\<exists>e'. dict_get (st_outbox (fst (run_steps (turn_step wk) z turns))) eid = Some e'
    \<and> ob_status e' \<in> {X_DELIVERED, X_DEAD}"
proof -
  from turns_settle [OF assms(1-5)] obtain e' where
    e': "dict_get (st_outbox (fst (run_steps (turn_step wk) z turns))) eid = Some e'"
      "settled_status e' \<or> ob_attempts e + length turns \<le> ob_attempts e' \<and> (ob_attempts e' < wk_max_attempts wk \<or> turns = [])"
    by blast
  then have "settled_status e'" using assms(6,7) by auto
  with e'(1) show ?thesis by (auto simp: settled_status_def)
qed

end
