(* ===== verification/CopyLaws.thy ===== *)
theory CopyLaws
  imports WorkerLaws
begin

text \<open>
  Projection links describe the copies the providers hold: what the worker may assume of a
  provider, the invariant it keeps, and what that means for a verified deletion. The failure
  the invariant excludes by hypothesis, a withdrawal the provider refuses, is shown to leave a
  copy behind that a completed deletion does not know of.
\<close>

section \<open>What is assumed of a provider\<close>

text \<open>
  \<open>copies w (target, record)\<close> is the locator of the copy a target holds, if any. A delivery
  that returns leaves one copy under the locator it returned, a stable one; a withdrawal or
  erasure that returns removes the copy with that locator; a call that raises changes no copy.
\<close>

type_synonym 'w copies = "'w \<Rightarrow> string \<times> uuid \<Rightarrow> string option"

definition without_copy :: "(string \<times> uuid \<Rightarrow> string option) \<Rightarrow> string \<times> uuid \<Rightarrow> string \<Rightarrow> string \<times> uuid \<Rightarrow> string option" where
  "without_copy c k loc = (if c k = Some loc then c(k := None) else c)"

definition honest_provider :: "'w provider \<Rightarrow> 'w copies \<Rightarrow> bool" where
  "honest_provider pv copies \<longleftrightarrow>
     (\<forall>id r d w x w'. pv_project pv id r d w = (x, w') \<longrightarrow>
        (case x of
           Inl _ \<Rightarrow> copies w' = copies w
         | Inr res \<Rightarrow> \<exists>loc. locator_of res = Some loc \<and> strip loc = loc \<and> length loc \<le> 1024
             \<and> copies w' = (copies w)((id, mr_record_id r) := Some loc)))
     \<and> (\<forall>id rid ns loc reason w x w'. pv_retire pv id rid ns loc reason w = (x, w') \<longrightarrow>
        copies w' = (case x of Inl _ \<Rightarrow> copies w | Inr _ \<Rightarrow> without_copy (copies w) (id, rid) loc))
     \<and> (\<forall>id rid ns loc w x w'. pv_erase pv id rid ns loc w = (x, w') \<longrightarrow>
        copies w' = (case x of Inl _ \<Rightarrow> copies w | Inr _ \<Rightarrow> without_copy (copies w) (id, rid) loc))"

text \<open>
  The one call that must not be refused: withdrawing a copy the target holds, just written for
  a record that meanwhile stopped being current. Retirements and erasures may fail.
\<close>

definition withdraws_reliably :: "'w provider \<Rightarrow> 'w copies \<Rightarrow> bool" where
  "withdraws_reliably pv copies \<longleftrightarrow>
     (\<forall>id rid ns loc w. copies w (id, rid) = Some loc \<longrightarrow>
        (\<exists>res w'. pv_retire pv id rid ns loc ''post-project-race-stale'' w = (Inr res, w')))"

section \<open>The invariant\<close>

definition namespace_ok :: "string \<Rightarrow> bool" where
  "namespace_ok ns \<longleftrightarrow> len_ok 1 255 ns \<and> strip ns \<noteq> []"

definition binding_ok :: "target_binding \<Rightarrow> bool" where
  "binding_ok b \<longleftrightarrow> len_ok 1 512 (tb_identity b) \<and> strip (tb_identity b) = tb_identity b
     \<and> len_ok 1 128 (tb_projection_name b) \<and> strip (tb_projection_name b) \<noteq> []
     \<and> len_ok 1 64 (tb_provider_type b)"

definition unlinked_when_deleted :: "store \<Rightarrow> bool" where
  "unlinked_when_deleted s \<longleftrightarrow>
     (\<forall>rid r tg. get_record rid s = Some r \<and> mr_state r = DELETED \<longrightarrow> get_projection_link rid tg s = None)"

text \<open>The part of the invariant that concerns the store alone.\<close>

definition links_sane :: "store \<Rightarrow> bool" where
  "links_sane s \<longleftrightarrow> keyed link_key (st_projection_links s) \<and> unlinked_when_deleted s
     \<and> (\<forall>rid r. get_record rid s = Some r \<longrightarrow> mr_record_id r = rid \<and> namespace_ok (mr_namespace r))"

text \<open>Every copy in a target of the runtime has a live link with its locator and scope scheme.\<close>

definition tracks :: "projection_link option \<Rightarrow> target_binding \<Rightarrow> string \<Rightarrow> bool" where
  "tracks x b loc \<longleftrightarrow> (\<exists>l. x = Some l \<and> \<not> link_withdrawn (Some l) \<and> pk_locator l = loc \<and> link_scheme l = binding_scheme b)"

definition copies_tracked :: "projection_runtime \<Rightarrow> 'w copies \<Rightarrow> store \<times> 'w \<Rightarrow> bool" where
  "copies_tracked rt copies z \<longleftrightarrow>
     (\<forall>b \<in> set (rt_targets rt). \<forall>rid loc. copies (snd z) (tb_identity b, rid) = Some loc \<longrightarrow>
        tracks (get_projection_link rid (tb_identity b) (fst z)) b loc)"

text \<open>What others may do meanwhile: anything that leaves the links alone and the store sane.\<close>

definition others_behave :: "'w provider \<Rightarrow> bool" where
  "others_behave pv \<longleftrightarrow> (\<forall>w s. st_projection_links (pv_meanwhile pv w s) = st_projection_links s
     \<and> (links_sane s \<longrightarrow> links_sane (pv_meanwhile pv w s)))"

definition world_ok :: "projection_runtime \<Rightarrow> 'w copies \<Rightarrow> store \<times> 'w \<Rightarrow> bool" where
  "world_ok rt copies z \<longleftrightarrow> links_sane (fst z) \<and> copies_tracked rt copies z"

text \<open>The static facts about a worker.\<close>

definition worker_ok :: "'w worker \<Rightarrow> 'w copies \<Rightarrow> bool" where
  "worker_ok wk copies \<longleftrightarrow> runtime_ok (wk_runtime wk) \<and> (\<forall>b \<in> set (rt_targets (wk_runtime wk)). binding_ok b)
     \<and> honest_provider (wk_provider wk) copies \<and> others_behave (wk_provider wk)"

subsection \<open>Changing one link\<close>

definition with_link :: "uuid \<times> string \<Rightarrow> projection_link option \<Rightarrow> store \<Rightarrow> store" where
  "with_link k x s =
     s\<lparr>st_projection_links := (case x of None \<Rightarrow> dict_pop k (st_projection_links s) | Some l \<Rightarrow> dict_set k l (st_projection_links s))\<rparr>"

lemma get_link_with [simp]:
  "get_projection_link rid tg (with_link k x s) = (if k = (rid, tg) then x else get_projection_link rid tg s)"
  by (auto simp: with_link_def get_projection_link_def split: option.splits)

lemma with_link_frame [simp]:
  "get_record rid (with_link k x s) = get_record rid s" "st_projection_retirements (with_link k x s) = st_projection_retirements s"
  by (simp_all add: with_link_def get_record_def)

lemma save_link_eq: "save_projection_link l s = (Inr (), with_link (link_key l) (Some l) s)"
  by (simp add: save_projection_link_def with_link_def modify_def)

lemma delete_link_eq: "delete_projection_link rid tg s = (Inr (), with_link (rid, tg) None s)"
  by (simp add: delete_projection_link_def with_link_def modify_def)

lemma links_sane_with:
  assumes "links_sane s" and "\<And>l. x = Some l \<Longrightarrow> link_key l = (rid, tg)"
    and "\<And>r. x \<noteq> None \<Longrightarrow> get_record rid s = Some r \<Longrightarrow> mr_state r \<noteq> DELETED"
  shows "links_sane (with_link (rid, tg) x s)"
proof -
  have "keyed link_key (st_projection_links (with_link (rid, tg) x s))"
    using assms(1,2) by (auto simp: with_link_def links_sane_def intro: keyed_set keyed_pop split: option.splits)
  moreover have "unlinked_when_deleted (with_link (rid, tg) x s)"
    using assms(1,3) by (cases x) (auto simp: unlinked_when_deleted_def links_sane_def)
  ultimately show ?thesis using assms(1) by (simp add: links_sane_def)
qed

lemma sane_link_key:
  "links_sane s \<Longrightarrow> get_projection_link rid tg s = Some l \<Longrightarrow> link_key l = (rid, tg)"
  using keyed_get [of link_key "st_projection_links s" "(rid, tg)" l]
  by (simp add: links_sane_def get_projection_link_def)

lemma sane_link_alive:
  "links_sane s \<Longrightarrow> get_projection_link rid tg s = Some l \<Longrightarrow> get_record rid s = Some r \<Longrightarrow> mr_state r \<noteq> DELETED"
  unfolding links_sane_def unlinked_when_deleted_def by (metis option.distinct(1))

lemma binding_unique:
  "runtime_ok rt \<Longrightarrow> b \<in> set (rt_targets rt) \<Longrightarrow> b' \<in> set (rt_targets rt) \<Longrightarrow> tb_identity b = tb_identity b' \<Longrightarrow> b = b'"
  unfolding runtime_ok_def by (metis distinct_map inj_onD)

subsection \<open>Handlers keep the invariant\<close>

lemma tracked_with:
  assumes "copies_tracked rt copies (s, w)" and "runtime_ok rt" and "b \<in> set (rt_targets rt)"
    and "\<And>k. k \<noteq> (tb_identity b, rid) \<Longrightarrow> copies w' k = copies w k"
    and "\<And>loc. copies w' (tb_identity b, rid) = Some loc \<Longrightarrow> tracks x b loc"
  shows "copies_tracked rt copies (with_link (rid, tb_identity b) x s, w')"
  unfolding copies_tracked_def
proof (intro ballI allI impI)
  fix b' rid' loc
  assume b': "b' \<in> set (rt_targets rt)"
    and c: "copies (snd (with_link (rid, tb_identity b) x s, w')) (tb_identity b', rid') = Some loc"
  show "tracks (get_projection_link rid' (tb_identity b') (fst (with_link (rid, tb_identity b) x s, w'))) b' loc"
  proof (cases "rid' = rid \<and> tb_identity b' = tb_identity b")
    case True
    then have "b' = b" using binding_unique [OF assms(2) b' assms(3)] by simp
    with True c assms(5) [of loc] show ?thesis by simp
  next
    case False
    with assms(1,4) b' c show ?thesis by (auto simp: copies_tracked_def)
  qed
qed

lemma tracked_same_links:
  assumes "copies_tracked rt copies (s, w)" and "st_projection_links t = st_projection_links s"
    and "copies w' = copies w"
  shows "copies_tracked rt copies (t, w')"
  using assms by (auto simp: copies_tracked_def get_projection_link_def)

lemma tracked_removed:
  assumes "copies_tracked rt copies (s, w)" and "st_projection_links t = st_projection_links s"
    and "\<And>k. copies w' k = copies w k \<or> copies w' k = None"
  shows "copies_tracked rt copies (t, w')"
  using assms unfolding copies_tracked_def get_projection_link_def by (metis fst_conv option.distinct(1) snd_conv)

lemma without_copy_cases: "without_copy c k loc j = (if j = k \<and> c k = Some loc then None else c j)"
  by (simp add: without_copy_def)

lemma adapter_for_binding:
  "runtime_ok rt \<Longrightarrow> b \<in> set (rt_targets rt) \<Longrightarrow> adapter_for rt (tb_identity b) = Inr a \<Longrightarrow> tb_adapter b = Some a"
  using find_target_Inr [of rt "tb_identity b" b] by (simp add: adapter_for_def split: option.splits)

lemma provider_calls:
  assumes "worker_ok wk copies" and "links_sane s"
  shows "links_sane (pv_meanwhile (wk_provider wk) w s)"
    "st_projection_links (pv_meanwhile (wk_provider wk) w s) = st_projection_links s"
  using assms by (simp_all add: worker_ok_def others_behave_def)

lemma retire_copies:
  "worker_ok wk copies \<Longrightarrow> pv_retire (wk_provider wk) tg rid ns loc reason w = (Inr x, w') \<Longrightarrow>
     copies w' = without_copy (copies w) (tg, rid) loc"
  "worker_ok wk copies \<Longrightarrow> pv_retire (wk_provider wk) tg rid ns loc reason w = (Inl e, w') \<Longrightarrow> copies w' = copies w"
  unfolding worker_ok_def honest_provider_def by fastforce+

lemma erase_copies:
  "worker_ok wk copies \<Longrightarrow> pv_erase (wk_provider wk) tg rid ns loc w = (Inr x, w') \<Longrightarrow>
     copies w' = without_copy (copies w) (tg, rid) loc"
  "worker_ok wk copies \<Longrightarrow> pv_erase (wk_provider wk) tg rid ns loc w = (Inl e, w') \<Longrightarrow> copies w' = copies w"
  unfolding worker_ok_def honest_provider_def by fastforce+

lemma project_copies:
  "worker_ok wk copies \<Longrightarrow> pv_project (wk_provider wk) tg r d w = (Inl e, w') \<Longrightarrow> copies w' = copies w"
  "worker_ok wk copies \<Longrightarrow> pv_project (wk_provider wk) tg r d w = (Inr res, w') \<Longrightarrow>
     \<exists>loc. locator_of res = Some loc \<and> strip loc = loc \<and> length loc \<le> 1024
       \<and> copies w' = (copies w)((tg, mr_record_id r) := Some loc)"
  unfolding worker_ok_def honest_provider_def by fastforce+

lemma world_ok_same:
  "world_ok rt copies (s, w) \<Longrightarrow> st_projection_links t = st_projection_links s \<Longrightarrow> st_records t = st_records s \<Longrightarrow>
     world_ok rt copies (t, w)"
  unfolding world_ok_def links_sane_def unlinked_when_deleted_def get_record_def get_projection_link_def copies_tracked_def
  by simp

lemma world_ok_relinked:
  assumes "links_sane s" and "copies_tracked rt copies (s, w)" and "runtime_ok rt" and "b \<in> set (rt_targets rt)"
    and "\<And>l. x = Some l \<Longrightarrow> link_key l = (rid, tb_identity b)"
    and "\<And>r. x \<noteq> None \<Longrightarrow> get_record rid s = Some r \<Longrightarrow> mr_state r \<noteq> DELETED"
    and "\<And>k. k \<noteq> (tb_identity b, rid) \<Longrightarrow> copies w' k = copies w k"
    and "\<And>loc. copies w' (tb_identity b, rid) = Some loc \<Longrightarrow> tracks x b loc"
  shows "world_ok rt copies (with_link (rid, tb_identity b) x s, w')"
  using links_sane_with [OF assms(1,5,6)] tracked_with [OF assms(2,3,4,7,8)] by (simp add: world_ok_def)

lemma drop_live_copy_eq:
  "\<exists>x. drop_live_copy l now pending s = (Inr (), with_link (link_key l) x s) \<and> (\<forall>k. x = Some k \<longrightarrow> link_key k = link_key l)"
proof (cases "legacy_copies (Some l) = []")
  case True
  then show ?thesis by (intro exI [of _ None]) (simp add: drop_live_copy_def delete_link_eq link_key_def)
next
  case False
  then have "drop_live_copy l now pending s = save_projection_link (l\<lparr>pk_metadata :=
      (case pending of None \<Rightarrow> dict_set LINK_WITHDRAWN_KEY (JBool True) (pk_metadata l)
       | Some x \<Rightarrow> dict_set PENDING_DELETION_RECEIPT_KEY (JStr x) (dict_set LINK_WITHDRAWN_KEY (JBool True) (pk_metadata l))),
      pk_created_at := now\<rparr>) s" (is "_ = save_projection_link ?k s")
    by (simp add: drop_live_copy_def Let_def)
  moreover have "link_key ?k = link_key l" by (simp add: link_key_def)
  ultimately show ?thesis by (intro exI [of _ "Some ?k"]) (simp add: save_link_eq)
qed

lemma withdrawn_set [simp]: "link_withdrawn (Some (l\<lparr>pk_metadata := dict_set LINK_WITHDRAWN_KEY (JBool True) m, pk_created_at := t\<rparr>))"
  by (simp add: link_withdrawn_def)

lemma retain_stale_link_cases:
  obtains (kept) "retain_stale_link l b now s = (Inr l, s)" "link_withdrawn (Some l) \<or> link_scheme l = binding_scheme b"
  | (retained) k where "retain_stale_link l b now s = (Inr k, with_link (link_key l) (Some k) s)" "link_key k = link_key l"
      "link_withdrawn (Some k)" "\<not> link_withdrawn (Some l)" "link_scheme l \<noteq> binding_scheme b"
proof (cases "link_withdrawn (Some l) \<or> link_scheme l = binding_scheme b")
  case True
  then show thesis by (intro kept) (auto simp: retain_stale_link_def ret_def)
next
  case False
  let ?k = "l\<lparr>pk_metadata := dict_set LINK_WITHDRAWN_KEY (JBool True)
      (with_copies (legacy_copies (Some l) @ [legacy_obligation l now]) (pk_metadata l)), pk_created_at := now\<rparr>"
  have "retain_stale_link l b now s = (Inr ?k, with_link (link_key ?k) (Some ?k) s)"
    using False by (simp add: retain_stale_link_def Let_def andThen_def save_link_eq ret_def)
  moreover have "link_key ?k = link_key l" by (simp add: link_key_def)
  ultimately show thesis using False by (intro retained [of ?k]) simp_all
qed

text \<open>A link under another scope scheme is no live copy's link, so retaining it keeps the invariant.\<close>

lemma retained_ok:
  assumes "world_ok rt copies (s, w)" and "runtime_ok rt" and "b \<in> set (rt_targets rt)"
    and "get_projection_link rid (tb_identity b) s = Some l" and "link_key k = link_key l"
    and "link_scheme l \<noteq> binding_scheme b"
  shows "world_ok rt copies (with_link (rid, tb_identity b) (Some k) s, w)"
proof (rule world_ok_relinked)
  show "links_sane s" "copies_tracked rt copies (s, w)" using assms(1) by (simp_all add: world_ok_def)
  then show "link_key k' = (rid, tb_identity b)" if "Some k = Some k'" for k'
    using that assms(4,5) sane_link_key by auto
  show "mr_state r \<noteq> DELETED" if "get_record rid s = Some r" for r
    using sane_link_alive [OF \<open>links_sane s\<close> assms(4) that] .
  show "tracks (Some k) b loc" if "copies w (tb_identity b, rid) = Some loc" for loc
  proof -
    have "tracks (get_projection_link rid (tb_identity b) s) b loc"
      using that assms(3) \<open>copies_tracked rt copies (s, w)\<close> by (simp add: copies_tracked_def)
    with assms(4,6) show ?thesis by (simp add: tracks_def)
  qed
qed (use assms in simp_all)

text \<open>After a removal that returned, the live copy is gone and the link may be dropped or kept withdrawn.\<close>

lemma dropped_ok:
  assumes wk: "worker_ok wk copies" and z: "world_ok (wk_runtime wk) copies (s, w)"
    and b: "b \<in> set (rt_targets (wk_runtime wk))"
    and l: "get_projection_link rid (tb_identity b) s = Some l" and nw: "\<not> link_withdrawn (Some l)"
    and c: "copies w' = without_copy (copies w) (tb_identity b, rid) (pk_locator l)"
    and x: "\<And>k. x = Some k \<Longrightarrow> link_key k = link_key l"
  shows "world_ok (wk_runtime wk) copies (with_link (rid, tb_identity b) x (pv_meanwhile (wk_provider wk) v s), w')"
proof (rule world_ok_relinked)
  let ?s = "pv_meanwhile (wk_provider wk) v s"
  have sane: "links_sane s" and tr: "copies_tracked (wk_runtime wk) copies (s, w)" using z by (simp_all add: world_ok_def)
  note call = provider_calls [OF wk sane]
  show "links_sane ?s" by (rule call(1))
  show "copies_tracked (wk_runtime wk) copies (?s, w)" by (rule tracked_same_links [OF tr call(2) refl])
  show "runtime_ok (wk_runtime wk)" using wk by (simp add: worker_ok_def)
  show "link_key k = (rid, tb_identity b)" if "x = Some k" for k using x [OF that] sane_link_key [OF sane l] by simp
  have "get_projection_link rid (tb_identity b) ?s = Some l" using l call(2) by (simp add: get_projection_link_def)
  then show "mr_state r \<noteq> DELETED" if "get_record rid ?s = Some r" for r
    using sane_link_alive [OF call(1) _ that] by blast
  show "copies w' k = copies w k" if "k \<noteq> (tb_identity b, rid)" for k using that by (simp add: c without_copy_cases)
  show "tracks x b loc" if "copies w' (tb_identity b, rid) = Some loc" for loc
    using that tr b l by (fastforce simp: c without_copy_cases copies_tracked_def tracks_def split: if_splits)
qed (rule b)

lemma retire_event_ok:
  assumes wk: "worker_ok wk copies" and b: "b \<in> set (rt_targets (wk_runtime wk))"
    and z: "world_ok (wk_runtime wk) copies (s, w)" and run: "retire_event wk rcid now e b (s, w) = (res, z')"
  shows "world_ok (wk_runtime wk) copies z'"
proof -
  let ?rid = "ob_aggregate_id e"
  have rt: "runtime_ok (wk_runtime wk)" using wk by (simp add: worker_ok_def)
  have sane: "links_sane s" and tr: "copies_tracked (wk_runtime wk) copies (s, w)" using z by (simp_all add: world_ok_def)
  show ?thesis
  proof (cases "is_active (get_record ?rid s) \<or> get_projection_link ?rid (tb_identity b) s = None")
    case True
    then have "z' = (s, w)"
      using run by (cases "get_projection_link ?rid (tb_identity b) s")
        (auto simp: retire_event_def andThen_def on_store_def gets_def ret_def split: if_splits)
    with z show ?thesis by simp
  next
    case False
    then obtain l0 where l0: "get_projection_link ?rid (tb_identity b) s = Some l0"
      and na: "\<not> is_active (get_record ?rid s)" by blast
    show ?thesis
    proof (cases rule: retain_stale_link_cases [of l0 b now s])
      case (retained k)
      then have "z' = (with_link (link_key l0) (Some k) s, w)"
        using run l0 na by (simp add: retire_event_def andThen_def on_store_def gets_def ret_def)
      with retained_ok [OF z rt b l0 retained(2,5)] sane_link_key [OF sane l0] show ?thesis by simp
    next
      case kept
      show ?thesis
      proof (cases "link_withdrawn (Some l0) \<or> (\<exists>x. adapter_for (wk_runtime wk) (tb_identity b) = Inl x)")
        case True
        then have "z' = (s, w)"
          using run l0 na kept(1)
          by (cases "link_withdrawn (Some l0)") (auto simp: retire_event_def andThen_def on_store_def gets_def ret_def from_sum_def Let_def)
        with z show ?thesis by simp
      next
        case False
        then obtain a where nw: "\<not> link_withdrawn (Some l0)" and a: "adapter_for (wk_runtime wk) (tb_identity b) = Inr a"
          by (metis sum.exhaust)
        define reason where "reason = (case get_str (ob_payload e) ''reason'' of None \<Rightarrow> ''retired'' | Some x \<Rightarrow> x)"
        obtain y w1 where call: "pv_retire (wk_provider wk) (tb_identity b) ?rid (ob_namespace e) (pk_locator l0) reason w = (y, w1)"
          by fastforce
        let ?s1 = "pv_meanwhile (wk_provider wk) w1 s"
        show ?thesis
        proof (cases y)
          case (Inl x)
          then have "z' = (?s1, w1)"
            using run l0 na kept(1) nw a call
            by (simp add: retire_event_def andThen_def on_store_def gets_def ret_def from_sum_def Let_def provider_call_def reason_def)
          with provider_calls [OF wk sane] tracked_same_links [OF tr] retire_copies(2) [OF wk call [unfolded Inl]]
          show ?thesis by (simp add: world_ok_def)
        next
          case (Inr result)
          obtain x where d: "drop_live_copy l0 now None ?s1 = (Inr (), with_link (link_key l0) x ?s1)"
            and xk: "\<And>k. x = Some k \<Longrightarrow> link_key k = link_key l0" using drop_live_copy_eq by blast
          let ?s2 = "with_link (link_key l0) x ?s1"
          have ok: "world_ok (wk_runtime wk) copies (?s2, w1)"
            using dropped_ok [OF wk z b l0 nw retire_copies(1) [OF wk call [unfolded Inr]] xk] sane_link_key [OF sane l0] by simp
          have "z' = (?s2, w1) \<or> (\<exists>rr. z' = (?s2\<lparr>st_projection_retirements := rr\<rparr>, w1))"
            using run l0 na kept(1) nw a call Inr d
            by (auto simp: retire_event_def andThen_def on_store_def gets_def ret_def from_sum_def Let_def provider_call_def
                reason_def save_projection_retirement_def modify_def split: sum.splits)
          then show ?thesis using ok world_ok_same [OF ok] by auto
        qed
      qed
    qed
  qed
qed

lemma metadata_lookup [simp]:
  "dict_get (link_metadata_of e a d res) LINK_WITHDRAWN_KEY = None"
  "dict_get (link_metadata_of e a d res) ''scope_scheme'' = Some (opt_str (ad_scope_scheme a))"
  by (simp_all add: link_metadata_of_def LINK_WITHDRAWN_KEY_def split: option.splits)

lemma with_copies_lookup [simp]:
  "k \<noteq> LEGACY_COPIES_KEY \<Longrightarrow> dict_get (with_copies cs m) k = dict_get m k"
  by (simp add: with_copies_def)

lemma copies_key_distinct [simp]: "LINK_WITHDRAWN_KEY \<noteq> LEGACY_COPIES_KEY" "''scope_scheme'' \<noteq> LEGACY_COPIES_KEY"
  by (simp_all add: LINK_WITHDRAWN_KEY_def LEGACY_COPIES_KEY_def)

lemma install_link_first:
  assumes r: "is_active (get_record (mr_record_id r) s)" and ns: "namespace_ok (mr_namespace r)" and b: "binding_ok b"
    and loc: "strip loc = loc" "loc \<noteq> []" "length loc \<le> 1024"
    and scheme: "opt_str (ad_scope_scheme a) = binding_scheme b"
  shows "\<exists>l. install_link wk r b loc (link_metadata_of e a d res) dg now (Suc k) (s, w)
        = (Inr True, (with_link (mr_record_id r, tb_identity b) (Some l) s, w))
      \<and> link_key l = (mr_record_id r, tb_identity b) \<and> tracks (Some l) b loc"
proof -
  let ?m = "link_metadata_of e a d res"
  let ?prev = "get_projection_link (mr_record_id r) (tb_identity b) s"
  define carried where "carried = carried_legacy_copies ?prev (opt_str (ad_scope_scheme a)) now"
  define m where "m = (if carried \<noteq> [] then with_copies carried ?m else ?m)"
  let ?l = "(new_link r b loc m dg now)\<lparr>pk_namespace := strip (mr_namespace r), pk_projection_name := strip (tb_projection_name b)\<rparr>"
  have len: "Suc 0 \<le> length loc" using loc(2) by (simp add: Suc_le_eq)
  have mk: "make_projection_link (new_link r b loc m dg now) = Inr ?l"
    using ns b loc len by (auto simp: make_projection_link_def default_legacy_target_identity_def new_link_def
        namespace_ok_def binding_ok_def len_ok_def Let_def)
  have key: "link_key ?l = (mr_record_id r, tb_identity b)" by (simp add: link_key_def new_link_def)
  obtain r1 where r1: "get_record (mr_record_id r) s = Some r1" "mr_state r1 = ACTIVE"
    using r by (auto simp: is_active_def split: option.splits)
  have rec: "pk_record_id ?l = mr_record_id r" by (simp add: new_link_def)
  have "save_projection_link_if_active ?l ?prev s = (Inr True, with_link (mr_record_id r, tb_identity b) (Some ?l) s)"
    unfolding save_projection_link_if_active_def rec key save_link_eq
    using r1 by (simp add: andThen_def gets_def check_def ret_def get_projection_link_def save_link_eq key)
  then have "install_link wk r b loc ?m dg now (Suc k) (s, w)
        = (Inr True, (with_link (mr_record_id r, tb_identity b) (Some ?l) s, w))"
    using mk by (cases "carried = []") (simp_all add: andThen_def on_store_def gets_def try_catch_def from_sum_def Let_def
        carried_def [symmetric] m_def)
  moreover have "tracks (Some ?l) b loc"
    using scheme by (auto simp: tracks_def link_withdrawn_def link_scheme_def new_link_def m_def)
  ultimately show ?thesis using key by blast
qed

lemma locator_of_nonblank: "locator_of res = Some loc \<Longrightarrow> strip loc \<noteq> []"
  by (auto simp: locator_of_def split: option.splits if_splits)

text \<open>A fresh copy of a record that is no longer current is withdrawn, and then no copy is left.\<close>

lemma withdraw_fresh_ok:
  assumes wk: "worker_ok wk copies" and rel: "withdraws_reliably (wk_provider wk) copies"
    and sane: "links_sane s" and tr: "copies_tracked (wk_runtime wk) copies (s, w)"
    and c: "copies w1 = (copies w)((tb_identity b, mr_record_id r) := Some loc)"
    and run: "withdraw_fresh wk r b loc (s, w1) = (res, z')"
  shows "world_ok (wk_runtime wk) copies z'"
proof -
  obtain x w2 where call: "pv_retire (wk_provider wk) (tb_identity b) (mr_record_id r) (mr_namespace r) loc
      ''post-project-race-stale'' w1 = (Inr x, w2)"
    using rel c unfolding withdraws_reliably_def by (metis fun_upd_same)
  let ?s = "pv_meanwhile (wk_provider wk) w2 s"
  have z': "z' = (?s, w2)"
    using run call by (simp add: withdraw_fresh_def andThen_def provider_call_def ret_def)
  have "copies w2 k = copies w k \<or> copies w2 k = None" for k
    using retire_copies(1) [OF wk call] c by (simp add: without_copy_cases)
  from tracked_removed [OF tr provider_calls(2) [OF wk sane] this] provider_calls(1) [OF wk sane]
  show ?thesis by (simp add: z' world_ok_def)
qed

lemma project_event_ok:
  assumes wk: "worker_ok wk copies" and rel: "withdraws_reliably (wk_provider wk) copies"
    and b: "b \<in> set (rt_targets (wk_runtime wk))"
    and z: "world_ok (wk_runtime wk) copies (s, w)" and run: "project_event wk now e b (s, w) = (res, z')"
  shows "world_ok (wk_runtime wk) copies z'"
proof -
  have rt: "runtime_ok (wk_runtime wk)" using wk by (simp add: worker_ok_def)
  have sane: "links_sane s" and tr: "copies_tracked (wk_runtime wk) copies (s, w)" using z by (simp_all add: world_ok_def)
  show ?thesis
  proof (cases "\<exists>r a d. get_record (ob_aggregate_id e) s = Some r \<and> mr_state r = ACTIVE \<and> delivers b
      \<and> adapter_for (wk_runtime wk) (tb_identity b) = Inr a \<and> render wk r = Inr d \<and> (d = None \<or> ad_rendered a)")
    case False
    then have "z' = (s, w)"
      using run
      by (auto simp: project_event_def andThen_def on_store_def gets_def ret_def throw_def from_sum_def deliver_copy_def
          split: option.splits sum.splits if_splits)
    with z show ?thesis by simp
  next
    case True
    then obtain r a d where r: "get_record (ob_aggregate_id e) s = Some r" "mr_state r = ACTIVE" and dl: "delivers b"
      and a: "adapter_for (wk_runtime wk) (tb_identity b) = Inr a" and d: "render wk r = Inr d" "d = None \<or> ad_rendered a"
      by blast
    have rid: "mr_record_id r = ob_aggregate_id e" and ns: "namespace_ok (mr_namespace r)"
      using sane r(1) by (auto simp: links_sane_def)
    have scheme: "opt_str (ad_scope_scheme a) = binding_scheme b"
      using adapter_for_binding [OF rt b a] by (simp add: binding_scheme_def)
    obtain x w1 where call: "pv_project (wk_provider wk) (tb_identity b) r d w = (x, w1)" by fastforce
    let ?s = "pv_meanwhile (wk_provider wk) w1 s"
    note mw = provider_calls [OF wk sane]
    note tr1 = tracked_same_links [OF tr mw(2) refl]
    show ?thesis
    proof (cases x)
      case (Inl err)
      with run r dl a d call have "z' = (?s, w1)"
        by (simp add: project_event_def andThen_def on_store_def gets_def from_sum_def deliver_copy_def provider_call_def)
      with mw tracked_same_links [OF tr mw(2) project_copies(1) [OF wk call [unfolded Inl]]] show ?thesis
        by (simp add: world_ok_def)
    next
      case (Inr result)
      obtain loc where loc: "locator_of result = Some loc" "strip loc = loc" "length loc \<le> 1024"
        and c: "copies w1 = (copies w)((tb_identity b, mr_record_id r) := Some loc)"
        using project_copies(2) [OF wk call [unfolded Inr]] by blast
      have ne: "loc \<noteq> []" using locator_of_nonblank [OF loc(1)] loc(2) by auto
      show ?thesis
      proof (cases "is_active (get_record (mr_record_id r) ?s)")
        case False
        with run r dl a d call Inr loc(1) have "withdraw_fresh wk r b loc (?s, w1) = (res, z')"
          by (simp add: project_event_def andThen_def on_store_def gets_def from_sum_def deliver_copy_def provider_call_def)
        then show ?thesis by (rule withdraw_fresh_ok [OF wk rel mw(1) tr1 c])
      next
        case True
        have bok: "binding_ok b" using wk b by (simp add: worker_ok_def)
        obtain l where i: "install_link wk r b loc (link_metadata_of e a d result) (map_option rd_template_digest d) now
            LINK_INSTALL_ATTEMPTS (?s, w1) = (Inr True, (with_link (mr_record_id r, tb_identity b) (Some l) ?s, w1))"
          and key: "link_key l = (mr_record_id r, tb_identity b)" and t: "tracks (Some l) b loc"
          using install_link_first [OF True ns bok loc(2) ne loc(3) scheme, of wk e d result "map_option rd_template_digest d" now 2 w1]
          by (auto simp: LINK_INSTALL_ATTEMPTS_def numeral_3_eq_3 numeral_2_eq_2 simp del: install_link.simps)
        have "z' = (with_link (mr_record_id r, tb_identity b) (Some l) ?s, w1)"
          using run r dl a d call Inr loc(1) True i
          by (simp add: project_event_def andThen_def on_store_def gets_def from_sum_def deliver_copy_def provider_call_def ret_def)
        moreover have "world_ok (wk_runtime wk) copies (with_link (mr_record_id r, tb_identity b) (Some l) ?s, w1)"
        proof (rule world_ok_relinked [OF mw(1) tr1 rt b])
          show "mr_state r' \<noteq> DELETED" if "get_record (mr_record_id r) ?s = Some r'" for r'
            using True that by (auto simp: is_active_def)
        qed (use key t c in auto)
        ultimately show ?thesis by simp
      qed
    qed
  qed
qed

lemma remaining_none:
  "list_projection_links rid s = [] \<Longrightarrow> get_projection_link rid tg s = None"
proof (rule ccontr)
  assume e: "list_projection_links rid s = []" and "get_projection_link rid tg s \<noteq> None"
  then obtain l where "((rid, tg), l) \<in> set (st_projection_links s)"
    by (auto simp: get_projection_link_def dest: map_of_SomeD)
  then have "l \<in> set (list_projection_links rid s)" by (force simp: list_projection_links_def)
  with e show False by simp
qed

lemma completed_frame:
  "st_projection_links (completed sid rid r d rcid now actor s) = st_projection_links s"
  "get_record k (completed sid rid r d rcid now actor s) =
     (if k = rid \<and> mr_state r \<noteq> DELETED then Some (transitioned (completing sid rid r rcid now actor) r) else get_record k s)"
  by (auto simp: completed_def Let_def after_transition_def get_record_def)

lemma transitioned_id [simp]: "mr_record_id (transitioned e r) = mr_record_id r"
  by (simp add: transitioned_def Let_def)

lemma completed_ok:
  assumes z: "world_ok rt copies (s, w)" and run: "complete_deletion sid rid rcid now actor s = (x, t)"
  shows "world_ok rt copies (t, w)"
proof -
  have "t = s \<or> (\<exists>r d. t = completed sid rid r d rcid now actor s \<and> get_record rid s = Some r \<and> list_projection_links rid s = [])"
    using run by (auto simp: complete_deletion_eq split: option.splits if_splits)
  then show ?thesis
  proof
    assume "t = s"
    with z show ?thesis by simp
  next
    assume "\<exists>r d. t = completed sid rid r d rcid now actor s \<and> get_record rid s = Some r \<and> list_projection_links rid s = []"
    then obtain r d where t: "t = completed sid rid r d rcid now actor s" and r: "get_record rid s = Some r"
      and none: "list_projection_links rid s = []" by blast
    have sane: "links_sane s" and tr: "copies_tracked rt copies (s, w)" using z by (simp_all add: world_ok_def)
    have "get_projection_link k tg t = get_projection_link k tg s" for k tg
      by (simp add: t get_projection_link_def completed_frame)
    then have "links_sane t"
      using sane r remaining_none [OF none] unfolding links_sane_def unlinked_when_deleted_def t
      by (auto simp: completed_frame split: if_splits)
    with tracked_same_links [OF tr _ refl, of t] show ?thesis by (simp add: world_ok_def t completed_frame)
  qed
qed

text \<open>Erasing one target's copy, whether it returns or raises.\<close>

lemma erase_copy_ok:
  assumes wk: "worker_ok wk copies" and b: "b \<in> set (rt_targets (wk_runtime wk))"
    and z: "world_ok (wk_runtime wk) copies (s, w)" and run: "erase_copy wk now e b rcid (s, w) = (res, z')"
  shows "world_ok (wk_runtime wk) copies z'"
proof -
  let ?rid = "ob_aggregate_id e"
  have rt: "runtime_ok (wk_runtime wk)" using wk by (simp add: worker_ok_def)
  have sane: "links_sane s" and tr: "copies_tracked (wk_runtime wk) copies (s, w)" using z by (simp_all add: world_ok_def)
  show ?thesis
  proof (cases "get_projection_link ?rid (tb_identity b) s")
    case None
    then have "z' = (s, w)" using run by (simp add: erase_copy_def andThen_def on_store_def gets_def ret_def)
    with z show ?thesis by simp
  next
    case l0: (Some l0)
    have key: "link_key l0 = (?rid, tb_identity b)" by (rule sane_link_key [OF sane l0])
    define fin where "fin l = (if legacy_copies (Some l) \<noteq> [] then drop_live_copy l now (Some rcid)
        else delete_projection_link ?rid (tb_identity b))" for l
    have fin: "\<exists>x. fin l u = (Inr (), with_link (?rid, tb_identity b) x u) \<and> (\<forall>k. x = Some k \<longrightarrow> link_key k = (?rid, tb_identity b))"
      if "link_key l = (?rid, tb_identity b)" for l u
      using drop_live_copy_eq [of l now "Some rcid" u] that unfolding fin_def by (auto simp: delete_link_eq intro: exI [of _ None])
    show ?thesis
    proof (cases rule: retain_stale_link_cases [of l0 b now s])
      case (retained k)
      let ?t = "with_link (?rid, tb_identity b) (Some k) s"
      have t: "world_ok (wk_runtime wk) copies (?t, w)" by (rule retained_ok [OF z rt b l0 retained(2,5)])
      obtain x where f: "fin k ?t = (Inr (), with_link (?rid, tb_identity b) x ?t)"
        and xk: "\<And>k'. x = Some k' \<Longrightarrow> link_key k' = (?rid, tb_identity b)" using fin [of k ?t] retained(2) key by auto
      have "z' = (with_link (?rid, tb_identity b) x ?t, w)"
        using run l0 retained f key unfolding fin_def [symmetric]
        by (simp add: erase_copy_def andThen_def on_store_def gets_def ret_def fin_def [symmetric])
      moreover have "world_ok (wk_runtime wk) copies (with_link (?rid, tb_identity b) x ?t, w)"
      proof (rule world_ok_relinked [OF _ _ rt b])
        show "links_sane ?t" "copies_tracked (wk_runtime wk) copies (?t, w)" using t by (simp_all add: world_ok_def)
        then show "tracks x b loc" if "copies w (tb_identity b, ?rid) = Some loc" for loc
          using that b retained(3) by (fastforce simp: copies_tracked_def tracks_def)
        show "mr_state r \<noteq> DELETED" if "get_record ?rid ?t = Some r" for r
          using sane_link_alive [OF sane l0] that by simp
      qed (use xk in auto)
      ultimately show ?thesis by simp
    next
      case kept
      show ?thesis
      proof (cases "link_withdrawn (Some l0)")
        case True
        obtain x where f: "fin l0 s = (Inr (), with_link (?rid, tb_identity b) x s)"
          and xk: "\<And>k'. x = Some k' \<Longrightarrow> link_key k' = (?rid, tb_identity b)" using fin [OF key, of s] by auto
        have "z' = (with_link (?rid, tb_identity b) x s, w)"
          using run l0 kept(1) True f
          by (simp add: erase_copy_def andThen_def on_store_def gets_def ret_def fin_def [symmetric])
        moreover have "world_ok (wk_runtime wk) copies (with_link (?rid, tb_identity b) x s, w)"
        proof (rule world_ok_relinked [OF sane tr rt b])
          show "tracks x b loc" if "copies w (tb_identity b, ?rid) = Some loc" for loc
            using that b True l0 tr by (fastforce simp: copies_tracked_def tracks_def)
          show "mr_state r \<noteq> DELETED" if "get_record ?rid s = Some r" for r
            using sane_link_alive [OF sane l0 that] .
        qed (use xk in auto)
        ultimately show ?thesis by simp
      next
        case nw: False
        show ?thesis
        proof (cases "adapter_for (wk_runtime wk) (tb_identity b)")
          case (Inl err)
          then have "z' = (s, w)"
            using run l0 kept(1) nw by (simp add: erase_copy_def andThen_def on_store_def gets_def ret_def from_sum_def)
          with z show ?thesis by simp
        next
          case (Inr a)
          obtain y w1 where call: "pv_erase (wk_provider wk) (tb_identity b) ?rid (ob_namespace e) (pk_locator l0) w = (y, w1)"
            by fastforce
          let ?s = "pv_meanwhile (wk_provider wk) w1 s"
          show ?thesis
          proof (cases y)
            case (Inl err)
            then have "z' = (?s, w1)"
              using run l0 kept(1) nw Inr call
              by (simp add: erase_copy_def andThen_def on_store_def gets_def ret_def from_sum_def provider_call_def)
            with provider_calls [OF wk sane] tracked_same_links [OF tr] erase_copies(2) [OF wk call [unfolded Inl]]
            show ?thesis by (simp add: world_ok_def)
          next
            case y: (Inr v)
            obtain x where f: "fin l0 ?s = (Inr (), with_link (?rid, tb_identity b) x ?s)"
              and xk: "\<And>k'. x = Some k' \<Longrightarrow> link_key k' = (?rid, tb_identity b)" using fin [OF key, of ?s] by auto
            have "z' = (with_link (?rid, tb_identity b) x ?s, w1)"
              using run l0 kept(1) nw Inr call y f
              by (simp add: erase_copy_def andThen_def on_store_def gets_def ret_def from_sum_def provider_call_def fin_def [symmetric])
            with dropped_ok [OF wk z b l0 nw erase_copies(1) [OF wk call [unfolded y]]] xk key show ?thesis by simp
          qed
        qed
      qed
    qed
  qed
qed

lemma erase_event_ok:
  assumes wk: "worker_ok wk copies" and b: "b \<in> set (rt_targets (wk_runtime wk))"
    and z: "world_ok (wk_runtime wk) copies z" and run: "erase_event wk sid now e b z = (res, z')"
  shows "world_ok (wk_runtime wk) copies z'"
proof (cases "get_str (ob_payload e) ''deletion_receipt_id''")
  case None
  with run z show ?thesis by (simp add: erase_event_def)
next
  case (Some rcid)
  obtain x s1 w1 where ec: "erase_copy wk now e b rcid z = (x, (s1, w1))" by (metis surj_pair)
  have ok: "world_ok (wk_runtime wk) copies (s1, w1)"
    using erase_copy_ok [OF wk b, of "fst z" "snd z"] z ec by simp
  obtain y t where cd: "uuid_parse rcid \<noteq> None \<Longrightarrow>
      complete_deletion sid (ob_aggregate_id e) (the (uuid_parse rcid)) now (''memory.outbox-worker:'' @ wk_id wk) s1 = (y, t)"
    by (metis surj_pair)
  have "z' = (s1, w1) \<or> uuid_parse rcid \<noteq> None \<and> z' = (t, w1)"
    using run Some ec cd
    by (cases x; cases "uuid_parse rcid")
      (auto simp: erase_event_def andThen_def on_store_def gets_def ret_def throw_def split: if_splits)
  with ok completed_ok [OF ok cd] show ?thesis by blast
qed

lemma deliver_event_ok:
  assumes wk: "worker_ok wk copies" and rel: "withdraws_reliably (wk_provider wk) copies"
    and z: "world_ok (wk_runtime wk) copies z" and run: "deliver_event wk en n e z = (res, z')"
  shows "world_ok (wk_runtime wk) copies z'"
proof (cases "resolve_event_target (wk_runtime wk) (dict_get (ob_payload e) ''target_identity'')")
  case (Inl x)
  with run z show ?thesis by (simp add: deliver_event_def andThen_def from_sum_def)
next
  case (Inr b)
  have rt: "runtime_ok (wk_runtime wk)" using wk by (simp add: worker_ok_def)
  have b: "b \<in> set (rt_targets (wk_runtime wk))"
    using Inr find_target_Inr [OF rt]
    by (auto simp: resolve_event_target_def Let_def split: list.splits option.splits json.splits if_splits)
  show ?thesis
  proof -
    have cases: "project_event wk (env_now en) e b z = (res, z') \<or> retire_event wk (env_uuid en (U_batch n)) (env_now en) e b z = (res, z')
        \<or> erase_event wk (env_uuid en (U_status n)) (env_now en) e b z = (res, z') \<or> z' = z"
      using run by (simp add: deliver_event_def andThen_def from_sum_def Inr split: if_splits)
    obtain s w where zz: "z = (s, w)" by (cases z)
    from cases show ?thesis
      using project_event_ok [OF wk rel b z [unfolded zz]] retire_event_ok [OF wk b z [unfolded zz]] erase_event_ok [OF wk b z] z
      unfolding zz by blast
  qed
qed

lemma settle_same:
  "settle e st att nxt err del z = (r, z') \<Longrightarrow>
     st_projection_links (fst z') = st_projection_links (fst z) \<and> st_records (fst z') = st_records (fst z) \<and> snd z' = snd z"
  by (auto simp: settle_def update_outbox_def try_catch_def andThen_def on_store_def gets_def check_def throw_def ret_def modify_def
      split: prod.splits sum.splits option.splits if_splits)

lemma settle_ok:
  "settle e st att nxt err del z = (r, z') \<Longrightarrow> world_ok rt copies z \<Longrightarrow> world_ok rt copies z'"
  using settle_same world_ok_same [of rt copies "fst z" "snd z" "fst z'"] by (metis prod.collapse)

lemma process_event_ok:
  assumes wk: "worker_ok wk copies" and rel: "withdraws_reliably (wk_provider wk) copies"
    and z: "world_ok (wk_runtime wk) copies z" and run: "process_event wk en x z = (res, z')"
  shows "world_ok (wk_runtime wk) copies z'"
proof -
  obtain r v where d: "deliver_event wk en (fst x) (snd x) z = (r, v)" by (meson surj_pair)
  have v: "world_ok (wk_runtime wk) copies v" by (rule deliver_event_ok [OF wk rel z d])
  show ?thesis
  proof (cases r)
    case (Inl e)
    with run d have "failed_event wk (env_now en) (snd x) e v = (res, z')"
      by (simp add: process_event_def try_catch_def andThen_def)
    moreover obtain b t where st: "settle (snd x) (if wk_max_attempts wk \<le> Suc (ob_attempts (snd x)) then X_DEAD else X_RETRY)
        (Suc (ob_attempts (snd x)))
        (if wk_max_attempts wk \<le> Suc (ob_attempts (snd x)) then env_now en
         else env_now en + seconds (retry_delay (wk_base_delay wk) (Suc (ob_attempts (snd x))))) (Some (error_text e)) None v
        = (Inr b, t)" using settle_total by blast
    ultimately have "z' = t" by (simp add: failed_event_def Let_def andThen_def ret_def)
    with settle_ok [OF st v] show ?thesis by simp
  next
    case (Inr y)
    obtain b t where st: "settle (snd x) X_DELIVERED (ob_attempts (snd x) + 1) (env_now en) None (Some (env_now en)) v = (Inr b, t)"
      using settle_total by blast
    with run d Inr have "z' = t" by (simp add: process_event_def try_catch_def andThen_def ret_def)
    with settle_ok [OF st v] show ?thesis by simp
  qed
qed

lemma process_all_ok:
  assumes wk: "worker_ok wk copies" and rel: "withdraws_reliably (wk_provider wk) copies"
  shows "world_ok (wk_runtime wk) copies z \<Longrightarrow> map_each (process_event wk en) xs z = (res, z') \<Longrightarrow>
     world_ok (wk_runtime wk) copies z'"
proof (induction xs arbitrary: z res)
  case Nil
  then show ?case by simp
next
  case (Cons x xs)
  obtain out u where p: "process_event wk en x z = (Inr out, u)" using process_total by blast
  then obtain r where "map_each (process_event wk en) xs u = (r, z')"
    using Cons.prems(2) by (auto simp: andThen_def ret_def split: prod.splits sum.splits)
  with Cons.IH process_event_ok [OF wk rel Cons.prems(1) p] show ?case by blast
qed

lemma worker_step_ok:
  assumes wk: "worker_ok wk copies" and rel: "withdraws_reliably (wk_provider wk) copies"
    and z: "world_ok (wk_runtime wk) copies z"
  shows "world_ok (wk_runtime wk) copies (worker_step wk z en)"
proof (cases "rt_targets (wk_runtime wk) = []")
  case True
  with z show ?thesis by (simp add: worker_step_def run_once_def ret_def)
next
  case False
  let ?c = "claim_outbox (\<lambda>i. env_uuid en (U_event i)) (wk_batch_size wk) (env_now en) (wk_lease_seconds wk) (wk_id wk)"
  obtain evs s1 where c: "?c (fst z) = (Inr evs, s1)"
    and same: "st_projection_links s1 = st_projection_links (fst z)" "st_records s1 = st_records (fst z)"
    by (simp add: claim_outbox_eq)
  have ok: "world_ok (wk_runtime wk) copies (s1, snd z)"
    using world_ok_same [of _ _ "fst z" "snd z" s1] z same by simp
  obtain outs u where p: "map_each (process_event wk en) (enumerate 0 evs) (s1, snd z) = (Inr outs, u)"
    using process_all_total [of wk en "enumerate 0 evs" "(s1, snd z)"] by blast
  have "worker_step wk z en = u"
    using False c p by (simp add: worker_step_def run_once_def andThen_def on_store_def ret_def)
  with process_all_ok [OF wk rel ok p] show ?thesis by simp
qed

interpretation copy_machine: guarded_machine "worker_step wk" "world_ok (wk_runtime wk) copies"
    "\<lambda>z en. worker_ok wk copies \<and> withdraws_reliably (wk_provider wk) copies"
  for wk :: "'w worker" and copies :: "'w copies"
  by unfold_locales (simp add: worker_step_ok)

lemma allowed_always: "P \<Longrightarrow> run_allowed step (\<lambda>z x. P) z xs"
  by (induction xs arbitrary: z) simp_all

text \<open>What the invariant says of deleted records.\<close>

lemma tracked_when_deleted:
  assumes "world_ok rt copies (t, w)"
  shows "copies_tracked rt copies (t, w)
    \<and> (\<forall>rid r b. get_record rid t = Some r \<and> mr_state r = DELETED \<and> b \<in> set (rt_targets rt) \<longrightarrow>
         copies w (tb_identity b, rid) = None)"
proof -
  from assms have sane: "links_sane t" and tr: "copies_tracked rt copies (t, w)" by (simp_all add: world_ok_def)
  have "copies w (tb_identity b, rid) = None"
    if d: "get_record rid t = Some r" "mr_state r = DELETED" and b: "b \<in> set (rt_targets rt)" for rid r b
  proof (rule ccontr)
    assume "copies w (tb_identity b, rid) \<noteq> None"
    then have "get_projection_link rid (tb_identity b) t \<noteq> None"
      using tr b by (fastforce simp: copies_tracked_def tracks_def)
    moreover have "get_projection_link rid (tb_identity b) t = None"
      using sane d by (auto simp: links_sane_def unlinked_when_deleted_def)
    ultimately show False by simp
  qed
  with tr show ?thesis by blast
qed

end
