(* ===== verification/ProjectionLaws.thy ===== *)
theory ProjectionLaws
  imports ServiceProjection ServiceDelete CopyLaws
begin

text \<open>
  What the operations over provider copies guarantee: a rebuild queues exactly the missing
  copies, a cutover is recorded only when every current record is projected, and a legacy
  release drops exactly the legacy obligations and completes only deletions without copies.
\<close>

section \<open>Rebuild\<close>

text \<open>A target needs a copy of a record: no link, or, where scopes exist, no live link of the current scope.\<close>

definition scheme_of :: "target_binding \<Rightarrow> string option" where
  "scheme_of b = Option.bind (tb_adapter b) ad_scope_scheme"

definition needs_copy :: "target_binding \<Rightarrow> store \<Rightarrow> memory_record \<Rightarrow> bool" where
  "needs_copy b s r \<longleftrightarrow>
     (case get_projection_link (mr_record_id r) (tb_identity b) s of
        None \<Rightarrow> True
      | Some l \<Rightarrow> (\<exists>scheme. scheme_of b = Some scheme \<and> (link_withdrawn (Some l) \<or> link_scheme l \<noteq> JStr scheme)))"

definition stale_link :: "string \<Rightarrow> projection_link option \<Rightarrow> bool" where
  "stale_link scheme x \<longleftrightarrow> (\<exists>l. x = Some l \<and> (link_withdrawn (Some l) \<or> link_scheme l \<noteq> JStr scheme))"

lemma rescope_loop_step:
  "rescope_loop scheme link_of queued (Suc room) (r # rs) =
     (if mr_record_id r \<notin> set queued \<and> stale_link scheme (link_of (mr_record_id r))
      then (r # fst (rescope_loop scheme link_of queued room rs),
            (if link_withdrawn (link_of (mr_record_id r)) then [] else [mr_record_id r])
              @ snd (rescope_loop scheme link_of queued room rs))
      else rescope_loop scheme link_of queued (Suc room) rs)"
  by (cases "link_of (mr_record_id r)") (auto simp: stale_link_def split: prod.splits)

lemma rescope_loop_stale:
  "fst (rescope_loop scheme link_of queued room rs)
     = take room (filter (\<lambda>r. mr_record_id r \<notin> set queued \<and> stale_link scheme (link_of (mr_record_id r))) rs)"
proof (induction rs arbitrary: room)
  case Nil
  then show ?case by simp
next
  case (Cons r rs)
  then show ?case by (cases room) (simp_all only: rescope_loop_step, auto)
qed

lemma active_listed:
  assumes "store_wf s"
  shows "r \<in> set (list_records tenant ns [ACTIVE] None s) \<longleftrightarrow>
     get_record (mr_record_id r) s = Some r \<and> mr_tenant_id r = tenant \<and> mr_namespace r = ns \<and> mr_state r = ACTIVE"
proof -
  have k: "keyed mr_record_id (st_records s)" using assms by (simp add: store_wf_def store_keyed_def)
  show ?thesis
    using keyed_values [OF k, of r] by (auto simp: list_records_def get_record_def)
qed

text \<open>
  The records a target needs copies of, in the order a rebuild takes them: those without a
  link, oldest first, and then, most recent first, those whose link is withdrawn or of another
  scope.
\<close>

definition missing_copies :: "string \<Rightarrow> string \<Rightarrow> target_binding \<Rightarrow> store \<Rightarrow> memory_record list" where
  "missing_copies tenant ns b s =
     sort_key (\<lambda>r. recorded_at (mr_temporal r))
       (filter (\<lambda>r. get_projection_link (mr_record_id r) (tb_identity b) s = None) (namespace_active tenant ns s))
     @ filter (\<lambda>r. \<exists>scheme. scheme_of b = Some scheme
                  \<and> stale_link scheme (get_projection_link (mr_record_id r) (tb_identity b) s))
         (list_records tenant ns [ACTIVE] None s)"

lemma listed_active: "set (list_records tenant ns [ACTIVE] None s) = set (namespace_active tenant ns s)"
  by (simp add: list_records_def namespace_active_def by_recency_def sort_desc_def)

lemma needs_copy_cases:
  "needs_copy b s r \<longleftrightarrow> get_projection_link (mr_record_id r) (tb_identity b) s = None
     \<or> (\<exists>scheme. scheme_of b = Some scheme \<and> stale_link scheme (get_projection_link (mr_record_id r) (tb_identity b) s))"
  by (cases "get_projection_link (mr_record_id r) (tb_identity b) s") (auto simp: needs_copy_def stale_link_def)

lemma missing_copies_set:
  assumes "store_wf s"
  shows "set (missing_copies tenant ns b s) = {r. get_record (mr_record_id r) s = Some r \<and> mr_tenant_id r = tenant
      \<and> mr_namespace r = ns \<and> mr_state r = ACTIVE \<and> needs_copy b s r}"
proof -
  have "set (missing_copies tenant ns b s) = {r \<in> set (list_records tenant ns [ACTIVE] None s). needs_copy b s r}"
    unfolding missing_copies_def set_append set_sort set_filter listed_active [symmetric] needs_copy_cases by blast
  then show ?thesis by (auto simp: active_listed [OF assms])
qed

lemma missing_copies_distinct:
  assumes "store_wf s"
  shows "distinct (missing_copies tenant ns b s)"
proof -
  have k: "keyed mr_record_id (st_records s)" using assms by (simp add: store_wf_def store_keyed_def)
  have a: "distinct (namespace_active tenant ns s)"
    unfolding namespace_active_def
    using keyed_distinct [OF k] distinct_map [of mr_record_id "dict_values (st_records s)"] by (blast intro: distinct_filter)
  have "mset (list_records tenant ns [ACTIVE] None s) = mset (namespace_active tenant ns s)"
    by (simp add: list_records_def namespace_active_def by_recency_def sort_desc_def)
  with a have "distinct (list_records tenant ns [ACTIVE] None s)" by (metis mset_eq_imp_distinct_iff)
  with a show ?thesis by (auto simp: missing_copies_def stale_link_def)
qed

lemma missing_copies_order:
  "sorted_wrt (\<lambda>x y. get_projection_link (mr_record_id y) (tb_identity b) s = None \<longrightarrow>
     get_projection_link (mr_record_id x) (tb_identity b) s = None) (missing_copies tenant ns b s)"
proof -
  have all: "(\<forall>x \<in> set xs. P x) \<Longrightarrow> sorted_wrt (\<lambda>x y. P y \<longrightarrow> P x) xs" for P and xs :: "memory_record list"
    by (induction xs) auto
  have none: "(\<forall>x \<in> set xs. \<not> P x) \<Longrightarrow> sorted_wrt (\<lambda>x y. P y \<longrightarrow> P x) xs" for P and xs :: "memory_record list"
    by (induction xs) auto
  show ?thesis
    unfolding missing_copies_def sorted_wrt_append
    by (intro conjI all none) (auto simp: stale_link_def)
qed

text \<open>A rebuild takes as many of them as its limit allows.\<close>

lemma rebuild_batch_exact:
  "fst (rebuild_batch tenant ns limit s b) = take limit (missing_copies tenant ns b s)"
proof -
  let ?act = "list_records tenant ns [ACTIVE] None s"
  let ?link = "\<lambda>rid. get_projection_link rid (tb_identity b) s"
  let ?un = "sort_key (\<lambda>r. recorded_at (mr_temporal r)) (filter (\<lambda>r. ?link (mr_record_id r) = None) (namespace_active tenant ns s))"
  let ?c = "list_unprojected_records tenant ns (tb_identity b) limit s"
  have "filter (\<lambda>r. mr_tenant_id r = tenant \<and> mr_namespace r = ns \<and> mr_state r = ACTIVE
          \<and> \<not> dict_has (st_projection_links s) (mr_record_id r, tb_identity b)) (dict_values (st_records s))
      = filter (\<lambda>r. ?link (mr_record_id r) = None) (namespace_active tenant ns s)"
    by (simp add: namespace_active_def dict_has_def get_projection_link_def conj_ac)
  then have c: "?c = take limit ?un" by (simp add: list_unprojected_records_def)
  then have rest: "limit - length ?c = limit - length ?un" by simp
  show ?thesis
  proof (cases "scheme_of b")
    case None
    then show ?thesis
      by (simp add: rebuild_batch_def rescope_candidates_def scheme_of_def missing_copies_def c)
  next
    case (Some scheme)
    have "mr_record_id r \<notin> set (map mr_record_id ?c)" if "stale_link scheme (?link (mr_record_id r))" for r
    proof
      assume "mr_record_id r \<in> set (map mr_record_id ?c)"
      then have "mr_record_id r \<in> mr_record_id ` set (take limit ?un)" unfolding c set_map .
      then obtain q where q: "mr_record_id r = mr_record_id q" "q \<in> set (take limit ?un)" by (rule imageE)
      from q(2) have "q \<in> set ?un" by (rule in_set_takeD)
      then have "?link (mr_record_id q) = None" by simp
      with that q(1) show False by (simp add: stale_link_def)
    qed
    then have "filter (\<lambda>r. mr_record_id r \<notin> set (map mr_record_id ?c) \<and> stale_link scheme (?link (mr_record_id r))) ?act
        = filter (\<lambda>r. stale_link scheme (?link (mr_record_id r))) ?act"
      by (intro filter_cong [OF refl]) blast
    moreover have "fst (rebuild_batch tenant ns limit s b)
        = ?c @ fst (rescope_loop scheme ?link (map mr_record_id ?c) (limit - length ?c) ?act)"
      using Some by (simp add: rebuild_batch_def rescope_candidates_def scheme_of_def Let_def split: prod.splits)
    ultimately have "fst (rebuild_batch tenant ns limit s b)
        = take limit ?un @ take (limit - length ?un) (filter (\<lambda>r. stale_link scheme (?link (mr_record_id r))) ?act)"
      unfolding rescope_loop_stale rest by (simp only: c)
    then show ?thesis by (simp add: missing_copies_def Some)
  qed
qed

lemma rebuild_pairs_intents:
  "map intent (extend_events (rebuild_event en ns) k pairs)
     = map (\<lambda>(b, r). (''memory.record.project'', mr_record_id r, Some (tb_identity b))) pairs"
  using extend_events_intents [of "rebuild_event en ns" "\<lambda>x. [(''memory.record.project'', mr_record_id (snd x), Some (tb_identity (fst x)))]" k pairs]
  by (simp add: rebuild_event_def case_prod_beta comp_def)

text \<open>
  Property C24: a rebuild queues exactly the missing copies, up to its limit. An applied
  rebuild was asked for by a maintainer and leaves every record and every link as it is. The
  current records of the namespace without a live copy of the current scope in a selected
  target can be listed, those without any link first, such that the rebuild owes one
  projection, target by target, for exactly the first \<open>limit\<close> of each list: for all of them
  when they are no more than \<open>limit\<close>. Every selected target receives deliveries, and healthy
  copies are left alone.
\<close>

theorem rebuild_queues_missing_copies:
  assumes "store_wf s" and "rebuild_projection svc en p ns True limit reason target s = (Inr receipt, t)"
  shows "may p A_MAINTAIN ns \<and> st_records t = st_records s \<and> st_projection_links t = st_projection_links s
    \<and> (\<exists>selected missing es. select_targets svc target = Inr selected \<and> selected \<noteq> [] \<and> (\<forall>b \<in> set selected. delivers b)
        \<and> (\<forall>b. distinct (missing b)
             \<and> set (missing b) = {r. get_record (mr_record_id r) s = Some r \<and> mr_tenant_id r = mp_tenant_id p
                 \<and> mr_namespace r = ns \<and> mr_state r = ACTIVE \<and> needs_copy b s r}
             \<and> sorted_wrt (\<lambda>x y. get_projection_link (mr_record_id y) (tb_identity b) s = None \<longrightarrow>
                 get_projection_link (mr_record_id x) (tb_identity b) s = None) (missing b))
        \<and> st_outbox t = dict_set_all ob_event_id es (st_outbox s) \<and> pb_outbox_event_ids receipt = map ob_event_id es
        \<and> map intent es = concat (map (\<lambda>b. map (\<lambda>r. (''memory.record.project'', mr_record_id r, Some (tb_identity b)))
            (take limit (missing b))) selected))"
proof -
  have "\<exists>selected. select_targets svc target = Inr selected \<and> selected \<noteq> [] \<and> may p A_MAINTAIN ns"
    using assms(2) by (cases "select_targets svc target") (auto simp: rebuild_projection_def andThen_Inr split: if_splits)
  then obtain selected where sel: "select_targets svc target = Inr selected" "selected \<noteq> []" "may p A_MAINTAIN ns"
    by blast
  let ?missing = "\<lambda>b. missing_copies (mp_tenant_id p) ns b s"
  let ?pairs = "rebuild_pairs (mp_tenant_id p) ns limit s selected"
  let ?es = "extend_events (rebuild_event en ns) 0 ?pairs"
  let ?r = "rebuild_receipt_of en p ns True limit reason (evaluate (stamp_of en U_authorization) p A_MAINTAIN ns) selected s ?es"
  have run: "(if ?es \<noteq> [] then andThen (commit_projection_rebuild SERVICE_WRITE_CAPABILITY receipt ?es) (\<lambda>_. ret receipt) s
      else (Inr receipt, s)) = (Inr receipt, t)" and rc: "receipt = ?r"
    using assms(2) sel by (auto simp: rebuild_projection_def andThen_Inr make_rebuild_receipt_def split: if_splits)
  have t: "st_records t = st_records s" "st_projection_links t = st_projection_links s"
    "st_outbox t = dict_set_all ob_event_id ?es (st_outbox s)"
    using run by (auto simp: commit_projection_rebuild_def andThen_Inr require_service_write_capability_def
        put_outbox_events_def split: if_splits)
  have d: "\<forall>b \<in> set selected. delivers b"
    using sel(1) by (auto simp: select_targets_def delivery_targets_def split: option.splits sum.splits if_splits)
  have es: "map intent ?es = concat (map (\<lambda>b. map (\<lambda>r. (''memory.record.project'', mr_record_id r, Some (tb_identity b)))
      (take limit (?missing b))) selected)"
    unfolding rebuild_pairs_intents by (simp add: rebuild_pairs_def rebuild_batch_exact map_concat comp_def)
  have "pb_outbox_event_ids receipt = map ob_event_id ?es"
    by (simp add: rc rebuild_receipt_of_def Let_def)
  with sel d t es missing_copies_set [OF assms(1)] missing_copies_distinct [OF assms(1)] missing_copies_order
  show ?thesis by (intro conjI exI [of _ selected] exI [of _ ?missing] exI [of _ ?es]) auto
qed

section \<open>Cutovers\<close>

lemma cutover_receipt_sel [simp]:
  "gc_tenant_id (cutover_receipt_of en p ns q a b cf s) = mp_tenant_id p"
  "gc_namespace (cutover_receipt_of en p ns q a b cf s) = ns"
  "gc_rollback_window_ends_at (cutover_receipt_of en p ns q a b cf s) = env_now en + cq_rollback_window q"
  "gc_cut_over_at (cutover_receipt_of en p ns q a b cf s) = env_now en"
  "gc_applied (cutover_receipt_of en p ns q a b cf s) \<longleftrightarrow> cq_apply q \<and> gc_ready (cutover_receipt_of en p ns q a b cf s)"
  "gc_ready (cutover_receipt_of en p ns q a b cf s) \<longleftrightarrow>
     (\<forall>r \<in> set (list_records (mp_tenant_id p) ns [ACTIVE] None s). projected_under b cf s r) \<and> outbox_backlog s = 0"
  by (simp_all add: cutover_receipt_of_def Let_def filter_empty_conv)

lemma make_cutover_receipt_Inr: "make_cutover_receipt r = Inr receipt \<Longrightarrow> receipt = r"
  by (auto simp: make_cutover_receipt_def split: if_splits)

text \<open>A cutover requested by an administrator for a deployment that has a graph target.\<close>

lemma cutover_run:
  assumes "may p A_ADMIN ns" and "graph_projection_target (sv_runtime svc) = Inr (Some b)"
  shows "record_graph_cutover svc confirm en p ns q s =
      (if \<not> 0 \<le> cq_rollback_window q then (Inl (CutoverNotReady ''the rollback window cannot be negative''), s)
       else if strip (cq_previous_binding q) = strip (cq_new_binding q)
       then (Inl (CutoverNotReady ''the new binding must differ from the previous binding''), s)
       else (case make_cutover_receipt (cutover_receipt_of en p ns q
             (evaluate (stamp_of en U_authorization) p A_ADMIN ns) b (confirm (mp_tenant_id p) ns) s) of
          Inl e \<Rightarrow> (Inl e, s)
        | Inr receipt \<Rightarrow>
            if \<not> cq_apply q then (Inr receipt, s)
            else if \<not> gc_ready receipt
            then (Inl (CutoverNotReady ''active records are not projected or outbox events are undelivered''), s)
            else if \<not> gc_applied receipt then (Inl (StoreError ''cannot persist a non-applied graph cutover''), s)
            else (Inr receipt, s\<lparr>st_graph_cutovers := st_graph_cutovers s @ [receipt]\<rparr>)))"
  using assms
  by (simp add: record_graph_cutover_def andThen_def authorize_run from_sum_def check_def ret_def throw_def gets_def
      commit_graph_cutover_def require_service_write_capability_def modify_def split: sum.splits)

lemma cutover_refused:
  assumes "\<not> (may p A_ADMIN ns \<and> (\<exists>b. graph_projection_target (sv_runtime svc) = Inr (Some b)))"
  shows "\<exists>e. record_graph_cutover svc confirm en p ns q s = (Inl e, s)"
  using assms by (cases "graph_projection_target (sv_runtime svc)")
    (auto simp: record_graph_cutover_def andThen_def authorize_run from_sum_def throw_def split: option.splits)

lemma all_projected_iff:
  assumes "store_wf s"
  shows "(\<forall>r \<in> set (list_records tn ns [ACTIVE] None s). projected_under b cf s r) \<longleftrightarrow>
     (\<forall>rid r. get_record rid s = Some r \<and> mr_tenant_id r = tn \<and> mr_namespace r = ns
        \<and> mr_state r = ACTIVE \<longrightarrow> projected_under b cf s r)"
  using active_listed [OF assms] get_record_id [OF assms] by blast

text \<open>
  A cutover is recorded only when it is ready. An applied cutover that succeeds
  was asked for by an administrator of the namespace; every current record of the namespace
  has a live link of the target's scope that the provider confirms, and no outbox event is
  undelivered; the receipt becomes the namespace's latest cutover and opens its rollback
  window. In every other case the store is left as it was.
\<close>

theorem cutover_recorded_when_ready:
  assumes "store_wf s"
  shows "case record_graph_cutover svc confirm en p ns q s of
      (Inl e, t) \<Rightarrow> t = s
    | (Inr receipt, t) \<Rightarrow>
        if \<not> cq_apply q then t = s
        else may p A_ADMIN ns \<and> outbox_backlog s = 0
          \<and> (\<exists>b. graph_projection_target (sv_runtime svc) = Inr (Some b)
               \<and> (\<forall>rid r. get_record rid s = Some r \<and> mr_tenant_id r = mp_tenant_id p \<and> mr_namespace r = ns
                    \<and> mr_state r = ACTIVE \<longrightarrow> projected_under b (confirm (mp_tenant_id p) ns) s r))
          \<and> t = s\<lparr>st_graph_cutovers := st_graph_cutovers s @ [receipt]\<rparr>
          \<and> last (list_graph_cutovers (mp_tenant_id p) ns t) = receipt
          \<and> gc_rollback_window_ends_at receipt = env_now en + cq_rollback_window q \<and> 0 \<le> cq_rollback_window q"
proof (cases "may p A_ADMIN ns \<and> (\<exists>b. graph_projection_target (sv_runtime svc) = Inr (Some b))")
  case False
  from cutover_refused [OF this] obtain e where "record_graph_cutover svc confirm en p ns q s = (Inl e, s)" by blast
  then show ?thesis by simp
next
  case True
  then obtain b where b: "may p A_ADMIN ns" "graph_projection_target (sv_runtime svc) = Inr (Some b)" by blast
  let ?rc = "cutover_receipt_of en p ns q (evaluate (stamp_of en U_authorization) p A_ADMIN ns) b (confirm (mp_tenant_id p) ns) s"
  have mk: "make_cutover_receipt ?rc = Inr receipt \<Longrightarrow> receipt = ?rc" for receipt
    by (rule make_cutover_receipt_Inr)
  have l: "last (list_graph_cutovers (mp_tenant_id p) ns (s\<lparr>st_graph_cutovers := st_graph_cutovers s @ [?rc]\<rparr>)) = ?rc"
    by (simp add: list_graph_cutovers_def)
  note act = all_projected_iff [OF assms, of "mp_tenant_id p" ns b "confirm (mp_tenant_id p) ns"]
  show ?thesis
    unfolding cutover_run [OF b] using b mk l act by (auto split: sum.splits)
qed

section \<open>Legacy releases\<close>

subsection \<open>The plan\<close>

definition releasing :: "store \<Rightarrow> memory_record \<Rightarrow> projection_link list" where
  "releasing s r = filter (\<lambda>l. legacy_copies (Some l) \<noteq> []) (list_projection_links (mr_record_id r) s)"

definition withdrawn_of :: "store \<Rightarrow> memory_record \<Rightarrow> projection_link list" where
  "withdrawn_of s r = filter (\<lambda>l. link_withdrawn (Some l)) (releasing s r)"

definition live_of :: "store \<Rightarrow> memory_record \<Rightarrow> projection_link list" where
  "live_of s r = filter (\<lambda>l. \<not> link_withdrawn (Some l)) (releasing s r)"

definition planned :: "store \<Rightarrow> memory_record list \<Rightarrow> release_plan \<Rightarrow> release_plan \<Rightarrow> bool" where
  "planned s rs plan plan' \<longleftrightarrow>
     rpl_released plan' = rpl_released plan @ map mr_record_id (filter (\<lambda>r. releasing s r \<noteq> []) rs)
     \<and> rpl_link_updates plan' = rpl_link_updates plan @ concat (map (\<lambda>r. map released_link (live_of s r)) rs)
     \<and> rpl_link_removals plan' = rpl_link_removals plan
          @ concat (map (\<lambda>r. map (\<lambda>l. (mr_record_id r, pk_target_identity l)) (withdrawn_of s r)) rs)
     \<and> (\<exists>cs. rpl_deletion_completions plan' = rpl_deletion_completions plan @ cs
          \<and> rpl_completed plan' = rpl_completed plan @ map fst cs
          \<and> (\<forall>c \<in> set cs. \<exists>r \<in> set rs. fst c = mr_record_id r \<and> mr_state r = DELETION_PENDING \<and> releasing s r \<noteq> []))"

lemma planned_Cons:
  assumes "planned s [r] plan grown" and "planned s rs grown plan'"
  shows "planned s (r # rs) plan plan'"
proof -
  from assms obtain cs ds where c:
    "rpl_deletion_completions grown = rpl_deletion_completions plan @ cs" "rpl_completed grown = rpl_completed plan @ map fst cs"
    "\<forall>c \<in> set cs. fst c = mr_record_id r \<and> mr_state r = DELETION_PENDING \<and> releasing s r \<noteq> []"
    "rpl_deletion_completions plan' = rpl_deletion_completions grown @ ds" "rpl_completed plan' = rpl_completed grown @ map fst ds"
    "\<forall>c \<in> set ds. \<exists>q \<in> set rs. fst c = mr_record_id q \<and> mr_state q = DELETION_PENDING \<and> releasing s q \<noteq> []"
    unfolding planned_def by auto
  then have "\<exists>cs. rpl_deletion_completions plan' = rpl_deletion_completions plan @ cs
      \<and> rpl_completed plan' = rpl_completed plan @ map fst cs
      \<and> (\<forall>c \<in> set cs. \<exists>q \<in> set (r # rs). fst c = mr_record_id q \<and> mr_state q = DELETION_PENDING \<and> releasing s q \<noteq> [])"
    by (intro exI [of _ "cs @ ds"]) auto
  with assms show ?thesis unfolding planned_def by simp
qed

lemma plan_add_planned:
  assumes "plan_add r (list_projection_links (mr_record_id r) s) plan = Inr grown"
  shows "planned s [r] plan grown"
proof (cases "releasing s r = []")
  case True
  then have "live_of s r = []" "withdrawn_of s r = []" by (simp_all add: live_of_def withdrawn_of_def)
  moreover have "grown = plan" using assms True by (auto simp: plan_add_def Let_def releasing_def)
  ultimately show ?thesis using True by (simp add: planned_def)
next
  case False
  let ?g = "plan\<lparr>rpl_released := rpl_released plan @ [mr_record_id r],
      rpl_expected_links := rpl_expected_links plan @ releasing s r,
      rpl_copy_count := rpl_copy_count plan + sum_list (map (\<lambda>l. length (legacy_copies (Some l))) (releasing s r)),
      rpl_link_removals := rpl_link_removals plan @ map (\<lambda>l. (mr_record_id r, pk_target_identity l)) (withdrawn_of s r),
      rpl_link_updates := rpl_link_updates plan @ map released_link (live_of s r)\<rparr>"
  have "grown = ?g \<or> (\<exists>rcid. mr_state r = DELETION_PENDING
      \<and> grown = ?g\<lparr>rpl_completed := rpl_completed ?g @ [mr_record_id r],
            rpl_deletion_completions := rpl_deletion_completions ?g @ [(mr_record_id r, rcid)]\<rparr>)"
    using assms False unfolding plan_add_def Let_def releasing_def [symmetric] withdrawn_of_def [symmetric] live_of_def [symmetric]
    by (auto split: json.splits option.splits if_splits)
  then show ?thesis
  proof
    assume "grown = ?g"
    with False show ?thesis by (simp add: planned_def)
  next
    assume "\<exists>rcid. mr_state r = DELETION_PENDING \<and> grown = ?g\<lparr>rpl_completed := rpl_completed ?g @ [mr_record_id r],
            rpl_deletion_completions := rpl_deletion_completions ?g @ [(mr_record_id r, rcid)]\<rparr>"
    then obtain rcid where "mr_state r = DELETION_PENDING" "grown = ?g\<lparr>rpl_completed := rpl_completed ?g @ [mr_record_id r],
            rpl_deletion_completions := rpl_deletion_completions ?g @ [(mr_record_id r, rcid)]\<rparr>" by blast
    with False show ?thesis
      unfolding planned_def by (auto intro!: exI [of _ "[(mr_record_id r, rcid)]"])
  qed
qed

definition predates :: "store \<Rightarrow> cutover_receipt option \<Rightarrow> memory_record \<Rightarrow> bool" where
  "predates s cutover r \<longleftrightarrow>
     (case cutover of None \<Rightarrow> True
      | Some c \<Rightarrow> \<forall>l \<in> set (list_projection_links (mr_record_id r) s). \<forall>x \<in> set (legacy_copies (Some l)).
          copy_predates (gc_cut_over_at c) x = Inr ())"

lemma for_each_unit_Inr:
  "for_each f xs s = (Inr u, t) \<Longrightarrow> (\<And>x. reads_only (f x)) \<Longrightarrow> t = s \<and> (\<forall>x \<in> set xs. fst (f x s) = Inr ())"
proof (induction xs arbitrary: s)
  case Nil
  then show ?case by simp
next
  case (Cons x xs)
  then obtain v w where x: "f x s = (Inr v, w)" and r: "for_each f xs w = (Inr u, t)"
    by (auto simp: andThen_Inr)
  have "w = s" using reads_onlyD [OF Cons.prems(2) x] .
  with Cons.IH [OF r Cons.prems(2)] x show ?case by simp
qed

lemma plan_release_Inr:
  "plan_release cutover rs plan s = (Inr plan', t) \<Longrightarrow>
     t = s \<and> planned s rs plan plan' \<and> (\<forall>r \<in> set rs. predates s cutover r)"
proof (induction rs arbitrary: plan)
  case Nil
  then show ?case by (simp add: planned_def)
next
  case (Cons r rs)
  let ?links = "list_projection_links (mr_record_id r) s"
  let ?chk = "case cutover of None \<Rightarrow> ret ()
      | Some c \<Rightarrow> for_each (\<lambda>l. require_predates_cutover (legacy_copies (Some l)) c) ?links"
  have "andThen ?chk (\<lambda>_. andThen (from_sum (plan_add r ?links plan)) (plan_release cutover rs)) s = (Inr plan', t)"
    using Cons.prems by (simp add: andThen_def gets_def)
  then obtain u w where chk: "?chk s = (Inr u, w)"
    and 2: "andThen (from_sum (plan_add r ?links plan)) (plan_release cutover rs) w = (Inr plan', t)"
    unfolding andThen_Inr [of ?chk] by blast
  from 2 obtain grown where add: "plan_add r ?links plan = Inr grown" and rest: "plan_release cutover rs grown w = (Inr plan', t)"
    by (cases "plan_add r ?links plan") (simp_all add: andThen_def from_sum_def)
  have ro: "reads_only (require_predates_cutover xs c)" for xs c
    by (auto simp: require_predates_cutover_def)
  have "w = s \<and> predates s cutover r"
  proof (cases cutover)
    case None
    with chk show ?thesis by (simp add: predates_def)
  next
    case (Some c)
    with chk have e: "for_each (\<lambda>l. require_predates_cutover (legacy_copies (Some l)) c) ?links s = (Inr u, w)" by simp
    from for_each_unit_Inr [OF this ro] have w: "w = s"
      and all: "\<forall>l \<in> set ?links. fst (require_predates_cutover (legacy_copies (Some l)) c s) = Inr ()" by auto
    have "copy_predates (gc_cut_over_at c) x = Inr ()" if m: "l \<in> set ?links" "x \<in> set (legacy_copies (Some l))" for l x
    proof -
      obtain v where "for_each (\<lambda>x. from_sum (copy_predates (gc_cut_over_at c) x)) (legacy_copies (Some l)) s = (Inr (), v)"
        using bspec [OF all m(1)]
        by (cases "require_predates_cutover (legacy_copies (Some l)) c s") (simp add: require_predates_cutover_def)
      from for_each_unit_Inr [OF this reads_only_from_sum] m(2) show ?thesis by (simp add: from_sum_def)
    qed
    with w Some show ?thesis by (simp add: predates_def)
  qed
  moreover from this Cons.IH [of grown] rest have "t = s" "planned s rs grown plan'" "\<forall>r \<in> set rs. predates s cutover r"
    by simp_all
  ultimately show ?case using planned_Cons [OF plan_add_planned [OF add]] by simp
qed

subsection \<open>Its effects\<close>

lemma dict_get_set_all_same:
  "(\<And>x. x \<in> set xs \<Longrightarrow> key x = k \<Longrightarrow> x = v) \<Longrightarrow>
     dict_get (dict_set_all key xs d) k = (if k \<in> key ` set xs then Some v else dict_get d k)"
proof (induction xs arbitrary: d)
  case Nil
  then show ?case by simp
next
  case (Cons x xs)
  from Cons.IH [of "dict_set (key x) x d"] Cons.prems show ?case by auto
qed

lemma dict_get_fold_pop: "dict_get (fold dict_pop ks d) k = (if k \<in> set ks then None else dict_get d k)"
  by (induction ks arbitrary: d) auto

lemma released_link_sel [simp]:
  "link_key (released_link l) = link_key l" "legacy_copies (Some (released_link l)) = []"
  by (auto simp: released_link_def link_key_def legacy_copies_def map_of_filter_in split: option.splits
      dest!: map_of_SomeD)

definition after_release :: "projection_link \<Rightarrow> projection_link option" where
  "after_release l =
     (if legacy_copies (Some l) = [] then Some l
      else if link_withdrawn (Some l) then None else Some (released_link l))"

lemma release_links:
  fixes rs :: "memory_record list" and s :: store
  assumes "store_wf s"
  defines "ups \<equiv> concat (map (\<lambda>r. map released_link (live_of s r)) rs)"
  defines "rms \<equiv> concat (map (\<lambda>r. map (\<lambda>l. (mr_record_id r, pk_target_identity l)) (withdrawn_of s r)) rs)"
  shows "dict_get (fold dict_pop rms (dict_set_all link_key ups (st_projection_links s))) (rid, tg)
     = (if rid \<in> mr_record_id ` set rs then Option.bind (get_projection_link rid tg s) after_release
        else get_projection_link rid tg s)"
proof -
  note links = list_projection_links_iff [OF assms(1)]
  have mem: "(rid, tg) \<in> set rms \<longleftrightarrow> rid \<in> mr_record_id ` set rs
      \<and> (\<exists>l. get_projection_link rid tg s = Some l \<and> after_release l = None)"
    (is "_ = ?R")
  proof
    assume "(rid, tg) \<in> set rms"
    then obtain r l where "r \<in> set rs" "mr_record_id r = rid" "pk_target_identity l = tg" "l \<in> set (withdrawn_of s r)"
      by (auto simp: rms_def)
    then show ?R by (auto simp: withdrawn_of_def releasing_def links after_release_def)
  next
    assume ?R
    then obtain r l where r: "r \<in> set rs" "mr_record_id r = rid" "get_projection_link rid tg s = Some l" "after_release l = None"
      by blast
    have "link_key l = (rid, tg)"
      using keyed_get [of link_key "st_projection_links s" "(rid, tg)" l] assms(1) r(3)
      by (simp add: store_wf_def store_keyed_def get_projection_link_def)
    then have "l \<in> set (withdrawn_of s r)" "pk_target_identity l = tg"
      using r by (auto simp: withdrawn_of_def releasing_def links link_key_def after_release_def split: if_splits)
    with r show "(rid, tg) \<in> set rms" by (auto simp: rms_def intro!: bexI [of _ r])
  qed
  have up: "x \<in> set ups \<and> link_key x = (rid, tg) \<longleftrightarrow> rid \<in> mr_record_id ` set rs
      \<and> (\<exists>l. get_projection_link rid tg s = Some l \<and> legacy_copies (Some l) \<noteq> [] \<and> \<not> link_withdrawn (Some l) \<and> x = released_link l)"
    (is "?L x = ?R x") for x
  proof
    assume "?L x"
    then obtain r l where "r \<in> set rs" "l \<in> set (live_of s r)" "x = released_link l" "link_key l = (rid, tg)"
      by (auto simp: ups_def)
    then show "?R x" by (auto simp: live_of_def releasing_def links link_key_def intro: rev_image_eqI)
  next
    assume "?R x"
    then obtain r l where r: "r \<in> set rs" "mr_record_id r = rid" "get_projection_link rid tg s = Some l"
      "legacy_copies (Some l) \<noteq> []" "\<not> link_withdrawn (Some l)" "x = released_link l"
      by blast
    have k: "link_key l = (rid, tg)"
      using keyed_get [of link_key "st_projection_links s" "(rid, tg)" l] assms(1) r(3)
      by (simp add: store_wf_def store_keyed_def get_projection_link_def)
    then have "l \<in> set (live_of s r)"
      using r by (auto simp: live_of_def releasing_def links link_key_def)
    with r k show "?L x" by (auto simp: ups_def intro!: bexI [of _ r])
  qed
  let ?v = "released_link (the (get_projection_link rid tg s))"
  have "dict_get (dict_set_all link_key ups (st_projection_links s)) (rid, tg)
      = (if (rid, tg) \<in> link_key ` set ups then Some ?v else dict_get (st_projection_links s) (rid, tg))"
  proof (rule dict_get_set_all_same)
    fix x
    assume "x \<in> set ups" "link_key x = (rid, tg)"
    with up [of x] obtain l where "get_projection_link rid tg s = Some l" "x = released_link l" by blast
    then show "x = ?v" by simp
  qed
  moreover have "(rid, tg) \<in> link_key ` set ups \<longleftrightarrow> (\<exists>x. x \<in> set ups \<and> link_key x = (rid, tg))"
  proof
    assume "(rid, tg) \<in> link_key ` set ups"
    then show "\<exists>x. x \<in> set ups \<and> link_key x = (rid, tg)" by (auto dest: sym)
  next
    assume "\<exists>x. x \<in> set ups \<and> link_key x = (rid, tg)"
    then obtain x where x: "x \<in> set ups" "link_key x = (rid, tg)" by blast
    from imageI [OF x(1), of link_key] show "(rid, tg) \<in> link_key ` set ups" unfolding x(2) .
  qed
  ultimately show ?thesis
    unfolding dict_get_fold_pop mem up
    by (cases "get_projection_link rid tg s") (auto simp: get_projection_link_def after_release_def)
qed

lemma completions_Inr:
  "for_each (\<lambda>(i, c). complete_deletion (eids i) (fst c) (snd c) now actor) (enumerate k cs) s = (Inr u, t) \<Longrightarrow>
     st_projection_links t = st_projection_links s
     \<and> (\<forall>rid. rid \<notin> fst ` set cs \<longrightarrow> get_record rid t = get_record rid s)
     \<and> (\<forall>rid \<in> fst ` set cs. (\<exists>r. get_record rid t = Some r \<and> mr_state r = DELETED) \<and> list_projection_links rid s = [])"
proof (induction cs arbitrary: k s)
  case Nil
  then show ?case by simp
next
  case (Cons c cs)
  then obtain v w where c: "complete_deletion (eids k) (fst c) (snd c) now actor s = (Inr v, w)"
    and rest: "for_each (\<lambda>(i, c). complete_deletion (eids i) (fst c) (snd c) now actor) (enumerate (Suc k) cs) w = (Inr u, t)"
    by (auto simp: andThen_Inr)
  from c obtain r d where w: "w = completed (eids k) (fst c) r d (snd c) now actor s" "get_record (fst c) s = Some r"
    "list_projection_links (fst c) s = []"
    by (auto simp: complete_deletion_eq split: option.splits if_splits)
  have l: "st_projection_links w = st_projection_links s" by (simp add: w(1) completed_frame)
  then have ll: "list_projection_links x w = list_projection_links x s" for x by (simp add: list_projection_links_def)
  have g: "get_record x w = get_record x s" if "x \<noteq> fst c" for x using that by (simp add: w(1) completed_frame)
  have d: "\<exists>r. get_record (fst c) w = Some r \<and> mr_state r = DELETED"
    using w(2) by (auto simp: w(1) completed_frame)
  note ih = Cons.IH [OF rest]
  have "\<exists>r. get_record (fst c) t = Some r \<and> mr_state r = DELETED"
    using ih d by (cases "fst c \<in> fst ` set cs") auto
  with ih l ll g w(3) show ?case by auto
qed

lemma reads_only_plan_release: "reads_only (plan_release cutover rs plan)"
proof (induction rs arbitrary: plan)
  case Nil
  then show ?case by simp
next
  case (Cons r rs)
  have "reads_only (case cutover of None \<Rightarrow> ret ()
      | Some c \<Rightarrow> for_each (\<lambda>l. require_predates_cutover (legacy_copies (Some l)) c) links)" for links
    by (cases cutover) (auto simp: require_predates_cutover_def intro!: reads_only_for_each)
  with Cons show ?case by (auto intro!: reads_only_andThen)
qed

text \<open>The gate of a release, and the run when it passes.\<close>

definition release_gate :: "cutover_receipt list \<Rightarrow> instant \<Rightarrow> bool \<Rightarrow> error + cutover_receipt option" where
  "release_gate cs now apply =
     (if \<not> apply then Inr (if cs = [] then None else Some (last cs))
      else if cs = [] then Inl (CutoverNotReady ''no graph cutover is recorded for this namespace'')
      else if now < gc_rollback_window_ends_at (last cs)
      then Inl (CutoverNotReady ''the rollback window of the cutover has not ended'')
      else Inr (Some (last cs)))"

lemma release_cutover_eq:
  "release_cutover tenant ns now apply s = (release_gate (list_graph_cutovers tenant ns s) now apply, s)"
  by (simp add: release_cutover_def release_gate_def andThen_def gets_def ret_def throw_def Let_def)

definition release_receipt_of ::
  "service \<Rightarrow> env \<Rightarrow> memory_principal \<Rightarrow> string \<Rightarrow> string \<Rightarrow> bool \<Rightarrow> string \<Rightarrow> cutover_receipt option \<Rightarrow> release_plan
     \<Rightarrow> legacy_release_receipt" where
  "release_receipt_of svc en p ns reference apply reason cutover plan =
     \<lparr>lpr_receipt_id = env_uuid en U_receipt, lpr_namespace = ns, lpr_projection_name = projection_label svc,
        lpr_applied = apply, lpr_released_record_ids = rpl_released plan,
        lpr_released_copy_count = rpl_copy_count plan, lpr_completed_deletion_record_ids = rpl_completed plan,
        lpr_authorization = evaluate (stamp_of en U_authorization) p A_ADMIN ns,
        lpr_store_destruction_reference = reference, lpr_reason = reason,
        lpr_actor = audit_subject p, lpr_created_at = env_now en,
        lpr_cutover_receipt_id = map_option gc_receipt_id cutover\<rparr>"

lemma release_run:
  "release_legacy_projection_copies svc en p ns reference apply bound reason s =
     (if \<not> may p A_ADMIN ns then (Inl (AuthorizationError ''principal is not authorized''), s)
      else if rt_targets (sv_runtime svc) = []
      then (Inl (StoreError ''projection backend is none; there are no legacy copies''), s)
      else
        (case release_gate (list_graph_cutovers (mp_tenant_id p) ns s) (env_now en) apply of
           Inl e \<Rightarrow> (Inl e, s)
         | Inr cutover \<Rightarrow>
             (case fst (plan_release (if apply then cutover else None) (list_records (mp_tenant_id p) ns [] bound s) empty_plan s) of
                Inl e \<Rightarrow> (Inl e, s)
              | Inr plan \<Rightarrow>
                  (case make_legacy_release_receipt (release_receipt_of svc en p ns reference apply reason cutover plan) of
                     Inl e \<Rightarrow> (Inl e, s)
                   | Inr receipt \<Rightarrow>
                       if apply \<and> rpl_released plan \<noteq> []
                       then andThen (commit_legacy_projection_release (\<lambda>i. env_uuid en (U_status i)) SERVICE_WRITE_CAPABILITY receipt
                              (rpl_link_updates plan) (rpl_link_removals plan) (rpl_deletion_completions plan)
                              (rpl_expected_links plan)) (\<lambda>_. ret receipt) s
                       else (Inr receipt, s)))))"
proof -
  have pr: "plan_release cut rs plan s = (fst (plan_release cut rs plan s), s)" for cut rs plan
    using reads_only_plan_release by (metis prod.collapse reads_only_def)
  let ?gate = "release_gate (list_graph_cutovers (mp_tenant_id p) ns s) (env_now en) apply"
  note steps = release_legacy_projection_copies_def andThen_def authorize_run check_def ret_def throw_def gets_def
    from_sum_def release_cutover_eq
  show ?thesis
  proof (cases "may p A_ADMIN ns \<and> rt_targets (sv_runtime svc) \<noteq> []")
    case False
    then show ?thesis
      by (auto simp: release_legacy_projection_copies_def andThen_def authorize_run check_def throw_def ret_def)
  next
    case True
    show ?thesis
    proof (cases ?gate)
      case (Inl e)
      with True show ?thesis by (simp add: steps)
    next
      case (Inr cutover)
      let ?plan = "plan_release (if apply then cutover else None) (list_records (mp_tenant_id p) ns [] bound s) empty_plan s"
      show ?thesis
      proof (cases "fst ?plan")
        case (Inl e)
        then have "?plan = (Inl e, s)" by (subst pr) simp
        with True Inr show ?thesis by (simp add: steps)
      next
        case plan: (Inr plan)
        then have p: "?plan = (Inr plan, s)" by (subst pr) simp
        let ?rc = "make_legacy_release_receipt (release_receipt_of svc en p ns reference apply reason cutover plan)"
        have "release_legacy_projection_copies svc en p ns reference apply bound reason s =
            (case ?rc of Inl e \<Rightarrow> (Inl e, s)
             | Inr receipt \<Rightarrow>
                 (if apply \<and> rpl_released plan \<noteq> []
                  then andThen (commit_legacy_projection_release (\<lambda>i. env_uuid en (U_status i)) SERVICE_WRITE_CAPABILITY receipt
                         (rpl_link_updates plan) (rpl_link_removals plan) (rpl_deletion_completions plan)
                         (rpl_expected_links plan)) (\<lambda>_. ret receipt)
                  else ret receipt) s)"
          using True Inr p by (simp add: steps release_receipt_of_def [symmetric])
        with True Inr p show ?thesis by (cases ?rc) (simp_all add: ret_def)
      qed
    qed
  qed
qed

lemma release_refused:
  assumes "release_legacy_projection_copies svc en p ns reference apply bound reason s = (Inl e, t)"
  shows "t = s"
  using assms unfolding release_run
  by (auto simp: andThen_Inl split: if_splits sum.splits dest!: legacy_release_cases)

lemma release_runs:
  assumes "release_legacy_projection_copies svc en p ns reference apply bound reason s = (Inr receipt, t)"
  shows "\<exists>plan. may p A_ADMIN ns
    \<and> (apply \<longrightarrow> list_graph_cutovers (mp_tenant_id p) ns s \<noteq> []
        \<and> gc_rollback_window_ends_at (last (list_graph_cutovers (mp_tenant_id p) ns s)) \<le> env_now en
        \<and> lpr_cutover_receipt_id receipt = Some (gc_receipt_id (last (list_graph_cutovers (mp_tenant_id p) ns s))))
    \<and> plan_release (if apply then Some (last (list_graph_cutovers (mp_tenant_id p) ns s)) else None)
        (list_records (mp_tenant_id p) ns [] bound s) empty_plan s = (Inr plan, s)
    \<and> lpr_completed_deletion_record_ids receipt = rpl_completed plan
    \<and> (if apply \<and> rpl_released plan \<noteq> [] then
        (\<exists>u. release_effects (\<lambda>i. env_uuid en (U_status i)) receipt (rpl_link_updates plan) (rpl_link_removals plan)
             (rpl_deletion_completions plan) s = (Inr u, t)) else t = s)"
proof -
  let ?cs = "list_graph_cutovers (mp_tenant_id p) ns s"
  note run = assms [unfolded release_run]
  from run obtain cutover where g: "release_gate ?cs (env_now en) apply = Inr cutover" and may: "may p A_ADMIN ns"
    by (auto split: if_splits sum.splits)
  let ?plan = "plan_release (if apply then cutover else None) (list_records (mp_tenant_id p) ns [] bound s) empty_plan s"
  from run g obtain plan where "fst ?plan = Inr plan" by (auto split: if_splits sum.splits)
  then have plan: "?plan = (Inr plan, s)"
    using reads_only_plan_release by (metis prod.collapse reads_only_def)
  let ?rc = "release_receipt_of svc en p ns reference apply reason cutover plan"
  have mk: "make_legacy_release_receipt ?rc = Inr r \<Longrightarrow> r = ?rc" for r
    by (auto simp: make_legacy_release_receipt_def split: if_splits)
  have fin: "receipt = ?rc \<and> (if apply \<and> rpl_released plan \<noteq> [] then
        (\<exists>u. commit_legacy_projection_release (\<lambda>i. env_uuid en (U_status i)) SERVICE_WRITE_CAPABILITY receipt
              (rpl_link_updates plan) (rpl_link_removals plan) (rpl_deletion_completions plan)
              (rpl_expected_links plan) s = (Inr u, t)) else t = s)"
    using run g plan mk by (auto simp: andThen_Inr split: if_splits sum.splits)
  have cut: "apply \<longrightarrow> ?cs \<noteq> [] \<and> gc_rollback_window_ends_at (last ?cs) \<le> env_now en \<and> cutover = Some (last ?cs)"
    using g by (auto simp: release_gate_def split: if_splits)
  have "plan_release (if apply then Some (last ?cs) else None) (list_records (mp_tenant_id p) ns [] bound s) empty_plan s = (Inr plan, s)"
    using plan cut by (cases "apply") simp_all
  moreover have "lpr_cutover_receipt_id receipt = map_option gc_receipt_id cutover" "lpr_completed_deletion_record_ids receipt = rpl_completed plan"
    using fin by (simp_all add: release_receipt_of_def)
  moreover have "if apply \<and> rpl_released plan \<noteq> [] then
        (\<exists>u. release_effects (\<lambda>i. env_uuid en (U_status i)) receipt (rpl_link_updates plan) (rpl_link_removals plan)
             (rpl_deletion_completions plan) s = (Inr u, t)) else t = s"
    using fin by (auto split: if_splits dest!: legacy_release_cases)
  ultimately show ?thesis using may cut by (intro exI [of _ plan]) auto
qed

lemma planned_effects:
  assumes wf: "store_wf s" and pl: "planned s rs empty_plan plan"
    and listed: "\<And>r. r \<in> set rs \<Longrightarrow> get_record (mr_record_id r) s = Some r"
    and eff: "if apply \<and> rpl_released plan \<noteq> [] then
          (\<exists>u. release_effects eids receipt (rpl_link_updates plan) (rpl_link_removals plan)
             (rpl_deletion_completions plan) s = (Inr u, t)) else t = s"
  shows "\<not> apply \<Longrightarrow> t = s"
    and "apply \<Longrightarrow> get_projection_link rid tg t =
       (if rid \<in> mr_record_id ` set rs then Option.bind (get_projection_link rid tg s) after_release
        else get_projection_link rid tg s)"
    and "rid \<notin> set (rpl_completed plan) \<Longrightarrow> get_record rid t = get_record rid s"
    and "rid \<in> set (rpl_completed plan) \<Longrightarrow> apply \<Longrightarrow>
       (\<exists>r. get_record rid s = Some r \<and> mr_state r = DELETION_PENDING)
       \<and> (\<exists>r. get_record rid t = Some r \<and> mr_state r = DELETED) \<and> get_projection_link rid tg t = None"
proof -
  show "\<not> apply \<Longrightarrow> t = s" using eff by simp
  let ?ups = "concat (map (\<lambda>r. map released_link (live_of s r)) rs)"
  let ?rms = "concat (map (\<lambda>r. map (\<lambda>l. (mr_record_id r, pk_target_identity l)) (withdrawn_of s r)) rs)"
  from pl obtain cs where p: "rpl_released plan = map mr_record_id (filter (\<lambda>r. releasing s r \<noteq> []) rs)"
    "rpl_link_updates plan = ?ups" "rpl_link_removals plan = ?rms"
    "rpl_deletion_completions plan = cs" "rpl_completed plan = map fst cs"
    "\<forall>c \<in> set cs. \<exists>r \<in> set rs. fst c = mr_record_id r \<and> mr_state r = DELETION_PENDING \<and> releasing s r \<noteq> []"
    unfolding planned_def empty_plan_def by auto
  let ?D = "fold dict_pop ?rms (dict_set_all link_key ?ups (st_projection_links s))"
  have done_: "st_projection_links t = ?D \<and> (\<forall>rid. rid \<notin> fst ` set cs \<longrightarrow> get_record rid t = get_record rid s)
      \<and> (\<forall>rid \<in> fst ` set cs. (\<exists>r. get_record rid t = Some r \<and> mr_state r = DELETED) \<and> (\<forall>tg. get_projection_link rid tg t = None))"
    if a: "apply"
  proof (cases "rpl_released plan = []")
    case True
    with p(1) have none: "\<forall>r \<in> set rs. releasing s r = []" by (auto simp: filter_empty_conv)
    then have "\<forall>r \<in> set rs. live_of s r = [] \<and> withdrawn_of s r = []" by (simp add: live_of_def withdrawn_of_def)
    then have empty: "?ups = []" "?rms = []" by simp_all
    have D: "?D = st_projection_links s" unfolding empty by simp
    have "cs = []" using p(6) none by (cases cs) auto
    moreover have "t = s" using eff True by simp
    ultimately show ?thesis unfolding D by simp
  next
    case False
    let ?s1 = "s\<lparr>st_legacy_projection_releases := st_legacy_projection_releases s @ [receipt], st_projection_links := ?D\<rparr>"
    from a False eff p obtain u where "release_effects eids receipt ?ups ?rms cs s = (Inr u, t)" by auto
    then have run: "for_each (\<lambda>(i, c). complete_deletion (eids i) (fst c) (snd c) (lpr_created_at receipt)
          (''memory.legacy-release:'' @ lpr_actor receipt)) (enumerate 0 cs) ?s1 = (Inr u, t)"
      by (simp add: release_effects_def andThen_Inr)
    from completions_Inr [OF run] have c: "st_projection_links t = ?D" "\<forall>rid. rid \<notin> fst ` set cs \<longrightarrow> get_record rid t = get_record rid ?s1"
      "\<forall>rid \<in> fst ` set cs. (\<exists>r. get_record rid t = Some r \<and> mr_state r = DELETED) \<and> list_projection_links rid ?s1 = []" by simp_all
    have "get_projection_link rid tg t = None" if "list_projection_links rid ?s1 = []" for rid tg
    proof (rule ccontr)
      assume "get_projection_link rid tg t \<noteq> None"
      then obtain l where "((rid, tg), l) \<in> set ?D" by (auto simp: get_projection_link_def c(1) dest: map_of_SomeD)
      then have "l \<in> set (list_projection_links rid ?s1)" by (force simp: list_projection_links_def)
      with that show False by simp
    qed
    with c show ?thesis by (simp add: get_record_def)
  qed
  show "get_projection_link rid tg t =
       (if rid \<in> mr_record_id ` set rs then Option.bind (get_projection_link rid tg s) after_release
        else get_projection_link rid tg s)" if "apply"
    using done_ [OF that] release_links [OF wf, of rs rid tg] by (simp add: get_projection_link_def [of rid tg t])
  show "get_record rid t = get_record rid s" if "rid \<notin> set (rpl_completed plan)"
    using done_ eff that p(5) by (cases "apply") auto
  show "(\<exists>r. get_record rid s = Some r \<and> mr_state r = DELETION_PENDING)
       \<and> (\<exists>r. get_record rid t = Some r \<and> mr_state r = DELETED) \<and> get_projection_link rid tg t = None"
    if m: "rid \<in> set (rpl_completed plan)" "apply"
  proof -
    obtain c where "c \<in> set cs" "rid = fst c" using m(1) p(5) by auto
    then obtain r where "r \<in> set rs" "rid = mr_record_id r" "mr_state r = DELETION_PENDING" using p(6) by auto
    with listed have "\<exists>r. get_record rid s = Some r \<and> mr_state r = DELETION_PENDING" by blast
    moreover have "rid \<in> fst ` set cs" using m(1) p(5) by simp
    from bspec [OF conjunct2 [OF conjunct2 [OF done_ [OF m(2)]]] this]
    have "(\<exists>r. get_record rid t = Some r \<and> mr_state r = DELETED) \<and> get_projection_link rid tg t = None" by blast
    ultimately show ?thesis by blast
  qed
qed

text \<open>
  Property C23: a legacy release is gated and drops exactly the obligations. An applied release
  that succeeds was made by an administrator after the rollback window of the namespace's
  latest cutover, which the receipt names and which no listed legacy copy was superseded
  after. Of the listed records, links of withdrawn copies go and live links lose their legacy
  copies, every other link stays; the only records that change are pending deletions the
  receipt names, which are DELETED and have no link left. A failing release or a preview
  changes nothing.
\<close>

theorem legacy_release_exact:
  assumes "store_wf s"
  shows "case release_legacy_projection_copies svc en p ns reference apply bound reason s of
      (Inl e, t) \<Rightarrow> t = s
    | (Inr receipt, t) \<Rightarrow>
        let rs = list_records (mp_tenant_id p) ns [] bound s;
            cs = list_graph_cutovers (mp_tenant_id p) ns s;
            fin = lpr_completed_deletion_record_ids receipt in
        may p A_ADMIN ns
        \<and> (if \<not> apply then t = s
           else cs \<noteq> [] \<and> gc_rollback_window_ends_at (last cs) \<le> env_now en
             \<and> lpr_cutover_receipt_id receipt = Some (gc_receipt_id (last cs))
             \<and> (\<forall>r \<in> set rs. predates s (Some (last cs)) r)
             \<and> (\<forall>rid tg. get_projection_link rid tg t =
                  (if rid \<in> mr_record_id ` set rs then Option.bind (get_projection_link rid tg s) after_release
                   else get_projection_link rid tg s))
             \<and> (\<forall>rid. rid \<notin> set fin \<longrightarrow> get_record rid t = get_record rid s)
             \<and> (\<forall>rid \<in> set fin. (\<exists>r. get_record rid s = Some r \<and> mr_state r = DELETION_PENDING)
                  \<and> (\<exists>r. get_record rid t = Some r \<and> mr_state r = DELETED) \<and> (\<forall>tg. get_projection_link rid tg t = None)))"
proof -
  let ?rs = "list_records (mp_tenant_id p) ns [] bound s"
  let ?cs = "list_graph_cutovers (mp_tenant_id p) ns s"
  obtain x t where run: "release_legacy_projection_copies svc en p ns reference apply bound reason s = (x, t)" by fastforce
  show ?thesis
  proof (cases x)
    case (Inl e)
    with release_refused [OF run [unfolded Inl]] run show ?thesis by simp
  next
    case (Inr receipt)
    from release_runs [OF run [unfolded Inr]] obtain plan where may: "may p A_ADMIN ns"
      and gate: "apply \<longrightarrow> ?cs \<noteq> [] \<and> gc_rollback_window_ends_at (last ?cs) \<le> env_now en
          \<and> lpr_cutover_receipt_id receipt = Some (gc_receipt_id (last ?cs))"
      and plan: "plan_release (if apply then Some (last ?cs) else None) ?rs empty_plan s = (Inr plan, s)"
      and fin: "lpr_completed_deletion_record_ids receipt = rpl_completed plan"
      and eff: "if apply \<and> rpl_released plan \<noteq> [] then
          (\<exists>u. release_effects (\<lambda>i. env_uuid en (U_status i)) receipt (rpl_link_updates plan) (rpl_link_removals plan)
             (rpl_deletion_completions plan) s = (Inr u, t)) else t = s"
      by blast
    from plan_release_Inr [OF plan] have pl: "planned s ?rs empty_plan plan"
      and pre: "apply \<longrightarrow> (\<forall>r \<in> set ?rs. predates s (Some (last ?cs)) r)" by auto
    have listed: "get_record (mr_record_id r) s = Some r" if "r \<in> set ?rs" for r
      using listed_records(1) [OF assms that] by simp
    note e = planned_effects [OF assms pl listed eff]
    show ?thesis
    proof (cases "apply")
      case False
      with e(1) may show ?thesis unfolding run Inr by simp
    next
      case True
      with may gate pre fin e(2,3,4) show ?thesis unfolding run Inr by (simp add: Let_def)
    qed
  qed
qed

end
