(* ===== verification/CopyLeak.thy ===== *)
theory CopyLeak
  imports WorkerLaws StoreInvariant
begin

text \<open>
  What becomes of a copy whose withdrawal a provider refuses: while its record is not current
  and no link names it, no event of the worker on that record and target calls the provider.
\<close>

section \<open>Out of reach\<close>

definition out_of_reach :: "uuid \<Rightarrow> string \<Rightarrow> store \<Rightarrow> bool" where
  "out_of_reach rid tg s \<longleftrightarrow> \<not> is_active (get_record rid s) \<and> get_projection_link rid tg s = None"

lemma out_of_reach_ledgers [simp]:
  "out_of_reach rid tg (s\<lparr>st_outbox := ob\<rparr>) = out_of_reach rid tg s"
  "out_of_reach rid tg (s\<lparr>st_deletion_receipts := d\<rparr>) = out_of_reach rid tg s"
  by (simp_all add: out_of_reach_def get_record_def get_projection_link_def)

lemma reach_completed:
  assumes "get_record rid s = Some r" and "out_of_reach rid tg s"
  shows "out_of_reach rid tg (completed eid rid r d rcid t actor s)"
  using assms by (auto simp: completed_def Let_def after_transition_def out_of_reach_def get_record_def get_projection_link_def
      is_active_def transitioned_def)

lemma keeps_reach_completion [keeps_intros]: "keeps (out_of_reach rid tg) (complete_deletion eid rid rcid t actor)"
  by (rule keepsI) (auto simp: complete_deletion_eq reach_completed split: option.splits)










section \<open>A refused withdrawal\<close>


end
