(* ===== verification/CopySamples.thy ===== *)
theory CopySamples
  imports CopyLaws CopyLeak
begin

text \<open>
  Concrete runs of the worker: a verified erasure that completes with no copy left, and a
  withdrawal the provider refuses, after which a completed deletion leaves a copy behind.
\<close>

type_synonym smp_world = "string \<times> uuid \<Rightarrow> string option"

definition smp_provider :: "bool \<Rightarrow> (store \<Rightarrow> store) \<Rightarrow> smp_world provider" where
  "smp_provider refuses others =
     \<lparr>pv_project = (\<lambda>tg r d w. (Inr (JObj [(''locator'', JStr ''loc'')]), w((tg, mr_record_id r) := Some ''loc''))),
      pv_retire = (\<lambda>tg rid ns loc reason w.
        if refuses then (Inl (RuntimeError ''provider unavailable''), w) else (Inr (JObj []), without_copy w (tg, rid) loc)),
      pv_erase = (\<lambda>tg rid ns loc w. (Inr (JObj []), without_copy w (tg, rid) loc)),
      pv_meanwhile = (\<lambda>w s. others s)\<rparr>"

definition smp_worker :: "bool \<Rightarrow> (store \<Rightarrow> store) \<Rightarrow> smp_world worker" where
  "smp_worker refuses others =
     \<lparr>wk_runtime = smp_runtime, wk_provider = smp_provider refuses others,
      wk_render = (\<lambda>c r. Inl (ProjectionError ''legacy'')), wk_batch_size = 10, wk_max_attempts = 3,
      wk_base_delay = 5, wk_lease_seconds = 300, wk_id = ''w''\<rparr>"

abbreviation zep :: target_binding where
  "zep \<equiv> legacy_binding (smp_adapter ''zep'') False"

lemma smp_zep [simp]:
  "tb_identity zep = ''zep''" "tb_projection_name zep = ''zep''" "tb_provider_type zep = LEGACY_PROVIDER_TYPE"
  "tb_adapter zep = Some (smp_adapter ''zep'')" "delivers zep" "binding_scheme zep = JNull"
  "rt_targets smp_runtime = [zep]" "rt_mode smp_runtime = Legacy"
  by (simp_all add: legacy_binding_def smp_adapter_def delivers_def binding_scheme_def smp_runtime_def)

lemma smp_clock [simp]: "env_now smp_env = 100"
  by (simp add: smp_env_def)

lemma smp_strip [simp]: "strip ''zep'' = ''zep''" "strip ''loc'' = ''loc''" "strip ''ns'' = ''ns''"
  by (simp_all add: strip_def is_space_def)

lemma smp_runtime_ok: "runtime_ok smp_runtime"
  by (simp add: runtime_ok_def legacy_binding_def)

lemma smp_resolve [simp]: "resolve_event_target smp_runtime (Some (JStr ''zep'')) = Inr zep"
  by (simp add: resolve_event_target_def find_target_def by_identity_def)

lemma smp_adapter_for [simp]: "adapter_for smp_runtime ''zep'' = Inr (smp_adapter ''zep'')"
  by (simp add: adapter_for_def find_target_def by_identity_def)

lemma smp_worker_sel [simp]:
  "wk_runtime (smp_worker b f) = smp_runtime" "wk_provider (smp_worker b f) = smp_provider b f"
  "wk_batch_size (smp_worker b f) = 10" "wk_max_attempts (smp_worker b f) = 3" "wk_base_delay (smp_worker b f) = 5"
  "wk_lease_seconds (smp_worker b f) = 300" "wk_id (smp_worker b f) = ''w''" "render (smp_worker b f) r = Inr None"
  by (simp_all add: smp_worker_def render_def)

lemma smp_locator [simp]: "locator_of (JObj [(''locator'', JStr ''loc'')]) = Some ''loc''"
  by (simp add: locator_of_def get_str_def)

lemma smp_honest: "honest_provider (smp_provider b f) (\<lambda>w. w)"
  by (auto simp: honest_provider_def smp_provider_def)

lemma smp_worker_ok: "worker_ok (smp_worker b (\<lambda>s. s)) (\<lambda>w. w)"
  using smp_honest
  by (auto simp: worker_ok_def smp_runtime_ok binding_ok_def len_ok_def others_behave_def LEGACY_PROVIDER_TYPE_def)
    (simp_all add: smp_provider_def)

section \<open>An erasure\<close>

definition smp_erase_event :: outbox_event where
  "smp_erase_event = (smp_outbox 4 X_PENDING)\<lparr>ob_event_type := ''memory.record.erase'',
     ob_payload := [(''target_identity'', JStr ''zep''), (''deletion_receipt_id'', JStr (uuid_str 62))]\<rparr>"

lemma smp_erase_sel [simp]:
  "ob_event_id smp_erase_event = 4" "ob_status smp_erase_event = X_PENDING" "ob_next_attempt_at smp_erase_event = 5"
  "ob_created_at smp_erase_event = 5" "ob_event_type smp_erase_event = ''memory.record.erase''" "ob_aggregate_id smp_erase_event = 1"
  "ob_payload smp_erase_event = [(''target_identity'', JStr ''zep''), (''deletion_receipt_id'', JStr (uuid_str 62))]"
  "ob_attempts smp_erase_event = 0"
  by (simp_all add: smp_erase_event_def smp_outbox_def)

definition smp_erasing :: store where
  "smp_erasing = empty_store\<lparr>st_records := [(1, smp_record 1 DELETION_PENDING)],
     st_deletion_receipts := [(62, smp_deletion_receipt 62 1)],
     st_projection_links := [((1, ''zep''), smp_link 1 ''zep'')], st_outbox := [(4, smp_erase_event)]\<rparr>"

definition smp_copy :: smp_world where
  "smp_copy = (\<lambda>k. None)((''zep'', 1) := Some ''loc'')"

lemma smp_erasing_ok: "world_ok smp_runtime (\<lambda>w. w) (smp_erasing, smp_copy)"
  by (auto simp: world_ok_def links_sane_def copies_tracked_def tracks_def unlinked_when_deleted_def smp_erasing_def
      smp_copy_def get_record_def get_projection_link_def keyed_def dict_ok_def link_key_def namespace_ok_def len_ok_def
      link_withdrawn_def link_scheme_def smp_link_def split: if_splits)

lemma worker_step_run:
  assumes "rt_targets (wk_runtime wk) \<noteq> []"
    and "leased (\<lambda>i. env_uuid en (U_event i)) (env_now en) (wk_lease_seconds wk) (wk_id wk)
       (claim_batch (wk_batch_size wk) (env_now en) s) = es"
    and "map_each (process_event wk en) (enumerate 0 es) (s\<lparr>st_outbox := dict_set_all ob_event_id es (st_outbox s)\<rparr>, w) = (Inr outs, z)"
  shows "worker_step wk (s, w) en = z"
  using assms by (simp add: worker_step_def run_once_def claim_outbox_eq andThen_def on_store_def ret_def)

lemma process_delivered:
  assumes "deliver_event wk en n e z = (Inr (), u)" and "dict_get (st_outbox (fst u)) (ob_event_id e) = Some e"
  shows "process_event wk en (n, e) z = (Inr Delivered,
    ((fst u)\<lparr>st_outbox := dict_set (ob_event_id e)
       (settled_event X_DELIVERED (ob_attempts e + 1) (env_now en) None (Some (env_now en)) e) (st_outbox (fst u))\<rparr>, snd u))"
  using assms settle_held [OF assms(2) refl] by (simp add: process_event_def try_catch_def andThen_def ret_def)

lemma process_retried:
  assumes "deliver_event wk en n e z = (Inl x, u)" and "dict_get (st_outbox (fst u)) (ob_event_id e) = Some e"
    and "ob_attempts e + 1 < wk_max_attempts wk"
  shows "process_event wk en (n, e) z = (Inr Retried,
    ((fst u)\<lparr>st_outbox := dict_set (ob_event_id e) (settled_event X_RETRY (ob_attempts e + 1)
       (env_now en + seconds (retry_delay (wk_base_delay wk) (ob_attempts e + 1))) (Some (error_text x)) None e)
       (st_outbox (fst u))\<rparr>, snd u))"
  using assms settle_held [OF assms(2) refl]
  by (simp add: process_event_def try_catch_def andThen_def ret_def failed_event_def Let_def)

abbreviation smp_erase_leased :: outbox_event where
  "smp_erase_leased \<equiv> lease_event 100 300 ''w'' 200 smp_erase_event"

lemma lease_event_more [simp]:
  "ob_aggregate_id (lease_event now secs owner l e) = ob_aggregate_id e"
  "ob_namespace (lease_event now secs owner l e) = ob_namespace e"
  by (simp_all add: lease_event_def)

lemma smp_link_facts [simp]:
  "legacy_copies (Some (smp_link 1 ''zep'')) = []" "\<not> link_withdrawn (Some (smp_link 1 ''zep''))"
  "link_scheme (smp_link 1 ''zep'') = JNull" "pk_locator (smp_link 1 ''zep'') = ''loc''"
  by (simp_all add: legacy_copies_def link_withdrawn_def link_scheme_def smp_link_def)

lemma smp_erase_deliver:
  assumes "get_record 1 s = Some (smp_record 1 DELETION_PENDING)"
    and "dict_get (st_deletion_receipts s) 62 = Some (smp_deletion_receipt 62 1)"
    and "st_projection_links s = (if linked then [((1, ''zep''), smp_link 1 ''zep'')] else [])"
    and "env_now en = now" and "env_uuid en (U_status n) = sid" and "linked \<longrightarrow> f = (\<lambda>s. s)"
  shows "deliver_event (smp_worker b f) en n (lease_event lt ls lo ll smp_erase_event) (s, w)
    = (Inr (), (completed sid 1 (smp_record 1 DELETION_PENDING) (smp_deletion_receipt 62 1) 62 now ''memory.outbox-worker:w''
         (s\<lparr>st_projection_links := []\<rparr>), if linked then without_copy w (''zep'', 1) ''loc'' else w))"
proof -
  have ec: "erase_copy (smp_worker b f) now (lease_event lt ls lo ll smp_erase_event) zep (uuid_str 62) (s, w)
      = (Inr (), (s\<lparr>st_projection_links := []\<rparr>, if linked then without_copy w (''zep'', 1) ''loc'' else w))"
  proof (cases linked)
    case True
    then have g: "get_projection_link 1 ''zep'' s = Some (smp_link 1 ''zep'')"
      using assms(3) by (simp add: get_projection_link_def)
    have k: "retain_stale_link (smp_link 1 ''zep'') zep now s = (Inr (smp_link 1 ''zep''), s)"
      by (simp add: retain_stale_link_def ret_def)
    have d: "delete_projection_link 1 ''zep'' s = (Inr (), s\<lparr>st_projection_links := []\<rparr>)"
      using True assms(3) by (simp add: delete_projection_link_def modify_def)
    show ?thesis
      using True assms(6) by (simp add: erase_copy_def andThen_def on_store_def gets_def g k from_sum_def provider_call_def
          smp_provider_def ret_def d)
  next
    case False
    then have "s\<lparr>st_projection_links := []\<rparr> = s" using assms(3) by simp
    with False assms(3) show ?thesis
      by (simp add: erase_copy_def andThen_def on_store_def gets_def ret_def get_projection_link_def)
  qed
  have cd: "complete_deletion sid 1 62 now ''memory.outbox-worker:w'' (s\<lparr>st_projection_links := []\<rparr>)
      = (Inr (), completed sid 1 (smp_record 1 DELETION_PENDING) (smp_deletion_receipt 62 1) 62 now ''memory.outbox-worker:w''
          (s\<lparr>st_projection_links := []\<rparr>))"
    using assms(1,2) by (simp add: complete_deletion_eq get_record_def list_projection_links_def len_ok_def)
  have t: "list_projection_links 1 (s\<lparr>st_projection_links := []\<rparr>) = []" by (simp add: list_projection_links_def)
  show ?thesis
    using assms(4,5) ec cd t
    by (simp add: deliver_event_def erase_event_def andThen_def from_sum_def on_store_def gets_def get_str_def)
qed

lemma completed_outbox [simp]: "st_outbox (completed sid rid r d rcid now actor s) = st_outbox s"
  by (simp add: completed_def Let_def after_transition_def)

lemma smp_erase_run:
  "\<exists>t w. worker_step (smp_worker False (\<lambda>s. s)) (smp_erasing, smp_copy) smp_env = (t, w)
     \<and> map_option mr_state (get_record 1 t) = Some DELETED"
proof -
  let ?s = "smp_erasing\<lparr>st_outbox := [(4, smp_erase_leased)]\<rparr>"
  let ?t = "completed 100 1 (smp_record 1 DELETION_PENDING) (smp_deletion_receipt 62 1) 62 100 ''memory.outbox-worker:w''
      (?s\<lparr>st_projection_links := []\<rparr>)"
  have c: "leased (\<lambda>i. env_uuid smp_env (U_event i)) (env_now smp_env) 300 ''w'' (claim_batch 10 (env_now smp_env) smp_erasing)
      = [smp_erase_leased]"
    by (simp add: claim_batch_def smp_erasing_def is_claimable_def leased_def smp_env_def)
  have o: "smp_erasing\<lparr>st_outbox := dict_set_all ob_event_id [smp_erase_leased] (st_outbox smp_erasing)\<rparr> = ?s"
    by (simp add: smp_erasing_def)
  have d: "deliver_event (smp_worker False (\<lambda>s. s)) smp_env 0 smp_erase_leased (?s, smp_copy)
      = (Inr (), (?t, without_copy smp_copy (''zep'', 1) ''loc''))"
    using smp_erase_deliver [of ?s True smp_env 100 0 100 "\<lambda>s. s" False 100 300 "''w''" 200 smp_copy]
    by (simp add: smp_erasing_def get_record_def smp_env_def)
  have p: "process_event (smp_worker False (\<lambda>s. s)) smp_env (0, smp_erase_leased) (?s, smp_copy)
      = (Inr Delivered, (?t\<lparr>st_outbox := [(4, settled_event X_DELIVERED 1 100 None (Some 100) smp_erase_leased)]\<rparr>,
          without_copy smp_copy (''zep'', 1) ''loc''))"
    using process_delivered [OF d] by (simp add: smp_env_def)
  have r: "get_record 1 (?t\<lparr>st_outbox := ob\<rparr>) = Some (transitioned
      (completing 100 1 (smp_record 1 DELETION_PENDING) 62 100 ''memory.outbox-worker:w'') (smp_record 1 DELETION_PENDING))" for ob
    using completed_frame(2) [of 1 100 1 "smp_record 1 DELETION_PENDING"] by (simp add: get_record_def)
  have "worker_step (smp_worker False (\<lambda>s. s)) (smp_erasing, smp_copy) smp_env
      = (?t\<lparr>st_outbox := [(4, settled_event X_DELIVERED 1 100 None (Some 100) smp_erase_leased)]\<rparr>,
          without_copy smp_copy (''zep'', 1) ''loc'')"
    by (rule worker_step_run [where es = "[smp_erase_leased]" and outs = "[Delivered]"])
      (use c o p in \<open>simp_all add: andThen_def ret_def\<close>)
  with r show ?thesis by simp
qed

section \<open>A refused withdrawal\<close>

text \<open>
  While the provider is writing the copy, a verified deletion of the record commits: the store
  others leave is what the store's own \<open>commit_deletion\<close> makes of it.
\<close>

definition smp_others :: "store \<Rightarrow> store" where
  "smp_others s = snd (commit_deletion SERVICE_WRITE_CAPABILITY (smp_deletion_receipt 62 1)
     (smp_record 1 DELETION_PENDING) None [smp_erase_event] (smp_event 1 (Some ACTIVE) DELETION_PENDING) s)"

definition smp_project_event :: outbox_event where
  "smp_project_event = (smp_outbox 3 X_PENDING)\<lparr>ob_payload := [(''target_identity'', JStr ''zep'')]\<rparr>"

definition smp_later :: env where
  "smp_later = smp_env\<lparr>env_now := 100 + seconds 10\<rparr>"

lemma smp_project_sel [simp]:
  "ob_event_id smp_project_event = 3" "ob_status smp_project_event = X_PENDING" "ob_next_attempt_at smp_project_event = 5"
  "ob_created_at smp_project_event = 5" "ob_event_type smp_project_event = ''memory.record.project''"
  "ob_aggregate_id smp_project_event = 1" "ob_attempts smp_project_event = 0"
  "ob_payload smp_project_event = [(''target_identity'', JStr ''zep'')]"
  by (simp_all add: smp_project_event_def smp_outbox_def)

definition smp_projecting :: store where
  "smp_projecting = empty_store\<lparr>st_records := [(1, smp_record 1 ACTIVE)], st_outbox := [(3, smp_project_event)]\<rparr>"

abbreviation smp_deleted_meanwhile :: "outbox_event \<Rightarrow> store" where
  "smp_deleted_meanwhile e \<equiv> empty_store\<lparr>st_records := [(1, smp_record 1 DELETION_PENDING)],
     st_status_events := [smp_event 1 (Some ACTIVE) DELETION_PENDING],
     st_deletion_receipts := [(62, smp_deletion_receipt 62 1)], st_outbox := [(3, e), (4, smp_erase_event)]\<rparr>"

lemma smp_others_first:
  "smp_others (empty_store\<lparr>st_records := [(1, smp_record 1 ACTIVE)], st_outbox := [(3, e)]\<rparr>) = smp_deleted_meanwhile e"
  by (simp add: smp_others_def commit_deletion_def require_service_write_capability_def andThen_def check_def ret_def gets_def
      get_record_def check_transition_def modify_def drop_selectors_def put_outbox_events_def empty_store_def)

lemma smp_others_again: "smp_others (smp_deleted_meanwhile e) = smp_deleted_meanwhile e"
  by (simp add: smp_others_def commit_deletion_def require_service_write_capability_def andThen_def check_def ret_def gets_def
      get_record_def check_transition_def throw_def)

abbreviation smp_leaking :: "smp_world worker" where
  "smp_leaking \<equiv> smp_worker True smp_others"

abbreviation smp_project_leased :: outbox_event where
  "smp_project_leased \<equiv> lease_event 100 300 ''w'' 200 smp_project_event"

definition smp_project_retry :: outbox_event where
  "smp_project_retry = settled_event X_RETRY 1 (100 + seconds 5) (Some ''provider unavailable'') None smp_project_leased"

lemma smp_retry_sel [simp]:
  "ob_event_id smp_project_retry = 3" "ob_status smp_project_retry = X_RETRY" "ob_next_attempt_at smp_project_retry = 100 + seconds 5"
  "ob_created_at smp_project_retry = 5" "ob_event_type smp_project_retry = ''memory.record.project''"
  "ob_aggregate_id smp_project_retry = 1" "ob_attempts smp_project_retry = 1"
  "ob_payload smp_project_retry = [(''target_identity'', JStr ''zep'')]"
  by (simp_all add: smp_project_retry_def) (simp_all add: settled_event_def lease_event_def)

text \<open>The first run: the copy is written, the withdrawal refused, the event put back.\<close>

lemma smp_leak_first:
  "worker_step smp_leaking (smp_projecting, \<lambda>k. None) smp_env = (smp_deleted_meanwhile smp_project_retry, smp_copy)"
proof -
  let ?s = "empty_store\<lparr>st_records := [(1, smp_record 1 ACTIVE)], st_outbox := [(3, smp_project_leased)]\<rparr>"
  have w: "withdraw_fresh smp_leaking (smp_record 1 ACTIVE) zep ''loc'' (smp_deleted_meanwhile smp_project_leased, smp_copy)
      = (Inl (RuntimeError ''provider unavailable''), (smp_deleted_meanwhile smp_project_leased, smp_copy))"
    by (simp add: withdraw_fresh_def andThen_def provider_call_def smp_provider_def smp_others_again)
  have pj: "deliver_copy smp_leaking (smp_record 1 ACTIVE) zep (smp_adapter ''zep'') None (?s, \<lambda>k. None)
      = (Inr (JObj [(''locator'', JStr ''loc'')]), (smp_deleted_meanwhile smp_project_leased, smp_copy))"
    by (simp add: deliver_copy_def provider_call_def smp_provider_def smp_others_first smp_copy_def)
  have d: "deliver_event smp_leaking smp_env 0 smp_project_leased (?s, \<lambda>k. None)
      = (Inl (RuntimeError ''provider unavailable''), (smp_deleted_meanwhile smp_project_leased, smp_copy))"
    by (simp add: deliver_event_def project_event_def andThen_def from_sum_def on_store_def gets_def get_record_def pj w
        is_active_def)
  have p: "process_event smp_leaking smp_env (0, smp_project_leased) (?s, \<lambda>k. None)
      = (Inr Retried, (smp_deleted_meanwhile smp_project_retry, smp_copy))"
    using process_retried [OF d] by (simp add: smp_project_retry_def retry_delay_def)
  show ?thesis
    by (rule worker_step_run [where es = "[smp_project_leased]" and outs = "[Retried]"])
      (use p in \<open>simp_all add: smp_projecting_def claim_batch_def is_claimable_def leased_def smp_env_def andThen_def ret_def\<close>)
qed

text \<open>The second run: the record is not current, so the retry and the erasure have nothing to do.\<close>

abbreviation smp_retry_leased :: outbox_event where
  "smp_retry_leased \<equiv> lease_event (100 + seconds 10) 300 ''w'' 200 smp_project_retry"

abbreviation smp_erase_leased_later :: outbox_event where
  "smp_erase_leased_later \<equiv> lease_event (100 + seconds 10) 300 ''w'' 201 smp_erase_event"

lemma smp_leak_second:
  "\<exists>t. worker_step smp_leaking (smp_deleted_meanwhile smp_project_retry, smp_copy) smp_later = (t, smp_copy)
     \<and> map_option mr_state (get_record 1 t) = Some DELETED
     \<and> map_option dr_status (dict_get (st_deletion_receipts t) 62) = Some D_COMPLETE"
proof -
  let ?s0 = "(smp_deleted_meanwhile smp_project_retry)\<lparr>st_outbox := [(3, smp_retry_leased), (4, smp_erase_leased_later)]\<rparr>"
  let ?fin = "settled_event X_DELIVERED (Suc (Suc 0)) (100 + seconds 10) None (Some (100 + seconds 10)) smp_retry_leased"
  let ?s1 = "?s0\<lparr>st_outbox := [(3, ?fin), (4, smp_erase_leased_later)]\<rparr>"
  let ?s2 = "completed 101 1 (smp_record 1 DELETION_PENDING) (smp_deletion_receipt 62 1) 62 (100 + seconds 10)
      ''memory.outbox-worker:w'' (?s1\<lparr>st_projection_links := []\<rparr>)"
  have d0: "deliver_event smp_leaking smp_later 0 smp_retry_leased (?s0, smp_copy) = (Inr (), (?s0, smp_copy))"
    by (simp add: deliver_event_def project_event_def andThen_def from_sum_def on_store_def gets_def get_record_def ret_def)
  have p0: "process_event smp_leaking smp_later (0, smp_retry_leased) (?s0, smp_copy) = (Inr Delivered, (?s1, smp_copy))"
    using process_delivered [OF d0] by (simp add: smp_later_def)
  have d1: "deliver_event smp_leaking smp_later 1 smp_erase_leased_later (?s1, smp_copy) = (Inr (), (?s2, smp_copy))"
    using smp_erase_deliver [of ?s1 False smp_later "100 + seconds 10" 1 101 smp_others True "100 + seconds 10" 300 "''w''" 201 smp_copy]
    by (simp add: get_record_def smp_later_def smp_env_def empty_store_def)
  obtain ob where p1: "process_event smp_leaking smp_later (1, smp_erase_leased_later) (?s1, smp_copy)
      = (Inr Delivered, (?s2\<lparr>st_outbox := ob\<rparr>, smp_copy))"
    using process_delivered [OF d1] by simp
  have "worker_step smp_leaking (smp_deleted_meanwhile smp_project_retry, smp_copy) smp_later = (?s2\<lparr>st_outbox := ob\<rparr>, smp_copy)"
    by (rule worker_step_run [where es = "[smp_retry_leased, smp_erase_leased_later]" and outs = "[Delivered, Delivered]"])
      (use p0 p1 in \<open>simp_all add: claim_batch_def is_claimable_def leased_def smp_later_def smp_env_def seconds_def andThen_def ret_def\<close>)
  moreover have "get_record 1 (?s2\<lparr>st_outbox := ob\<rparr>) = Some (transitioned
      (completing 101 1 (smp_record 1 DELETION_PENDING) 62 (100 + seconds 10) ''memory.outbox-worker:w'') (smp_record 1 DELETION_PENDING))"
    using completed_frame(2) [of 1 101 1 "smp_record 1 DELETION_PENDING"] by (simp add: get_record_def)
  moreover have "dict_get (st_deletion_receipts (?s2\<lparr>st_outbox := ob\<rparr>)) 62
      = Some ((smp_deletion_receipt 62 1)\<lparr>dr_status := D_COMPLETE, dr_completed_at := Some (100 + seconds 10)\<rparr>)"
    by (simp add: completed_def Let_def)
  ultimately show ?thesis by simp
qed

text \<open>
  The copy is out of reach although the deletion completes: the receipt is COMPLETE and the
  provider still holds what it wrote.
\<close>

lemma smp_leak_run:
  "\<exists>t w. run_steps (worker_step smp_leaking) (smp_projecting, \<lambda>k. None) [smp_env, smp_later] = (t, w)
     \<and> map_option mr_state (get_record 1 t) = Some DELETED
     \<and> map_option dr_status (dict_get (st_deletion_receipts t) 62) = Some D_COMPLETE
     \<and> w (''zep'', 1) = Some ''loc''"
proof -
  obtain t where "worker_step smp_leaking (smp_deleted_meanwhile smp_project_retry, smp_copy) smp_later = (t, smp_copy)"
    "map_option mr_state (get_record 1 t) = Some DELETED"
    "map_option dr_status (dict_get (st_deletion_receipts t) 62) = Some D_COMPLETE"
    using smp_leak_second by blast
  then show ?thesis by (simp add: smp_leak_first smp_copy_def)
qed


section \<open>An event that never succeeds\<close>

text \<open>A first turn in which another process queues an event, and three runs.\<close>

definition smp_queues :: "store \<Rightarrow> store" where
  "smp_queues s = s\<lparr>st_outbox := dict_set 9 (smp_outbox 9 X_PENDING) (st_outbox s)\<rparr>"

abbreviation smp_once :: "smp_world worker" where
  "smp_once \<equiv> (smp_worker True (\<lambda>s. s))\<lparr>wk_max_attempts := 1\<rparr>"

lemma smp_queues_progress:
  assumes "dict_get (st_outbox s) 9 = None"
  shows "outbox_progress wk (st_outbox s) (st_outbox (smp_queues s))"
  using assms by (auto simp: outbox_progress_def smp_queues_def intro: keyed_set)

theorem worker_settles_every_event_witness:
  "\<exists>e'. dict_get (st_outbox (fst (run_steps (turn_step smp_once) (smp_queue, \<lambda>k. None) [(smp_queues, smp_env)]))) 3 = Some e'
     \<and> ob_status e' \<in> {X_DELIVERED, X_DEAD}"
proof (rule worker_settles_every_event)
  show "dict_get (st_outbox (fst (smp_queue, \<lambda>k. None))) 3 = Some (smp_outbox 3 X_PENDING)"
    by (simp add: smp_queue_def)
  have "outbox_progress smp_once (st_outbox smp_queue) (st_outbox (smp_queues smp_queue))"
    by (rule smp_queues_progress) (simp add: smp_queue_def)
  then show "run_allowed (turn_step smp_once) (in_turn smp_once 3) (smp_queue, \<lambda>k. None) [(smp_queues, smp_env)]"
    by (simp add: in_turn_def) (simp add: smp_queues_def smp_queue_def claim_batch_def is_claimable_def settled_status_def)
  show "keyed ob_event_id (st_outbox (fst (smp_queue, \<lambda>k. None)))" using smp_queue_keyed(1) by simp
qed (simp_all add: others_progress_def smp_provider_def)

end
