(* ===== verification/DeletionLaws.thy ===== *)
theory DeletionLaws
  imports ServiceDelete CopySamples ServiceWrite
begin

text \<open>
  The deletion protocol as a whole: \<open>MemoryService.delete\<close> tombstones and owes erasures,
  the outbox worker performs them and completes the deletion. In any interleaving of
  deletions, worker batches and well-behaved steps of others, a record counts as DELETED only
  when no target holds a copy of it.
\<close>

section \<open>A deployment\<close>











section \<open>Concrete deletions\<close>

definition smp_admin :: memory_principal where
  "smp_admin = smp_principal\<lparr>mp_is_admin := True\<rparr>"

definition smp_deletion :: deletion_request where
  "smp_deletion = \<lparr>dlr_record_id = 1, dlr_reason = ''r'', dlr_verification_reference = ''v'', dlr_dry_run = False\<rparr>"

definition smp_projected :: store where
  "smp_projected = empty_store\<lparr>st_records := [(1, smp_record 1 ACTIVE)],
     st_idempotency := [(operation_key (smp_record 1 ACTIVE), 1)],
     st_projection_links := [((1, ''zep''), smp_link 1 ''zep'')]\<rparr>"

lemma smp_admin_sel [simp]:
  "may smp_admin a ns" "mp_tenant_id smp_admin = ''t''" "audit_subject smp_admin = ''t:p''" "mp_is_admin smp_admin"
  by (simp_all add: smp_admin_def may_def smp_principal_def audit_subject_def)

lemma smp_deletion_sel [simp]: "dlr_record_id smp_deletion = 1" "\<not> dlr_dry_run smp_deletion"
  by (simp_all add: smp_deletion_def)

lemma smp_projected_get [simp]: "get_record x smp_projected = (if x = 1 then Some (smp_record 1 ACTIVE) else None)"
  by (simp add: smp_projected_def get_record_def)

lemma smp_projected_wf: "store_wf smp_projected"
proof -
  have e: "smp_projected = (inserted (Some (smp_record 1 ACTIVE)) empty_store)
      \<lparr>st_projection_links := [((1, ''zep''), smp_link 1 ''zep'')]\<rparr>"
    by (simp add: smp_projected_def inserted_def empty_store_def)
  have f: "fresh_record (smp_record 1 ACTIVE) empty_store"
    by (simp add: fresh_record_def get_record_def empty_store_def)
  show ?thesis unfolding e
    by (intro wf_links inserted_wf [OF store_wf_empty f]) (simp add: keyed_def dict_ok_def link_key_def)
qed

lemma smp_holders: "copy_holders smp_service 1 smp_projected = [''zep'']"
  by (simp add: copy_holders_def delivery_identities_def delivery_targets_def list_projection_links_def
      smp_projected_def dedup_def)

lemma smp_deletable: "deletable smp_admin (smp_record 1 ACTIVE)"
  by (simp add: deletable_def)

lemma smp_delete_run:
  "delete_record smp_service smp_env smp_admin smp_deletion smp_projected
     = (Inr (live_receipt smp_service smp_env smp_admin smp_deletion (smp_record 1 ACTIVE) [''zep'']),
        tombstone smp_service smp_env smp_admin smp_deletion (smp_record 1 ACTIVE) [''zep''] smp_projected)"
  using delete_record_cases(3) [of "smp_record 1 ACTIVE" smp_deletion smp_projected smp_admin smp_service smp_env]
  by (simp add: smp_deletable smp_holders len_ok_def)

theorem deletion_effect_witness:
  "\<exists>d t. delete_record smp_service smp_env smp_admin smp_deletion smp_projected = (Inr d, t)
     \<and> map_option mr_state (get_record 1 t) = Some DELETION_PENDING
     \<and> dr_projection_targets d = [''zep''] \<and> st_projection_links t = st_projection_links smp_projected"
  using deletion_effect [OF smp_projected_wf, where svc = smp_service and en = smp_env and p = smp_admin and q = smp_deletion]
  by (simp add: smp_delete_run goes_to_def smp_holders)

theorem deletion_forgets_witness:
  "delete_record smp_service smp_env smp_admin smp_deletion
     (smp_projected\<lparr>st_records := [(1, (smp_record 1 ACTIVE)\<lparr>mr_content := ''another fact''\<rparr>)]\<rparr>)
   = delete_record smp_service smp_env smp_admin smp_deletion smp_projected"
proof -
  have same: "same_identity (smp_record 1 ACTIVE) ((smp_record 1 ACTIVE)\<lparr>mr_content := ''another fact''\<rparr>)"
    by (simp add: same_identity_def)
  have s: "smp_projected\<lparr>st_records := dict_set (dlr_record_id smp_deletion) ((smp_record 1 ACTIVE)\<lparr>mr_content := ''another fact''\<rparr>)
        (st_records smp_projected), st_source_selectors := []\<rparr>
      = smp_projected\<lparr>st_records := [(1, (smp_record 1 ACTIVE)\<lparr>mr_content := ''another fact''\<rparr>)]\<rparr>"
    by (simp add: smp_projected_def empty_store_def)
  show ?thesis
    using deletion_forgets [OF _ _ same _ smp_delete_run, of "[]"] unfolding s smp_delete_run
    by (simp add: smp_projected_def empty_store_def get_record_def)
qed


definition smp_aged :: store where
  "smp_aged = empty_store\<lparr>st_records := [(1, smp_expired)], st_idempotency := [(operation_key smp_expired, 1)]\<rparr>"

lemma smp_expired_sel [simp]:
  "mr_record_id smp_expired = 1" "mr_state smp_expired = ACTIVE" "mr_tenant_id smp_expired = ''t''"
  "mr_namespace smp_expired = ''ns''"
  by (simp_all add: smp_expired_def)

lemma smp_aged_wf: "store_wf smp_aged"
proof -
  have e: "smp_aged = inserted (Some smp_expired) empty_store"
    by (simp add: smp_aged_def inserted_def empty_store_def)
  have f: "fresh_record smp_expired empty_store"
    by (simp add: fresh_record_def get_record_def empty_store_def)
  show ?thesis unfolding e by (rule inserted_wf [OF store_wf_empty f])
qed

lemma smp_archived: "archived_by default_retention_policy 100 [smp_expired] = [1]"
  using retention_archives_exactly [of smp_expired "[smp_expired]" default_retention_policy 100]
  by (simp add: archived_by_eq smp_expired_def default_retention_policy_def)

theorem retention_effect_witness:
  "\<exists>receipt t. apply_retention smp_service default_retention_policy smp_env smp_admin ''ns'' True smp_aged = (Inr receipt, t)
     \<and> arc_archived_record_ids (rr_archive_receipt receipt) = [1]
     \<and> get_record 1 t = Some (smp_expired\<lparr>mr_state := ARCHIVED\<rparr>)"
proof -
  let ?run = "apply_retention smp_service default_retention_policy smp_env smp_admin ''ns'' True smp_aged"
  have l: "list_records ''t'' ''ns'' RETENTION_STATES (Some 100000) smp_aged = [smp_expired]"
    by (simp add: list_records_def by_recency_def sort_desc_def smp_aged_def RETENTION_STATES_def)
  have "\<exists>receipt t. ?run = (Inr receipt, t) \<and> arc_archived_record_ids (rr_archive_receipt receipt) = [1]"
  proof -
    have g: "get_record 1 smp_aged = Some smp_expired" "get_record x (u\<lparr>st_archive_receipts := d\<rparr>) = get_record x u" for x u d
      by (simp_all add: smp_aged_def get_record_def)
    have v: "rp_policy_version default_retention_policy = ''memory-retention/v2''"
      by (simp add: default_retention_policy_def RETENTION_POLICY_VERSION_def)
    have ids: "map rd_record_id (filter (\<lambda>d. rd_action d = ''archive'') (retention_evaluate default_retention_policy [smp_expired] 100)) = [1]"
      using smp_archived by (simp add: archived_by_def)
    then have ne: "filter (\<lambda>d. rd_action d = ''archive'') (retention_evaluate default_retention_policy [smp_expired] 100) \<noteq> []"
      by auto
    show ?thesis
      using ids ne
      by (simp add: apply_retention_def andThen_def authorize_run gets_def ret_def Let_def l v g archived_event_def
          make_status_event_def len_ok_def from_sum_def commit_archive_def require_service_write_capability_def check_def
          check_transitions_def check_transition_def modify_def apply_transition_def put_outbox_events_def)
  qed
  then obtain receipt t where r: "?run = (Inr receipt, t)" "arc_archived_record_ids (rr_archive_receipt receipt) = [1]" by blast
  have g: "get_record 1 smp_aged = Some smp_expired" by (simp add: smp_aged_def get_record_def)
  from retention_effect [OF smp_aged_wf, where svc = smp_service and rp = default_retention_policy and en = smp_env
      and p = smp_admin and ns = "''ns''", of True] r g
  show ?thesis by (auto simp: Let_def)
qed

end
