(* ===== verification/ProjectionSamples.thy ===== *)
theory ProjectionSamples
  imports ProjectionLaws DeletionLaws
begin

text \<open>
  Concrete runs of the operations over provider copies: a rebuild of one missing copy, a
  recorded cutover, and a release that completes a pending deletion.
\<close>

lemma smp_active_targets [simp]: "delivery_targets smp_runtime = [zep]" "active_targets smp_runtime = [zep]"
  using smp_zep(5) by (simp_all add: delivery_targets_def active_targets_def) (simp add: legacy_binding_def)

section \<open>Rebuild\<close>

definition smp_unlinked :: store where
  "smp_unlinked = empty_store\<lparr>st_records := [(1, smp_record 1 ACTIVE)],
     st_idempotency := [(operation_key (smp_record 1 ACTIVE), 1)]\<rparr>"

lemma smp_unlinked_wf: "store_wf smp_unlinked"
proof -
  have e: "smp_unlinked = inserted (Some (smp_record 1 ACTIVE)) empty_store"
    by (simp add: smp_unlinked_def inserted_def empty_store_def)
  have f: "fresh_record (smp_record 1 ACTIVE) empty_store"
    by (simp add: fresh_record_def get_record_def empty_store_def)
  show ?thesis unfolding e by (rule inserted_wf [OF store_wf_empty f])
qed

lemma smp_unlinked_sel [simp]:
  "list_records ''t'' ''ns'' [ACTIVE] b smp_unlinked = (case b of None \<Rightarrow> [smp_record 1 ACTIVE] | Some n \<Rightarrow> take n [smp_record 1 ACTIVE])"
  "get_record x smp_unlinked = (if x = 1 then Some (smp_record 1 ACTIVE) else None)"
  "list_unprojected_records ''t'' ''ns'' tg n smp_unlinked = take n [smp_record 1 ACTIVE]"
  "st_outbox smp_unlinked = []" "get_projection_link x tg smp_unlinked = None"
  by (simp_all add: list_records_def Let_def by_recency_def sort_desc_def smp_unlinked_def get_record_def
      list_unprojected_records_def dict_has_def get_projection_link_def empty_store_def)

theorem rebuild_queues_missing_copies_witness:
  "\<exists>receipt t es. rebuild_projection smp_service smp_env smp_admin ''ns'' True 10 ''r'' None smp_unlinked = (Inr receipt, t)
     \<and> st_outbox t = dict_set_all ob_event_id es [] \<and> map intent es = [(''memory.record.project'', 1, Some ''zep'')]"
proof -
  let ?run = "rebuild_projection smp_service smp_env smp_admin ''ns'' True 10 ''r'' None smp_unlinked"
  have "\<exists>receipt t. ?run = (Inr receipt, t)"
  proof -
    have mk: "make_rebuild_receipt (rebuild_receipt_of smp_env smp_admin ''ns'' True 10 ''r'' a [zep] s es)
        = Inr (rebuild_receipt_of smp_env smp_admin ''ns'' True 10 ''r'' a [zep] s es)"
      and ap: "pb_applied (rebuild_receipt_of smp_env smp_admin ''ns'' True 10 ''r'' a [zep] s es)" for a s es
      by (simp_all add: make_rebuild_receipt_def rebuild_receipt_of_def Let_def len_ok_def)
    have commit: "\<exists>t. commit_projection_rebuild SERVICE_WRITE_CAPABILITY rc es s = (Inr (), t)" if "pb_applied rc" for rc es s
      using that by (simp add: commit_projection_rebuild_def andThen_def require_service_write_capability_def check_def
          ret_def modify_def put_outbox_events_def)
    have unit: "andThen (ret ()) f = f ()" for f :: "unit \<Rightarrow> rebuild_receipt store_op"
      by (simp add: fun_eq_iff andThen_def ret_def)
    let ?es = "extend_events (rebuild_event smp_env ''ns'') 0 (rebuild_pairs ''t'' ''ns'' 10 smp_unlinked [zep])"
    let ?rc = "rebuild_receipt_of smp_env smp_admin ''ns'' True 10 ''r'' (evaluate (stamp_of smp_env U_authorization) smp_admin A_MAINTAIN ''ns'') [zep] smp_unlinked ?es"
    obtain t where c: "commit_projection_rebuild SERVICE_WRITE_CAPABILITY ?rc ?es smp_unlinked = (Inr (), t)"
      using commit [OF ap] by blast
    have "?run = (if ?es \<noteq> [] then andThen (commit_projection_rebuild SERVICE_WRITE_CAPABILITY ?rc ?es) (\<lambda>_. ret ?rc)
        else ret ?rc) smp_unlinked"
      by (simp add: unit rebuild_projection_def andThen_def [of "authorize _ _ _ _"] andThen_def [of "from_sum _"]
          andThen_def [of "check _ _"] andThen_def [of "gets _"] authorize_run gets_def from_sum_def check_def select_targets_def mk)
    with c show ?thesis by (cases "?es = []") (simp_all add: andThen_def ret_def)
  qed
  then obtain receipt t where r: "?run = (Inr receipt, t)" by blast
  have sel: "select_targets smp_service None = Inr [zep]" by (simp add: select_targets_def)
  from rebuild_queues_missing_copies [OF smp_unlinked_wf r] sel obtain missing es where
    m: "set (missing zep) = {q. get_record (mr_record_id q) smp_unlinked = Some q \<and> mr_tenant_id q = ''t'' \<and> mr_namespace q = ''ns''
        \<and> mr_state q = ACTIVE \<and> needs_copy zep smp_unlinked q}" "distinct (missing zep)"
    and es: "st_outbox t = dict_set_all ob_event_id es []"
    "map intent es = map (\<lambda>q. (''memory.record.project'', mr_record_id q, Some ''zep'')) (take 10 (missing zep))"
    by auto
  have only: "get_record (mr_record_id q) smp_unlinked = Some q \<and> mr_tenant_id q = ''t'' \<and> mr_namespace q = ''ns''
        \<and> mr_state q = ACTIVE \<and> needs_copy zep smp_unlinked q \<longleftrightarrow> q = smp_record 1 ACTIVE" for q
  proof
    assume "get_record (mr_record_id q) smp_unlinked = Some q \<and> mr_tenant_id q = ''t'' \<and> mr_namespace q = ''ns''
        \<and> mr_state q = ACTIVE \<and> needs_copy zep smp_unlinked q"
    then have "(if mr_record_id q = 1 then Some (smp_record 1 ACTIVE) else None) = Some q" by simp
    then show "q = smp_record 1 ACTIVE" by (metis option.distinct(1) option.inject)
  next
    assume q: "q = smp_record 1 ACTIVE"
    show "get_record (mr_record_id q) smp_unlinked = Some q \<and> mr_tenant_id q = ''t'' \<and> mr_namespace q = ''ns''
        \<and> mr_state q = ACTIVE \<and> needs_copy zep smp_unlinked q"
      unfolding q by (simp add: needs_copy_def)
  qed
  have "set (missing zep) = {smp_record 1 ACTIVE}" unfolding m(1) only by simp
  then have "length (missing zep) = 1 \<and> set (missing zep) = {smp_record 1 ACTIVE}"
    using distinct_card [OF m(2)] by simp
  then have "missing zep = [smp_record 1 ACTIVE]" by (auto simp: length_Suc_conv)
  with es r show ?thesis by (intro exI [of _ receipt] exI [of _ t] exI [of _ es]) simp
qed

section \<open>A cutover\<close>

definition smp_cutover_request :: cutover_request where
  "smp_cutover_request = \<lparr>cq_previous_binding = ''old'', cq_new_binding = ''new'', cq_change_reference = ''c'',
     cq_rollback_window = 10, cq_apply = True, cq_schema_fingerprint = None, cq_graph_capabilities = [],
     cq_reason = ''r''\<rparr>"

theorem cutover_recorded_when_ready_witness:
  "\<exists>receipt t. record_graph_cutover smp_service (\<lambda>a b. None) smp_env smp_admin ''ns'' smp_cutover_request smp_projected = (Inr receipt, t)
     \<and> last (list_graph_cutovers ''t'' ''ns'' t) = receipt \<and> gc_rollback_window_ends_at receipt = 110"
proof -
  let ?run = "record_graph_cutover smp_service (\<lambda>a b. None) smp_env smp_admin ''ns'' smp_cutover_request smp_projected"
  have g: "graph_projection_target smp_runtime = Inr (Some zep)"
    by (simp add: graph_projection_target_def graph_candidates_def serves_graph_search_def Let_def)
  have l: "list_records ''t'' ''ns'' [ACTIVE] None smp_projected = [smp_record 1 ACTIVE]"
    by (simp add: list_records_def by_recency_def sort_desc_def smp_projected_def)
  have pu: "projected_under zep None smp_projected (smp_record 1 ACTIVE)"
    by (simp add: projected_under_def get_projection_link_def smp_projected_def link_withdrawn_def link_scheme_def)
  have b: "outbox_backlog smp_projected = 0"
    by (simp add: outbox_backlog_def smp_projected_def empty_store_def)
  have st: "strip ''old'' = ''old''" "strip ''new'' = ''new''" by (simp_all add: strip_def is_space_def)
  have "\<exists>receipt t. ?run = (Inr receipt, t)"
    by (simp add: record_graph_cutover_def andThen_def authorize_run gets_def ret_def from_sum_def check_def g
        smp_cutover_request_def st make_cutover_receipt_def cutover_receipt_of_def Let_def l pu b len_ok_def
        commit_graph_cutover_def require_service_write_capability_def modify_def)
  then obtain receipt t where r: "?run = (Inr receipt, t)" by blast
  have q: "cq_apply smp_cutover_request" "cq_rollback_window smp_cutover_request = 10" by (simp_all add: smp_cutover_request_def)
  note w = cutover_recorded_when_ready [OF smp_projected_wf, where svc = smp_service and confirm = "\<lambda>a b. None" and en = smp_env
      and p = smp_admin and ns = "''ns''" and q = smp_cutover_request, unfolded r prod.case sum.case smp_admin_sel(2)]
  have w': "last (list_graph_cutovers ''t'' ''ns'' t) = receipt"
    "gc_rollback_window_ends_at receipt = env_now smp_env + cq_rollback_window smp_cutover_request"
    using w q(1) by (meson if_not_P)+
  then have "gc_rollback_window_ends_at receipt = 110" using q(2) by simp
  with r w'(1) show ?thesis by blast
qed

section \<open>A release\<close>

text \<open>The copy of the old scope is a legacy obligation of a withdrawn link; its deletion is pending.\<close>

definition smp_legacy_link :: projection_link where
  "smp_legacy_link = (smp_link 1 ''zep'')\<lparr>pk_metadata :=
     [(LEGACY_COPIES_KEY, JList [JObj [(''locator'', JStr ''old''), (''superseded_at'', JTime 3)]]),
      (LINK_WITHDRAWN_KEY, JBool True), (PENDING_DELETION_RECEIPT_KEY, JStr (uuid_str 62))]\<rparr>"

definition smp_cut :: cutover_receipt where
  "smp_cut = \<lparr>gc_receipt_id = 70, gc_tenant_id = ''t'', gc_namespace = ''ns'', gc_projection_name = ''zep'',
     gc_applied = True, gc_previous_binding = ''old'', gc_new_binding = ''new'', gc_change_reference = ''c'',
     gc_cut_over_at = 4, gc_rollback_window_ends_at = 50, gc_scope_scheme = None, gc_active_record_count = 0,
     gc_projected_record_count = 0, gc_unprojected_record_ids = [], gc_outbox_backlog = 0,
     gc_schema_fingerprint = None, gc_graph_capabilities = [], gc_ready = True,
     gc_authorization = smp_authorization, gc_reason = ''r'', gc_actor = ''a'', gc_created_at = 4\<rparr>"

definition smp_releasing :: store where
  "smp_releasing = empty_store\<lparr>st_records := [(1, smp_record 1 DELETION_PENDING)],
     st_idempotency := [(operation_key (smp_record 1 DELETION_PENDING), 1)],
     st_deletion_receipts := [(62, smp_deletion_receipt 62 1)],
     st_projection_links := [((1, ''zep''), smp_legacy_link)], st_graph_cutovers := [smp_cut]\<rparr>"

lemma smp_legacy_link_sel [simp]:
  "link_key smp_legacy_link = (1, ''zep'')" "pk_target_identity smp_legacy_link = ''zep''" "pk_record_id smp_legacy_link = 1"
  "legacy_copies (Some smp_legacy_link) = [[(''locator'', JStr ''old''), (''superseded_at'', JTime 3)]]"
  "link_withdrawn (Some smp_legacy_link)"
  "dict_get (pk_metadata smp_legacy_link) PENDING_DELETION_RECEIPT_KEY = Some (JStr (uuid_str 62))"
  by (simp_all add: smp_legacy_link_def link_key_def legacy_copies_def link_withdrawn_def LEGACY_COPIES_KEY_def
      LINK_WITHDRAWN_KEY_def PENDING_DELETION_RECEIPT_KEY_def)

lemma smp_releasing_wf: "store_wf smp_releasing"
proof -
  let ?r = "smp_record 1 DELETION_PENDING"
  let ?a = "inserted (Some ?r) empty_store"
  have e: "smp_releasing = ?a\<lparr>st_deletion_receipts := [(62, smp_deletion_receipt 62 1)]\<rparr>
      \<lparr>st_projection_links := [((1, ''zep''), smp_legacy_link)]\<rparr>\<lparr>st_graph_cutovers := [smp_cut]\<rparr>"
    by (simp add: smp_releasing_def inserted_def empty_store_def)
  have f: "fresh_record ?r empty_store"
    by (simp add: fresh_record_def get_record_def empty_store_def)
  have a: "store_wf ?a" by (rule inserted_wf [OF store_wf_empty f])
  have "?a\<lparr>st_deletion_receipts := [(62, smp_deletion_receipt 62 1)]\<rparr>
      = ?a\<lparr>st_deletion_receipts := dict_set 62 (smp_deletion_receipt 62 1) (st_deletion_receipts ?a)\<rparr>"
    by (simp add: inserted_def empty_store_def)
  then have b: "store_wf (?a\<lparr>st_deletion_receipts := [(62, smp_deletion_receipt 62 1)]\<rparr>)"
    using wf_deletion_receipts [OF a, of "smp_deletion_receipt 62 1"] by (simp add: inserted_def get_record_def)
  show ?thesis unfolding e
    by (intro wf_ledgers wf_links b) (simp add: keyed_def dict_ok_def)
qed

theorem legacy_release_exact_witness:
  "\<exists>receipt t. release_legacy_projection_copies smp_service smp_env smp_admin ''ns'' ''destroyed'' True None ''r'' smp_releasing
       = (Inr receipt, t)
     \<and> lpr_completed_deletion_record_ids receipt = [1] \<and> map_option mr_state (get_record 1 t) = Some DELETED
     \<and> get_projection_link 1 ''zep'' t = None"
proof -
  let ?run = "release_legacy_projection_copies smp_service smp_env smp_admin ''ns'' ''destroyed'' True None ''r'' smp_releasing"
  have cs: "list_graph_cutovers ''t'' ''ns'' smp_releasing = [smp_cut]"
    by (simp add: list_graph_cutovers_def smp_releasing_def smp_cut_def)
  have gate: "release_gate [smp_cut] 100 True = Inr (Some smp_cut)"
    by (simp add: release_gate_def smp_cut_def)
  have rs: "list_records ''t'' ''ns'' [] None smp_releasing = [smp_record 1 DELETION_PENDING]"
    by (simp add: list_records_def by_recency_def sort_desc_def smp_releasing_def)
  have ls: "list_projection_links 1 smp_releasing = [smp_legacy_link]"
    by (simp add: list_projection_links_def smp_releasing_def)
  define plan where "plan = \<lparr>rpl_released = [1], rpl_completed = [1], rpl_link_updates = [],
      rpl_link_removals = [(1, ''zep'')], rpl_deletion_completions = [(1, 62)], rpl_expected_links = [smp_legacy_link],
      rpl_copy_count = 1\<rparr>"
  have add: "plan_add (smp_record 1 DELETION_PENDING) [smp_legacy_link] empty_plan = Inr plan"
    by (simp add: plan_add_def Let_def pending_of_def empty_plan_def plan_def)
  have pl: "plan_release (Some smp_cut) [smp_record 1 DELETION_PENDING] empty_plan smp_releasing = (Inr plan, smp_releasing)"
    by (simp add: andThen_def gets_def ls require_predates_cutover_def copy_predates_def smp_cut_def from_sum_def ret_def add)
  let ?rc = "release_receipt_of smp_service smp_env smp_admin ''ns'' ''destroyed'' True ''r'' (Some smp_cut) plan"
  have rc: "lpr_applied ?rc" "lpr_actor ?rc = ''t:p''" "lpr_completed_deletion_record_ids ?rc = [1]"
    "make_legacy_release_receipt ?rc = Inr ?rc"
    by (simp_all add: release_receipt_of_def make_legacy_release_receipt_def plan_def len_ok_def projection_label_def)
  obtain t where c: "commit_legacy_projection_release (\<lambda>i. env_uuid smp_env (U_status i)) SERVICE_WRITE_CAPABILITY ?rc
      [] [(1, ''zep'')] [(1, 62)] [smp_legacy_link] smp_releasing = (Inr (), t)"
    by (simp add: commit_legacy_projection_release_def require_service_write_capability_def andThen_def check_def rc(1)
        ret_def gets_def check_expected_link_def check_completion_def release_effects_def modify_def try_catch_def
        dict_has_def complete_deletion_eq list_projection_links_def rc(2) len_ok_def)
      (simp add: smp_releasing_def get_record_def dict_has_def ret_def andThen_def gets_def modify_def complete_deletion_eq
        try_catch_def rc(2) list_projection_links_def len_ok_def)
  have "\<exists>receipt t. ?run = (Inr receipt, t) \<and> lpr_completed_deletion_record_ids receipt = [1]"
    using rc c by (simp add: release_run cs gate rs pl del: plan_release.simps)
      (simp add: plan_def andThen_def ret_def)
  then obtain receipt t where r: "?run = (Inr receipt, t)" "lpr_completed_deletion_record_ids receipt = [1]" by blast
  note w = legacy_release_exact [OF smp_releasing_wf, where svc = smp_service and en = smp_env and p = smp_admin and ns = "''ns''"
      and reference = "''destroyed''" and bound = None and reason = "''r''", of True,
      unfolded r(1) prod.case sum.case Let_def r(2) not_True_eq_False if_False]
  have "(1::uuid) \<in> set [1]" by simp
  with w have "(\<exists>q. get_record 1 t = Some q \<and> mr_state q = DELETED) \<and> get_projection_link 1 ''zep'' t = None" by blast
  with r show ?thesis by auto
qed

end
