(* ===== verification/SchemaRegistry.thy ===== *)
theory SchemaRegistry
  imports Admission
begin

text \<open>
  The schema migration graph of persisted records, \<open>schema/registry.py\<close>: registration of
  upcasters, version detection, the breadth-first search for a migration path and the upcast
  along it. The search is proved to return a shortest path exactly when the target version
  is reachable. A raw record is the dictionary a JSON object decodes to.
\<close>

type_synonym raw_record = "(string, json) dict"
type_synonym upcaster = "raw_record \<Rightarrow> error + raw_record"

record schema_registry =
  sg_current_version :: string
  sg_upcasters :: "(string \<times> string, upcaster) dict"
  sg_edges :: "(string, string list) dict"

definition empty_registry :: "string \<Rightarrow> schema_registry" where
  "empty_registry current = \<lparr>sg_current_version = current, sg_upcasters = [], sg_edges = []\<rparr>"

definition register :: "string \<Rightarrow> string \<Rightarrow> upcaster \<Rightarrow> schema_registry \<Rightarrow> error + schema_registry" where
  "register from_version to_version f reg =
     (if dict_has (sg_upcasters reg) (from_version, to_version)
      then Inl (ValueError ''duplicate upcaster'')
      else Inr (reg\<lparr>sg_upcasters := dict_set (from_version, to_version) f (sg_upcasters reg),
                    sg_edges := dict_set from_version
                      ((case dict_get (sg_edges reg) from_version of Some vs \<Rightarrow> vs | None \<Rightarrow> []) @ [to_version])
                      (sg_edges reg)\<rparr>))"

definition detect_version :: "raw_record \<Rightarrow> string" where
  "detect_version raw =
     (case dict_get raw ''schema_version'' of
        Some (JStr (c # v)) \<Rightarrow> c # v
      | _ \<Rightarrow>
          (case dict_get raw ''metadata'' of
             Some (JObj m) \<Rightarrow>
               (case dict_get m ''schema_version'' of
                  Some (JStr v) \<Rightarrow> v
                | _ \<Rightarrow> if dict_has raw ''episode_body'' then ''0.2.0-episode'' else ''1.0.0'')
           | _ \<Rightarrow> if dict_has raw ''episode_body'' then ''0.2.0-episode'' else ''1.0.0''))"

section \<open>The search\<close>

text \<open>
  The loop of \<open>migration_path\<close>. \<open>expand\<close> is the inner loop over the successors of the version
  just dequeued: it stops with the path when it meets the target, and otherwise marks and
  enqueues each successor not yet visited.
\<close>

definition next_versions :: "(string, string list) dict \<Rightarrow> string \<Rightarrow> string list" where
  "next_versions edges v = (case dict_get edges v of Some vs \<Rightarrow> vs | None \<Rightarrow> [])"

fun expand ::
  "string \<Rightarrow> string list \<Rightarrow> string list \<Rightarrow> string list \<Rightarrow> (string \<times> string list) list
     \<Rightarrow> string list + (string list \<times> (string \<times> string list) list)" where
  "expand target path [] visited queue = Inr (visited, queue)"
| "expand target path (v # vs) visited queue =
     (if v = target then Inl (path @ [v])
      else if v \<notin> set visited then expand target path vs (visited @ [v]) (queue @ [(v, path @ [v])])
      else expand target path vs visited queue)"

definition all_versions :: "(string, string list) dict \<Rightarrow> string set" where
  "all_versions edges = \<Union> (set ` set (dict_values edges))"

lemma finite_all_versions [simp]: "finite (all_versions edges)"
  by (simp add: all_versions_def)

lemma next_versions_all: "set (next_versions edges v) \<subseteq> all_versions edges"
  by (cases "dict_get edges v") (force simp: next_versions_def all_versions_def dest: map_of_SomeD)+

text \<open>Every version the inner loop enqueues was unvisited and is visited afterwards.\<close>

lemma expand_Inr:
  "expand target path vs visited queue = Inr (visited', queue') \<Longrightarrow>
     target \<notin> set vs \<and>
     (\<exists>new. visited' = visited @ new \<and> queue' = queue @ map (\<lambda>v. (v, path @ [v])) new
        \<and> distinct new \<and> set new = set vs - set visited)"
proof (induction vs arbitrary: visited queue)
  case Nil
  then show ?case by simp
next
  case (Cons v vs)
  show ?case
  proof (cases "v \<in> set visited")
    case True
    with Cons.prems Cons.IH [of visited queue] show ?thesis by (auto split: if_splits)
  next
    case False
    with Cons.prems have ne: "v \<noteq> target"
      and r: "expand target path vs (visited @ [v]) (queue @ [(v, path @ [v])]) = Inr (visited', queue')"
      by (auto split: if_splits)
    from Cons.IH [OF r] obtain new where
      n: "visited' = (visited @ [v]) @ new" "queue' = (queue @ [(v, path @ [v])]) @ map (\<lambda>v. (v, path @ [v])) new"
        "distinct new" "set new = set vs - set (visited @ [v])" "target \<notin> set vs"
      by blast
    with False ne show ?thesis by (intro conjI exI [of _ "v # new"]) auto
  qed
qed

lemma expand_Inl: "expand target path vs visited queue = Inl p \<Longrightarrow> p = path @ [target] \<and> target \<in> set vs"
  by (induction vs arbitrary: visited queue) (auto split: if_splits)

lemma expand_measure:
  assumes "expand target path vs visited queue = Inr (visited', queue')" and "set vs \<subseteq> A" and "finite A"
  shows "card (A - set visited') + length queue' = card (A - set visited) + length queue"
proof -
  from expand_Inr [OF assms(1)] obtain new where
    n: "visited' = visited @ new" "queue' = queue @ map (\<lambda>v. (v, path @ [v])) new" "distinct new"
      "set new = set vs - set visited" by blast
  have "A - set visited = (A - set visited') \<union> set new" and "(A - set visited') \<inter> set new = {}"
    using n assms(2) by auto
  then have "card (A - set visited) = card (A - set visited') + card (set new)"
    using assms(3) by (metis card_Un_disjoint finite_Diff List.finite_set)
  with n distinct_card [OF n(3)] show ?thesis by simp
qed

function search_path ::
  "(string, string list) dict \<Rightarrow> string \<Rightarrow> (string \<times> string list) list \<Rightarrow> string list \<Rightarrow> error + string list" where
  "search_path edges target [] visited = Inl (UnsupportedSchemaVersion ''no migration path'')"
| "search_path edges target ((v, path) # queue) visited =
     (case expand target path (next_versions edges v) visited queue of
        Inl found \<Rightarrow> Inr found
      | Inr (visited', queue') \<Rightarrow> search_path edges target queue' visited')"
  by pat_completeness auto

termination
proof (relation "measure (\<lambda>(edges, target, queue, visited). card (all_versions edges - set visited) + length queue)")
  fix edges target v path queue visited x and visited' :: "string list" and queue'
  assume "expand target path (next_versions edges v) visited queue = Inr x" and "(visited', queue') = x"
  then have "card (all_versions edges - set visited') + length queue' = card (all_versions edges - set visited) + length queue"
    using expand_measure next_versions_all finite_all_versions by metis
  then show "((edges, target, queue', visited'), (edges, target, (v, path) # queue, visited))
      \<in> measure (\<lambda>(edges, target, queue, visited). card (all_versions edges - set visited) + length queue)"
    by simp
qed simp

text \<open>\<open>to_version or self.current_version\<close>.\<close>

definition target_of :: "schema_registry \<Rightarrow> string option \<Rightarrow> string" where
  "target_of reg to_version = (case to_version of Some (c # v) \<Rightarrow> c # v | _ \<Rightarrow> sg_current_version reg)"

definition migration_path :: "schema_registry \<Rightarrow> string \<Rightarrow> string option \<Rightarrow> error + string list" where
  "migration_path reg from_version to_version =
     (let target = target_of reg to_version in
      if from_version = target then Inr [from_version]
      else search_path (sg_edges reg) target [(from_version, [from_version])] [from_version])"

text \<open>\<open>for a, b in pairwise(path): result = self._upcasters[(a, b)](result)\<close>.\<close>

fun upcast_along :: "schema_registry \<Rightarrow> string list \<Rightarrow> raw_record \<Rightarrow> error + raw_record" where
  "upcast_along reg (a # b # path) raw =
     (case dict_get (sg_upcasters reg) (a, b) of
        None \<Rightarrow> Inl (KeyError ''upcaster'')
      | Some f \<Rightarrow> (case f raw of Inl e \<Rightarrow> Inl e | Inr raw' \<Rightarrow> upcast_along reg (b # path) raw'))"
| "upcast_along reg _ raw = Inr raw"

definition upcast :: "schema_registry \<Rightarrow> raw_record \<Rightarrow> string option \<Rightarrow> error + raw_record" where
  "upcast reg raw target_version =
     (let source = detect_version raw;
          target = target_of reg target_version in
      if source = target then Inr raw
      else (case migration_path reg source (Some target) of
              Inl e \<Rightarrow> Inl e
            | Inr path \<Rightarrow> upcast_along reg path raw))"

section \<open>The search is correct\<close>

text \<open>The reference notion: walks along the registered edges, and the shortest of them.\<close>

fun is_walk :: "(string, string list) dict \<Rightarrow> string list \<Rightarrow> bool" where
  "is_walk edges [] = False"
| "is_walk edges [v] = True"
| "is_walk edges (a # b # p) = (b \<in> set (next_versions edges a) \<and> is_walk edges (b # p))"

definition connects :: "(string, string list) dict \<Rightarrow> string \<Rightarrow> string \<Rightarrow> string list \<Rightarrow> bool" where
  "connects edges a b p \<longleftrightarrow> is_walk edges p \<and> hd p = a \<and> last p = b"

definition shortest :: "(string, string list) dict \<Rightarrow> string \<Rightarrow> string \<Rightarrow> string list \<Rightarrow> bool" where
  "shortest edges a b p \<longleftrightarrow> connects edges a b p \<and> (\<forall>q. connects edges a b q \<longrightarrow> length p \<le> length q)"

lemma is_walk_snoc: "p \<noteq> [] \<Longrightarrow> is_walk edges (p @ [v]) \<longleftrightarrow> is_walk edges p \<and> v \<in> set (next_versions edges (last p))"
  by (induction edges p rule: is_walk.induct) auto

lemma connects_nonempty: "connects edges a b p \<Longrightarrow> p \<noteq> []"
  by (auto simp: connects_def)

lemma connects_single [simp]: "connects edges a b [v] \<longleftrightarrow> v = a \<and> v = b"
  by (auto simp: connects_def)

lemma connects_snoc: "connects edges a u p \<Longrightarrow> v \<in> set (next_versions edges u) \<Longrightarrow> connects edges a v (p @ [v])"
  using connects_nonempty by (auto simp: connects_def is_walk_snoc)

lemma connects_split:
  assumes "connects edges a b q" and "q \<noteq> [a] \<or> a \<noteq> b"
  obtains u p where "q = p @ [b]" "connects edges a u p" "b \<in> set (next_versions edges u)"
proof -
  from assms(1) have q: "is_walk edges q" "hd q = a" "last q = b" "q \<noteq> []" by (auto simp: connects_def)
  then obtain p where p: "q = p @ [b]" by (metis append_butlast_last_id)
  with q assms(2) have "p \<noteq> []" by auto
  with p q have "connects edges a (last p) p" "b \<in> set (next_versions edges (last p))"
    by (auto simp: connects_def is_walk_snoc)
  with p that show thesis by blast
qed

text \<open>
  The invariant of the loop: every queued path is a shortest one to its version, the queued
  lengths grow by at most one, everything as near as the head of the queue is visited, and a
  visited version that is no longer queued has only visited successors.
\<close>

definition settled :: "(string, string list) dict \<Rightarrow> string \<Rightarrow> string \<Rightarrow> (string \<times> string list) list \<Rightarrow> string list \<Rightarrow> bool" where
  "settled edges start target queue visited \<longleftrightarrow>
     start \<in> set visited \<and> target \<notin> set visited
   \<and> (\<forall>(v, p) \<in> set queue. v \<in> set visited \<and> shortest edges start v p)
   \<and> (\<forall>v \<in> set visited. v \<notin> fst ` set queue \<longrightarrow> set (next_versions edges v) \<subseteq> set visited)"

definition layered :: "(string, string list) dict \<Rightarrow> string \<Rightarrow> (string \<times> string list) list \<Rightarrow> string list \<Rightarrow> bool" where
  "layered edges start queue visited \<longleftrightarrow>
     sorted (map (length \<circ> snd) queue)
   \<and> (\<forall>x \<in> set queue. length (snd x) \<le> Suc (length (snd (hd queue))))
   \<and> (\<forall>w q. queue \<noteq> [] \<longrightarrow> connects edges start w q \<longrightarrow> length q \<le> length (snd (hd queue)) \<longrightarrow> w \<in> set visited)"

lemma found_shortest:
  assumes "settled edges start target ((v, p) # queue) visited" and "layered edges start ((v, p) # queue) visited"
    and "target \<in> set (next_versions edges v)"
  shows "shortest edges start target (p @ [target])"
proof -
  have "connects edges start target (p @ [target])"
    using assms(1,3) by (auto simp: settled_def shortest_def intro: connects_snoc)
  moreover have "length (p @ [target]) \<le> length q" if "connects edges start target q" for q
  proof (rule ccontr)
    assume "\<not> length (p @ [target]) \<le> length q"
    then have "length q \<le> length p" by simp
    with assms(2) that have "target \<in> set visited" by (auto simp: layered_def)
    with assms(1) show False by (simp add: settled_def)
  qed
  ultimately show ?thesis by (simp add: shortest_def)
qed

lemma step_settled:
  assumes s: "settled edges start target ((v, p) # queue) visited" and l: "layered edges start ((v, p) # queue) visited"
    and "expand target p (next_versions edges v) visited queue = Inr (visited', queue')"
  shows "settled edges start target queue' visited'"
proof -
  from expand_Inr [OF assms(3)] obtain new where
    n: "visited' = visited @ new" "queue' = queue @ map (\<lambda>w. (w, p @ [w])) new" "target \<notin> set (next_versions edges v)"
      "set new = set (next_versions edges v) - set visited" by blast
  have new: "shortest edges start w (p @ [w])" if "w \<in> set new" for w
  proof -
    have "connects edges start w (p @ [w])"
      using s that n(4) by (auto simp: settled_def shortest_def intro: connects_snoc)
    moreover have "length (p @ [w]) \<le> length q" if q: "connects edges start w q" for q
      using l q \<open>w \<in> set new\<close> n(4) by (force simp: layered_def not_less_eq_eq [symmetric])
    ultimately show ?thesis by (simp add: shortest_def)
  qed
  have "set (next_versions edges w) \<subseteq> set visited'" if "w \<in> set visited'" "w \<notin> fst ` set queue'" for w
  proof (cases "w = v")
    case True
    with n(1,4) show ?thesis by auto
  next
    case False
    with that n have "w \<in> set visited" "w \<notin> fst ` set ((v, p) # queue)" by (auto simp: image_Un image_image)
    with s n(1) show ?thesis by (auto simp: settled_def)
  qed
  with s n new show ?thesis by (auto simp: settled_def)
qed

lemma step_layered:
  assumes s: "settled edges start target ((v, p) # queue) visited" and l: "layered edges start ((v, p) # queue) visited"
    and "expand target p (next_versions edges v) visited queue = Inr (visited', queue')"
  shows "layered edges start queue' visited'"
proof -
  from expand_Inr [OF assms(3)] obtain new where
    n: "visited' = visited @ new" "queue' = queue @ map (\<lambda>w. (w, p @ [w])) new"
      "set new = set (next_versions edges v) - set visited" by blast
  let ?n = "length p"
  have low: "?n \<le> length (snd x)" if "x \<in> set queue" for x using l that by (simp add: layered_def)
  have high: "length (snd x) \<le> Suc ?n" if "x \<in> set queue" for x using l that by (simp add: layered_def)
  have all: "length (snd x) \<in> {?n, Suc ?n}" if "x \<in> set queue'" for x
    using that low high n(2) by (fastforce simp: le_Suc_eq)
  have "sorted (map (length \<circ> snd) queue')"
    using l high by (auto simp: n(2) layered_def sorted_append o_def map_replicate_const)
  moreover have "length (snd x) \<le> Suc (length (snd (hd queue')))" if "x \<in> set queue'" for x
    using all [OF that] all [of "hd queue'"] that by (cases queue') auto
  moreover have "w \<in> set visited'" if ne: "queue' \<noteq> []" and c: "connects edges start w q"
    and len: "length q \<le> length (snd (hd queue'))" for w q
  proof (cases "length q \<le> ?n")
    case True
    with l c n(1) show ?thesis by (auto simp: layered_def)
  next
    case False
    have hd: "hd queue' \<in> set queue'" using ne by simp
    have k: "length (snd (hd queue')) = Suc ?n" "length q = Suc ?n" using all [OF hd] False len by auto
    have "p \<noteq> []" using s connects_nonempty by (auto simp: settled_def shortest_def)
    with k(2) have "q \<noteq> [start]" by auto
    then obtain u q' where u: "q = q' @ [w]" "connects edges start u q'" "w \<in> set (next_versions edges u)"
      using connects_split [OF c] by blast
    with k have "length q' \<le> ?n" by simp
    with l u(2) have uv: "u \<in> set visited" by (auto simp: layered_def)
    have "u \<notin> fst ` set queue"
    proof
      assume "u \<in> fst ` set queue"
      then obtain r where r: "(u, r) \<in> set queue" by auto
      with s have "shortest edges start u r" by (auto simp: settled_def)
      with u(2) \<open>length q' \<le> ?n\<close> have "length r \<le> ?n" by (auto simp: shortest_def)
      moreover have "length r \<ge> length (snd (hd queue'))"
        using l r n(2) by (cases queue) (auto simp: layered_def)
      ultimately show False using k(1) by simp
    qed
    with uv s u(3) n show ?thesis by (cases "u = v") (auto simp: settled_def)
  qed
  ultimately show ?thesis by (simp add: layered_def)
qed

lemma search_path_correct:
  "settled edges start target queue visited \<Longrightarrow> layered edges start queue visited \<Longrightarrow>
     (case search_path edges target queue visited of
        Inl _ \<Rightarrow> \<not> (\<exists>p. connects edges start target p)
      | Inr p \<Rightarrow> shortest edges start target p)"
proof (induction edges target queue visited rule: search_path.induct)
  case (1 edges target visited)
  have "w \<in> set visited" if "connects edges start w q" for w q
    using that
  proof (induction q arbitrary: w rule: rev_induct)
    case Nil
    then show ?case by (simp add: connects_def)
  next
    case (snoc x q)
    show ?case
    proof (cases "q = []")
      case True
      with snoc.prems 1 show ?thesis by (auto simp: settled_def connects_def)
    next
      case False
      with snoc.prems have "connects edges start (last q) q" "w \<in> set (next_versions edges (last q))"
        by (auto simp: connects_def is_walk_snoc)
      with snoc.IH 1 show ?thesis by (auto simp: settled_def)
    qed
  qed
  with 1 show ?case by (auto simp: settled_def)
next
  case (2 edges target v path queue visited)
  show ?case
  proof (cases "expand target path (next_versions edges v) visited queue")
    case (Inl found)
    with expand_Inl [OF Inl] found_shortest [OF 2(2,3)] show ?thesis by auto
  next
    case (Inr x)
    obtain visited' queue' where x: "x = (visited', queue')" by fastforce
    with Inr 2(1) [OF Inr x [symmetric]] step_settled [OF 2(2,3)] step_layered [OF 2(2,3)]
    show ?thesis by auto
  qed
qed

lemma search_path_error:
  "search_path edges target queue visited = Inl e \<Longrightarrow> e = UnsupportedSchemaVersion ''no migration path''"
  by (induction edges target queue visited rule: search_path.induct) (auto split: sum.splits prod.splits)

lemma migration_path_error: "migration_path reg a to_version = Inl e \<Longrightarrow> e = UnsupportedSchemaVersion ''no migration path''"
  by (auto simp: migration_path_def Let_def simp del: search_path.simps dest: search_path_error split: if_splits)

lemma migration_path_correct:
  "case migration_path reg a to_version of
     Inl e \<Rightarrow> \<not> (\<exists>p. connects (sg_edges reg) a (target_of reg to_version) p)
   | Inr p \<Rightarrow> shortest (sg_edges reg) a (target_of reg to_version) p"
proof (cases "a = target_of reg to_version")
  case True
  then show ?thesis
    by (auto simp: migration_path_def shortest_def Suc_le_eq dest: connects_nonempty)
next
  case False
  have s: "settled (sg_edges reg) a (target_of reg to_version) [(a, [a])] [a]"
    using False by (auto simp: settled_def shortest_def Suc_le_eq dest: connects_nonempty)
  have l: "layered (sg_edges reg) a [(a, [a])] [a]"
    by (auto simp: layered_def le_Suc_eq length_Suc_conv dest: connects_nonempty)
  show ?thesis
    using search_path_correct [OF s l] False
    by (auto simp: migration_path_def Let_def split: sum.splits)
qed

lemma migration_path_walk: "migration_path reg a to_version = Inr p \<Longrightarrow> is_walk (sg_edges reg) p"
  using migration_path_correct [of reg a to_version] by (simp add: shortest_def connects_def)

text \<open>
  Property C30: the migration path is a shortest one and is found exactly when there is one.
  \<open>migration_path\<close> always returns; with a path that starts at the detected version, follows
  registered edges, ends at the requested version (the current one when none is requested)
  and is no longer than any other such path, or with \<open>UnsupportedSchemaVersion\<close>, and then no
  sequence of registered upcasters leads there.
\<close>

theorem migration_path_shortest:
  "case migration_path reg a to_version of
     Inl e \<Rightarrow> e = UnsupportedSchemaVersion ''no migration path''
       \<and> \<not> (\<exists>p. connects (sg_edges reg) a (target_of reg to_version) p)
   | Inr p \<Rightarrow> shortest (sg_edges reg) a (target_of reg to_version) p"
  using migration_path_correct [of reg a to_version] migration_path_error by (auto split: sum.splits)

section \<open>The registry and the upcast\<close>

text \<open>Every registered edge has its upcaster, and registering keeps it so.\<close>

definition registry_ok :: "schema_registry \<Rightarrow> bool" where
  "registry_ok reg \<longleftrightarrow>
     (\<forall>a b. b \<in> set (next_versions (sg_edges reg) a) \<longleftrightarrow> dict_has (sg_upcasters reg) (a, b))"

lemma empty_registry_ok [simp]: "registry_ok (empty_registry current)"
  by (simp add: registry_ok_def empty_registry_def next_versions_def)

lemma register_ok:
  assumes "registry_ok reg" and "register a b f reg = Inr reg'"
  shows "registry_ok reg'"
proof -
  have r: "next_versions (sg_edges reg') x = next_versions (sg_edges reg) x @ (if x = a then [b] else [])"
    "dict_has (sg_upcasters reg') k \<longleftrightarrow> k = (a, b) \<or> dict_has (sg_upcasters reg) k" for x k
    using assms(2) by (auto simp: register_def next_versions_def split: if_splits option.splits)
  with assms(1) show ?thesis by (auto simp: registry_ok_def)
qed

lemma upcast_along_key:
  "registry_ok reg \<Longrightarrow> is_walk (sg_edges reg) p \<Longrightarrow> upcast_along reg p raw = Inl e \<Longrightarrow>
     \<exists>a b f r. dict_get (sg_upcasters reg) (a, b) = Some f \<and> f r = Inl e"
  by (induction reg p raw rule: upcast_along.induct)
    (auto simp: registry_ok_def dict_has_def split: option.splits sum.splits)

text \<open>
  An upcast either ends in a record made by the last upcaster of the path, or fails because
  there is no path or because one of the registered upcasters refused the record.
\<close>

lemma upcast_error:
  assumes "registry_ok reg" and "upcast reg raw to_version = Inl e"
  shows "e = UnsupportedSchemaVersion ''no migration path''
    \<or> (\<exists>a b f r. dict_get (sg_upcasters reg) (a, b) = Some f \<and> f r = Inl e)"
proof (cases "migration_path reg (detect_version raw) (Some (target_of reg to_version))")
  case (Inl e')
  with migration_path_error [OF this] assms(2) show ?thesis by (auto simp: upcast_def Let_def split: if_splits)
next
  case (Inr p)
  then have "is_walk (sg_edges reg) p" using migration_path_walk by blast
  with Inr assms upcast_along_key show ?thesis by (auto simp: upcast_def Let_def split: if_splits)
qed

end
