(* ===== verification/Upcasters.thy ===== *)
theory Upcasters
  imports SchemaRegistry
begin

text \<open>
  The built-in migrations of \<open>schema/upcasters.py\<close> and the registry they form. What a
  migration reads from outside is the record \<open>upcast_env\<close>: the normalization of a content,
  Python's \<open>str\<close> of a value that is not a string, \<open>float\<close> of a string, the successive
  readings of \<open>_now_iso()\<close> and the identifiers drawn.
\<close>

record upcast_env =
  uc_normalize :: "string \<Rightarrow> normalization_result"
  uc_str :: "json \<Rightarrow> string"
  uc_float :: "string \<Rightarrow> real option"
  uc_now_iso :: "nat \<Rightarrow> string"
  uc_uuid4 :: "nat \<Rightarrow> string"

section \<open>Python values\<close>

definition got :: "raw_record \<Rightarrow> string \<Rightarrow> json" where
  "got raw k = (case dict_get raw k of Some v \<Rightarrow> v | None \<Rightarrow> JNull)"

definition py_or :: "json \<Rightarrow> json \<Rightarrow> json" where
  "py_or a b = (if truthy a then a else b)"

definition py_str :: "upcast_env \<Rightarrow> json \<Rightarrow> string" where
  "py_str en v = (case v of JStr s \<Rightarrow> s | _ \<Rightarrow> uc_str en v)"

definition setdefault :: "string \<Rightarrow> json \<Rightarrow> raw_record \<Rightarrow> raw_record" where
  "setdefault k v raw = (if dict_has raw k then raw else dict_set k v raw)"

definition py_float :: "upcast_env \<Rightarrow> json \<Rightarrow> error + real" where
  "py_float en v =
     (case v of
        JReal r \<Rightarrow> Inr r
      | JInt i \<Rightarrow> float_of_int i
      | JBool b \<Rightarrow> Inr (if b then 1 else 0)
      | JStr s \<Rightarrow> (case uc_float en s of Some r \<Rightarrow> Inr r | None \<Rightarrow> Inl (ValueError ''could not convert string to float''))
      | _ \<Rightarrow> Inl (TypeError ''float() argument must be a string or a real number''))"

definition py_len :: "json \<Rightarrow> error + nat" where
  "py_len v =
     (case v of
        JList xs \<Rightarrow> Inr (length xs)
      | JObj m \<Rightarrow> Inr (length m)
      | JStr s \<Rightarrow> Inr (length s)
      | _ \<Rightarrow> Inl (TypeError ''object has no len()''))"

text \<open>
  \<open>dict(v)\<close>: a copy of an object; of a list, the dictionary of its pairs. A pair whose key is
  not a string is refused here, which no dictionary of a record has.
\<close>

fun py_pairs :: "json list \<Rightarrow> raw_record \<Rightarrow> error + raw_record" where
  "py_pairs [] d = Inr d"
| "py_pairs (JList [JStr k, v] # xs) d = py_pairs xs (dict_set k v d)"
| "py_pairs (JStr [a, b] # xs) d = py_pairs xs (dict_set [a] (JStr [b]) d)"
| "py_pairs (_ # xs) d = Inl (TypeError ''cannot convert dictionary update sequence element to a sequence'')"

definition py_dict :: "json \<Rightarrow> error + raw_record" where
  "py_dict v =
     (case v of
        JObj m \<Rightarrow> Inr m
      | JList xs \<Rightarrow> py_pairs xs []
      | JStr [] \<Rightarrow> Inr []
      | JStr _ \<Rightarrow> Inl (ValueError ''dictionary update sequence element has length 1; 2 is required'')
      | _ \<Rightarrow> Inl (TypeError ''object is not iterable''))"

section \<open>The upcasters\<close>

definition episode_content :: "upcast_env \<Rightarrow> raw_record \<Rightarrow> string" where
  "episode_content en raw =
     py_str en (py_or (py_or (py_or (got raw ''episode_body'') (got raw ''body'')) (got raw ''content'')) (JStr []))"

definition episode_to_v2 :: "upcast_env \<Rightarrow> upcaster" where
  "episode_to_v2 en raw =
     (let normalization = uc_normalize en (episode_content en raw);
          reference_time = py_or (py_or (got raw ''reference_time'') (got raw ''timestamp'')) (JStr (uc_now_iso en 0));
          source = py_str en (py_or (got raw ''source'') (JStr ''legacy-episode''));
          source_description = py_str en (py_or (got raw ''source_description'') (JStr ''legacy episode migration''));
          group_id = py_str en (py_or (got raw ''group_id'') (JStr ''legacy''));
          name = py_str en (py_or (got raw ''name'') (JStr (''legacy-'' @ uc_uuid4 en 0)))
      in Inr
       [(''record_id'', JStr (py_str en (py_or (got raw ''record_id'') (JStr (uc_uuid4 en 1))))),
        (''schema_version'', JStr MEMORY_SCHEMA_VERSION),
        (''tenant_id'', JStr (py_str en (py_or (got raw ''tenant_id'') (JStr ''legacy'')))),
        (''namespace'', JStr group_id),
        (''memory_class'', JStr (py_str en (py_or (got raw ''kind'') (JStr ''observation'')))),
        (''content'', JStr (nr_redacted_content normalization)),
        (''assertion'', JNull),
        (''temporal'', JObj
           [(''valid_from'', reference_time),
            (''valid_to'', JNull),
            (''recorded_at'', py_or (got raw ''created_at'') (JStr (uc_now_iso en 1))),
            (''source_observed_at'', reference_time),
            (''superseded_at'', JNull)]),
        (''provenance'', JObj
           [(''source'', JStr source),
            (''source_id'', JStr name),
            (''source_digest'', JStr (nr_original_digest normalization)),
            (''source_range'', JNull),
            (''source_agent_id'', JNull),
            (''session_id'', JNull),
            (''repository'', JNull),
            (''tool'', JStr ''legacy-migration''),
            (''model'', JNull),
            (''extraction_method'', JStr source_description),
            (''source_trust'', JReal 1),
            (''transformed_at'', JStr (uc_now_iso en 2))]),
        (''evidence'', JList []),
        (''confidence'', JObj
           [(''score'', JReal 1),
            (''method'', JStr ''explicit''),
            (''evidence_count'', JInt 0),
            (''policy_version'', JStr ''legacy-migration/v1''),
            (''calibrated_at'', JStr (uc_now_iso en 3))]),
        (''state'', JStr ''active''),
        (''tags'', JList [JStr ''legacy'']),
        (''metadata'', JObj [(''legacy_payload'', JObj (filter (\<lambda>(k, v). k \<noteq> ''episode_body'') raw))]),
        (''normalized_digest'', JStr (nr_normalized_digest normalization)),
        (''original_digest'', JStr (nr_original_digest normalization)),
        (''idempotency_key'', JStr (''legacy:'' @ group_id @ '':'' @ nr_normalized_digest normalization)),
        (''supersedes'', JList []),
        (''references'', JList []),
        (''consent'', JNull),
        (''conflicts_with'', JList []),
        (''created_by'', JStr ''legacy-migration''),
        (''created_at'', py_or (got raw ''created_at'') (JStr (uc_now_iso en 4)))])"

text \<open>
  \<open>v1_to_v2\<close> works on one dictionary from top to bottom with two kinds of statement:
  \<open>raw.setdefault(key, default)\<close> and \<open>raw[key] = value\<close>. Each value reads the dictionary as the
  earlier statements left it.
\<close>

datatype statement =
    Default (stmt_key: string) "raw_record \<Rightarrow> json"
  | Assign (stmt_key: string) "raw_record \<Rightarrow> json"

fun exec :: "statement \<Rightarrow> raw_record \<Rightarrow> raw_record" where
  "exec (Default k d) raw = setdefault k (d raw) raw"
| "exec (Assign k d) raw = dict_set k (d raw) raw"

definition v1_temporal :: "upcast_env \<Rightarrow> raw_record \<Rightarrow> json" where
  "v1_temporal en raw = JObj
     [(''valid_from'', py_or (got raw ''valid_from'') (JStr (uc_now_iso en 0))),
      (''valid_to'', got raw ''valid_to''),
      (''recorded_at'', py_or (py_or (got raw ''recorded_at'') (got raw ''created_at'')) (JStr (uc_now_iso en 1))),
      (''source_observed_at'', got raw ''source_observed_at''),
      (''superseded_at'', got raw ''superseded_at'')]"

definition v1_provenance :: "upcast_env \<Rightarrow> normalization_result \<Rightarrow> raw_record \<Rightarrow> json" where
  "v1_provenance en normalization raw = JObj
     [(''source'', JStr (py_str en (py_or (got raw ''source'') (JStr ''legacy-v1'')))),
      (''source_id'', got raw ''source_id''),
      (''source_digest'', JStr (nr_original_digest normalization)),
      (''source_range'', JNull),
      (''source_agent_id'', got raw ''agent_id''),
      (''session_id'', got raw ''session_id''),
      (''repository'', got raw ''repository''),
      (''tool'', JStr ''legacy-migration''),
      (''model'', JNull),
      (''extraction_method'', JStr ''legacy-v1-upcast''),
      (''source_trust'', JReal 1),
      (''transformed_at'', JStr (uc_now_iso en 2))]"

definition v1_confidence :: "upcast_env \<Rightarrow> raw_record \<Rightarrow> error + json" where
  "v1_confidence en raw =
     (case py_float en (case dict_get raw ''confidence_score'' of Some v \<Rightarrow> v | None \<Rightarrow> JReal 1) of
        Inl e \<Rightarrow> Inl e
      | Inr score \<Rightarrow>
          (case py_len (py_or (got raw ''evidence'') (JList [])) of
             Inl e \<Rightarrow> Inl e
           | Inr n \<Rightarrow> Inr (JObj
               [(''score'', JReal score),
                (''method'', JStr ''explicit''),
                (''evidence_count'', JInt (int n)),
                (''policy_version'', JStr ''legacy-migration/v1''),
                (''calibrated_at'', JStr (uc_now_iso en 3))])))"

definition v1_head :: "upcast_env \<Rightarrow> normalization_result \<Rightarrow> statement list" where
  "v1_head en normalization =
     [Default ''record_id'' (\<lambda>raw. JStr (uc_uuid4 en 0)),
      Assign ''schema_version'' (\<lambda>raw. JStr MEMORY_SCHEMA_VERSION),
      Default ''tenant_id'' (\<lambda>raw. JStr ''legacy''),
      Default ''namespace'' (\<lambda>raw. JStr (py_str en (py_or (got raw ''group_id'') (JStr ''legacy'')))),
      Default ''memory_class'' (\<lambda>raw. JStr (py_str en (py_or (got raw ''kind'') (JStr ''observation'')))),
      Assign ''content'' (\<lambda>raw. JStr (nr_redacted_content normalization)),
      Default ''assertion'' (\<lambda>raw. JNull),
      Default ''temporal'' (v1_temporal en),
      Default ''provenance'' (v1_provenance en normalization),
      Default ''evidence'' (\<lambda>raw. JList [])]"

definition v1_tail :: "upcast_env \<Rightarrow> normalization_result \<Rightarrow> json \<Rightarrow> statement list" where
  "v1_tail en normalization confidence =
     [Default ''confidence'' (\<lambda>raw. confidence),
      Default ''state'' (\<lambda>raw. JStr ''active''),
      Default ''tags'' (\<lambda>raw. JList []),
      Default ''metadata'' (\<lambda>raw. JObj []),
      Assign ''normalized_digest'' (\<lambda>raw. JStr (nr_normalized_digest normalization)),
      Assign ''original_digest'' (\<lambda>raw. JStr (nr_original_digest normalization)),
      Default ''idempotency_key'' (\<lambda>raw. JStr (''legacy:'' @ py_str en (got raw ''namespace'') @ '':'' @ nr_normalized_digest normalization)),
      Default ''supersedes'' (\<lambda>raw. JList []),
      Default ''references'' (\<lambda>raw. JList []),
      Default ''consent'' (\<lambda>raw. JNull),
      Default ''conflicts_with'' (\<lambda>raw. JList []),
      Default ''created_by'' (\<lambda>raw. JStr ''legacy-migration''),
      Default ''created_at'' (\<lambda>raw. JStr (uc_now_iso en 4))]"

text \<open>
  The default of \<open>confidence\<close> is evaluated whether or not the key is there, so a malformed
  \<open>confidence_score\<close> or \<open>evidence\<close> is an error in any case.
\<close>

definition v1_content :: "upcast_env \<Rightarrow> raw_record \<Rightarrow> string" where
  "v1_content en raw = py_str en (py_or (py_or (got raw ''content'') (got raw ''body'')) (JStr []))"

definition v1_to_v2 :: "upcast_env \<Rightarrow> upcaster" where
  "v1_to_v2 en raw =
     (let normalization = uc_normalize en (v1_content en raw);
          raw1 = fold exec (v1_head en normalization) raw
      in case v1_confidence en raw1 of
           Inl e \<Rightarrow> Inl e
         | Inr confidence \<Rightarrow> Inr (fold exec (v1_tail en normalization confidence) raw1))"

definition v2_0_to_v2_1 :: upcaster where
  "v2_0_to_v2_1 raw =
     (let raw1 = dict_set ''schema_version'' (JStr ''2.1.0'') raw in
      case py_dict (py_or (got raw1 ''provenance'') (JObj [])) of
        Inl e \<Rightarrow> Inl e
      | Inr provenance \<Rightarrow>
          let raw2 = setdefault ''consent'' JNull (setdefault ''references'' (JList [])
                (dict_set ''provenance'' (JObj (setdefault ''source_trust'' (JReal 1) provenance)) raw1)) in
          (case py_dict (py_or (got raw2 ''metadata'') (JObj [])) of
             Inl e \<Rightarrow> Inl e
           | Inr metadata \<Rightarrow>
               Inr (dict_set ''metadata'' (JObj (setdefault ''upcasted_from'' (JStr ''2.0.0'') metadata)) raw2)))"

definition v2_1_to_v2_2 :: upcaster where
  "v2_1_to_v2_2 raw = Inr (dict_set ''schema_version'' (JStr MEMORY_SCHEMA_VERSION) raw)"

text \<open>The decorators of the module register these four on the one registry.\<close>

fun register_all :: "((string \<times> string) \<times> upcaster) list \<Rightarrow> schema_registry \<Rightarrow> error + schema_registry" where
  "register_all [] reg = Inr reg"
| "register_all (((a, b), f) # rest) reg =
     (case register a b f reg of Inl e \<Rightarrow> Inl e | Inr reg' \<Rightarrow> register_all rest reg')"

definition builtin_upcasters :: "upcast_env \<Rightarrow> ((string \<times> string) \<times> upcaster) list" where
  "builtin_upcasters en =
     [((''0.2.0-episode'', MEMORY_SCHEMA_VERSION), episode_to_v2 en),
      ((''1.0.0'', MEMORY_SCHEMA_VERSION), v1_to_v2 en),
      ((''2.0.0'', ''2.1.0''), v2_0_to_v2_1),
      ((''2.1.0'', MEMORY_SCHEMA_VERSION), v2_1_to_v2_2)]"

definition upcast_builtin :: "upcast_env \<Rightarrow> raw_record \<Rightarrow> error + raw_record" where
  "upcast_builtin en raw =
     (case register_all (builtin_upcasters en) (empty_registry MEMORY_SCHEMA_VERSION) of
        Inl e \<Rightarrow> Inl e
      | Inr schema_registry \<Rightarrow> upcast schema_registry raw None)"

section \<open>What the built-in registry does\<close>

definition builtin_registry :: "upcast_env \<Rightarrow> schema_registry" where
  "builtin_registry en =
     \<lparr>sg_current_version = ''2.2.0'', sg_upcasters = builtin_upcasters en,
      sg_edges = [(''0.2.0-episode'', [''2.2.0'']), (''1.0.0'', [''2.2.0'']), (''2.0.0'', [''2.1.0'']), (''2.1.0'', [''2.2.0''])]\<rparr>"

lemma register_builtin [simp]:
  "register_all (builtin_upcasters en) (empty_registry MEMORY_SCHEMA_VERSION) = Inr (builtin_registry en)"
  by (simp add: builtin_upcasters_def builtin_registry_def register_def empty_registry_def dict_has_def MEMORY_SCHEMA_VERSION_def)

lemma builtin_target [simp]: "target_of (builtin_registry en) None = ''2.2.0''" "target_of (builtin_registry en) (Some ''2.2.0'') = ''2.2.0''"
  by (simp_all add: target_of_def builtin_registry_def)

lemma builtin_paths:
  "migration_path (builtin_registry en) v (Some ''2.2.0'') =
     (if v = ''2.2.0'' then Inr [v]
      else if v \<in> {''0.2.0-episode'', ''1.0.0'', ''2.1.0''} then Inr [v, ''2.2.0'']
      else if v = ''2.0.0'' then Inr [v, ''2.1.0'', ''2.2.0'']
      else Inl (UnsupportedSchemaVersion ''no migration path''))"
  unfolding migration_path_def builtin_target Let_def
  by (simp add: builtin_registry_def next_versions_def)

lemma builtin_along:
  "upcast_along (builtin_registry en) [''0.2.0-episode'', ''2.2.0''] raw = episode_to_v2 en raw"
  "upcast_along (builtin_registry en) [''1.0.0'', ''2.2.0''] raw = v1_to_v2 en raw"
  "upcast_along (builtin_registry en) [''2.1.0'', ''2.2.0''] raw = v2_1_to_v2_2 raw"
  "upcast_along (builtin_registry en) [''2.0.0'', ''2.1.0'', ''2.2.0''] raw
     = (case v2_0_to_v2_1 raw of Inl e \<Rightarrow> Inl e | Inr raw' \<Rightarrow> v2_1_to_v2_2 raw')"
  by (simp_all add: builtin_registry_def builtin_upcasters_def MEMORY_SCHEMA_VERSION_def split: sum.split)

text \<open>Which chain of upcasters runs is decided by the detected version alone.\<close>

lemma upcast_builtin_eq:
  "upcast_builtin en raw =
     (if detect_version raw = ''2.2.0'' then Inr raw
      else if detect_version raw = ''0.2.0-episode'' then episode_to_v2 en raw
      else if detect_version raw = ''1.0.0'' then v1_to_v2 en raw
      else if detect_version raw = ''2.1.0'' then v2_1_to_v2_2 raw
      else if detect_version raw = ''2.0.0''
      then (case v2_0_to_v2_1 raw of Inl e \<Rightarrow> Inl e | Inr raw' \<Rightarrow> v2_1_to_v2_2 raw')
      else Inl (UnsupportedSchemaVersion ''no migration path''))"
proof -
  have "upcast_builtin en raw =
     (if detect_version raw = ''2.2.0'' then Inr raw
      else (case migration_path (builtin_registry en) (detect_version raw) (Some ''2.2.0'') of
              Inl e \<Rightarrow> Inl e | Inr path \<Rightarrow> upcast_along (builtin_registry en) path raw))"
    unfolding upcast_builtin_def register_builtin upcast_def builtin_target Let_def by simp
  then show ?thesis unfolding builtin_paths
    by (simp only: builtin_along sum.case insert_iff empty_iff split: if_split) (auto simp only: builtin_along)
qed

section \<open>What an upcast guarantees\<close>

lemma dict_get_setdefault [simp, dict_simps]:
  "dict_get (setdefault k v raw) j = (if j = k \<and> dict_get raw k = None then Some v else dict_get raw j)"
  by (auto simp: setdefault_def dict_has_def)

lemma dict_has_setdefault [simp, dict_simps]: "dict_has (setdefault k v raw) j \<longleftrightarrow> j = k \<or> dict_has raw j"
  by (auto simp: setdefault_def)

text \<open>\<open>r\<close> still has every entry of \<open>raw\<close> whose key is not in \<open>K\<close>.\<close>

definition keeps_entries :: "string set \<Rightarrow> raw_record \<Rightarrow> raw_record \<Rightarrow> bool" where
  "keeps_entries K raw r \<longleftrightarrow> (\<forall>j v. dict_get raw j = Some v \<longrightarrow> j \<notin> K \<longrightarrow> dict_get r j = Some v)"

lemma keeps_entries_refl [simp]: "keeps_entries K raw raw"
  by (simp add: keeps_entries_def)

lemma keeps_entries_setdefault [simp]: "keeps_entries K raw r \<Longrightarrow> keeps_entries K raw (setdefault k v r)"
  by (auto simp: keeps_entries_def)

lemma keeps_entries_set [simp]: "keeps_entries K raw r \<Longrightarrow> k \<in> K \<Longrightarrow> keeps_entries K raw (dict_set k v r)"
  by (auto simp: keeps_entries_def)

definition record_fields :: "string list" where
  "record_fields =
     [''record_id'', ''schema_version'', ''tenant_id'', ''namespace'', ''memory_class'', ''content'', ''assertion'',
      ''temporal'', ''provenance'', ''evidence'', ''confidence'', ''state'', ''tags'', ''metadata'',
      ''normalized_digest'', ''original_digest'', ''idempotency_key'', ''supersedes'', ''references'', ''consent'',
      ''conflicts_with'', ''created_by'', ''created_at'']"

fun assigns :: "statement \<Rightarrow> bool" where
  "assigns (Assign _ _) = True"
| "assigns (Default _ _) = False"

definition assigned :: "statement list \<Rightarrow> string list" where
  "assigned ss = map stmt_key (filter assigns ss)"

lemma has_exec [simp]: "dict_has (fold exec ss raw) k \<longleftrightarrow> dict_has raw k \<or> k \<in> stmt_key ` set ss"
proof (induction ss arbitrary: raw)
  case Nil
  then show ?case by simp
next
  case (Cons st ss)
  then show ?case by (cases st) auto
qed

lemma exec_keeps:
  "dict_get raw k = Some v \<Longrightarrow> k \<notin> set (assigned ss) \<Longrightarrow> dict_get (fold exec ss raw) k = Some v"
proof (induction ss arbitrary: raw)
  case Nil
  then show ?case by simp
next
  case (Cons st ss)
  from Cons.prems have "dict_get (exec st raw) k = Some v" by (cases st) (auto simp: assigned_def)
  moreover from Cons.prems(2) have "k \<notin> set (assigned ss)" by (auto simp: assigned_def)
  ultimately show ?case using Cons.IH by simp
qed

lemma exec_assigned:
  assumes "k \<notin> set (assigned ss)"
  shows "dict_get (fold exec (as @ Assign k d # ss) raw) k = Some (d (fold exec as raw))"
  using assms by (simp add: exec_keeps)

lemma v1_assigned:
  "set (assigned (v1_head en n)) = {''schema_version'', ''content''}"
  "set (assigned (v1_tail en n c)) = {''normalized_digest'', ''original_digest''}"
  by (simp_all add: v1_head_def v1_tail_def assigned_def)

lemma v1_fields: "set record_fields \<subseteq> stmt_key ` set (v1_head en n) \<union> stmt_key ` set (v1_tail en n c)"
  by (simp add: v1_head_def v1_tail_def record_fields_def)

text \<open>The text and the digests of a migrated record are those of its normalized content.\<close>

definition normalized_as :: "normalization_result \<Rightarrow> raw_record \<Rightarrow> bool" where
  "normalized_as n r \<longleftrightarrow>
     dict_get r ''content'' = Some (JStr (nr_redacted_content n))
   \<and> dict_get r ''normalized_digest'' = Some (JStr (nr_normalized_digest n))
   \<and> dict_get r ''original_digest'' = Some (JStr (nr_original_digest n))"

lemma v1_result:
  assumes "v1_to_v2 en raw = Inr r"
  shows "keeps_entries {''schema_version'', ''content'', ''normalized_digest'', ''original_digest''} raw r"
    and "\<forall>k \<in> set record_fields. dict_has r k"
    and "dict_get r ''schema_version'' = Some (JStr ''2.2.0'')"
    and "normalized_as (uc_normalize en (v1_content en raw)) r"
proof -
  let ?n = "uc_normalize en (v1_content en raw)"
  let ?raw1 = "fold exec (v1_head en ?n) raw"
  obtain c where r: "r = fold exec (v1_tail en ?n c) ?raw1"
    using assms by (auto simp: v1_to_v2_def Let_def split: sum.splits)
  show "keeps_entries {''schema_version'', ''content'', ''normalized_digest'', ''original_digest''} raw r"
    unfolding keeps_entries_def r by (auto intro!: exec_keeps simp: v1_assigned)
  show "\<forall>k \<in> set record_fields. dict_has r k"
    using v1_fields [of en ?n c] unfolding r has_exec by blast
  have head: "dict_get ?raw1 ''schema_version'' = Some (JStr ''2.2.0'')"
    "dict_get ?raw1 ''content'' = Some (JStr (nr_redacted_content ?n))"
    by (simp_all add: v1_head_def MEMORY_SCHEMA_VERSION_def)
  show "dict_get r ''schema_version'' = Some (JStr ''2.2.0'')"
    unfolding r by (rule exec_keeps [OF head(1)]) (simp add: v1_assigned)
  have "dict_get r ''content'' = Some (JStr (nr_redacted_content ?n))"
    unfolding r by (rule exec_keeps [OF head(2)]) (simp add: v1_assigned)
  moreover have "dict_get r ''normalized_digest'' = Some (JStr (nr_normalized_digest ?n))"
    "dict_get r ''original_digest'' = Some (JStr (nr_original_digest ?n))"
    unfolding r by (simp_all add: v1_tail_def)
  ultimately show "normalized_as ?n r" by (simp add: normalized_as_def)
qed

lemma v2_0_result:
  assumes "v2_0_to_v2_1 raw = Inr r"
  shows "keeps_entries {''schema_version'', ''provenance'', ''metadata''} raw r"
    and "dict_get r ''schema_version'' = Some (JStr ''2.1.0'')"
    and "\<exists>pv md. py_dict (py_or (got raw ''provenance'') (JObj [])) = Inr pv
      \<and> py_dict (py_or (got raw ''metadata'') (JObj [])) = Inr md
      \<and> dict_get r ''provenance'' = Some (JObj (setdefault ''source_trust'' (JReal 1) pv))
      \<and> dict_get r ''metadata'' = Some (JObj (setdefault ''upcasted_from'' (JStr ''2.0.0'') md))"
  using assms by (auto simp: v2_0_to_v2_1_def Let_def got_def split: sum.splits)

lemma episode_result:
  assumes "episode_to_v2 en raw = Inr r"
  shows "dict_keys r = record_fields" and "normalized_as (uc_normalize en (episode_content en raw)) r"
    and "dict_get r ''schema_version'' = Some (JStr ''2.2.0'')"
  using assms by (auto simp: episode_to_v2_def Let_def record_fields_def normalized_as_def MEMORY_SCHEMA_VERSION_def)

lemma v2_1_result:
  assumes "v2_1_to_v2_2 raw = Inr r"
  shows "keeps_entries {''schema_version''} raw r" and "dict_get r ''schema_version'' = Some (JStr ''2.2.0'')"
    and "k \<noteq> ''schema_version'' \<Longrightarrow> dict_get r k = dict_get raw k"
  using assms by (auto simp: v2_1_to_v2_2_def MEMORY_SCHEMA_VERSION_def)

lemma detect_stamped: "dict_get raw ''schema_version'' = Some (JStr ''2.2.0'') \<Longrightarrow> detect_version raw = ''2.2.0''"
  by (simp add: detect_version_def)

text \<open>
  Property C31: reading is stable under migration. Whatever its version, a raw record that the
  built-in registry migrates is afterwards detected as current, and migrating it again (at
  any later time) returns it as it is.
\<close>

theorem upcast_idempotent:
  assumes "upcast_builtin en raw = Inr r"
  shows "detect_version r = MEMORY_SCHEMA_VERSION \<and> upcast_builtin en' r = Inr r"
proof -
  have "detect_version r = ''2.2.0''"
  proof (cases "detect_version raw = ''2.2.0''")
    case True
    with assms show ?thesis by (simp add: upcast_builtin_eq)
  next
    case False
    with assms have "dict_get r ''schema_version'' = Some (JStr ''2.2.0'')"
      by (auto simp: upcast_builtin_eq split: if_splits sum.splits dest: episode_result(3) v1_result(3) v2_1_result(2))
    then show ?thesis by (rule detect_stamped)
  qed
  then show ?thesis by (simp add: upcast_builtin_eq MEMORY_SCHEMA_VERSION_def)
qed

theorem upcast_idempotent_witness:
  "detect_version (dict_set ''schema_version'' (JStr ''2.2.0'') [(''schema_version'', JStr ''2.1.0''), (''content'', JStr ''x'')])
     = MEMORY_SCHEMA_VERSION"
proof -
  let ?raw = "[(''schema_version'', JStr ''2.1.0''), (''content'', JStr ''x'')]"
  have "upcast_builtin undefined ?raw = Inr (dict_set ''schema_version'' (JStr ''2.2.0'') ?raw)"
    by (simp add: upcast_builtin_eq detect_version_def v2_1_to_v2_2_def MEMORY_SCHEMA_VERSION_def)
  from upcast_idempotent [OF this] show ?thesis by blast
qed

text \<open>
  Property C32: a migration loses nothing and completes the record. An episode and a version 1
  record become records with every field of the current model, whose content and digests are
  those of the normalized text; a version 1 record keeps every other entry it had; a 2.0 or
  2.1 record keeps every entry besides the version, and its provenance and metadata are only
  added to. A version without a migration is refused.
\<close>

theorem upcast_completes:
  "case upcast_builtin en raw of
     Inl e \<Rightarrow> detect_version raw \<noteq> ''2.2.0'' \<and> detect_version raw \<noteq> ''2.1.0'' \<and> detect_version raw \<noteq> ''0.2.0-episode''
   | Inr r \<Rightarrow>
       (if detect_version raw = ''0.2.0-episode''
        then dict_keys r = record_fields \<and> normalized_as (uc_normalize en (episode_content en raw)) r
        else if detect_version raw = ''1.0.0''
        then set record_fields \<subseteq> set (dict_keys r) \<and> normalized_as (uc_normalize en (v1_content en raw)) r
          \<and> keeps_entries {''schema_version'', ''content'', ''normalized_digest'', ''original_digest''} raw r
        else detect_version raw \<in> {''2.0.0'', ''2.1.0'', ''2.2.0''}
          \<and> keeps_entries {''schema_version'', ''provenance'', ''metadata''} raw r
          \<and> (\<forall>k m. k \<in> {''provenance'', ''metadata''} \<and> dict_get raw k = Some (JObj m) \<longrightarrow>
               (\<exists>m'. dict_get r k = Some (JObj m') \<and> keeps_entries {} m m')))"
proof (cases "upcast_builtin en raw")
  case (Inl e)
  then show ?thesis
    by (auto simp: upcast_builtin_eq episode_to_v2_def v2_1_to_v2_2_def Let_def split: if_splits)
next
  case (Inr r)
  have obj: "py_dict (py_or (JObj m) (JObj [])) = Inr m" for m by (simp add: py_or_def py_dict_def)
  consider "detect_version raw = ''2.2.0''" "r = raw" | "detect_version raw = ''0.2.0-episode''" "episode_to_v2 en raw = Inr r"
    | "detect_version raw = ''1.0.0''" "v1_to_v2 en raw = Inr r" | "detect_version raw = ''2.1.0''" "v2_1_to_v2_2 raw = Inr r"
    | raw' where "detect_version raw = ''2.0.0''" "v2_0_to_v2_1 raw = Inr raw'" "v2_1_to_v2_2 raw' = Inr r"
    using Inr by (auto simp: upcast_builtin_eq split: if_splits sum.splits)
  then show ?thesis
  proof cases
    case 1
    with Inr show ?thesis by simp
  next
    case 2
    with Inr episode_result [OF 2(2)] show ?thesis by simp
  next
    case 3
    with Inr v1_result [OF 3(2)] show ?thesis by (auto simp: dict_has_def dom_map_of_conv_image_fst [symmetric])
  next
    case 4
    with Inr v2_1_result [OF 4(2)] show ?thesis by (auto simp: keeps_entries_def)
  next
    case (5 raw')
    have "dict_get r k = dict_get raw' k" if "k \<noteq> ''schema_version''" for k using v2_1_result(3) [OF 5(3) that] .
    with Inr 5(1) v2_0_result [OF 5(2)] show ?thesis
      by (auto simp: keeps_entries_def got_def obj)
  qed
qed

definition smp_uc :: upcast_env where
  "smp_uc = \<lparr>uc_normalize = \<lambda>_. smp_normalized, uc_str = \<lambda>_. [], uc_float = \<lambda>_. None,
     uc_now_iso = \<lambda>_. ''2026-01-01T00:00:00+00:00'', uc_uuid4 = \<lambda>_. uuid_str 1\<rparr>"

theorem upcast_completes_witness:
  "\<exists>r. upcast_builtin smp_uc [(''episode_body'', JStr ''hello'')] = Inr r \<and> dict_keys r = record_fields"
proof -
  have v: "detect_version [(''episode_body'', JStr ''hello'')] = ''0.2.0-episode''"
    by (simp add: detect_version_def dict_has_def)
  show ?thesis
    using upcast_completes [where en = smp_uc and raw = "[(''episode_body'', JStr ''hello'')]"] v
    by (cases "upcast_builtin smp_uc [(''episode_body'', JStr ''hello'')]") simp_all
qed

end
