(* ===== verification/Ranking.thy ===== *)
theory Ranking
  imports Curation PatternMatch
begin

text \<open>
  Query classification (\<open>retrieval/query_classifier.py\<close>) and ranking
  (\<open>retrieval/ranking.py\<close>): a query is routed by fixed patterns, a record is scored by
  separate factors that are combined by fixed weights. Floats are real numbers; the one
  conversion that can fail, of an integer beyond the range of doubles, is kept.
\<close>

section \<open>Classification\<close>

record query_classification =
  qc_pattern :: query_pattern
  qc_reason :: string
  qc_strategies :: "string list"
  qc_policy_version :: string

fun pattern_value :: "query_pattern \<Rightarrow> string" where
  "pattern_value Q_ENTITY_LOOKUP = ''entity_lookup''"
| "pattern_value Q_REASONING_LINEAGE = ''reasoning_lineage''"
| "pattern_value Q_TEMPORAL = ''temporal''"
| "pattern_value Q_IDENTITY = ''identity''"
| "pattern_value Q_EXPLORATORY = ''exploratory''"
| "pattern_value Q_FACTUAL = ''factual''"
| "pattern_value Q_DEFAULT = ''default''"

text \<open>\<open>\b(w1|w2|...)\b\<close> under \<open>re.IGNORECASE\<close>.\<close>

definition whole_words :: "string list \<Rightarrow> regex" where
  "whole_words ws = seq [Edge, alt (map lit_ci ws), Edge]"

definition QUERY_PATTERNS :: "(query_pattern \<times> regex \<times> string list) list" where
  "QUERY_PATTERNS =
     [(Q_REASONING_LINEAGE,
       whole_words [''why'', ''reasoning'', ''lineage'', ''trace'', ''reconstruct'', ''ancestor'', ''supersed''],
       [''lexical-ranking'', ''graph-search'']),
      (Q_TEMPORAL,
       Or (whole_words [''recent'', ''latest'', ''before'', ''after'', ''since'', ''until'', ''when'', ''history'', ''last'', ''valid''])
          (seq [Edge, lit_ci ''as'', Many 1 None is_space, lit_ci ''of'', Edge]),
       [''temporal-filter'', ''lexical-ranking'', ''semantic-search'']),
      (Q_IDENTITY,
       whole_words [''identity'', ''preference'', ''prefer'', ''value'', ''goal'', ''style'', ''always'', ''never''],
       [''lexical-ranking'', ''graph-search'', ''semantic-search'']),
      (Q_ENTITY_LOOKUP,
       seq [Edge, alt (map lit_ci [''who'', ''what'', ''where'', ''which'']), Many 1 None is_space,
            alt (map lit_ci [''is'', ''are'', ''was'', ''were'']), Edge],
       [''graph-search'', ''lexical-ranking'']),
      (Q_FACTUAL,
       whole_words [''fact'', ''value'', ''retrieve'', ''get'', ''show'', ''find''],
       [''lexical-ranking'', ''semantic-search'', ''temporal-filter'']),
      (Q_EXPLORATORY,
       whole_words [''explore'', ''overview'', ''tell me'', ''what do we know'', ''context'', ''discover''],
       [''semantic-search'', ''lexical-ranking'', ''graph-search''])]"

fun classify_by :: "(query_pattern \<times> regex \<times> string list) list \<Rightarrow> string \<Rightarrow> query_classification" where
  "classify_by [] query =
     \<lparr>qc_pattern = Q_DEFAULT, qc_reason = ''no specialized pattern matched'',
      qc_strategies = [''lexical-ranking'', ''semantic-search'', ''temporal-filter''],
      qc_policy_version = ''query-classification/v1''\<rparr>"
| "classify_by ((pattern, expression, strategies) # rest) query =
     (if search expression query
      then \<lparr>qc_pattern = pattern, qc_reason = ''matched deterministic '' @ pattern_value pattern @ '' pattern'',
            qc_strategies = strategies, qc_policy_version = ''query-classification/v1''\<rparr>
      else classify_by rest query)"

definition classify :: "string \<Rightarrow> query_classification" where
  "classify query = classify_by QUERY_PATTERNS (strip query)"

section \<open>Score factors\<close>

record score_factors =
  sf_lexical :: real
  sf_projection :: real
  sf_relevance :: real
  sf_confidence :: real
  sf_trust :: real
  sf_importance :: real
  sf_recency :: real

definition unit_interval :: "real \<Rightarrow> bool" where
  "unit_interval x \<longleftrightarrow> 0 \<le> x \<and> x \<le> 1"

text \<open>The constructor's field constraints.\<close>

definition make_score_factors :: "score_factors \<Rightarrow> error + score_factors" where
  "make_score_factors f =
     (if list_all unit_interval [sf_lexical f, sf_projection f, sf_relevance f, sf_confidence f, sf_trust f, sf_importance f, sf_recency f]
      then Inr f else Inl (ValueError ''validation error for ScoreFactors''))"

definition TOKEN :: regex where
  "TOKEN = Many 2 None (\<lambda>c. is_alnum c \<or> c = CHR ''_'' \<or> c = CHR ''-'')"

text \<open>\<open>{token.lower() for token in _TOKEN.findall(value)}\<close>, as a list without repetitions.\<close>

definition query_tokens :: "string \<Rightarrow> string list" where
  "query_tokens v = remdups (map lower (find_all TOKEN v))"

fun class_importance :: "memory_class \<Rightarrow> real" where
  "class_importance CONSTRAINT = 95 / 100"
| "class_importance DECISION = 90 / 100"
| "class_importance PROCEDURAL = 88 / 100"
| "class_importance IDENTITY = 85 / 100"
| "class_importance PREFERENCE = 78 / 100"
| "class_importance META = 75 / 100"
| "class_importance SEMANTIC = 72 / 100"
| "class_importance INSIGHT = 68 / 100"
| "class_importance OBSERVATION = 55 / 100"
| "class_importance EPISODIC = 50 / 100"

fun pattern_relevance :: "query_pattern \<Rightarrow> real \<times> real" where
  "pattern_relevance Q_ENTITY_LOOKUP = (35 / 100, 65 / 100)"
| "pattern_relevance Q_REASONING_LINEAGE = (55 / 100, 45 / 100)"
| "pattern_relevance Q_TEMPORAL = (70 / 100, 30 / 100)"
| "pattern_relevance Q_IDENTITY = (65 / 100, 35 / 100)"
| "pattern_relevance Q_EXPLORATORY = (35 / 100, 65 / 100)"
| "pattern_relevance Q_FACTUAL = (70 / 100, 30 / 100)"
| "pattern_relevance Q_DEFAULT = (60 / 100, 40 / 100)"

text \<open>
  \<open>rk_parse_float\<close> is Python's \<open>float(text)\<close>, \<open>None\<close> where it raises \<open>ValueError\<close>; an infinite
  or undefined result is represented by the bound the clamping sends it to.
\<close>

record ranking_policy =
  rk_relevance_weight :: real
  rk_confidence_weight :: real
  rk_trust_weight :: real
  rk_importance_weight :: real
  rk_recency_weight :: real
  rk_policy_version :: string
  rk_retention_policy :: retention_policy
  rk_parse_float :: "string \<Rightarrow> real option"

text \<open>\<open>math.isclose(total, 1.0, rel_tol=1e-9)\<close>.\<close>

definition weights_total :: "ranking_policy \<Rightarrow> real" where
  "weights_total p =
     rk_relevance_weight p + rk_confidence_weight p + rk_trust_weight p + rk_importance_weight p + rk_recency_weight p"

definition make_ranking_policy :: "ranking_policy \<Rightarrow> error + ranking_policy" where
  "make_ranking_policy p =
     (if \<bar>weights_total p - 1\<bar> \<le> (1 / 10 ^ 9) * max \<bar>weights_total p\<bar> 1 then Inr p
      else Inl (ValueError ''ranking weights must sum to 1.0''))"

definition default_ranking_policy :: "(string \<Rightarrow> real option) \<Rightarrow> ranking_policy" where
  "default_ranking_policy parse =
     \<lparr>rk_relevance_weight = 40 / 100, rk_confidence_weight = 15 / 100, rk_trust_weight = 10 / 100,
      rk_importance_weight = 20 / 100, rk_recency_weight = 15 / 100, rk_policy_version = ''memory-ranking/v2'',
      rk_retention_policy = default_retention_policy, rk_parse_float = parse\<rparr>"

definition assertion_text :: "memory_assertion \<Rightarrow> string" where
  "assertion_text a =
     join_str '' '' (concat (map (\<lambda>v. case v of Some (c # s) \<Rightarrow> [c # s] | _ \<Rightarrow> []) [as_subject a, as_predicate a, as_object a]))"

definition lexical_score :: "string \<Rightarrow> memory_record \<Rightarrow> real" where
  "lexical_score query r =
     (let qs = query_tokens query in
      if qs = [] then 0
      else
        let rs = query_tokens (mr_content r) @ (case mr_assertion r of None \<Rightarrow> [] | Some a \<Rightarrow> query_tokens (assertion_text a));
            overlap = real (length (filter (\<lambda>t. t \<in> set rs) qs)) / real (length qs);
            phrase_bonus = (if is_infix (lower query) (lower (mr_content r)) then 15 / 100 else 0)
        in min 1 (overlap + phrase_bonus))"

text \<open>
  A value that \<open>float\<close> refuses with \<open>TypeError\<close> or \<open>ValueError\<close> falls back to the class; an
  integer beyond the doubles raises \<open>OverflowError\<close>, which is neither.
\<close>

definition importance_score :: "ranking_policy \<Rightarrow> memory_record \<Rightarrow> error + real" where
  "importance_score p r =
     (let raw = (case dict_get (mr_metadata r) ''importance'' of
                   Some v \<Rightarrow> if v = JNull then dict_get (mr_metadata r) ''importance_score'' else Some v
                 | None \<Rightarrow> dict_get (mr_metadata r) ''importance_score'');
          by_class = class_importance (mr_memory_class r);
          clamp = (\<lambda>x. max 0 (min x 1))
      in case raw of
           Some (JReal x) \<Rightarrow> Inr (clamp x)
         | Some (JInt i) \<Rightarrow> (case float_of_int i of Inl e \<Rightarrow> Inl e | Inr x \<Rightarrow> Inr (clamp x))
         | Some (JBool b) \<Rightarrow> Inr (clamp (if b then 1 else 0))
         | Some (JStr t) \<Rightarrow> (case rk_parse_float p t of Some x \<Rightarrow> Inr (clamp x) | None \<Rightarrow> Inr by_class)
         | _ \<Rightarrow> Inr by_class)"

definition recency_score :: "ranking_policy \<Rightarrow> memory_record \<Rightarrow> instant \<Rightarrow> real" where
  "recency_score p r now = decay_score (rk_retention_policy p) r now"

definition relevance_score :: "real \<Rightarrow> real \<Rightarrow> query_pattern \<Rightarrow> real" where
  "relevance_score lexical projection pattern =
     (let (lw, pw) = pattern_relevance pattern in min 1 (lexical * lw + projection * pw))"

definition factors :: "ranking_policy \<Rightarrow> string \<Rightarrow> memory_record \<Rightarrow> real \<Rightarrow> query_pattern \<Rightarrow> instant \<Rightarrow> error + score_factors" where
  "factors p query r projection_score pattern now =
     (let lexical = lexical_score query r;
          projection = max 0 (min projection_score 1)
      in case importance_score p r of
           Inl e \<Rightarrow> Inl e
         | Inr importance \<Rightarrow> make_score_factors
             \<lparr>sf_lexical = lexical, sf_projection = projection, sf_relevance = relevance_score lexical projection pattern,
              sf_confidence = cf_score (mr_confidence r), sf_trust = pv_source_trust (mr_provenance r),
              sf_importance = importance, sf_recency = recency_score p r now\<rparr>)"

definition total :: "ranking_policy \<Rightarrow> score_factors \<Rightarrow> real" where
  "total p f =
     max 0 (min (sf_relevance f * rk_relevance_weight p + sf_confidence f * rk_confidence_weight p
       + sf_trust f * rk_trust_weight p + sf_importance f * rk_importance_weight p + sf_recency f * rk_recency_weight p) 1)"

section \<open>Every factor is a proportion\<close>

lemma lexical_unit: "unit_interval (lexical_score query r)"
  by (auto simp: unit_interval_def lexical_score_def Let_def)

lemma importance_unit: "importance_score p r = Inr x \<Longrightarrow> unit_interval x"
  by (auto simp: importance_score_def unit_interval_def Let_def split: option.splits json.splits sum.splits if_splits;
      cases "mr_memory_class r"; simp)

lemma relevance_unit:
  assumes "unit_interval l" and "unit_interval j"
  shows "unit_interval (relevance_score l j pattern)"
  using assms by (cases pattern) (auto simp: unit_interval_def relevance_score_def)

lemma recency_unit: "0 < half_life_days (rk_retention_policy p) (mr_memory_class r) \<Longrightarrow> unit_interval (recency_score p r now)"
  by (simp add: recency_score_def unit_interval_def decay_score_def Let_def)

lemma total_unit [simp]: "unit_interval (total p f)"
  by (simp add: unit_interval_def total_def)

end
