(* ===== verification/Retrieval.thy ===== *)
theory Retrieval
  imports Ranking Service
begin

text \<open>
  Search and hydration: \<open>retrieval/planner.py\<close>, \<open>retrieval/budget.py\<close> and the operations
  \<open>search\<close> and \<open>hydrate\<close> of \<open>services/memory_service.py\<close>. What a projection adapter answers
  to a strategy is a function parameter \<open>ask\<close>; it may answer anything.
\<close>

section \<open>Hits and receipts\<close>

record projection_hit =
  ph_record_id :: uuid
  ph_score :: real

record search_hit =
  sh_record :: memory_record
  sh_score :: real
  sh_factors :: score_factors
  sh_matched_by :: "string list"

text \<open>\<open>(target identity, mode, strategy, error, hit record ids)\<close>.\<close>

record attempt =
  at_identity :: string
  at_mode :: string
  at_strategy :: string
  at_error :: "string option"
  at_hit_ids :: "uuid list"

record strategy_evidence =
  ev_target_identity :: string
  ev_mode :: string
  ev_strategy :: string
  ev_succeeded :: bool
  ev_error :: "string option"
  ev_hit_count :: nat
  ev_contributed :: nat

record search_receipt =
  sc_receipt_id :: uuid
  sc_status :: operation_status
  sc_query :: string
  sc_namespaces_authorized :: "string list"
  sc_tags :: "string list"
  sc_memory_classes :: "memory_class list"
  sc_limit :: nat
  sc_valid_at :: instant
  sc_recorded_before :: "instant option"
  sc_include_superseded :: bool
  sc_include_archived :: bool
  sc_min_confidence :: real
  sc_selector_canonicalization :: string
  sc_request_digest :: digest
  sc_hits :: "search_hit list"
  sc_query_pattern :: query_pattern
  sc_classification_reason :: string
  sc_strategies_attempted :: "string list"
  sc_strategies_succeeded :: "string list"
  sc_strategies_failed :: "(string, string) dict"
  sc_stores_attempted :: "string list"
  sc_stores_succeeded :: "string list"
  sc_stores_failed :: "(string, string) dict"
  sc_projection_evidence :: "strategy_evidence list"
  sc_ranking_policy_version :: string
  sc_result_digest :: digest
  sc_created_at :: instant

text \<open>
  The planner's collaborators and switches.
  \<open>ask target strategy query namespaces limit tenant\<close> is the answer of the target's adapter,
  \<open>isoformat\<close> renders an instant.
\<close>

type_synonym ask = "string \<Rightarrow> string \<Rightarrow> string \<Rightarrow> string list \<Rightarrow> nat \<Rightarrow> string \<Rightarrow> error + projection_hit list"

record planner =
  pn_store_name :: string
  pn_projections :: projection_runtime
  pn_ranking :: ranking_policy
  pn_shadow_measurement :: bool
  pn_hash :: "json \<Rightarrow> digest"
  pn_isoformat :: "instant \<Rightarrow> string"
  pn_ask :: ask

section \<open>Candidates\<close>

definition matches_tags :: "memory_record \<Rightarrow> string list \<Rightarrow> bool" where
  "matches_tags r tags \<longleftrightarrow> tags = [] \<or> list_all (\<lambda>t. t \<in> set (mr_tags r)) tags"

definition recorded_limit :: "memory_search_request \<Rightarrow> instant" where
  "recorded_limit q = (case sr_recorded_before q of Some t \<Rightarrow> t | None \<Rightarrow> sr_valid_at q)"

definition admissible_hit :: "string \<Rightarrow> memory_search_request \<Rightarrow> string list \<Rightarrow> memory_record \<Rightarrow> bool" where
  "admissible_hit tenant q namespaces r \<longleftrightarrow>
     mr_tenant_id r = tenant \<and> mr_namespace r \<in> set namespaces
   \<and> mr_state r \<in> set (search_states q)
   \<and> (sr_memory_classes q = [] \<or> mr_memory_class r \<in> set (sr_memory_classes q))
   \<and> matches_tags r (sr_tags q)
   \<and> sr_min_confidence q \<le> cf_score (mr_confidence r)
   \<and> is_valid_at (mr_temporal r) (sr_valid_at q)
   \<and> recorded_at (mr_temporal r) \<le> recorded_limit q"

definition hydrate_projection_hits ::
  "string \<Rightarrow> memory_search_request \<Rightarrow> string list \<Rightarrow> (uuid \<Rightarrow> memory_record option) \<Rightarrow> memory_record list
     \<Rightarrow> (uuid, real) dict \<Rightarrow> memory_record list" where
  "hydrate_projection_hits tenant q namespaces lookup records scores =
     records @ concat (map (\<lambda>rid.
       if rid \<in> set (map mr_record_id records) then []
       else (case lookup rid of
               None \<Rightarrow> []
             | Some r \<Rightarrow> if admissible_hit tenant q namespaces r then [r] else []))
       (dict_keys scores))"

section \<open>The strategies\<close>

text \<open>What the two loops over targets accumulate.\<close>

record gathered =
  ga_stores_attempted :: "string list"
  ga_stores_succeeded :: "string list"
  ga_stores_failed :: "(string, string) dict"
  ga_strategies_succeeded :: "string list"
  ga_strategies_failed :: "(string, string) dict"
  ga_scores :: "(uuid, real) dict"
  ga_attempts :: "attempt list"
  ga_projection_attempted :: bool
  ga_failed_required :: bool

definition raise_score :: "projection_hit \<Rightarrow> (uuid, real) dict \<Rightarrow> (uuid, real) dict" where
  "raise_score h scores =
     dict_set (ph_record_id h) (max (case dict_get scores (ph_record_id h) of Some x \<Rightarrow> x | None \<Rightarrow> 0) (ph_score h)) scores"

definition attempt_of :: "target_binding \<Rightarrow> string \<Rightarrow> string \<Rightarrow> error + projection_hit list \<Rightarrow> attempt" where
  "attempt_of b mode strategy answer =
     (case answer of
        Inl e \<Rightarrow> \<lparr>at_identity = tb_identity b, at_mode = mode, at_strategy = strategy, at_error = Some (error_text e), at_hit_ids = []\<rparr>
      | Inr hits \<Rightarrow> \<lparr>at_identity = tb_identity b, at_mode = mode, at_strategy = strategy, at_error = None,
                    at_hit_ids = map ph_record_id hits\<rparr>)"

definition active_strategy ::
  "(string \<Rightarrow> string \<Rightarrow> error + projection_hit list) \<Rightarrow> target_binding \<Rightarrow> string \<Rightarrow> gathered \<Rightarrow> gathered" where
  "active_strategy ask b strategy g =
     (let store_label = tb_identity b @ '':'' @ strategy;
          answer = ask (tb_identity b) strategy;
          g = g\<lparr>ga_projection_attempted := True, ga_stores_attempted := ga_stores_attempted g @ [store_label],
                ga_attempts := ga_attempts g @ [attempt_of b ''active'' strategy answer]\<rparr>
      in case answer of
           Inl e \<Rightarrow> g\<lparr>ga_stores_failed := dict_set store_label (error_text e) (ga_stores_failed g),
                      ga_strategies_failed := dict_set strategy (error_text e) (ga_strategies_failed g),
                      ga_failed_required := (ga_failed_required g \<or> tb_required b)\<rparr>
         | Inr hits \<Rightarrow> g\<lparr>ga_stores_succeeded := ga_stores_succeeded g @ [store_label],
                      ga_strategies_succeeded := ga_strategies_succeeded g @ [strategy],
                      ga_scores := fold raise_score hits (ga_scores g)\<rparr>)"

definition shadow_strategy ::
  "(string \<Rightarrow> string \<Rightarrow> error + projection_hit list) \<Rightarrow> target_binding \<Rightarrow> string \<Rightarrow> gathered \<Rightarrow> gathered" where
  "shadow_strategy ask b strategy g =
     g\<lparr>ga_attempts := ga_attempts g @ [attempt_of b ''shadow'' strategy (ask (tb_identity b) strategy)]\<rparr>"

definition supports :: "target_binding \<Rightarrow> string \<Rightarrow> bool" where
  "supports b strategy \<longleftrightarrow> (case tb_adapter b of None \<Rightarrow> False | Some a \<Rightarrow> strategy \<in> set (ad_capabilities a))"

text \<open>\<open>for binding in targets: assert adapter is not None; for strategy in strategies: ...\<close>.\<close>

definition ask_targets ::
  "(target_binding \<Rightarrow> string \<Rightarrow> gathered \<Rightarrow> gathered) \<Rightarrow> string list \<Rightarrow> target_binding list \<Rightarrow> (gathered, error, unit) op" where
  "ask_targets step strategies targets =
     for_each (\<lambda>b. andThen (check (tb_adapter b \<noteq> None) (AssertionError ''adapter is not None'')) (\<lambda>_.
       modify (fold (\<lambda>strategy g. if supports b strategy then step b strategy g else g) strategies))) targets"

definition canonical_strategies :: "string list \<Rightarrow> string list" where
  "canonical_strategies strategies = filter (\<lambda>x. x \<in> {''lexical-ranking'', ''temporal-filter''}) strategies"

definition start_gathering :: "string \<Rightarrow> string list \<Rightarrow> error + memory_record list \<Rightarrow> gathered" where
  "start_gathering store_name strategies candidates =
     \<lparr>ga_stores_attempted = [store_name],
      ga_stores_succeeded = (case candidates of Inl _ \<Rightarrow> [] | Inr _ \<Rightarrow> [store_name]),
      ga_stores_failed = (case candidates of Inl e \<Rightarrow> [(store_name, error_text e)] | Inr _ \<Rightarrow> []),
      ga_strategies_succeeded = (case candidates of Inl _ \<Rightarrow> [] | Inr _ \<Rightarrow> canonical_strategies strategies),
      ga_strategies_failed = (case candidates of
          Inl e \<Rightarrow> fold (\<lambda>x. dict_set x (error_text e)) (canonical_strategies strategies) [] | Inr _ \<Rightarrow> []),
      ga_scores = [], ga_attempts = [], ga_projection_attempted = False, ga_failed_required = False\<rparr>"

definition gather ::
  "planner \<Rightarrow> string \<Rightarrow> memory_search_request \<Rightarrow> string list \<Rightarrow> string list \<Rightarrow> error + memory_record list \<Rightarrow> (error + unit) \<times> gathered" where
  "gather pn tenant q namespaces strategies candidates =
     (let ask = (\<lambda>target strategy. pn_ask pn target strategy (sr_query q) namespaces (sr_limit q * 2) tenant) in
      andThen (ask_targets (active_strategy ask) strategies (active_targets (pn_projections pn))) (\<lambda>_.
        if pn_shadow_measurement pn
        then ask_targets (shadow_strategy ask) strategies (shadow_targets (pn_projections pn))
        else ret ())
      (start_gathering (pn_store_name pn) strategies candidates))"

definition search_status :: "string \<Rightarrow> gathered \<Rightarrow> operation_status" where
  "search_status store_name g =
     (if dict_has (ga_stores_failed g) store_name \<or> ga_failed_required g then O_FAILED
      else if ga_stores_failed g \<noteq> [] \<or> ga_strategies_failed g \<noteq> [] then O_PARTIAL
      else O_COMPLETE)"

section \<open>Scoring\<close>

definition matched_by :: "score_factors \<Rightarrow> string list \<Rightarrow> query_pattern \<Rightarrow> string list" where
  "matched_by f tags pattern =
     [''canonical-store''] @ (if 0 < sf_lexical f then [''lexical''] else [])
       @ (if 0 < sf_projection f then [''projection''] else []) @ (if tags \<noteq> [] then [''tag''] else [])
       @ [''pattern:'' @ pattern_value pattern]"

fun score_records ::
  "ranking_policy \<Rightarrow> memory_search_request \<Rightarrow> query_pattern \<Rightarrow> (uuid, real) dict \<Rightarrow> instant \<Rightarrow> memory_record list
     \<Rightarrow> error + search_hit list" where
  "score_records p q pattern scores now [] = Inr []"
| "score_records p q pattern scores now (r # rs) =
     (case factors p (sr_query q) r (case dict_get scores (mr_record_id r) of Some x \<Rightarrow> x | None \<Rightarrow> 0) pattern now of
        Inl e \<Rightarrow> Inl e
      | Inr f \<Rightarrow>
          (case score_records p q pattern scores now rs of
             Inl e \<Rightarrow> Inl e
           | Inr hits \<Rightarrow>
               if sf_relevance f \<le> 0 \<and> sr_tags q = [] then Inr hits
               else Inr (\<lparr>sh_record = r, sh_score = total p f, sh_factors = f,
                          sh_matched_by = matched_by f (sr_tags q) pattern\<rparr> # hits)))"

text \<open>\<open>hits.sort(key=(score, recorded_at), reverse=True)\<close>: stable, by score and then by recency.\<close>

definition sort_hits :: "search_hit list \<Rightarrow> search_hit list" where
  "sort_hits hits = sort_key (\<lambda>h. - sh_score h) (sort_key (\<lambda>h. - recorded_at (mr_temporal (sh_record h))) hits)"

text \<open>\<open>round(x, 8)\<close>, ties to even.\<close>

definition round8 :: "real \<Rightarrow> real" where
  "round8 x =
     (let y = x * 10 ^ 8; n = floor y; d = y - of_int n in
      of_int (if d < 1 / 2 \<or> (d = 1 / 2 \<and> even n) then n else n + 1) / 10 ^ 8)"

section \<open>The receipt\<close>

definition SEARCH_SELECTOR_CANONICALIZATION :: string where
  "SEARCH_SELECTOR_CANONICALIZATION = ''memory.search-selectors/v1''"

definition selector_identity :: "(instant \<Rightarrow> string) \<Rightarrow> memory_search_request \<Rightarrow> json" where
  "selector_identity isoformat q = JObj
     [(''canonicalization'', JStr SEARCH_SELECTOR_CANONICALIZATION),
      (''query'', JStr (sr_query q)),
      (''namespaces'', JList (map JStr (sr_namespaces q))),
      (''tags'', JList (map JStr (sort (remdups (sr_tags q))))),
      (''memory_classes'', JList (map JStr (sort (remdups (map class_value (sr_memory_classes q)))))),
      (''limit'', JInt (int (sr_limit q))),
      (''valid_at'', JStr (isoformat (sr_valid_at q))),
      (''recorded_before'', (case sr_recorded_before q of None \<Rightarrow> JNull | Some t \<Rightarrow> JStr (isoformat t))),
      (''include_superseded'', JBool (sr_include_superseded q)),
      (''include_archived'', JBool (sr_include_archived q)),
      (''min_confidence'', JReal (round8 (sr_min_confidence q)))]"

definition str_dict :: "(string, string) dict \<Rightarrow> json" where
  "str_dict d = JObj (map (\<lambda>(k, v). (k, JStr v)) d)"

definition evidence_of_attempt :: "uuid list \<Rightarrow> attempt \<Rightarrow> strategy_evidence" where
  "evidence_of_attempt returned a =
     \<lparr>ev_target_identity = at_identity a, ev_mode = at_mode a, ev_strategy = at_strategy a,
      ev_succeeded = (at_error a = None), ev_error = at_error a, ev_hit_count = length (at_hit_ids a),
      ev_contributed = (if at_mode a \<noteq> ''active'' then 0 else length (filter (\<lambda>i. i \<in> set returned) (at_hit_ids a)))\<rparr>"

definition search_receipt_of ::
  "env \<Rightarrow> planner \<Rightarrow> memory_search_request \<Rightarrow> string list \<Rightarrow> query_classification \<Rightarrow> gathered \<Rightarrow> search_hit list \<Rightarrow> search_receipt" where
  "search_receipt_of en pn q namespaces cl g hits =
     (let request_digest = pn_hash pn (selector_identity (pn_isoformat pn) q) in
      \<lparr>sc_receipt_id = env_uuid en U_receipt, sc_status = search_status (pn_store_name pn) g, sc_query = sr_query q,
       sc_namespaces_authorized = namespaces, sc_tags = sr_tags q, sc_memory_classes = sr_memory_classes q,
       sc_limit = sr_limit q, sc_valid_at = sr_valid_at q, sc_recorded_before = sr_recorded_before q,
       sc_include_superseded = sr_include_superseded q, sc_include_archived = sr_include_archived q,
       sc_min_confidence = sr_min_confidence q, sc_selector_canonicalization = SEARCH_SELECTOR_CANONICALIZATION,
       sc_request_digest = request_digest, sc_hits = hits, sc_query_pattern = qc_pattern cl,
       sc_classification_reason = qc_reason cl,
       sc_strategies_attempted = dedup
         (if ga_projection_attempted g then qc_strategies cl
          else filter (\<lambda>x. x \<notin> {''graph-search'', ''semantic-search''}) (qc_strategies cl)),
       sc_strategies_succeeded = dedup (ga_strategies_succeeded g),
       sc_strategies_failed = ga_strategies_failed g,
       sc_stores_attempted = ga_stores_attempted g,
       sc_stores_succeeded = ga_stores_succeeded g,
       sc_stores_failed = ga_stores_failed g,
       sc_projection_evidence = map (evidence_of_attempt (map (\<lambda>h. mr_record_id (sh_record h)) hits)) (ga_attempts g),
       sc_ranking_policy_version = ''memory-ranking/v2'',
       sc_result_digest = pn_hash pn (JObj
         [(''query'', JStr (sr_query q)),
          (''query_pattern'', JStr (pattern_value (qc_pattern cl))),
          (''namespaces'', JList (map JStr namespaces)),
          (''request_digest'', JStr request_digest),
          (''hit_ids'', JList (map (\<lambda>h. JStr (uuid_str (mr_record_id (sh_record h)))) hits)),
          (''scores'', JList (map (\<lambda>h. JReal (round8 (sh_score h))) hits)),
          (''failures'', str_dict (ga_stores_failed g)),
          (''strategy_failures'', str_dict (ga_strategies_failed g))]),
       sc_created_at = env_wall en\<rparr>)"

text \<open>
  \<open>RetrievalPlanner.search\<close>. \<open>candidates\<close> is the outcome of \<open>store.search_records\<close> and \<open>lookup\<close>
  is \<open>store.get_record\<close> when the projection hits are resolved, which may be later. \<open>finish\<close> is
  the method from the end of the two loops on.
\<close>

definition finish ::
  "env \<Rightarrow> planner \<Rightarrow> string \<Rightarrow> memory_search_request \<Rightarrow> string list \<Rightarrow> error + memory_record list
     \<Rightarrow> (uuid \<Rightarrow> memory_record option) \<Rightarrow> gathered \<Rightarrow> error + search_receipt" where
  "finish en pn tenant q namespaces candidates lookup g =
     (let cl = classify (sr_query q);
          records = (case candidates of Inl _ \<Rightarrow> [] | Inr rs \<Rightarrow> filter (\<lambda>r. matches_tags r (sr_tags q)) rs);
          records = (if ga_scores g \<noteq> [] \<and> \<not> dict_has (ga_stores_failed g) (pn_store_name pn)
                     then hydrate_projection_hits tenant q namespaces lookup records (ga_scores g) else records)
      in case (if search_status (pn_store_name pn) g = O_FAILED then Inr []
               else score_records (pn_ranking pn) q (qc_pattern cl) (ga_scores g) (env_now en) records) of
           Inl e \<Rightarrow> Inl e
         | Inr hits \<Rightarrow> Inr (search_receipt_of en pn q namespaces cl g (take (sr_limit q) (sort_hits hits))))"

definition planner_search ::
  "env \<Rightarrow> planner \<Rightarrow> string \<Rightarrow> memory_search_request \<Rightarrow> string list \<Rightarrow> error + memory_record list
     \<Rightarrow> (uuid \<Rightarrow> memory_record option) \<Rightarrow> error + search_receipt" where
  "planner_search en pn tenant q namespaces candidates lookup =
     (case gather pn tenant q namespaces (qc_strategies (classify (sr_query q))) candidates of
        (Inl e, _) \<Rightarrow> Inl e
      | (Inr _, g) \<Rightarrow> finish en pn tenant q namespaces candidates lookup g)"

section \<open>Hydration\<close>

text \<open>\<open>ContextBudgetAllocator\<close>. An ASCII text has as many bytes as characters; \<open>len / 3.5\<close> rounded up.\<close>

fun class_order :: "memory_class \<Rightarrow> nat" where
  "class_order CONSTRAINT = 0"
| "class_order DECISION = 1"
| "class_order PROCEDURAL = 2"
| "class_order IDENTITY = 3"
| "class_order PREFERENCE = 4"
| "class_order META = 5"
| "class_order SEMANTIC = 6"
| "class_order INSIGHT = 7"
| "class_order OBSERVATION = 8"
| "class_order EPISODIC = 9"

definition estimate_tokens :: "string \<Rightarrow> nat" where
  "estimate_tokens t = max 1 ((2 * length t + 6) div 7)"

record context_section =
  cx_memory_class :: memory_class
  cx_content :: string
  cx_record_ids :: "uuid list"
  cx_tokens_estimated :: nat
  cx_highest_score :: real

record hydration_result =
  hd_receipt_id :: uuid
  hd_status :: operation_status
  hd_task :: string
  hd_sections :: "context_section list"
  hd_token_budget :: nat
  hd_tokens_used :: nat
  hd_search_receipt_id :: uuid
  hd_result_digest :: digest
  hd_warnings :: "string list"
  hd_created_at :: instant

type_synonym grouped = "(memory_class, (string \<times> search_hit) list) dict"

text \<open>One step of the loop over the sorted hits: the groups, what remains and what is used.\<close>

definition take_hit :: "search_hit \<Rightarrow> grouped \<times> nat \<times> nat \<Rightarrow> grouped \<times> nat \<times> nat" where
  "take_hit h st =
     (let (groups, remaining, used) = st;
          content = strip (mr_content (sh_record h));
          tokens = estimate_tokens content;
          c = mr_memory_class (sh_record h)
      in if remaining < tokens then st
         else (dict_set c ((case dict_get groups c of Some xs \<Rightarrow> xs | None \<Rightarrow> []) @ [(content, h)]) groups,
               remaining - tokens, used + tokens))"

definition sort_by_class :: "search_hit list \<Rightarrow> search_hit list" where
  "sort_by_class hits = sort_key (\<lambda>h. class_order (mr_memory_class (sh_record h))) (sort_key (\<lambda>h. - sh_score h) hits)"

definition section_of :: "memory_class \<times> (string \<times> search_hit) list \<Rightarrow> context_section" where
  "section_of g =
     \<lparr>cx_memory_class = mr_memory_class (sh_record (snd (hd (snd g)))),
      cx_content = join_str [CHR 0x0A, CHR 0x0A] (map fst (snd g)),
      cx_record_ids = map (\<lambda>x. mr_record_id (sh_record (snd x))) (snd g),
      cx_tokens_estimated = sum_list (map (\<lambda>x. estimate_tokens (fst x)) (snd g)),
      cx_highest_score = Max (set (map (\<lambda>x. sh_score (snd x)) (snd g)))\<rparr>"

definition section_json :: "context_section \<Rightarrow> json" where
  "section_json x = JObj
     [(''memory_class'', JStr (class_value (cx_memory_class x))), (''content'', JStr (cx_content x)),
      (''record_ids'', JList (map (\<lambda>i. JStr (uuid_str i)) (cx_record_ids x))),
      (''tokens_estimated'', JInt (int (cx_tokens_estimated x))), (''highest_score'', JReal (cx_highest_score x))]"

definition allocate ::
  "env \<Rightarrow> (json \<Rightarrow> digest) \<Rightarrow> search_receipt \<Rightarrow> string \<Rightarrow> nat \<Rightarrow> hydration_result" where
  "allocate en hash found task token_budget =
     (let (groups, remaining, used) = fold take_hit (sort_by_class (sc_hits found)) ([], token_budget, 0);
          sections = map section_of (sort_key (\<lambda>g. class_order (fst g)) groups) in
      \<lparr>hd_receipt_id = env_uuid en U_operation, hd_status = sc_status found, hd_task = task, hd_sections = sections,
       hd_token_budget = token_budget, hd_tokens_used = used, hd_search_receipt_id = sc_receipt_id found,
       hd_result_digest = hash (JObj
         [(''task'', JStr task), (''sections'', JList (map section_json sections)),
          (''search_receipt_id'', JStr (uuid_str (sc_receipt_id found)))]),
       hd_warnings = (if sc_hits found \<noteq> [] \<and> sections = []
                      then [''no complete memory record fit within the token budget''] else []),
       hd_created_at = env_wall en\<rparr>)"

record hydration_request =
  hq_task :: string
  hq_namespaces :: "string list"
  hq_entities :: "string list"
  hq_topics :: "string list"
  hq_memory_classes :: "memory_class list"
  hq_valid_at :: instant
  hq_token_budget :: nat
  hq_max_records :: nat
  hq_tags :: "string list"

definition hydration_request_ok :: "hydration_request \<Rightarrow> bool" where
  "hydration_request_ok q \<longleftrightarrow>
     len_ok 1 8000 (hq_task q) \<and> 128 \<le> hq_token_budget q \<and> hq_token_budget q \<le> 64000
   \<and> 1 \<le> hq_max_records q \<and> hq_max_records q \<le> 200"

definition make_search_request :: "memory_search_request \<Rightarrow> error + memory_search_request" where
  "make_search_request q =
     (if len_ok 1 4000 (sr_query q) \<and> unit_interval (sr_min_confidence q) \<and> 1 \<le> sr_limit q \<and> sr_limit q \<le> 200
         \<and> (case sr_token_budget q of None \<Rightarrow> True | Some n \<Rightarrow> 64 \<le> n \<and> n \<le> 64000)
      then Inr (q\<lparr>sr_tags := normalize_tag_selector (sr_tags q)\<rparr>)
      else Inl (ValueError ''validation error for MemorySearchRequest''))"

section \<open>The service operations\<close>

text \<open>
  \<open>later\<close> is the store when the planner resolves projection hits; nothing is assumed of it.
\<close>

definition effective_request :: "env \<Rightarrow> memory_search_request \<Rightarrow> memory_search_request" where
  "effective_request en q =
     (if sr_recorded_before q \<noteq> None then q else q\<lparr>sr_recorded_before := Some (env_now en)\<rparr>)"

definition service_search ::
  "planner \<Rightarrow> env \<Rightarrow> memory_principal \<Rightarrow> memory_search_request \<Rightarrow> store \<Rightarrow> search_receipt store_op" where
  "service_search pn en p q later =
     andThen (authorized_search_namespaces en p (sr_namespaces q)) (\<lambda>namespaces.
     andThen (gets (search_records (mp_tenant_id p) (effective_request en q) namespaces)) (\<lambda>candidates.
       from_sum (planner_search en pn (mp_tenant_id p) (effective_request en q) namespaces (Inr candidates)
         (\<lambda>rid. get_record rid later))))"

definition hydration_search :: "hydration_request \<Rightarrow> error + memory_search_request" where
  "hydration_search q = make_search_request
     \<lparr>sr_query = join_str '' '' (filter (\<lambda>part. part \<noteq> []) (hq_task q # hq_entities q @ hq_topics q)),
      sr_namespaces = hq_namespaces q, sr_memory_classes = hq_memory_classes q, sr_valid_at = hq_valid_at q,
      sr_recorded_before = None, sr_include_superseded = False, sr_include_archived = False, sr_min_confidence = 0,
      sr_limit = hq_max_records q, sr_token_budget = Some (hq_token_budget q), sr_tags = hq_tags q\<rparr>"

definition hydrate ::
  "planner \<Rightarrow> env \<Rightarrow> memory_principal \<Rightarrow> hydration_request \<Rightarrow> store \<Rightarrow> hydration_result store_op" where
  "hydrate pn en p q later =
     andThen (from_sum (hydration_search q)) (\<lambda>request.
     andThen (service_search pn en p request later) (\<lambda>found.
       ret (allocate en (pn_hash pn) found (hq_task q) (hq_token_budget q))))"

end
