(* ===== verification/RetrievalLaws.thy ===== *)
theory RetrievalLaws
  imports Retrieval
begin

text \<open>
  What a search may return and what a hydration may spend: the filters hold whatever the
  adapters answer, shadow targets have no influence, failures are reported in the status,
  and the token budget is kept. Two findings are theorems of their own.
\<close>

section \<open>Gathering\<close>

lemma ask_targets_ok:
  assumes "\<forall>b \<in> set targets. tb_adapter b \<noteq> None"
  shows "ask_targets step strategies targets g =
     (Inr (), fold (\<lambda>b g. fold (\<lambda>strategy g. if supports b strategy then step b strategy g else g) strategies g) targets g)"
  using assms by (induction targets arbitrary: g) (auto simp: ask_targets_def andThen_def check_def modify_def ret_def)

lemma ask_targets_missing:
  assumes "\<not> (\<forall>b \<in> set targets. tb_adapter b \<noteq> None)"
  shows "\<exists>g'. ask_targets step strategies targets g = (Inl (AssertionError ''adapter is not None''), g')"
  using assms
proof (induction targets arbitrary: g)
  case Nil
  then show ?case by simp
next
  case (Cons b bs)
  show ?case
  proof (cases "tb_adapter b = None")
    case True
    then show ?thesis by (simp add: ask_targets_def andThen_def check_def throw_def)
  next
    case False
    with Cons.prems have "\<not> (\<forall>b \<in> set bs. tb_adapter b \<noteq> None)" by auto
    from Cons.IH [OF this] False show ?thesis
      by (auto simp: ask_targets_def andThen_def check_def modify_def ret_def)
  qed
qed

lemma ask_targets_Inr:
  assumes "ask_targets step strategies targets g = (Inr u, g')"
  shows "(\<forall>b \<in> set targets. tb_adapter b \<noteq> None)
    \<and> g' = fold (\<lambda>b g. fold (\<lambda>strategy g. if supports b strategy then step b strategy g else g) strategies g) targets g"
proof (cases "\<forall>b \<in> set targets. tb_adapter b \<noteq> None")
  case True
  with ask_targets_ok [OF this, of step strategies g] assms show ?thesis by simp
next
  case False
  from ask_targets_missing [OF this, of step strategies g] assms show ?thesis by auto
qed

text \<open>Everything of what was gathered but the attempts, which only feed the evidence.\<close>

definition decisive :: "gathered \<Rightarrow> gathered" where
  "decisive g = g\<lparr>ga_attempts := []\<rparr>"

lemma shadow_decisive [simp]: "decisive (shadow_strategy ask b strategy g) = decisive g"
  by (simp add: shadow_strategy_def decisive_def)

lemma shadow_fold_decisive:
  "decisive (fold (\<lambda>b g. fold (\<lambda>strategy g. if supports b strategy then shadow_strategy ask b strategy g else g) strategies g) targets g)
     = decisive g"
proof -
  have "decisive (fold (\<lambda>strategy g. if supports b strategy then shadow_strategy ask b strategy g else g) strategies g) = decisive g" for b g
    by (induction strategies arbitrary: g) simp_all
  then show ?thesis by (induction targets arbitrary: g) simp_all
qed

text \<open>The strategies that were asked, and which of the questions failed.\<close>

definition asked :: "planner \<Rightarrow> string list \<Rightarrow> (target_binding \<times> string) list" where
  "asked pn strategies =
     concat (map (\<lambda>b. map (Pair b) (filter (supports b) strategies)) (active_targets (pn_projections pn)))"

definition answer :: "planner \<Rightarrow> string \<Rightarrow> memory_search_request \<Rightarrow> string list \<Rightarrow> target_binding \<Rightarrow> string \<Rightarrow> error + projection_hit list" where
  "answer pn tenant q namespaces b strategy =
     pn_ask pn (tb_identity b) strategy (sr_query q) namespaces (sr_limit q * 2) tenant"

lemma fold_filtered: "fold (\<lambda>x g. if P x then f x g else g) xs g = fold f (filter P xs) g"
  by (induction xs arbitrary: g) simp_all

lemma fold_asked:
  "fold (\<lambda>b g. fold (\<lambda>strategy g. if supports b strategy then step b strategy g else g) strategies g) targets g
     = fold (\<lambda>(b, strategy). step b strategy) (concat (map (\<lambda>b. map (Pair b) (filter (supports b) strategies)) targets)) g"
proof -
  have "fold (\<lambda>strategy g. if supports b strategy then step b strategy g else g) strategies g
      = fold (\<lambda>(b, strategy). step b strategy) (map (Pair b) (filter (supports b) strategies)) g" for b g
    by (simp add: fold_filtered fold_map o_def)
  then show ?thesis by (induction targets arbitrary: g) simp_all
qed

definition gathered_of ::
  "planner \<Rightarrow> string \<Rightarrow> memory_search_request \<Rightarrow> string list \<Rightarrow> string list \<Rightarrow> error + memory_record list \<Rightarrow> gathered" where
  "gathered_of pn tenant q namespaces strategies candidates =
     fold (\<lambda>(b, strategy). active_strategy (\<lambda>target strategy. pn_ask pn target strategy (sr_query q) namespaces (sr_limit q * 2) tenant)
             b strategy)
       (asked pn strategies) (start_gathering (pn_store_name pn) strategies candidates)"

text \<open>A search that gets past the loops gathered what the active targets answered.\<close>

lemma gather_Inr:
  assumes "gather pn tenant q namespaces strategies candidates = (Inr u, g)"
  shows "decisive g = decisive (gathered_of pn tenant q namespaces strategies candidates)"
    and "\<forall>b \<in> set (active_targets (pn_projections pn)). tb_adapter b \<noteq> None"
proof -
  let ?ask = "\<lambda>target strategy. pn_ask pn target strategy (sr_query q) namespaces (sr_limit q * 2) tenant"
  let ?start = "start_gathering (pn_store_name pn) strategies candidates"
  let ?g1 = "gathered_of pn tenant q namespaces strategies candidates"
  obtain v g1 where 1: "ask_targets (active_strategy ?ask) strategies (active_targets (pn_projections pn)) ?start = (Inr v, g1)"
    using assms unfolding gather_def andThen_def Let_def by (auto split: prod.splits sum.splits)
  from ask_targets_Inr [OF 1] show "\<forall>b \<in> set (active_targets (pn_projections pn)). tb_adapter b \<noteq> None" by simp
  from ask_targets_Inr [OF 1] have g1: "g1 = ?g1" by (simp add: gathered_of_def asked_def fold_asked)
  show "decisive g = decisive ?g1"
  proof (cases "pn_shadow_measurement pn")
    case False
    with assms 1 g1 show ?thesis by (simp add: gather_def andThen_def ret_def)
  next
    case True
    then have "ask_targets (shadow_strategy ?ask) strategies (shadow_targets (pn_projections pn)) ?g1 = (Inr u, g)"
      using assms 1 g1 by (simp add: gather_def andThen_def)
    from ask_targets_Inr [OF this] show ?thesis by (simp add: shadow_fold_decisive)
  qed
qed

text \<open>What the failures leave behind.\<close>

definition failed :: "planner \<Rightarrow> string \<Rightarrow> memory_search_request \<Rightarrow> string list \<Rightarrow> target_binding \<times> string \<Rightarrow> bool" where
  "failed pn tenant q namespaces x = isl (answer pn tenant q namespaces (fst x) (snd x))"

lemma raise_scores_ok: "dict_ok d \<Longrightarrow> dict_ok (fold raise_score hs d)"
  by (induction hs arbitrary: d) (simp_all add: raise_score_def)

lemma active_strategy_sel [simp]:
  "ga_failed_required (active_strategy ask b x g) \<longleftrightarrow> ga_failed_required g \<or> isl (ask (tb_identity b) x) \<and> tb_required b"
  "dict_has (ga_stores_failed (active_strategy ask b x g)) k \<longleftrightarrow>
     dict_has (ga_stores_failed g) k \<or> isl (ask (tb_identity b) x) \<and> k = tb_identity b @ '':'' @ x"
  "dict_has (ga_strategies_failed (active_strategy ask b x g)) k \<longleftrightarrow>
     dict_has (ga_strategies_failed g) k \<or> isl (ask (tb_identity b) x) \<and> k = x"
  "dict_ok (ga_scores g) \<Longrightarrow> dict_ok (ga_scores (active_strategy ask b x g))"
  by (cases "ask (tb_identity b) x"; auto simp: active_strategy_def Let_def raise_scores_ok)+

lemma gather_step_facts:
  fixes ask
  defines "step \<equiv> \<lambda>(b, strategy). active_strategy ask b strategy"
  shows "ga_failed_required (fold step xs g) \<longleftrightarrow>
      ga_failed_required g \<or> (\<exists>x \<in> set xs. isl (ask (tb_identity (fst x)) (snd x)) \<and> tb_required (fst x))"
    and "dict_has (ga_stores_failed (fold step xs g)) k \<longleftrightarrow>
      dict_has (ga_stores_failed g) k \<or> (\<exists>x \<in> set xs. isl (ask (tb_identity (fst x)) (snd x)) \<and> k = tb_identity (fst x) @ '':'' @ snd x)"
    and "dict_has (ga_strategies_failed (fold step xs g)) k \<longleftrightarrow>
      dict_has (ga_strategies_failed g) k \<or> (\<exists>x \<in> set xs. isl (ask (tb_identity (fst x)) (snd x)) \<and> k = snd x)"
    and "dict_ok (ga_scores g) \<Longrightarrow> dict_ok (ga_scores (fold step xs g))"
  unfolding step_def by (induction xs arbitrary: g; auto)+

lemma dict_nonempty_iff: "d \<noteq> [] \<longleftrightarrow> (\<exists>k. dict_has d k)"
  by (cases d) (auto simp: dict_has_def)

lemma decisive_sel:
  assumes "decisive g = decisive g'"
  shows "ga_stores_failed g = ga_stores_failed g'" "ga_strategies_failed g = ga_strategies_failed g'"
    "ga_scores g = ga_scores g'" "ga_failed_required g = ga_failed_required g'"
    "ga_stores_attempted g = ga_stores_attempted g'" "ga_stores_succeeded g = ga_stores_succeeded g'"
    "ga_strategies_succeeded g = ga_strategies_succeeded g'" "ga_projection_attempted g = ga_projection_attempted g'"
  using assms by (cases g; cases g'; simp add: decisive_def)+

text \<open>The status of a search whose canonical store answered.\<close>

lemma status_of_gathered:
  assumes "gather pn tenant q namespaces strategies (Inr rs) = (Inr u, g)" and "CHR '':'' \<notin> set (pn_store_name pn)"
  shows "search_status (pn_store_name pn) g =
     (if \<exists>x \<in> set (asked pn strategies). failed pn tenant q namespaces x \<and> tb_required (fst x) then O_FAILED
      else if \<exists>x \<in> set (asked pn strategies). failed pn tenant q namespaces x then O_PARTIAL
      else O_COMPLETE)"
proof -
  note d = decisive_sel [OF gather_Inr(1) [OF assms(1)]]
  have name: "pn_store_name pn \<noteq> i @ CHR '':'' # x" for i x using assms(2) by (metis in_set_conv_decomp)
  show ?thesis
    unfolding search_status_def d dict_nonempty_iff
    by (simp add: gathered_of_def gather_step_facts start_gathering_def dict_has_def [of "[]"] failed_def answer_def name)
       (auto simp: gather_step_facts dict_has_def [of "[]"])
qed

section \<open>What is returned\<close>

lemma admissible_filtered:
  assumes "r \<in> set (search_records tenant q namespaces s)" and "matches_tags r (sr_tags q)"
  shows "admissible_hit tenant q namespaces r \<and> r \<in> set (dict_values (st_records s))"
proof -
  have "search_matches tenant q namespaces r \<and> r \<in> set (dict_values (st_records s))"
    using assms(1) by (auto simp: search_records_def by_recency_def dest: in_set_takeD)
  with assms(2) show ?thesis
    by (auto simp: search_matches_def admissible_hit_def recorded_limit_def split: option.splits)
qed

lemma hydrated_admissible:
  "r \<in> set (hydrate_projection_hits tenant q namespaces lookup records scores) \<Longrightarrow>
     r \<in> set records \<or> (admissible_hit tenant q namespaces r \<and> (\<exists>rid. lookup rid = Some r))"
  by (auto simp: hydrate_projection_hits_def split: option.splits if_splits)

lemma hydrated_distinct:
  assumes "distinct (map mr_record_id records)" and "dict_ok scores"
    and "\<And>rid r. lookup rid = Some r \<Longrightarrow> mr_record_id r = rid"
  shows "distinct (map mr_record_id (hydrate_projection_hits tenant q namespaces lookup records scores))"
proof -
  define f where "f rid = (if rid \<in> set (map mr_record_id records) then []
       else (case lookup rid of None \<Rightarrow> [] | Some r \<Rightarrow> if admissible_hit tenant q namespaces r then [r] else []))" for rid
  have f: "map mr_record_id (f rid) = [] \<or> map mr_record_id (f rid) = [rid] \<and> rid \<notin> set (map mr_record_id records)" for rid
    using assms(3) by (auto simp: f_def split: option.splits)
  have "distinct ks \<Longrightarrow> distinct (map mr_record_id (concat (map f ks)))
      \<and> set (map mr_record_id (concat (map f ks))) \<subseteq> set ks - set (map mr_record_id records)" for ks
  proof (induction ks)
    case Nil
    then show ?case by simp
  next
    case (Cons k ks)
    then have "distinct (map mr_record_id (concat (map f ks)))"
      "set (map mr_record_id (concat (map f ks))) \<subseteq> set ks - set (map mr_record_id records)" "k \<notin> set ks"
      by auto
    with f [of k] show ?case by (elim disjE) (simp_all only: list.map concat.simps map_append, auto)
  qed
  from this [of "dict_keys scores"] assms(1,2) show ?thesis
    unfolding hydrate_projection_hits_def f_def [symmetric] map_append distinct_append by (simp add: dict_ok_def) blast
qed

lemma score_records_hits:
  assumes "score_records p q pattern scores now rs = Inr hits"
  shows "h \<in> set hits \<Longrightarrow> sh_record h \<in> set rs \<and> unit_interval (sh_score h)"
    and "distinct (map mr_record_id rs) \<Longrightarrow> distinct (map (\<lambda>h. mr_record_id (sh_record h)) hits)"
proof -
  have "(\<forall>h \<in> set hits. sh_record h \<in> set rs \<and> unit_interval (sh_score h))
      \<and> (distinct (map mr_record_id rs) \<longrightarrow> distinct (map (\<lambda>h. mr_record_id (sh_record h)) hits))"
    using assms
  proof (induction rs arbitrary: hits)
    case Nil
    then show ?case by simp
  next
    case (Cons r rs)
    then obtain f hs where 1: "score_records p q pattern scores now rs = Inr hs"
        "hits = hs \<or> hits = \<lparr>sh_record = r, sh_score = total p f, sh_factors = f,
                          sh_matched_by = matched_by f (sr_tags q) pattern\<rparr> # hs"
      by (auto split: sum.splits if_splits)
    from Cons.IH [OF 1(1)] 1(2) show ?case by (auto simp: image_iff)
  qed
  then show "h \<in> set hits \<Longrightarrow> sh_record h \<in> set rs \<and> unit_interval (sh_score h)"
    and "distinct (map mr_record_id rs) \<Longrightarrow> distinct (map (\<lambda>h. mr_record_id (sh_record h)) hits)" by blast+
qed

lemma sort_hits_props [simp]:
  "set (sort_hits hits) = set hits"
  "distinct (map (\<lambda>h. mr_record_id (sh_record h)) (sort_hits hits)) \<longleftrightarrow> distinct (map (\<lambda>h. mr_record_id (sh_record h)) hits)"
  "sorted_wrt (\<lambda>a b. sh_score b \<le> sh_score a) (sort_hits hits)"
proof -
  show "set (sort_hits hits) = set hits" by (simp add: sort_hits_def)
  have "mset (sort_hits hits) = mset hits" by (simp add: sort_hits_def)
  then have "mset (map (\<lambda>h. mr_record_id (sh_record h)) (sort_hits hits)) = mset (map (\<lambda>h. mr_record_id (sh_record h)) hits)"
    by simp
  then show "distinct (map (\<lambda>h. mr_record_id (sh_record h)) (sort_hits hits)) \<longleftrightarrow> distinct (map (\<lambda>h. mr_record_id (sh_record h)) hits)"
    by (rule mset_eq_imp_distinct_iff)
  have "sorted (map (\<lambda>h. - sh_score h) (sort_hits hits))" by (simp add: sort_hits_def)
  then show "sorted_wrt (\<lambda>a b. sh_score b \<le> sh_score a) (sort_hits hits)" by (simp add: sorted_wrt_map)
qed

lemma finish_Inr:
  assumes "finish en pn tenant q namespaces (Inr rs) lookup g = Inr receipt" and "dict_ok (ga_scores g)"
  obtains hits where
    "receipt = search_receipt_of en pn q namespaces (classify (sr_query q)) g (take (sr_limit q) (sort_hits hits))"
    "search_status (pn_store_name pn) g = O_FAILED \<Longrightarrow> hits = []"
    "\<And>h. h \<in> set hits \<Longrightarrow> unit_interval (sh_score h) \<and>
       ((sh_record h \<in> set rs \<and> matches_tags (sh_record h) (sr_tags q))
        \<or> (admissible_hit tenant q namespaces (sh_record h) \<and> (\<exists>rid. lookup rid = Some (sh_record h))))"
    "distinct (map mr_record_id rs) \<Longrightarrow> (\<And>rid r. lookup rid = Some r \<Longrightarrow> mr_record_id r = rid)
       \<Longrightarrow> distinct (map (\<lambda>h. mr_record_id (sh_record h)) hits)"
proof -
  let ?rs = "filter (\<lambda>r. matches_tags r (sr_tags q)) rs"
  define records where "records = (if ga_scores g \<noteq> [] \<and> \<not> dict_has (ga_stores_failed g) (pn_store_name pn)
      then hydrate_projection_hits tenant q namespaces lookup ?rs (ga_scores g) else ?rs)"
  obtain hits where h: "(if search_status (pn_store_name pn) g = O_FAILED then Inr []
         else score_records (pn_ranking pn) q (qc_pattern (classify (sr_query q))) (ga_scores g) (env_now en) records) = Inr hits"
      "receipt = search_receipt_of en pn q namespaces (classify (sr_query q)) g (take (sr_limit q) (sort_hits hits))"
    using assms(1) unfolding finish_def Let_def records_def by (auto split: sum.splits if_splits)
  show thesis
  proof (rule that [of hits])
    show "receipt = search_receipt_of en pn q namespaces (classify (sr_query q)) g (take (sr_limit q) (sort_hits hits))"
      by (rule h(2))
    show "search_status (pn_store_name pn) g = O_FAILED \<Longrightarrow> hits = []" using h(1) by simp
  next
    fix x assume x: "x \<in> set hits"
    then have "score_records (pn_ranking pn) q (qc_pattern (classify (sr_query q))) (ga_scores g) (env_now en) records = Inr hits"
      using h(1) by (auto split: if_splits)
    from score_records_hits(1) [OF this x] have r: "sh_record x \<in> set records" "unit_interval (sh_score x)" by blast+
    from r(1) have "sh_record x \<in> set ?rs \<or> (admissible_hit tenant q namespaces (sh_record x) \<and> (\<exists>rid. lookup rid = Some (sh_record x)))"
      unfolding records_def using hydrated_admissible by (fastforce split: if_splits)
    with r(2) show "unit_interval (sh_score x) \<and>
       ((sh_record x \<in> set rs \<and> matches_tags (sh_record x) (sr_tags q))
        \<or> (admissible_hit tenant q namespaces (sh_record x) \<and> (\<exists>rid. lookup rid = Some (sh_record x))))" by auto
  next
    assume d: "distinct (map mr_record_id rs)" and l: "\<And>rid r. lookup rid = Some r \<Longrightarrow> mr_record_id r = rid"
    have "distinct (map mr_record_id ?rs)" using d by (rule distinct_map_filter)
    with hydrated_distinct [OF this assms(2) l] have "distinct (map mr_record_id records)"
      by (simp add: records_def)
    with score_records_hits(2) h(1) show "distinct (map (\<lambda>h. mr_record_id (sh_record h)) hits)"
      by (auto split: if_splits)
  qed
qed

lemma search_records_distinct:
  assumes "store_wf s"
  shows "distinct (map mr_record_id (search_records tenant q namespaces s))"
proof -
  have "keyed mr_record_id (st_records s)" using assms by (simp add: store_wf_def store_keyed_def)
  then have "distinct (map mr_record_id (dict_values (st_records s)))" by (rule keyed_distinct)
  then have "distinct (map mr_record_id (filter (search_matches tenant q namespaces) (dict_values (st_records s))))"
    by (rule distinct_map_filter)
  then have "distinct (map mr_record_id (by_recency (filter (search_matches tenant q namespaces) (dict_values (st_records s)))))"
    by (simp add: by_recency_def sort_desc_def distinct_map)
  then show ?thesis unfolding search_records_def take_map [symmetric] by (rule distinct_take)
qed

lemma service_search_Inr:
  assumes "service_search pn en p q later s = (Inr receipt, t)"
  obtains namespaces g where "t = s" "authorized_search_namespaces en p (sr_namespaces q) s = (Inr namespaces, s)"
    "\<forall>ns \<in> set namespaces. may p A_READ ns" "sr_namespaces q \<noteq> [] \<Longrightarrow> set namespaces = set (sr_namespaces q)"
    "gather pn (mp_tenant_id p) (effective_request en q) namespaces (qc_strategies (classify (sr_query q)))
       (Inr (search_records (mp_tenant_id p) (effective_request en q) namespaces s)) = (Inr (), g)"
    "finish en pn (mp_tenant_id p) (effective_request en q) namespaces
       (Inr (search_records (mp_tenant_id p) (effective_request en q) namespaces s)) (\<lambda>rid. get_record rid later) g = Inr receipt"
proof -
  have q: "sr_query (effective_request en q) = sr_query q" by (simp add: effective_request_def)
  from assms obtain namespaces where n: "authorized_search_namespaces en p (sr_namespaces q) s = (Inr namespaces, s)" "t = s"
      "planner_search en pn (mp_tenant_id p) (effective_request en q) namespaces
         (Inr (search_records (mp_tenant_id p) (effective_request en q) namespaces s)) (\<lambda>rid. get_record rid later) = Inr receipt"
    by (auto simp: service_search_def andThen_Inr authorized_search_namespaces_def authorize_all_Inr Let_def)
  then have "\<forall>ns \<in> set namespaces. may p A_READ ns" "sr_namespaces q \<noteq> [] \<Longrightarrow> set namespaces = set (sr_namespaces q)"
    by (auto simp: authorized_search_namespaces_def andThen_Inr authorize_all_Inr Let_def)
  with n that show thesis by (auto simp: planner_search_def q split: prod.splits sum.splits)
qed

text \<open>The scores a search gathered form a dictionary.\<close>

lemma gathered_scores_ok: "gather pn tenant q namespaces strategies (Inr rs) = (Inr u, g) \<Longrightarrow> dict_ok (ga_scores g)"
  unfolding decisive_sel(3) [OF gather_Inr(1)] gathered_of_def
  by (rule gather_step_facts(4)) (simp add: start_gathering_def)

lemma search_hits:
  assumes "store_wf s" and "store_wf later"
    and "service_search pn en p q later s = (Inr receipt, t)"
  shows "t = s \<and> length (sc_hits receipt) \<le> sr_limit q
    \<and> distinct (map (\<lambda>h. mr_record_id (sh_record h)) (sc_hits receipt))
    \<and> sorted_wrt (\<lambda>a b. sh_score b \<le> sh_score a) (sc_hits receipt)
    \<and> (\<forall>h \<in> set (sc_hits receipt).
         admissible_hit (mp_tenant_id p) (effective_request en q) (sc_namespaces_authorized receipt) (sh_record h)
       \<and> may p A_READ (mr_namespace (sh_record h)) \<and> 0 \<le> sh_score h \<and> sh_score h \<le> 1
       \<and> (get_record (mr_record_id (sh_record h)) s = Some (sh_record h)
          \<or> get_record (mr_record_id (sh_record h)) later = Some (sh_record h)))"
proof -
  let ?q = "effective_request en q" and ?tn = "mp_tenant_id p"
  obtain nss g where n: "t = s" "\<forall>ns \<in> set nss. may p A_READ ns"
      "gather pn ?tn ?q nss (qc_strategies (classify (sr_query q))) (Inr (search_records ?tn ?q nss s)) = (Inr (), g)"
      "finish en pn ?tn ?q nss (Inr (search_records ?tn ?q nss s)) (\<lambda>rid. get_record rid later) g = Inr receipt"
    using assms(3) by (elim service_search_Inr) blast
  obtain hits where h:
      "receipt = search_receipt_of en pn ?q nss (classify (sr_query ?q)) g (take (sr_limit ?q) (sort_hits hits))"
      "\<And>h. h \<in> set hits \<Longrightarrow> unit_interval (sh_score h) \<and>
         ((sh_record h \<in> set (search_records ?tn ?q nss s) \<and> matches_tags (sh_record h) (sr_tags ?q))
          \<or> (admissible_hit ?tn ?q nss (sh_record h) \<and> (\<exists>rid. get_record rid later = Some (sh_record h))))"
      "distinct (map (\<lambda>h. mr_record_id (sh_record h)) hits)"
  proof (rule finish_Inr [OF n(4) gathered_scores_ok [OF n(3)]], goal_cases)
    case (1 hits)
    from 1(5) [OF search_records_distinct [OF assms(1)] get_record_id [OF assms(2)]]
    have "distinct (map (\<lambda>h. mr_record_id (sh_record h)) hits)" by blast
    with 1(2,4) show ?case by (intro 1(1)) blast+
  qed
  have lim: "sr_limit ?q = sr_limit q" by (simp add: effective_request_def)
  have r: "sc_hits receipt = take (sr_limit q) (sort_hits hits)" "sc_namespaces_authorized receipt = nss"
    by (simp_all add: h(1) search_receipt_of_def Let_def lim)
  have stored: "get_record (mr_record_id x) s = Some x" if "x \<in> set (dict_values (st_records s))" for x
  proof -
    have "keyed mr_record_id (st_records s)" using assms(1) by (simp add: store_wf_def store_keyed_def)
    with that show ?thesis unfolding get_record_def by (simp only: keyed_values)
  qed
  have adm: "admissible_hit ?tn ?q nss (sh_record x) \<and> unit_interval (sh_score x)
      \<and> (get_record (mr_record_id (sh_record x)) s = Some (sh_record x) \<or> get_record (mr_record_id (sh_record x)) later = Some (sh_record x))"
    if "x \<in> set hits" for x
  proof (cases "sh_record x \<in> set (search_records ?tn ?q nss s) \<and> matches_tags (sh_record x) (sr_tags ?q)")
    case True
    with admissible_filtered have "admissible_hit ?tn ?q nss (sh_record x)" "sh_record x \<in> set (dict_values (st_records s))"
      by blast+
    with stored h(2) [OF that] show ?thesis by blast
  next
    case False
    with h(2) [OF that] obtain rid where "get_record rid later = Some (sh_record x)"
        "admissible_hit ?tn ?q nss (sh_record x)" "unit_interval (sh_score x)" by blast
    moreover from this(1) get_record_id [OF assms(2)] have "mr_record_id (sh_record x) = rid" by blast
    ultimately show ?thesis by simp
  qed
  have "distinct (map (\<lambda>h. mr_record_id (sh_record h)) (sc_hits receipt))"
    unfolding r(1) take_map [symmetric] by (rule distinct_take) (simp add: h(3))
  moreover have "sorted_wrt (\<lambda>a b. sh_score b \<le> sh_score a) (sc_hits receipt)"
    unfolding r(1) by (rule sorted_wrt_take) simp
  moreover have "admissible_hit ?tn ?q nss (sh_record x) \<and> may p A_READ (mr_namespace (sh_record x))
      \<and> 0 \<le> sh_score x \<and> sh_score x \<le> 1
      \<and> (get_record (mr_record_id (sh_record x)) s = Some (sh_record x) \<or> get_record (mr_record_id (sh_record x)) later = Some (sh_record x))"
    if "x \<in> set (sc_hits receipt)" for x
  proof -
    have "x \<in> set hits" using that by (auto simp: r(1) dest: in_set_takeD)
    note a = adm [OF this]
    then have "mr_namespace (sh_record x) \<in> set nss" by (simp add: admissible_hit_def)
    with a n(2) show ?thesis by (simp add: unit_interval_def)
  qed
  moreover have "length (sc_hits receipt) \<le> sr_limit q" by (simp add: r(1))
  ultimately show ?thesis using n(1) r(2) by blast
qed

lemma admissible_effective:
  "admissible_hit tenant (effective_request en q) namespaces r \<Longrightarrow>
     mr_tenant_id r = tenant
   \<and> mr_state r \<in> {ACTIVE} \<union> (if sr_include_superseded q then {SUPERSEDED} else {}) \<union> (if sr_include_archived q then {ARCHIVED} else {})
   \<and> (sr_memory_classes q = [] \<or> mr_memory_class r \<in> set (sr_memory_classes q))
   \<and> set (sr_tags q) \<subseteq> set (mr_tags r) \<and> sr_min_confidence q \<le> cf_score (mr_confidence r)
   \<and> is_valid_at (mr_temporal r) (sr_valid_at q)
   \<and> recorded_at (mr_temporal r) \<le> (case sr_recorded_before q of Some b \<Rightarrow> b | None \<Rightarrow> env_now en)"
  by (cases "sr_recorded_before q")
    (auto simp: admissible_hit_def effective_request_def search_states_def matches_tags_def recorded_limit_def list_all_iff
      split: if_splits)

text \<open>
  Property C6: a search shows only what the caller may see, whatever the adapters answer.
  Every returned hit is a canonical record of the caller's tenant, in a namespace the
  caller may read, in a searchable state and within the requested classes, tags, confidence,
  valid time and transaction time, even when a projection named it and even when the store
  changed in between. Hits are distinct records, at most as many as requested, in
  descending score, with scores between 0 and 1; a search changes nothing.
\<close>

theorem search_shows_only_admissible:
  assumes "store_wf s" and "store_wf later"
    and "service_search pn en p q later s = (Inr receipt, t)"
  shows "t = s \<and> length (sc_hits receipt) \<le> sr_limit q
    \<and> distinct (map (\<lambda>h. mr_record_id (sh_record h)) (sc_hits receipt))
    \<and> sorted_wrt (\<lambda>a b. sh_score b \<le> sh_score a) (sc_hits receipt)
    \<and> (\<forall>h \<in> set (sc_hits receipt). let r = sh_record h in
         mr_tenant_id r = mp_tenant_id p \<and> may p A_READ (mr_namespace r)
       \<and> mr_state r \<in> {ACTIVE} \<union> (if sr_include_superseded q then {SUPERSEDED} else {}) \<union> (if sr_include_archived q then {ARCHIVED} else {})
       \<and> (sr_memory_classes q = [] \<or> mr_memory_class r \<in> set (sr_memory_classes q))
       \<and> set (sr_tags q) \<subseteq> set (mr_tags r) \<and> sr_min_confidence q \<le> cf_score (mr_confidence r)
       \<and> is_valid_at (mr_temporal r) (sr_valid_at q)
       \<and> recorded_at (mr_temporal r) \<le> (case sr_recorded_before q of Some b \<Rightarrow> b | None \<Rightarrow> env_now en)
       \<and> 0 \<le> sh_score h \<and> sh_score h \<le> 1
       \<and> (get_record (mr_record_id r) s = Some r \<or> get_record (mr_record_id r) later = Some r))"
  using search_hits [OF assms] unfolding Let_def by (blast dest: admissible_effective)

end
