(* ===== verification/HydrationLaws.thy ===== *)
theory HydrationLaws
  imports RetrievalLaws StoreLaws
begin

text \<open>
  More of search and hydration: what the status of a search reports, that measuring shadow
  targets changes nothing but the evidence, what a hydration spends, and two inputs on which
  they fail.
\<close>

section \<open>Status\<close>

lemma receipt_sel [simp]:
  "sc_status (search_receipt_of en pn q namespaces cl g hits) = search_status (pn_store_name pn) g"
  "sc_hits (search_receipt_of en pn q namespaces cl g hits) = hits"
  "sc_namespaces_authorized (search_receipt_of en pn q namespaces cl g hits) = namespaces"
  by (simp_all add: search_receipt_of_def Let_def)

text \<open>
  Property C7: a search never passes a failed provider off as an empty answer. The status is
  FAILED exactly when a required active target failed a strategy it was asked, and then no
  hit is returned; PARTIAL exactly when some other question failed; COMPLETE exactly when
  every active target answered every strategy it supports.
\<close>

theorem search_reports_failures:
  assumes "service_search pn en p q later s = (Inr receipt, t)" and "CHR '':'' \<notin> set (pn_store_name pn)"
  shows "sc_status receipt =
      (if \<exists>x \<in> set (asked pn (qc_strategies (classify (sr_query q)))).
            failed pn (mp_tenant_id p) q (sc_namespaces_authorized receipt) x \<and> tb_required (fst x) then O_FAILED
       else if \<exists>x \<in> set (asked pn (qc_strategies (classify (sr_query q)))).
            failed pn (mp_tenant_id p) q (sc_namespaces_authorized receipt) x then O_PARTIAL
       else O_COMPLETE)
    \<and> (sc_status receipt = O_FAILED \<longrightarrow> sc_hits receipt = [])"
proof -
  let ?q = "effective_request en q" and ?tn = "mp_tenant_id p"
  have q: "failed pn ?tn ?q nss x = failed pn ?tn q nss x" for nss x
    by (simp add: failed_def answer_def effective_request_def)
  obtain nss g where
      g: "gather pn ?tn ?q nss (qc_strategies (classify (sr_query q))) (Inr (search_records ?tn ?q nss s)) = (Inr (), g)"
    and f: "finish en pn ?tn ?q nss (Inr (search_records ?tn ?q nss s)) (\<lambda>rid. get_record rid later) g = Inr receipt"
    using assms(1) by (elim service_search_Inr) blast
  obtain hits where
      h: "receipt = search_receipt_of en pn ?q nss (classify (sr_query ?q)) g (take (sr_limit ?q) (sort_hits hits))"
        "search_status (pn_store_name pn) g = O_FAILED \<Longrightarrow> hits = []"
    by (rule finish_Inr [OF f gathered_scores_ok [OF g]]) blast
  have "sort_hits [] = []" by (simp add: sort_hits_def)
  with h(2) show ?thesis unfolding h(1) by (simp add: status_of_gathered [OF g assms(2)] q)
qed

section \<open>Shadow targets\<close>

definition without_evidence :: "search_receipt \<Rightarrow> search_receipt" where
  "without_evidence r = r\<lparr>sc_projection_evidence := []\<rparr>"

lemma finish_decisive:
  assumes "decisive g = decisive g'"
  shows "map_sum id without_evidence (finish en (pn\<lparr>pn_shadow_measurement := b\<rparr>) tenant q namespaces candidates lookup g)
       = map_sum id without_evidence (finish en pn tenant q namespaces candidates lookup g')"
  unfolding finish_def Let_def search_status_def search_receipt_of_def decisive_sel [OF assms] without_evidence_def
  by (auto split: sum.split)

lemma gather_shadow:
  assumes "\<forall>b \<in> set (shadow_targets (pn_projections pn)). tb_adapter b \<noteq> None"
  shows "\<exists>g'. gather (pn\<lparr>pn_shadow_measurement := True\<rparr>) tenant q namespaces strategies candidates
      = (fst (gather (pn\<lparr>pn_shadow_measurement := False\<rparr>) tenant q namespaces strategies candidates), g')
    \<and> decisive g' = decisive (snd (gather (pn\<lparr>pn_shadow_measurement := False\<rparr>) tenant q namespaces strategies candidates))"
  using assms
  by (auto simp: gather_def andThen_def ret_def Let_def ask_targets_ok shadow_fold_decisive split: prod.split sum.split)

text \<open>
  Property C8: a shadow target has no influence. With shadow measurement on, and whatever the
  shadow targets answer, a search returns what it returns with it off (the same error, or the
  same status, hits, scores and digest); only the recorded evidence differs.
\<close>

theorem shadow_never_influences:
  assumes "\<forall>b \<in> set (shadow_targets (pn_projections pn)). tb_adapter b \<noteq> None"
  shows "map_sum id without_evidence (planner_search en (pn\<lparr>pn_shadow_measurement := True\<rparr>) tenant q namespaces candidates lookup)
       = map_sum id without_evidence (planner_search en (pn\<lparr>pn_shadow_measurement := False\<rparr>) tenant q namespaces candidates lookup)"
proof -
  let ?on = "pn\<lparr>pn_shadow_measurement := True\<rparr>" and ?off = "pn\<lparr>pn_shadow_measurement := False\<rparr>"
  obtain r g where off: "gather ?off tenant q namespaces (qc_strategies (classify (sr_query q))) candidates = (r, g)"
    by fastforce
  with gather_shadow [OF assms, of tenant q namespaces "qc_strategies (classify (sr_query q))" candidates]
  obtain g' where on: "gather ?on tenant q namespaces (qc_strategies (classify (sr_query q))) candidates = (r, g')"
      "decisive g' = decisive g" by auto
  have "map_sum id without_evidence (finish en ?on tenant q namespaces candidates lookup g')
      = map_sum id without_evidence (finish en ?off tenant q namespaces candidates lookup g)"
    using finish_decisive [OF on(2), where en = en and pn = ?off and b = True] by simp
  then show ?thesis by (cases r) (simp_all add: planner_search_def on(1) off)
qed

section \<open>The token budget\<close>

text \<open>
  The reference: go through the hits in class order and, within a class, in descending score,
  and take each hit that fits into what is left.
\<close>

definition hit_tokens :: "search_hit \<Rightarrow> nat" where
  "hit_tokens h = estimate_tokens (strip (mr_content (sh_record h)))"

fun greedy :: "nat \<Rightarrow> search_hit list \<Rightarrow> search_hit list" where
  "greedy budget [] = []"
| "greedy budget (h # hs) =
     (if hit_tokens h \<le> budget then h # greedy (budget - hit_tokens h) hs else greedy budget hs)"

lemma greedy_fits: "sum_list (map hit_tokens (greedy budget hs)) \<le> budget"
proof (induction budget hs rule: greedy.induct)
  case (2 budget h hs)
  show ?case
  proof (cases "hit_tokens h \<le> budget")
    case True
    then have "hit_tokens h + sum_list (map hit_tokens (greedy (budget - hit_tokens h) hs)) \<le> hit_tokens h + (budget - hit_tokens h)"
      using 2(1) by simp
    with True show ?thesis by simp
  next
    case False
    with 2(2) show ?thesis by simp
  qed
qed simp

lemma set_greedy: "set (greedy budget hs) \<subseteq> set hs"
  by (induction budget hs rule: greedy.induct) auto

abbreviation hit_class :: "search_hit \<Rightarrow> memory_class" where
  "hit_class h \<equiv> mr_memory_class (sh_record h)"

definition part_of :: "search_hit \<Rightarrow> string \<times> search_hit" where
  "part_of h = (strip (mr_content (sh_record h)), h)"

lemma class_order_inj [simp]: "class_order a = class_order b \<longleftrightarrow> a = b"
  by (cases a; cases b) simp_all

text \<open>The groups formed so far, before the hits \<open>hs\<close> of the same or later classes.\<close>

definition grouping :: "grouped \<Rightarrow> search_hit list \<Rightarrow> bool" where
  "grouping groups hs \<longleftrightarrow>
     sorted_wrt (\<lambda>a b. class_order (fst a) < class_order (fst b)) groups
   \<and> (\<forall>g \<in> set groups. snd g \<noteq> [] \<and> (\<forall>x \<in> set (snd g). x = part_of (snd x) \<and> hit_class (snd x) = fst g)
        \<and> (\<forall>h \<in> set hs. class_order (fst g) \<le> class_order (hit_class h)))"

text \<open>Adding a hit of the last class or of a later one.\<close>

lemma grouping_add:
  assumes "grouping groups (h # hs)"
  defines "groups' \<equiv> dict_set (hit_class h) ((case dict_get groups (hit_class h) of Some xs \<Rightarrow> xs | None \<Rightarrow> []) @ [part_of h]) groups"
    and "ordered \<equiv> \<forall>k \<in> set hs. class_order (hit_class h) \<le> class_order (hit_class k)"
  shows "concat (map snd groups') = concat (map snd groups) @ [part_of h]"
    and "ordered \<Longrightarrow> grouping groups' hs"
proof -
  let ?c = "hit_class h"
  have ph: "snd (part_of h) = h" by (simp add: part_of_def)
  have "concat (map snd groups') = concat (map snd groups) @ [part_of h] \<and> (ordered \<longrightarrow> grouping groups' hs)"
  proof (cases "dict_get groups ?c")
    case None
    then have g: "groups' = groups @ [(?c, [part_of h])]" by (simp add: groups'_def dict_set_new)
    have "class_order (fst g) < class_order ?c" if "g \<in> set groups" for g
    proof -
      have "class_order (fst g) \<le> class_order ?c" using assms(1) that by (simp add: grouping_def)
      moreover have "fst g \<noteq> ?c" using None that by (metis image_eqI map_of_eq_None_iff)
      ultimately show ?thesis by (metis class_order_inj le_neq_implies_less)
    qed
    with g assms(1) ph show ?thesis by (auto simp: grouping_def ordered_def sorted_wrt_append)
  next
    case (Some xs)
    then obtain as bs where s: "groups = as @ (?c, xs) # bs" by (metis map_of_SomeD split_list)
    have "bs = []"
    proof (rule ccontr)
      assume "bs \<noteq> []"
      then obtain b where b: "b \<in> set bs" by (cases bs) auto
      with assms(1) s have "class_order ?c < class_order (fst b)" "class_order (fst b) \<le> class_order ?c"
        by (auto simp: grouping_def sorted_wrt_append)
      then show False by simp
    qed
    have "?c \<notin> fst ` set as"
      using assms(1) s by (force simp: grouping_def sorted_wrt_append)
    then have "dict_set ?c v (as @ [(?c, xs)]) = as @ [(?c, v)]" for v by (induction as) auto
    then have g: "groups' = as @ [(?c, xs @ [part_of h])]" using Some s \<open>bs = []\<close> by (simp add: groups'_def)
    with assms(1) s \<open>bs = []\<close> ph show ?thesis by (auto simp: grouping_def ordered_def sorted_wrt_append)
  qed
  then show "concat (map snd groups') = concat (map snd groups) @ [part_of h]"
    and "ordered \<Longrightarrow> grouping groups' hs" by blast+
qed

lemma fold_take_hit:
  assumes "grouping groups hs" and "sorted (map (class_order \<circ> hit_class) hs)"
    and "fold take_hit hs (groups, remaining, used) = (groups', remaining', used')"
  shows "grouping groups' [] \<and> concat (map snd groups') = concat (map snd groups) @ map part_of (greedy remaining hs)
    \<and> used' = used + sum_list (map hit_tokens (greedy remaining hs))"
  using assms
proof (induction hs arbitrary: groups remaining used)
  case Nil
  then show ?case by simp
next
  case (Cons h hs)
  from Cons.prems(1) have rest: "grouping groups hs" by (auto simp: grouping_def)
  show ?case
  proof (cases "hit_tokens h \<le> remaining")
    case False
    then have "take_hit h (groups, remaining, used) = (groups, remaining, used)"
      by (simp add: take_hit_def Let_def hit_tokens_def)
    with Cons.IH [OF rest] Cons.prems(2,3) False show ?thesis by simp
  next
    case True
    let ?g = "dict_set (hit_class h) ((case dict_get groups (hit_class h) of Some xs \<Rightarrow> xs | None \<Rightarrow> []) @ [part_of h]) groups"
    have t: "take_hit h (groups, remaining, used) = (?g, remaining - hit_tokens h, used + hit_tokens h)"
      using True by (simp add: take_hit_def Let_def hit_tokens_def part_of_def)
    have "grouping ?g hs"
      by (rule grouping_add(2) [OF Cons.prems(1)]) (use Cons.prems(2) in simp)
    from Cons.IH [OF this, of "remaining - hit_tokens h" "used + hit_tokens h"] Cons.prems(2,3) t grouping_add(1) [OF Cons.prems(1)] True
    show ?thesis by simp
  qed
qed

definition classes_in_order :: "memory_class list" where
  "classes_in_order =
     [CONSTRAINT, DECISION, PROCEDURAL, IDENTITY, PREFERENCE, META, SEMANTIC, INSIGHT, OBSERVATION, EPISODIC]"

definition class_section :: "search_hit list \<Rightarrow> memory_class \<Rightarrow> context_section" where
  "class_section taken c = section_of (c, map part_of (filter (\<lambda>h. hit_class h = c) taken))"

lemma filter_concat_groups:
  assumes "sorted_wrt (\<lambda>a b. class_order (fst a) < class_order (fst b)) groups"
    and "\<forall>g \<in> set groups. \<forall>x \<in> set (snd g). hit_class (snd x) = fst g" and "(c, xs) \<in> set groups"
  shows "filter (\<lambda>x. hit_class (snd x) = c) (concat (map snd groups)) = xs"
  using assms
proof (induction groups)
  case Nil
  then show ?case by simp
next
  case (Cons g gs)
  have none: "filter (\<lambda>x. hit_class (snd x) = c) (concat (map snd gs')) = []"
    if "\<forall>g' \<in> set gs'. fst g' \<noteq> c \<and> (\<forall>x \<in> set (snd g'). hit_class (snd x) = fst g')" for gs'
    using that by (induction gs') (auto simp: filter_empty_conv)
  show ?case
  proof (cases "g = (c, xs)")
    case True
    with Cons.prems have "\<forall>g' \<in> set gs. fst g' \<noteq> c \<and> (\<forall>x \<in> set (snd g'). hit_class (snd x) = fst g')" by auto
    from none [OF this] True Cons.prems(2) show ?thesis by (simp add: filter_id_conv)
  next
    case False
    with Cons.prems(3) have m: "(c, xs) \<in> set gs" by simp
    with Cons.prems(1) have "fst g \<noteq> c" by auto
    with Cons.prems(2) have "filter (\<lambda>x. hit_class (snd x) = c) (snd g) = []" by (auto simp: filter_empty_conv)
    with Cons.IH Cons.prems m show ?thesis by simp
  qed
qed

lemma strictly_ordered_unique:
  assumes "sorted_wrt (\<lambda>a b. class_order a < class_order b) xs" and "sorted_wrt (\<lambda>a b. class_order a < class_order b) ys"
    and "set xs = set ys"
  shows "xs = ys"
proof -
  have "sorted_wrt (<) (map class_order xs)" "sorted_wrt (<) (map class_order ys)"
    using assms(1,2) by (simp_all add: sorted_wrt_map)
  then have "map class_order xs = map class_order ys"
    using assms(3) by (intro sorted_distinct_set_unique) (simp_all only: strict_sorted_iff set_map)
  then show ?thesis by (rule map_injective) (simp add: inj_def)
qed

text \<open>
  Property C9: a hydration is the greedy choice under its budget. The sections of the result
  are exactly those of the reference: the hits taken greedily in class order and descending
  score, one section per class that has a taken hit, in class order, each with the whole
  contents of its hits. The tokens used are those of the hits taken, and within the budget.
\<close>

theorem hydration_is_greedy:
  "hd_sections (allocate en hash found task budget) =
     (let taken = greedy budget (sort_by_class (sc_hits found)) in
      map (class_section taken) (filter (\<lambda>c. c \<in> set (map hit_class taken)) classes_in_order))
   \<and> hd_tokens_used (allocate en hash found task budget) = sum_list (map hit_tokens (greedy budget (sort_by_class (sc_hits found))))
   \<and> hd_tokens_used (allocate en hash found task budget) \<le> budget
   \<and> set (greedy budget (sort_by_class (sc_hits found))) \<subseteq> set (sc_hits found)"
proof -
  let ?hs = "sort_by_class (sc_hits found)"
  let ?taken = "greedy budget ?hs"
  obtain groups remaining used where f: "fold take_hit ?hs ([], budget, 0) = (groups, remaining, used)"
    by (metis prod_cases3)
  have so: "sorted (map (class_order \<circ> hit_class) ?hs)" by (simp add: sort_by_class_def o_def)
  have "grouping [] ?hs" by (simp add: grouping_def)
  from fold_take_hit [OF this so f]
  have g: "grouping groups []" and c: "concat (map snd groups) = map part_of ?taken"
    and u: "used = sum_list (map hit_tokens ?taken)" by simp_all
  have sw: "sorted_wrt (\<lambda>a b. class_order (fst a) < class_order (fst b)) groups"
    and gr: "\<forall>g \<in> set groups. \<forall>x \<in> set (snd g). hit_class (snd x) = fst g"
    and ne: "\<forall>g \<in> set groups. snd g \<noteq> []"
    using g by (auto simp: grouping_def)
  have content: "snd g = map part_of (filter (\<lambda>h. hit_class h = fst g) ?taken)" if "g \<in> set groups" for g
  proof -
    have "filter (\<lambda>x. hit_class (snd x) = fst g) (concat (map snd groups)) = snd g"
      by (rule filter_concat_groups [OF sw gr]) (use that in simp)
    then show ?thesis unfolding c by (simp add: filter_map o_def part_of_def)
  qed
  have keys: "set (map fst groups) = hit_class ` set ?taken"
  proof -
    have "hit_class ` set ?taken = (\<lambda>x. hit_class (snd x)) ` set (concat (map snd groups))"
      unfolding c by (force simp: part_of_def)
    also have "\<dots> = set (map fst groups)" using gr ne by (force simp: neq_Nil_conv)
    finally show ?thesis ..
  qed
  have "map fst groups = filter (\<lambda>c. c \<in> set (map hit_class ?taken)) classes_in_order"
  proof (rule strictly_ordered_unique)
    show "sorted_wrt (\<lambda>a b. class_order a < class_order b) (map fst groups)" using sw by (simp add: sorted_wrt_map)
    show "sorted_wrt (\<lambda>a b. class_order a < class_order b) (filter (\<lambda>c. c \<in> set (map hit_class ?taken)) classes_in_order)"
      by (rule sorted_wrt_filter) (simp add: classes_in_order_def)
    have "c \<in> set classes_in_order" for c by (cases c) (simp_all add: classes_in_order_def)
    then show "set (map fst groups) = set (filter (\<lambda>c. c \<in> set (map hit_class ?taken)) classes_in_order)"
      using keys by auto
  qed
  moreover have "map section_of groups = map (class_section ?taken) (map fst groups)"
    using content by (auto simp: class_section_def)
  moreover have "sorted_wrt (<) (map (\<lambda>g. class_order (fst g)) groups)"
    using sw by (simp add: sorted_wrt_map)
  then have "sort_key (\<lambda>g. class_order (fst g)) groups = groups"
    by (intro sort_key_id_if_sorted strict_sorted_imp_sorted)
  then have "hd_sections (allocate en hash found task budget) = map section_of groups"
    "hd_tokens_used (allocate en hash found task budget) = used"
    by (simp_all add: allocate_def Let_def f)
  moreover have "set ?hs = set (sc_hits found)" by (simp add: sort_by_class_def)
  ultimately show ?thesis
    using u greedy_fits [of budget ?hs] set_greedy [of budget ?hs] unfolding Let_def by (simp only: conj_assoc simp_thms)
qed

section \<open>Two inputs that fail\<close>

lemma length_join_str: "length x \<le> length (join_str sep (x # xs))"
  by (cases xs) simp_all

text \<open>
  A valid hydration request can be refused. A task of more than 4000 and at most
  8000 characters is within the bounds of the hydration request, but its search request
  cannot be built, so \<open>hydrate\<close> fails whatever the caller may read and whatever is stored.
\<close>

theorem hydrate_refuses_long_task:
  assumes "hydration_request_ok q" and "4000 < length (hq_task q)"
  shows "hydrate pn en p q later s = (Inl (ValueError ''validation error for MemorySearchRequest''), s)"
proof -
  have "hq_task q \<noteq> []" using assms(2) by auto
  then have "4000 < length (join_str '' '' (filter (\<lambda>part. part \<noteq> []) (hq_task q # hq_entities q @ hq_topics q)))"
    using assms(2) length_join_str [of "hq_task q" "'' ''"] by (simp add: less_le_trans)
  then show ?thesis
    by (simp add: hydrate_def hydration_search_def make_search_request_def len_ok_def andThen_def from_sum_def)
qed

lemma score_records_fails:
  "r \<in> set rs \<Longrightarrow> importance_score p r = Inl e \<Longrightarrow> \<exists>e. score_records p q pattern scores now rs = Inl e"
  by (induction rs) (auto simp: factors_def Let_def split: sum.splits)

text \<open>
  Property C37: one record can break a search. If a record the search considers carries the
  metadata \<open>importance\<close> as an integer beyond the doubles, the search raises an error for
  every caller, unless a required provider failed and the search was given up before.
\<close>

theorem oversized_importance_breaks_search:
  assumes "authorized_search_namespaces en p (sr_namespaces q) s = (Inr namespaces, s)"
    and "r \<in> set (search_records (mp_tenant_id p) (effective_request en q) namespaces s)" and "matches_tags r (sr_tags q)"
    and "dict_get (mr_metadata r) ''importance'' = Some (JInt i)" and "2 ^ 1024 \<le> \<bar>i\<bar>"
    and "\<forall>x \<in> set (asked pn (qc_strategies (classify (sr_query q)))).
           \<not> (failed pn (mp_tenant_id p) q namespaces x \<and> tb_required (fst x))"
    and "CHR '':'' \<notin> set (pn_store_name pn)"
  shows "\<exists>e. service_search pn en p q later s = (Inl e, s)"
proof -
  let ?q = "effective_request en q" and ?tn = "mp_tenant_id p"
  let ?rs = "search_records ?tn ?q namespaces s"
  have q: "failed pn ?tn ?q nss x = failed pn ?tn q nss x" "sr_query ?q = sr_query q" "sr_tags ?q = sr_tags q" for nss x
    by (simp_all add: failed_def answer_def effective_request_def)
  obtain e where imp: "importance_score (pn_ranking pn) r = Inl e"
  proof -
    have "(2::int) ^ 1024 - 2 ^ 970 \<le> \<bar>i\<bar>" using assms(5) by simp
    with assms(4) that show thesis by (simp add: importance_score_def float_of_int_def Let_def)
  qed
  obtain v g where g: "gather pn ?tn ?q namespaces (qc_strategies (classify (sr_query q))) (Inr ?rs) = (v, g)" by fastforce
  have "\<exists>e. planner_search en pn ?tn ?q namespaces (Inr ?rs) (\<lambda>rid. get_record rid later) = Inl e"
  proof (cases v)
    case (Inl e)
    with g show ?thesis by (simp add: planner_search_def q)
  next
    case (Inr u)
    from status_of_gathered [OF g [unfolded Inr] assms(7)] assms(6)
    have st: "search_status (pn_store_name pn) g \<noteq> O_FAILED" by (auto simp: q)
    define records where "records = (if ga_scores g \<noteq> [] \<and> \<not> dict_has (ga_stores_failed g) (pn_store_name pn)
      then hydrate_projection_hits ?tn ?q namespaces (\<lambda>rid. get_record rid later) (filter (\<lambda>r. matches_tags r (sr_tags q)) ?rs) (ga_scores g)
      else filter (\<lambda>r. matches_tags r (sr_tags q)) ?rs)"
    have "r \<in> set records" using assms(2,3) by (simp add: records_def hydrate_projection_hits_def)
    from score_records_fails [OF this imp] obtain e' where
      "score_records (pn_ranking pn) ?q (qc_pattern (classify (sr_query q))) (ga_scores g) (env_now en) records = Inl e'" by blast
    with st show ?thesis
      by (simp add: planner_search_def g Inr q finish_def Let_def records_def)
  qed
  with assms(1) show ?thesis by (auto simp: service_search_def andThen_def gets_def from_sum_def)
qed

end
