(* ===== verification/RetrievalSamples.thy ===== *)
theory RetrievalSamples
  imports HydrationLaws
begin

text \<open>Concrete searches: a tagged record is found, a broken one stops the search.\<close>

definition smp_quiet :: target_binding where
  "smp_quiet = legacy_binding \<lparr>ad_name = ''quiet'', ad_capabilities = [], ad_retirement_mode = RM_NATIVE, ad_rendered = False,
     ad_scope_scheme = None\<rparr> False"

definition smp_planner :: planner where
  "smp_planner =
     \<lparr>pn_store_name = ''in-memory'',
      pn_projections = \<lparr>rt_mode = Legacy, rt_compiled = None, rt_targets = [smp_quiet, smp_quiet\<lparr>tb_mode := T_SHADOW\<rparr>],
        rt_legacy_adapter = None\<rparr>,
      pn_ranking = default_ranking_policy (\<lambda>_. None), pn_shadow_measurement = False, pn_hash = smp_hash,
      pn_isoformat = (\<lambda>_. ''2026-01-01T00:00:00+00:00''), pn_ask = (\<lambda>_ _ _ _ _ _. Inr [])\<rparr>"

definition smp_tagged :: memory_record where
  "smp_tagged = (smp_record 1 ACTIVE)\<lparr>mr_tags := [''note'']\<rparr>"

definition smp_broken :: memory_record where
  "smp_broken = smp_tagged\<lparr>mr_metadata := [(''importance'', JInt (2 ^ 1024))]\<rparr>"

definition store_with :: "memory_record \<Rightarrow> store" where
  "store_with r = empty_store\<lparr>st_records := [(1, r)], st_idempotency := [((''t'', ''ns'', uuid_str 1), 1)]\<rparr>"

definition smp_tag_search :: memory_search_request where
  "smp_tag_search = smp_search\<lparr>sr_tags := [''note'']\<rparr>"

lemma smp_targets:
  "active_targets (pn_projections smp_planner) = [smp_quiet]" "shadow_targets (pn_projections smp_planner) = [smp_quiet\<lparr>tb_mode := T_SHADOW\<rparr>]"
  "tb_adapter smp_quiet \<noteq> None" "supports smp_quiet x = False"
  by (simp_all add: smp_planner_def smp_quiet_def active_targets_def shadow_targets_def legacy_binding_def supports_def)

lemma smp_not_asked: "asked smp_planner strategies = []"
  by (simp add: asked_def smp_targets filter_empty_conv)

lemma smp_gather:
  "gather smp_planner tn q nss strategies candidates = (Inr (), start_gathering ''in-memory'' strategies candidates)"
proof -
  have "fold (\<lambda>strategy g. if supports smp_quiet strategy then f strategy g else g) xs g = g" for f xs g
    by (induction xs) (simp_all add: smp_targets)
  with ask_targets_ok [of "[smp_quiet]"] show ?thesis
    by (simp add: gather_def Let_def andThen_def smp_targets ret_def) (simp add: smp_planner_def)
qed

lemma smp_namespaces: "authorized_search_namespaces smp_env smp_principal [''ns''] s = (Inr [''ns''], s)"
proof -
  have "may smp_principal A_READ ''ns''"
    by (simp add: may_def patterns_for_def smp_principal_def fnmatch_literal)
  then show ?thesis by (simp add: authorized_search_namespaces_def andThen_Inr authorize_all_Inr dedup_id)
qed

lemma smp_found:
  assumes "r \<in> {smp_tagged, smp_broken}"
  shows "search_records ''t'' (effective_request smp_env smp_tag_search) [''ns''] (store_with r) = [r]"
    and "matches_tags r (sr_tags smp_tag_search)"
proof -
  have "search_matches ''t'' (effective_request smp_env smp_tag_search) [''ns''] r"
    using assms by (auto simp: search_matches_def smp_tag_search_def smp_search_def effective_request_def smp_env_def
        search_states_def is_valid_at_def smp_confidence_def smp_tagged_def smp_broken_def)
  then show "search_records ''t'' (effective_request smp_env smp_tag_search) [''ns''] (store_with r) = [r]"
    by (simp add: search_records_def store_with_def by_recency_def sort_desc_def effective_request_def smp_tag_search_def smp_search_def)
  show "matches_tags r (sr_tags smp_tag_search)"
    using assms by (auto simp: matches_tags_def smp_tag_search_def smp_tagged_def smp_broken_def)
qed

lemma smp_tagged_sel [simp]:
  "mr_metadata smp_tagged = []" "mr_confidence smp_tagged = smp_confidence" "mr_memory_class smp_tagged = SEMANTIC"
  "pv_source_trust (mr_provenance smp_tagged) = 1"
  by (simp_all add: smp_tagged_def smp_record_def provenance_default_def)

lemma smp_factors: "\<exists>f. factors (pn_ranking smp_planner) query smp_tagged 0 pattern now = Inr f"
proof -
  have hl: "0 < half_life_days (rk_retention_policy (pn_ranking smp_planner)) (mr_memory_class smp_tagged)"
    by (simp add: smp_planner_def default_ranking_policy_def default_retention_policy_def half_life_days_def)
  have zero: "unit_interval 0" by (simp add: unit_interval_def)
  have c: "unit_interval (cf_score smp_confidence)" "unit_interval 1" "unit_interval (class_importance SEMANTIC)"
    by (simp_all add: smp_confidence_def unit_interval_def)
  show ?thesis
    using relevance_unit [OF lexical_unit zero, of query smp_tagged pattern] recency_unit [OF hl, of now]
      lexical_unit [of query smp_tagged] zero c
    by (simp add: factors_def Let_def importance_score_def make_score_factors_def)
qed

lemma smp_tag_run:
  "\<exists>receipt h. service_search smp_planner smp_env smp_principal smp_tag_search later (store_with smp_tagged)
      = (Inr receipt, store_with smp_tagged) \<and> sc_hits receipt = [h] \<and> sh_record h = smp_tagged"
proof -
  let ?q = "effective_request smp_env smp_tag_search"
  obtain f where f: "factors (pn_ranking smp_planner) (sr_query ?q) smp_tagged 0 (qc_pattern (classify (sr_query ?q))) (env_now smp_env) = Inr f"
    using smp_factors by blast
  have q: "sr_namespaces smp_tag_search = [''ns'']" "sr_tags ?q = [''note'']" "sr_limit ?q = 5"
    by (simp_all add: effective_request_def smp_tag_search_def smp_search_def)
  have m: "matches_tags smp_tagged [''note'']" using smp_found(2) [of smp_tagged] by (simp add: smp_tag_search_def)
  have st: "search_status (pn_store_name smp_planner) (start_gathering ''in-memory'' strategies (Inr rs)) = O_COMPLETE" for strategies rs
    by (simp add: search_status_def start_gathering_def dict_has_def)
  have sc: "ga_scores (start_gathering ''in-memory'' strategies (Inr rs)) = []" for strategies rs
    by (simp add: start_gathering_def)
  let ?h = "\<lparr>sh_record = smp_tagged, sh_score = total (pn_ranking smp_planner) f, sh_factors = f,
      sh_matched_by = matched_by f [''note''] (qc_pattern (classify (sr_query ?q)))\<rparr>"
  have hits: "score_records (pn_ranking smp_planner) ?q (qc_pattern (classify (sr_query ?q))) [] (env_now smp_env) [smp_tagged] = Inr [?h]"
    using f by (simp add: q)
  have s: "sort_hits [?h] = [?h]" by (simp add: sort_hits_def)
  have "planner_search smp_env smp_planner ''t'' ?q [''ns''] (Inr [smp_tagged]) lookup
      = Inr (search_receipt_of smp_env smp_planner ?q [''ns''] (classify (sr_query ?q))
          (start_gathering ''in-memory'' (qc_strategies (classify (sr_query ?q))) (Inr [smp_tagged])) [?h])" for lookup
    by (simp add: planner_search_def smp_gather finish_def Let_def sc st) (simp add: f q m s)
  moreover have "mp_tenant_id smp_principal = ''t''" by (simp add: smp_principal_def)
  ultimately show ?thesis
    using smp_namespaces [of "store_with smp_tagged"] smp_found(1) [of smp_tagged]
    by (simp add: service_search_def andThen_def gets_def from_sum_def q)
qed

lemma store_with_wf:
  assumes "r \<in> {smp_tagged, smp_broken}"
  shows "store_wf (store_with r)"
proof -
  have r: "mr_record_id r = 1" "operation_key r = (''t'', ''ns'', uuid_str 1)"
    using assms by (auto simp: smp_tagged_def smp_broken_def operation_key_def)
  have g: "get_record rid (store_with r) = (if rid = 1 then Some r else None)" for rid
    by (auto simp: get_record_def store_with_def)
  have "store_keyed (store_with r)" by (simp add: store_keyed_def store_with_def empty_store_def keyed_def dict_ok_def r)
  moreover have "identity_index (store_with r)"
    by (auto simp: identity_index_def g r) (auto simp: store_with_def split: if_splits)
  moreover have "evidence_ok (store_with r)" by (simp add: evidence_ok_def) (simp add: store_with_def empty_store_def)
  ultimately show ?thesis by (simp add: store_wf_def)
qed

theorem search_shows_only_admissible_witness:
  "\<exists>receipt h. service_search smp_planner smp_env smp_principal smp_tag_search empty_store (store_with smp_tagged)
      = (Inr receipt, store_with smp_tagged) \<and> sc_hits receipt = [h]
    \<and> mr_state (sh_record h) = ACTIVE \<and> may smp_principal A_READ (mr_namespace (sh_record h)) \<and> sh_score h \<le> 1"
proof -
  obtain receipt h where r: "service_search smp_planner smp_env smp_principal smp_tag_search empty_store (store_with smp_tagged)
      = (Inr receipt, store_with smp_tagged)" "sc_hits receipt = [h]" "sh_record h = smp_tagged"
    using smp_tag_run by blast
  have "store_wf (store_with smp_tagged)" "store_wf empty_store" by (simp_all add: store_with_wf)
  from search_shows_only_admissible [OF this r(1), unfolded Let_def] r show ?thesis by (auto simp: smp_tagged_def)
qed

theorem search_reports_failures_witness:
  "\<exists>receipt h. service_search smp_planner smp_env smp_principal smp_tag_search empty_store (store_with smp_tagged)
      = (Inr receipt, store_with smp_tagged) \<and> sc_hits receipt = [h] \<and> sc_status receipt = O_COMPLETE"
proof -
  obtain receipt h where r: "service_search smp_planner smp_env smp_principal smp_tag_search empty_store (store_with smp_tagged)
      = (Inr receipt, store_with smp_tagged)" "sc_hits receipt = [h]"
    using smp_tag_run by blast
  have "CHR '':'' \<notin> set (pn_store_name smp_planner)" by (simp add: smp_planner_def)
  from search_reports_failures [OF r(1) this] r show ?thesis by (simp add: smp_not_asked)
qed

theorem shadow_never_influences_witness:
  "map_sum id without_evidence (planner_search smp_env (smp_planner\<lparr>pn_shadow_measurement := True\<rparr>) ''t'' smp_tag_search [''ns'']
      (Inr [smp_tagged]) (\<lambda>_. None))
   = map_sum id without_evidence (planner_search smp_env (smp_planner\<lparr>pn_shadow_measurement := False\<rparr>) ''t'' smp_tag_search [''ns'']
      (Inr [smp_tagged]) (\<lambda>_. None))
   \<and> length (shadow_targets (pn_projections smp_planner)) = 1"
proof -
  have "\<forall>b \<in> set (shadow_targets (pn_projections smp_planner)). tb_adapter b \<noteq> None" by (simp add: smp_targets)
  from shadow_never_influences [OF this] show ?thesis by (simp add: smp_targets)
qed

theorem hydrate_refuses_long_task_witness:
  "hydrate smp_planner smp_env smp_principal
     \<lparr>hq_task = replicate 5000 (CHR ''x''), hq_namespaces = [''ns''], hq_entities = [], hq_topics = [], hq_memory_classes = [],
      hq_valid_at = 10, hq_token_budget = 1200, hq_max_records = 40, hq_tags = []\<rparr> empty_store empty_store
     = (Inl (ValueError ''validation error for MemorySearchRequest''), empty_store)"
  by (rule hydrate_refuses_long_task) (simp_all add: hydration_request_ok_def len_ok_def)

theorem oversized_importance_breaks_search_witness:
  "\<exists>e. service_search smp_planner smp_env smp_principal smp_tag_search empty_store (store_with smp_broken)
      = (Inl e, store_with smp_broken)"
proof (rule oversized_importance_breaks_search [where r = smp_broken and i = "2 ^ 1024" and namespaces = "[''ns'']"])
  show "authorized_search_namespaces smp_env smp_principal (sr_namespaces smp_tag_search) (store_with smp_broken)
      = (Inr [''ns''], store_with smp_broken)"
    by (simp add: smp_tag_search_def smp_search_def smp_namespaces)
  show "smp_broken \<in> set (search_records (mp_tenant_id smp_principal) (effective_request smp_env smp_tag_search) [''ns''] (store_with smp_broken))"
    using smp_found(1) [of smp_broken] by (simp add: smp_principal_def)
  show "matches_tags smp_broken (sr_tags smp_tag_search)" by (rule smp_found(2)) simp
  show "dict_get (mr_metadata smp_broken) ''importance'' = Some (JInt (2 ^ 1024))" by (simp add: smp_broken_def)
qed (simp_all add: smp_not_asked, simp add: smp_planner_def)

end
