(* ===== verification/Sqlite.thy ===== *)
theory Sqlite
  imports Store
begin

text \<open>
  \<open>SQLiteRecordStore\<close>, \<open>adapters/sqlite_store.py\<close>, over a model of its tables. A table is a
  dictionary from its primary key to its rows in the order they were inserted; a row is a
  record of its columns, of which the last is the stored document. A column of JSON text, of
  ISO-8601 text or of an identifier holds the value it encodes: the encodings lose nothing, and
  the texts of UTC instants order as the instants do. A failed constraint raises
  \<open>IntegrityError\<close> with SQLite's message. SQL leaves open in which order rows come that an
  \<open>ORDER BY\<close> does not separate: \<open>engine\<close> is the order in which they are scanned.

  Not modelled: failures of the database itself (a locked or damaged file), and the upgrade of
  phase-lock and outbox tables older than schema 7.
\<close>

section \<open>Tables\<close>

record record_row =
  rw_record_id :: uuid
  rw_schema_version :: string
  rw_tenant_id :: string
  rw_namespace :: string
  rw_memory_class :: memory_class
  rw_content :: string
  rw_assertion_json :: "memory_assertion option"
  rw_valid_from :: instant
  rw_valid_to :: "instant option"
  rw_recorded_at :: instant
  rw_source_observed_at :: "instant option"
  rw_superseded_at :: "instant option"
  rw_provenance_json :: provenance
  rw_evidence_json :: "evidence_ref list"
  rw_confidence_json :: confidence
  rw_confidence_score :: real
  rw_state :: memory_state
  rw_tags_json :: "string list"
  rw_metadata_json :: "(string, json) dict"
  rw_normalized_digest :: digest
  rw_original_digest :: digest
  rw_idempotency_key :: string
  rw_supersedes_json :: "uuid list"
  rw_references_json :: "uuid list"
  rw_conflicts_with_json :: "uuid list"
  rw_created_by :: string
  rw_created_at :: instant
  rw_record_json :: memory_record

definition record_values :: "memory_record \<Rightarrow> record_row" where
  "record_values r =
     \<lparr>rw_record_id = mr_record_id r, rw_schema_version = mr_schema_version r, rw_tenant_id = mr_tenant_id r,
      rw_namespace = mr_namespace r, rw_memory_class = mr_memory_class r, rw_content = mr_content r,
      rw_assertion_json = mr_assertion r, rw_valid_from = valid_from (mr_temporal r),
      rw_valid_to = valid_to (mr_temporal r), rw_recorded_at = recorded_at (mr_temporal r),
      rw_source_observed_at = source_observed_at (mr_temporal r), rw_superseded_at = superseded_at (mr_temporal r),
      rw_provenance_json = mr_provenance r, rw_evidence_json = mr_evidence r, rw_confidence_json = mr_confidence r,
      rw_confidence_score = cf_score (mr_confidence r), rw_state = mr_state r, rw_tags_json = mr_tags r,
      rw_metadata_json = mr_metadata r, rw_normalized_digest = mr_normalized_digest r,
      rw_original_digest = mr_original_digest r, rw_idempotency_key = mr_idempotency_key r,
      rw_supersedes_json = mr_supersedes r, rw_references_json = mr_references r,
      rw_conflicts_with_json = mr_conflicts_with r, rw_created_by = mr_created_by r,
      rw_created_at = mr_created_at r, rw_record_json = r\<rparr>"

record status_event_row =
  vw_event_id :: uuid
  vw_record_id :: uuid
  vw_previous_state :: "memory_state option"
  vw_new_state :: memory_state
  vw_reason :: string
  vw_actor :: string
  vw_occurred_at :: instant
  vw_receipt_id :: "uuid option"
  vw_event_json :: memory_status_event

definition status_event_values :: "memory_status_event \<Rightarrow> status_event_row" where
  "status_event_values e =
     \<lparr>vw_event_id = se_event_id e, vw_record_id = se_record_id e, vw_previous_state = se_previous_state e,
      vw_new_state = se_new_state e, vw_reason = se_reason e, vw_actor = se_actor e,
      vw_occurred_at = se_occurred_at e, vw_receipt_id = se_receipt_id e, vw_event_json = e\<rparr>"

text \<open>The document of a receipt, of one of the kinds the table \<open>operation_receipts\<close> holds.\<close>

datatype receipt_document =
    WriteDoc write_receipt
  | ArchiveDoc archive_receipt
  | DeletionDoc deletion_receipt
  | LifecycleDoc lifecycle_receipt
  | ConflictLinkDoc conflict_link_receipt
  | RetirementDoc retirement_receipt
  | RebuildDoc rebuild_receipt
  | LegacyReleaseDoc legacy_release_receipt
  | CutoverDoc cutover_receipt

datatype receipt_status =
    OfWrite write_status
  | OfOperation operation_status
  | OfDeletion deletion_status
  | OfRetirement retirement_mode
  | IsApplied

record receipt_row =
  cw_receipt_id :: uuid
  cw_kind :: string
  cw_aggregate_id :: "string option"
  cw_status :: receipt_status
  cw_created_at :: instant
  cw_receipt_json :: receipt_document

record outbox_row =
  ow_event_id :: uuid
  ow_event_type :: string
  ow_aggregate_id :: uuid
  ow_namespace :: string
  ow_status :: outbox_status
  ow_attempts :: nat
  ow_next_attempt_at :: instant
  ow_last_error :: "string option"
  ow_created_at :: instant
  ow_delivered_at :: "instant option"
  ow_lease_id :: "uuid option"
  ow_lease_owner :: "string option"
  ow_lease_expires_at :: "instant option"
  ow_event_json :: outbox_event

definition outbox_values :: "outbox_event \<Rightarrow> outbox_row" where
  "outbox_values e =
     \<lparr>ow_event_id = ob_event_id e, ow_event_type = ob_event_type e, ow_aggregate_id = ob_aggregate_id e,
      ow_namespace = ob_namespace e, ow_status = ob_status e, ow_attempts = ob_attempts e,
      ow_next_attempt_at = ob_next_attempt_at e, ow_last_error = ob_last_error e, ow_created_at = ob_created_at e,
      ow_delivered_at = ob_delivered_at e, ow_lease_id = ob_lease_id e, ow_lease_owner = ob_lease_owner e,
      ow_lease_expires_at = ob_lease_expires_at e, ow_event_json = e\<rparr>"

record lock_row =
  kw_lock_id :: uuid
  kw_tenant_id :: string
  kw_namespace :: string
  kw_task_signature :: string
  kw_granted :: bool
  kw_expires_at :: instant
  kw_created_at :: instant
  kw_receipt_json :: phase_lock_receipt

record link_row =
  lw_record_id :: uuid
  lw_target_identity :: string
  lw_projection_name :: string
  lw_provider_type :: string
  lw_namespace :: string
  lw_locator :: string
  lw_created_at :: instant
  lw_link_json :: projection_link

text \<open>A row of the table of links before schema 8, keyed by record and projection name.\<close>

record legacy_link_row =
  gw_record_id :: uuid
  gw_projection_name :: string
  gw_namespace :: string
  gw_locator :: string
  gw_created_at :: instant
  gw_link_json :: projection_link

record invalidation_row =
  iw_tenant_id :: string
  iw_event_id :: string
  iw_request_digest :: digest
  iw_event_type :: string
  iw_repository :: "string option"
  iw_matched :: nat
  iw_transitioned :: nat
  iw_created_at :: instant
  iw_event_json :: invalidation_event

record requirement_row =
  qw_requirement_id :: uuid
  qw_tenant_id :: string
  qw_namespace :: string
  qw_record_id :: uuid
  qw_invalidation_event_id :: string
  qw_status :: string
  qw_created_at :: instant
  qw_requirement_json :: revalidation_requirement

record run_row =
  mw_run_id :: uuid
  mw_tenant_id :: string
  mw_namespace :: string
  mw_status :: operation_status
  mw_applied :: bool
  mw_watermark :: instant
  mw_started_at :: instant
  mw_completed_at :: "instant option"
  mw_receipt_json :: maintenance_run

record action_row =
  aw_action_digest :: digest
  aw_run_id :: uuid
  aw_tenant_id :: string
  aw_namespace :: string
  aw_operation :: maintenance_operation
  aw_applied :: bool
  aw_created_at :: instant

record sqlite_db =
  db_records :: "(uuid, record_row) dict"
  db_status_events :: "(uuid, status_event_row) dict"
  db_receipts :: "(uuid, receipt_row) dict"
  db_outbox :: "(uuid, outbox_row) dict"
  db_phase_locks :: "(string \<times> string \<times> string, lock_row) dict"
  db_links :: "(uuid \<times> string, link_row) dict"
  db_legacy_links :: "(uuid \<times> string, legacy_link_row) dict option"
  db_selectors :: "(string, source_selector) dict"
  db_invalidations :: "(string \<times> string, invalidation_row) dict"
  db_requirements :: "(uuid, requirement_row) dict"
  db_runs :: "(uuid, run_row) dict"
  db_actions :: "(string \<times> string \<times> digest, action_row) dict"
  db_versions :: "nat list"
  db_initialized :: bool

type_synonym 'a db_op = "(sqlite_db, error, 'a) op"

definition empty_db :: sqlite_db where
  "empty_db =
     \<lparr>db_records = [], db_status_events = [], db_receipts = [], db_outbox = [], db_phase_locks = [], db_links = [],
      db_legacy_links = None, db_selectors = [], db_invalidations = [], db_requirements = [], db_runs = [],
      db_actions = [], db_versions = [], db_initialized = False\<rparr>"

text \<open>How the engine scans the rows a query selects, before it sorts them.\<close>

record engine =
  en_records :: "record_row list \<Rightarrow> record_row list"
  en_outbox :: "outbox_row list \<Rightarrow> outbox_row list"

definition engine_ok :: "engine \<Rightarrow> bool" where
  "engine_ok en \<longleftrightarrow> (\<forall>xs. mset (en_records en xs) = mset xs) \<and> (\<forall>xs. mset (en_outbox en xs) = mset xs)"

section \<open>Statements\<close>

text \<open>\<open>INSERT INTO\<close> a table: its primary key must be new.\<close>

definition insert_row ::
  "(sqlite_db \<Rightarrow> ('k, 'v) dict) \<Rightarrow> ((('k, 'v) dict \<Rightarrow> ('k, 'v) dict) \<Rightarrow> sqlite_db \<Rightarrow> sqlite_db) \<Rightarrow> string \<Rightarrow> 'k \<Rightarrow> 'v \<Rightarrow> unit db_op" where
  "insert_row table update column k row =
     andThen (gets (\<lambda>d. dict_has (table d) k)) (\<lambda>taken.
     andThen (check (\<not> taken) (IntegrityError (''UNIQUE constraint failed: '' @ column))) (\<lambda>_.
       modify (update (dict_set k row))))"

definition row_key :: "record_row \<Rightarrow> string \<times> string \<times> string" where
  "row_key row = (rw_tenant_id row, rw_namespace row, rw_idempotency_key row)"

definition IDENTITY_COLUMNS :: string where
  "IDENTITY_COLUMNS = ''memory_records.tenant_id, memory_records.namespace, memory_records.idempotency_key''"

definition db_insert_record :: "memory_record \<Rightarrow> unit db_op" where
  "db_insert_record r =
     andThen (gets (\<lambda>d. (dict_has (db_records d) (mr_record_id r), row_key ` set (dict_values (db_records d))))) (\<lambda>(taken, keys).
     andThen (check (\<not> taken) (IntegrityError ''UNIQUE constraint failed: memory_records.record_id'')) (\<lambda>_.
     andThen (check (row_key (record_values r) \<notin> keys) (IntegrityError (''UNIQUE constraint failed: '' @ IDENTITY_COLUMNS))) (\<lambda>_.
       modify (db_records_update (dict_set (mr_record_id r) (record_values r))))))"

text \<open>\<open>INSERT OR IGNORE\<close>.\<close>

definition db_insert_selector :: "source_selector \<Rightarrow> unit db_op" where
  "db_insert_selector x =
     modify (db_selectors_update (\<lambda>t. if dict_has t (ss_selector_id x) then t else dict_set (ss_selector_id x) x t))"

definition insert_receipt_row :: "uuid \<Rightarrow> string \<Rightarrow> string option \<Rightarrow> receipt_status \<Rightarrow> instant \<Rightarrow> receipt_document \<Rightarrow> unit db_op" where
  "insert_receipt_row rid kind aggregate status created_at doc =
     insert_row db_receipts db_receipts_update ''operation_receipts.receipt_id'' rid
       \<lparr>cw_receipt_id = rid, cw_kind = kind, cw_aggregate_id = aggregate, cw_status = status, cw_created_at = created_at,
        cw_receipt_json = doc\<rparr>"

definition insert_receipt :: "write_receipt \<Rightarrow> unit db_op" where
  "insert_receipt r =
     insert_receipt_row (wrc_receipt_id r) ''write'' (map_option uuid_str (wrc_record_id r)) (OfWrite (wrc_status r))
       (wrc_created_at r) (WriteDoc r)"

definition insert_archive_receipt :: "archive_receipt \<Rightarrow> unit db_op" where
  "insert_archive_receipt r =
     insert_receipt_row (arc_receipt_id r) ''archive'' (Some (arc_namespace r)) (OfOperation (arc_status r))
       (arc_created_at r) (ArchiveDoc r)"

definition insert_deletion_receipt :: "deletion_receipt \<Rightarrow> unit db_op" where
  "insert_deletion_receipt r =
     insert_receipt_row (dr_receipt_id r) ''deletion'' (Some (uuid_str (dr_record_id r))) (OfDeletion (dr_status r))
       (dr_created_at r) (DeletionDoc r)"

definition insert_lifecycle_receipt :: "lifecycle_receipt \<Rightarrow> unit db_op" where
  "insert_lifecycle_receipt r =
     insert_receipt_row (lr_receipt_id r) ''lifecycle'' (Some (lr_namespace r)) (OfOperation (lr_status r))
       (lr_created_at r) (LifecycleDoc r)"

text \<open>The document after a status event; JSON is edited in place, without validation.\<close>

definition insert_status_event :: "memory_status_event \<Rightarrow> unit db_op" where
  "insert_status_event e =
     andThen (gets (\<lambda>d. dict_get (db_records d) (se_record_id e))) (\<lambda>found.
       case found of
         None \<Rightarrow> throw (StoreError ''status transition target not found'')
       | Some row \<Rightarrow>
           if se_previous_state e \<noteq> None \<and> se_previous_state e \<noteq> Some (mr_state (rw_record_json row))
           then throw (StoreError ''status transition expected another state'')
           else
             let payload = transitioned e (rw_record_json row) in
             andThen (modify (db_records_update (dict_set (se_record_id e)
               (row\<lparr>rw_state := se_new_state e, rw_superseded_at := superseded_at (mr_temporal payload),
                    rw_record_json := payload\<rparr>)))) (\<lambda>_.
               insert_row db_status_events db_status_events_update ''memory_status_events.event_id'' (se_event_id e)
                 (status_event_values e)))"

definition insert_outbox :: "outbox_event \<Rightarrow> unit db_op" where
  "insert_outbox e = insert_row db_outbox db_outbox_update ''outbox_events.event_id'' (ob_event_id e) (outbox_values e)"

text \<open>\<open>schema_registry.read_record(json.loads(record_json))\<close> on a document of the current schema.\<close>

definition row_to_record :: "record_row \<Rightarrow> error + memory_record" where
  "row_to_record row =
     (case validate_coordinates (mr_temporal (rw_record_json row)) of
        Inl e \<Rightarrow> Inl e
      | Inr _ \<Rightarrow> make_memory_record (rw_record_json row))"

fun read_rows :: "record_row list \<Rightarrow> error + memory_record list" where
  "read_rows [] = Inr []"
| "read_rows (row # rows) =
     (case row_to_record row of
        Inl e \<Rightarrow> Inl e
      | Inr r \<Rightarrow> (case read_rows rows of Inl e \<Rightarrow> Inl e | Inr rs \<Rightarrow> Inr (r # rs)))"

definition row_to_link :: "link_row \<Rightarrow> projection_link" where
  "row_to_link row =
     (lw_link_json row)\<lparr>pk_target_identity := lw_target_identity row, pk_provider_type := lw_provider_type row\<rparr>"

text \<open>What the handlers of \<open>sqlite3.IntegrityError\<close> raise.\<close>

fun store_error :: "string \<Rightarrow> error \<Rightarrow> error" where
  "store_error what (IntegrityError c) = StoreError what"
| "store_error what e = e"

fun write_error :: "error \<Rightarrow> error" where
  "write_error (IntegrityError c) =
     (if is_infix ''idempotency_key'' c
      then IdempotencyConflict ''operation identity already committed by a concurrent write''
      else StoreError ''atomic memory write violated store constraints'')"
| "write_error e = e"

end
