(* ===== verification/SqliteStore.thy ===== *)
theory SqliteStore
  imports Sqlite
begin

text \<open>
  The methods of \<open>SQLiteRecordStore\<close>. A method that writes is one transaction; \<open>transaction\<close>
  undoes everything when an exception leaves it, and \<open>reraise\<close> is the handler around it.
\<close>

section \<open>Opening a database\<close>

definition migrated_link :: "legacy_link_row \<Rightarrow> link_row" where
  "migrated_link row =
     \<lparr>lw_record_id = gw_record_id row, lw_target_identity = gw_projection_name row,
      lw_projection_name = gw_projection_name row, lw_provider_type = LEGACY_PROVIDER_TYPE,
      lw_namespace = gw_namespace row, lw_locator = gw_locator row, lw_created_at = gw_created_at row,
      lw_link_json = gw_link_json row\<rparr>"

text \<open>
  \<open>INSERT INTO projection_links_v8 ... SELECT\<close>; the count of copied rows is checked before the
  old table is dropped.
\<close>

definition migrate_projection_links_to_targets :: "unit db_op" where
  "migrate_projection_links_to_targets =
     andThen (gets db_legacy_links) (\<lambda>legacy.
       case legacy of
         None \<Rightarrow> ret ()
       | Some rows \<Rightarrow>
           andThen (check (length (map_values migrated_link rows) = length rows)
             (StoreError ''projection link migration aborted'')) (\<lambda>_.
             modify (\<lambda>d. d\<lparr>db_links := map_values migrated_link rows, db_legacy_links := None\<rparr>)))"

definition SCHEMA_VERSION :: nat where
  "SCHEMA_VERSION = 9"

definition backfilled_selectors :: "(json \<Rightarrow> digest) \<Rightarrow> instant \<Rightarrow> memory_record \<Rightarrow> source_selector list" where
  "backfilled_selectors hash now r =
     map (\<lambda>x. x\<lparr>ss_active := (mr_state r = ACTIVE), ss_deactivated_at := (if mr_state r = ACTIVE then None else Some now)\<rparr>)
       (source_selectors_for_record hash r)"

definition backfill_row :: "(json \<Rightarrow> digest) \<Rightarrow> instant \<Rightarrow> record_row \<Rightarrow> unit db_op" where
  "backfill_row hash now row =
     andThen (from_sum (row_to_record row)) (\<lambda>r. for_each db_insert_selector (backfilled_selectors hash now r))"

definition backfill_source_selectors :: "(json \<Rightarrow> digest) \<Rightarrow> instant \<Rightarrow> unit db_op" where
  "backfill_source_selectors hash now =
     andThen (gets (\<lambda>d. SCHEMA_VERSION \<in> set (db_versions d))) (\<lambda>recorded.
       if recorded then ret ()
       else
         andThen (gets (\<lambda>d. filter (\<lambda>row. rw_state row \<notin> {DELETED, DELETION_PENDING}) (dict_values (db_records d)))) (\<lambda>rows.
         for_each (backfill_row hash now) rows))"

definition sqlite_initialize :: "(json \<Rightarrow> digest) \<Rightarrow> instant \<Rightarrow> unit db_op" where
  "sqlite_initialize hash now =
     andThen (transaction (
       andThen migrate_projection_links_to_targets (\<lambda>_.
       andThen (backfill_source_selectors hash now) (\<lambda>_.
         modify (db_versions_update (\<lambda>vs. if SCHEMA_VERSION \<in> set vs then vs else vs @ [SCHEMA_VERSION])))))) (\<lambda>_.
     modify (db_initialized_update (\<lambda>_. True)))"

definition sqlite_close :: "unit db_op" where
  "sqlite_close = modify (db_initialized_update (\<lambda>_. False))"

definition sqlite_health :: "string \<Rightarrow> sqlite_db \<Rightarrow> (string, json) dict" where
  "sqlite_health path d =
     [(''name'', JStr ''sqlite''), (''healthy'', JBool (db_initialized d)), (''path'', JStr path),
      (''records'', JInt (int (length (db_records d)))), (''schema_version'', JInt (int SCHEMA_VERSION))]"

section \<open>Committing a write\<close>

definition db_require_phase_lock_snapshot :: "(json \<Rightarrow> digest) \<Rightarrow> engine \<Rightarrow> phase_lock_precondition \<Rightarrow> unit db_op" where
  "db_require_phase_lock_snapshot hash en p =
     andThen (gets (\<lambda>d. read_rows (en_records en (filter (\<lambda>row. rw_tenant_id row = pp_tenant_id p
         \<and> rw_namespace row = pp_namespace p \<and> rw_state row = ACTIVE) (dict_values (db_records d)))))) (\<lambda>rows.
     andThen (from_sum rows) (\<lambda>records.
       check (snapshot_digest hash records = pp_expected_snapshot_digest p)
         (PhaseLockSnapshotConflict ''namespace changed after phase-lock verification'')))"

definition sqlite_commit_write ::
  "(json \<Rightarrow> digest) \<Rightarrow> engine \<Rightarrow> capability \<Rightarrow> memory_record option \<Rightarrow> write_receipt \<Rightarrow> outbox_event list
     \<Rightarrow> memory_status_event list \<Rightarrow> phase_lock_precondition option \<Rightarrow> unit db_op" where
  "sqlite_commit_write hash en cap record receipt outbox_events status_events expected =
     andThen (require_service_write_capability cap) (\<lambda>_.
     reraise write_error (transaction (
       andThen (case expected of None \<Rightarrow> ret () | Some p \<Rightarrow> db_require_phase_lock_snapshot hash en p) (\<lambda>_.
       andThen (case record of
                  None \<Rightarrow> ret ()
                | Some r \<Rightarrow> andThen (db_insert_record r) (\<lambda>_. for_each db_insert_selector (source_selectors_for_record hash r))) (\<lambda>_.
       andThen (insert_receipt receipt) (\<lambda>_.
       andThen (for_each insert_status_event status_events) (\<lambda>_.
         for_each insert_outbox outbox_events)))))))"

section \<open>Reads\<close>

definition sqlite_get_record :: "uuid \<Rightarrow> sqlite_db \<Rightarrow> error + memory_record option" where
  "sqlite_get_record rid d =
     (case dict_get (db_records d) rid of None \<Rightarrow> Inr None | Some row \<Rightarrow> map_sum id Some (row_to_record row))"

definition sqlite_find_by_idempotency :: "string \<Rightarrow> string \<Rightarrow> string \<Rightarrow> sqlite_db \<Rightarrow> error + memory_record option" where
  "sqlite_find_by_idempotency tenant ns key d =
     (case filter (\<lambda>row. row_key row = (tenant, ns, key)) (dict_values (db_records d)) of
        [] \<Rightarrow> Inr None
      | row # _ \<Rightarrow> map_sum id Some (row_to_record row))"

definition search_row :: "string \<Rightarrow> memory_search_request \<Rightarrow> string list \<Rightarrow> record_row \<Rightarrow> bool" where
  "search_row tenant q namespaces row \<longleftrightarrow>
     rw_tenant_id row = tenant \<and> rw_namespace row \<in> set namespaces \<and> rw_state row \<in> set (search_states q)
   \<and> sr_min_confidence q \<le> rw_confidence_score row \<and> rw_valid_from row \<le> sr_valid_at q
   \<and> (case rw_valid_to row of None \<Rightarrow> True | Some t \<Rightarrow> sr_valid_at q < t)
   \<and> rw_recorded_at row \<le> (case sr_recorded_before q of Some t \<Rightarrow> t | None \<Rightarrow> sr_valid_at q)
   \<and> (sr_memory_classes q = [] \<or> rw_memory_class row \<in> set (sr_memory_classes q))"

definition sqlite_search_records ::
  "engine \<Rightarrow> string \<Rightarrow> memory_search_request \<Rightarrow> string list \<Rightarrow> sqlite_db \<Rightarrow> error + memory_record list" where
  "sqlite_search_records en tenant q namespaces d =
     (if namespaces = [] then Inr []
      else read_rows (take (sr_limit q * 20) (sort_desc rw_recorded_at
        (en_records en (filter (search_row tenant q namespaces) (dict_values (db_records d)))))))"

definition limited :: "nat option \<Rightarrow> 'a list \<Rightarrow> 'a list" where
  "limited limit xs = (case limit of None \<Rightarrow> xs | Some n \<Rightarrow> take n xs)"

definition sqlite_list_records ::
  "engine \<Rightarrow> string \<Rightarrow> string \<Rightarrow> memory_state list \<Rightarrow> nat option \<Rightarrow> sqlite_db \<Rightarrow> error + memory_record list" where
  "sqlite_list_records en tenant ns states limit d =
     read_rows (limited limit (sort_desc rw_recorded_at (en_records en
       (filter (\<lambda>row. rw_tenant_id row = tenant \<and> rw_namespace row = ns \<and> (states = [] \<or> rw_state row \<in> set states))
         (dict_values (db_records d))))))"

definition sqlite_list_expired :: "engine \<Rightarrow> string \<Rightarrow> string \<Rightarrow> instant \<Rightarrow> sqlite_db \<Rightarrow> error + memory_record list" where
  "sqlite_list_expired en tenant ns before d =
     read_rows (sort_key (\<lambda>row. case rw_valid_to row of Some t \<Rightarrow> t | None \<Rightarrow> 0) (en_records en
       (filter (\<lambda>row. rw_tenant_id row = tenant \<and> rw_namespace row = ns \<and> rw_state row = ACTIVE
          \<and> (case rw_valid_to row of None \<Rightarrow> False | Some t \<Rightarrow> t \<le> before)) (dict_values (db_records d)))))"

definition sqlite_list_unprojected_records ::
  "engine \<Rightarrow> string \<Rightarrow> string \<Rightarrow> string \<Rightarrow> nat \<Rightarrow> sqlite_db \<Rightarrow> error + memory_record list" where
  "sqlite_list_unprojected_records en tenant ns target limit d =
     read_rows (take limit (sort_key rw_recorded_at (en_records en
       (filter (\<lambda>row. rw_tenant_id row = tenant \<and> rw_namespace row = ns \<and> rw_state row = ACTIVE
          \<and> \<not> dict_has (db_links d) (rw_record_id row, target)) (dict_values (db_records d))))))"

definition sqlite_find_source_selector_matches ::
  "string \<Rightarrow> string option \<Rightarrow> string \<Rightarrow> string \<Rightarrow> sqlite_db \<Rightarrow> uuid list" where
  "sqlite_find_source_selector_matches tenant repository stype svalue d =
     sort_key uuid_str (remdups (map ss_record_id (filter (\<lambda>x.
       ss_selector_type x = stype \<and> ss_selector_value x = svalue \<and> ss_active x
     \<and> (case repository of None \<Rightarrow> True | Some repo \<Rightarrow> ss_repository x = repo)
     \<and> (case dict_get (db_records d) (ss_record_id x) of
          None \<Rightarrow> False
        | Some row \<Rightarrow> rw_tenant_id row = tenant \<and> rw_state row = ACTIVE)) (dict_values (db_selectors d)))))"

definition sqlite_list_source_selectors :: "uuid \<Rightarrow> sqlite_db \<Rightarrow> source_selector list" where
  "sqlite_list_source_selectors rid d =
     sort_key ss_selector_id (filter (\<lambda>x. ss_record_id x = rid) (dict_values (db_selectors d)))"

definition sqlite_get_source_invalidation :: "string \<Rightarrow> string \<Rightarrow> sqlite_db \<Rightarrow> invalidation_event option" where
  "sqlite_get_source_invalidation tenant eid d = map_option iw_event_json (dict_get (db_invalidations d) (tenant, eid))"

definition sqlite_list_revalidation_requirements :: "uuid \<Rightarrow> sqlite_db \<Rightarrow> revalidation_requirement list" where
  "sqlite_list_revalidation_requirements rid d =
     map qw_requirement_json (sort_key (\<lambda>row. (qw_created_at row, uuid_str (qw_requirement_id row)))
       (filter (\<lambda>row. qw_record_id row = rid) (dict_values (db_requirements d))))"

section \<open>Lifecycle and invalidation\<close>

definition sqlite_transition_state :: "capability \<Rightarrow> memory_status_event \<Rightarrow> unit db_op" where
  "sqlite_transition_state cap e =
     andThen (require_service_write_capability cap) (\<lambda>_.
       reraise (store_error ''lifecycle transition failed'') (transaction (insert_status_event e)))"

definition sqlite_commit_lifecycle ::
  "capability \<Rightarrow> lifecycle_receipt \<Rightarrow> memory_status_event list \<Rightarrow> outbox_event list \<Rightarrow> unit db_op" where
  "sqlite_commit_lifecycle cap receipt status_events outbox_events =
     andThen (require_service_write_capability cap) (\<lambda>_.
     andThen (check (set (map se_record_id status_events) = set (map lt_record_id (lr_transitions receipt)))
       (StoreError ''lifecycle receipt and status events target different records'')) (\<lambda>_.
     reraise (store_error ''atomic lifecycle transition violated store constraints'') (transaction (
       andThen (insert_lifecycle_receipt receipt) (\<lambda>_.
       andThen (for_each insert_status_event status_events) (\<lambda>_.
         for_each insert_outbox outbox_events))))))"

definition insert_requirement :: "revalidation_requirement \<Rightarrow> unit db_op" where
  "insert_requirement q =
     andThen (insert_row db_requirements db_requirements_update ''revalidation_requirements.requirement_id'' (rq_requirement_id q)
       \<lparr>qw_requirement_id = rq_requirement_id q, qw_tenant_id = rq_tenant_id q, qw_namespace = rq_namespace q,
        qw_record_id = rq_record_id q, qw_invalidation_event_id = rq_invalidation_event_id q, qw_status = ''open'',
        qw_created_at = rq_created_at q, qw_requirement_json = q\<rparr>) (\<lambda>_.
     andThen (gets (\<lambda>d. dict_has (db_records d) (rq_record_id q))) (\<lambda>known.
       check known (IntegrityError ''FOREIGN KEY constraint failed'')))"

definition deactivate_selectors_of :: "instant \<Rightarrow> uuid \<Rightarrow> unit db_op" where
  "deactivate_selectors_of t rid =
     modify (db_selectors_update (map_values (\<lambda>x. if ss_record_id x = rid \<and> ss_active x
       then x\<lparr>ss_active := False, ss_deactivated_at := Some t\<rparr> else x)))"

definition insert_invalidation :: "invalidation_event \<Rightarrow> unit db_op" where
  "insert_invalidation ev =
     insert_row db_invalidations db_invalidations_update
       ''source_invalidation_events.tenant_id, source_invalidation_events.event_id'' (ie_tenant_id ev, ie_event_id ev)
       \<lparr>iw_tenant_id = ie_tenant_id ev, iw_event_id = ie_event_id ev, iw_request_digest = ie_request_digest ev,
        iw_event_type = ie_event_type ev, iw_repository = ie_repository ev, iw_matched = ie_matched ev,
        iw_transitioned = ie_transitioned ev, iw_created_at = ie_created_at ev, iw_event_json = ev\<rparr>"

fun invalidation_error :: "error \<Rightarrow> error" where
  "invalidation_error (IntegrityError c) =
     (if is_infix ''source_invalidation_events'' c then IdempotencyConflict ''source invalidation already committed''
      else StoreError ''atomic source invalidation violated store constraints'')"
| "invalidation_error e = e"

definition sqlite_commit_source_invalidation ::
  "capability \<Rightarrow> invalidation_event \<Rightarrow> lifecycle_receipt list \<Rightarrow> memory_status_event list
     \<Rightarrow> outbox_event list \<Rightarrow> revalidation_requirement list \<Rightarrow> unit db_op" where
  "sqlite_commit_source_invalidation cap event receipts status_events outbox_events requirements =
     andThen (require_service_write_capability cap) (\<lambda>_.
     andThen (check (set (map se_record_id status_events) = receipts_targets receipts)
       (StoreError ''invalidation receipts and status events target different records'')) (\<lambda>_.
     reraise invalidation_error (transaction (
       andThen (gets (\<lambda>d. dict_has (db_invalidations d) (ie_tenant_id event, ie_event_id event))) (\<lambda>known.
       andThen (check (\<not> known) (IdempotencyConflict ''source invalidation already committed'')) (\<lambda>_.
       andThen (insert_invalidation event) (\<lambda>_.
       andThen (for_each insert_lifecycle_receipt receipts) (\<lambda>_.
       andThen (for_each insert_status_event status_events) (\<lambda>_.
       andThen (for_each insert_outbox outbox_events) (\<lambda>_.
       andThen (for_each insert_requirement requirements) (\<lambda>_.
         for_each (deactivate_selectors_of (ie_created_at event))
           (sort_key uuid_str (remdups (concat (map (\<lambda>r. map lt_record_id (lr_transitions r)) receipts)))))))))))))))"

definition db_add_conflict_link :: "uuid \<Rightarrow> uuid \<Rightarrow> unit db_op" where
  "db_add_conflict_link rid other =
     andThen (gets (\<lambda>d. dict_get (db_records d) rid)) (\<lambda>found.
       case found of
         None \<Rightarrow> throw (StoreError ''conflict link target not found'')
       | Some row \<Rightarrow>
           let links = mr_conflicts_with (rw_record_json row) in
           if other \<in> set links then ret ()
           else modify (db_records_update (dict_set rid
             (row\<lparr>rw_conflicts_with_json := links @ [other],
                  rw_record_json := (rw_record_json row)\<lparr>mr_conflicts_with := links @ [other]\<rparr>\<rparr>))))"

definition sqlite_commit_conflict_links :: "capability \<Rightarrow> conflict_link_receipt \<Rightarrow> unit db_op" where
  "sqlite_commit_conflict_links cap receipt =
     andThen (require_service_write_capability cap) (\<lambda>_.
     reraise (store_error ''atomic conflict link violated store constraints'') (transaction (
       andThen (insert_receipt_row (clk_receipt_id receipt) ''conflict_link'' (Some (clk_namespace receipt))
         (OfOperation (clk_status receipt)) (clk_created_at receipt) (ConflictLinkDoc receipt)) (\<lambda>_.
       for_each (\<lambda>l. andThen (db_add_conflict_link (ci_left_record_id l) (ci_right_record_id l))
                       (\<lambda>_. db_add_conflict_link (ci_right_record_id l) (ci_left_record_id l))) (clk_links receipt)))))"

definition sqlite_commit_archive ::
  "capability \<Rightarrow> archive_receipt \<Rightarrow> memory_status_event list \<Rightarrow> outbox_event list \<Rightarrow> unit db_op" where
  "sqlite_commit_archive cap receipt status_events outbox_events =
     andThen (require_service_write_capability cap) (\<lambda>_.
     andThen (check (arc_applied receipt) (StoreError ''cannot persist a non-applied archive receipt'')) (\<lambda>_.
     andThen (check (set (map se_record_id status_events) = set (arc_archived_record_ids receipt))
       (StoreError ''archive receipt and status events target different records'')) (\<lambda>_.
     reraise (store_error ''atomic archive violated store constraints'') (transaction (
       andThen (insert_archive_receipt receipt) (\<lambda>_.
       andThen (for_each insert_status_event status_events) (\<lambda>_.
         for_each insert_outbox outbox_events)))))))"

section \<open>Phase locks and the outbox\<close>

text \<open>\<open>ON CONFLICT(tenant_id, namespace, task_signature) DO UPDATE\<close>; another lock's identifier is refused.\<close>

definition sqlite_save_phase_lock :: "capability \<Rightarrow> phase_lock_receipt \<Rightarrow> unit db_op" where
  "sqlite_save_phase_lock cap l =
     (let k = (pl_tenant_id l, pl_namespace l, pl_task_signature l) in
      andThen (require_service_write_capability cap) (\<lambda>_.
      transaction (
        andThen (gets (\<lambda>d. pl_lock_id l \<in> kw_lock_id ` set (dict_values (filter (\<lambda>(j, _). j \<noteq> k) (db_phase_locks d))))) (\<lambda>taken.
        andThen (check (\<not> taken) (IntegrityError ''UNIQUE constraint failed: phase_locks.lock_id'')) (\<lambda>_.
          modify (db_phase_locks_update (dict_set k
            \<lparr>kw_lock_id = pl_lock_id l, kw_tenant_id = pl_tenant_id l, kw_namespace = pl_namespace l,
             kw_task_signature = pl_task_signature l, kw_granted = pl_granted l, kw_expires_at = pl_expires_at l,
             kw_created_at = pl_created_at l, kw_receipt_json = l\<rparr>)))))))"

definition sqlite_get_phase_lock :: "string \<Rightarrow> string \<Rightarrow> string \<Rightarrow> sqlite_db \<Rightarrow> phase_lock_receipt option" where
  "sqlite_get_phase_lock tenant ns task d = map_option kw_receipt_json (dict_get (db_phase_locks d) (tenant, ns, task))"

definition claimable_row :: "instant \<Rightarrow> outbox_row \<Rightarrow> bool" where
  "claimable_row now row \<longleftrightarrow>
     ow_status row \<in> {X_PENDING, X_RETRY} \<and> ow_next_attempt_at row \<le> now
   \<or> ow_status row = X_PROCESSING \<and> (case ow_lease_expires_at row of None \<Rightarrow> True | Some t \<Rightarrow> t \<le> now)"

definition due_rows :: "engine \<Rightarrow> nat \<Rightarrow> instant \<Rightarrow> sqlite_db \<Rightarrow> outbox_row list" where
  "due_rows en limit now d =
     take limit (sort_key ow_created_at (en_outbox en (filter (claimable_row now) (dict_values (db_outbox d)))))"

definition lease_row :: "instant \<Rightarrow> nat \<Rightarrow> string \<Rightarrow> uuid \<Rightarrow> outbox_row \<Rightarrow> outbox_row" where
  "lease_row now lease_seconds owner lease row =
     row\<lparr>ow_status := X_PROCESSING, ow_lease_id := Some lease, ow_lease_owner := Some owner,
         ow_lease_expires_at := Some (now + seconds lease_seconds),
         ow_event_json := lease_event now lease_seconds owner lease (ow_event_json row)\<rparr>"

definition sqlite_claim_outbox ::
  "engine \<Rightarrow> (nat \<Rightarrow> uuid) \<Rightarrow> nat \<Rightarrow> instant \<Rightarrow> nat \<Rightarrow> string \<Rightarrow> outbox_event list db_op" where
  "sqlite_claim_outbox en leases limit now lease_seconds owner =
     transaction (
       andThen (gets (due_rows en limit now)) (\<lambda>rows.
       let leased = map (\<lambda>(i, row). lease_row now lease_seconds owner (leases i) row) (enumerate 0 rows) in
       andThen (for_each (\<lambda>row. modify (db_outbox_update (dict_set (ow_event_id row) row))) leased) (\<lambda>_.
         ret (map ow_event_json leased))))"

definition settle_row ::
  "outbox_status \<Rightarrow> nat \<Rightarrow> instant \<Rightarrow> string option \<Rightarrow> instant option \<Rightarrow> outbox_row \<Rightarrow> outbox_row" where
  "settle_row status attempts next_attempt_at last_error delivered_at row =
     row\<lparr>ow_status := status, ow_attempts := attempts, ow_next_attempt_at := next_attempt_at,
         ow_last_error := last_error, ow_delivered_at := delivered_at, ow_lease_id := None, ow_lease_owner := None,
         ow_lease_expires_at := None,
         ow_event_json := settled_event status attempts next_attempt_at last_error delivered_at (ow_event_json row)\<rparr>"

definition sqlite_update_outbox ::
  "uuid \<Rightarrow> outbox_status \<Rightarrow> nat \<Rightarrow> instant \<Rightarrow> string option \<Rightarrow> instant option \<Rightarrow> uuid option \<Rightarrow> unit db_op" where
  "sqlite_update_outbox eid status attempts next_attempt_at last_error delivered_at lease =
     transaction (
       andThen (gets (\<lambda>d. dict_get (db_outbox d) eid)) (\<lambda>found.
         case found of
           None \<Rightarrow> throw (StoreError ''outbox event not found'')
         | Some row \<Rightarrow>
             andThen (check (lease = None \<or> ob_lease_id (ow_event_json row) = lease)
               (StoreError ''outbox lease is no longer held; another worker owns this event'')) (\<lambda>_.
             modify (db_outbox_update (dict_set eid
               (settle_row status attempts next_attempt_at last_error delivered_at row))))))"

definition sqlite_outbox_backlog :: "sqlite_db \<Rightarrow> nat" where
  "sqlite_outbox_backlog d =
     length (filter (\<lambda>row. ow_status row \<notin> {X_DELIVERED, X_DEAD}) (dict_values (db_outbox d)))"

section \<open>Projection links\<close>

definition link_values :: "projection_link \<Rightarrow> link_row" where
  "link_values l =
     \<lparr>lw_record_id = pk_record_id l, lw_target_identity = pk_target_identity l, lw_projection_name = pk_projection_name l,
      lw_provider_type = pk_provider_type l, lw_namespace = pk_namespace l, lw_locator = pk_locator l,
      lw_created_at = pk_created_at l, lw_link_json = l\<rparr>"

definition upsert_projection_link :: "projection_link \<Rightarrow> unit db_op" where
  "upsert_projection_link l =
     andThen (modify (db_links_update (dict_set (link_key l) (link_values l)))) (\<lambda>_.
     andThen (gets (\<lambda>d. dict_has (db_records d) (pk_record_id l))) (\<lambda>known.
       check known (IntegrityError ''FOREIGN KEY constraint failed'')))"

definition sqlite_save_projection_link :: "projection_link \<Rightarrow> unit db_op" where
  "sqlite_save_projection_link l =
     reraise (store_error ''projection link persistence failed'') (transaction (upsert_projection_link l))"

definition sqlite_get_projection_link :: "uuid \<Rightarrow> string \<Rightarrow> sqlite_db \<Rightarrow> projection_link option" where
  "sqlite_get_projection_link rid target d = map_option row_to_link (dict_get (db_links d) (rid, target))"

definition sqlite_save_projection_link_if_active ::
  "projection_link \<Rightarrow> projection_link option \<Rightarrow> bool db_op" where
  "sqlite_save_projection_link_if_active l expected_previous =
     reraise (store_error ''projection link persistence failed'') (transaction (
       andThen (gets (\<lambda>d. dict_get (db_records d) (pk_record_id l))) (\<lambda>found.
         case found of
           None \<Rightarrow> ret False
         | Some row \<Rightarrow>
             andThen (from_sum (row_to_record row)) (\<lambda>record.
             if mr_state record \<noteq> ACTIVE then ret False
             else
               andThen (gets (sqlite_get_projection_link (pk_record_id l) (pk_target_identity l))) (\<lambda>current.
               andThen (check (current = expected_previous)
                 (ProjectionLinkConflict ''projection link changed since it was read'')) (\<lambda>_.
               andThen (upsert_projection_link l) (\<lambda>_. ret True)))))))"

definition sqlite_list_projection_links :: "uuid \<Rightarrow> sqlite_db \<Rightarrow> projection_link list" where
  "sqlite_list_projection_links rid d =
     map row_to_link (sort_key lw_target_identity (filter (\<lambda>row. lw_record_id row = rid) (dict_values (db_links d))))"

definition sqlite_list_projection_target_identities :: "sqlite_db \<Rightarrow> string list" where
  "sqlite_list_projection_target_identities d =
     (let linked = map lw_target_identity (dict_values (db_links d));
          queued = concat (map (\<lambda>row.
             if ow_status row \<in> {X_DELIVERED, X_DEAD} then []
             else (case get_str (ob_payload (ow_event_json row)) ''target_identity'' of
                     Some t \<Rightarrow> if strip t \<noteq> [] then [strip t] else []
                   | None \<Rightarrow> [])) (dict_values (db_outbox d)))
      in sort (remdups (linked @ queued)))"

definition sqlite_delete_projection_link :: "uuid \<Rightarrow> string \<Rightarrow> unit db_op" where
  "sqlite_delete_projection_link rid target =
     reraise (store_error ''projection link deletion failed'')
       (transaction (modify (db_links_update (dict_pop (rid, target)))))"

section \<open>Maintenance runs, retirements, rebuilds, cutovers\<close>

definition insert_action :: "maintenance_run \<Rightarrow> maintenance_action \<Rightarrow> unit db_op" where
  "insert_action r a =
     (let k = (mrun_tenant_id r, mrun_namespace r, ma_action_digest a) in
      modify (db_actions_update (\<lambda>t. if dict_has t k then t else dict_set k
        \<lparr>aw_action_digest = ma_action_digest a, aw_run_id = mrun_run_id r, aw_tenant_id = mrun_tenant_id r,
         aw_namespace = mrun_namespace r, aw_operation = ma_operation a, aw_applied = True,
         aw_created_at = mrun_started_at r\<rparr> t)))"

definition run_values :: "maintenance_run \<Rightarrow> run_row" where
  "run_values r =
     \<lparr>mw_run_id = mrun_run_id r, mw_tenant_id = mrun_tenant_id r, mw_namespace = mrun_namespace r,
      mw_status = mrun_status r, mw_applied = mrun_applied r, mw_watermark = mrun_watermark r,
      mw_started_at = mrun_started_at r, mw_completed_at = mrun_completed_at r, mw_receipt_json = r\<rparr>"

definition sqlite_save_maintenance_run :: "maintenance_run \<Rightarrow> unit db_op" where
  "sqlite_save_maintenance_run r =
     reraise (store_error ''maintenance run persistence failed'') (transaction (
       andThen (insert_row db_runs db_runs_update ''maintenance_runs.run_id'' (mrun_run_id r)
         (run_values r)) (\<lambda>_.
       for_each (\<lambda>a. if ma_applied a then insert_action r a else ret ()) (mrun_actions r))))"

definition sqlite_get_maintenance_watermark :: "string \<Rightarrow> string \<Rightarrow> sqlite_db \<Rightarrow> instant option" where
  "sqlite_get_maintenance_watermark tenant ns d =
     (case map mw_watermark (filter (\<lambda>row. mw_tenant_id row = tenant \<and> mw_namespace row = ns \<and> mw_applied row)
             (dict_values (db_runs d))) of
        [] \<Rightarrow> None
      | w # ws \<Rightarrow> Some (fold max ws w))"

definition sqlite_find_maintenance_action_digests :: "string \<Rightarrow> string \<Rightarrow> sqlite_db \<Rightarrow> digest list" where
  "sqlite_find_maintenance_action_digests tenant ns d =
     remdups (map aw_action_digest (filter (\<lambda>row. aw_tenant_id row = tenant \<and> aw_namespace row = ns \<and> aw_applied row)
       (dict_values (db_actions d))))"

definition sqlite_save_projection_retirement :: "retirement_receipt \<Rightarrow> unit db_op" where
  "sqlite_save_projection_retirement r =
     reraise (store_error ''projection retirement receipt failed'') (transaction (
       insert_receipt_row (prr_receipt_id r) ''projection_retirement'' (Some (uuid_str (prr_record_id r)))
         (OfRetirement (prr_retirement_mode r)) (prr_retired_at r) (RetirementDoc r)))"

definition sqlite_commit_projection_rebuild :: "capability \<Rightarrow> rebuild_receipt \<Rightarrow> outbox_event list \<Rightarrow> unit db_op" where
  "sqlite_commit_projection_rebuild cap receipt outbox_events =
     andThen (require_service_write_capability cap) (\<lambda>_.
     andThen (check (pb_applied receipt) (StoreError ''cannot persist a non-applied rebuild receipt'')) (\<lambda>_.
     reraise (store_error ''projection rebuild failed'') (transaction (
       andThen (insert_receipt_row (pb_receipt_id receipt) ''projection_rebuild'' (Some (pb_namespace receipt)) IsApplied
         (pb_created_at receipt) (RebuildDoc receipt)) (\<lambda>_.
       for_each insert_outbox outbox_events)))))"

definition sqlite_commit_graph_cutover :: "capability \<Rightarrow> cutover_receipt \<Rightarrow> unit db_op" where
  "sqlite_commit_graph_cutover cap receipt =
     andThen (require_service_write_capability cap) (\<lambda>_.
     andThen (check (gc_applied receipt) (StoreError ''cannot persist a non-applied graph cutover'')) (\<lambda>_.
     reraise (store_error ''graph cutover record failed'') (transaction (
       insert_receipt_row (gc_receipt_id receipt) ''graph_cutover'' (Some (gc_namespace receipt)) IsApplied
         (gc_created_at receipt) (CutoverDoc receipt)))))"

text \<open>\<open>WHERE kind = ... AND aggregate_id = ? ORDER BY created_at, receipt_id\<close>.\<close>

definition receipts_by_kind :: "string \<Rightarrow> string \<Rightarrow> sqlite_db \<Rightarrow> receipt_row list" where
  "receipts_by_kind kind aggregate d =
     sort_key (\<lambda>row. (cw_created_at row, uuid_str (cw_receipt_id row)))
       (filter (\<lambda>row. cw_kind row = kind \<and> cw_aggregate_id row = Some aggregate) (dict_values (db_receipts d)))"

definition cutover_of :: "receipt_document \<Rightarrow> cutover_receipt list" where
  "cutover_of doc = (case doc of CutoverDoc r \<Rightarrow> [r] | _ \<Rightarrow> [])"

definition legacy_release_of :: "receipt_document \<Rightarrow> legacy_release_receipt list" where
  "legacy_release_of doc = (case doc of LegacyReleaseDoc r \<Rightarrow> [r] | _ \<Rightarrow> [])"

definition sqlite_list_graph_cutovers :: "string \<Rightarrow> string \<Rightarrow> sqlite_db \<Rightarrow> cutover_receipt list" where
  "sqlite_list_graph_cutovers tenant ns d =
     filter (\<lambda>r. gc_tenant_id r = tenant)
       (concat (map (\<lambda>row. cutover_of (cw_receipt_json row)) (receipts_by_kind ''graph_cutover'' ns d)))"

definition sqlite_list_legacy_projection_releases :: "string \<Rightarrow> sqlite_db \<Rightarrow> legacy_release_receipt list" where
  "sqlite_list_legacy_projection_releases ns d =
     concat (map (\<lambda>row. legacy_release_of (cw_receipt_json row)) (receipts_by_kind ''legacy_projection_release'' ns d))"

definition sqlite_stats :: "sqlite_db \<Rightarrow> store_stats" where
  "sqlite_stats d =
     \<lparr>stt_records = length (db_records d), stt_receipts = length (db_receipts d),
      stt_outbox_backlog = sqlite_outbox_backlog d,
      stt_by_state = fold (\<lambda>row. count_key (state_value (rw_state row))) (dict_values (db_records d)) [],
      stt_by_class = fold (\<lambda>row. count_key (class_value (rw_memory_class row))) (dict_values (db_records d)) []\<rparr>"

section \<open>Verified deletion\<close>

definition redact_row :: "memory_record \<Rightarrow> record_row \<Rightarrow> record_row" where
  "redact_row r row =
     row\<lparr>rw_content := mr_content r, rw_assertion_json := None, rw_provenance_json := mr_provenance r,
         rw_evidence_json := [], rw_confidence_json := mr_confidence r, rw_confidence_score := cf_score (mr_confidence r),
         rw_state := mr_state r, rw_tags_json := mr_tags r, rw_metadata_json := mr_metadata r,
         rw_normalized_digest := mr_normalized_digest r, rw_original_digest := mr_original_digest r,
         rw_supersedes_json := mr_supersedes r, rw_references_json := mr_references r,
         rw_conflicts_with_json := mr_conflicts_with r, rw_record_json := r\<rparr>"

definition update_rows :: "uuid \<Rightarrow> (record_row \<Rightarrow> record_row) \<Rightarrow> (uuid, record_row) dict \<Rightarrow> (uuid, record_row) dict" where
  "update_rows rid f t = (case dict_get t rid of None \<Rightarrow> t | Some row \<Rightarrow> dict_set rid (f row) t)"

definition sqlite_commit_deletion ::
  "capability \<Rightarrow> deletion_receipt \<Rightarrow> memory_record \<Rightarrow> outbox_event option \<Rightarrow> outbox_event list
     \<Rightarrow> memory_status_event \<Rightarrow> unit db_op" where
  "sqlite_commit_deletion cap receipt redacted outbox_event outbox_events status_event =
     andThen (require_service_write_capability cap) (\<lambda>_.
     andThen (check (mr_record_id redacted = dr_record_id receipt)
       (StoreError ''deletion receipt and redacted record target differ'')) (\<lambda>_.
     andThen (check (se_record_id status_event = dr_record_id receipt \<and> se_new_state status_event = mr_state redacted)
       (StoreError ''deletion status event does not describe the tombstone transition'')) (\<lambda>_.
     reraise (store_error ''atomic deletion request violated store constraints'') (transaction (
       andThen (gets (\<lambda>d. dict_has (db_records d) (dr_record_id receipt))) (\<lambda>known.
       andThen (check known (StoreError ''deletion target not found'')) (\<lambda>_.
       andThen (insert_status_event status_event) (\<lambda>_.
       andThen (modify (db_selectors_update (filter (\<lambda>(_, x). ss_record_id x \<noteq> dr_record_id receipt)))) (\<lambda>_.
       andThen (modify (db_records_update (update_rows (dr_record_id receipt) (redact_row redacted)))) (\<lambda>_.
       andThen (insert_deletion_receipt receipt) (\<lambda>_.
         for_each insert_outbox ((case outbox_event of None \<Rightarrow> [] | Some e \<Rightarrow> [e]) @ outbox_events))))))))))))"

definition deletion_of :: "receipt_row \<Rightarrow> deletion_receipt option" where
  "deletion_of row = (if cw_kind row = ''deletion'' then (case cw_receipt_json row of DeletionDoc r \<Rightarrow> Some r | _ \<Rightarrow> None) else None)"

definition complete_deletion_tx :: "uuid \<Rightarrow> uuid \<Rightarrow> uuid \<Rightarrow> instant \<Rightarrow> string \<Rightarrow> unit db_op" where
  "complete_deletion_tx eid rid receipt_id completed_at actor =
     andThen (gets (\<lambda>d. (dict_get (db_records d) rid, Option.bind (dict_get (db_receipts d) receipt_id) deletion_of))) (\<lambda>found.
       case found of
         (Some row, Some receipt) \<Rightarrow>
           andThen (gets (\<lambda>d. filter (\<lambda>l. lw_record_id l = rid) (dict_values (db_links d)))) (\<lambda>remaining.
           andThen (check (remaining = [])
             (StoreError ''deletion cannot complete while projection links remain unerased'')) (\<lambda>_.
           andThen (from_sum (row_to_record row)) (\<lambda>record.
           andThen (if mr_state record \<noteq> DELETED
                    then andThen (from_sum (make_status_event
                           ((completion_event eid record receipt_id completed_at actor)\<lparr>se_record_id := rid\<rparr>)))
                           insert_status_event
                    else ret ()) (\<lambda>_.
             modify (db_receipts_update (\<lambda>t. case dict_get t receipt_id of
                 None \<Rightarrow> t
               | Some row \<Rightarrow> dict_set receipt_id (row\<lparr>cw_status := OfDeletion D_COMPLETE,
                   cw_receipt_json := DeletionDoc (receipt\<lparr>dr_status := D_COMPLETE, dr_completed_at := Some completed_at\<rparr>)\<rparr>) t))))))
       | _ \<Rightarrow> throw (StoreError ''deletion record or receipt not found''))"

definition sqlite_complete_deletion :: "uuid \<Rightarrow> uuid \<Rightarrow> uuid \<Rightarrow> instant \<Rightarrow> string \<Rightarrow> unit db_op" where
  "sqlite_complete_deletion eid rid receipt_id completed_at actor =
     reraise (store_error ''deletion completion failed'')
       (transaction (complete_deletion_tx eid rid receipt_id completed_at actor))"

definition db_check_expected_link :: "projection_link \<Rightarrow> unit db_op" where
  "db_check_expected_link l =
     andThen (gets (sqlite_get_projection_link (pk_record_id l) (pk_target_identity l))) (\<lambda>current.
       check (current = Some l) (StoreError ''projection link changed since the release was planned''))"

definition db_update_link :: "projection_link \<Rightarrow> unit db_op" where
  "db_update_link l =
     modify (db_links_update (\<lambda>t. case dict_get t (link_key l) of
         None \<Rightarrow> t
       | Some row \<Rightarrow> dict_set (link_key l)
           (row\<lparr>lw_locator := pk_locator l, lw_created_at := pk_created_at l, lw_link_json := l\<rparr>) t))"

definition db_remove_link :: "uuid \<times> string \<Rightarrow> unit db_op" where
  "db_remove_link k = modify (db_links_update (dict_pop k))"

definition sqlite_commit_legacy_projection_release ::
  "(nat \<Rightarrow> uuid) \<Rightarrow> capability \<Rightarrow> legacy_release_receipt \<Rightarrow> projection_link list
     \<Rightarrow> (uuid \<times> string) list \<Rightarrow> (uuid \<times> uuid) list \<Rightarrow> projection_link list \<Rightarrow> unit db_op" where
  "sqlite_commit_legacy_projection_release eids cap receipt link_updates link_removals completions expected_links =
     andThen (require_service_write_capability cap) (\<lambda>_.
     andThen (check (lpr_applied receipt) (StoreError ''cannot persist a non-applied legacy projection release'')) (\<lambda>_.
     reraise (store_error ''legacy projection release failed'') (transaction (
       andThen (for_each db_check_expected_link expected_links) (\<lambda>_.
       andThen (insert_receipt_row (lpr_receipt_id receipt) ''legacy_projection_release'' (Some (lpr_namespace receipt)) IsApplied
         (lpr_created_at receipt) (LegacyReleaseDoc receipt)) (\<lambda>_.
       andThen (for_each db_update_link link_updates) (\<lambda>_.
       andThen (for_each db_remove_link link_removals) (\<lambda>_.
         for_each (\<lambda>(i, c). complete_deletion_tx (eids i) (fst c) (snd c) (lpr_created_at receipt)
                    (''memory.legacy-release:'' @ lpr_actor receipt)) (enumerate 0 completions)))))))))"

end
