(* ===== verification/SqliteRefinement.thy ===== *)
theory SqliteRefinement
  imports SqliteStore StoreInvariant
begin

text \<open>
  The database refines the in-memory store. \<open>store_of\<close> reads a database as the store it
  represents; \<open>db_ok\<close> says that the columns queries rely on agree with the stored documents,
  that every document can be read back, and that keys are unique.
\<close>

section \<open>The store a database represents\<close>

definition docs_of :: "(receipt_document \<Rightarrow> 'a option) \<Rightarrow> (uuid, receipt_row) dict \<Rightarrow> (uuid, 'a) dict" where
  "docs_of f t = concat (map (\<lambda>(k, row). case f (cw_receipt_json row) of None \<Rightarrow> [] | Some x \<Rightarrow> [(k, x)]) t)"

fun write_doc :: "receipt_document \<Rightarrow> write_receipt option" where
  "write_doc (WriteDoc r) = Some r" | "write_doc _ = None"

fun archive_doc :: "receipt_document \<Rightarrow> archive_receipt option" where
  "archive_doc (ArchiveDoc r) = Some r" | "archive_doc _ = None"

fun deletion_doc :: "receipt_document \<Rightarrow> deletion_receipt option" where
  "deletion_doc (DeletionDoc r) = Some r" | "deletion_doc _ = None"

fun lifecycle_doc :: "receipt_document \<Rightarrow> lifecycle_receipt option" where
  "lifecycle_doc (LifecycleDoc r) = Some r" | "lifecycle_doc _ = None"

fun conflict_link_doc :: "receipt_document \<Rightarrow> conflict_link_receipt option" where
  "conflict_link_doc (ConflictLinkDoc r) = Some r" | "conflict_link_doc _ = None"

fun retirement_doc :: "receipt_document \<Rightarrow> retirement_receipt option" where
  "retirement_doc (RetirementDoc r) = Some r" | "retirement_doc _ = None"

fun rebuild_doc :: "receipt_document \<Rightarrow> rebuild_receipt option" where
  "rebuild_doc (RebuildDoc r) = Some r" | "rebuild_doc _ = None"

fun release_doc :: "receipt_document \<Rightarrow> legacy_release_receipt option" where
  "release_doc (LegacyReleaseDoc r) = Some r" | "release_doc _ = None"

fun cutover_doc :: "receipt_document \<Rightarrow> cutover_receipt option" where
  "cutover_doc (CutoverDoc r) = Some r" | "cutover_doc _ = None"

definition identity_of :: "(uuid, record_row) dict \<Rightarrow> (string \<times> string \<times> string, uuid) dict" where
  "identity_of t = map (\<lambda>(k, row). (row_key row, k)) t"

definition store_of :: "sqlite_db \<Rightarrow> store" where
  "store_of d =
     \<lparr>st_records = map_values rw_record_json (db_records d), st_receipts = docs_of write_doc (db_receipts d),
      st_archive_receipts = docs_of archive_doc (db_receipts d), st_deletion_receipts = docs_of deletion_doc (db_receipts d),
      st_idempotency = identity_of (db_records d),
      st_status_events = map vw_event_json (dict_values (db_status_events d)),
      st_outbox = map_values ow_event_json (db_outbox d), st_phase_locks = map_values kw_receipt_json (db_phase_locks d),
      st_projection_links = map_values row_to_link (db_links d),
      st_maintenance_runs = map mw_receipt_json (dict_values (db_runs d)),
      st_projection_retirements = dict_values (docs_of retirement_doc (db_receipts d)),
      st_projection_rebuilds = dict_values (docs_of rebuild_doc (db_receipts d)),
      st_legacy_projection_releases = dict_values (docs_of release_doc (db_receipts d)),
      st_graph_cutovers = dict_values (docs_of cutover_doc (db_receipts d)),
      st_lifecycle_receipts = docs_of lifecycle_doc (db_receipts d),
      st_conflict_receipts = docs_of conflict_link_doc (db_receipts d), st_source_selectors = db_selectors d,
      st_source_invalidations = map_values iw_event_json (db_invalidations d),
      st_revalidation_requirements = map_values qw_requirement_json (db_requirements d),
      st_initialized = db_initialized d\<rparr>"

lemma store_of_sel [simp]:
  "st_records (store_of d) = map_values rw_record_json (db_records d)"
  "st_idempotency (store_of d) = identity_of (db_records d)"
  "st_outbox (store_of d) = map_values ow_event_json (db_outbox d)"
  "st_projection_links (store_of d) = map_values row_to_link (db_links d)"
  "st_source_selectors (store_of d) = db_selectors d"
  "st_source_invalidations (store_of d) = map_values iw_event_json (db_invalidations d)"
  "st_deletion_receipts (store_of d) = docs_of deletion_doc (db_receipts d)"
  by (simp_all add: store_of_def)

lemma get_record_store_of: "get_record rid (store_of d) = map_option rw_record_json (dict_get (db_records d) rid)"
  by (simp add: get_record_def)

lemma docs_of_Nil [simp]: "docs_of f [] = []"
  by (simp add: docs_of_def)

lemma docs_of_new: "dict_get t k = None \<Longrightarrow> docs_of f (dict_set k row t) =
    (case f (cw_receipt_json row) of None \<Rightarrow> docs_of f t | Some x \<Rightarrow> docs_of f t @ [(k, x)])"
  by (simp add: dict_set_new docs_of_def split: option.split)

lemma docs_of_absent: "dict_get t k = None \<Longrightarrow> dict_get (docs_of f t) k = None"
  by (induction t) (auto simp: docs_of_def split: if_splits option.splits)

lemma docs_of_replaced:
  "dict_get t k = Some old \<Longrightarrow> (f (cw_receipt_json old) = None \<longleftrightarrow> f (cw_receipt_json row) = None) \<Longrightarrow>
    docs_of f (dict_set k row t) = (case f (cw_receipt_json row) of None \<Rightarrow> docs_of f t | Some x \<Rightarrow> dict_set k x (docs_of f t))"
  by (induction t) (auto simp: docs_of_def split: if_splits option.splits)

lemma docs_of_get: "dict_get t k = Some row \<Longrightarrow> f (cw_receipt_json row) = Some x \<Longrightarrow> dict_get (docs_of f t) k = Some x"
  by (induction t) (auto simp: docs_of_def split: if_splits option.splits)

lemma identity_of_new:
  "dict_get t k = None \<Longrightarrow> row_key row \<notin> row_key ` set (dict_values t) \<Longrightarrow>
     identity_of (dict_set k row t) = dict_set (row_key row) k (identity_of t)"
proof -
  assume k: "dict_get t k = None" and n: "row_key row \<notin> row_key ` set (dict_values t)"
  have "dict_get (identity_of t) (row_key row) = None"
    using n by (force simp: identity_of_def map_of_eq_None_iff)
  then show ?thesis by (simp add: dict_set_new [OF k] dict_set_new) (simp add: identity_of_def)
qed

lemma identity_of_replaced:
  "dict_get t k = Some old \<Longrightarrow> row_key row = row_key old \<Longrightarrow> identity_of (dict_set k row t) = identity_of t"
  by (induction t) (auto simp: identity_of_def split: if_splits)

section \<open>Well-formed databases\<close>

definition readable :: "memory_record \<Rightarrow> bool" where
  "readable r \<longleftrightarrow> validate_coordinates (mr_temporal r) = Inr (mr_temporal r) \<and> make_memory_record r = Inr r"

text \<open>The columns the queries read.\<close>

definition row_ok :: "uuid \<Rightarrow> record_row \<Rightarrow> bool" where
  "row_ok k row \<longleftrightarrow>
     (let r = rw_record_json row in
      mr_record_id r = k \<and> rw_record_id row = k \<and> row_key row = operation_key r \<and> rw_memory_class row = mr_memory_class r
    \<and> rw_valid_from row = valid_from (mr_temporal r) \<and> rw_valid_to row = valid_to (mr_temporal r)
    \<and> rw_recorded_at row = recorded_at (mr_temporal r) \<and> rw_confidence_score row = cf_score (mr_confidence r)
    \<and> rw_state row = mr_state r \<and> readable r)"

definition link_row_key :: "link_row \<Rightarrow> uuid \<times> string" where
  "link_row_key row = (lw_record_id row, lw_target_identity row)"

definition db_ok :: "sqlite_db \<Rightarrow> bool" where
  "db_ok d \<longleftrightarrow>
     dict_ok (db_records d) \<and> (\<forall>(k, row) \<in> set (db_records d). row_ok k row)
   \<and> dict_ok (db_outbox d) \<and> (\<forall>(k, row) \<in> set (db_outbox d). row = outbox_values (ow_event_json row) \<and> k = ob_event_id (ow_event_json row))
   \<and> dict_ok (db_links d) \<and> (\<forall>(k, row) \<in> set (db_links d). k = link_row_key row)"

lemma set_dict_set: "dict_ok t \<Longrightarrow> set (dict_set k v t) = {(k, v)} \<union> {x \<in> set t. fst x \<noteq> k}"
  by (induction t) (auto simp: dict_ok_def image_iff)

lemma db_okD:
  assumes "db_ok d"
  shows "dict_get (db_records d) k = Some row \<Longrightarrow> row_ok k row"
    and "dict_get (db_outbox d) e = Some orow \<Longrightarrow> orow = outbox_values (ow_event_json orow) \<and> e = ob_event_id (ow_event_json orow)"
    and "dict_get (db_links d) l = Some lrow \<Longrightarrow> l = link_row_key lrow"
  using assms by (auto simp: db_ok_def dest!: map_of_SomeD)

lemma db_ok_records: "db_ok d \<Longrightarrow> row_ok k row \<Longrightarrow> db_ok (d\<lparr>db_records := dict_set k row (db_records d)\<rparr>)"
  by (auto simp: db_ok_def set_dict_set)

lemma db_ok_outbox: "db_ok d \<Longrightarrow> k = ob_event_id e \<Longrightarrow> db_ok (d\<lparr>db_outbox := dict_set k (outbox_values e) (db_outbox d)\<rparr>)"
  by (auto simp: db_ok_def set_dict_set outbox_values_def)

lemma db_ok_links: "db_ok d \<Longrightarrow> k = link_row_key row \<Longrightarrow> db_ok (d\<lparr>db_links := dict_set k row (db_links d)\<rparr>)"
  by (auto simp: db_ok_def set_dict_set)

lemma set_dict_pop: "set (dict_pop k t) \<subseteq> set t"
  by (auto simp: AList.delete_eq)

lemma db_ok_unlink: "db_ok d \<Longrightarrow> db_ok (d\<lparr>db_links := dict_pop k (db_links d)\<rparr>)"
  using set_dict_pop [of k "db_links d"] unfolding db_ok_def by (auto dest: subsetD)

lemma db_ok_others [simp]:
  "db_ok (d\<lparr>db_status_events := a\<rparr>) = db_ok d" "db_ok (d\<lparr>db_receipts := b\<rparr>) = db_ok d"
  "db_ok (d\<lparr>db_phase_locks := c\<rparr>) = db_ok d" "db_ok (d\<lparr>db_selectors := e\<rparr>) = db_ok d"
  "db_ok (d\<lparr>db_invalidations := f\<rparr>) = db_ok d" "db_ok (d\<lparr>db_requirements := g\<rparr>) = db_ok d"
  "db_ok (d\<lparr>db_runs := h\<rparr>) = db_ok d" "db_ok (d\<lparr>db_actions := i\<rparr>) = db_ok d"
  "db_ok (d\<lparr>db_versions := j\<rparr>) = db_ok d" "db_ok (d\<lparr>db_initialized := l\<rparr>) = db_ok d"
  by (simp_all add: db_ok_def)

lemma row_ok_values: "readable r \<Longrightarrow> row_ok (mr_record_id r) (record_values r)"
  by (simp add: row_ok_def record_values_def row_key_def operation_key_def Let_def)

lemma row_ok_read: "row_ok k row \<Longrightarrow> row_to_record row = Inr (rw_record_json row)"
  by (simp add: row_ok_def Let_def readable_def row_to_record_def)

lemma read_rows_ok: "\<forall>row \<in> set rows. \<exists>k. row_ok k row \<Longrightarrow> read_rows rows = Inr (map rw_record_json rows)"
  by (induction rows) (auto simp: row_ok_read)

lemma stored_row_ok: "db_ok d \<Longrightarrow> row \<in> set (dict_values (db_records d)) \<Longrightarrow> row_ok (rw_record_id row) row"
  by (auto simp: db_ok_def row_ok_def Let_def)

definition on_time :: "memory_status_event \<Rightarrow> memory_record \<Rightarrow> bool" where
  "on_time e r \<longleftrightarrow> (se_new_state e = SUPERSEDED \<longrightarrow> recorded_at (mr_temporal r) \<le> se_occurred_at e)"

lemma tags_fixed: "r\<lparr>mr_tags := ts\<rparr> = r \<longleftrightarrow> mr_tags r = ts"
  by (cases r) auto

lemma coordinates_ok:
  "validate_coordinates t = Inr t \<longleftrightarrow>
     (\<forall>e. valid_to t = Some e \<longrightarrow> valid_from t < e) \<and> (\<forall>e. superseded_at t = Some e \<longrightarrow> recorded_at t \<le> e)"
  by (auto simp: validate_coordinates_def split: option.splits)

lemma readable_iff:
  "readable r \<longleftrightarrow> (\<forall>e. valid_to (mr_temporal r) = Some e \<longrightarrow> valid_from (mr_temporal r) < e)
     \<and> (\<forall>e. superseded_at (mr_temporal r) = Some e \<longrightarrow> recorded_at (mr_temporal r) \<le> e)
     \<and> memory_record_fields_ok r \<and> mr_tags r = normalize_tags (mr_tags r)"
  by (simp add: readable_def coordinates_ok make_memory_record_def tags_fixed)

lemma readable_transitioned: "readable r \<Longrightarrow> on_time e r \<Longrightarrow> readable (transitioned e r)"
  by (simp add: transitioned_def Let_def readable_iff on_time_def memory_record_fields_ok_def)

lemma readable_linked: "readable r \<Longrightarrow> readable (r\<lparr>mr_conflicts_with := cs\<rparr>)"
  by (simp add: readable_iff memory_record_fields_ok_def)

end
