(* ===== verification/SqliteSteps.thy ===== *)
theory SqliteSteps
  imports SqliteRefinement
begin

text \<open>What each statement that succeeds does to the store the database represents.\<close>

text \<open>An update of one table.\<close>

lemma table_upd [simp]:
  "db_records_update (dict_set k0 v0) d = d\<lparr>db_records := dict_set k0 v0 (db_records d)\<rparr>"
  "db_status_events_update (dict_set k1 v1) d = d\<lparr>db_status_events := dict_set k1 v1 (db_status_events d)\<rparr>"
  "db_receipts_update (dict_set k2 v2) d = d\<lparr>db_receipts := dict_set k2 v2 (db_receipts d)\<rparr>"
  "db_outbox_update (dict_set k3 v3) d = d\<lparr>db_outbox := dict_set k3 v3 (db_outbox d)\<rparr>"
  "db_phase_locks_update (dict_set k4 v4) d = d\<lparr>db_phase_locks := dict_set k4 v4 (db_phase_locks d)\<rparr>"
  "db_links_update (dict_set k5 v5) d = d\<lparr>db_links := dict_set k5 v5 (db_links d)\<rparr>"
  "db_invalidations_update (dict_set k6 v6) d = d\<lparr>db_invalidations := dict_set k6 v6 (db_invalidations d)\<rparr>"
  "db_requirements_update (dict_set k7 v7) d = d\<lparr>db_requirements := dict_set k7 v7 (db_requirements d)\<rparr>"
  "db_runs_update (dict_set k8 v8) d = d\<lparr>db_runs := dict_set k8 v8 (db_runs d)\<rparr>"
  "db_links_update (dict_pop k) d = d\<lparr>db_links := dict_pop k (db_links d)\<rparr>"
  "db_selectors_update (filter P) d = d\<lparr>db_selectors := filter P (db_selectors d)\<rparr>"
  "db_selectors_update (map_values g) d = d\<lparr>db_selectors := map_values g (db_selectors d)\<rparr>"
  "db_records_update (update_rows rid h) d = d\<lparr>db_records := update_rows rid h (db_records d)\<rparr>"
  by (cases d, simp)+

lemma store_of_upd [simp]:
  "store_of (d\<lparr>db_records := a\<rparr>) = (store_of d)\<lparr>st_records := map_values rw_record_json a, st_idempotency := identity_of a\<rparr>"
  "store_of (d\<lparr>db_status_events := b\<rparr>) = (store_of d)\<lparr>st_status_events := map vw_event_json (dict_values b)\<rparr>"
  "store_of (d\<lparr>db_outbox := c\<rparr>) = (store_of d)\<lparr>st_outbox := map_values ow_event_json c\<rparr>"
  "store_of (d\<lparr>db_phase_locks := e\<rparr>) = (store_of d)\<lparr>st_phase_locks := map_values kw_receipt_json e\<rparr>"
  "store_of (d\<lparr>db_links := f\<rparr>) = (store_of d)\<lparr>st_projection_links := map_values row_to_link f\<rparr>"
  "store_of (d\<lparr>db_selectors := g\<rparr>) = (store_of d)\<lparr>st_source_selectors := g\<rparr>"
  "store_of (d\<lparr>db_invalidations := h\<rparr>) = (store_of d)\<lparr>st_source_invalidations := map_values iw_event_json h\<rparr>"
  "store_of (d\<lparr>db_requirements := i\<rparr>) = (store_of d)\<lparr>st_revalidation_requirements := map_values qw_requirement_json i\<rparr>"
  "store_of (d\<lparr>db_runs := j\<rparr>) = (store_of d)\<lparr>st_maintenance_runs := map mw_receipt_json (dict_values j)\<rparr>"
  "store_of (d\<lparr>db_initialized := k\<rparr>) = (store_of d)\<lparr>st_initialized := k\<rparr>"
  "store_of (d\<lparr>db_actions := l\<rparr>) = store_of d" "store_of (d\<lparr>db_versions := m\<rparr>) = store_of d"
  by (simp_all add: store_of_def)

lemma insert_row_Inr:
  "insert_row table update column k row d = (Inr u, d') \<longleftrightarrow> dict_get (table d) k = None \<and> d' = update (dict_set k row) d"
  by (auto simp: insert_row_def andThen_Inr dict_has_def)

section \<open>Outbox events\<close>

lemma outbox_values_json [simp]: "ow_event_json (outbox_values e) = e"
  by (simp add: outbox_values_def)

lemma insert_outboxes:
  assumes "for_each insert_outbox es d = (Inr u, d')" and "db_ok d"
  shows "db_ok d' \<and> (\<exists>t. d' = d\<lparr>db_outbox := t\<rparr> \<and> map_values ow_event_json t = dict_set_all ob_event_id es (st_outbox (store_of d)))"
  using assms
proof (induction es arbitrary: d)
  case Nil
  then show ?case by (auto intro!: exI [of _ "db_outbox d"])
next
  case (Cons e es)
  let ?d = "d\<lparr>db_outbox := dict_set (ob_event_id e) (outbox_values e) (db_outbox d)\<rparr>"
  from Cons.prems(1) have f: "for_each insert_outbox es ?d = (Inr u, d')"
    by (auto simp: andThen_Inr insert_outbox_def [of e] insert_row_Inr)
  from Cons.IH [OF f] db_ok_outbox [OF Cons.prems(2) refl, of e] show ?case
    by (auto simp: map_values_set)
qed

lemma insert_outboxes_store:
  assumes "for_each insert_outbox es d = (Inr u, d')" and "db_ok d"
  shows "db_ok d' \<and> store_of d' = (store_of d)\<lparr>st_outbox := dict_set_all ob_event_id es (st_outbox (store_of d))\<rparr>"
  using insert_outboxes [OF assms] by auto

section \<open>Status events\<close>

lemma insert_status_event_Inr:
  assumes "insert_status_event e d = (Inr u, d')" and "db_ok d"
    and "\<And>r. get_record (se_record_id e) (store_of d) = Some r \<Longrightarrow> on_time e r"
  shows "db_ok d' \<and> transition_ok (store_of d) e
    \<and> (\<exists>r. get_record (se_record_id e) (store_of d) = Some r \<and> store_of d' = after_transition e r (store_of d))
    \<and> (\<exists>a b. d' = d\<lparr>db_records := a, db_status_events := b\<rparr>)"
proof -
  obtain row where row: "dict_get (db_records d) (se_record_id e) = Some row"
    and st: "se_previous_state e = None \<or> se_previous_state e = Some (mr_state (rw_record_json row))"
    and new: "dict_get (db_status_events d) (se_event_id e) = None"
    and d': "d' = d\<lparr>db_records := dict_set (se_record_id e)
          (row\<lparr>rw_state := se_new_state e, rw_superseded_at := superseded_at (mr_temporal (transitioned e (rw_record_json row))),
               rw_record_json := transitioned e (rw_record_json row)\<rparr>) (db_records d),
        db_status_events := dict_set (se_event_id e) (status_event_values e) (db_status_events d)\<rparr>"
    using assms(1)
    by (auto simp: insert_status_event_def andThen_Inr Let_def insert_row_Inr split: option.splits if_splits)
  let ?r = "rw_record_json row"
  have ok: "row_ok (se_record_id e) row" by (rule db_okD(1) [OF assms(2) row])
  have g: "get_record (se_record_id e) (store_of d) = Some ?r" by (simp add: get_record_store_of row)
  let ?row = "row\<lparr>rw_state := se_new_state e, rw_superseded_at := superseded_at (mr_temporal (transitioned e ?r)),
               rw_record_json := transitioned e ?r\<rparr>"
  have "readable (transitioned e ?r)"
    using ok assms(3) [OF g] by (simp add: row_ok_def Let_def readable_transitioned)
  then have "row_ok (se_record_id e) ?row"
    using ok by (simp add: row_ok_def Let_def row_key_def operation_key_def) (simp add: transitioned_def Let_def)
  then have "db_ok d'" using d' db_ok_records [OF assms(2)] by auto
  moreover have "identity_of (dict_set (se_record_id e) ?row (db_records d)) = identity_of (db_records d)"
    by (rule identity_of_replaced [OF row]) (simp add: row_key_def)
  then have "store_of d' = after_transition e ?r (store_of d)"
    by (simp add: d' after_transition_def map_values_set dict_set_new [OF new]) (simp add: store_of_def status_event_values_def)
  ultimately show ?thesis using g st d' by (auto simp: transition_ok_def)
qed

definition timely :: "memory_status_event list \<Rightarrow> store \<Rightarrow> bool" where
  "timely es s \<longleftrightarrow> (\<forall>e \<in> set es. \<forall>r. get_record (se_record_id e) s = Some r \<longrightarrow> on_time e r)"

lemma insert_status_events:
  assumes "for_each insert_status_event es d = (Inr u, d')" and "db_ok d" and "timely es (store_of d)"
    and "distinct (map se_record_id es)"
  shows "db_ok d' \<and> (\<forall>e \<in> set es. transition_ok (store_of d) e) \<and> store_of d' = after_transitions es (store_of d)
    \<and> (\<exists>a b. d' = d\<lparr>db_records := a, db_status_events := b\<rparr>)"
  using assms
proof (induction es arbitrary: d)
  case Nil
  then show ?case by (auto intro!: exI [of _ "db_records d"] exI [of _ "db_status_events d"])
next
  case (Cons e es)
  from Cons.prems(1) obtain v d1 where e: "insert_status_event e d = (Inr v, d1)"
      and f: "for_each insert_status_event es d1 = (Inr u, d')"
    by (auto simp: andThen_Inr)
  have "\<And>r. get_record (se_record_id e) (store_of d) = Some r \<Longrightarrow> on_time e r"
    using Cons.prems(3) by (simp add: timely_def)
  from insert_status_event_Inr [OF e Cons.prems(2) this] obtain r a b where
      d1: "db_ok d1" "transition_ok (store_of d) e" "get_record (se_record_id e) (store_of d) = Some r"
        "store_of d1 = after_transition e r (store_of d)" "d1 = d\<lparr>db_records := a, db_status_events := b\<rparr>"
    by blast
  have ne: "se_record_id x \<noteq> se_record_id e" if "x \<in> set es" for x
    using that Cons.prems(4) by (metis distinct.simps(2) image_eqI list.map(2) set_map)
  have t: "timely es (store_of d1)" unfolding timely_def
  proof (intro ballI allI impI)
    fix x q assume x: "x \<in> set es" and q: "get_record (se_record_id x) (store_of d1) = Some q"
    show "on_time x q" using ne [OF x] x q Cons.prems(3) by (simp add: timely_def d1(4))
  qed
  have "distinct (map se_record_id es)" using Cons.prems(4) by simp
  from Cons.IH [OF f d1(1) t this] obtain a' b' where
      r: "db_ok d'" "\<forall>x \<in> set es. transition_ok (store_of d1) x" "store_of d' = after_transitions es (store_of d1)"
        "d' = d1\<lparr>db_records := a', db_status_events := b'\<rparr>"
    by blast
  have "\<forall>x \<in> set es. transition_ok (store_of d) x"
    using r(2) ne by (simp add: d1(4))
  moreover have "d' = d\<lparr>db_records := a', db_status_events := b'\<rparr>" using r(4) d1(5) by simp
  moreover have "store_of d' = after_transitions (e # es) (store_of d)" using r(3) by (simp add: d1(3,4))
  ultimately show ?case using r(1) d1(2) by auto
qed

section \<open>Receipts\<close>

lemma insert_receipt_row_Inr:
  assumes "insert_receipt_row rid kind aggregate st created doc d = (Inr u, d')"
  shows "store_of d' = (let s = store_of d in case doc of
      WriteDoc r \<Rightarrow> s\<lparr>st_receipts := dict_set rid r (st_receipts s)\<rparr>
    | ArchiveDoc r \<Rightarrow> s\<lparr>st_archive_receipts := dict_set rid r (st_archive_receipts s)\<rparr>
    | DeletionDoc r \<Rightarrow> s\<lparr>st_deletion_receipts := dict_set rid r (st_deletion_receipts s)\<rparr>
    | LifecycleDoc r \<Rightarrow> s\<lparr>st_lifecycle_receipts := dict_set rid r (st_lifecycle_receipts s)\<rparr>
    | ConflictLinkDoc r \<Rightarrow> s\<lparr>st_conflict_receipts := dict_set rid r (st_conflict_receipts s)\<rparr>
    | RetirementDoc r \<Rightarrow> s\<lparr>st_projection_retirements := st_projection_retirements s @ [r]\<rparr>
    | RebuildDoc r \<Rightarrow> s\<lparr>st_projection_rebuilds := st_projection_rebuilds s @ [r]\<rparr>
    | LegacyReleaseDoc r \<Rightarrow> s\<lparr>st_legacy_projection_releases := st_legacy_projection_releases s @ [r]\<rparr>
    | CutoverDoc r \<Rightarrow> s\<lparr>st_graph_cutovers := st_graph_cutovers s @ [r]\<rparr>)
   \<and> (\<exists>t. d' = d\<lparr>db_receipts := t\<rparr>)"
proof -
  have new: "dict_get (db_receipts d) rid = None"
    using assms by (auto simp: insert_receipt_row_def insert_row_Inr)
  from assms obtain row where "d' = d\<lparr>db_receipts := dict_set rid row (db_receipts d)\<rparr>" "cw_receipt_json row = doc"
    by (auto simp: insert_receipt_row_def insert_row_Inr intro: that)
  then show ?thesis
    by (cases doc) (auto simp: store_of_def docs_of_new [OF new] dict_set_new [OF docs_of_absent [OF new]])
qed

lemmas receipt_row_store = insert_receipt_row_Inr [THEN conjunct1, unfolded Let_def]
lemmas receipt_row_frame = insert_receipt_row_Inr [THEN conjunct2]

lemma receipt_row_ok: "insert_receipt_row rid kind aggregate st created doc d = (Inr u, d') \<Longrightarrow> db_ok d \<Longrightarrow> db_ok d'"
  using receipt_row_frame by fastforce

section \<open>Records and selectors\<close>

lemma db_insert_record_Inr:
  assumes "db_insert_record r d = (Inr u, d')" and "db_ok d" and "readable r"
  shows "db_ok d' \<and> fresh_record r (store_of d) \<and> store_of d' = inserted (Some r) (store_of d)
    \<and> (\<exists>a. d' = d\<lparr>db_records := a\<rparr>)"
proof -
  have new: "dict_get (db_records d) (mr_record_id r) = None"
    and uni: "row_key (record_values r) \<notin> row_key ` set (dict_values (db_records d))"
    and d': "d' = d\<lparr>db_records := dict_set (mr_record_id r) (record_values r) (db_records d)\<rparr>"
    using assms(1) by (auto simp: db_insert_record_def andThen_Inr dict_has_def)
  have k: "row_key (record_values r) = operation_key r"
    by (simp add: row_key_def record_values_def operation_key_def)
  have "dict_get (identity_of (db_records d)) (operation_key r) = None"
    using uni by (force simp: identity_of_def map_of_eq_None_iff k)
  moreover have "store_of d' = inserted (Some r) (store_of d)"
    by (simp add: d' identity_of_new [OF new uni] inserted_def map_values_set k) (simp add: record_values_def)
  ultimately show ?thesis
    using db_ok_records [OF assms(2) row_ok_values [OF assms(3)]] new d'
    by (auto simp: fresh_record_def get_record_store_of)
qed

lemma insert_selectors:
  "for_each db_insert_selector xs d = (Inr (), d\<lparr>db_selectors := dict_setdefault_all ss_selector_id xs (db_selectors d)\<rparr>)"
  by (induction xs arbitrary: d) (simp_all add: ret_def andThen_def db_insert_selector_def modify_def)

lemma mset_filter_scan:
  "engine_ok en \<Longrightarrow> mset (en_records en xs) = mset xs" "engine_ok en \<Longrightarrow> mset (en_outbox en ys) = mset ys"
  by (simp_all add: engine_ok_def)

lemma distinct_stored: "db_ok d \<Longrightarrow> distinct (map rw_record_id (dict_values (db_records d)))"
proof -
  assume ok: "db_ok d"
  then have "map rw_record_id (dict_values (db_records d)) = dict_keys (db_records d)"
    by (auto simp: db_ok_def row_ok_def Let_def)
  moreover have "distinct (dict_keys (db_records d))" using ok by (simp add: db_ok_def dict_ok_def)
  ultimately show ?thesis by metis
qed

lemma snapshot_check:
  assumes "db_require_phase_lock_snapshot hash en p d = (Inr u, d')" and "db_ok d" and "engine_ok en"
  shows "d' = d \<and> require_phase_lock_snapshot hash p (store_of d) = (Inr (), store_of d)"
proof -
  let ?P = "\<lambda>row. rw_tenant_id row = pp_tenant_id p \<and> rw_namespace row = pp_namespace p \<and> rw_state row = ACTIVE"
  let ?rows = "filter ?P (dict_values (db_records d))"
  have m: "mset (en_records en ?rows) = mset ?rows" by (rule mset_filter_scan(1) [OF assms(3)])
  then have set: "set (en_records en ?rows) = set ?rows" by (rule mset_eq_setD)
  have ok: "row_ok (rw_record_id row) row" if "row \<in> set (dict_values (db_records d))" for row
    using assms(2) that by (rule stored_row_ok)
  have "read_rows (en_records en ?rows) = Inr (map rw_record_json (en_records en ?rows))"
    by (rule read_rows_ok) (use ok set in auto)
  then have c: "snapshot_digest hash (map rw_record_json (en_records en ?rows)) = pp_expected_snapshot_digest p" "d' = d"
    using assms(1) by (auto simp: db_require_phase_lock_snapshot_def andThen_Inr)
  have cols: "rw_tenant_id row = mr_tenant_id (rw_record_json row)" "rw_namespace row = mr_namespace (rw_record_json row)"
      "rw_state row = mr_state (rw_record_json row)" if "row \<in> set (dict_values (db_records d))" for row
    using ok [OF that] by (simp_all add: row_ok_def row_key_def operation_key_def Let_def)
  have "filter (\<lambda>row. mr_tenant_id (rw_record_json row) = pp_tenant_id p \<and> mr_namespace (rw_record_json row) = pp_namespace p
      \<and> mr_state (rw_record_json row) = ACTIVE) (dict_values (db_records d)) = ?rows"
    by (rule filter_cong) (simp_all add: cols)
  then have "namespace_active (pp_tenant_id p) (pp_namespace p) (store_of d) = map rw_record_json ?rows"
    by (simp add: namespace_active_def filter_map o_def del: map_map)
  moreover have "snapshot_digest hash (map rw_record_json (en_records en ?rows)) = snapshot_digest hash (map rw_record_json ?rows)"
  proof (rule snapshot_digest_order)
    show "mset (map rw_record_json (en_records en ?rows)) = mset (map rw_record_json ?rows)" using m by (simp del: mset_filter)
    have "distinct (map rw_record_id ?rows)" by (rule distinct_map_filter [OF distinct_stored [OF assms(2)]])
    moreover have "mset (map rw_record_id (en_records en ?rows)) = mset (map rw_record_id ?rows)"
      using m by (simp del: mset_filter)
    note mset_eq_imp_distinct_iff [OF this]
    ultimately have n: "distinct (map rw_record_id (en_records en ?rows))" by simp
    have j: "map mr_record_id (map rw_record_json (en_records en ?rows)) = map rw_record_id (en_records en ?rows)"
      unfolding map_map by (rule map_cong) (use ok set in \<open>simp_all add: row_ok_def Let_def\<close>)
    show "distinct (map mr_record_id (map rw_record_json (en_records en ?rows)))" unfolding j by (rule n)
  qed
  ultimately show ?thesis using c by (simp add: require_phase_lock_snapshot_def andThen_def gets_def check_def ret_def)
qed

end
