(* ===== verification/SqliteMethods.thy ===== *)
theory SqliteMethods
  imports SqliteSteps
begin

text \<open>
  Every method of the SQL store refines the in-memory method of the same name: when it commits,
  the in-memory method run on the represented store returns the same value and leaves the
  represented store. A failing method leaves the database as it was.
\<close>

definition refines :: "'a db_op \<Rightarrow> 'a store_op \<Rightarrow> sqlite_db \<Rightarrow> bool" where
  "refines m n d \<longleftrightarrow> (\<forall>x d'. m d = (Inr x, d') \<longrightarrow> db_ok d' \<and> n (store_of d) = (Inr x, store_of d'))"

definition atomic :: "'a db_op \<Rightarrow> bool" where
  "atomic m \<longleftrightarrow> (\<forall>d e d'. m d = (Inl e, d') \<longrightarrow> d' = d)"

named_theorems atomic_intros \<open>operations whose failure changes nothing\<close>

lemma atomic_transaction [atomic_intros]: "atomic (transaction m)"
  by (auto simp: atomic_def dest: transaction_Inl)

lemma atomic_reraise [atomic_intros]: "atomic m \<Longrightarrow> atomic (reraise f m)"
  by (auto simp: atomic_def reraise_Inl)

lemma atomic_check [atomic_intros]: "atomic (check b e)" "atomic (require_service_write_capability cap)"
  by (auto simp: atomic_def require_service_write_capability_def)

lemma atomic_modify [atomic_intros]: "atomic (modify f)"
  by (simp add: atomic_def)

lemma atomic_guarded [atomic_intros]:
  assumes "reads_only m" and "atomic m" and "\<And>x. atomic (f x)"
  shows "atomic (andThen m f)"
  using assms by (fastforce simp: atomic_def andThen_Inl dest: reads_onlyD)

lemma reads_only_capability [simp]: "reads_only (require_service_write_capability cap)"
  by (simp add: require_service_write_capability_def)

lemma capability_Inr [simp]:
  "require_service_write_capability cap s = (Inr u, t) \<longleftrightarrow> cap = SERVICE_WRITE_CAPABILITY \<and> t = s"
  by (simp add: require_service_write_capability_def)

lemma get_record_upd [simp]:
  "get_record rid (s\<lparr>st_receipts := a\<rparr>) = get_record rid s" "get_record rid (s\<lparr>st_archive_receipts := b\<rparr>) = get_record rid s"
  "get_record rid (s\<lparr>st_deletion_receipts := c\<rparr>) = get_record rid s" "get_record rid (s\<lparr>st_lifecycle_receipts := e\<rparr>) = get_record rid s"
  "get_record rid (s\<lparr>st_source_selectors := f\<rparr>) = get_record rid s" "get_record rid (s\<lparr>st_source_invalidations := g\<rparr>) = get_record rid s"
  "get_record rid (s\<lparr>st_outbox := h\<rparr>) = get_record rid s" "get_record rid (s\<lparr>st_conflict_receipts := i\<rparr>) = get_record rid s"
  by (simp_all add: get_record_def)

lemma transition_ok_upd [simp]:
  "transition_ok (s\<lparr>st_receipts := a\<rparr>) x = transition_ok s x" "transition_ok (s\<lparr>st_archive_receipts := b\<rparr>) x = transition_ok s x"
  "transition_ok (s\<lparr>st_lifecycle_receipts := e\<rparr>) x = transition_ok s x"
  "transition_ok (s\<lparr>st_source_selectors := f\<rparr>) x = transition_ok s x" "transition_ok (s\<lparr>st_source_invalidations := g\<rparr>) x = transition_ok s x"
  by (simp_all add: transition_ok_def)

lemma timely_upd [simp]:
  "timely es (s\<lparr>st_receipts := a\<rparr>) = timely es s" "timely es (s\<lparr>st_archive_receipts := b\<rparr>) = timely es s"
  "timely es (s\<lparr>st_lifecycle_receipts := e\<rparr>) = timely es s"
  "timely es (s\<lparr>st_source_selectors := f\<rparr>) = timely es s" "timely es (s\<lparr>st_source_invalidations := g\<rparr>) = timely es s"
  by (simp_all add: timely_def)

lemma put_outbox_events_eq [simp]:
  "put_outbox_events es s = (Inr (), s\<lparr>st_outbox := dict_set_all ob_event_id es (st_outbox s)\<rparr>)"
  by (simp add: put_outbox_events_def modify_def)

lemma inserted_selectors [simp]: "st_source_selectors (inserted q s) = st_source_selectors s"
  by (simp add: inserted_def split: option.split)

text \<open>A batch of status events and outbox events after the receipts of a commit.\<close>

lemma commit_tail:
  assumes "andThen (for_each insert_status_event es) (\<lambda>_. for_each insert_outbox os) d = (Inr u, d')" and "db_ok d"
    and "timely es (store_of d)" and "distinct (map se_record_id es)"
  shows "db_ok d' \<and> (\<forall>e \<in> set es. transition_ok (store_of d) e)
    \<and> andThen (for_each apply_transition es) (\<lambda>_. put_outbox_events os) (store_of d) = (Inr (), store_of d')"
proof -
  obtain v d1 where d1: "for_each insert_status_event es d = (Inr v, d1)" and d2: "for_each insert_outbox os d1 = (Inr u, d')"
    using assms(1) by (auto simp: andThen_Inr)
  note s = insert_status_events [OF d1 assms(2-4)]
  then have "db_ok d1" by blast
  note o = insert_outboxes_store [OF d2 this]
  have "for_each apply_transition es (store_of d) = (Inr (), after_transitions es (store_of d))"
    using s assms(4) by (intro apply_transitions_ok) blast+
  with s o show ?thesis by (simp add: andThen_def)
qed

lemma refines_commit_lifecycle:
  assumes "db_ok d" and "timely es (store_of d)" and "distinct (map se_record_id es)"
  shows "refines (sqlite_commit_lifecycle cap receipt es os) (commit_lifecycle cap receipt es os) d"
  unfolding refines_def
proof (intro allI impI)
  fix x d' assume m: "sqlite_commit_lifecycle cap receipt es os d = (Inr x, d')"
  then obtain v d1 where g: "cap = SERVICE_WRITE_CAPABILITY"
      "set (map se_record_id es) = set (map lt_record_id (lr_transitions receipt))"
      and r: "insert_lifecycle_receipt receipt d = (Inr v, d1)"
      and t: "andThen (for_each insert_status_event es) (\<lambda>_. for_each insert_outbox os) d1 = (Inr x, d')"
    by (auto simp: sqlite_commit_lifecycle_def andThen_Inr)
  note r' = r [unfolded insert_lifecycle_receipt_def]
  have s1: "store_of d1 = (store_of d)\<lparr>st_lifecycle_receipts := dict_set (lr_receipt_id receipt) receipt (st_lifecycle_receipts (store_of d))\<rparr>"
    using receipt_row_store [OF r'] by simp
  from commit_tail [OF t receipt_row_ok [OF r' assms(1)]] assms(2,3)
  show "db_ok d' \<and> commit_lifecycle cap receipt es os (store_of d) = (Inr x, store_of d')"
    using g by (simp add: s1 commit_lifecycle_def andThen_Inr)
qed

lemma refines_commit_archive:
  assumes "db_ok d" and "timely es (store_of d)" and "distinct (map se_record_id es)"
  shows "refines (sqlite_commit_archive cap receipt es os) (commit_archive cap receipt es os) d"
  unfolding refines_def
proof (intro allI impI)
  fix x d' assume m: "sqlite_commit_archive cap receipt es os d = (Inr x, d')"
  then obtain v d1 where g: "cap = SERVICE_WRITE_CAPABILITY" "arc_applied receipt"
      "set (map se_record_id es) = set (arc_archived_record_ids receipt)"
      and r: "insert_archive_receipt receipt d = (Inr v, d1)"
      and t: "andThen (for_each insert_status_event es) (\<lambda>_. for_each insert_outbox os) d1 = (Inr x, d')"
    by (auto simp: sqlite_commit_archive_def andThen_Inr)
  note r' = r [unfolded insert_archive_receipt_def]
  have s1: "store_of d1 = (store_of d)\<lparr>st_archive_receipts := dict_set (arc_receipt_id receipt) receipt (st_archive_receipts (store_of d))\<rparr>"
    using receipt_row_store [OF r'] by simp
  from commit_tail [OF t receipt_row_ok [OF r' assms(1)]] assms(2,3)
  show "db_ok d' \<and> commit_archive cap receipt es os (store_of d) = (Inr x, store_of d')"
    using g by (simp add: s1 commit_archive_def andThen_Inr)
qed

lemma refines_transition_state:
  assumes "db_ok d" and "timely [e] (store_of d)"
  shows "refines (sqlite_transition_state cap e) (transition_state cap e) d"
  unfolding refines_def
proof (intro allI impI)
  fix x d' assume "sqlite_transition_state cap e d = (Inr x, d')"
  then have g: "cap = SERVICE_WRITE_CAPABILITY" and i: "insert_status_event e d = (Inr x, d')"
    by (auto simp: sqlite_transition_state_def andThen_Inr)
  have "\<And>r. get_record (se_record_id e) (store_of d) = Some r \<Longrightarrow> on_time e r"
    using assms(2) by (simp add: timely_def)
  from insert_status_event_Inr [OF i assms(1) this]
  show "db_ok d' \<and> transition_state cap e (store_of d) = (Inr x, store_of d')"
    by (auto simp: transition_state_def andThen_Inr apply_transition_Inr g)
qed

lemma refines_commit_write:
  assumes "db_ok d" and "engine_ok en" and "\<And>r. record = Some r \<Longrightarrow> readable r"
    and "timely es (inserted record (store_of d))" and "distinct (map se_record_id es)"
  shows "refines (sqlite_commit_write hash en cap record receipt os es expected)
    (commit_write hash cap record receipt os es expected) d"
  unfolding refines_def
proof (intro allI impI)
  fix x d' assume "sqlite_commit_write hash en cap record receipt os es expected d = (Inr x, d')"
  then obtain v1 d1 v2 d2 v3 d3 where g: "cap = SERVICE_WRITE_CAPABILITY"
      and p: "(case expected of None \<Rightarrow> ret () | Some p \<Rightarrow> db_require_phase_lock_snapshot hash en p) d = (Inr v1, d1)"
      and i: "(case record of None \<Rightarrow> ret ()
        | Some r \<Rightarrow> andThen (db_insert_record r) (\<lambda>_. for_each db_insert_selector (source_selectors_for_record hash r))) d1 = (Inr v2, d2)"
      and r: "insert_receipt receipt d2 = (Inr v3, d3)"
      and t: "andThen (for_each insert_status_event es) (\<lambda>_. for_each insert_outbox os) d3 = (Inr x, d')"
    by (auto simp: sqlite_commit_write_def andThen_Inr)
  have d1: "d1 = d" and lock: "\<And>q. expected = Some q \<Longrightarrow> require_phase_lock_snapshot hash q (store_of d) = (Inr (), store_of d)"
    using p snapshot_check [OF _ assms(1,2)] by (auto split: option.splits)
  have ins: "db_ok d2 \<and> store_of d2 = indexed hash record (inserted record (store_of d))
      \<and> (\<forall>q. record = Some q \<longrightarrow> fresh_record q (store_of d))"
  proof (cases "record")
    case None
    with i d1 assms(1) show ?thesis by (simp add: indexed_def inserted_def)
  next
    case (Some q)
    with i obtain v u where u: "db_insert_record q d = (Inr v, u)"
        "for_each db_insert_selector (source_selectors_for_record hash q) u = (Inr v2, d2)"
      by (auto simp: andThen_Inr d1)
    from db_insert_record_Inr [OF u(1) assms(1) assms(3) [OF Some]] u(2) show ?thesis
      by (auto simp: insert_selectors indexed_def Some)
  qed
  note r' = r [unfolded insert_receipt_def]
  have s3: "store_of d3 = (store_of d2)\<lparr>st_receipts := dict_set (wrc_receipt_id receipt) receipt (st_receipts (store_of d2))\<rparr>"
    using receipt_row_store [OF r'] by simp
  have gi: "get_record k (indexed hash record s) = get_record k s" for k s by (rule get_record_indexed)
  then have ti: "transition_ok (indexed hash record s) e = transition_ok s e"
    "timely es (indexed hash record s) = timely es s" for e s
    by (simp_all add: transition_ok_def timely_def)
  have swap: "indexed hash record (s\<lparr>st_receipts := a\<rparr>) = (indexed hash record s)\<lparr>st_receipts := a\<rparr>"
    "st_receipts (indexed hash record s) = st_receipts s" for s a
    by (cases "record"; simp add: indexed_def)+
  from ins have ok2: "db_ok d2" and s2: "store_of d2 = indexed hash record (inserted record (store_of d))" by blast+
  have "timely es (store_of d3)" using assms(4) by (simp add: s3 s2 ti)
  from commit_tail [OF t receipt_row_ok [OF r' ok2] this assms(5)]
  have tail: "db_ok d'" "\<forall>e \<in> set es. transition_ok (inserted record (store_of d)) e"
      "andThen (for_each apply_transition es) (\<lambda>_. put_outbox_events os) (store_of d3) = (Inr (), store_of d')"
    by (simp_all add: s3 s2 ti)
  have guard: "commit_guard hash cap record expected (store_of d) = (Inr (), store_of d)"
    using lock ins by (cases expected; cases "record")
      (auto simp: commit_guard_def andThen_def g require_service_write_capability_def check_def ret_def
        check_operation_identity_def gets_def fresh_record_def)
  have "commit_body hash record receipt os es (inserted record (store_of d)) = (Inr (), store_of d')"
    using tail(3) by (simp add: commit_body_def andThen_def modify_def index_selectors_eq swap s3 s2)
  with guard tail show "db_ok d' \<and> commit_write hash cap record receipt os es expected (store_of d) = (Inr x, store_of d')"
    by (auto simp: commit_write_eq split: prod.split sum.split dest: check_transitions_Inl)
qed

end
