(* ===== verification/SqliteLinks.thy ===== *)
theory SqliteLinks
  imports SqliteMethods
begin

text \<open>The methods of conflict links, invalidation, phase locks, the outbox, projection links and ledgers.\<close>

section \<open>Conflict links\<close>

lemma link_conflict_frame:
  "add_conflict_link a b (s\<lparr>st_conflict_receipts := c\<rparr>) =
     (fst (add_conflict_link a b s), (snd (add_conflict_link a b s))\<lparr>st_conflict_receipts := c\<rparr>)"
  by (simp add: add_conflict_link_def andThen_def gets_def throw_def ret_def modify_def split: option.split)

definition link_pair :: "conflict_item \<Rightarrow> unit store_op" where
  "link_pair l = andThen (add_conflict_link (ci_left_record_id l) (ci_right_record_id l))
                   (\<lambda>_. add_conflict_link (ci_right_record_id l) (ci_left_record_id l))"

definition db_link_pair :: "conflict_item \<Rightarrow> unit db_op" where
  "db_link_pair l = andThen (db_add_conflict_link (ci_left_record_id l) (ci_right_record_id l))
                      (\<lambda>_. db_add_conflict_link (ci_right_record_id l) (ci_left_record_id l))"

lemma link_pair_frame:
  "link_pair l (s\<lparr>st_conflict_receipts := c\<rparr>) = (fst (link_pair l s), (snd (link_pair l s))\<lparr>st_conflict_receipts := c\<rparr>)"
  by (simp add: link_pair_def andThen_def link_conflict_frame split: prod.split sum.split)

lemma link_pairs_frame:
  "for_each link_pair ls (s\<lparr>st_conflict_receipts := c\<rparr>) =
     (fst (for_each link_pair ls s), (snd (for_each link_pair ls s))\<lparr>st_conflict_receipts := c\<rparr>)"
proof (induction ls arbitrary: s)
  case Nil
  then show ?case by (simp add: ret_def)
next
  case (Cons l ls)
  then show ?case by (cases "link_pair l s"; cases "fst (link_pair l s)") (auto simp: andThen_def link_pair_frame)
qed

lemma db_add_conflict_link_Inr:
  assumes "db_add_conflict_link a b d = (Inr u, d')" and "db_ok d"
  shows "db_ok d' \<and> add_conflict_link a b (store_of d) = (Inr (), store_of d') \<and> get_record a (store_of d) \<noteq> None
    \<and> (\<forall>k. get_record k (store_of d') = None \<longleftrightarrow> get_record k (store_of d) = None)"
proof -
  obtain row where row: "dict_get (db_records d) a = Some row"
    using assms(1) by (auto simp: db_add_conflict_link_def andThen_Inr split: option.splits)
  let ?r = "rw_record_json row"
  have g: "get_record a (store_of d) = Some ?r" by (simp add: get_record_store_of row)
  show ?thesis
  proof (cases "b \<in> set (mr_conflicts_with ?r)")
    case True
    have "d' = d" using assms(1) row True by (simp add: db_add_conflict_link_def andThen_def gets_def ret_def Let_def)
    with True assms(2) g show ?thesis by (simp add: add_conflict_link_def andThen_def gets_def ret_def)
  next
    case False
    let ?row = "row\<lparr>rw_conflicts_with_json := mr_conflicts_with ?r @ [b],
        rw_record_json := ?r\<lparr>mr_conflicts_with := mr_conflicts_with ?r @ [b]\<rparr>\<rparr>"
    have d': "d' = d\<lparr>db_records := dict_set a ?row (db_records d)\<rparr>"
      using assms(1) row False by (simp add: db_add_conflict_link_def andThen_def gets_def modify_def Let_def)
    have "row_ok a ?row"
      using db_okD(1) [OF assms(2) row] by (simp add: row_ok_def Let_def row_key_def operation_key_def readable_linked)
    moreover have "identity_of (dict_set a ?row (db_records d)) = identity_of (db_records d)"
      by (rule identity_of_replaced [OF row]) (simp add: row_key_def)
    ultimately show ?thesis
      using False g db_ok_records [OF assms(2)]
      by (auto simp: d' add_conflict_link_def andThen_def gets_def modify_def map_values_set get_record_def)
  qed
qed

lemma db_link_pairs:
  assumes "for_each db_link_pair ls d = (Inr u, d')" and "db_ok d"
  shows "db_ok d' \<and> for_each link_pair ls (store_of d) = (Inr (), store_of d')
    \<and> (\<forall>l \<in> set ls. get_record (ci_left_record_id l) (store_of d) \<noteq> None \<and> get_record (ci_right_record_id l) (store_of d) \<noteq> None)"
  using assms
proof (induction ls arbitrary: d)
  case Nil
  then show ?case by (simp add: ret_def)
next
  case (Cons l ls)
  from Cons.prems(1) obtain v d1 w d2 where a: "db_add_conflict_link (ci_left_record_id l) (ci_right_record_id l) d = (Inr v, d1)"
      and b: "db_add_conflict_link (ci_right_record_id l) (ci_left_record_id l) d1 = (Inr w, d2)"
      and c: "for_each db_link_pair ls d2 = (Inr u, d')"
    by (auto simp: andThen_Inr db_link_pair_def [of l])
  note a' = db_add_conflict_link_Inr [OF a Cons.prems(2)]
  then have "db_ok d1" by blast
  note b' = db_add_conflict_link_Inr [OF b this]
  then have "db_ok d2" by blast
  note c' = Cons.IH [OF c this]
  have "link_pair l (store_of d) = (Inr (), store_of d2)"
    using a' b' by (simp add: link_pair_def andThen_def)
  with a' b' c' show ?case by (auto simp: andThen_def)
qed

lemma require_records:
  "(\<forall>l \<in> set ls. get_record (ci_left_record_id l) s \<noteq> None \<and> get_record (ci_right_record_id l) s \<noteq> None) \<Longrightarrow>
     for_each (\<lambda>l. andThen (require_record (ci_left_record_id l)) (\<lambda>_. require_record (ci_right_record_id l))) ls s = (Inr (), s)"
  by (induction ls) (auto simp: require_record_def andThen_def gets_def check_def ret_def)

lemma refines_commit_conflict_links:
  assumes "db_ok d"
  shows "refines (sqlite_commit_conflict_links cap receipt) (commit_conflict_links cap receipt) d"
  unfolding refines_def
proof (intro allI impI)
  fix x d' assume "sqlite_commit_conflict_links cap receipt d = (Inr x, d')"
  then obtain v d1 where g: "cap = SERVICE_WRITE_CAPABILITY"
      and r: "insert_receipt_row (clk_receipt_id receipt) ''conflict_link'' (Some (clk_namespace receipt))
         (OfOperation (clk_status receipt)) (clk_created_at receipt) (ConflictLinkDoc receipt) d = (Inr v, d1)"
      and t: "for_each db_link_pair (clk_links receipt) d1 = (Inr x, d')"
    by (auto simp: sqlite_commit_conflict_links_def andThen_Inr db_link_pair_def [abs_def])
  let ?s = "store_of d" and ?c = "dict_set (clk_receipt_id receipt) receipt (st_conflict_receipts (store_of d))"
  have s1: "store_of d1 = ?s\<lparr>st_conflict_receipts := ?c\<rparr>" using receipt_row_store [OF r] by simp
  note p = db_link_pairs [OF t receipt_row_ok [OF r assms]]
  from p have m: "fst (for_each link_pair (clk_links receipt) ?s) = Inr ()"
      "(snd (for_each link_pair (clk_links receipt) ?s))\<lparr>st_conflict_receipts := ?c\<rparr> = store_of d'"
    by (simp_all add: s1 link_pairs_frame)
  obtain u where u: "for_each link_pair (clk_links receipt) ?s = (Inr (), u)" using m(1) by (metis prod.collapse)
  have "u = u\<lparr>st_conflict_receipts := st_conflict_receipts ?s\<rparr>"
    using link_pairs_frame [where ls = "clk_links receipt" and s = ?s and c = "st_conflict_receipts ?s"] u by simp
  then have "st_conflict_receipts u = st_conflict_receipts ?s" by (metis store.select_convs(16) store.surjective store.update_convs(16))
  moreover have "for_each (\<lambda>l. andThen (require_record (ci_left_record_id l)) (\<lambda>_. require_record (ci_right_record_id l)))
      (clk_links receipt) ?s = (Inr (), ?s)"
    by (rule require_records) (use p in \<open>simp add: s1\<close>)
  ultimately show "db_ok d' \<and> commit_conflict_links cap receipt ?s = (Inr x, store_of d')"
    using p m(2) u by (simp add: commit_conflict_links_def andThen_Inr g link_pair_def [abs_def, symmetric])
qed

section \<open>Source invalidation\<close>

lemma insert_lifecycle_receipts:
  assumes "for_each insert_lifecycle_receipt rs d = (Inr u, d')" and "db_ok d"
  shows "db_ok d' \<and> store_of d' = (store_of d)\<lparr>st_lifecycle_receipts := dict_set_all lr_receipt_id rs (st_lifecycle_receipts (store_of d))\<rparr>"
  using assms
proof (induction rs arbitrary: d)
  case Nil
  then show ?case by simp
next
  case (Cons r rs)
  from Cons.prems(1) obtain v d1 where r: "insert_lifecycle_receipt r d = (Inr v, d1)"
      and f: "for_each insert_lifecycle_receipt rs d1 = (Inr u, d')"
    by (auto simp: andThen_Inr)
  note r' = r [unfolded insert_lifecycle_receipt_def]
  from Cons.IH [OF f receipt_row_ok [OF r' Cons.prems(2)]] receipt_row_store [OF r'] show ?case by simp
qed

lemma insert_requirements:
  assumes "for_each insert_requirement qs d = (Inr u, d')" and "db_ok d"
  shows "db_ok d' \<and> store_of d' = (store_of d)\<lparr>st_revalidation_requirements :=
    dict_set_all rq_requirement_id qs (st_revalidation_requirements (store_of d))\<rparr>"
  using assms
proof (induction qs arbitrary: d)
  case Nil
  then show ?case by simp
next
  case (Cons q qs)
  from Cons.prems(1) obtain row where f: "for_each insert_requirement qs
      (d\<lparr>db_requirements := dict_set (rq_requirement_id q) row (db_requirements d)\<rparr>) = (Inr u, d')" "qw_requirement_json row = q"
    by (auto simp: andThen_Inr insert_requirement_def [of q] insert_row_Inr intro: that)
  have "st_revalidation_requirements (store_of d) = map_values qw_requirement_json (db_requirements d)" by (simp add: store_of_def)
  with Cons.IH [OF f(1)] Cons.prems(2) f(2) show ?case by (simp add: map_values_set)
qed

lemma deactivate_all:
  "for_each (deactivate_selectors_of t) ids d = (Inr (), d\<lparr>db_selectors := map_values
     (\<lambda>x. if ss_record_id x \<in> set ids \<and> ss_active x then x\<lparr>ss_active := False, ss_deactivated_at := Some t\<rparr> else x) (db_selectors d)\<rparr>)"
proof (induction ids arbitrary: d)
  case Nil
  show ?case by (simp add: ret_def map_values_def)
next
  case (Cons i ids)
  have mm: "map_values f (map_values g t) = map_values (\<lambda>x. f (g x)) t" for f g and t :: "(string, source_selector) dict"
    by (simp add: map_values_def case_prod_unfold o_def)
  show ?case
    by (simp add: andThen_def deactivate_selectors_of_def [of t i] modify_def Cons.IH mm)
      (rule arg_cong [where f = "\<lambda>x. d\<lparr>db_selectors := x\<rparr>"], rule map_values_cong, auto)
qed

lemma refines_commit_source_invalidation:
  assumes "db_ok d" and "timely es (store_of d)" and "distinct (map se_record_id es)"
  shows "refines (sqlite_commit_source_invalidation cap event receipts es os requirements)
    (commit_source_invalidation cap event receipts es os requirements) d"
  unfolding refines_def
proof (intro allI impI)
  fix x d' assume "sqlite_commit_source_invalidation cap event receipts es os requirements d = (Inr x, d')"
  then obtain v1 d1 v2 d2 v3 d3 v4 d4 where g: "cap = SERVICE_WRITE_CAPABILITY"
      "set (map se_record_id es) = receipts_targets receipts"
      "\<not> dict_has (db_invalidations d) (ie_tenant_id event, ie_event_id event)"
      and i: "insert_invalidation event d = (Inr v1, d1)"
      and l: "for_each insert_lifecycle_receipt receipts d1 = (Inr v2, d2)"
      and t: "andThen (for_each insert_status_event es) (\<lambda>_. for_each insert_outbox os) d2 = (Inr v3, d3)"
      and q: "for_each insert_requirement requirements d3 = (Inr v4, d4)"
      and a: "for_each (deactivate_selectors_of (ie_created_at event))
           (sort_key uuid_str (remdups (concat (map (\<lambda>r. map lt_record_id (lr_transitions r)) receipts)))) d4 = (Inr x, d')"
    by (auto simp: sqlite_commit_source_invalidation_def andThen_Inr)
  let ?s = "store_of d"
  have s1: "db_ok d1" "store_of d1 = ?s\<lparr>st_source_invalidations := dict_set (ie_tenant_id event, ie_event_id event) event (st_source_invalidations ?s)\<rparr>"
    using i assms(1) by (auto simp: insert_invalidation_def insert_row_Inr map_values_set)
  note l' = insert_lifecycle_receipts [OF l s1(1)]
  then have s2: "db_ok d2" "store_of d2 = ?s\<lparr>st_source_invalidations := dict_set (ie_tenant_id event, ie_event_id event) event (st_source_invalidations ?s),
      st_lifecycle_receipts := dict_set_all lr_receipt_id receipts (st_lifecycle_receipts ?s)\<rparr>"
    by (simp_all add: s1(2))
  have "timely es (store_of d2)" using assms(2) by (simp add: s2(2))
  note t' = commit_tail [OF t s2(1) this assms(3)]
  have tr: "\<forall>e \<in> set es. transition_ok ?s e" using t' by (simp add: s2(2))
  from t' have "db_ok d3" by blast
  note q' = insert_requirements [OF q this]
  have targets: "set (sort_key uuid_str (remdups (concat (map (\<lambda>r. map lt_record_id (lr_transitions r)) receipts)))) = receipts_targets receipts"
    by (simp add: receipts_targets_def)
  have "db_selectors d4 = st_source_selectors (store_of d4)" by simp
  also have "\<dots> = st_source_selectors (store_of d3)" unfolding q' [THEN conjunct2] by (simp del: store_of_sel)
  finally have sel: "db_selectors d4 = st_source_selectors (store_of d3)" .
  have s': "db_ok d'" "store_of d' = deactivate_selectors (receipts_targets receipts) (ie_created_at event) (store_of d4)"
    using a q' unfolding deactivate_all targets by (auto simp: deactivate_selectors_def map_values_def sel simp del: store_of_sel)
  from t' obtain u where u: "for_each apply_transition es (store_of d2) = (Inr (), u)"
      "store_of d3 = u\<lparr>st_outbox := dict_set_all ob_event_id os (st_outbox u)\<rparr>"
    by (auto simp: andThen_Inr)
  show "db_ok d' \<and> commit_source_invalidation cap event receipts es os requirements ?s = (Inr x, store_of d')"
    using g tr u s' q' by (simp add: commit_source_invalidation_def andThen_Inr s2(2))
qed

end
