(* ===== verification/SqliteLedgers.thy ===== *)
theory SqliteLedgers
  imports SqliteLinks
begin

text \<open>Phase locks, the outbox, projection links and the ledgers: the SQL methods refine the in-memory ones.\<close>

section \<open>Phase locks and outbox\<close>

lemma refines_save_phase_lock:
  assumes "db_ok d"
  shows "refines (sqlite_save_phase_lock cap l) (save_phase_lock cap l) d"
proof -
  have "st_phase_locks (store_of d) = map_values kw_receipt_json (db_phase_locks d)" by (simp add: store_of_def)
  then show ?thesis
    using assms by (auto simp: refines_def sqlite_save_phase_lock_def save_phase_lock_def andThen_Inr Let_def map_values_set)
qed

lemma settle_outbox_values:
  "settle_row st att nxt err del (outbox_values e) = outbox_values (settled_event st att nxt err del e)"
  by (simp add: settle_row_def outbox_values_def settled_event_def)

lemma lease_outbox_values:
  "lease_row now secs owner lease (outbox_values e) = outbox_values (lease_event now secs owner lease e)"
  by (simp add: lease_row_def outbox_values_def lease_event_def)

lemma refines_update_outbox:
  assumes "db_ok d"
  shows "refines (sqlite_update_outbox eid st att nxt err del lease) (update_outbox eid st att nxt err del lease) d"
  unfolding refines_def
proof (intro allI impI)
  fix x d' assume m: "sqlite_update_outbox eid st att nxt err del lease d = (Inr x, d')"
  then obtain row where row: "dict_get (db_outbox d) eid = Some row"
      and l: "lease = None \<or> ob_lease_id (ow_event_json row) = lease"
      and d': "d' = d\<lparr>db_outbox := dict_set eid (settle_row st att nxt err del row) (db_outbox d)\<rparr>"
    by (auto simp: sqlite_update_outbox_def andThen_Inr split: option.splits)
  from db_okD(2) [OF assms row] obtain e where e: "row = outbox_values e" "eid = ob_event_id e" by blast
  have n: "ob_event_id (settled_event st att nxt err del e) = eid" by (simp add: e settled_event_def)
  have "db_ok d'" unfolding d' e(1) settle_outbox_values by (rule db_ok_outbox [OF assms n [symmetric]])
  moreover have "update_outbox eid st att nxt err del lease (store_of d) = (Inr x, store_of d')"
    using l by (auto simp: update_outbox_def andThen_Inr d' row e(1) settle_outbox_values map_values_set)
  ultimately show "db_ok d' \<and> update_outbox eid st att nxt err del lease (store_of d) = (Inr x, store_of d')" by blast
qed

lemma insort_key_map: "insort_key f (g x) (map g xs) = map g (insort_key (\<lambda>x. f (g x)) x xs)"
  by (induction xs) auto

lemma sort_key_of_map: "sort_key f (map g xs) = map g (sort_key (\<lambda>x. f (g x)) xs)"
  by (induction xs) (auto simp: insort_key_map)

text \<open>
  The batch of a claim is the oldest claimable events. Those created at the same instant, as the
  events of one operation are, come in the order of the engine's scan in SQL and in insertion
  order in memory: the batch is the same when the scan finds such events in insertion order.
\<close>

definition claims_ordered :: "engine \<Rightarrow> instant \<Rightarrow> store \<Rightarrow> bool" where
  "claims_ordered en now s \<longleftrightarrow>
     (let rows = map outbox_values (filter (is_claimable now) (dict_values (st_outbox s))) in
      \<forall>row \<in> set rows. filter (\<lambda>x. ow_created_at row = ow_created_at x) (en_outbox en rows) =
                       filter (\<lambda>x. ow_created_at row = ow_created_at x) rows)"

text \<open>It holds for an engine that scans in insertion order, and when no two creation times agree.\<close>

lemma claims_ordered_scan: "(\<And>rows. en_outbox en rows = rows) \<Longrightarrow> claims_ordered en now s"
  by (simp add: claims_ordered_def Let_def)

lemma filter_unique: "distinct (map f xs) \<Longrightarrow> x \<in> set xs \<Longrightarrow> filter (\<lambda>y. f x = f y) xs = [x]"
  by (induction xs) (auto simp: filter_empty_conv image_iff)

lemma claims_ordered_distinct:
  assumes "engine_ok en" and "distinct (map ob_created_at (filter (is_claimable now) (dict_values (st_outbox s))))"
  shows "claims_ordered en now s"
proof -
  let ?rows = "map outbox_values (filter (is_claimable now) (dict_values (st_outbox s)))"
  have m: "mset (en_outbox en ?rows) = mset ?rows" by (rule mset_filter_scan(2) [OF assms(1)])
  have "map ow_created_at ?rows = map ob_created_at (filter (is_claimable now) (dict_values (st_outbox s)))"
    by (simp add: o_def outbox_values_def)
  with assms(2) have d: "distinct (map ow_created_at ?rows)" by metis
  have "mset (map ow_created_at (en_outbox en ?rows)) = mset (map ow_created_at ?rows)" using m by (metis mset_map)
  with d have d': "distinct (map ow_created_at (en_outbox en ?rows))" by (metis mset_eq_imp_distinct_iff)
  show ?thesis
    unfolding claims_ordered_def Let_def
    using filter_unique [OF d] filter_unique [OF d'] mset_eq_setD [OF m] by metis
qed

lemma claimable_outbox_values [simp]: "claimable_row now (outbox_values e) = is_claimable now e"
  by (auto simp: claimable_row_def is_claimable_def outbox_values_def)

lemma filter_sort_key_eq: "filter (\<lambda>x. k = f x) (sort_key f xs) = filter (\<lambda>x. k = f x) xs"
  using sort_key_stable [of f k xs] by (simp add: eq_commute)

lemma due_rows_batch:
  assumes "db_ok d" and "engine_ok en" and "claims_ordered en now (store_of d)"
  shows "due_rows en n now d = map outbox_values (claim_batch n now (store_of d))"
proof -
  let ?rows = "filter (claimable_row now) (dict_values (db_outbox d))"
  let ?es = "filter (is_claimable now) (dict_values (st_outbox (store_of d)))"
  have "dict_values (db_outbox d) = map outbox_values (dict_values (st_outbox (store_of d)))"
    using assms(1) by (auto simp: db_ok_def map_values_def intro!: nth_equalityI dest: nth_mem)
  then have rows: "?rows = map outbox_values ?es" by (simp add: filter_map o_def del: store_of_sel map_map)
  have m: "mset (en_outbox en ?rows) = mset ?rows" by (rule mset_filter_scan(2) [OF assms(2)])
  have ties: "\<forall>row \<in> set ?rows. filter (\<lambda>x. ow_created_at row = ow_created_at x) (en_outbox en ?rows) =
      filter (\<lambda>x. ow_created_at row = ow_created_at x) ?rows"
    using assms(3) unfolding claims_ordered_def Let_def rows [symmetric] .
  have "sort_key ow_created_at (en_outbox en ?rows) = sort_key ow_created_at ?rows"
  proof (rule properties_for_sort_key)
    show "mset (sort_key ow_created_at ?rows) = mset (en_outbox en ?rows)" using m by simp
    show "filter (\<lambda>x. ow_created_at row = ow_created_at x) (sort_key ow_created_at ?rows) =
        filter (\<lambda>x. ow_created_at row = ow_created_at x) (en_outbox en ?rows)"
      if "row \<in> set (sort_key ow_created_at ?rows)" for row
      using that ties by (simp add: filter_sort_key_eq)
  qed simp
  also have "\<dots> = map outbox_values (sort_key ob_created_at ?es)"
    unfolding rows by (simp add: sort_key_of_map) (simp add: outbox_values_def)
  finally show ?thesis by (simp add: due_rows_def claim_batch_def take_map)
qed

definition store_row :: "outbox_row \<Rightarrow> unit db_op" where
  "store_row row = modify (db_outbox_update (dict_set (ow_event_id row) row))"

lemma store_rows:
  assumes "for_each store_row (map outbox_values es) d = (u, d')" and "db_ok d"
  shows "db_ok d' \<and> store_of d' = (store_of d)\<lparr>st_outbox := dict_set_all ob_event_id es (st_outbox (store_of d))\<rparr>"
  using assms
proof (induction es arbitrary: d)
  case Nil
  then show ?case by (auto simp: ret_def)
next
  case (Cons e es)
  have k: "ow_event_id (outbox_values e) = ob_event_id e" by (simp add: outbox_values_def)
  have "for_each store_row (map outbox_values es) (d\<lparr>db_outbox := dict_set (ob_event_id e) (outbox_values e) (db_outbox d)\<rparr>) = (u, d')"
    using Cons.prems(1) by (simp add: store_row_def [of "outbox_values e"] andThen_def modify_def k)
  from Cons.IH [OF this db_ok_outbox [OF Cons.prems(2) refl]] show ?case by (simp add: map_values_set)
qed

lemma refines_claim_outbox:
  assumes "db_ok d" and "engine_ok en" and "claims_ordered en now (store_of d)"
  shows "refines (sqlite_claim_outbox en leases n now secs owner) (claim_outbox leases n now secs owner) d"
  unfolding refines_def
proof (intro allI impI)
  fix x d' assume m: "sqlite_claim_outbox en leases n now secs owner d = (Inr x, d')"
  let ?es = "map (\<lambda>(i, e). lease_event now secs owner (leases i) e) (enumerate 0 (claim_batch n now (store_of d)))"
  let ?rows = "map (\<lambda>(i, row). lease_row now secs owner (leases i) row) (enumerate 0 (due_rows en n now d))"
  have rows: "?rows = map outbox_values ?es"
    unfolding due_rows_batch [OF assms]
    by (rule nth_equalityI) (simp_all add: nth_enumerate_eq lease_outbox_values)
  from m have "x = map ow_event_json ?rows"
      and "for_each store_row ?rows d = (Inr (), d')"
    by (auto simp: sqlite_claim_outbox_def andThen_Inr Let_def store_row_def [abs_def] simp del: map_map)
  then have x: "x = ?es"
      and f: "for_each store_row (map outbox_values ?es) d = (Inr (), d')"
    unfolding rows by (simp_all add: comp_def)
  from store_rows [OF f assms(1)] show "db_ok d' \<and> claim_outbox leases n now secs owner (store_of d) = (Inr x, store_of d')"
    by (simp only: claim_outbox_def x Let_def)
qed

section \<open>Projection links\<close>

lemma link_values_read [simp]: "row_to_link (link_values l) = l" "link_row_key (link_values l) = link_key l"
  by (simp_all add: row_to_link_def link_values_def link_row_key_def link_key_def)

lemma upsert_projection_link_Inr:
  assumes "upsert_projection_link l d = (Inr u, d')" and "db_ok d"
  shows "db_ok d' \<and> save_projection_link l (store_of d) = (Inr (), store_of d')"
proof -
  have d': "d' = d\<lparr>db_links := dict_set (link_key l) (link_values l) (db_links d)\<rparr>"
    using assms(1) by (auto simp: upsert_projection_link_def andThen_Inr)
  have "db_ok d'" unfolding d' by (rule db_ok_links [OF assms(2)]) simp
  then show ?thesis by (simp add: save_projection_link_def d' map_values_set modify_def)
qed

lemma refines_save_projection_link: "db_ok d \<Longrightarrow> refines (sqlite_save_projection_link l) (save_projection_link l) d"
  using upsert_projection_link_Inr [of l d] by (auto simp: refines_def sqlite_save_projection_link_def)

lemma refines_save_projection_link_if_active:
  assumes "db_ok d"
  shows "refines (sqlite_save_projection_link_if_active l prev) (save_projection_link_if_active l prev) d"
  unfolding refines_def
proof (intro allI impI)
  fix x d' assume m: "sqlite_save_projection_link_if_active l prev d = (Inr x, d')"
  have read: "row_to_record row = Inr (rw_record_json row)" if "dict_get (db_records d) (pk_record_id l) = Some row" for row
    using db_okD(1) [OF assms that] by (rule row_ok_read)
  show "db_ok d' \<and> save_projection_link_if_active l prev (store_of d) = (Inr x, store_of d')"
  proof (cases "\<exists>row. dict_get (db_records d) (pk_record_id l) = Some row \<and> mr_state (rw_record_json row) = ACTIVE")
    case False
    then have "x = False \<and> d' = d"
      using m read by (auto simp: sqlite_save_projection_link_if_active_def andThen_Inr split: option.splits if_splits)
    then show ?thesis using False assms
      by (auto simp: save_projection_link_if_active_def andThen_Inr get_record_store_of split: option.splits)
  next
    case True
    then obtain row where row: "dict_get (db_records d) (pk_record_id l) = Some row" "mr_state (rw_record_json row) = ACTIVE" by blast
    with m read [OF row(1)] have x: "x = True" and c: "sqlite_get_projection_link (pk_record_id l) (pk_target_identity l) d = prev"
        and u: "upsert_projection_link l d = (Inr (), d')"
      by (auto simp: sqlite_save_projection_link_if_active_def andThen_Inr split: option.splits if_splits)
    have "dict_get (st_projection_links (store_of d)) (link_key l) = prev"
      using c by (simp add: sqlite_get_projection_link_def link_key_def)
    with upsert_projection_link_Inr [OF u assms] row show ?thesis
      by (simp add: save_projection_link_if_active_def andThen_Inr get_record_store_of x)
  qed
qed

lemma map_values_pop': "map_values f (dict_pop k t) = dict_pop k (map_values f t)"
  by (simp add: map_values_pop)

lemma refines_delete_projection_link: "db_ok d \<Longrightarrow> refines (sqlite_delete_projection_link rid tg) (delete_projection_link rid tg) d"
  using db_ok_unlink [of d "(rid, tg)"]
  by (auto simp: refines_def sqlite_delete_projection_link_def delete_projection_link_def map_values_pop' modify_def)

section \<open>Ledgers\<close>

lemma refines_save_projection_retirement:
  assumes "db_ok d"
  shows "refines (sqlite_save_projection_retirement r) (save_projection_retirement r) d"
  unfolding refines_def
proof (intro allI impI)
  fix x d' assume "sqlite_save_projection_retirement r d = (Inr x, d')"
  then have i: "insert_receipt_row (prr_receipt_id r) ''projection_retirement'' (Some (uuid_str (prr_record_id r)))
         (OfRetirement (prr_retirement_mode r)) (prr_retired_at r) (RetirementDoc r) d = (Inr x, d')"
    by (simp add: sqlite_save_projection_retirement_def)
  show "db_ok d' \<and> save_projection_retirement r (store_of d) = (Inr x, store_of d')"
    using receipt_row_store [OF i] receipt_row_ok [OF i assms] by (simp add: save_projection_retirement_def modify_def)
qed

lemma refines_commit_graph_cutover:
  assumes "db_ok d"
  shows "refines (sqlite_commit_graph_cutover cap r) (commit_graph_cutover cap r) d"
  unfolding refines_def
proof (intro allI impI)
  fix x d' assume "sqlite_commit_graph_cutover cap r d = (Inr x, d')"
  then have g: "cap = SERVICE_WRITE_CAPABILITY" "gc_applied r"
    and i: "insert_receipt_row (gc_receipt_id r) ''graph_cutover'' (Some (gc_namespace r)) IsApplied
         (gc_created_at r) (CutoverDoc r) d = (Inr x, d')"
    by (auto simp: sqlite_commit_graph_cutover_def andThen_Inr)
  show "db_ok d' \<and> commit_graph_cutover cap r (store_of d) = (Inr x, store_of d')"
    using g receipt_row_store [OF i] receipt_row_ok [OF i assms] by (simp add: commit_graph_cutover_def andThen_Inr)
qed

lemma refines_commit_projection_rebuild:
  assumes "db_ok d"
  shows "refines (sqlite_commit_projection_rebuild cap r os) (commit_projection_rebuild cap r os) d"
  unfolding refines_def
proof (intro allI impI)
  fix x d' assume "sqlite_commit_projection_rebuild cap r os d = (Inr x, d')"
  then obtain v d1 where g: "cap = SERVICE_WRITE_CAPABILITY" "pb_applied r"
    and i: "insert_receipt_row (pb_receipt_id r) ''projection_rebuild'' (Some (pb_namespace r)) IsApplied
         (pb_created_at r) (RebuildDoc r) d = (Inr v, d1)"
    and o: "for_each insert_outbox os d1 = (Inr x, d')"
    by (auto simp: sqlite_commit_projection_rebuild_def andThen_Inr)
  show "db_ok d' \<and> commit_projection_rebuild cap r os (store_of d) = (Inr x, store_of d')"
    using g receipt_row_store [OF i] insert_outboxes_store [OF o receipt_row_ok [OF i assms]]
    by (simp add: commit_projection_rebuild_def andThen_Inr)
qed

lemma insert_actions:
  "for_each (\<lambda>a. if ma_applied a then insert_action r a else ret ()) as d = (u, d') \<Longrightarrow>
     store_of d' = store_of d \<and> db_ok d' = db_ok d"
proof (induction as arbitrary: d)
  case Nil
  then show ?case by (auto simp: ret_def)
next
  case (Cons a as)
  obtain t where "(if ma_applied a then insert_action r a else ret ()) d = (Inr (), d\<lparr>db_actions := t\<rparr>)"
    by (cases "ma_applied a"; cases d) (auto simp: insert_action_def ret_def modify_def Let_def intro: that)
  with Cons show ?case by (fastforce simp: andThen_def)
qed

lemma refines_save_maintenance_run:
  assumes "db_ok d"
  shows "refines (sqlite_save_maintenance_run r) (save_maintenance_run r) d"
  unfolding refines_def
proof (intro allI impI)
  fix x d' assume "sqlite_save_maintenance_run r d = (Inr x, d')"
  then have new: "dict_get (db_runs d) (mrun_run_id r) = None"
    and a: "for_each (\<lambda>a. if ma_applied a then insert_action r a else ret ()) (mrun_actions r)
        (d\<lparr>db_runs := dict_set (mrun_run_id r) (run_values r) (db_runs d)\<rparr>) = (Inr x, d')"
    by (auto simp: sqlite_save_maintenance_run_def andThen_Inr insert_row_Inr)
  have "st_maintenance_runs (store_of d) = map mw_receipt_json (dict_values (db_runs d))" by (simp add: store_of_def)
  with insert_actions [OF a] assms show "db_ok d' \<and> save_maintenance_run r (store_of d) = (Inr x, store_of d')"
    by (simp add: save_maintenance_run_def modify_def dict_set_new [OF new] run_values_def)
qed

end
