(* ===== verification/SqliteDeletion.thy ===== *)
theory SqliteDeletion
  imports SqliteLedgers
begin

text \<open>Deletions and the legacy release: the SQL methods refine the in-memory ones.\<close>

section \<open>Requesting a deletion\<close>

text \<open>
  A redacted record replaces the columns a query reads only where \<open>redact_row\<close> writes them:
  identity, class and times are those of the record it replaces.
\<close>

definition redaction_of :: "memory_record \<Rightarrow> memory_record \<Rightarrow> bool" where
  "redaction_of q r \<longleftrightarrow>
     readable q \<and> mr_record_id q = mr_record_id r \<and> operation_key q = operation_key r \<and> mr_memory_class q = mr_memory_class r
   \<and> valid_from (mr_temporal q) = valid_from (mr_temporal r) \<and> valid_to (mr_temporal q) = valid_to (mr_temporal r)
   \<and> recorded_at (mr_temporal q) = recorded_at (mr_temporal r)"

lemma redacted_row_ok:
  assumes "row_ok k row" and "redaction_of q (rw_record_json row)"
  shows "row_ok k (redact_row q row)" and "row_key (redact_row q row) = row_key row"
  using assms by (simp_all add: row_ok_def redaction_of_def redact_row_def row_key_def operation_key_def Let_def)

lemma redaction_transitioned: "redaction_of q r \<Longrightarrow> redaction_of q (transitioned e r)"
  by (simp add: redaction_of_def transitioned_def operation_key_def Let_def)

lemma tombstone_replaces:
  "get_record k s = Some r \<Longrightarrow> se_record_id e = k \<Longrightarrow>
     (after_transition e r s)\<lparr>st_records := dict_set k q (st_records (after_transition e r s))\<rparr> =
     s\<lparr>st_status_events := st_status_events s @ [e], st_records := dict_set k q (st_records s)\<rparr>"
  by (simp add: after_transition_def)

lemma refines_commit_deletion:
  assumes "db_ok d" and "timely [ev] (store_of d)"
    and "\<And>r. get_record (dr_record_id receipt) (store_of d) = Some r \<Longrightarrow> redaction_of q r"
  shows "refines (sqlite_commit_deletion cap receipt q oe oes ev) (commit_deletion cap receipt q oe oes ev) d"
  unfolding refines_def
proof (intro allI impI)
  fix x d' assume "sqlite_commit_deletion cap receipt q oe oes ev d = (Inr x, d')"
  then obtain v d1 w d3 where g: "cap = SERVICE_WRITE_CAPABILITY" "mr_record_id q = dr_record_id receipt"
      "se_record_id ev = dr_record_id receipt" "se_new_state ev = mr_state q"
      and e: "insert_status_event ev d = (Inr v, d1)"
      and r: "insert_deletion_receipt receipt (d1\<lparr>db_selectors := filter (\<lambda>(_, x). ss_record_id x \<noteq> dr_record_id receipt) (db_selectors d1),
          db_records := update_rows (dr_record_id receipt) (redact_row q) (db_records d1)\<rparr>) = (Inr w, d3)"
      and o: "for_each insert_outbox ((case oe of None \<Rightarrow> [] | Some e \<Rightarrow> [e]) @ oes) d3 = (Inr x, d')"
    by (auto simp: sqlite_commit_deletion_def andThen_Inr)
  let ?k = "dr_record_id receipt" and ?s = "store_of d"
  have "\<And>r. get_record (se_record_id ev) ?s = Some r \<Longrightarrow> on_time ev r" using assms(2) by (simp add: timely_def)
  from insert_status_event_Inr [OF e assms(1) this] g(3) obtain old where old: "get_record ?k ?s = Some old"
      and ok1: "db_ok d1" "transition_ok ?s ev" "store_of d1 = after_transition ev old ?s"
    by auto
  have "get_record ?k (store_of d1) = Some (transitioned ev old)"
    unfolding ok1(3) by (simp add: after_transition_def get_record_def g(3))
  then obtain row where row: "dict_get (db_records d1) ?k = Some row" "rw_record_json row = transitioned ev old"
    by (auto simp: get_record_store_of)
  note rok = redacted_row_ok [OF db_okD(1) [OF ok1(1) row(1)], of q, unfolded row(2), OF redaction_transitioned [OF assms(3) [OF old]]]
  let ?d2 = "d1\<lparr>db_selectors := filter (\<lambda>(_, x). ss_record_id x \<noteq> ?k) (db_selectors d1),
          db_records := update_rows ?k (redact_row q) (db_records d1)\<rparr>"
  have recs: "update_rows ?k (redact_row q) (db_records d1) = dict_set ?k (redact_row q row) (db_records d1)"
    by (simp add: update_rows_def row(1))
  have "db_ok (d1\<lparr>db_records := update_rows ?k (redact_row q) (db_records d1)\<rparr>)"
    unfolding recs by (rule db_ok_records [OF ok1(1) rok(1)])
  then have ok2: "db_ok ?d2" by (simp add: db_ok_def)
  have jq: "rw_record_json (redact_row q row) = q" by (simp add: redact_row_def)
  have s2: "store_of ?d2 = drop_selectors ?k (?s\<lparr>st_status_events := st_status_events ?s @ [ev], st_records := dict_set ?k q (st_records ?s)\<rparr>)"
  proof -
    have "store_of ?d2 = (store_of d1)\<lparr>st_source_selectors := filter (\<lambda>(_, x). ss_record_id x \<noteq> ?k) (st_source_selectors (store_of d1)),
        st_records := dict_set ?k q (st_records (store_of d1))\<rparr>"
      by (simp add: recs map_values_set jq identity_of_replaced [OF row(1) rok(2)])
    also have "\<dots> = drop_selectors ?k ((store_of d1)\<lparr>st_records := dict_set ?k q (st_records (store_of d1))\<rparr>)"
      by (simp add: drop_selectors_def del: store_of_sel)
    finally show ?thesis unfolding ok1(3) tombstone_replaces [OF old g(3)] .
  qed
  note r' = r [unfolded insert_deletion_receipt_def]
  have "store_of d3 = (store_of ?d2)\<lparr>st_deletion_receipts := dict_set (dr_receipt_id receipt) receipt (st_deletion_receipts (store_of ?d2))\<rparr>"
    using receipt_row_store [OF r'] by (simp del: store_of_upd store_of_sel)
  note s3 = this [unfolded s2]
  from insert_outboxes_store [OF o receipt_row_ok [OF r' ok2]] g ok1(2) old
  show "db_ok d' \<and> commit_deletion cap receipt q oe oes ev ?s = (Inr x, store_of d')"
    by (simp add: commit_deletion_def andThen_Inr s3 check_transition_eq del: store_of_sel)
qed

section \<open>Completing a deletion\<close>

lemma remaining_links:
  assumes "db_ok d"
  shows "filter (\<lambda>l. lw_record_id l = rid) (dict_values (db_links d)) = [] \<longleftrightarrow> list_projection_links rid (store_of d) = []"
proof -
  have "lw_record_id l = fst k" if "(k, l) \<in> set (db_links d)" for k l
    using assms that by (auto simp: db_ok_def link_row_key_def)
  then have "filter (\<lambda>l. lw_record_id l = rid) (dict_values (db_links d)) = [] \<longleftrightarrow> (\<forall>(k, l) \<in> set (db_links d). fst k \<noteq> rid)"
    by (fastforce simp: filter_empty_conv)
  also have "\<dots> \<longleftrightarrow> map snd (filter (\<lambda>(k, _). fst k = rid) (st_projection_links (store_of d))) = []"
    by (auto simp: filter_empty_conv map_values_def)
  also have "\<dots> \<longleftrightarrow> list_projection_links rid (store_of d) = []"
    unfolding list_projection_links_def by (simp add: length_0_conv [symmetric] del: length_0_conv length_map)
  finally show ?thesis .
qed

text \<open>The event of a completion is on time, being no supersession.\<close>

lemma completing_on_time: "on_time (completing eid rid r rcid t actor) r"
  by (simp add: on_time_def)

lemma complete_deletion_Inr:
  assumes "complete_deletion_tx eid rid rcid t actor d = (Inr u, d')" and "db_ok d"
  shows "db_ok d' \<and> complete_deletion eid rid rcid t actor (store_of d) = (Inr (), store_of d') \<and> db_links d' = db_links d
    \<and> (\<forall>k. get_record k (store_of d') = None \<longleftrightarrow> get_record k (store_of d) = None)
    \<and> (\<forall>k. dict_has (st_deletion_receipts (store_of d')) k \<longleftrightarrow> dict_has (st_deletion_receipts (store_of d)) k)"
proof -
  let ?s = "store_of d"
  obtain row rrow c where row: "dict_get (db_records d) rid = Some row" and rrow: "dict_get (db_receipts d) rcid = Some rrow"
      and c: "deletion_of rrow = Some c"
    using assms(1) by (auto simp: complete_deletion_tx_def andThen_Inr bind_eq_Some_conv split: option.splits)
  let ?r = "rw_record_json row"
  have read: "row_to_record row = Inr ?r" by (rule row_ok_read [OF db_okD(1) [OF assms(2) row]])
  have doc: "cw_receipt_json rrow = DeletionDoc c" using c by (auto simp: deletion_of_def split: if_splits receipt_document.splits)
  let ?done = "c\<lparr>dr_status := D_COMPLETE, dr_completed_at := Some t\<rparr>"
  let ?rrow = "rrow\<lparr>cw_status := OfDeletion D_COMPLETE, cw_receipt_json := DeletionDoc ?done\<rparr>"
  let ?e = "completing eid rid ?r rcid t actor"
  have g: "get_record rid ?s = Some ?r" by (simp add: get_record_store_of row)
  have dd: "dict_get (st_deletion_receipts ?s) rcid = Some c" using docs_of_get [OF rrow, of deletion_doc] doc by simp
  have m: "make_status_event ?e = (if len_ok 1 300 actor then Inr ?e
        else Inl (ValueError ''validation error for MemoryStatusEvent''))"
    by (simp add: make_status_event_def len_ok_def)
  obtain d1 where none: "filter (\<lambda>l. lw_record_id l = rid) (dict_values (db_links d)) = []"
      and ev: "if mr_state ?r \<noteq> DELETED then len_ok 1 300 actor \<and> insert_status_event ?e d = (Inr (), d1) else d1 = d"
      and d'': "d' = d1\<lparr>db_receipts := (case dict_get (db_receipts d1) rcid of None \<Rightarrow> db_receipts d1
          | Some row \<Rightarrow> dict_set rcid (row\<lparr>cw_status := OfDeletion D_COMPLETE, cw_receipt_json := DeletionDoc ?done\<rparr>) (db_receipts d1))\<rparr>"
    using assms(1) row rrow c read unfolding complete_deletion_tx_def completing_def [symmetric]
    by (auto simp: andThen_Inr m Let_def split: if_splits)
  have e: "db_ok d1 \<and> store_of d1 = (if mr_state ?r \<noteq> DELETED then after_transition ?e ?r ?s else ?s)
      \<and> (\<exists>a b. d1 = d\<lparr>db_records := a, db_status_events := b\<rparr>)"
  proof (cases "mr_state ?r = DELETED")
    case True
    with ev assms(2) show ?thesis by (auto intro!: exI [of _ "db_records d"] exI [of _ "db_status_events d"])
  next
    case False
    with ev have i: "insert_status_event ?e d = (Inr (), d1)" by simp
    have "\<And>r. get_record (se_record_id ?e) ?s = Some r \<Longrightarrow> on_time ?e r" by (simp add: on_time_def)
    from insert_status_event_Inr [OF i assms(2) this] g False show ?thesis by auto
  qed
  then have rc1: "db_receipts d1 = db_receipts d" "db_links d1 = db_links d" by auto
  have d': "d' = d1\<lparr>db_receipts := dict_set rcid ?rrow (db_receipts d)\<rparr>" using d'' rrow rc1 by simp
  have s': "store_of d' = (store_of d1)\<lparr>st_deletion_receipts := dict_set rcid ?done (st_deletion_receipts (store_of d1))\<rparr>"
    unfolding d' by (simp add: store_of_def docs_of_replaced [OF rrow] doc rc1)
  have l: "list_projection_links rid ?s = []" using none remaining_links [OF assms(2)] by simp
  have s1: "store_of d1 = (if mr_state ?r \<noteq> DELETED then after_transition ?e ?r ?s else ?s)" using e by blast
  have len: "mr_state ?r = DELETED \<or> len_ok 1 300 actor" using ev by presburger
  have "complete_deletion eid rid rcid t actor ?s = (Inr (), store_of d')"
    using s1 len g dd l by (auto simp: complete_deletion_eq s' completed_def Let_def simp del: store_of_sel)
  moreover have "db_ok d'" using e by (simp add: d')
  moreover have "get_record k (store_of d') = None \<longleftrightarrow> get_record k ?s = None" for k
    using e g by (auto simp: s' after_transition_def get_record_def simp del: store_of_sel split: if_splits)
  moreover have "dict_has (st_deletion_receipts (store_of d')) k \<longleftrightarrow> dict_has (st_deletion_receipts ?s) k" for k
    using e dd by (auto simp: s' after_transition_def dict_has_def simp del: store_of_sel split: if_splits)
  ultimately show ?thesis by (simp add: d' rc1)
qed

lemma refines_complete_deletion:
  "db_ok d \<Longrightarrow> refines (sqlite_complete_deletion eid rid rcid t actor) (complete_deletion eid rid rcid t actor) d"
  using complete_deletion_Inr [of eid rid rcid t actor d] by (auto simp: refines_def sqlite_complete_deletion_def)

section \<open>Releasing legacy copies\<close>

text \<open>
  A link update changes an existing row, found among the links the release expects; the row
  keeps its provider type.
\<close>

definition updates_expected :: "projection_link list \<Rightarrow> projection_link list \<Rightarrow> bool" where
  "updates_expected ups exps \<longleftrightarrow>
     (\<forall>l \<in> set ups. \<exists>q \<in> set exps. link_key q = link_key l \<and> pk_provider_type q = pk_provider_type l)"

lemma expected_links:
  assumes "for_each db_check_expected_link exps d = (Inr u, d')"
  shows "d' = d \<and> for_each check_expected_link exps (store_of d) = (Inr (), store_of d)
    \<and> (\<forall>q \<in> set exps. \<exists>row. dict_get (db_links d) (link_key q) = Some row \<and> row_to_link row = q)"
  using assms
proof (induction exps)
  case Nil
  then show ?case by (simp add: ret_def)
next
  case (Cons q exps)
  from Cons.prems have "sqlite_get_projection_link (pk_record_id q) (pk_target_identity q) d = Some q"
      and f: "for_each db_check_expected_link exps d = (Inr u, d')"
    by (auto simp: andThen_Inr db_check_expected_link_def [of q])
  then have g: "\<exists>row. dict_get (db_links d) (link_key q) = Some row \<and> row_to_link row = q"
    by (auto simp: sqlite_get_projection_link_def link_key_def)
  with Cons.IH [OF f] show ?case by (auto simp: andThen_def check_expected_link_def [of q] gets_def check_def ret_def)
qed

lemma update_links:
  assumes "for_each db_update_link ups d = (Inr u, d')" and "db_ok d"
    and "\<forall>l \<in> set ups. \<exists>row. dict_get (db_links d) (link_key l) = Some row \<and> lw_provider_type row = pk_provider_type l"
  shows "db_ok d' \<and> (\<exists>t. d' = d\<lparr>db_links := t\<rparr> \<and> map_values row_to_link t = dict_set_all link_key ups (st_projection_links (store_of d)))"
  using assms
proof (induction ups arbitrary: d)
  case Nil
  then show ?case by (auto intro!: exI [of _ "db_links d"])
next
  case (Cons l ups)
  from Cons.prems(3) obtain row where row: "dict_get (db_links d) (link_key l) = Some row" "lw_provider_type row = pk_provider_type l"
    by auto
  let ?row = "row\<lparr>lw_locator := pk_locator l, lw_created_at := pk_created_at l, lw_link_json := l\<rparr>"
  let ?d = "d\<lparr>db_links := dict_set (link_key l) ?row (db_links d)\<rparr>"
  have k: "link_key l = link_row_key row" by (rule db_okD(3) [OF Cons.prems(2) row(1)])
  then have rl: "row_to_link ?row = l" using row(2) by (simp add: row_to_link_def link_row_key_def link_key_def)
  have ok: "db_ok ?d" by (rule db_ok_links [OF Cons.prems(2)]) (use k in \<open>simp add: link_row_key_def\<close>)
  have "db_update_link l d = (Inr (), ?d)" using row(1) by (cases d) (simp add: db_update_link_def modify_def)
  then have f: "for_each db_update_link ups ?d = (Inr u, d')" using Cons.prems(1) by (simp add: andThen_def)
  have "\<forall>q \<in> set ups. \<exists>row. dict_get (db_links ?d) (link_key q) = Some row \<and> lw_provider_type row = pk_provider_type q"
  proof
    fix q assume "q \<in> set ups"
    with Cons.prems(3) obtain r where r: "dict_get (db_links d) (link_key q) = Some r" "lw_provider_type r = pk_provider_type q" by auto
    show "\<exists>row. dict_get (db_links ?d) (link_key q) = Some row \<and> lw_provider_type row = pk_provider_type q"
      using r row by (cases "link_key q = link_key l") auto
  qed
  from Cons.IH [OF f ok this] show ?case by (auto simp: map_values_set rl)
qed

lemma remove_links:
  assumes "for_each db_remove_link ks d = (Inr u, d')" and "db_ok d"
  shows "db_ok d' \<and> (\<exists>t. d' = d\<lparr>db_links := t\<rparr> \<and> map_values row_to_link t = fold dict_pop ks (st_projection_links (store_of d)))"
  using assms
proof (induction ks arbitrary: d)
  case Nil
  then show ?case by (auto intro!: exI [of _ "db_links d"])
next
  case (Cons k ks)
  from Cons.prems(1) have f: "for_each db_remove_link ks (d\<lparr>db_links := dict_pop k (db_links d)\<rparr>) = (Inr u, d')"
    by (auto simp: andThen_Inr db_remove_link_def [of k])
  from Cons.IH [OF f db_ok_unlink [OF Cons.prems(2)]] show ?case by (auto simp: map_values_pop)
qed

lemma completions:
  assumes "for_each (\<lambda>(i, c). complete_deletion_tx (eids i) (fst c) (snd c) t actor) ics d = (Inr u, d')" and "db_ok d"
  shows "db_ok d' \<and> for_each (\<lambda>(i, c). complete_deletion (eids i) (fst c) (snd c) t actor) ics (store_of d) = (Inr (), store_of d')
    \<and> (\<forall>(i, c) \<in> set ics. get_record (fst c) (store_of d) \<noteq> None \<and> dict_has (st_deletion_receipts (store_of d)) (snd c))"
  using assms
proof (induction ics arbitrary: d)
  case Nil
  then show ?case by (simp add: ret_def)
next
  case (Cons ic ics)
  obtain i rid rcid where ic: "ic = (i, rid, rcid)" by (cases ic) auto
  from Cons.prems(1) obtain v d1 where c: "complete_deletion_tx (eids i) rid rcid t actor d = (Inr v, d1)"
      and f: "for_each (\<lambda>(i, c). complete_deletion_tx (eids i) (fst c) (snd c) t actor) ics d1 = (Inr u, d')"
    by (auto simp: andThen_Inr ic)
  note c' = complete_deletion_Inr [OF c Cons.prems(2)]
  then have "db_ok d1" by blast
  note f' = Cons.IH [OF f this]
  have "get_record rid (store_of d) \<noteq> None \<and> dict_has (st_deletion_receipts (store_of d)) rcid"
    using c' by (auto simp: complete_deletion_eq dict_has_def simp del: store_of_sel split: option.splits)
  with c' f' show ?case by (auto simp: andThen_def ic simp del: store_of_sel)
qed

lemma check_completions:
  "(\<forall>(i, c) \<in> set (enumerate n cs). get_record (fst c) s \<noteq> None \<and> dict_has (st_deletion_receipts s) (snd c)) \<Longrightarrow>
     for_each check_completion cs s = (Inr (), s)"
  by (induction cs arbitrary: n) (auto simp: andThen_def check_completion_def gets_def check_def ret_def get_record_def dict_has_def)

lemma try_catch_Inr: "m s = (Inr u, t) \<Longrightarrow> try_catch m h s = (Inr u, t)"
  by (simp add: try_catch_def)

lemma refines_legacy_release:
  assumes "db_ok d" and "updates_expected ups exps"
  shows "refines (sqlite_commit_legacy_projection_release eids cap receipt ups rms cps exps)
    (commit_legacy_projection_release eids cap receipt ups rms cps exps) d"
  unfolding refines_def
proof (intro allI impI)
  fix x d' assume "sqlite_commit_legacy_projection_release eids cap receipt ups rms cps exps d = (Inr x, d')"
  then obtain v0 d0 v1 d1 v2 d2 v3 d3 where g: "cap = SERVICE_WRITE_CAPABILITY" "lpr_applied receipt"
      and e: "for_each db_check_expected_link exps d = (Inr v0, d0)"
      and r: "insert_receipt_row (lpr_receipt_id receipt) ''legacy_projection_release'' (Some (lpr_namespace receipt)) IsApplied
         (lpr_created_at receipt) (LegacyReleaseDoc receipt) d0 = (Inr v1, d1)"
      and u: "for_each db_update_link ups d1 = (Inr v2, d2)"
      and k: "for_each db_remove_link rms d2 = (Inr v3, d3)"
      and c: "for_each (\<lambda>(i, c). complete_deletion_tx (eids i) (fst c) (snd c) (lpr_created_at receipt)
                    (''memory.legacy-release:'' @ lpr_actor receipt)) (enumerate 0 cps) d3 = (Inr x, d')"
    by (auto simp: sqlite_commit_legacy_projection_release_def andThen_Inr)
  let ?s = "store_of d"
  note e' = expected_links [OF e]
  then have d0: "d0 = d" by blast
  note ok1 = receipt_row_ok [OF r [unfolded d0] assms(1)]
  from receipt_row_frame [OF r] d0 have l1: "db_links d1 = db_links d" by auto
  have s1: "store_of d1 = ?s\<lparr>st_legacy_projection_releases := st_legacy_projection_releases ?s @ [receipt]\<rparr>"
    using receipt_row_store [OF r] d0 by simp
  have "\<forall>l \<in> set ups. \<exists>row. dict_get (db_links d1) (link_key l) = Some row \<and> lw_provider_type row = pk_provider_type l"
  proof
    fix l assume "l \<in> set ups"
    then obtain q where q: "q \<in> set exps" "link_key q = link_key l" "pk_provider_type q = pk_provider_type l"
      using assms(2) by (auto simp: updates_expected_def)
    with e' obtain row where "dict_get (db_links d) (link_key l) = Some row" "row_to_link row = q" by metis
    with q(3) show "\<exists>row. dict_get (db_links d1) (link_key l) = Some row \<and> lw_provider_type row = pk_provider_type l"
      by (auto simp: l1 row_to_link_def)
  qed
  from update_links [OF u ok1 this] obtain t2 where d2: "db_ok d2" "d2 = d1\<lparr>db_links := t2\<rparr>"
      "map_values row_to_link t2 = dict_set_all link_key ups (st_projection_links (store_of d1))" by blast
  from remove_links [OF k d2(1)] obtain t3 where d3: "db_ok d3" "d3 = d2\<lparr>db_links := t3\<rparr>"
      "map_values row_to_link t3 = fold dict_pop rms (st_projection_links (store_of d2))" by blast
  have s3: "store_of d3 = ?s\<lparr>st_legacy_projection_releases := st_legacy_projection_releases ?s @ [receipt],
      st_projection_links := fold dict_pop rms (dict_set_all link_key ups (st_projection_links ?s))\<rparr>"
    using d3(3) d2(3) by (simp add: d3(2) d2(2) s1 l1)
  note c' = completions [OF c d3(1)]
  have "\<forall>(i, c) \<in> set (enumerate 0 cps). get_record (fst c) ?s \<noteq> None \<and> dict_has (st_deletion_receipts ?s) (snd c)"
    using c' by (simp add: s3 get_record_def del: store_of_sel)
  note ch = check_completions [OF this]
  have "release_effects eids receipt ups rms cps ?s = (Inr (), store_of d')"
    using c' by (simp add: release_effects_def andThen_def modify_def s3)
  note t = try_catch_Inr [where m = "release_effects eids receipt ups rms cps", OF this]
  show "db_ok d' \<and> commit_legacy_projection_release eids cap receipt ups rms cps exps ?s = (Inr x, store_of d')"
    using c' e' g ch t by (simp add: commit_legacy_projection_release_def andThen_Inr)
qed

end
