(* ===== verification/SqliteSimulation.thy ===== *)
theory SqliteSimulation
  imports SqliteDeletion
begin

text \<open>
  The two stores as machines over the same calls, and the simulation between them: what a run
  of the SQL store commits is a run of the in-memory store, with the same answers.
\<close>

section \<open>Runs with answers\<close>

text \<open>The log of a run: every call with what it returned or raised.\<close>

fun run_log :: "('x \<Rightarrow> ('s, 'e, 'a) op) \<Rightarrow> 's \<Rightarrow> 'x list \<Rightarrow> ('x \<times> ('e + 'a)) list \<times> 's" where
  "run_log m s [] = ([], s)"
| "run_log m s (x # xs) = (case m x s of (r, t) \<Rightarrow> (case run_log m t xs of (events, u) \<Rightarrow> ((x, r) # events, u)))"

definition succeeded :: "('x \<times> ('e + 'a)) list \<Rightarrow> ('x \<times> ('e + 'a)) list" where
  "succeeded events = filter (\<lambda>(_, r). \<not> isl r) events"

text \<open>
  An implementation whose failing calls change nothing and whose successful calls are those of
  the specification, in states of the invariant and for calls that fit.
\<close>

locale forward_simulation =
  fixes conc :: "'x \<Rightarrow> ('d, 'e, 'a) op"
    and spec :: "'x \<Rightarrow> ('s, 'e, 'a) op"
    and abs_state :: "'d \<Rightarrow> 's"
    and inv :: "'d \<Rightarrow> bool"
    and fits :: "'s \<Rightarrow> 'x \<Rightarrow> bool"
  assumes commits: "inv d \<Longrightarrow> fits (abs_state d) x \<Longrightarrow> conc x d = (Inr a, d') \<Longrightarrow>
      inv d' \<and> spec x (abs_state d) = (Inr a, abs_state d')"
    and fails: "conc x d = (Inl e, d') \<Longrightarrow> d' = d"
begin

lemma simulates:
  assumes "run_log conc d xs = (events, d')" and "inv d"
    and "run_allowed (\<lambda>d x. snd (conc x d)) (\<lambda>d. fits (abs_state d)) d xs"
  shows "inv d' \<and> run_log spec (abs_state d) (map fst (succeeded events)) = (succeeded events, abs_state d')"
  using assms
proof (induction xs arbitrary: d events)
  case Nil
  then show ?case by (auto simp: succeeded_def)
next
  case (Cons x xs)
  obtain r t where r: "conc x d = (r, t)" by fastforce
  obtain rest where rest: "run_log conc t xs = (rest, d')" and events: "events = (x, r) # rest"
    using Cons.prems(1) r by (auto split: prod.splits)
  have ok: "fits (abs_state d) x" and allowed: "run_allowed (\<lambda>d x. snd (conc x d)) (\<lambda>d. fits (abs_state d)) t xs"
    using Cons.prems(3) r by simp_all
  show ?case
  proof (cases r)
    case (Inl e)
    with r fails have "t = d" by blast
    with Cons.IH [OF rest] Cons.prems(2) allowed events Inl show ?thesis by (simp add: succeeded_def)
  next
    case (Inr a)
    from commits [OF Cons.prems(2) ok r [unfolded Inr]]
    have t: "inv t" "spec x (abs_state d) = (Inr a, abs_state t)" by blast+
    from Cons.IH [OF rest t(1) allowed] show ?thesis by (simp add: succeeded_def events Inr t(2))
  qed
qed

end

section \<open>The two machines\<close>

datatype answer = Finished | Claimed "outbox_event list" | Installed bool

definition answering :: "('a \<Rightarrow> answer) \<Rightarrow> ('s, error, 'a) op \<Rightarrow> ('s, error, answer) op" where
  "answering f m = andThen m (\<lambda>x. ret (f x))"

fun memory_call :: "(json \<Rightarrow> digest) \<Rightarrow> store_call \<Rightarrow> answer store_op" where
  "memory_call hash InitializeStore = answering (\<lambda>_. Finished) initialize_store"
| "memory_call hash CloseStore = answering (\<lambda>_. Finished) close_store"
| "memory_call hash (CommitWrite cap r rc os es ex) = answering (\<lambda>_. Finished) (commit_write hash cap r rc os es ex)"
| "memory_call hash (CommitSourceInvalidation cap ev rcs es os rqs) =
     answering (\<lambda>_. Finished) (commit_source_invalidation cap ev rcs es os rqs)"
| "memory_call hash (TransitionState cap e) = answering (\<lambda>_. Finished) (transition_state cap e)"
| "memory_call hash (CommitLifecycle cap rc es os) = answering (\<lambda>_. Finished) (commit_lifecycle cap rc es os)"
| "memory_call hash (CommitArchive cap rc es os) = answering (\<lambda>_. Finished) (commit_archive cap rc es os)"
| "memory_call hash (CommitConflictLinks cap rc) = answering (\<lambda>_. Finished) (commit_conflict_links cap rc)"
| "memory_call hash (SavePhaseLock cap l) = answering (\<lambda>_. Finished) (save_phase_lock cap l)"
| "memory_call hash (ClaimOutbox leases limit now secs owner) = answering Claimed (claim_outbox leases limit now secs owner)"
| "memory_call hash (UpdateOutbox eid st att nxt err del lease) =
     answering (\<lambda>_. Finished) (update_outbox eid st att nxt err del lease)"
| "memory_call hash (SaveProjectionLink l) = answering (\<lambda>_. Finished) (save_projection_link l)"
| "memory_call hash (SaveProjectionLinkIfActive l prev) = answering Installed (save_projection_link_if_active l prev)"
| "memory_call hash (DeleteProjectionLink rid tg) = answering (\<lambda>_. Finished) (delete_projection_link rid tg)"
| "memory_call hash (SaveProjectionRetirement r) = answering (\<lambda>_. Finished) (save_projection_retirement r)"
| "memory_call hash (CommitProjectionRebuild cap rc os) = answering (\<lambda>_. Finished) (commit_projection_rebuild cap rc os)"
| "memory_call hash (CommitLegacyRelease eids cap rc ups rms cps exps) =
     answering (\<lambda>_. Finished) (commit_legacy_projection_release eids cap rc ups rms cps exps)"
| "memory_call hash (CommitGraphCutover cap rc) = answering (\<lambda>_. Finished) (commit_graph_cutover cap rc)"
| "memory_call hash (SaveMaintenanceRun r) = answering (\<lambda>_. Finished) (save_maintenance_run r)"
| "memory_call hash (CommitDeletion cap rc red oe oes ev) = answering (\<lambda>_. Finished) (commit_deletion cap rc red oe oes ev)"
| "memory_call hash (CompleteDeletion eid rid rcid t actor) = answering (\<lambda>_. Finished) (complete_deletion eid rid rcid t actor)"

text \<open>\<open>opened\<close> is the clock when a database is opened.\<close>

fun sqlite_call :: "(json \<Rightarrow> digest) \<Rightarrow> engine \<Rightarrow> instant \<Rightarrow> store_call \<Rightarrow> answer db_op" where
  "sqlite_call hash en opened InitializeStore = answering (\<lambda>_. Finished) (sqlite_initialize hash opened)"
| "sqlite_call hash en opened CloseStore = answering (\<lambda>_. Finished) sqlite_close"
| "sqlite_call hash en opened (CommitWrite cap r rc os es ex) = answering (\<lambda>_. Finished) (sqlite_commit_write hash en cap r rc os es ex)"
| "sqlite_call hash en opened (CommitSourceInvalidation cap ev rcs es os rqs) =
     answering (\<lambda>_. Finished) (sqlite_commit_source_invalidation cap ev rcs es os rqs)"
| "sqlite_call hash en opened (TransitionState cap e) = answering (\<lambda>_. Finished) (sqlite_transition_state cap e)"
| "sqlite_call hash en opened (CommitLifecycle cap rc es os) = answering (\<lambda>_. Finished) (sqlite_commit_lifecycle cap rc es os)"
| "sqlite_call hash en opened (CommitArchive cap rc es os) = answering (\<lambda>_. Finished) (sqlite_commit_archive cap rc es os)"
| "sqlite_call hash en opened (CommitConflictLinks cap rc) = answering (\<lambda>_. Finished) (sqlite_commit_conflict_links cap rc)"
| "sqlite_call hash en opened (SavePhaseLock cap l) = answering (\<lambda>_. Finished) (sqlite_save_phase_lock cap l)"
| "sqlite_call hash en opened (ClaimOutbox leases limit now secs owner) =
     answering Claimed (sqlite_claim_outbox en leases limit now secs owner)"
| "sqlite_call hash en opened (UpdateOutbox eid st att nxt err del lease) =
     answering (\<lambda>_. Finished) (sqlite_update_outbox eid st att nxt err del lease)"
| "sqlite_call hash en opened (SaveProjectionLink l) = answering (\<lambda>_. Finished) (sqlite_save_projection_link l)"
| "sqlite_call hash en opened (SaveProjectionLinkIfActive l prev) = answering Installed (sqlite_save_projection_link_if_active l prev)"
| "sqlite_call hash en opened (DeleteProjectionLink rid tg) = answering (\<lambda>_. Finished) (sqlite_delete_projection_link rid tg)"
| "sqlite_call hash en opened (SaveProjectionRetirement r) = answering (\<lambda>_. Finished) (sqlite_save_projection_retirement r)"
| "sqlite_call hash en opened (CommitProjectionRebuild cap rc os) = answering (\<lambda>_. Finished) (sqlite_commit_projection_rebuild cap rc os)"
| "sqlite_call hash en opened (CommitLegacyRelease eids cap rc ups rms cps exps) =
     answering (\<lambda>_. Finished) (sqlite_commit_legacy_projection_release eids cap rc ups rms cps exps)"
| "sqlite_call hash en opened (CommitGraphCutover cap rc) = answering (\<lambda>_. Finished) (sqlite_commit_graph_cutover cap rc)"
| "sqlite_call hash en opened (SaveMaintenanceRun r) = answering (\<lambda>_. Finished) (sqlite_save_maintenance_run r)"
| "sqlite_call hash en opened (CommitDeletion cap rc red oe oes ev) = answering (\<lambda>_. Finished) (sqlite_commit_deletion cap rc red oe oes ev)"
| "sqlite_call hash en opened (CompleteDeletion eid rid rcid t actor) =
     answering (\<lambda>_. Finished) (sqlite_complete_deletion eid rid rcid t actor)"

text \<open>
  The calls a caller makes when it keeps the ports' contract: a written record passes its own
  validation; a batch of status events names each record once, and supersedes no record before
  it was recorded; a redacted record keeps identity and times; a link update replaces a link
  the release expects. A claim scans claimable events of one creation time in insertion order.
\<close>

fun call_fits :: "engine \<Rightarrow> store \<Rightarrow> store_call \<Rightarrow> bool" where
  "call_fits en s (CommitWrite cap r rc os es ex) \<longleftrightarrow>
     (\<forall>q. r = Some q \<longrightarrow> readable q) \<and> timely es (inserted r s) \<and> distinct (map se_record_id es)"
| "call_fits en s (CommitSourceInvalidation cap ev rcs es os rqs) \<longleftrightarrow> timely es s \<and> distinct (map se_record_id es)"
| "call_fits en s (TransitionState cap e) \<longleftrightarrow> timely [e] s"
| "call_fits en s (CommitLifecycle cap rc es os) \<longleftrightarrow> timely es s \<and> distinct (map se_record_id es)"
| "call_fits en s (CommitArchive cap rc es os) \<longleftrightarrow> timely es s \<and> distinct (map se_record_id es)"
| "call_fits en s (ClaimOutbox leases limit now secs owner) \<longleftrightarrow> claims_ordered en now s"
| "call_fits en s (CommitLegacyRelease eids cap rc ups rms cps exps) \<longleftrightarrow> updates_expected ups exps"
| "call_fits en s (CommitDeletion cap rc red oe oes ev) \<longleftrightarrow>
     timely [ev] s \<and> (\<forall>r. get_record (dr_record_id rc) s = Some r \<longrightarrow> redaction_of red r)"
| "call_fits en s _ = True"

section \<open>Failing calls\<close>

lemma atomic_answering [atomic_intros]: "atomic m \<Longrightarrow> atomic (answering f m)"
  by (auto simp: atomic_def answering_def andThen_Inl)

lemma atomic_initialize [atomic_intros]: "atomic (sqlite_initialize hash now)"
  by (auto simp: atomic_def sqlite_initialize_def andThen_Inl dest: transaction_Inl)

lemmas sqlite_methods = sqlite_close_def sqlite_commit_write_def sqlite_commit_source_invalidation_def
  sqlite_transition_state_def sqlite_commit_lifecycle_def sqlite_commit_archive_def sqlite_commit_conflict_links_def
  sqlite_save_phase_lock_def sqlite_claim_outbox_def sqlite_update_outbox_def sqlite_save_projection_link_def
  sqlite_save_projection_link_if_active_def sqlite_delete_projection_link_def sqlite_save_projection_retirement_def
  sqlite_commit_projection_rebuild_def sqlite_commit_legacy_projection_release_def sqlite_commit_graph_cutover_def
  sqlite_save_maintenance_run_def sqlite_commit_deletion_def sqlite_complete_deletion_def

lemma sqlite_call_atomic: "atomic (sqlite_call hash en opened c)"
  by (cases c) (auto intro!: atomic_intros simp: sqlite_methods Let_def)

section \<open>The schema stays current\<close>

definition schema_current :: "sqlite_db \<Rightarrow> bool" where
  "schema_current d \<longleftrightarrow> SCHEMA_VERSION \<in> set (db_versions d) \<and> db_legacy_links d = None"

lemma schema_current_upd:
  "schema_current (db_records_update a d) = schema_current d" "schema_current (db_status_events_update b d) = schema_current d"
  "schema_current (db_receipts_update c d) = schema_current d" "schema_current (db_outbox_update e d) = schema_current d"
  "schema_current (db_phase_locks_update f d) = schema_current d" "schema_current (db_links_update g d) = schema_current d"
  "schema_current (db_selectors_update h d) = schema_current d" "schema_current (db_invalidations_update i d) = schema_current d"
  "schema_current (db_requirements_update j d) = schema_current d" "schema_current (db_runs_update k d) = schema_current d"
  "schema_current (db_actions_update l d) = schema_current d" "schema_current (db_initialized_update m d) = schema_current d"
  by (simp_all add: schema_current_def)

lemma keeps_transaction [keeps_intros]: "keeps P m \<Longrightarrow> keeps P (transaction m)"
  unfolding keeps_def transaction_def by (metis (no_types, lifting) case_prod_beta prod.collapse snd_conv sum.case_eq_if)

lemma keeps_reraise [keeps_intros]: "keeps P m \<Longrightarrow> keeps P (reraise f m)"
  unfolding keeps_def reraise_def by (metis (no_types, lifting) case_prod_beta snd_conv sum.case_eq_if)

lemma keeps_answering [keeps_intros]: "keeps P m \<Longrightarrow> keeps P (answering f m)"
  by (auto simp: answering_def intro!: keeps_intros)

lemma keeps_capability [keeps_intros]: "keeps P (require_service_write_capability cap)"
  by (simp add: require_service_write_capability_def)

lemma keeps_prod [keeps_intros]: "(\<And>a b. keeps P (f a b)) \<Longrightarrow> keeps P (case p of (a, b) \<Rightarrow> f a b)"
  by (cases p) simp

lemma keeps_insert_row:
  "(\<And>f d. schema_current (update f d) = schema_current d) \<Longrightarrow> keeps schema_current (insert_row table update column k row)"
  by (auto simp: insert_row_def intro!: keeps_intros)

lemma keeps_statements [keeps_intros]:
  "keeps schema_current (db_insert_record r)" "keeps schema_current (db_insert_selector x)"
  "keeps schema_current (insert_receipt_row rid kind aggregate st created doc)"
  "keeps schema_current (insert_status_event e)" "keeps schema_current (insert_outbox o')"
  "keeps schema_current (insert_requirement q)" "keeps schema_current (insert_invalidation ev)"
  "keeps schema_current (deactivate_selectors_of t rid)" "keeps schema_current (db_add_conflict_link a b)"
  "keeps schema_current (upsert_projection_link l)" "keeps schema_current (insert_action r' a')"
  "keeps schema_current (db_check_expected_link l)" "keeps schema_current (db_update_link l)" "keeps schema_current (db_remove_link k)"
  by (auto intro!: keeps_intros keeps_insert_row simp: schema_current_upd Let_def db_insert_record_def db_insert_selector_def
    insert_receipt_row_def insert_status_event_def insert_outbox_def insert_requirement_def insert_invalidation_def
    deactivate_selectors_of_def db_add_conflict_link_def upsert_projection_link_def insert_action_def db_check_expected_link_def
    db_update_link_def db_remove_link_def simp del: table_upd split: option.split)

lemma keeps_receipts [keeps_intros]:
  "keeps schema_current (insert_receipt r)" "keeps schema_current (insert_archive_receipt a)"
  "keeps schema_current (insert_deletion_receipt b)" "keeps schema_current (insert_lifecycle_receipt c)"
  by (simp_all add: insert_receipt_def insert_archive_receipt_def insert_deletion_receipt_def insert_lifecycle_receipt_def keeps_statements)

lemma keeps_complete_deletion_tx [keeps_intros]: "keeps schema_current (complete_deletion_tx eid rid rcid t actor)"
  by (auto simp: complete_deletion_tx_def schema_current_upd intro!: keeps_intros split: prod.split option.split)

lemma keeps_snapshot [keeps_intros]: "keeps schema_current (db_require_phase_lock_snapshot hash en p)"
  by (auto simp: db_require_phase_lock_snapshot_def intro!: keeps_intros)

lemma sqlite_call_schema: "c \<noteq> InitializeStore \<Longrightarrow> keeps schema_current (sqlite_call hash en opened c)"
  by (cases c) (auto intro!: keeps_intros keeps_insert_row simp: sqlite_methods Let_def schema_current_upd
    simp del: table_upd)

section \<open>The simulation\<close>

definition sqlite_inv :: "sqlite_db \<Rightarrow> bool" where
  "sqlite_inv d \<longleftrightarrow> db_ok d \<and> schema_current d"

lemma initialize_current:
  assumes "sqlite_inv d"
  shows "sqlite_initialize hash now d = (Inr (), d\<lparr>db_initialized := True\<rparr>)"
proof -
  have "migrate_projection_links_to_targets d = (Inr (), d)" "backfill_source_selectors hash now d = (Inr (), d)"
    using assms by (simp_all add: sqlite_inv_def schema_current_def migrate_projection_links_to_targets_def
        backfill_source_selectors_def andThen_def gets_def ret_def)
  then show ?thesis using assms
    by (cases d) (simp add: sqlite_initialize_def transaction_def andThen_def modify_def sqlite_inv_def schema_current_def)
qed

lemma answering_Inr: "answering f m s = (Inr a, t) \<longleftrightarrow> (\<exists>x. m s = (Inr x, t) \<and> a = f x)"
  by (auto simp: answering_def andThen_Inr)

lemma answering_refines: "refines m n d \<Longrightarrow> answering f m d = (Inr a, d') \<Longrightarrow>
    db_ok d' \<and> answering f n (store_of d) = (Inr a, store_of d')"
  by (auto simp: refines_def answering_Inr)

lemma sqlite_call_refines:
  assumes "db_ok d" and "engine_ok en" and "call_fits en (store_of d) c" and "c \<noteq> InitializeStore"
    and "sqlite_call hash en opened c d = (Inr a, d')"
  shows "db_ok d' \<and> memory_call hash c (store_of d) = (Inr a, store_of d')"
proof (cases c)
  case CloseStore
  with assms show ?thesis by (cases d) (auto simp: answering_Inr sqlite_close_def close_store_def modify_def db_ok_def store_of_def)
qed (use assms in \<open>auto dest!: answering_refines [rotated] intro!: refines_commit_write refines_commit_source_invalidation
  refines_transition_state refines_commit_lifecycle refines_commit_archive refines_commit_conflict_links refines_save_phase_lock
  refines_claim_outbox refines_update_outbox refines_save_projection_link refines_save_projection_link_if_active
  refines_delete_projection_link refines_save_projection_retirement refines_commit_projection_rebuild refines_legacy_release
  refines_commit_graph_cutover refines_save_maintenance_run refines_commit_deletion refines_complete_deletion\<close>)

end
