(* ===== verification/SqliteLaws.thy ===== *)
theory SqliteLaws
  imports SqliteSimulation ServiceWrite
begin

text \<open>
  The properties of the SQL store: it refines the in-memory store, its readers agree with the
  in-memory readers, opening a database migrates it once, a deletion leaves nothing of the erased content,
  and a supersession stamped before the record was recorded makes the record unreadable.
\<close>

lemma sqlite_step_refines:
  assumes "engine_ok en" and "sqlite_inv d" and "call_fits en (store_of d) c" and "sqlite_call hash en opened c d = (Inr a, d')"
  shows "sqlite_inv d' \<and> memory_call hash c (store_of d) = (Inr a, store_of d')"
proof (cases "c = InitializeStore")
  case True
  have a: "a = Finished" "d' = d\<lparr>db_initialized := True\<rparr>"
    using assms(4) initialize_current [OF assms(2), of hash opened] by (auto simp: True answering_Inr)
  have "memory_call hash c (store_of d) = (Inr Finished, store_of d')"
    by (simp add: True a(2) answering_Inr initialize_store_def)
  then show ?thesis using assms(2) by (simp add: a sqlite_inv_def schema_current_def)
next
  case False
  have "db_ok d" using assms(2) by (simp add: sqlite_inv_def)
  from sqlite_call_refines [OF this assms(1,3) False assms(4)]
  have r: "db_ok d'" "memory_call hash c (store_of d) = (Inr a, store_of d')" by blast+
  have "schema_current d'"
    using keepsD [OF sqlite_call_schema [OF False] assms(4)] assms(2) by (simp add: sqlite_inv_def)
  with r show ?thesis by (simp add: sqlite_inv_def)
qed

interpretation sqlite_simulation: forward_simulation "sqlite_call hash en opened" "memory_call hash" store_of
    "\<lambda>d. engine_ok en \<and> sqlite_inv d" "call_fits en"
  for hash :: "json \<Rightarrow> digest" and en :: engine and opened :: instant
  by unfold_locales (use sqlite_step_refines sqlite_call_atomic in \<open>auto simp: atomic_def\<close>)

definition opened_db :: sqlite_db where
  "opened_db = empty_db\<lparr>db_versions := [SCHEMA_VERSION], db_initialized := True\<rparr>"

lemma initialize_empty: "sqlite_initialize hash now empty_db = (Inr (), opened_db)"
  by (simp add: sqlite_initialize_def opened_db_def empty_db_def transaction_def andThen_def migrate_projection_links_to_targets_def
      backfill_source_selectors_def gets_def ret_def modify_def)

lemma opened_inv: "sqlite_inv opened_db"
  by (simp add: sqlite_inv_def schema_current_def db_ok_def opened_db_def empty_db_def)

lemma store_of_opened: "store_of opened_db = snd (initialize_store empty_store)"
  by (simp add: store_of_def opened_db_def empty_db_def initialize_store_def empty_store_def modify_def identity_of_def)

section \<open>Refinement\<close>

text \<open>
  Property C4: the SQL store refines the in-memory store. Open a new database and make any
  calls, some of which may fail, that keep the ports' contract (\<open>call_fits\<close>): a written record
  passes its own validation; the status events of a call name distinct records and supersede
  none before it was recorded; a redaction keeps identity and times; an update of a link
  replaces one the release expects; and a claim scans claimable events of one creation time,
  such as those of one operation, in insertion order. The calls that succeed, made in the same
  order on the in-memory store, succeed there with the same answers and end in the store the
  database represents, in which every row agrees with its document.
\<close>

theorem sqlite_run_refines:
  assumes "engine_ok en"
    and "run_log (sqlite_call hash en opened) (snd (sqlite_initialize hash opened empty_db)) calls = (events, d)"
    and "run_allowed (\<lambda>d c. snd (sqlite_call hash en opened c d)) (\<lambda>d. call_fits en (store_of d))
           (snd (sqlite_initialize hash opened empty_db)) calls"
  shows "db_ok d \<and> run_log (memory_call hash) (snd (initialize_store empty_store)) (map fst (filter (\<lambda>(_, r). \<not> isl r) events)) =
           (filter (\<lambda>(_, r). \<not> isl r) events, store_of d)"
  using sqlite_simulation.simulates [where en = en and opened = opened and hash = hash and d = opened_db] assms opened_inv
  by (simp add: initialize_empty succeeded_def store_of_opened sqlite_inv_def)

definition smp_scan :: engine where
  "smp_scan = \<lparr>en_records = rev, en_outbox = rev\<rparr>"

section \<open>Lookups by operation identity\<close>


lemma identity_of_key: "dict_get (identity_of t) key = Some rid \<Longrightarrow> rid \<in> fst ` set t"
  by (auto simp: identity_of_def dest!: map_of_SomeD) force

lemma find_identity:
  "dict_ok t \<Longrightarrow> (case filter (\<lambda>row. row_key row = key) (dict_values t) of [] \<Rightarrow> None | row # _ \<Rightarrow> Some row) =
     (case dict_get (identity_of t) key of None \<Rightarrow> None | Some rid \<Rightarrow> dict_get t rid)"
proof (induction t)
  case Nil
  then show ?case by (simp add: identity_of_def)
next
  case (Cons p t)
  obtain k row where p: "p = (k, row)" by (cases p)
  have t: "dict_ok t" "k \<notin> fst ` set t" using Cons.prems by (simp_all add: p dict_ok_def)
  show ?case
  proof (cases "row_key row = key")
    case True
    then show ?thesis by (simp add: p identity_of_def)
  next
    case False
    then have i: "dict_get (identity_of ((k, row) # t)) key = dict_get (identity_of t) key" by (auto simp: identity_of_def)
    have "rid \<noteq> k" if "dict_get (identity_of t) key = Some rid" for rid using identity_of_key [OF that] t(2) by blast
    with Cons.IH [OF t(1)] False show ?thesis unfolding p i by (auto split: option.splits)
  qed
qed

section \<open>Late clocks\<close>

text \<open>
  Property C39: a supersession stamped before its record was recorded (a clock that runs late)
  is committed by both stores, but only the in-memory store can still read the record: the
  SQL store edits the stored JSON without validating it, and every later read of the row
  raises, by identifier and in every listing that selects it.
\<close>

theorem late_clock_unreadable:
  assumes "get_record (se_record_id e) (store_of d) = Some r"
    and "se_new_state e = SUPERSEDED" and "se_occurred_at e < recorded_at (mr_temporal r)"
    and "sqlite_transition_state cap e d = (Inr u, d')"
  shows "(\<exists>err. sqlite_get_record (se_record_id e) d' = Inl err)
    \<and> (\<exists>t. transition_state cap e (store_of d) = (Inr (), t) \<and> get_record (se_record_id e) t = Some (transitioned e r))"
proof -
  obtain row where row: "dict_get (db_records d) (se_record_id e) = Some row" "rw_record_json row = r"
    using assms(1) by (auto simp: get_record_store_of)
  obtain row' where row': "dict_get (db_records d') (se_record_id e) = Some row'" "rw_record_json row' = transitioned e r"
    using assms(4) row
    by (auto simp: sqlite_transition_state_def andThen_Inr insert_status_event_def Let_def insert_row_Inr intro: that
        split: if_splits)
  have "superseded_at (mr_temporal (transitioned e r)) = Some (se_occurred_at e)"
      "recorded_at (mr_temporal (transitioned e r)) = recorded_at (mr_temporal r)"
    using assms(2) by (simp_all add: transitioned_def Let_def)
  then have "validate_coordinates (mr_temporal (rw_record_json row')) \<noteq> Inr (mr_temporal (rw_record_json row'))"
    using assms(3) by (simp add: row'(2) coordinates_ok)
  then obtain err where "validate_coordinates (mr_temporal (rw_record_json row')) = Inl err"
    by (auto simp: validate_coordinates_def split: option.splits if_splits)
  then have "sqlite_get_record (se_record_id e) d' = Inl err"
    by (simp add: sqlite_get_record_def row'(1) row_to_record_def)
  moreover have "cap = SERVICE_WRITE_CAPABILITY" "se_previous_state e = None \<or> se_previous_state e = Some (mr_state r)"
    using assms(4) row by (auto simp: sqlite_transition_state_def andThen_Inr insert_status_event_def split: if_splits)
  ultimately show ?thesis
    using assms(1) by (auto simp: transition_state_def andThen_Inr apply_transition_Inr transition_ok_def after_transition_def get_record_def)
qed

section \<open>Erasure\<close>

lemma insert_outbox_frame: "for_each insert_outbox es d = (Inr u, d') \<Longrightarrow> \<exists>t. d' = d\<lparr>db_outbox := t\<rparr>"
proof (induction es arbitrary: d)
  case Nil
  then show ?case by (auto intro!: exI [of _ "db_outbox d"])
next
  case (Cons e es)
  then obtain t where "for_each insert_outbox es (d\<lparr>db_outbox := t\<rparr>) = (Inr u, d')"
    by (auto simp: andThen_Inr insert_outbox_def [of e] insert_row_Inr)
  from Cons.IH [OF this] show ?case by auto
qed

text \<open>
  Property C20: a committed deletion leaves no column of the record's row with the erased
  content: content, assertion, provenance, evidence, confidence, tags, metadata, digests,
  links and the stored document are the redacted record's, and none of the record's source
  selectors is left.
\<close>

theorem sqlite_deletion_scrubs:
  assumes "sqlite_commit_deletion cap receipt q oe oes ev d = (Inr u, d')"
  shows "\<exists>row. dict_get (db_records d') (dr_record_id receipt) = Some row
    \<and> rw_content row = mr_content q \<and> rw_assertion_json row = None \<and> rw_provenance_json row = mr_provenance q
    \<and> rw_evidence_json row = [] \<and> rw_confidence_json row = mr_confidence q \<and> rw_tags_json row = mr_tags q
    \<and> rw_metadata_json row = mr_metadata q \<and> rw_normalized_digest row = mr_normalized_digest q
    \<and> rw_original_digest row = mr_original_digest q \<and> rw_supersedes_json row = mr_supersedes q
    \<and> rw_references_json row = mr_references q \<and> rw_conflicts_with_json row = mr_conflicts_with q
    \<and> rw_state row = mr_state q \<and> rw_record_json row = q
    \<and> dr_record_id receipt \<notin> set (map ss_record_id (dict_values (db_selectors d')))"
proof -
  from assms obtain v d1 w d3 where rec: "se_record_id ev = dr_record_id receipt"
      and e: "insert_status_event ev d = (Inr v, d1)"
      and r: "insert_deletion_receipt receipt (d1\<lparr>db_selectors := filter (\<lambda>(_, x). ss_record_id x \<noteq> dr_record_id receipt) (db_selectors d1),
          db_records := update_rows (dr_record_id receipt) (redact_row q) (db_records d1)\<rparr>) = (Inr w, d3)"
      and o: "for_each insert_outbox ((case oe of None \<Rightarrow> [] | Some e \<Rightarrow> [e]) @ oes) d3 = (Inr u, d')"
    by (auto simp: sqlite_commit_deletion_def andThen_Inr)
  obtain row where row: "dict_get (db_records d1) (dr_record_id receipt) = Some row"
    using e rec by (auto simp: insert_status_event_def andThen_Inr insert_row_Inr Let_def intro: that split: option.splits if_splits)
  from receipt_row_frame [OF r [unfolded insert_deletion_receipt_def]] insert_outbox_frame [OF o]
  have "db_records d' = dict_set (dr_record_id receipt) (redact_row q row) (db_records d1)"
      "db_selectors d' = filter (\<lambda>(_, x). ss_record_id x \<noteq> dr_record_id receipt) (db_selectors d1)"
    by (auto simp: update_rows_def row)
  then show ?thesis by (auto simp: redact_row_def)
qed

section \<open>Opening an older database\<close>

lemma backfill_rows:
  "for_each (backfill_row hash now) rows d = (Inr u, d')
      \<Longrightarrow> \<exists>t. d' = d\<lparr>db_selectors := t\<rparr>"
proof (induction rows arbitrary: d)
  case Nil
  then show ?case by (auto intro!: exI [of _ "db_selectors d"])
next
  case (Cons row rows)
  then obtain t where "for_each (backfill_row hash now) rows
      (d\<lparr>db_selectors := t\<rparr>) = (Inr u, d')"
    by (auto simp: andThen_Inr backfill_row_def [of hash now row] insert_selectors)
  from Cons.IH [OF this] show ?case by auto
qed

lemma backfill_frame: "backfill_source_selectors hash now d = (Inr u, d') \<Longrightarrow> \<exists>t. d' = d\<lparr>db_selectors := t\<rparr>"
  by (auto simp: backfill_source_selectors_def andThen_Inr split: if_splits dest: backfill_rows intro: exI [of _ "db_selectors d"])

text \<open>
  Property C21: opening a database of before schema 8 moves every projection link to its new
  table: the link of a record to a projection is found under the target of the projection's
  name, with the legacy provider type, and no other link is found. The old table is gone, and
  opening the database again changes nothing.
\<close>

theorem initialize_migrates_links:
  assumes "db_legacy_links d = Some rows"
    and "sqlite_initialize hash now d = (Inr u, d')"
  shows "sqlite_get_projection_link rid target d' =
      map_option (\<lambda>row. (gw_link_json row)\<lparr>pk_target_identity := gw_projection_name row, pk_provider_type := LEGACY_PROVIDER_TYPE\<rparr>)
        (dict_get rows (rid, target))
    \<and> db_legacy_links d' = None \<and> db_records d' = db_records d \<and> sqlite_initialize hash later d' = (Inr (), d')"
proof -
  from assms obtain d1 where m: "backfill_source_selectors hash now (d\<lparr>db_links := map_values migrated_link rows, db_legacy_links := None\<rparr>) = (Inr (), d1)"
      and d': "d' = d1\<lparr>db_versions := (if SCHEMA_VERSION \<in> set (db_versions d1) then db_versions d1 else db_versions d1 @ [SCHEMA_VERSION]),
        db_initialized := True\<rparr>"
    by (cases d) (auto simp: sqlite_initialize_def migrate_projection_links_to_targets_def andThen_Inr)
  from backfill_frame [OF m] obtain t where d1: "d1 = d\<lparr>db_links := map_values migrated_link rows, db_legacy_links := None, db_selectors := t\<rparr>"
    by auto
  have again: "sqlite_initialize hash later d' = (Inr (), d')"
    by (simp add: d' d1 sqlite_initialize_def transaction_def andThen_def migrate_projection_links_to_targets_def
        backfill_source_selectors_def gets_def ret_def modify_def)
  have "sqlite_get_projection_link rid target d' =
      map_option (\<lambda>row. (gw_link_json row)\<lparr>pk_target_identity := gw_projection_name row, pk_provider_type := LEGACY_PROVIDER_TYPE\<rparr>)
        (dict_get rows (rid, target))"
    by (cases "dict_get rows (rid, target)") (simp_all add: sqlite_get_projection_link_def d' d1 row_to_link_def migrated_link_def)
  with again show ?thesis by (simp add: d' d1)
qed

section \<open>Listings\<close>

lemma insort_key_agree: "(\<And>y. y \<in> insert x (set xs) \<Longrightarrow> f y = g y) \<Longrightarrow> insort_key f x xs = insort_key g x xs"
  by (induction xs) auto

lemma sort_key_agree: "(\<And>x. x \<in> set xs \<Longrightarrow> f x = g x) \<Longrightarrow> sort_key f xs = sort_key g xs"
  by (induction xs) (auto intro!: insort_key_agree)

text \<open>
  A listing does not depend on the order the engine scans in, as long as no two of the listed
  records were recorded at the same instant; \<open>limit\<close> cuts both at the same place.
\<close>

lemma sqlite_listing:
  assumes "db_ok d" and "engine_ok en"
    and "distinct (map (\<lambda>r. recorded_at (mr_temporal r)) (list_records tenant ns states None (store_of d)))"
  shows "sqlite_list_records en tenant ns states limit d = Inr (list_records tenant ns states limit (store_of d))"
proof -
  let ?P = "\<lambda>row. rw_tenant_id row = tenant \<and> rw_namespace row = ns \<and> (states = [] \<or> rw_state row \<in> set states)"
  let ?Q = "\<lambda>r. mr_tenant_id r = tenant \<and> mr_namespace r = ns \<and> (states = [] \<or> mr_state r \<in> set states)"
  let ?rows = "filter ?P (dict_values (db_records d))"
  have ok: "row_ok (rw_record_id row) row" if "row \<in> set (dict_values (db_records d))" for row
    using assms(1) that by (rule stored_row_ok)
  have cols: "rw_tenant_id row = mr_tenant_id (rw_record_json row)" "rw_namespace row = mr_namespace (rw_record_json row)"
      "rw_state row = mr_state (rw_record_json row)" "rw_recorded_at row = recorded_at (mr_temporal (rw_record_json row))"
    if "row \<in> set (dict_values (db_records d))" for row
    using ok [OF that] by (simp_all add: row_ok_def row_key_def operation_key_def Let_def)
  have "filter (\<lambda>row. ?Q (rw_record_json row)) (dict_values (db_records d)) = ?rows"
    by (rule filter_cong) (simp_all add: cols)
  then have docs: "filter ?Q (dict_values (st_records (store_of d))) = map rw_record_json ?rows"
    by (simp add: filter_map o_def del: map_map)
  have m: "mset (en_records en ?rows) = mset ?rows" by (rule mset_filter_scan(1) [OF assms(2)])
  have times: "map rw_recorded_at ?rows = map (\<lambda>r. recorded_at (mr_temporal r)) (map rw_record_json ?rows)"
    unfolding map_map by (rule map_cong) (simp_all add: cols)
  have "distinct (map (\<lambda>r. recorded_at (mr_temporal r)) (map rw_record_json ?rows))"
    using assms(3) unfolding list_records_def docs by (simp add: by_recency_def sort_desc_def distinct_map del: map_map)
  then have inj: "inj_on (\<lambda>row. - rw_recorded_at row) (set ?rows)"
    unfolding times [symmetric] by (simp add: distinct_map inj_on_def)
  have "inj_on (\<lambda>row. - rw_recorded_at row) (set (en_records en ?rows))" unfolding mset_eq_setD [OF m] by (rule inj)
  then have "sort_desc rw_recorded_at (en_records en ?rows) = sort_desc rw_recorded_at ?rows"
    unfolding sort_desc_def by (intro sort_key_inj_key_eq) (use m in \<open>simp_all del: mset_filter\<close>)
  moreover have "map rw_record_json (sort_desc rw_recorded_at ?rows) = by_recency (map rw_record_json ?rows)"
    unfolding by_recency_def sort_desc_def sort_key_of_map
    by (rule arg_cong [where f = "map rw_record_json"], rule sort_key_agree) (simp_all add: cols)
  moreover have "read_rows (limited limit (sort_desc rw_recorded_at ?rows)) = Inr (map rw_record_json (limited limit (sort_desc rw_recorded_at ?rows)))"
    by (rule read_rows_ok, intro ballI exI, rule ok) (auto simp: limited_def dest!: in_set_takeD split: option.splits)
  moreover have "list_records tenant ns states limit (store_of d) = limited limit (by_recency (map rw_record_json ?rows))"
    unfolding list_records_def docs by (simp add: limited_def Let_def)
  moreover have "map f (limited limit xs) = limited limit (map f xs)" for f :: "record_row \<Rightarrow> memory_record" and xs
    by (simp add: limited_def take_map split: option.split)
  ultimately show ?thesis by (simp only: sqlite_list_records_def)
qed

section \<open>Reads\<close>

text \<open>
  Property C22: on a well-formed database eight readers of the SQL store answer what the
  in-memory store holding the represented state answers: \<open>get_record\<close>,
  \<open>find_by_idempotency\<close>, \<open>get_phase_lock\<close>, \<open>get_projection_link\<close>,
  \<open>get_source_invalidation\<close>, \<open>list_source_selectors\<close>, \<open>outbox_backlog\<close>, and, whatever
  order the engine scans in, \<open>list_records\<close> with its limit, provided no two of the listed
  records were recorded at the same instant. Nothing is said of \<open>search_records\<close>, whose
  candidate limits differ, or of \<open>stats\<close>, whose receipt counts differ.
\<close>

theorem sqlite_reads_agree:
  assumes "db_ok d" and "engine_ok en"
  shows "sqlite_get_record rid d = Inr (get_record rid (store_of d))
    \<and> sqlite_find_by_idempotency tenant ns key d = Inr (find_by_idempotency tenant ns key (store_of d))
    \<and> sqlite_get_phase_lock tenant ns task d = get_phase_lock tenant ns task (store_of d)
    \<and> sqlite_get_projection_link rid target d = get_projection_link rid target (store_of d)
    \<and> sqlite_get_source_invalidation tenant eid d = get_source_invalidation tenant eid (store_of d)
    \<and> sqlite_list_source_selectors rid d = list_source_selectors rid (store_of d)
    \<and> sqlite_outbox_backlog d = outbox_backlog (store_of d)
    \<and> (distinct (map (\<lambda>r. recorded_at (mr_temporal r)) (list_records tenant ns states None (store_of d))) \<longrightarrow>
         sqlite_list_records en tenant ns states limit d = Inr (list_records tenant ns states limit (store_of d)))"
proof (intro conjI impI)
  assume "distinct (map (\<lambda>r. recorded_at (mr_temporal r)) (list_records tenant ns states None (store_of d)))"
  then show "sqlite_list_records en tenant ns states limit d = Inr (list_records tenant ns states limit (store_of d))"
    by (rule sqlite_listing [OF assms])
next
  show "sqlite_get_record rid d = Inr (get_record rid (store_of d))"
    using db_okD(1) [OF assms(1), THEN row_ok_read] by (auto simp: sqlite_get_record_def get_record_store_of split: option.split)
  have ok: "dict_ok (db_records d)" using assms by (simp add: db_ok_def)
  let ?rows = "filter (\<lambda>row. row_key row = (tenant, ns, key)) (dict_values (db_records d))"
  have read: "row_to_record row = Inr (rw_record_json row)" if "row \<in> set ?rows" for row
    using stored_row_ok [OF assms(1), of row] that by (auto intro: row_ok_read)
  show "sqlite_find_by_idempotency tenant ns key d = Inr (find_by_idempotency tenant ns key (store_of d))"
    using find_identity [OF ok, of "(tenant, ns, key)", symmetric] read
    by (cases ?rows) (auto simp: sqlite_find_by_idempotency_def find_by_idempotency_def split: option.splits)
  show "sqlite_outbox_backlog d = outbox_backlog (store_of d)"
  proof -
    have "dict_values (db_outbox d) = map outbox_values (dict_values (st_outbox (store_of d)))"
      using assms by (auto simp: db_ok_def map_values_def intro!: nth_equalityI dest: nth_mem)
    then show ?thesis
      by (simp add: sqlite_outbox_backlog_def outbox_backlog_def filter_map comp_def outbox_values_def del: store_of_sel map_map)
  qed
qed (simp_all add: sqlite_get_phase_lock_def get_phase_lock_def sqlite_get_projection_link_def get_projection_link_def
    sqlite_get_source_invalidation_def get_source_invalidation_def sqlite_list_source_selectors_def list_source_selectors_def,
  simp_all add: store_of_def)

section \<open>Samples\<close>

lemma smp_readable: "readable (smp_record rid st)"
  by (simp add: readable_iff smp_defs memory_record_fields_ok_def len_ok_def is_sha256_hex_def list_all_iff normalize_tags_def)

definition smp_db :: sqlite_db where
  "smp_db = opened_db\<lparr>db_records := [(1, record_values (smp_record 1 ACTIVE))],
     db_receipts := [(700, \<lparr>cw_receipt_id = 700, cw_kind = ''write'', cw_aggregate_id = Some (uuid_str 1),
       cw_status = OfWrite W_ADMITTED, cw_created_at = 5, cw_receipt_json = WriteDoc (smp_write_receipt 1)\<rparr>)],
     db_outbox := [(3, outbox_values (smp_outbox 3 X_PENDING))]\<rparr>"

definition smp_write_call :: store_call where
  "smp_write_call = CommitWrite SERVICE_WRITE_CAPABILITY (Some (smp_record 1 ACTIVE)) (smp_write_receipt 1) [smp_outbox 3 X_PENDING] [] None"

definition smp_late :: store_call where
  "smp_late = TransitionState SERVICE_WRITE_CAPABILITY (smp_event 2 None SUPERSEDED)"

lemma smp_sources: "source_selectors_for_record smp_hash (smp_record 1 ACTIVE) = []"
  by (simp add: source_selectors_for_record_def smp_record_def get_str_def)

lemmas smp_run_simps = andThen_def ret_def check_def gets_def modify_def throw_def insert_row_def transaction_def reraise_def

lemma smp_write_run: "sqlite_call smp_hash smp_scan 0 smp_write_call opened_db = (Inr Finished, smp_db)"
  by (simp add: smp_write_call_def answering_def sqlite_commit_write_def db_insert_record_def smp_run_simps smp_sources
      require_service_write_capability_def insert_receipt_def insert_receipt_row_def insert_outbox_def smp_db_def opened_db_def empty_db_def)
   (simp add: smp_write_receipt_def)

lemma smp_late_run: "sqlite_call smp_hash smp_scan 0 smp_late smp_db = (Inl (StoreError ''status transition target not found''), smp_db)"
  by (simp add: smp_late_def answering_def sqlite_transition_state_def smp_run_simps require_service_write_capability_def
      insert_status_event_def smp_db_def opened_db_def empty_db_def)

definition smp_claim_call :: store_call where
  "smp_claim_call = ClaimOutbox (\<lambda>i. 70) 5 10 300 ''w''"

definition smp_leased :: outbox_event where
  "smp_leased = lease_event 10 300 ''w'' 70 (smp_outbox 3 X_PENDING)"

lemma smp_claim_run: "sqlite_call smp_hash smp_scan 0 smp_claim_call smp_db =
    (Inr (Claimed [smp_leased]), smp_db\<lparr>db_outbox := [(3, outbox_values smp_leased)]\<rparr>)"
  by (simp add: smp_claim_call_def answering_def sqlite_claim_outbox_def due_rows_def smp_scan_def smp_run_simps smp_db_def
      is_claimable_def lease_outbox_values smp_leased_def Let_def enumerate_eq_zip)
    (simp add: outbox_values_def lease_event_def)

lemma smp_scan_ok: "engine_ok smp_scan"
  by (simp add: engine_ok_def smp_scan_def)

text \<open>A write, a transition of a record that does not exist, and a claim: the second fails.\<close>

lemma smp_three_calls:
  "run_log (sqlite_call smp_hash smp_scan 0) opened_db [smp_write_call, smp_late, smp_claim_call] =
     ([(smp_write_call, Inr Finished), (smp_late, Inl (StoreError ''status transition target not found'')),
       (smp_claim_call, Inr (Claimed [smp_leased]))], smp_db\<lparr>db_outbox := [(3, outbox_values smp_leased)]\<rparr>)"
  by (simp add: smp_write_run smp_late_run smp_claim_run)

lemma smp_three_fit:
  "run_allowed (\<lambda>d c. snd (sqlite_call smp_hash smp_scan 0 c d)) (\<lambda>d. call_fits smp_scan (store_of d)) opened_db
     [smp_write_call, smp_late, smp_claim_call]"
proof -
  have "call_fits smp_scan (store_of opened_db) smp_write_call" by (simp add: smp_write_call_def smp_readable timely_def)
  moreover have "call_fits smp_scan (store_of smp_db) smp_late"
    by (simp add: smp_late_def timely_def get_record_def smp_db_def)
  moreover have "call_fits smp_scan (store_of smp_db) smp_claim_call"
    by (simp add: smp_claim_call_def claims_ordered_distinct [OF smp_scan_ok] smp_db_def map_values_def)
  ultimately show ?thesis by (simp add: smp_write_run smp_late_run)
qed

theorem sqlite_run_refines_witness:
  "run_log (memory_call smp_hash) (snd (initialize_store empty_store)) [smp_write_call, smp_claim_call] =
     ([(smp_write_call, Inr Finished), (smp_claim_call, Inr (Claimed [smp_leased]))],
      store_of (smp_db\<lparr>db_outbox := [(3, outbox_values smp_leased)]\<rparr>))"
  using sqlite_run_refines [OF smp_scan_ok, where hash = smp_hash and opened = 0, unfolded initialize_empty snd_conv,
      OF smp_three_calls smp_three_fit]
  by (simp del: run_log.simps store_of_upd)

lemma smp_db_inv: "sqlite_inv smp_db"
proof -
  have "call_fits smp_scan (store_of opened_db) smp_write_call" by (simp add: smp_write_call_def smp_readable timely_def)
  from sqlite_step_refines [OF smp_scan_ok opened_inv this smp_write_run] show ?thesis by blast
qed

lemma smp_db_ok: "db_ok smp_db"
  using smp_db_inv by (simp add: sqlite_inv_def)

theorem sqlite_reads_agree_witness:
  "sqlite_get_record 1 smp_db = Inr (Some (smp_record 1 ACTIVE)) \<and> sqlite_outbox_backlog smp_db = 1
    \<and> sqlite_list_records smp_scan ''t'' ''ns'' [ACTIVE] (Some 4) smp_db = Inr [smp_record 1 ACTIVE]"
proof -
  have l: "list_records ''t'' ''ns'' [ACTIVE] n (store_of smp_db) = (case n of None \<Rightarrow> [smp_record 1 ACTIVE] | Some k \<Rightarrow> take k [smp_record 1 ACTIVE])" for n
    by (simp add: list_records_def smp_db_def map_values_def record_values_def by_recency_def sort_desc_def split: option.split)
  have g: "get_record 1 (store_of smp_db) = Some (smp_record 1 ACTIVE)" "outbox_backlog (store_of smp_db) = 1"
    by (simp_all add: get_record_def outbox_backlog_def) (simp_all add: smp_db_def map_values_def record_values_def)
  show ?thesis
    using sqlite_reads_agree [OF smp_db_ok smp_scan_ok, where rid = 1 and tenant = "''t''" and ns = "''ns''" and states = "[ACTIVE]"
        and limit = "Some 4"]
    by (simp add: l g)
qed

definition smp_early :: memory_status_event where
  "smp_early = (smp_event 1 (Some ACTIVE) SUPERSEDED)\<lparr>se_occurred_at := 4\<rparr>"

theorem late_clock_unreadable_witness:
  "\<exists>err d'. sqlite_transition_state SERVICE_WRITE_CAPABILITY smp_early smp_db = (Inr (), d') \<and> sqlite_get_record 1 d' = Inl err"
proof -
  have r: "get_record 1 (store_of smp_db) = Some (smp_record 1 ACTIVE)"
    by (simp add: get_record_def) (simp add: smp_db_def map_values_def record_values_def)
  obtain d' where d': "sqlite_transition_state SERVICE_WRITE_CAPABILITY smp_early smp_db = (Inr (), d')"
    by (simp add: sqlite_transition_state_def smp_run_simps require_service_write_capability_def insert_status_event_def
        smp_db_def opened_db_def empty_db_def smp_early_def Let_def record_values_def)
  have e: "se_record_id smp_early = 1" "se_new_state smp_early = SUPERSEDED" "se_occurred_at smp_early = 4"
    by (simp_all add: smp_early_def)
  from late_clock_unreadable [of smp_early smp_db "smp_record 1 ACTIVE", OF _ e(2) _ d'] r d' e show ?thesis by auto
qed

definition smp_legacy_db :: sqlite_db where
  "smp_legacy_db = empty_db\<lparr>db_legacy_links := Some [((1, ''p''), \<lparr>gw_record_id = 1, gw_projection_name = ''p'', gw_namespace = ''ns'',
     gw_locator = ''loc'', gw_created_at = 5, gw_link_json = smp_link 1 []\<rparr>)], db_versions := [7]\<rparr>"

theorem initialize_migrates_links_witness:
  "\<exists>d'. sqlite_initialize smp_hash 9 smp_legacy_db = (Inr (), d') \<and> sqlite_get_projection_link 1 ''p'' d' = Some (smp_link 1 ''p'')"
proof -
  obtain d' where d': "sqlite_initialize smp_hash 9 smp_legacy_db = (Inr (), d')"
    by (simp add: sqlite_initialize_def smp_legacy_db_def empty_db_def transaction_def andThen_def migrate_projection_links_to_targets_def
        backfill_source_selectors_def gets_def ret_def modify_def check_def map_values_def SCHEMA_VERSION_def)
  have "db_legacy_links smp_legacy_db = Some [((1, ''p''), \<lparr>gw_record_id = 1, gw_projection_name = ''p'', gw_namespace = ''ns'',
     gw_locator = ''loc'', gw_created_at = 5, gw_link_json = smp_link 1 []\<rparr>)]"
    by (simp add: smp_legacy_db_def)
  from initialize_migrates_links [OF this d', where rid = 1 and target = "''p''"] d' show ?thesis
    by (auto simp: smp_link_def)
qed

definition smp_tombstone_event :: memory_status_event where
  "smp_tombstone_event = smp_event 1 (Some ACTIVE) DELETION_PENDING"

definition smp_redacted :: memory_record where
  "smp_redacted = (smp_record 1 DELETION_PENDING)\<lparr>mr_content := ''[deleted]''\<rparr>"

theorem sqlite_deletion_scrubs_witness:
  "\<exists>d' row. sqlite_commit_deletion SERVICE_WRITE_CAPABILITY (smp_deletion_receipt 61 1) smp_redacted None [] smp_tombstone_event smp_db = (Inr (), d')
    \<and> dict_get (db_records d') 1 = Some row \<and> rw_content row = ''[deleted]''"
proof -
  obtain d' where d': "sqlite_commit_deletion SERVICE_WRITE_CAPABILITY (smp_deletion_receipt 61 1) smp_redacted None [] smp_tombstone_event smp_db = (Inr (), d')"
    by (simp add: sqlite_commit_deletion_def smp_run_simps require_service_write_capability_def insert_status_event_def
        smp_db_def opened_db_def empty_db_def smp_tombstone_event_def smp_redacted_def Let_def record_values_def
        insert_deletion_receipt_def insert_receipt_row_def dict_has_def)
  from sqlite_deletion_scrubs [OF d'] d' show ?thesis by (auto simp: smp_redacted_def)
qed

end
