(* ===== verification/MaintenancePlanner.thy ===== *)
theory MaintenancePlanner
  imports Curation
begin

text \<open>
  The planner of scheduled maintenance (\<open>maintenance/planner.py\<close>): a pure function from the
  records of a namespace to a list of actions. \<open>casefold\<close> is \<open>lower\<close> and \<open>repr\<close> of a string is
  written out on ASCII text. A planner holds the digest (\<open>sha256_text\<close> of canonical JSON) and
  the \<open>uuid4()\<close> drawn for the action of an operation on given sources as parameters.
\<close>

record maintenance_planner =
  mpl_hash :: "json \<Rightarrow> digest"
  mpl_action_id :: "maintenance_operation \<Rightarrow> uuid list \<Rightarrow> uuid"
  mpl_retention :: retention_policy

section \<open>Keys of records\<close>

definition action_digest :: "(json \<Rightarrow> digest) \<Rightarrow> maintenance_operation \<Rightarrow> string \<Rightarrow> string \<Rightarrow> uuid list \<Rightarrow> digest" where
  "action_digest hash op tenant ns ids =
     hash (JObj [(''operation'', JStr (operation_value op)), (''tenant_id'', JStr tenant), (''namespace'', JStr ns),
                 (''sources'', JList (map JStr (sort (map uuid_str ids))))])"

definition overlaps :: "memory_record \<Rightarrow> memory_record \<Rightarrow> bool" where
  "overlaps l r \<longleftrightarrow>
     (case valid_to (mr_temporal l) of None \<Rightarrow> True | Some e \<Rightarrow> valid_from (mr_temporal r) < e)
   \<and> (case valid_to (mr_temporal r) of None \<Rightarrow> True | Some e \<Rightarrow> valid_from (mr_temporal l) < e)"

definition folded :: "string option \<Rightarrow> string" where
  "folded v = lower (strip (case v of None \<Rightarrow> [] | Some s \<Rightarrow> s))"

definition assertion_key :: "memory_record \<Rightarrow> (string \<times> string) option" where
  "assertion_key r =
     (case mr_assertion r of
        None \<Rightarrow> None
      | Some a \<Rightarrow>
          if \<not> is_structured a then None
          else if folded (as_subject a) = [] \<or> folded (as_predicate a) = [] then None
          else Some (folded (as_subject a), folded (as_predicate a)))"

definition assertion_object :: "memory_record \<Rightarrow> string" where
  "assertion_object r = (case mr_assertion r of None \<Rightarrow> [] | Some a \<Rightarrow> folded (as_object a))"

text \<open>\<open>groups.setdefault(key, []).append(record)\<close> for the records that have a key.\<close>

definition group_by :: "(memory_record \<Rightarrow> 'k option) \<Rightarrow> memory_record list \<Rightarrow> ('k, memory_record list) dict" where
  "group_by key rs =
     fold (\<lambda>r d. case key r of
         None \<Rightarrow> d
       | Some k \<Rightarrow> dict_set k ((case dict_get d k of None \<Rightarrow> [] | Some g \<Rightarrow> g) @ [r]) d) rs []"

definition sorted_items :: "('k::linorder, 'v) dict \<Rightarrow> ('k \<times> 'v) list" where
  "sorted_items d = sort_key fst d"

fun join_cluster :: "memory_record \<Rightarrow> memory_record list list \<Rightarrow> memory_record list list" where
  "join_cluster r [] = [[r]]"
| "join_cluster r (c # cs) = (if list_ex (overlaps r) c then (c @ [r]) # cs else c # join_cluster r cs)"

definition overlapping_clusters :: "memory_record list \<Rightarrow> memory_record list list" where
  "overlapping_clusters g = fold join_cluster (sort_key (\<lambda>r. valid_from (mr_temporal r)) g) []"

text \<open>The clusters of two or more records of the groups of two or more records, in key order.\<close>

definition plural :: "'a list \<Rightarrow> bool" where
  "plural xs \<longleftrightarrow> 2 \<le> length xs"

definition clusters_of :: "('k::linorder, memory_record list) dict \<Rightarrow> ('k \<times> memory_record list) list" where
  "clusters_of groups =
     concat (map (\<lambda>(k, g). map (Pair k) (filter plural (overlapping_clusters g)))
       (filter (\<lambda>(_, g). plural g) (sorted_items groups)))"

definition by_recorded :: "memory_record list \<Rightarrow> memory_record list" where
  "by_recorded = sort_key (\<lambda>r. recorded_at (mr_temporal r))"

section \<open>Actions\<close>

definition make_action :: "maintenance_action \<Rightarrow> error + maintenance_action" where
  "make_action a =
     (if len_ok 1 2000 (ma_reason a) \<and> is_sha256_hex (ma_action_digest a) then Inr a
      else Inl (ValueError ''validation error for MaintenanceAction''))"

definition new_action ::
  "maintenance_planner \<Rightarrow> string \<Rightarrow> string \<Rightarrow> maintenance_operation \<Rightarrow> uuid list \<Rightarrow> uuid list \<Rightarrow> uuid list \<Rightarrow> string
     \<Rightarrow> (string, json) dict \<Rightarrow> error + maintenance_action" where
  "new_action pl tenant ns op sources superseded archived reason details =
     make_action \<lparr>ma_action_id = mpl_action_id pl op sources, ma_operation = op, ma_source_record_ids = sources,
       ma_result_record_id = None, ma_superseded_record_ids = superseded, ma_archived_record_ids = archived,
       ma_reason = reason, ma_action_digest = action_digest (mpl_hash pl) op tenant ns sources, ma_applied = False,
       ma_details = details\<rparr>"

text \<open>A loop that builds a list and may raise on an element.\<close>

fun collect :: "('x \<Rightarrow> error + 'y) \<Rightarrow> 'x list \<Rightarrow> error + 'y list" where
  "collect f [] = Inr []"
| "collect f (x # xs) =
     (case f x of
        Inl e \<Rightarrow> Inl e
      | Inr y \<Rightarrow> (case collect f xs of Inl e \<Rightarrow> Inl e | Inr ys \<Rightarrow> Inr (y # ys)))"

definition plan_dedupe ::
  "maintenance_planner \<Rightarrow> string \<Rightarrow> string \<Rightarrow> memory_record list \<Rightarrow> error + maintenance_action list" where
  "plan_dedupe pl tenant ns records =
     collect (\<lambda>(_, cluster).
         let ids = map mr_record_id (by_recorded cluster) in
         new_action pl tenant ns M_DEDUPE ids ids []
           (nat_str (length cluster) @ '' records share normalized content and overlapping validity; consolidated into one derived memory'')
           [(''observation_count'', JInt (int (length cluster)))])
       (clusters_of (group_by (\<lambda>r. Some (class_value (mr_memory_class r), mr_normalized_digest r)) records))"

text \<open>Subject, predicate and object of a record that no earlier operation of the run consumed.\<close>

definition corroboration_key :: "uuid set \<Rightarrow> memory_record \<Rightarrow> (string \<times> string \<times> string) option" where
  "corroboration_key consumed r =
     (if mr_record_id r \<in> consumed then None
      else (case assertion_key r of
              None \<Rightarrow> None
            | Some (s, p) \<Rightarrow> if assertion_object r = [] then None else Some (s, p, assertion_object r)))"

definition plan_refine ::
  "maintenance_planner \<Rightarrow> string \<Rightarrow> string \<Rightarrow> uuid set \<Rightarrow> memory_record list \<Rightarrow> error + maintenance_action list" where
  "plan_refine pl tenant ns consumed records =
     collect (\<lambda>((s, p, obj), cluster).
         let ids = map mr_record_id (by_recorded cluster) in
         new_action pl tenant ns M_REFINE ids ids []
           (nat_str (length cluster) @ '' independently worded records assert '' @ s @ '' '' @ p @ '' '' @ obj
              @ ''; consolidated with combined evidence'')
           [(''subject'', JStr s), (''predicate'', JStr p), (''object'', JStr obj),
            (''corroboration_count'', JInt (int (length cluster)))])
       (clusters_of (filter (\<lambda>(_, g). plural (remdups (map mr_normalized_digest g)))
          (group_by (corroboration_key consumed) records)))"

text \<open>\<open>repr\<close> of an ASCII string.\<close>

definition repr_char :: "char \<Rightarrow> char \<Rightarrow> string" where
  "repr_char q c =
     (let n = of_char c :: nat in
      if c = q \<or> n = 92 then [CHR 0x5C, c]
      else if n = 10 then [CHR 0x5C, CHR ''n'']
      else if n = 13 then [CHR 0x5C, CHR ''r'']
      else if n = 9 then [CHR 0x5C, CHR ''t'']
      else if n < 32 \<or> n = 127 then [CHR 0x5C, CHR ''x''] @ hex_digits 2 n
      else [c])"

definition py_repr :: "string \<Rightarrow> string" where
  "py_repr s =
     (let q = (if CHR 0x27 \<in> set s \<and> CHR 0x22 \<notin> set s then CHR 0x22 else CHR 0x27)
      in q # concat (map (repr_char q) s) @ [q])"

definition statement_key :: "uuid set \<Rightarrow> memory_record \<Rightarrow> (string \<times> string) option" where
  "statement_key consumed r =
     (if mr_record_id r \<in> consumed \<or> assertion_object r = [] then None else assertion_key r)"

text \<open>A later fact with another object replaces an earlier one that had not ended by then.\<close>

definition replaced_by :: "memory_record \<Rightarrow> memory_record \<Rightarrow> bool" where
  "replaced_by latest earlier \<longleftrightarrow>
     assertion_object earlier \<noteq> assertion_object latest
   \<and> valid_from (mr_temporal earlier) < valid_from (mr_temporal latest)
   \<and> (case valid_to (mr_temporal earlier) of None \<Rightarrow> True | Some e \<Rightarrow> valid_from (mr_temporal latest) < e)"

definition replacements :: "memory_record list \<Rightarrow> (memory_record \<times> memory_record) list" where
  "replacements g =
     (let ordered = sort_key (\<lambda>r. (valid_from (mr_temporal r), recorded_at (mr_temporal r))) g
      in map (\<lambda>earlier. (earlier, last ordered)) (filter (replaced_by (last ordered)) (butlast ordered)))"

definition plan_supersede ::
  "maintenance_planner \<Rightarrow> string \<Rightarrow> string \<Rightarrow> uuid set \<Rightarrow> memory_record list \<Rightarrow> error + maintenance_action list" where
  "plan_supersede pl tenant ns consumed records =
     collect (\<lambda>((s, p), earlier, latest).
         new_action pl tenant ns M_SUPERSEDE [mr_record_id earlier, mr_record_id latest] [mr_record_id earlier] []
           (s @ '' '' @ p @ '' changed from '' @ py_repr (assertion_object earlier) @ '' to ''
              @ py_repr (assertion_object latest) @ ''; the earlier record is superseded'')
           [(''subject'', JStr s), (''predicate'', JStr p), (''previous_object'', JStr (assertion_object earlier)),
            (''current_object'', JStr (assertion_object latest)), (''superseded_by'', JStr (uuid_str (mr_record_id latest)))])
       (concat (map (\<lambda>(k, g). map (Pair k) (replacements g))
          (filter (\<lambda>(_, g). plural g) (sorted_items (group_by (statement_key consumed) records)))))"

definition plan_archive ::
  "maintenance_planner \<Rightarrow> string \<Rightarrow> string \<Rightarrow> uuid set \<Rightarrow> instant \<Rightarrow> memory_record list \<Rightarrow> error + maintenance_action list" where
  "plan_archive pl tenant ns consumed now records =
     (let candidates = filter (\<lambda>r. mr_record_id r \<notin> consumed) records;
          ids = map rd_record_id (filter (\<lambda>x. rd_action x = ''archive'') (retention_evaluate (mpl_retention pl) candidates now))
      in if ids = [] then Inr []
         else collect (\<lambda>ids. new_action pl tenant ns M_ARCHIVE ids [] ids
                (nat_str (length ids) @ '' records expired with no incoming references under '' @ rp_policy_version (mpl_retention pl))
                [(''policy_version'', JStr (rp_policy_version (mpl_retention pl)))]) [ids])"

text \<open>\<open>list(value)\<close>, which raises on what is no collection.\<close>

fun py_list :: "json \<Rightarrow> error + json list" where
  "py_list (JList xs) = Inr xs"
| "py_list (JStr s) = Inr (map (\<lambda>c. JStr [c]) s)"
| "py_list (JObj m) = Inr (map (\<lambda>(k, _). JStr k) m)"
| "py_list _ = Inl (TypeError ''object is not iterable'')"

definition metadata_or :: "memory_record \<Rightarrow> string \<Rightarrow> json \<Rightarrow> json" where
  "metadata_or r k absent = (case dict_get (mr_metadata r) k of None \<Rightarrow> absent | Some v \<Rightarrow> v)"

definition plan_review_quarantine ::
  "maintenance_planner \<Rightarrow> string \<Rightarrow> string \<Rightarrow> memory_record list \<Rightarrow> error + maintenance_action list" where
  "plan_review_quarantine pl tenant ns records =
     collect (\<lambda>r. case py_list (metadata_or r ''safety_signals'' (JList [])) of
         Inl e \<Rightarrow> Inl e
       | Inr signals \<Rightarrow>
           new_action pl tenant ns M_REVIEW_QUARANTINE [mr_record_id r] [] [] ''quarantined record awaits automated review''
             [(''safety_signals'', JList signals), (''pii_redacted'', JBool (truthy (metadata_or r ''pii_redacted'' (JBool False))))])
       records"

fun ordered_pairs :: "'a list \<Rightarrow> ('a \<times> 'a) list" where
  "ordered_pairs [] = []"
| "ordered_pairs (x # xs) = map (Pair x) xs @ ordered_pairs xs"

text \<open>Different objects over the same start and overlapping validity, not yet linked both ways.\<close>

definition irreconcilable :: "memory_record \<times> memory_record \<Rightarrow> bool" where
  "irreconcilable = (\<lambda>(left, right).
     assertion_object left \<noteq> assertion_object right \<and> overlaps left right
   \<and> valid_from (mr_temporal left) = valid_from (mr_temporal right)
   \<and> \<not> (mr_record_id right \<in> set (mr_conflicts_with left) \<and> mr_record_id left \<in> set (mr_conflicts_with right)))"

definition plan_reconcile ::
  "maintenance_planner \<Rightarrow> string \<Rightarrow> string \<Rightarrow> uuid set \<Rightarrow> memory_record list \<Rightarrow> error + maintenance_action list" where
  "plan_reconcile pl tenant ns consumed records =
     collect (\<lambda>((s, p), left, right).
         new_action pl tenant ns M_RECONCILE [mr_record_id left, mr_record_id right] [] []
           (s @ '' '' @ p @ '' has conflicting objects '' @ py_repr (assertion_object left) @ '' and ''
              @ py_repr (assertion_object right)
              @ '' over the same validity; reported for governance, not resolved automatically'')
           [(''subject'', JStr s), (''predicate'', JStr p),
            (''objects'', JList [JStr (assertion_object left), JStr (assertion_object right)]),
            (''resolution'', JStr ''requires governance decision'')])
       (concat (map (\<lambda>(k, g). map (Pair k)
            (filter irreconcilable (ordered_pairs (sort_key (\<lambda>r. valid_from (mr_temporal r)) g))))
          (sorted_items (group_by (statement_key consumed) records))))"

section \<open>Plans\<close>

record maintenance_plan =
  mpn_actions :: "maintenance_action list"
  mpn_considered_record_count :: nat
  mpn_skipped_action_digests :: "digest list"

text \<open>\<open>planned\<close> and the records its actions consume.\<close>

definition consumed_by :: "maintenance_action list \<Rightarrow> uuid set" where
  "consumed_by planned = set (concat (map (\<lambda>a. ma_superseded_record_ids a @ ma_archived_record_ids a) planned))"

definition stage ::
  "maintenance_operation list \<Rightarrow> maintenance_operation \<Rightarrow> (uuid set \<Rightarrow> error + maintenance_action list)
     \<Rightarrow> error + maintenance_action list \<Rightarrow> error + maintenance_action list" where
  "stage selected op planner planned =
     (case planned of
        Inl e \<Rightarrow> Inl e
      | Inr actions \<Rightarrow>
          if op \<notin> set selected then Inr actions
          else (case planner (consumed_by actions) of Inl e \<Rightarrow> Inl e | Inr new \<Rightarrow> Inr (actions @ new)))"

definition in_scope :: "memory_state \<Rightarrow> instant \<Rightarrow> memory_record list \<Rightarrow> memory_record list" where
  "in_scope st watermark records =
     sort_key (\<lambda>r. (recorded_at (mr_temporal r), uuid_str (mr_record_id r)))
       (filter (\<lambda>r. mr_state r = st \<and> recorded_at (mr_temporal r) \<le> watermark) records)"

definition planned_actions ::
  "maintenance_planner \<Rightarrow> string \<Rightarrow> string \<Rightarrow> maintenance_operation list \<Rightarrow> instant \<Rightarrow> memory_record list
     \<Rightarrow> memory_record list \<Rightarrow> error + maintenance_action list" where
  "planned_actions pl tenant ns operations now eligible quarantined =
     stage operations M_REVIEW_QUARANTINE (\<lambda>_. plan_review_quarantine pl tenant ns quarantined) (
     stage operations M_RECONCILE (\<lambda>consumed. plan_reconcile pl tenant ns consumed eligible) (
     stage operations M_ARCHIVE (\<lambda>consumed. plan_archive pl tenant ns consumed now eligible) (
     stage operations M_SUPERSEDE (\<lambda>consumed. plan_supersede pl tenant ns consumed eligible) (
     stage operations M_REFINE (\<lambda>consumed. plan_refine pl tenant ns consumed eligible) (
     stage operations M_DEDUPE (\<lambda>_. plan_dedupe pl tenant ns eligible) (Inr []))))))"

definition make_plan ::
  "maintenance_planner \<Rightarrow> string \<Rightarrow> string \<Rightarrow> maintenance_operation list \<Rightarrow> instant \<Rightarrow> digest list \<Rightarrow> nat \<Rightarrow> instant option
     \<Rightarrow> memory_record list \<Rightarrow> error + maintenance_plan" where
  "make_plan pl tenant ns operations watermark applied_digests max_actions now records =
     (let eligible = in_scope ACTIVE watermark records in
      case planned_actions pl tenant ns operations (case now of None \<Rightarrow> watermark | Some t \<Rightarrow> t) eligible
             (in_scope QUARANTINED watermark records) of
        Inl e \<Rightarrow> Inl e
      | Inr planned \<Rightarrow>
          Inr \<lparr>mpn_actions = take max_actions (filter (\<lambda>a. ma_action_digest a \<notin> set applied_digests) planned),
               mpn_considered_record_count = length eligible,
               mpn_skipped_action_digests =
                 filter (\<lambda>x. x \<in> set applied_digests) (map ma_action_digest planned)\<rparr>)"

end
