(* ===== verification/MaintenanceLaws.thy ===== *)
theory MaintenanceLaws
  imports MaintenancePlanner
begin

text \<open>
  What a maintenance plan may contain: clusters are the connected components of overlapping
  validity, a record is consumed at most once, and the plan does not depend on the order in
  which the store lists records.
\<close>

section \<open>Groups\<close>

lemma dict_get_group_by_from:
  "dict_get (fold (\<lambda>r d. case key r of None \<Rightarrow> d
       | Some k \<Rightarrow> dict_set k ((case dict_get d k of None \<Rightarrow> [] | Some g \<Rightarrow> g) @ [r]) d) rs d) k =
     (if filter (\<lambda>r. key r = Some k) rs = [] then dict_get d k
      else Some ((case dict_get d k of None \<Rightarrow> [] | Some g \<Rightarrow> g) @ filter (\<lambda>r. key r = Some k) rs))"
proof (induction rs arbitrary: d)
  case Nil
  then show ?case by simp
next
  case (Cons r rs)
  show ?case by (cases "key r") (auto simp: Cons.IH)
qed

lemma dict_get_group_by:
  "dict_get (group_by key rs) k = (if filter (\<lambda>r. key r = Some k) rs = [] then None else Some (filter (\<lambda>r. key r = Some k) rs))"
  by (simp add: group_by_def dict_get_group_by_from)

lemma dict_ok_group_by: "dict_ok (group_by key rs)"
proof -
  have "dict_ok d \<Longrightarrow> dict_ok (fold (\<lambda>r d. case key r of None \<Rightarrow> d
       | Some k \<Rightarrow> dict_set k ((case dict_get d k of None \<Rightarrow> [] | Some g \<Rightarrow> g) @ [r]) d) rs d)" for d
    by (induction rs arbitrary: d) (auto split: option.split)
  then show ?thesis by (simp add: group_by_def)
qed

lemma dict_set_concat:
  "dict_get d k = Some g \<Longrightarrow> dict_ok d \<Longrightarrow>
     mset (concat (map snd (dict_set k (g @ [r]) d))) = mset (concat (map snd d)) + {#r#}"
  by (induction d) (auto simp: dict_ok_def)

lemma group_by_mset_from:
  "dict_ok d \<Longrightarrow> mset (concat (map snd (fold (\<lambda>r d. case key r of None \<Rightarrow> d
       | Some k \<Rightarrow> dict_set k ((case dict_get d k of None \<Rightarrow> [] | Some g \<Rightarrow> g) @ [r]) d) rs d))) =
     mset (concat (map snd d)) + mset (filter (\<lambda>r. key r \<noteq> None) rs)"
proof (induction rs arbitrary: d)
  case Nil
  then show ?case by simp
next
  case (Cons r rs)
  show ?case
  proof (cases "key r")
    case None
    with Cons show ?thesis by simp
  next
    case (Some k)
    let ?d = "dict_set k ((case dict_get d k of None \<Rightarrow> [] | Some g \<Rightarrow> g) @ [r]) d"
    have "mset (concat (map snd ?d)) = mset (concat (map snd d)) + {#r#}"
      using dict_set_concat [OF _ Cons.prems] by (cases "dict_get d k") (simp_all add: dict_set_new)
    with Cons.IH [of ?d] Cons.prems Some show ?thesis by simp
  qed
qed

lemma group_by_mset: "mset (concat (map snd (group_by key rs))) = mset (filter (\<lambda>r. key r \<noteq> None) rs)"
  using group_by_mset_from [of "[]" key rs] by (simp add: group_by_def)

text \<open>The members of a group all have its key.\<close>

lemma group_by_key: "(k, g) \<in> set (group_by key rs) \<Longrightarrow> g = filter (\<lambda>r. key r = Some k) rs \<and> g \<noteq> []"
proof -
  assume "(k, g) \<in> set (group_by key rs)"
  then have "dict_get (group_by key rs) k = Some g"
    using dict_ok_group_by [of key rs] by (simp add: dict_ok_def)
  then show ?thesis by (simp add: dict_get_group_by split: if_splits)
qed

section \<open>Clusters\<close>

text \<open>One record has ended by the time another starts.\<close>

definition ended_before :: "memory_record \<Rightarrow> memory_record \<Rightarrow> bool" where
  "ended_before x y \<longleftrightarrow> (\<exists>e. valid_to (mr_temporal x) = Some e \<and> e \<le> valid_from (mr_temporal y))"

definition interval_ok :: "memory_record \<Rightarrow> bool" where
  "interval_ok r \<longleftrightarrow> (case valid_to (mr_temporal r) of None \<Rightarrow> True | Some e \<Rightarrow> valid_from (mr_temporal r) < e)"

definition overlap_in :: "memory_record set \<Rightarrow> (memory_record \<times> memory_record) set" where
  "overlap_in A = {(x, y). x \<in> A \<and> y \<in> A \<and> overlaps x y}"

lemma overlaps_sym: "overlaps x y = overlaps y x"
  by (auto simp: overlaps_def)

lemma ended_not_overlaps: "ended_before x y \<Longrightarrow> \<not> overlaps x y"
  by (auto simp: ended_before_def overlaps_def)

lemma overlap_in_mono: "A \<subseteq> B \<Longrightarrow> overlap_in A \<subseteq> overlap_in B"
  by (auto simp: overlap_in_def)

lemma sym_overlap_in: "sym (overlap_in A)"
  by (auto simp: overlap_in_def sym_def overlaps_sym)

lemma mset_join_cluster: "mset (concat (join_cluster r cs)) = mset (concat cs) + {#r#}"
  by (induction cs) auto

text \<open>The clusters of a sweep by start: in order of time, each connected.\<close>

definition sweep_ok :: "memory_record list \<Rightarrow> memory_record list list \<Rightarrow> bool" where
  "sweep_ok ps cs \<longleftrightarrow>
     mset (concat cs) = mset ps
   \<and> sorted_wrt (\<lambda>c c'. \<forall>x \<in> set c. \<forall>y \<in> set c'. ended_before x y) cs
   \<and> (\<forall>c \<in> set cs. c \<noteq> [] \<and> (\<forall>x \<in> set c. \<forall>y \<in> set c. (x, y) \<in> (overlap_in (set ps))\<^sup>*))"

lemma join_cluster_none: "\<forall>c \<in> set cs. \<not> list_ex (overlaps r) c \<Longrightarrow> join_cluster r cs = cs @ [[r]]"
  by (induction cs) auto

lemma join_cluster_last:
  "\<forall>c \<in> set cs. \<not> list_ex (overlaps r) c \<Longrightarrow> list_ex (overlaps r) c \<Longrightarrow> join_cluster r (cs @ [c]) = cs @ [c @ [r]]"
  by (induction cs) auto

lemma sweep_ok_mono:
  "sweep_ok ps cs \<Longrightarrow> c \<in> set cs \<Longrightarrow> x \<in> set c \<Longrightarrow> y \<in> set c \<Longrightarrow> (x, y) \<in> (overlap_in (set (ps @ [r])))\<^sup>*"
proof -
  assume "sweep_ok ps cs" "c \<in> set cs" "x \<in> set c" "y \<in> set c"
  then have "(x, y) \<in> (overlap_in (set ps))\<^sup>*" unfolding sweep_ok_def by blast
  moreover have "overlap_in (set ps) \<subseteq> overlap_in (set (ps @ [r]))" by (rule overlap_in_mono) auto
  note rtrancl_mono [OF this]
  ultimately show ?thesis by (rule subsetD [rotated])
qed

lemma sweep_members: "sweep_ok ps cs \<Longrightarrow> c \<in> set cs \<Longrightarrow> x \<in> set c \<Longrightarrow> x \<in> set ps"
proof -
  assume ok: "sweep_ok ps cs" and c: "c \<in> set cs" "x \<in> set c"
  from ok have "mset (concat cs) = mset ps" unfolding sweep_ok_def by (rule conjunct1)
  then have "set (concat cs) = set ps" by (rule mset_eq_setD)
  with c show ?thesis by auto
qed

lemma sweep_step:
  assumes ok: "sweep_ok ps cs" and start: "\<forall>x \<in> set ps. valid_from (mr_temporal x) \<le> valid_from (mr_temporal r)"
    and r: "interval_ok r"
  shows "sweep_ok (ps @ [r]) (join_cluster r cs)"
proof -
  have apart: "ended_before x r" if "x \<in> set ps" "\<not> overlaps r x" for x
    using that start r by (force simp: overlaps_def ended_before_def interval_ok_def not_less split: option.splits)
  have conn: "x \<in> set c \<Longrightarrow> y \<in> set c \<Longrightarrow> c \<in> set cs \<Longrightarrow> (x, y) \<in> (overlap_in (set (ps @ [r])))\<^sup>*" for c x y
    using sweep_ok_mono [OF ok] by blast
  have full: "\<forall>c \<in> set cs. c \<noteq> []" using ok unfolding sweep_ok_def by blast
  have m: "mset (concat (join_cluster r cs)) = mset (ps @ [r])"
    using ok by (simp add: mset_join_cluster sweep_ok_def)
  show ?thesis
  proof (cases "\<exists>c \<in> set cs. list_ex (overlaps r) c")
    case False
    then have j: "join_cluster r cs = cs @ [[r]]" by (intro join_cluster_none) blast
    have "\<forall>c \<in> set cs. \<forall>x \<in> set c. ended_before x r"
      using False apart sweep_members [OF ok] by (fastforce simp: list_ex_iff)
    then have "sorted_wrt (\<lambda>c c'. \<forall>x \<in> set c. \<forall>y \<in> set c'. ended_before x y) (cs @ [[r]])"
      using ok by (simp add: sweep_ok_def sorted_wrt_append)
    moreover have "\<forall>c \<in> set (cs @ [[r]]). c \<noteq> [] \<and> (\<forall>x \<in> set c. \<forall>y \<in> set c. (x, y) \<in> (overlap_in (set (ps @ [r])))\<^sup>*)"
      using full conn by simp
    ultimately show ?thesis using m unfolding sweep_ok_def j by blast
  next
    case True
    from split_list_first_prop [OF True] obtain us c vs where cs: "cs = us @ c # vs" and c: "list_ex (overlaps r) c"
        and us: "\<forall>u \<in> set us. \<not> list_ex (overlaps r) u"
      by blast
    obtain x where x: "x \<in> set c" "overlaps r x" using c by (auto simp: list_ex_iff)
    have "vs = []"
    proof (rule ccontr)
      assume "vs \<noteq> []"
      then obtain v ws where vs: "vs = v # ws" by (cases vs) auto
      have "v \<noteq> []" using ok by (simp add: sweep_ok_def cs vs)
      then obtain y where y: "y \<in> set v" by (cases v) auto
      have "ended_before x y" using ok x(1) y by (auto simp: sweep_ok_def cs vs sorted_wrt_append)
      moreover have "valid_from (mr_temporal y) \<le> valid_from (mr_temporal r)"
        using start sweep_members [OF ok, of v y] y by (simp add: cs vs)
      ultimately have "ended_before x r" by (auto simp: ended_before_def)
      with x(2) show False using ended_not_overlaps overlaps_sym by blast
    qed
    then have j: "join_cluster r cs = us @ [c @ [r]]" using join_cluster_last [OF us c] by (simp add: cs)
    have end_us: "\<forall>u \<in> set us. \<forall>z \<in> set u. ended_before z r"
      using us apart sweep_members [OF ok] by (fastforce simp: list_ex_iff cs)
    have edge: "(x, r) \<in> overlap_in (set (ps @ [r]))"
      using x sweep_members [OF ok, of c x] by (simp add: overlap_in_def overlaps_sym cs)
    have to_r: "(z, r) \<in> (overlap_in (set (ps @ [r])))\<^sup>*" if "z \<in> set c" for z
      using conn [of z c x] that x(1) edge by (auto simp: cs intro: rtrancl_into_rtrancl)
    have from_r: "(r, z) \<in> (overlap_in (set (ps @ [r])))\<^sup>*" if "z \<in> set c" for z
      using to_r [OF that] sym_rtrancl [OF sym_overlap_in, of "set (ps @ [r])"] by (meson symD)
    have "\<forall>u \<in> set us. \<forall>z \<in> set u. \<forall>w \<in> set c. ended_before z w"
      using ok by (auto simp: sweep_ok_def cs sorted_wrt_append)
    then have "sorted_wrt (\<lambda>c c'. \<forall>x \<in> set c. \<forall>y \<in> set c'. ended_before x y) (us @ [c @ [r]])"
      using ok end_us by (simp add: sweep_ok_def cs sorted_wrt_append ball_Un)
    moreover have "\<forall>d \<in> set (us @ [c @ [r]]). d \<noteq> [] \<and> (\<forall>x \<in> set d. \<forall>y \<in> set d. (x, y) \<in> (overlap_in (set (ps @ [r])))\<^sup>*)"
      using full conn to_r from_r by (simp add: cs ball_Un)
    ultimately show ?thesis using m unfolding sweep_ok_def j by blast
  qed
qed

lemma sweep_fold:
  assumes "sorted (map (\<lambda>r. valid_from (mr_temporal r)) (ps @ rs))" and "\<forall>r \<in> set rs. interval_ok r" and "sweep_ok ps cs"
  shows "sweep_ok (ps @ rs) (fold join_cluster rs cs)"
  using assms
proof (induction rs arbitrary: ps cs)
  case Nil
  then show ?case by simp
next
  case (Cons r rs)
  have "\<forall>x \<in> set ps. valid_from (mr_temporal x) \<le> valid_from (mr_temporal r)"
    using Cons.prems(1) by (auto simp: sorted_append)
  with Cons.prems have "sweep_ok (ps @ [r]) (join_cluster r cs)" by (intro sweep_step) auto
  from Cons.IH [OF _ _ this] Cons.prems show ?case by simp
qed

lemma clusters_sweep:
  assumes "\<forall>r \<in> set g. interval_ok r"
  shows "sweep_ok (sort_key (\<lambda>r. valid_from (mr_temporal r)) g) (overlapping_clusters g)"
proof -
  have "sweep_ok [] []" by (simp add: sweep_ok_def)
  from sweep_fold [OF _ _ this, of "sort_key (\<lambda>r. valid_from (mr_temporal r)) g"] assms show ?thesis
    by (simp add: overlapping_clusters_def)
qed

lemma mset_clusters: "mset (concat (overlapping_clusters g)) = mset g"
proof -
  have "mset (concat (fold join_cluster rs cs)) = mset (concat cs) + mset rs" for rs cs
    by (induction rs arbitrary: cs) (simp_all add: mset_join_cluster)
  then show ?thesis by (simp add: overlapping_clusters_def)
qed

lemma cluster_cover: "x \<in> set g \<Longrightarrow> \<exists>c \<in> set (overlapping_clusters g). x \<in> set c"
  using mset_eq_setD [OF mset_clusters [of g]] by auto

text \<open>Overlapping records are in one cluster.\<close>

lemma cluster_stay:
  assumes ok: "\<forall>r \<in> set g. interval_ok r" and c: "c \<in> set (overlapping_clusters g)" "x \<in> set c"
    and y: "y \<in> set g" "overlaps x y"
  shows "y \<in> set c"
proof (rule ccontr)
  assume "y \<notin> set c"
  from cluster_cover [OF y(1)] obtain c' where c': "c' \<in> set (overlapping_clusters g)" "y \<in> set c'" by blast
  with \<open>y \<notin> set c\<close> have "c \<noteq> c'" by blast
  with c(1) c'(1) have "(\<exists>i j. i < j \<and> j < length (overlapping_clusters g) \<and> overlapping_clusters g ! i = c \<and> overlapping_clusters g ! j = c')
      \<or> (\<exists>i j. i < j \<and> j < length (overlapping_clusters g) \<and> overlapping_clusters g ! i = c' \<and> overlapping_clusters g ! j = c)"
    unfolding in_set_conv_nth by (metis nat_neq_iff)
  with clusters_sweep [OF ok] c(2) c'(2) have "ended_before x y \<or> ended_before y x"
    by (auto simp: sweep_ok_def sorted_wrt_iff_nth_less)
  with \<open>overlaps x y\<close> show False using ended_not_overlaps overlaps_sym by blast
qed

text \<open>
  Property C26: the clusters maintenance consolidates are exactly the connected components of
  overlapping validity. Every record of a group is in exactly one cluster, and two records
  are in a common cluster exactly when a chain of records of the group leads from one to the
  other in which neighbours overlap, although the code compares each record only with the
  clusters built so far and never merges two.
\<close>

theorem clusters_are_components:
  assumes "\<And>r e. r \<in> set g \<Longrightarrow> valid_to (mr_temporal r) = Some e \<Longrightarrow> valid_from (mr_temporal r) < e"
    and "a \<in> set g" and "b \<in> set g"
  shows "mset (concat (overlapping_clusters g)) = mset g
    \<and> ((\<exists>c \<in> set (overlapping_clusters g). a \<in> set c \<and> b \<in> set c) \<longleftrightarrow>
         (a, b) \<in> {(x, y). x \<in> set g \<and> y \<in> set g \<and> overlaps x y}\<^sup>*)"
proof -
  have ok: "\<forall>r \<in> set g. interval_ok r" using assms(1) by (auto simp: interval_ok_def split: option.split)
  note sweep = clusters_sweep [OF ok]
  have rel: "overlap_in (set g) = {(x, y). x \<in> set g \<and> y \<in> set g \<and> overlaps x y}" by (simp add: overlap_in_def)
  have stay: "y \<in> set c" if "c \<in> set (overlapping_clusters g)" "x \<in> set c" "(x, y) \<in> overlap_in (set g)" for x y c
    by (rule cluster_stay [OF ok that(1,2)]) (use that(3) in \<open>auto simp: overlap_in_def\<close>)
  have "b \<in> set c" if "(a, b) \<in> (overlap_in (set g))\<^sup>*" "c \<in> set (overlapping_clusters g)" "a \<in> set c" for c
    using that by (induction rule: rtrancl_induct) (auto intro: stay)
  moreover have "(a, b) \<in> (overlap_in (set g))\<^sup>*" if "c \<in> set (overlapping_clusters g)" "a \<in> set c" "b \<in> set c" for c
    using sweep that by (simp add: sweep_ok_def)
  ultimately show ?thesis using cluster_cover [OF assms(2)] mset_clusters rel by metis
qed

section \<open>What a plan consumes\<close>

definition consumes :: "maintenance_action \<Rightarrow> uuid list" where
  "consumes a = ma_superseded_record_ids a @ ma_archived_record_ids a"

lemma collect_consumes:
  assumes "collect f xs = Inr ys" and "\<And>x y. x \<in> set xs \<Longrightarrow> f x = Inr y \<Longrightarrow> consumes y = g x \<and> ma_operation y = op"
  shows "map consumes ys = map g xs \<and> (\<forall>y \<in> set ys. ma_operation y = op)"
  using assms
proof (induction xs arbitrary: ys)
  case Nil
  then show ?case by simp
next
  case (Cons x xs)
  from Cons.prems(1) obtain y zs where "f x = Inr y" "collect f xs = Inr zs" "ys = y # zs"
    by (auto split: sum.splits)
  with Cons.IH [of zs] Cons.prems(2) show ?case by auto
qed

lemma new_action_consumes:
  "new_action pl tenant ns op sources superseded archived reason details = Inr a \<Longrightarrow>
     consumes a = superseded @ archived \<and> ma_operation a = op \<and> ma_source_record_ids a = sources"
  by (auto simp: new_action_def make_action_def consumes_def split: if_splits)

lemma mset_concat_map: "mset (concat (map f xs)) = \<Sum>\<^sub># (image_mset (\<lambda>x. mset (f x)) (mset xs))"
  by (induction xs) auto

lemma sorted_items_mset: "mset (concat (map snd (sorted_items d))) = mset (concat (map snd d))"
  by (simp add: mset_concat_map sorted_items_def)

lemma concat_filter_sub: "mset (concat (map f (filter P xs))) \<subseteq># mset (concat (map f xs))"
  by (induction xs) (auto intro: subset_mset.add_increasing)

lemma concat_map_sub:
  "(\<And>x. mset (f x) \<subseteq># mset (g x)) \<Longrightarrow> mset (concat (map f xs)) \<subseteq># mset (concat (map g xs))"
  by (induction xs) (auto intro: subset_mset.add_mono)

lemma clusters_of_sub: "mset (concat (map snd (clusters_of groups))) \<subseteq># mset (concat (map snd groups))"
proof -
  have "mset (concat (filter plural (overlapping_clusters g))) \<subseteq># mset g" for g
    using concat_filter_sub [of "\<lambda>c. c" plural "overlapping_clusters g"] by (simp add: mset_clusters)
  then have "mset (concat (map (\<lambda>(k, g). concat (filter plural (overlapping_clusters g))) xs)) \<subseteq># mset (concat (map snd xs))"
    for xs :: "('a \<times> memory_record list) list"
    by (intro concat_map_sub) (simp add: case_prod_unfold)
  moreover have "concat (map snd (concat (map (\<lambda>(k, g). map (Pair k) (filter plural (overlapping_clusters g))) xs))) =
      concat (map (\<lambda>(k, g). concat (filter plural (overlapping_clusters g))) xs)" for xs :: "('a \<times> memory_record list) list"
    by (induction xs) (auto simp: o_def)
  ultimately have "mset (concat (map snd (clusters_of groups))) \<subseteq># mset (concat (map snd (filter (\<lambda>(_, g). plural g) (sorted_items groups))))"
    by (simp add: clusters_of_def)
  also have "\<dots> \<subseteq># mset (concat (map snd (sorted_items groups)))" by (rule concat_filter_sub)
  finally show ?thesis by (simp only: sorted_items_mset)
qed

text \<open>The records an operation's actions consume, among those not consumed before.\<close>

definition fair :: "maintenance_operation \<Rightarrow> uuid set \<Rightarrow> memory_record list \<Rightarrow> maintenance_action list \<Rightarrow> bool" where
  "fair op consumed rs ys \<longleftrightarrow>
     mset (concat (map consumes ys)) \<subseteq># mset (map mr_record_id (filter (\<lambda>r. mr_record_id r \<notin> consumed) rs))
   \<and> (\<forall>y \<in> set ys. ma_operation y = op)"

lemma ids_sub: "mset xs \<subseteq># mset ys \<Longrightarrow> mset (map f xs) \<subseteq># mset (map f ys)"
  by (simp add: image_mset_subseteq_mono)

lemma take_sub: "mset (take n xs) \<subseteq># mset xs"
  using mset_subset_eq_add_left [of "mset (take n xs)" "mset (drop n xs)"] by (simp flip: mset_append)

lemma keyed_sub:
  assumes "\<And>r. key r \<noteq> None \<Longrightarrow> mr_record_id r \<notin> consumed"
  shows "mset (filter (\<lambda>r. key r \<noteq> None) rs) \<subseteq># mset (filter (\<lambda>r. mr_record_id r \<notin> consumed) rs)"
  unfolding mset_filter by (rule filter_mset_mono_strong) (simp, use assms in blast)

lemma by_recorded_items:
  "mset (concat (map (\<lambda>x. map mr_record_id (by_recorded (snd x))) xs)) = mset (map mr_record_id (concat (map snd xs)))"
  by (induction xs) (auto simp: by_recorded_def)

lemma consolidation_sub:
  assumes "\<And>r. key r \<noteq> None \<Longrightarrow> mr_record_id r \<notin> consumed"
  shows "mset (concat (map (\<lambda>x. map mr_record_id (by_recorded (snd x))) (clusters_of (filter P (group_by key rs))))) \<subseteq>#
    mset (map mr_record_id (filter (\<lambda>r. mr_record_id r \<notin> consumed) rs))"
  unfolding by_recorded_items
proof (rule ids_sub)
  let ?cs = "clusters_of (filter P (group_by key rs))"
  have "mset (concat (map snd ?cs)) \<subseteq># mset (concat (map snd (filter P (group_by key rs))))" by (rule clusters_of_sub)
  also have "\<dots> \<subseteq># mset (concat (map snd (group_by key rs)))" by (rule concat_filter_sub)
  also have "\<dots> \<subseteq># mset (filter (\<lambda>r. mr_record_id r \<notin> consumed) rs)" unfolding group_by_mset by (rule keyed_sub [OF assms])
  finally show "mset (concat (map snd ?cs)) \<subseteq># mset (filter (\<lambda>r. mr_record_id r \<notin> consumed) rs)" .
qed

lemma fair_consolidation:
  assumes "collect f (clusters_of (filter P (group_by key rs))) = Inr ys"
    and "\<And>r. key r \<noteq> None \<Longrightarrow> mr_record_id r \<notin> consumed"
    and "\<And>x y. f x = Inr y \<Longrightarrow> consumes y = map mr_record_id (by_recorded (snd x)) \<and> ma_operation y = op"
  shows "fair op consumed rs ys"
  using collect_consumes [OF assms(1,3)] consolidation_sub [OF assms(2), of key P rs] by (simp add: fair_def)

lemma fair_dedupe:
  assumes "plan_dedupe pl tenant ns rs = Inr ys"
  shows "fair M_DEDUPE {} rs ys"
proof (rule fair_consolidation [where P = "\<lambda>_. True"])
  show "collect (\<lambda>(_, cluster).
         let ids = map mr_record_id (by_recorded cluster) in
         new_action pl tenant ns M_DEDUPE ids ids []
           (nat_str (length cluster) @ '' records share normalized content and overlapping validity; consolidated into one derived memory'')
           [(''observation_count'', JInt (int (length cluster)))])
       (clusters_of (filter (\<lambda>_. True) (group_by (\<lambda>r. Some (class_value (mr_memory_class r), mr_normalized_digest r)) rs))) = Inr ys"
    using assms by (simp add: plan_dedupe_def)
qed (auto simp: Let_def case_prod_unfold dest!: new_action_consumes)

lemma fair_refine:
  assumes "plan_refine pl tenant ns consumed rs = Inr ys"
  shows "fair M_REFINE consumed rs ys"
  using assms unfolding plan_refine_def
  by (rule fair_consolidation)
    (auto simp: Let_def case_prod_unfold corroboration_key_def dest!: new_action_consumes split: if_splits)

lemma replaced_sub: "mset (map fst (replacements g)) \<subseteq># mset g"
proof -
  let ?o = "sort_key (\<lambda>r. (valid_from (mr_temporal r), recorded_at (mr_temporal r))) g"
  have "mset (filter (replaced_by (last ?o)) (butlast ?o)) \<subseteq># mset (butlast ?o)" by (simp add: mset_filter)
  also have "\<dots> \<subseteq># mset ?o" by (cases ?o rule: rev_cases) auto
  finally show ?thesis by (simp add: replacements_def Let_def o_def)
qed

lemma fair_supersede:
  assumes "plan_supersede pl tenant ns consumed rs = Inr ys"
  shows "fair M_SUPERSEDE consumed rs ys"
proof -
  let ?gs = "sorted_items (group_by (statement_key consumed) rs)"
  let ?xs = "concat (map (\<lambda>(k, g). map (Pair k) (replacements g)) (filter (\<lambda>(_, g). plural g) ?gs))"
  have c: "map consumes ys = map (\<lambda>x. [mr_record_id (fst (snd x))]) ?xs \<and> (\<forall>y \<in> set ys. ma_operation y = M_SUPERSEDE)"
    by (rule collect_consumes [OF assms [unfolded plan_supersede_def]])
      (auto simp: case_prod_unfold dest!: new_action_consumes)
  have flat: "concat (map (\<lambda>x. [mr_record_id (fst (snd x))]) (concat (map (\<lambda>(k, g). map (Pair k) (replacements g)) zs)))
      = map mr_record_id (concat (map (\<lambda>(k, g). map fst (replacements g)) zs))"
    for zs :: "((string \<times> string) \<times> memory_record list) list"
    by (induction zs) (auto simp: o_def)
  have "mset (concat (map (\<lambda>(k, g). map fst (replacements g)) (filter (\<lambda>(_, g). plural g) ?gs)))
      \<subseteq># mset (concat (map snd (filter (\<lambda>(_, g). plural g) ?gs)))"
    by (rule concat_map_sub) (simp only: case_prod_unfold replaced_sub)
  also have "\<dots> \<subseteq># mset (concat (map snd ?gs))" by (rule concat_filter_sub)
  also have "\<dots> \<subseteq># mset (filter (\<lambda>r. mr_record_id r \<notin> consumed) rs)"
    unfolding sorted_items_mset group_by_mset by (rule keyed_sub) (auto simp: statement_key_def split: if_splits)
  finally have "mset (concat (map consumes ys)) \<subseteq># mset (map mr_record_id (filter (\<lambda>r. mr_record_id r \<notin> consumed) rs))"
    unfolding conjunct1 [OF c] flat by (rule ids_sub)
  with c show ?thesis by (simp add: fair_def)
qed

lemma fair_archive:
  assumes "plan_archive pl tenant ns consumed now rs = Inr ys"
  shows "fair M_ARCHIVE consumed rs ys"
proof -
  let ?c = "filter (\<lambda>r. mr_record_id r \<notin> consumed) rs"
  let ?ds = "retention_evaluate (mpl_retention pl) ?c now"
  let ?ids = "map rd_record_id (filter (\<lambda>x. rd_action x = ''archive'') ?ds)"
  have "mset ?ids \<subseteq># mset (map rd_record_id ?ds)" by (rule ids_sub) (simp add: mset_filter)
  also have "map rd_record_id ?ds = map mr_record_id ?c"
    by (simp add: retention_evaluate_def retention_decide_def Let_def case_prod_unfold o_def)
  finally have sub: "mset ?ids \<subseteq># mset (map mr_record_id ?c)" .
  have "ys = [] \<or> (\<exists>y. ys = [y] \<and> consumes y = ?ids \<and> ma_operation y = M_ARCHIVE)"
    using assms by (auto simp: plan_archive_def Let_def dest!: new_action_consumes split: if_splits sum.splits)
  with sub show ?thesis by (auto simp: fair_def)
qed

lemma fair_nothing:
  assumes "collect f xs = Inr ys" and "\<And>x y. f x = Inr y \<Longrightarrow> consumes y = [] \<and> ma_operation y = op"
  shows "fair op consumed rs ys"
proof -
  have c: "map consumes ys = map (\<lambda>_. []) xs \<and> (\<forall>y \<in> set ys. ma_operation y = op)"
    by (rule collect_consumes [OF assms(1)]) (use assms(2) in blast)
  have "concat (map consumes ys) = []" unfolding conjunct1 [OF c] by (induction xs) auto
  with c show ?thesis by (simp add: fair_def del: concat_eq_Nil_conv)
qed

lemma fair_reconcile: "plan_reconcile pl tenant ns consumed rs = Inr ys \<Longrightarrow> fair M_RECONCILE consumed rs ys"
  unfolding plan_reconcile_def by (rule fair_nothing) (auto simp: case_prod_unfold dest!: new_action_consumes)

lemma fair_review: "plan_review_quarantine pl tenant ns qs = Inr ys \<Longrightarrow> fair M_REVIEW_QUARANTINE consumed rs ys"
  unfolding plan_review_quarantine_def
  by (rule fair_nothing) (auto dest!: new_action_consumes split: sum.splits)

text \<open>What every stage of a plan keeps: no record is consumed twice, and only a listed one.\<close>

definition sound_plan :: "maintenance_operation list \<Rightarrow> uuid list \<Rightarrow> error + maintenance_action list \<Rightarrow> bool" where
  "sound_plan selected ids planned =
     (case planned of
        Inl e \<Rightarrow> True
      | Inr ys \<Rightarrow> distinct (concat (map consumes ys)) \<and> set (concat (map consumes ys)) \<subseteq> set ids
          \<and> ma_operation ` set ys \<subseteq> set selected)"

lemma mset_sub_distinct: "mset xs \<subseteq># mset ys \<Longrightarrow> distinct ys \<Longrightarrow> distinct xs \<and> set xs \<subseteq> set ys"
proof (intro conjI)
  assume sub: "mset xs \<subseteq># mset ys" and d: "distinct ys"
  show "distinct xs"
    using sub d unfolding distinct_count_atmost_1 by (metis mset_subset_eq_count le_antisym not_one_le_zero less_one not_le
      order_trans count_mset_0_iff in_multiset_in_set set_mset_mono subsetD set_mset_mset count_greater_eq_one_iff)
  show "set xs \<subseteq> set ys" using set_mset_mono [OF sub] by simp
qed

lemma consumed_by_consumes: "consumed_by ys = set (concat (map consumes ys))"
  by (simp add: consumed_by_def consumes_def)

lemma stage_sound:
  assumes sound: "sound_plan selected (map mr_record_id rs) planned" and d: "distinct (map mr_record_id rs)"
    and fair: "\<And>ys zs. planned = Inr ys \<Longrightarrow> planner (consumed_by ys) = Inr zs \<Longrightarrow> fair op (consumed_by ys) rs zs"
  shows "sound_plan selected (map mr_record_id rs) (stage selected op planner planned)"
proof (cases planned)
  case (Inl e)
  then show ?thesis by (simp add: stage_def sound_plan_def)
next
  case (Inr ys)
  show ?thesis
  proof (cases "op \<in> set selected \<and> (\<exists>zs. planner (consumed_by ys) = Inr zs)")
    case False
    with sound Inr show ?thesis by (auto simp: stage_def sound_plan_def split: sum.splits)
  next
    case True
    then obtain zs where zs: "planner (consumed_by ys) = Inr zs" by blast
    let ?f = "filter (\<lambda>r. mr_record_id r \<notin> consumed_by ys) rs"
    have "fair op (consumed_by ys) rs zs" using fair Inr zs by blast
    then have sub: "mset (concat (map consumes zs)) \<subseteq># mset (map mr_record_id ?f)"
      and op: "\<forall>y \<in> set zs. ma_operation y = op" by (simp_all add: fair_def)
    have "distinct (map mr_record_id ?f)" using d by (simp add: distinct_map_filter)
    from mset_sub_distinct [OF sub this] have
      zd: "distinct (concat (map consumes zs))" and zsub: "set (concat (map consumes zs)) \<subseteq> mr_record_id ` set ?f" by simp_all
    from zsub have "set (concat (map consumes ys)) \<inter> set (concat (map consumes zs)) = {}"
      unfolding consumed_by_consumes by fastforce
    moreover have "set (concat (map consumes zs)) \<subseteq> set (map mr_record_id rs)" using zsub by auto
    ultimately show ?thesis
      using sound zd op True zs Inr by (auto simp: stage_def sound_plan_def simp del: set_concat set_map)
  qed
qed

lemma planned_actions_sound:
  assumes "distinct (map mr_record_id rs)"
  shows "sound_plan operations (map mr_record_id rs) (planned_actions pl tenant ns operations now rs qs)"
  unfolding planned_actions_def
proof (intro stage_sound assms)
  show "sound_plan operations (map mr_record_id rs) (Inr [])" by (simp add: sound_plan_def)
next
  fix ys zs assume "(Inr [] :: error + maintenance_action list) = Inr ys" and d: "plan_dedupe pl tenant ns rs = Inr zs"
  then have "ys = []" by simp
  with fair_dedupe [OF d] show "fair M_DEDUPE (consumed_by ys) rs zs" by (simp add: consumed_by_def)
qed (auto intro: fair_refine fair_supersede fair_archive fair_reconcile fair_review)

text \<open>
  Property C25: a maintenance plan consumes no record twice. Over records with distinct ids the
  ids that its actions supersede or archive are distinct, each is the id of a listed ACTIVE
  record recorded no later than the watermark, every action is of a requested operation and
  was not applied before, and there are at most the allowed number of actions.
\<close>

theorem plan_is_safe:
  assumes "distinct (map mr_record_id records)"
    and "make_plan pl tenant ns operations watermark applied max_actions now records = Inr p"
  shows "distinct (concat (map (\<lambda>a. ma_superseded_record_ids a @ ma_archived_record_ids a) (mpn_actions p)))
    \<and> (\<forall>a \<in> set (mpn_actions p). ma_operation a \<in> set operations \<and> ma_action_digest a \<notin> set applied
         \<and> (\<forall>i \<in> set (ma_superseded_record_ids a @ ma_archived_record_ids a).
              \<exists>r \<in> set records. mr_record_id r = i \<and> mr_state r = ACTIVE \<and> recorded_at (mr_temporal r) \<le> watermark))
    \<and> length (mpn_actions p) \<le> max_actions"
proof -
  let ?e = "in_scope ACTIVE watermark records"
  have "mset (map mr_record_id ?e) \<subseteq># mset (map mr_record_id records)"
    by (rule ids_sub) (simp add: in_scope_def mset_filter)
  with assms(1) have d: "distinct (map mr_record_id ?e)" using mset_sub_distinct by blast
  have e: "mr_state r = ACTIVE \<and> recorded_at (mr_temporal r) \<le> watermark \<and> r \<in> set records" if "r \<in> set ?e" for r
    using that by (simp add: in_scope_def)
  obtain ys t where ys: "planned_actions pl tenant ns operations t ?e (in_scope QUARANTINED watermark records) = Inr ys"
    and p: "mpn_actions p = take max_actions (filter (\<lambda>a. ma_action_digest a \<notin> set applied) ys)"
    using assms(2) by (auto simp: make_plan_def Let_def split: sum.splits)
  have sound: "sound_plan operations (map mr_record_id ?e) (Inr ys)"
    using planned_actions_sound [OF d] unfolding ys [symmetric] .
  have "mset (mpn_actions p) \<subseteq># mset ys"
    unfolding p by (rule subset_mset.order_trans [OF take_sub]) (simp add: mset_filter)
  then have "mset (concat (map consumes (mpn_actions p))) \<subseteq># mset (concat (map consumes ys))"
    by (auto simp: mset_concat_map elim!: mset_subset_eq_exists_conv [THEN iffD1, THEN exE])
  then have D: "distinct (concat (map consumes (mpn_actions p)))"
    using sound mset_sub_distinct by (auto simp: sound_plan_def simp del: mset_concat)
  have E: "ma_operation a \<in> set operations \<and> ma_action_digest a \<notin> set applied
      \<and> (\<forall>i \<in> set (consumes a). \<exists>r \<in> set records. mr_record_id r = i \<and> mr_state r = ACTIVE \<and> recorded_at (mr_temporal r) \<le> watermark)"
    if a: "a \<in> set (mpn_actions p)" for a
  proof -
    from a have ay: "a \<in> set ys" "ma_action_digest a \<notin> set applied" unfolding p by (auto dest: in_set_takeD)
    then have op: "ma_operation a \<in> set operations" and sub: "set (consumes a) \<subseteq> mr_record_id ` set ?e"
      using sound by (auto simp: sound_plan_def)
    have "\<exists>r \<in> set records. mr_record_id r = i \<and> mr_state r = ACTIVE \<and> recorded_at (mr_temporal r) \<le> watermark"
      if i: "i \<in> set (consumes a)" for i
    proof -
      from sub i obtain r where r: "r \<in> set ?e" "mr_record_id r = i" by auto
      from e [OF r(1)] r(2) show ?thesis by blast
    qed
    with op ay(2) show ?thesis by simp
  qed
  have ce: "consumes = (\<lambda>a. ma_superseded_record_ids a @ ma_archived_record_ids a)" by (simp add: fun_eq_iff consumes_def)
  have "length (mpn_actions p) \<le> max_actions" by (simp add: p)
  with D show ?thesis using ballI [OF E, of "set (mpn_actions p)" "\<lambda>a. a"] unfolding ce by (intro conjI) assumption+
qed

text \<open>
  Property C27: a maintenance plan depends on the records and not on the order the store lists
  them in: two listings of the same records with distinct ids give the same plan, or fail
  with the same error.
\<close>

theorem plan_order_free:
  assumes "mset records = mset records'" and "distinct (map mr_record_id records)"
  shows "make_plan pl tenant ns operations watermark applied max_actions now records =
    make_plan pl tenant ns operations watermark applied max_actions now records'"
proof -
  have "in_scope st watermark records = in_scope st watermark records'" for st
    unfolding in_scope_def
  proof (rule sort_key_inj_key_eq)
    show "inj_on (\<lambda>r. (recorded_at (mr_temporal r), uuid_str (mr_record_id r)))
        (set (filter (\<lambda>r. mr_state r = st \<and> recorded_at (mr_temporal r) \<le> watermark) records))"
      using assms(2) by (auto simp: inj_on_def distinct_map dest: uuid_str_inj)
  qed (simp_all add: mset_filter assms(1))
  then show ?thesis by (simp add: make_plan_def Let_def)
qed

section \<open>Reasons that are too long\<close>

lemma collect_error: "x \<in> set xs \<Longrightarrow> f x = Inl e \<Longrightarrow> \<exists>e'. collect f xs = Inl e'"
  by (induction xs) (auto split: sum.splits)

lemma stage_error: "stage selected op planner (Inl e) = Inl e"
  by (simp add: stage_def)

lemma plural_two: "a \<in> set xs \<Longrightarrow> b \<in> set xs \<Longrightarrow> a \<noteq> b \<Longrightarrow> plural xs"
proof -
  assume "a \<in> set xs" "b \<in> set xs" "a \<noteq> b"
  then have "card {a, b} \<le> card (set xs)" by (intro card_mono) auto
  with \<open>a \<noteq> b\<close> card_length [of xs] show "plural xs" by (simp add: plural_def)
qed

lemma group_by_member:
  "r \<in> set rs \<Longrightarrow> key r = Some k \<Longrightarrow> (k, filter (\<lambda>r. key r = Some k) rs) \<in> set (group_by key rs)"
proof -
  assume "r \<in> set rs" "key r = Some k"
  then have "filter (\<lambda>r. key r = Some k) rs \<noteq> []" by (auto simp: filter_empty_conv)
  then have "dict_get (group_by key rs) k = Some (filter (\<lambda>r. key r = Some k) rs)" by (simp add: dict_get_group_by)
  then show ?thesis by (simp add: map_of_SomeD)
qed

lemma cluster_listed:
  assumes "(k, g) \<in> set d" and "c \<in> set (overlapping_clusters g)" and "plural g" and "plural c"
  shows "(k, c) \<in> set (clusters_of d)"
  unfolding clusters_of_def using assms by (auto simp: sorted_items_def intro!: bexI [of _ "(k, g)"])

text \<open>Dedupe consumes a record only with another one of the same digest.\<close>

lemma clusters_of_member:
  assumes "(k, c) \<in> set (clusters_of (group_by key rs))" and "distinct rs"
  shows "plural c \<and> distinct c \<and> set c \<subseteq> {r \<in> set rs. key r = Some k}"
proof -
  obtain g where g: "(k, g) \<in> set (group_by key rs)" "c \<in> set (overlapping_clusters g)" "plural c"
    using assms(1) by (auto simp: clusters_of_def sorted_items_def)
  from group_by_key [OF g(1)] have f: "g = filter (\<lambda>r. key r = Some k) rs" by simp
  then have "distinct g" using assms(2) by simp
  then have "distinct (concat (overlapping_clusters g))"
    using mset_eq_imp_distinct_iff [OF mset_clusters [of g]] by simp
  with g(2) have "distinct c" by (auto simp: distinct_concat_iff)
  moreover have "set c \<subseteq> set g" using mset_eq_setD [OF mset_clusters [of g]] g(2) by auto
  ultimately show ?thesis using g(3) f by auto
qed

lemma dedupe_consumes:
  assumes "plan_dedupe pl tenant ns rs = Inr ys" and "distinct (map mr_record_id rs)"
    and "a \<in> set rs" and "mr_record_id a \<in> consumed_by ys"
  shows "\<exists>r \<in> set rs. r \<noteq> a \<and> mr_normalized_digest r = mr_normalized_digest a"
proof -
  let ?key = "\<lambda>r. Some (class_value (mr_memory_class r), mr_normalized_digest r)"
  let ?cs = "clusters_of (group_by ?key rs)"
  have "map consumes ys = map (\<lambda>x. map mr_record_id (by_recorded (snd x))) ?cs"
    using assms(1) unfolding plan_dedupe_def
    by (rule collect_consumes [where op = M_DEDUPE, THEN conjunct1])
      (auto simp: Let_def case_prod_unfold dest!: new_action_consumes)
  with assms(4) have "mr_record_id a \<in> set (concat (map (\<lambda>x. map mr_record_id (by_recorded (snd x))) ?cs))"
    by (simp only: consumed_by_consumes)
  then obtain k c r where c: "(k, c) \<in> set ?cs" "r \<in> set c" "mr_record_id r = mr_record_id a"
    by (auto simp: by_recorded_def)
  have "distinct rs" using assms(2) by (simp add: distinct_map)
  from clusters_of_member [OF c(1) this] have m: "plural c" "distinct c" "\<And>x. x \<in> set c \<Longrightarrow> x \<in> set rs \<and> ?key x = Some k"
    by auto
  with c assms(2,3) have a: "a \<in> set c" by (metis distinct_map inj_onD)
  have "card (set c) \<noteq> card {a}" using m(1) distinct_card [OF m(2)] by (simp add: plural_def)
  with a obtain x where "x \<in> set c" "x \<noteq> a" by (metis insertI1 singletonI subset_antisym subsetI insert_absorb empty_iff singletonD)
  with m(3) [OF a] m(3) [of x] show ?thesis by auto
qed

lemma refine_raises:
  assumes "a \<in> set rs" and "b \<in> set rs" and "mr_record_id a \<notin> C" and "mr_record_id b \<notin> C"
    and "\<And>r. r \<in> {a, b} \<Longrightarrow> mr_state r = ACTIVE \<and> recorded_at (mr_temporal r) \<le> watermark
           \<and> assertion_key r = Some (s, p) \<and> assertion_object r = obj"
    and "mr_normalized_digest a \<noteq> mr_normalized_digest b"
    and "overlaps a b" and "2000 < length s + length p + length obj" and "obj \<noteq> []"
    and ok: "\<forall>r \<in> set rs. interval_ok r"
  shows "\<exists>e. plan_refine pl tenant ns C rs = Inl e"
proof -
  let ?k = "(s, p, obj)"
  let ?d = "filter (\<lambda>(_, g). plural (remdups (map mr_normalized_digest g))) (group_by (corroboration_key C) rs)"
  let ?g = "filter (\<lambda>r. corroboration_key C r = Some ?k) rs"
  have key: "corroboration_key C a = Some ?k" "corroboration_key C b = Some ?k"
    using assms(3-5,9) by (auto simp: corroboration_key_def)
  have ab: "a \<in> set ?g" "b \<in> set ?g" "a \<noteq> b" using assms(1,2,6) key by auto
  then have "plural (remdups (map mr_normalized_digest ?g))"
    using assms(6) by (intro plural_two [of "mr_normalized_digest a" _ "mr_normalized_digest b"]) auto
  then have kd: "(?k, ?g) \<in> set ?d"
    using group_by_member [of a rs "corroboration_key C" ?k, OF assms(1) key(1)] by simp
  have ok': "\<forall>r \<in> set ?g. interval_ok r" using ok by simp
  obtain c where c: "c \<in> set (overlapping_clusters ?g)" "a \<in> set c" using cluster_cover [OF ab(1)] by blast
  have "b \<in> set c" by (rule cluster_stay [OF ok' c ab(2) assms(7)])
  with c(2) ab(3) have "plural c" by (auto intro: plural_two)
  from cluster_listed [OF kd c(1) plural_two [OF ab] this] have listed: "(?k, c) \<in> set (clusters_of ?d)" .
  show ?thesis
    unfolding plan_refine_def
    by (rule collect_error [OF listed]) (use assms(8) in \<open>simp add: Let_def new_action_def make_action_def len_ok_def\<close>)
qed

text \<open>
  Property C38: two valid assertions can stop every maintenance run. Let the listed records have
  distinct identifiers and valid intervals, as stored records do, and let two of them, ACTIVE,
  recorded by the watermark, of overlapping validity and different digest, assert the same
  subject, predicate and object, together longer than 2000 characters (each alone within its
  limit). Unless dedupe runs first and finds a further record with the digest of one of the
  two, the reason the refine step writes exceeds the limit of a maintenance action, and
  planning raises instead of returning a plan, whatever the other records, the other requested
  operations, the applied digests and the allowed number of actions.
\<close>

theorem long_corroboration_aborts:
  assumes "M_REFINE \<in> set operations" and "distinct (map mr_record_id records)"
    and "\<And>r e. r \<in> set records \<Longrightarrow> valid_to (mr_temporal r) = Some e \<Longrightarrow> valid_from (mr_temporal r) < e"
    and "{a, b} \<subseteq> set records" and "mr_normalized_digest a \<noteq> mr_normalized_digest b"
    and "\<And>r. M_DEDUPE \<in> set operations \<Longrightarrow> r \<in> set records \<Longrightarrow> r \<notin> {a, b} \<Longrightarrow>
           mr_normalized_digest r \<notin> {mr_normalized_digest a, mr_normalized_digest b}"
    and "\<And>r. r \<in> {a, b} \<Longrightarrow> mr_state r = ACTIVE \<and> recorded_at (mr_temporal r) \<le> watermark
           \<and> assertion_key r = Some (s, p) \<and> assertion_object r = obj"
    and "overlaps a b" and "2000 < length s + length p + length obj" and "obj \<noteq> []"
  shows "\<exists>e. make_plan pl tenant ns operations watermark applied max_actions now records = Inl e"
proof -
  let ?e = "in_scope ACTIVE watermark records"
  let ?dedupe = "stage operations M_DEDUPE (\<lambda>_. plan_dedupe pl tenant ns ?e) (Inr [])"
  have mem: "a \<in> set ?e" "b \<in> set ?e" using assms(4,7) by (auto simp: in_scope_def)
  have sub: "set ?e \<subseteq> set records" by (auto simp: in_scope_def)
  have "mset (map mr_record_id ?e) \<subseteq># mset (map mr_record_id records)"
    by (rule ids_sub) (simp add: in_scope_def mset_filter)
  from mset_sub_distinct [OF this assms(2)] have ids: "distinct (map mr_record_id ?e)" by simp
  have spared: "mr_record_id x \<notin> consumed_by ys" if ys: "?dedupe = Inr ys" and x: "x \<in> {a, b}" for ys x
  proof
    assume i: "mr_record_id x \<in> consumed_by ys"
    then have d: "M_DEDUPE \<in> set operations" "plan_dedupe pl tenant ns ?e = Inr ys"
      using ys by (auto simp: stage_def consumed_by_def split: if_splits sum.splits)
    from dedupe_consumes [OF d(2) ids _ i] x mem obtain r where
      r: "r \<in> set ?e" "r \<noteq> x" "mr_normalized_digest r = mr_normalized_digest x" by auto
    then have "r \<in> set records" "r \<notin> {a, b}" using sub x assms(5) by auto
    from assms(6) [OF d(1) this] r(3) x show False by auto
  qed
  have ok: "\<forall>r \<in> set ?e. interval_ok r" using assms(3) sub by (auto simp: interval_ok_def split: option.split)
  have refine: "\<exists>e. plan_refine pl tenant ns C ?e = Inl e" if "mr_record_id a \<notin> C" "mr_record_id b \<notin> C" for C
    by (rule refine_raises [OF mem that(1,2) assms(7) assms(5,8-10) ok]) simp_all
  have "\<exists>e. stage operations M_REFINE (\<lambda>consumed. plan_refine pl tenant ns consumed ?e) ?dedupe = Inl e"
  proof (cases ?dedupe)
    case (Inl e)
    then show ?thesis by (simp add: stage_error)
  next
    case (Inr ys)
    with refine [of "consumed_by ys"] spared [OF Inr] assms(1) show ?thesis by (auto simp: stage_def)
  qed
  then have "\<exists>e. planned_actions pl tenant ns operations t ?e qs = Inl e" for t qs
    unfolding planned_actions_def by (auto simp: stage_error)
  then show ?thesis by (auto simp: make_plan_def Let_def split: sum.split) (metis sum.distinct(1))
qed

end
