(* ===== verification/MaintenanceSamples.thy ===== *)
theory MaintenanceSamples
  imports MaintenanceLaws Samples
begin

text \<open>Concrete plans on which the properties of the maintenance planner are exercised.\<close>

definition mnt_planner :: maintenance_planner where
  "mnt_planner = \<lparr>mpl_hash = smp_hash, mpl_action_id = (\<lambda>op ids. 50), mpl_retention = default_retention_policy\<rparr>"

definition mnt_fact :: "uuid \<Rightarrow> string \<Rightarrow> memory_record" where
  "mnt_fact rid obj = (smp_record rid ACTIVE)\<lparr>mr_normalized_digest := replicate 64 (if rid = 1 then CHR ''1'' else CHR ''2''),
     mr_assertion := Some \<lparr>as_subject = Some ''s'', as_predicate = Some ''p'', as_object = Some obj\<rparr>\<rparr>"

definition mnt_later :: memory_record where
  "mnt_later = (smp_record 2 ACTIVE)\<lparr>mr_temporal := smp_temporal\<lparr>recorded_at := 6\<rparr>\<rparr>"

lemma mnt_times [simp]:
  "valid_to (mr_temporal (smp_record i st)) = None" "valid_from (mr_temporal (smp_record i st)) = 0"
  "recorded_at (mr_temporal (smp_record i st)) = 5"
  by (simp_all add: smp_record_def smp_temporal_def)

lemma mnt_later [simp]:
  "mr_record_id mnt_later = 2" "mr_state mnt_later = ACTIVE"
  "valid_to (mr_temporal mnt_later) = None" "valid_from (mr_temporal mnt_later) = 0" "recorded_at (mr_temporal mnt_later) = 6"
  by (simp_all add: mnt_later_def smp_record_def smp_temporal_def)

lemma clusters_are_components_witness:
  "\<exists>c \<in> set (overlapping_clusters [smp_record 1 ACTIVE, mnt_later]).
     smp_record 1 ACTIVE \<in> set c \<and> mnt_later \<in> set c"
proof -
  let ?g = "[smp_record 1 ACTIVE, mnt_later]"
  have "(smp_record 1 ACTIVE, mnt_later) \<in> {(x, y). x \<in> set ?g \<and> y \<in> set ?g \<and> overlaps x y}\<^sup>*"
    by (rule r_into_rtrancl) (simp add: overlaps_def)
  moreover have "\<And>r e. r \<in> set ?g \<Longrightarrow> valid_to (mr_temporal r) = Some e \<Longrightarrow> valid_from (mr_temporal r) < e" by auto
  note clusters_are_components [of ?g "smp_record 1 ACTIVE" "mnt_later", OF this]
  ultimately show ?thesis by (meson list.set_intros)
qed

definition mnt_dedupe :: maintenance_action where
  "mnt_dedupe =
     \<lparr>ma_action_id = 50, ma_operation = M_DEDUPE, ma_source_record_ids = [1, 2],
      ma_result_record_id = None, ma_superseded_record_ids = [1, 2], ma_archived_record_ids = [],
      ma_reason = ''2 records share normalized content and overlapping validity; consolidated into one derived memory'',
      ma_action_digest = replicate 64 (CHR ''a''), ma_applied = False, ma_details = [(''observation_count'', JInt 2)]\<rparr>"

lemma mnt_dedupe_plan:
  "make_plan mnt_planner ''t'' ''ns'' [M_DEDUPE] 10 [] 5 None [smp_record 1 ACTIVE, mnt_later] =
     Inr \<lparr>mpn_actions = [mnt_dedupe], mpn_considered_record_count = 2, mpn_skipped_action_digests = []\<rparr>"
proof -
  let ?g = "[smp_record 1 ACTIVE, mnt_later]"
  have "in_scope ACTIVE 10 ?g = ?g" by (simp add: in_scope_def smp_record_def smp_temporal_def less_eq_prod_def)
  moreover have "plan_dedupe mnt_planner ''t'' ''ns'' ?g = Inr [mnt_dedupe]" by code_simp
  ultimately show ?thesis by (simp add: make_plan_def planned_actions_def stage_def)
qed

lemma plan_is_safe_witness:
  "\<exists>p. make_plan mnt_planner ''t'' ''ns'' [M_DEDUPE] 10 [] 5 None [smp_record 1 ACTIVE, mnt_later] = Inr p
     \<and> length (mpn_actions p) = 1
     \<and> distinct (concat (map (\<lambda>a. ma_superseded_record_ids a @ ma_archived_record_ids a) (mpn_actions p)))"
  using plan_is_safe [OF _ mnt_dedupe_plan] by (simp add: mnt_dedupe_plan)

lemma plan_order_free_witness:
  "make_plan mnt_planner ''t'' ''ns'' [M_DEDUPE] 10 [] 5 None [mnt_later, smp_record 1 ACTIVE] =
   make_plan mnt_planner ''t'' ''ns'' [M_DEDUPE] 10 [] 5 None [smp_record 1 ACTIVE, mnt_later]"
  by (rule plan_order_free) (simp_all add: smp_record_def)

lemma fold_case_xs: "folded (Some (replicate n (CHR ''x''))) = replicate n (CHR ''x'')"
  by (cases n) (simp_all add: folded_def strip_def lower_def is_space_def lower_char_def Let_def
    flip: replicate_Suc replicate_append_same)

lemma long_corroboration_aborts_witness:
  "\<exists>e. make_plan mnt_planner ''t'' ''ns'' [M_DEDUPE, M_REFINE] 10 [] 5 None
     [mnt_fact 1 (replicate 2000 (CHR ''x'')), mnt_fact 2 (replicate 2000 (CHR ''x''))] = Inl e"
proof -
  let ?o = "replicate 2000 (CHR ''x'')"
  have k: "assertion_key (mnt_fact i ?o) = Some (''s'', ''p'')" for i
  proof -
    have "folded (Some ''s'') = ''s''" "folded (Some ''p'') = ''p''" by code_simp+
    then show ?thesis by (simp add: assertion_key_def mnt_fact_def is_structured_def nonempty_opt_def)
  qed
  have ob: "assertion_object (mnt_fact i ?o) = ?o" for i
    by (simp add: assertion_object_def mnt_fact_def fold_case_xs)
  show ?thesis
    by (rule long_corroboration_aborts [where a = "mnt_fact 1 ?o" and b = "mnt_fact 2 ?o" and s = "''s''" and p = "''p''" and obj = ?o])
      (auto simp: k ob, auto simp: mnt_fact_def smp_record_def smp_temporal_def overlaps_def replicate_eq_replicate)
qed

end
