(* ===== verification/Spec2Isabelle.thy ===== *)
theory Spec2Isabelle
  imports OutboxLaws Authz Admission Curation Lineage Breaker Limiter Runtime InvalidationLaws ProjectionSamples Upcasters
    RetrievalSamples SqliteLaws MaintenanceSamples
begin

text \<open>
  Verification development of the canonical memory control plane, the Python package
  \<open>src/src/l9_graphite_memory\<close>.

  \<^bold>\<open>The program.\<close> Agents write memories through \<open>MemoryService\<close>
  (\<open>services/memory_service.py\<close>). A write is authorized by the namespace policy
  (\<open>authz/policy.py\<close>), normalized (\<open>admission/normalization.py\<close>) and judged by the admission
  engine (\<open>admission/engine.py\<close>); an accepted one is committed to the record store together
  with its receipt, its status events and the outbox intents that make each projection target
  (\<open>projections/runtime.py\<close>) follow. Records then move between lifecycle states, contradict
  one another, are locked by phase locks, archived, invalidated by source changes or deleted;
  every such operation is governed, leaves a receipt and commits in one store transaction.

  \<^bold>\<open>Theories.\<close>
    \<^item> \<open>Prelude\<close>: insertion-ordered dictionaries, operations as \<open>state \<Rightarrow> (error + value) \<times> state\<close>
      with \<open>andThen\<close>, \<open>try_catch\<close>, \<open>for_each\<close>, sorting, identifiers as \<open>128 word\<close>, and the
      collections \<open>keeps_intros\<close>, \<open>dict_simps\<close>, \<open>keyed_intros\<close> the proofs share.
    \<^item> \<open>Values\<close>, \<open>Contracts\<close>, \<open>Receipts\<close>: the data model of \<open>contracts/\<close>, \<open>errors.py\<close> and
      \<open>ports/\<close>: enums as datatypes, pydantic models as records, each validator as a
      \<open>make_*\<close> or \<open>validate_*\<close> function into \<open>error + value\<close>. \<open>Samples\<close> holds concrete values.
    \<^item> \<open>Authz\<close>: \<open>NamespacePolicy\<close> over a model of \<open>fnmatchcase\<close>.
    \<^item> \<open>Store\<close>: \<open>InMemoryRecordStore\<close> (\<open>adapters/in_memory_store.py\<close>), every method;
      \<open>StoreLaws\<close>: what \<open>commit_write\<close> does, when it is atomic and when it tears; \<open>StoreInvariant\<close>: the
      well-formedness every method keeps; \<open>OutboxLaws\<close>: leasing of outbox events.
    \<^item> \<open>Sqlite\<close> and \<open>SqliteStore\<close>: \<open>SQLiteRecordStore\<close> (\<open>adapters/sqlite_store.py\<close>), its tables as
      dictionaries of rows, every statement and every method. \<open>SqliteRefinement\<close> reads a database as
      the store it represents (\<open>store_of\<close>) and states when it is well formed (\<open>db_ok\<close>);
      \<open>SqliteSteps\<close> says what each statement does to that store, \<open>SqliteMethods\<close>, \<open>SqliteLinks\<close>,
      \<open>SqliteLedgers\<close> and \<open>SqliteDeletion\<close> that each method refines the in-memory method, and
      \<open>SqliteSimulation\<close> composes them over runs (the locale \<open>forward_simulation\<close>).
      \<open>SqliteLaws\<close>: the SQL store refines the in-memory store, its readers agree, a deletion
      scrubs its row, old databases are migrated, and a late clock makes a record unreadable.
      \<open>row_to_record\<close> reads documents of the current schema version.
    \<^item> \<open>Admission\<close>, \<open>Curation\<close>, \<open>Lineage\<close>, \<open>Breaker\<close>, \<open>Limiter\<close>, \<open>Runtime\<close>: one component each
      (\<open>admission/\<close>, \<open>curation/\<close>, \<open>lineage/replay.py\<close>, \<open>circuit_breaker.py\<close>,
      \<open>rate_limiter.py\<close>, \<open>projections/runtime.py\<close>).
    \<^item> \<open>PatternMatch\<close>: the part of Python's regular expressions the package uses, as terms with a
      backtracking matcher, \<open>search\<close>, \<open>sub\<close> and \<open>findall\<close>. \<open>Normalization\<close>
      (\<open>admission/normalization.py\<close>) on ASCII text: what redaction leaves in a text.
    \<^item> \<open>SchemaRegistry\<close> and \<open>Upcasters\<close> (\<open>schema/\<close>): the search of a migration path is total and
      finds a shortest one; migrated records have every field and migrate to themselves.
    \<^item> \<open>Ranking\<close> (\<open>retrieval/query_classifier.py\<close>, \<open>retrieval/ranking.py\<close>), \<open>Retrieval\<close>
      (\<open>retrieval/planner.py\<close>, \<open>retrieval/budget.py\<close>, \<open>search\<close> and \<open>hydrate\<close> of the service):
      \<open>RetrievalLaws\<close> shows what a search may return, \<open>HydrationLaws\<close> how it reports failures,
      that shadow targets have no influence, that a hydration is the greedy choice under its
      budget, and two faults; \<open>RetrievalSamples\<close> holds concrete searches.
    \<^item> \<open>MaintenancePlanner\<close> (\<open>maintenance/planner.py\<close>), \<open>MaintenanceLaws\<close> and \<open>MaintenanceSamples\<close>: the
      plan of a maintenance run; clusters are the connected components of overlapping validity,
      no record is consumed twice, the order of the listing does not matter, and long
      corroborating assertions make planning raise.
    \<^item> \<open>Service\<close>, \<open>ServiceWrite\<close>, \<open>ServiceLocks\<close>, \<open>ServiceLifecycle\<close>, \<open>InvalidationLaws\<close>: the
      memory service: reads and outbox intents, \<open>write\<close>, contradictions and phase locks,
      lifecycle transitions, source invalidation.
    \<^item> \<open>OutboxWorker\<close> (\<open>services/outbox_worker.py\<close>): construction, \<open>run_once\<close>, the project, retire
      and erase events, link installation. \<open>WorkerLaws\<close>: a batch accounts for what it claimed
      and every event is settled in the end; \<open>CopyLaws\<close>: the link ledger follows what reliable
      providers hold, so a completed deletion leaves no copy; \<open>CopyLeak\<close>: a copy whose withdrawal
      a provider refused is out of reach of every later event; \<open>CopySamples\<close>: concrete runs.
    \<^item> \<open>ServiceDelete\<close> (\<open>delete\<close>, \<open>apply_retention\<close>, \<open>prune\<close>) and \<open>DeletionLaws\<close>: what a deletion
      does and forgets, and a machine of deletions, worker batches and other processes in which
      no copy of a deleted record survives. \<open>ServiceProjection\<close> (\<open>rebuild_projection\<close>,
      \<open>record_graph_cutover\<close>, \<open>release_legacy_projection_copies\<close>, \<open>health\<close>), \<open>ProjectionLaws\<close> and
      \<open>ProjectionSamples\<close>: what a rebuild owes, when a cutover is recorded and what a release
      drops. What an adapter confirms or reports of its health is an argument there.

  \<^bold>\<open>How state and effects are modelled.\<close> The state is the record \<open>store\<close>, one field per
  dictionary or ledger of the in-memory store. Each method is an operation that returns
  \<open>Inl error\<close> or \<open>Inr value\<close> and the state it leaves, so that an exception in the middle of a
  method leaves exactly what the code had done by then. The store's lock makes a store method
  one step; a service method is the composition of its store steps, and what another caller
  may do in between is covered where a property needs it (an arbitrary state at the commit).
  Exception messages are kept up to their fixed text. The clock and the identifiers an
  operation draws come from \<open>env\<close>; distinctness of identifiers is a hypothesis only of the
  properties that need it and is stated for the finitely many drawn.

  \<^bold>\<open>Parameters.\<close> \<open>hash\<close> (SHA-256 of canonical JSON), \<open>dumps\<close> (\<open>json.dumps\<close> as sort key),
  and \<open>text_digest\<close> stand for library code; no property assumes anything of them. \<open>normalize\<close> is
  any text normalization, of which \<open>Normalization.normalize_candidate\<close> is the code's on ASCII. The
  answers of projection adapters to a search (\<open>pn_ask\<close>), \<open>float(text)\<close> (\<open>rk_parse_float\<close>), the
  rendering of instants and the clock and identifiers of the migrations (\<open>upcast_env\<close>) are
  arguments too. Floats are real numbers, without rounding or infinities. A projection
  provider is a \<open>provider\<close> record: what its calls do to a state of its own, and what other
  processes commit to the store meanwhile. \<open>CopyLaws\<close> assumes that a provider does what its calls report
  and that a failing call changes nothing (\<open>honest_provider\<close>), that it does not refuse to withdraw a
  copy it holds when the record stopped being current during the delivery (\<open>withdraws_reliably\<close>: an
  adapter that cannot resolve a freshly queued copy does refuse it, and \<open>CopyLeak\<close> shows what then
  remains), and that other processes do not rewrite links (\<open>others_behave\<close>). \<open>WorkerLaws\<close> assumes nothing
  of the answers of a provider, but that other processes, between the runs and during the calls, take
  no event or attempt away, respect the limit of attempts, and leave settled events and those under
  the worker's lease alone (\<open>others_progress\<close>): a call outlasts no lease. \<open>CopyLeak\<close> assumes neither.

  The order in which SQLite scans the rows of a query is the record \<open>engine\<close>; \<open>engine_ok\<close> assumes that
  a scan returns every selected row once. The refinement holds for calls that keep the ports' contract
  (\<open>call_fits\<close>): a written record passes its own validation (\<open>readable\<close>); the status events of one
  call name distinct records, and none
  supersedes a record before it was recorded (\<open>timely\<close>); a redacted record keeps identity and times
  (\<open>redaction_of\<close>); each link update of a legacy release replaces a link the release expects
  (\<open>updates_expected\<close>); and a claim finds the claimable events created at one instant, such as the
  events of one operation, in insertion order (\<open>claims_ordered\<close>). The last holds for an engine that
  scans in insertion order, and for any engine when no two claimable events share a creation time
  (\<open>claims_ordered_scan\<close>, \<open>claims_ordered_distinct\<close>). Listings agree when no two listed records were
  recorded at the same instant. A search is given the canonical candidates as a value: the in-memory
  store, which does not fail; a canonical store that raises is not modelled there.

  \<^bold>\<open>Termination.\<close> All definitions are total. Loops over collections are structural;
  the lineage walk recurses on the records not yet visited, the search of a migration path on
  the versions not yet visited, the scans of a text on what is left of it. No fuel is used.

  \<^bold>\<open>Not modelled.\<close> The PostgreSQL store, failures of the SQLite engine itself and the upgrade of its
  phase-lock and outbox tables from before schema 7, the graph database and HTTP adapters, the
  command line, the MCP server and its remote client, ingestion of repositories and documents, and
  observability: they are input and output around the core. The manifest lists every part.
\<close>

end
